(* ===== verification/Prelude.thy ===== *)
theory Prelude
  imports Main "HOL-Library.Word"
begin

text \<open>
  Shared ground of the development: the machine types of core/src/type_def.h, unsigned
  32-bit wrap-around on \<open>nat\<close>, the little-endian image of a \<open>uint32\<close> that the code reads and
  writes through \<open>char*\<close> casts, and the list idioms of the code's loops over repeated
  fields (update, delete or find the first match).
\<close>

unbundle bit_operations_syntax

named_theorems ring_simps \<open>index arithmetic of the ring buffer\<close>
named_theorems pool_simps \<open>operations of the object pools\<close>
named_theorems proto_simps \<open>accessors of the protocol messages\<close>

subsection \<open>Machine types\<close>

type_synonym byte = "8 word"
type_synonym u16 = "16 word"
type_synonym u32 = "32 word"
type_synonym u64 = "64 word"

text \<open>Sizes and offsets are kept as \<open>nat\<close>; where the code computes them in \<open>uint32\<close> the
  wrap-around is this function.\<close>

definition wrap32 :: "nat \<Rightarrow> nat" where
  "wrap32 n = n mod 2 ^ 32"

lemma wrap32_small: "n < 2 ^ 32 \<Longrightarrow> wrap32 n = n"
  by (simp add: wrap32_def)

lemma wrap32_add_2p32: "n < 2 ^ 32 \<Longrightarrow> wrap32 (n + 2 ^ 32) = n"
  by (simp add: wrap32_def)

text \<open>A remainder whose argument is below twice the modulus is one conditional subtraction.\<close>

lemma mod_once: "(x::nat) < 2 * s \<Longrightarrow> x mod s = (if x < s then x else x - s)"
  by (simp add: mod_if)

text \<open>A result, or an access outside an object.\<close>

datatype 'a outcome = Crash | Ret 'a

subsection \<open>The bytes of a \<open>uint32\<close>\<close>

text \<open>\<open>((char*)&x)[0..3]\<close> on the little-endian hosts the server is built for, and the value
  read back by \<open>*(uint32*)p\<close>.\<close>

definition le32 :: "nat \<Rightarrow> byte list" where
  "le32 n = [word_of_nat n, word_of_nat (n div 256), word_of_nat (n div 65536),
             word_of_nat (n div 16777216)]"

definition of_le32 :: "byte list \<Rightarrow> nat" where
  "of_le32 bs = unat (bs ! 0) + 256 * unat (bs ! 1) + 65536 * unat (bs ! 2)
                + 16777216 * unat (bs ! 3)"

lemma length_le32 [simp]: "length (le32 n) = 4"
  by (simp add: le32_def)

lemma of_le32_le32: "n < 2 ^ 32 \<Longrightarrow> of_le32 (le32 n) = n"
proof -
  assume n: "n < 2 ^ 32"
  define a b c where "a = n div 256" and "b = a div 256" and "c = b div 256"
  have d: "n div 65536 = b" "n div 16777216 = c"
    by (simp_all add: a_def b_def c_def flip: div_mult2_eq)
  have "c < 256"
    using n by (simp add: a_def b_def c_def less_mult_imp_div_less flip: div_mult2_eq)
  moreover have "n mod 256 + 256 * a = n" "a mod 256 + 256 * b = a" "b mod 256 + 256 * c = b"
    by (simp_all add: a_def b_def c_def)
  ultimately show ?thesis
    unfolding le32_def of_le32_def d a_def [symmetric]
    by (simp add: unat_of_nat)
qed

lemma of_le32_le32_append: "n < 2 ^ 32 \<Longrightarrow> of_le32 (le32 n @ xs) = n"
  using of_le32_le32 by (simp add: le32_def of_le32_def)

lemma of_le32_take: "4 \<le> length xs \<Longrightarrow> of_le32 (take 4 xs) = of_le32 xs"
  by (simp add: of_le32_def)

subsection \<open>Little-endian images of other sizes\<close>

fun le_bytes :: "nat \<Rightarrow> nat \<Rightarrow> byte list" where
  "le_bytes 0 n = []"
| "le_bytes (Suc k) n = word_of_nat n # le_bytes k (n div 256)"

fun of_le :: "byte list \<Rightarrow> nat" where
  "of_le [] = 0"
| "of_le (b # bs) = unat b + 256 * of_le bs"

lemma length_le_bytes [simp]: "length (le_bytes k n) = k"
  by (induction k arbitrary: n) auto

lemma of_le_le_bytes: "n < 256 ^ k \<Longrightarrow> of_le (le_bytes k n) = n"
proof (induction k arbitrary: n)
  case (Suc k)
  have "n div 256 < 256 ^ k" using Suc.prems by (simp add: less_mult_imp_div_less mult.commute)
  then show ?case using Suc.IH [of "n div 256"] by (simp add: unat_of_nat)
qed simp

lemma le_bytes_split: "le_bytes (k + m) n = le_bytes k n @ le_bytes m (n div 256 ^ k)"
  by (induction k arbitrary: n) (simp_all flip: div_mult2_eq)

lemma le_bytes_0 [simp]: "le_bytes k 0 = replicate k 0"
  by (induction k) simp_all

lemma of_le_zeros: "of_le (replicate n 0 @ bs) = 256 ^ n * of_le bs"
  by (induction n) simp_all

lemma of_le_bound: "of_le bs < 256 ^ length bs"
proof (induction bs)
  case (Cons b bs)
  have "unat b < 256" using unsigned_less [of b] by simp
  with Cons show ?case by simp
qed simp

subsection \<open>Loops over repeated fields\<close>

text \<open>\<open>for (i...) if (P(x_i)) { x_i = f(x_i); break; }\<close>\<close>

fun upd_first :: "('a \<Rightarrow> bool) \<Rightarrow> ('a \<Rightarrow> 'a) \<Rightarrow> 'a list \<Rightarrow> 'a list" where
  "upd_first P f [] = []"
| "upd_first P f (x # xs) = (if P x then f x # xs else x # upd_first P f xs)"

text \<open>\<open>for (i...) if (P(x_i)) { DeleteSubrange(i, 1); break; }\<close>\<close>

fun del_first :: "('a \<Rightarrow> bool) \<Rightarrow> 'a list \<Rightarrow> 'a list" where
  "del_first P [] = []"
| "del_first P (x # xs) = (if P x then xs else x # del_first P xs)"

text \<open>\<open>int index = -1; for (i...) if (P(x_i)) { index = i; break; }\<close>, \<open>None\<close> for \<open>-1\<close>.\<close>

fun index_of :: "('a \<Rightarrow> bool) \<Rightarrow> 'a list \<Rightarrow> nat option" where
  "index_of P [] = None"
| "index_of P (x # xs) = (if P x then Some 0 else map_option Suc (index_of P xs))"

lemma length_upd_first [simp]: "length (upd_first P f xs) = length xs"
  by (induction xs) auto

lemma upd_first_id: "\<not> list_ex P xs \<Longrightarrow> upd_first P f xs = xs"
  by (induction xs) auto

lemma map_upd_first: "(\<And>x. P x \<Longrightarrow> g (f x) = g x) \<Longrightarrow> map g (upd_first P f xs) = map g xs"
  by (induction xs) auto

lemma sum_upd_first:
  fixes h :: "'a \<Rightarrow> 'b::comm_ring_1"
  assumes "find P xs = Some x"
  shows "sum_list (map h (upd_first P f xs)) = sum_list (map h xs) - h x + h (f x)"
  using assms by (induction xs) (auto split: if_splits)

lemma sum_del_first:
  fixes h :: "'a \<Rightarrow> 'b::comm_ring_1"
  assumes "find P xs = Some x"
  shows "sum_list (map h (del_first P xs)) = sum_list (map h xs) - h x"
  using assms by (induction xs) (auto split: if_splits)

lemma find_None_iff_ex: "find P xs = None \<longleftrightarrow> \<not> list_ex P xs"
  by (induction xs) auto

lemma find_SomeD: "find P xs = Some x \<Longrightarrow> x \<in> set xs \<and> P x"
  by (induction xs) (auto split: if_splits)

lemma find_upd_first:
  "find P xs = Some x \<Longrightarrow> P (f x) \<Longrightarrow> find P (upd_first P f xs) = Some (f x)"
  by (induction xs) (auto split: if_splits)

lemma find_upd_first_other:
  "(\<And>x. P x \<Longrightarrow> \<not> Q x) \<Longrightarrow> (\<And>x. P x \<Longrightarrow> \<not> Q (f x)) \<Longrightarrow> find Q (upd_first P f xs) = find Q xs"
  by (induction xs) auto

lemma find_del_first_other:
  "(\<And>x. P x \<Longrightarrow> \<not> Q x) \<Longrightarrow> find Q (del_first P xs) = find Q xs"
  by (induction xs) auto

lemma index_of_None: "index_of P xs = None \<longleftrightarrow> (\<forall>x\<in>set xs. \<not> P x)"
  by (induction xs) auto

lemma index_of_Some:
  "index_of P xs = Some i \<Longrightarrow> i < length xs \<and> P (xs ! i) \<and> (\<forall>j<i. \<not> P (xs ! j))"
proof (induction xs arbitrary: i)
  case (Cons x xs)
  show ?case
  proof (cases "P x")
    case False
    with Cons.prems obtain k where k: "i = Suc k" "index_of P xs = Some k" by auto
    with Cons.IH [OF k(2)] False show ?thesis by (auto simp: less_Suc_eq_0_disj)
  qed (use Cons.prems in auto)
qed simp

lemma list_ex_index_of: "list_ex P xs \<longleftrightarrow> index_of P xs \<noteq> None"
  by (induction xs) auto

end
