(* ===== verification/ShmPipe.thy ===== *)
theory ShmPipe
  imports Prelude
begin

text \<open>
  core/src/shm_pipe.cpp: the single-producer single-consumer byte ring in shared memory
  over which the connect servers and the logic servers exchange messages, and in which a
  logic server queues its own messages. A message is stored as its length (four bytes,
  byte by byte around the end of the buffer) followed by its bytes (one or two
  \<open>memcpy\<close>s). The model keeps the buffer as a list of bytes; an access outside the
  buffer is the fault \<open>None\<close>.
\<close>

subsection \<open>State\<close>

record shm_pipe =
  sp_begin :: nat
  sp_end :: nat
  sp_size :: nat
  sp_buf :: "byte list"

text \<open>\<open>sp_buf\<close> is the part of the segment behind the three \<open>uint32\<close> fields, so its length is
  \<open>pshm->GetByteSize() - sizeof(*this)\<close>.\<close>

definition Initialize :: "shm_pipe \<Rightarrow> shm_pipe" where
  "Initialize p = p\<lparr>sp_begin := 0, sp_end := 0, sp_size := wrap32 (length (sp_buf p))\<rparr>"

definition Reuse :: "shm_pipe \<Rightarrow> shm_pipe" where
  "Reuse p = p\<lparr>sp_size := wrap32 (length (sp_buf p))\<rparr>"

definition ShmPipe_ctor :: "bool \<Rightarrow> shm_pipe \<Rightarrow> shm_pipe" where
  "ShmPipe_ctor exist p = (if \<not> exist then Initialize p else Reuse p)"

definition GetIndex :: "shm_pipe \<Rightarrow> nat \<times> nat" where
  "GetIndex p = (sp_begin p, sp_end p)"

definition SetIndex :: "nat option \<Rightarrow> nat option \<Rightarrow> shm_pipe \<Rightarrow> shm_pipe" where
  "SetIndex b e p =
     (let p1 = (case b of Some i \<Rightarrow> if i < sp_size p then p\<lparr>sp_begin := i\<rparr> else p | None \<Rightarrow> p)
      in (case e of Some i \<Rightarrow> if i < sp_size p then p1\<lparr>sp_end := i\<rparr> else p1 | None \<Rightarrow> p1))"

definition GetLeftSize :: "shm_pipe \<Rightarrow> nat" where
  "GetLeftSize p =
     (let (b, e) = GetIndex p;
          size = (if b = e then sp_size p
                  else if b > e then b - e
                  else wrap32 (sp_size p + 2 ^ 32 - e + b))
      in wrap32 (size + 2 ^ 32 - 1))"

text \<open>In the wrapped case the code adds \<open>begin - end\<close> to the size where the number of used
  bytes is the size less that difference; the model keeps the code's expression.\<close>

definition GetUsedSize :: "shm_pipe \<Rightarrow> nat" where
  "GetUsedSize p =
     (let (b, e) = GetIndex p
      in if b = e then 0
         else if b < e then e - b
         else wrap32 (sp_size p + b + 2 ^ 32 - e))"

subsection \<open>Byte access\<close>

definition memcpy_to :: "byte list \<Rightarrow> nat \<Rightarrow> byte list \<Rightarrow> byte list option" where
  "memcpy_to m off bs =
     (if off + length bs \<le> length m
      then Some (take off m @ bs @ drop (off + length bs) m) else None)"

definition memcpy_from :: "byte list \<Rightarrow> nat \<Rightarrow> nat \<Rightarrow> byte list option" where
  "memcpy_from m off n = (if off + n \<le> length m then Some (take n (drop off m)) else None)"

fun put_bytes :: "byte list \<Rightarrow> nat \<Rightarrow> nat \<Rightarrow> byte list \<Rightarrow> (byte list \<times> nat) option" where
  "put_bytes m sz e [] = Some (m, e)"
| "put_bytes m sz e (b # bs) =
     (if e < length m then put_bytes (m[e := b]) sz (wrap32 (e + 1) mod sz) bs else None)"

fun get_bytes :: "byte list \<Rightarrow> nat \<Rightarrow> nat \<Rightarrow> nat \<Rightarrow> (byte list \<times> nat) option" where
  "get_bytes m sz b 0 = Some ([], b)"
| "get_bytes m sz b (Suc n) =
     (if b < length m
      then (case get_bytes m sz (wrap32 (b + 1) mod sz) n of
              None \<Rightarrow> None
            | Some (bs, b') \<Rightarrow> Some (m ! b # bs, b'))
      else None)"

subsection \<open>AppendOneData and GetOneData\<close>

text \<open>The copy of the message body behind its length, in one or two pieces.\<close>

definition append_copy :: "byte list \<Rightarrow> nat \<Rightarrow> nat \<Rightarrow> nat \<Rightarrow> byte list \<Rightarrow> byte list option" where
  "append_copy m sz tmp_begin tmp_end buf =
     (if tmp_begin > tmp_end then memcpy_to m tmp_end buf
      else
        let pipe_left = sz - tmp_end in
        if pipe_left \<ge> length buf then memcpy_to m tmp_end buf
        else
          case memcpy_to m tmp_end (take pipe_left buf) of
            None \<Rightarrow> None
          | Some m1 \<Rightarrow> memcpy_to m1 0 (drop pipe_left buf))"

definition AppendOneData :: "byte list \<Rightarrow> shm_pipe \<Rightarrow> (bool \<times> shm_pipe) option" where
  "AppendOneData buf p =
     (let buf_len = length buf; left = GetLeftSize p in
      if buf_len + 4 > left then Some (False, p)
      else
        let (tmp_begin, tmp_end) = GetIndex p in
        case put_bytes (sp_buf p) (sp_size p) tmp_end (le32 buf_len) of
          None \<Rightarrow> None
        | Some (m, tmp_end) \<Rightarrow>
            (case append_copy m (sp_size p) tmp_begin tmp_end buf of
               None \<Rightarrow> None
             | Some m2 \<Rightarrow>
                 Some (True, SetIndex None (Some (wrap32 (tmp_end + buf_len) mod sp_size p))
                                      (p\<lparr>sp_buf := m2\<rparr>))))"

definition get_copy :: "byte list \<Rightarrow> nat \<Rightarrow> nat \<Rightarrow> nat \<Rightarrow> nat \<Rightarrow> byte list option" where
  "get_copy m sz tmp_begin tmp_end buf_len =
     (if tmp_begin < tmp_end then memcpy_from m tmp_begin buf_len
      else
        let pipe_left = sz - tmp_begin in
        if pipe_left \<ge> buf_len then memcpy_from m tmp_begin buf_len
        else
          case memcpy_from m tmp_begin pipe_left of
            None \<Rightarrow> None
          | Some b1 \<Rightarrow>
              (case memcpy_from m 0 (buf_len - pipe_left) of
                 None \<Rightarrow> None
               | Some b2 \<Rightarrow> Some (b1 @ b2)))"

text \<open>The caller's buffer holds \<open>max_buf_len\<close> bytes. \<open>Some (None, p')\<close> is the answer
  \<open>false\<close>, \<open>Some (Some buf, p')\<close> the answer \<open>true\<close> with the bytes and the length stored.\<close>

definition GetOneData :: "nat \<Rightarrow> shm_pipe \<Rightarrow> (byte list option \<times> shm_pipe) option" where
  "GetOneData max_buf_len p =
     (let (tmp_begin, tmp_end) = GetIndex p; used = GetUsedSize p in
      if used = 0 then Some (None, p)
      else if used < 4 then Some (None, SetIndex (Some tmp_end) None p)
      else
        case get_bytes (sp_buf p) (sp_size p) tmp_begin 4 of
          None \<Rightarrow> None
        | Some (hdr, tmp_begin) \<Rightarrow>
            let buf_len = of_le32 hdr in
            if buf_len + 4 > used then Some (None, SetIndex (Some tmp_end) None p)
            else if buf_len > max_buf_len then Some (None, p)
            else
              case get_copy (sp_buf p) (sp_size p) tmp_begin tmp_end buf_len of
                None \<Rightarrow> None
              | Some buf \<Rightarrow>
                  Some (Some buf,
                        SetIndex (Some (wrap32 (tmp_begin + buf_len) mod sp_size p)) None p))"

subsection \<open>Reads and writes around the ring\<close>

definition ring_read :: "byte list \<Rightarrow> nat \<Rightarrow> nat \<Rightarrow> byte list" where
  "ring_read m b n = map (\<lambda>i. m ! ((b + i) mod length m)) [0..<n]"

definition ring_put :: "byte list \<Rightarrow> nat \<Rightarrow> byte list \<Rightarrow> byte list" where
  "ring_put m e bs =
     map (\<lambda>j. let k = (j + length m - e) mod length m in if k < length bs then bs ! k else m ! j)
         [0..<length m]"

lemma length_ring_put [simp]: "length (ring_put m e bs) = length m"
  by (simp add: ring_put_def)

lemma length_ring_read [simp]: "length (ring_read m b n) = n"
  by (simp add: ring_read_def)

lemma ring_put_Nil [simp]: "ring_put m e [] = m"
  by (auto simp: ring_put_def intro: nth_equalityI)

lemma ring_dist:
  assumes "j < (s::nat)" "e < s"
  shows "(j + s - e) mod s = (if e \<le> j then j - e else j + s - e)"
  using assms by (auto simp: mod_if)

lemma ring_dist_Suc:
  assumes "j < (s::nat)" "e < s" "j \<noteq> e"
  shows "(j + s - e) mod s = Suc ((j + s - Suc e mod s) mod s)"
proof -
  have r: "Suc e mod s = (if Suc e < s then Suc e else 0)" "Suc e mod s < s"
    using assms by (auto simp: mod_once)
  show ?thesis unfolding ring_dist [OF assms(1,2)] ring_dist [OF assms(1) r(2)]
    using assms r by auto
qed

lemma nth_ring_put:
  "j < length m \<Longrightarrow> ring_put m e bs ! j =
    (if (j + length m - e) mod length m < length bs
     then bs ! ((j + length m - e) mod length m) else m ! j)"
  by (simp add: ring_put_def)

lemma ring_put_Cons:
  assumes "e < length m" "length bs < length m"
  shows "ring_put m e (b # bs) = ring_put (m[e := b]) (Suc e mod length m) bs"
proof (rule nth_equalityI)
  fix j assume "j < length (ring_put m e (b # bs))"
  then have j: "j < length m" by simp
  show "ring_put m e (b # bs) ! j = ring_put (m[e := b]) (Suc e mod length m) bs ! j"
  proof (cases "j = e")
    case True
    have "(e + length m - Suc e mod length m) mod length m = length m - 1"
      using assms by (auto simp: mod_once)
    with True j assms show ?thesis by (auto simp: nth_ring_put)
  next
    case False
    with j assms show ?thesis by (simp add: nth_ring_put ring_dist_Suc)
  qed
qed simp

lemma ring_put_append:
  assumes "e < length m" "length bs + length cs \<le> length m"
  shows "ring_put m e (bs @ cs) = ring_put (ring_put m e bs) ((e + length bs) mod length m) cs"
  using assms
proof (induction bs arbitrary: m e)
  case (Cons b bs)
  let ?e = "Suc e mod length m"
  have e: "?e < length m" using Cons.prems(1) by (intro mod_less_divisor) linarith
  have "ring_put m e ((b # bs) @ cs) = ring_put (m[e := b]) ?e (bs @ cs)"
    using Cons.prems by (simp add: ring_put_Cons)
  also have "\<dots> = ring_put (ring_put (m[e := b]) ?e bs) ((?e + length bs) mod length m) cs"
    using Cons.IH [of ?e "m[e := b]"] Cons.prems e by simp
  also have "ring_put (m[e := b]) ?e bs = ring_put m e (b # bs)"
    using Cons.prems by (simp add: ring_put_Cons)
  finally show ?case by (simp add: mod_add_left_eq)
qed simp

lemma put_bytes_ring:
  assumes "e < length m" "length bs \<le> length m" "length m < 2 ^ 31"
  shows "put_bytes m (length m) e bs = Some (ring_put m e bs, (e + length bs) mod length m)"
  using assms
proof (induction bs arbitrary: m e)
  case (Cons b bs)
  let ?e = "Suc e mod length m"
  have "?e < length m" using Cons.prems(1) by (intro mod_less_divisor) linarith
  then have "put_bytes (m[e := b]) (length m) ?e bs
      = Some (ring_put (m[e := b]) ?e bs, (?e + length bs) mod length m)"
    using Cons.IH [of ?e "m[e := b]"] Cons.prems by simp
  with Cons.prems show ?case
    by (simp add: ring_put_Cons wrap32_small mod_add_left_eq)
qed simp

lemma memcpy_to_ring:
  assumes "e < length m" "e + length bs \<le> length m"
  shows "memcpy_to m e bs = Some (ring_put m e bs)"
proof -
  have "take e m @ bs @ drop (e + length bs) m = ring_put m e bs"
    by (rule nth_equalityI)
       (use assms in \<open>auto simp: ring_put_def Let_def ring_dist nth_append\<close>)
  with assms show ?thesis by (simp add: memcpy_to_def)
qed

lemma ring_dist_add:
  assumes "b < (s::nat)" "i < s" "n \<le> s"
  shows "((b + i) mod s + s - (b + n) mod s) mod s = (if n \<le> i then i - n else i + s - n)"
proof -
  have m: "(b + i) mod s = (if b + i < s then b + i else b + i - s)"
      "(b + n) mod s = (if b + n < s then b + n else b + n - s)"
    using assms by (auto simp: mod_once)
  have l: "(b + i) mod s < s" "(b + n) mod s < s" using assms by auto
  show ?thesis unfolding ring_dist [OF l] unfolding m using assms by auto
qed

lemma ring_read_ring_put:
  assumes "b < length m" "n + length bs \<le> length m"
  shows "ring_read (ring_put m ((b + n) mod length m) bs) b (n + length bs) = ring_read m b n @ bs"
proof (rule nth_equalityI)
  fix i assume "i < length (ring_read (ring_put m ((b + n) mod length m) bs) b (n + length bs))"
  then have i: "i < n + length bs" by simp
  have "(b + i) mod length m < length m" using assms(1) by (intro mod_less_divisor) linarith
  with i assms show "ring_read (ring_put m ((b + n) mod length m) bs) b (n + length bs) ! i
      = (ring_read m b n @ bs) ! i"
    by (auto simp: ring_read_def nth_ring_put ring_dist_add nth_append)
qed simp

lemma ring_read_add:
  "ring_read m b (n + k) = ring_read m b n @ ring_read m ((b + n) mod length m) k"
  by (rule nth_equalityI) (auto simp: ring_read_def nth_append mod_add_left_eq)

lemma ring_read_linear: "b + n \<le> length m \<Longrightarrow> ring_read m b n = take n (drop b m)"
  by (rule nth_equalityI) (auto simp: ring_read_def)

lemma get_bytes_ring:
  assumes "b < length m" "length m < 2 ^ 31"
  shows "get_bytes m (length m) b n = Some (ring_read m b n, (b + n) mod length m)"
  using assms
proof (induction n arbitrary: b)
  case (Suc n)
  let ?b = "Suc b mod length m"
  have "?b < length m" using Suc.prems(1) by (intro mod_less_divisor) linarith
  then have "get_bytes m (length m) ?b n = Some (ring_read m ?b n, (?b + n) mod length m)"
    using Suc by simp
  moreover have "m ! b # ring_read m ?b n = ring_read m b (Suc n)"
    using ring_read_add [of m b 1 n] Suc.prems by (simp add: ring_read_def)
  ultimately show ?case
    using Suc.prems by (simp add: wrap32_small mod_add_left_eq)
qed (simp add: ring_read_def)

lemma memcpy_from_ring: "b + n \<le> length m \<Longrightarrow> memcpy_from m b n = Some (ring_read m b n)"
  by (simp add: memcpy_from_def ring_read_linear)

subsection \<open>Invariant and abstraction\<close>

definition pipe_inv :: "shm_pipe \<Rightarrow> bool" where
  "pipe_inv p \<longleftrightarrow> length (sp_buf p) = sp_size p \<and> sp_size p < 2 ^ 31
                  \<and> sp_begin p < sp_size p \<and> sp_end p < sp_size p"

definition used :: "shm_pipe \<Rightarrow> nat" where
  "used p = (sp_end p + sp_size p - sp_begin p) mod sp_size p"

definition content :: "shm_pipe \<Rightarrow> byte list" where
  "content p = ring_read (sp_buf p) (sp_begin p) (used p)"

lemma length_content [simp]: "length (content p) = used p"
  by (simp add: content_def)

lemma used_eq:
  "pipe_inv p \<Longrightarrow> used p = (if sp_begin p \<le> sp_end p then sp_end p - sp_begin p
                             else sp_end p + sp_size p - sp_begin p)"
  by (simp add: pipe_inv_def used_def ring_dist)

lemma used_less: "pipe_inv p \<Longrightarrow> used p < sp_size p"
  unfolding used_def pipe_inv_def by (intro mod_less_divisor) linarith

lemma end_eq: "pipe_inv p \<Longrightarrow> (sp_begin p + used p) mod sp_size p = sp_end p"
  by (auto simp: used_eq pipe_inv_def mod_once)

lemma GetLeftSize_eq: "pipe_inv p \<Longrightarrow> GetLeftSize p = sp_size p - 1 - used p"
  by (auto simp: GetLeftSize_def GetIndex_def used_eq pipe_inv_def wrap32_def mod_if)

lemma GetUsedSize_eq:
  "pipe_inv p \<Longrightarrow> GetUsedSize p =
     (if sp_begin p \<le> sp_end p then used p else sp_size p + (sp_begin p - sp_end p))"
  by (auto simp: GetUsedSize_def GetIndex_def used_eq pipe_inv_def wrap32_def mod_if)

lemma GetUsedSize_ge: "pipe_inv p \<Longrightarrow> used p \<le> GetUsedSize p"
  using used_less [of p] by (auto simp: GetUsedSize_eq)

lemma GetUsedSize_zero: "pipe_inv p \<Longrightarrow> GetUsedSize p = 0 \<longleftrightarrow> used p = 0"
  by (auto simp: GetUsedSize_eq used_eq pipe_inv_def)

subsection \<open>The two operations on the abstraction\<close>

definition frame :: "byte list \<Rightarrow> byte list" where
  "frame buf = le32 (length buf) @ buf"

lemma length_frame [simp]: "length (frame buf) = 4 + length buf"
  by (simp add: frame_def)

text \<open>An accepted message is written behind the used part, at the indices the ring model says.\<close>

lemma AppendOneData_accept:
  assumes inv: "pipe_inv p" and fits: "length buf + 4 + used p < sp_size p"
  shows "AppendOneData buf p = Some (True, p
           \<lparr>sp_buf := ring_put (sp_buf p) (sp_end p) (frame buf),
            sp_end := (sp_end p + length (frame buf)) mod sp_size p\<rparr>)"
proof -
  define s m e b where "s = sp_size p" and "m = sp_buf p" and "e = sp_end p" and "b = sp_begin p"
  define e1 m1 where "e1 = (e + 4) mod s" and "m1 = ring_put m e (le32 (length buf))"
  have i: "length m = s" "s < 2 ^ 31" "b < s" "e < s" "e1 < s" "length m1 = s"
    using inv unfolding pipe_inv_def s_def m_def e_def b_def e1_def m1_def
    by (auto intro: mod_less_divisor)
  have u: "used p = (if b \<le> e then e - b else e + s - b)"
    using used_eq [OF inv] by (simp add: s_def e_def b_def)
  have fits': "length buf + 4 + used p < s" using fits by (simp add: s_def)
  have hdr: "put_bytes m s e (le32 (length buf)) = Some (m1, e1)"
    using put_bytes_ring [of e m "le32 (length buf)"] i fits' by (simp add: m1_def e1_def)
  have whole: "ring_put m1 e1 buf = ring_put m e (frame buf)"
    using ring_put_append [of e m "le32 (length buf)" buf] i fits'
    by (simp add: frame_def m1_def e1_def)
  have split2: "ring_put (ring_put m1 e1 (take (s - e1) buf)) 0 (drop (s - e1) buf)
      = ring_put m e (frame buf)" if "s - e1 \<le> length buf"
    using ring_put_append [of e1 m1 "take (s - e1) buf" "drop (s - e1) buf"] i fits' that whole
    by simp
  have e1: "e1 = (if e + 4 < s then e + 4 else e + 4 - s)"
    using i fits' by (simp add: e1_def mod_once)
  have copied: "append_copy m1 s b e1 buf = Some (ring_put m e (frame buf))"
  proof (cases "b > e1 \<or> s - e1 \<ge> length buf")
    case True
    then have "e1 + length buf \<le> s" using i fits' u e1 by (auto split: if_splits)
    then have "memcpy_to m1 e1 buf = Some (ring_put m e (frame buf))"
      using i whole by (simp add: memcpy_to_ring)
    with True show ?thesis by (auto simp: append_copy_def get_copy_def Let_def)
  next
    case False
    then have "memcpy_to m1 e1 (take (s - e1) buf) = Some (ring_put m1 e1 (take (s - e1) buf))"
      using i by (intro memcpy_to_ring) auto
    moreover have "memcpy_to (ring_put m1 e1 (take (s - e1) buf)) 0 (drop (s - e1) buf)
        = Some (ring_put m e (frame buf))"
      using False i fits' split2 by (simp add: memcpy_to_ring)
    ultimately show ?thesis using False by (simp add: append_copy_def get_copy_def Let_def)
  qed
  have left: "\<not> length buf + 4 > GetLeftSize p"
    using fits' by (simp add: GetLeftSize_eq [OF inv] s_def)
  have "wrap32 (e1 + length buf) = e1 + length buf"
    using i fits' by (intro wrap32_small) auto
  then have "wrap32 (e1 + length buf) mod s = (e + length (frame buf)) mod s"
    by (simp add: e1_def mod_add_left_eq add.assoc)
  moreover have "(e + length (frame buf)) mod s < s" using i by (intro mod_less_divisor) linarith
  ultimately show ?thesis
    using left hdr copied
    by (simp add: AppendOneData_def GetIndex_def SetIndex_def Let_def
        flip: s_def m_def e_def b_def)
qed

lemma AppendOneData_reject:
  "pipe_inv p \<Longrightarrow> \<not> length buf + 4 + used p < sp_size p \<Longrightarrow> AppendOneData buf p = Some (False, p)"
  using used_less [of p] by (auto simp: AppendOneData_def GetLeftSize_eq Let_def)

lemma AppendOneData_content:
  assumes inv: "pipe_inv p" and fits: "length buf + 4 + used p < sp_size p"
    and q: "q = p\<lparr>sp_buf := ring_put (sp_buf p) (sp_end p) (frame buf),
                  sp_end := (sp_end p + length (frame buf)) mod sp_size p\<rparr>"
  shows "pipe_inv q" "content q = content p @ frame buf"
proof -
  have e: "(sp_end p + length (frame buf)) mod sp_size p < sp_size p"
    using inv by (intro mod_less_divisor) (auto simp: pipe_inv_def)
  then show inv': "pipe_inv q" using inv by (simp add: q pipe_inv_def)
  have "used q = used p + length (frame buf)"
    using inv' inv fits by (auto simp: used_eq q mod_once pipe_inv_def)
  moreover have "sp_end p = (sp_begin p + used p) mod sp_size p" by (simp add: end_eq [OF inv])
  ultimately show "content q = content p @ frame buf"
    using ring_read_ring_put [of "sp_begin p" "sp_buf p" "used p" "frame buf"] inv fits
    by (simp add: content_def q pipe_inv_def)
qed

text \<open>A message at the head of the used part is handed out when it fits the reader's buffer.\<close>

lemma content_head:
  assumes "content p = frame buf @ rest" "length buf < 2 ^ 32"
  shows "of_le32 (ring_read (sp_buf p) (sp_begin p) 4) = length buf"
    and "ring_read (sp_buf p) ((sp_begin p + 4) mod length (sp_buf p)) (length buf) = buf"
    and "ring_read (sp_buf p) ((sp_begin p + 4 + length buf) mod length (sp_buf p)) (length rest) = rest"
    and "used p = 4 + length buf + length rest"
proof -
  define m b where "m = sp_buf p" and "b = sp_begin p"
  show u: "used p = 4 + length buf + length rest"
    using assms(1) by (metis length_content length_append length_frame)
  have eq: "ring_read m b 4 @ ring_read m ((b + 4) mod length m) (length buf)
      @ ring_read m ((b + 4 + length buf) mod length m) (length rest)
      = le32 (length buf) @ buf @ rest"
    using assms(1) ring_read_add [of m b 4 "length buf + length rest"]
      ring_read_add [of m "(b + 4) mod length m" "length buf" "length rest"]
    by (simp add: content_def u frame_def m_def b_def mod_add_left_eq add.assoc)
  then have "ring_read m b 4 = le32 (length buf)"
    and "ring_read m ((b + 4) mod length m) (length buf) = buf"
    and "ring_read m ((b + 4 + length buf) mod length m) (length rest) = rest"
    by simp_all
  then show "of_le32 (ring_read (sp_buf p) (sp_begin p) 4) = length buf"
    and "ring_read (sp_buf p) ((sp_begin p + 4) mod length (sp_buf p)) (length buf) = buf"
    and "ring_read (sp_buf p) ((sp_begin p + 4 + length buf) mod length (sp_buf p)) (length rest) = rest"
    using assms(2) by (simp_all add: m_def b_def of_le32_le32)
qed

lemma GetOneData_empty: "pipe_inv p \<Longrightarrow> content p = [] \<Longrightarrow> GetOneData max_len p = Some (None, p)"
  using GetUsedSize_zero [of p] length_content [of p]
  by (simp add: GetOneData_def Let_def split: prod.split)

lemma GetOneData_too_long:
  assumes inv: "pipe_inv p" and c: "content p = frame buf @ rest"
    and l: "length buf < 2 ^ 32" "max_len < length buf"
  shows "GetOneData max_len p = Some (None, p)"
proof -
  have "used p \<le> GetUsedSize p" "used p = 4 + length buf + length rest"
    using GetUsedSize_ge [OF inv] content_head(4) [OF c l(1)] by auto
  moreover have "get_bytes (sp_buf p) (sp_size p) (sp_begin p) 4
      = Some (ring_read (sp_buf p) (sp_begin p) 4, (sp_begin p + 4) mod sp_size p)"
    using get_bytes_ring [of "sp_begin p" "sp_buf p" 4] inv by (simp add: pipe_inv_def)
  ultimately show ?thesis
    using l content_head(1) [OF c l(1)]
    by (simp add: GetOneData_def GetIndex_def Let_def del: get_bytes.simps)
qed

lemma GetOneData_head:
  assumes inv: "pipe_inv p" and c: "content p = frame buf @ rest" and l: "length buf \<le> max_len"
  shows "GetOneData max_len p
      = Some (Some buf, p\<lparr>sp_begin := (sp_begin p + length (frame buf)) mod sp_size p\<rparr>)"
proof -
  define s m e b b1 where "s = sp_size p" and "m = sp_buf p" and "e = sp_end p"
    and "b = sp_begin p" and "b1 = (sp_begin p + 4) mod sp_size p"
  note ul = used_less [OF inv]
  have i: "length m = s" "s < 2 ^ 31" "b < s" "e < s" "b1 < s"
    using inv unfolding pipe_inv_def s_def m_def e_def b_def b1_def
    by (auto intro: mod_less_divisor)
  have u: "used p = (if b \<le> e then e - b else e + s - b)"
    using used_eq [OF inv] by (simp add: s_def e_def b_def)
  have "4 + length buf \<le> used p" using arg_cong [OF c, of length] by simp
  then have l32: "length buf < 2 ^ 32" and us: "4 + length buf \<le> used p" "used p < s"
    using ul i by (simp_all add: s_def)
  have b1: "b1 = (if b + 4 < s then b + 4 else b + 4 - s)"
    using i us by (simp add: b1_def mod_once flip: s_def b_def)
  have buf: "ring_read m b1 (length buf) = buf"
    using content_head(2) [OF c l32] i by (simp add: m_def b1_def s_def)
  have copied: "get_copy m s b1 e (length buf) = Some buf"
  proof (cases "b1 < e \<or> s - b1 \<ge> length buf")
    case True
    then have "b1 + length buf \<le> s" using i us u b1 by (auto split: if_splits)
    then have "memcpy_from m b1 (length buf) = Some buf"
      using i buf by (simp add: memcpy_from_ring)
    with True show ?thesis by (auto simp: append_copy_def get_copy_def Let_def)
  next
    case False
    then have "memcpy_from m b1 (s - b1) = Some (ring_read m b1 (s - b1))"
        "memcpy_from m 0 (length buf - (s - b1)) = Some (ring_read m 0 (length buf - (s - b1)))"
      using i us by (auto intro!: memcpy_from_ring)
    moreover have "ring_read m b1 (s - b1) @ ring_read m 0 (length buf - (s - b1)) = buf"
    proof -
      have "length buf = (s - b1) + (length buf - (s - b1))" using False by simp
      then have "buf = ring_read m b1 ((s - b1) + (length buf - (s - b1)))" using buf by simp
      then show ?thesis unfolding ring_read_add using i by simp
    qed
    ultimately show ?thesis using False by (simp add: append_copy_def get_copy_def Let_def)
  qed
  have g: "\<not> GetUsedSize p < 4" "GetUsedSize p \<noteq> 0" "\<not> length buf + 4 > GetUsedSize p"
    using GetUsedSize_ge [OF inv] us by auto
  have hdr: "get_bytes m s b 4 = Some (ring_read m b 4, b1)"
    using get_bytes_ring [of b m 4] i by (simp add: b1_def s_def b_def)
  have len: "of_le32 (ring_read m b 4) = length buf"
    using content_head(1) [OF c l32] by (simp add: m_def b_def)
  have "wrap32 (b1 + length buf) = b1 + length buf"
    using i us by (intro wrap32_small) auto
  then have "wrap32 (b1 + length buf) mod s = (b + length (frame buf)) mod s"
    by (simp add: b1_def s_def b_def mod_add_left_eq add.assoc)
  moreover have "(b + length (frame buf)) mod s < s" using i by (intro mod_less_divisor) linarith
  ultimately show ?thesis
    using g hdr len copied l
    by (simp add: GetOneData_def GetIndex_def SetIndex_def Let_def del: get_bytes.simps
        flip: s_def m_def e_def b_def)
qed

lemma GetOneData_content:
  assumes inv: "pipe_inv p" and c: "content p = frame buf @ rest"
    and q: "q = p\<lparr>sp_begin := (sp_begin p + length (frame buf)) mod sp_size p\<rparr>"
  shows "pipe_inv q" "content q = rest"
proof -
  have u: "used p = 4 + length buf + length rest"
    using arg_cong [OF c, of length] by simp
  then have l: "length buf < 2 ^ 32" using used_less [OF inv] inv by (simp add: pipe_inv_def)
  have b: "(sp_begin p + length (frame buf)) mod sp_size p < sp_size p"
    using inv by (intro mod_less_divisor) (auto simp: pipe_inv_def)
  then show inv': "pipe_inv q" using inv by (simp add: q pipe_inv_def)
  have "used q = length rest"
    using inv' inv u used_less [OF inv] unfolding used_eq [OF inv'] used_eq [OF inv]
    by (auto simp: q mod_once pipe_inv_def split: if_splits)
  then show "content q = rest"
    using content_head(3) [OF c l] inv by (simp add: content_def q pipe_inv_def add.assoc)
qed

subsection \<open>The pipe is a bounded queue of messages\<close>

definition pipe_rep :: "shm_pipe \<Rightarrow> byte list list \<Rightarrow> bool" where
  "pipe_rep p q \<longleftrightarrow> pipe_inv p \<and> content p = concat (map frame q)"

text \<open>The interface the servers rely on: a queue with a bounded \<open>put\<close> that may refuse and a
  \<open>get\<close> that delivers the oldest message when the reader's buffer can hold it. The laws say
  what each call does to the abstract queue, and that no call faults.\<close>

datatype 'm pipe_op = Put 'm | Take nat

fun run_ops :: "('m \<Rightarrow> 'p \<Rightarrow> (bool \<times> 'p) option) \<Rightarrow> (nat \<Rightarrow> 'p \<Rightarrow> ('m option \<times> 'p) option)
    \<Rightarrow> 'm pipe_op list \<Rightarrow> 'p \<Rightarrow> ('m list \<times> 'm list \<times> 'p) option" where
  "run_ops put get [] p = Some ([], [], p)"
| "run_ops put get (Put m # ops) p =
     (case put m p of None \<Rightarrow> None
      | Some (ok, p1) \<Rightarrow>
          (case run_ops put get ops p1 of None \<Rightarrow> None
           | Some (ins, outs, p2) \<Rightarrow> Some (if ok then m # ins else ins, outs, p2)))"
| "run_ops put get (Take n # ops) p =
     (case get n p of None \<Rightarrow> None
      | Some (r, p1) \<Rightarrow>
          (case run_ops put get ops p1 of None \<Rightarrow> None
           | Some (ins, outs, p2) \<Rightarrow>
               Some (ins, (case r of None \<Rightarrow> outs | Some m \<Rightarrow> m # outs), p2)))"

locale bounded_queue =
  fixes put :: "'m \<Rightarrow> 'p \<Rightarrow> (bool \<times> 'p) option"
    and get :: "nat \<Rightarrow> 'p \<Rightarrow> ('m option \<times> 'p) option"
    and rep :: "'p \<Rightarrow> 'm list \<Rightarrow> bool"
    and weight :: "'m \<Rightarrow> nat"
    and fits :: "'m \<Rightarrow> 'p \<Rightarrow> bool"
  assumes put_accept: "rep p q \<Longrightarrow> fits m p \<Longrightarrow> \<exists>p'. put m p = Some (True, p') \<and> rep p' (q @ [m])"
    and put_refuse: "rep p q \<Longrightarrow> \<not> fits m p \<Longrightarrow> put m p = Some (False, p)"
    and get_empty: "rep p [] \<Longrightarrow> get n p = Some (None, p)"
    and get_first: "rep p (m # q) \<Longrightarrow> weight m \<le> n \<Longrightarrow> \<exists>p'. get n p = Some (Some m, p') \<and> rep p' q"
    and get_blocked: "rep p (m # q) \<Longrightarrow> n < weight m \<Longrightarrow> get n p = Some (None, p)"
begin

lemma put_cases:
  assumes "rep p q"
  obtains p' where "put m p = Some (fits m p, p')" "rep p' (if fits m p then q @ [m] else q)"
  using put_accept [OF assms] put_refuse [OF assms] assms by (cases "fits m p") auto

lemma get_cases:
  assumes "rep p q"
  obtains (idle) "get n p = Some (None, p)" "q = [] \<or> n < weight (hd q)"
  | (first) p' where "q \<noteq> []" "get n p = Some (Some (hd q), p')" "rep p' (tl q)"
proof (cases q)
  case Nil
  with assms get_empty [of p n] have "get n p = Some (None, p)" by simp
  then show ?thesis using Nil idle by auto
next
  case (Cons m q')
  with assms get_first [of p m q' n] get_blocked [of p m q' n] show ?thesis
    by (cases "weight m \<le> n") (auto intro: first idle)
qed

lemma run_fifo:
  assumes "rep p q"
  shows "\<exists>ins outs p' q'. run_ops put get ops p = Some (ins, outs, p') \<and> rep p' q'
           \<and> q @ ins = outs @ q'"
  using assms
proof (induction ops arbitrary: p q)
  case Nil
  then show ?case by auto
next
  case (Cons op ops)
  show ?case
  proof (cases op)
    case (Put m)
    obtain p1 where p1: "put m p = Some (fits m p, p1)" "rep p1 (if fits m p then q @ [m] else q)"
      using put_cases [OF Cons.prems] .
    from Cons.IH [OF p1(2)] obtain ins outs p' q' where
      "run_ops put get ops p1 = Some (ins, outs, p')" "rep p' q'"
      "(if fits m p then q @ [m] else q) @ ins = outs @ q'" by blast
    with p1(1) Put show ?thesis
      by (intro exI [of _ "if fits m p then m # ins else ins"] exI [of _ outs] exI [of _ p']
          exI [of _ q']) auto
  next
    case (Take n)
    from Cons.prems show ?thesis
    proof (cases rule: get_cases [of p q n])
      case idle
      with Cons.IH [OF Cons.prems] Take show ?thesis by force
    next
      case (first p1)
      from Cons.IH [OF first(3)] obtain ins outs p' q' where
        "run_ops put get ops p1 = Some (ins, outs, p')" "rep p' q'" "tl q @ ins = outs @ q'" by blast
      with first Take show ?thesis by (cases q) auto
    qed
  qed
qed

end

definition fits_pipe :: "byte list \<Rightarrow> shm_pipe \<Rightarrow> bool" where
  "fits_pipe buf p \<longleftrightarrow> length buf + 4 + used p < sp_size p"

interpretation shm: bounded_queue AppendOneData GetOneData pipe_rep length fits_pipe
proof unfold_locales
  fix p q m assume r: "pipe_rep p q" and f: "fits_pipe m p"
  from r f show "\<exists>p'. AppendOneData m p = Some (True, p') \<and> pipe_rep p' (q @ [m])"
    using AppendOneData_accept [of p m] AppendOneData_content [of p m]
    by (auto simp: pipe_rep_def fits_pipe_def)
next
  fix p q m assume "pipe_rep p q" "\<not> fits_pipe m p"
  then show "AppendOneData m p = Some (False, p)"
    by (intro AppendOneData_reject) (auto simp: pipe_rep_def fits_pipe_def)
next
  fix p n assume "pipe_rep p []"
  then show "GetOneData n p = Some (None, p)"
    by (intro GetOneData_empty) (auto simp: pipe_rep_def)
next
  fix p m q n assume r: "pipe_rep p (m # q)" and w: "length m \<le> n"
  then show "\<exists>p'. GetOneData n p = Some (Some m, p') \<and> pipe_rep p' q"
    using GetOneData_head [of p m "concat (map frame q)" n]
      GetOneData_content [of p m "concat (map frame q)"]
    by (auto simp: pipe_rep_def)
next
  fix p m q n assume r: "pipe_rep p (m # q)" and w: "n < length m"
  have "length (content p) < 2 ^ 31"
    using r used_less [of p] unfolding length_content by (auto simp: pipe_rep_def pipe_inv_def)
  then have "length m < 2 ^ 32" using r unfolding pipe_rep_def by (simp del: length_content)
  with r w show "GetOneData n p = Some (None, p)"
    using GetOneData_too_long [of p m "concat (map frame q)" n] by (simp add: pipe_rep_def)
qed

lemma Initialize_rep:
  "0 < length (sp_buf p) \<Longrightarrow> length (sp_buf p) < 2 ^ 31 \<Longrightarrow> pipe_rep (Initialize p) []"
  by (simp add: pipe_rep_def pipe_inv_def Initialize_def content_def used_def wrap32_small
      ring_read_def)

text \<open>A reader that attaches to an existing segment finds the messages the writer left.\<close>

lemma Reuse_rep: "pipe_rep p q \<Longrightarrow> Reuse p = p"
  by (simp add: pipe_rep_def pipe_inv_def Reuse_def wrap32_small)

subsection \<open>Properties\<close>

definition example_pipe :: shm_pipe where
  "example_pipe = ShmPipe_ctor False \<lparr>sp_begin = 7, sp_end = 3, sp_size = 0, sp_buf = replicate 16 0\<rparr>"

lemma example_pipe_rep: "pipe_rep example_pipe []"
  using Initialize_rep by (simp add: example_pipe_def ShmPipe_ctor_def)

lemma example_pipe_sel [simp]: "sp_size example_pipe = 16" "used example_pipe = 0"
  by (simp_all add: example_pipe_def ShmPipe_ctor_def Initialize_def wrap32_def used_def)

text \<open>Property C3. Any interleaving of writes and reads through a shared-memory pipe delivers
  messages in the order they were accepted, none lost, none invented, none split: what was
  queued at the start followed by the accepted messages equals the delivered messages
  followed by what is still queued. No access leaves the buffer.\<close>

theorem shm_pipe_fifo:
  assumes "pipe_rep p q"
  shows "\<exists>ins outs p' q'. run_ops AppendOneData GetOneData ops p = Some (ins, outs, p')
           \<and> pipe_rep p' q' \<and> q @ ins = outs @ q'"
  by (rule shm.run_fifo [OF assms])

lemma shm_pipe_fifo_witness:
  "pipe_rep example_pipe [] \<and>
   (\<exists>ins outs p' q'. run_ops AppendOneData GetOneData [Put [1, 2], Take 9, Put [3]] example_pipe
       = Some (ins, outs, p') \<and> pipe_rep p' q' \<and> [] @ ins = outs @ q')"
  using shm_pipe_fifo [OF example_pipe_rep, of "[Put [1, 2], Take 9, Put [3]]"]
  by (simp add: example_pipe_rep)

text \<open>A write is accepted exactly when the message and its four length bytes leave
  at least one byte of the buffer free; an accepted message becomes the newest in the queue,
  a refused one changes nothing.\<close>

theorem shm_pipe_append_exact:
  assumes "pipe_rep p q"
  shows "\<exists>p'. AppendOneData buf p = Some (length buf + 4 + used p < sp_size p, p')
           \<and> pipe_rep p' (if length buf + 4 + used p < sp_size p then q @ [buf] else q)"
  using shm.put_cases [OF assms, of buf] unfolding fits_pipe_def by blast

lemma shm_pipe_append_exact_witness:
  "\<exists>p'. AppendOneData [1, 2, 3] example_pipe = Some (True, p') \<and> pipe_rep p' [[1, 2, 3]]"
  using shm_pipe_append_exact [OF example_pipe_rep, of "[1, 2, 3]"] by simp

text \<open>The reader takes the oldest message whenever its buffer can hold it. A message
  longer than the reader's buffer is never skipped: every read answers \<open>false\<close> and leaves the
  pipe as it is, so the messages behind it are stuck.\<close>

theorem shm_pipe_get_head:
  assumes "pipe_rep p (buf # q)"
  shows "if length buf \<le> max_len
         then \<exists>p'. GetOneData max_len p = Some (Some buf, p') \<and> pipe_rep p' q
         else GetOneData max_len p = Some (None, p)"
  using shm.get_first [OF assms] shm.get_blocked [OF assms] by auto

lemma shm_pipe_get_head_witness:
  "\<exists>p. pipe_rep p [[1, 2, 3]] \<and> GetOneData 2 p = Some (None, p)
     \<and> (\<exists>p'. GetOneData 3 p = Some (Some [1, 2, 3], p') \<and> pipe_rep p' [])"
proof -
  obtain p where p: "pipe_rep p [[1, 2, 3]]"
    using shm.put_accept [OF example_pipe_rep, of "[1, 2, 3]"] by (auto simp: fits_pipe_def)
  show ?thesis
    using p shm_pipe_get_head [OF p, of 2] shm_pipe_get_head [OF p, of 3] by auto
qed

text \<open>The count of used bytes is right only while the used part does not wrap: when
  \<open>_begin\<close> is behind \<open>_end\<close> the code's count is \<open>_size + (_begin - _end)\<close>, more than the whole
  buffer, while the bytes in use are \<open>_size - (_begin - _end)\<close>.\<close>

theorem GetUsedSize_wrapped:
  assumes "pipe_inv p" "sp_end p < sp_begin p"
  shows "GetUsedSize p = used p + 2 * (sp_begin p - sp_end p) \<and> sp_size p < GetUsedSize p
         \<and> used p + (sp_begin p - sp_end p) = sp_size p"
  using assms by (auto simp: GetUsedSize_eq used_eq pipe_inv_def)

lemma GetUsedSize_wrapped_witness:
  "\<exists>p. pipe_inv p \<and> sp_end p < sp_begin p \<and> used p = 12 \<and> GetUsedSize p = 20"
proof -
  define p where "p = example_pipe\<lparr>sp_begin := 6, sp_end := 2\<rparr>"
  have p: "pipe_inv p" "sp_end p < sp_begin p" "sp_begin p - sp_end p = 4" "sp_size p = 16"
    using example_pipe_rep by (simp_all add: p_def pipe_rep_def pipe_inv_def)
  from GetUsedSize_wrapped [OF p(1,2)] p show ?thesis by (intro exI [of _ p]) auto
qed

end
