(* ===== verification/Proto.thy ===== *)
theory Proto
  imports Prelude
begin

text \<open>
  The data of the program: the protocol heads of core/src/net_head.h and the messages of
  proto/*.proto as records and datatypes. A \<open>oneof\<close> is a datatype with one constructor
  per member. A scalar whose presence the code asks for (\<open>has_x\<close>) is an option; for the other
  scalars the getter's value is the field, since an absent field reads as its default. A
  message type that a \<open>oneof\<close> carries twice, once for the arcade machines and once for the
  H5 players, is one constructor with a channel.
\<close>

subsection \<open>core/src/net_head.h\<close>

datatype conn_msg_type = Conn_normal | Conn_logic_index | Conn_client_discon
datatype conn_type = Conn_tcp | Conn_ws

record connect_head =
  ch_create_time :: u64
  ch_socket_pos :: u32
  ch_socket_port :: u32
  ch_socket_addr :: string
  ch_need_close :: bool
  ch_msg_type :: conn_msg_type
  ch_conn_type :: conn_type

datatype route_type = Route_p2p | Route_hash | Route_random | Route_broadcast

record proxy_head =
  px_src_type :: u32
  px_src_id :: u32
  px_des_type :: u32
  px_des_id :: u32
  px_session_id :: u32
  px_hash_key :: u64
  px_src_proxy_id :: u32
  px_route_type :: route_type

text \<open>\<open>union uMessageHead\<close>: which member was written last.\<close>

datatype msg_head = MH_unset | MH_connect connect_head | MH_proxy proxy_head

text \<open>Server types, \<open>ENSvrType\<close> of core/proto/svr_config.proto.\<close>

abbreviation (input) "EN_1_DBProxy \<equiv> 1 :: u32"
abbreviation (input) "EN_2_Machine \<equiv> 2 :: u32"
abbreviation (input) "EN_4_Lipstick \<equiv> 4 :: u32"
abbreviation (input) "EN_6_Promoter \<equiv> 6 :: u32"

subsection \<open>Optional scalars\<close>

definition get0 :: "'a::zero option \<Rightarrow> 'a" where
  "get0 x = (case x of None \<Rightarrow> 0 | Some v \<Rightarrow> v)"

definition getF :: "bool option \<Rightarrow> bool" where
  "getF x = (case x of None \<Rightarrow> False | Some v \<Rightarrow> v)"

lemma get0_simps [simp]: "get0 None = 0" "get0 (Some v) = v"
  by (simp_all add: get0_def)

lemma getF_simps [simp]: "getF None = False" "getF (Some v) = v"
  by (simp_all add: getF_def)

subsection \<open>pb_common.proto, pb_event.proto\<close>

abbreviation (input) "EN_G_Type_Lipstick \<equiv> 1 :: u32"
abbreviation (input) "EN_Award_None \<equiv> 0 :: u32"
abbreviation (input) "EN_Award_Gold \<equiv> 1 :: u32"
abbreviation (input) "EN_Award_Prize \<equiv> 2 :: u32"
abbreviation (input) "EN_Award_Point \<equiv> 5 :: u32"

record pb_award =
  aw_type :: u32
  aw_id :: u64
  aw_charge_num :: u64
  aw_giving_num :: u64

text \<open>An \<open>int64\<close> field is its 64 bits; comparisons of the code read it with \<open>sint\<close>.\<close>

record pb_event =
  ev_name :: string
  ev_num_fields :: "(string \<times> u64) list"
  ev_str_fields :: "(string \<times> string) list"

subsection \<open>pb_db_data.proto\<close>

record db_base_info =
  bi_version :: u64
  bi_nick :: string
  bi_pic_url :: string
  bi_gamesvr_type :: "u32 option"
  bi_gamesvr_id :: "u32 option"
  bi_machine_id :: "u64 option"
  bi_promoter_id :: u64

record db_buy_in =
  by_machine_id :: u64
  by_num :: u64
  by_update_time :: u32

record db_gold_info =
  gi_version :: u64
  gi_gold :: u64
  gi_buy_ins :: "db_buy_in list"
  gi_total_charge :: u64
  gi_total_giving :: u64
  gi_total_consume :: u64
  gi_total_prize_value :: u64

record db_prize =
  pz_id :: u64
  pz_num :: u32
  pz_rate :: u32
  pz_cost :: u64
  pz_tags :: "string list"
  pz_sort :: u32

record db_prize_info =
  pi_version :: u64
  pi_prizes :: "db_prize list"

record db_play =
  pl_prize_id :: u64
  pl_timestamp :: u32
  pl_get_prize :: bool

record db_game_record =
  gr_game_type :: u32
  gr_plays :: "db_play list"

record db_game_info =
  ga_version :: u64
  ga_records :: "db_game_record list"

record db_m_base_info =
  mb_version :: u64
  mb_machinesvr_id :: "u32 option"
  mb_gamesvr_id :: "u32 option"
  mb_gamesvr_type :: "u32 option"
  mb_total_prize_num :: u32
  mb_total_prize_value :: u32
  mb_total_income :: u64
  mb_promoter_id :: "u64 option"
  mb_game_type :: "u32 option"

record db_lottery_award =
  la_awards :: "pb_award list"
  la_rate :: u32
  la_sum_rate :: u32

record db_m_lipstick_info =
  lp_version :: u64
  lp_cost :: "u64 option"
  lp_prizes :: "db_prize list"
  lp_lottery_awards :: "db_lottery_award list"
  lp_buy_consume :: "u64 option"
  lp_buy_fail :: "u32 option"
  lp_buy_time :: "u32 option"
  lp_round_knives :: "u32 list"
  lp_round_timeouts :: "u32 list"
  lp_start_timeout :: "u32 option"
  lp_retry_timeout :: "u32 option"
  lp_lottery_timeout :: "u32 option"
  lp_lottery_ani_timeout :: "u32 option"
  lp_buy_timeout :: "u32 option"
  lp_buy_ani_timeout :: "u32 option"
  lp_game_succ_timeout :: "u32 option"
  lp_retry_switch :: "bool option"
  lp_lottery_switch :: "bool option"
  lp_buy_switch :: "bool option"
  lp_max_retry_time :: "u32 option"

record db_p_base_info =
  pb_version :: u64
  pb_total_charge :: u64
  pb_total_giving :: u64

record db_player_prize =
  pp_nick :: string
  pp_name :: string
  pp_seq :: u32

record db_g_lip_prize_info =
  gl_version :: u64
  gl_player_prizes :: "db_player_prize list"
  gl_seq :: u32

text \<open>Keys of the database parts, \<open>PBDBKey::DBKeyUnionCase\<close>.\<close>

abbreviation (input) "kBaseInfo \<equiv> 10 :: u32"
abbreviation (input) "kGoldInfo \<equiv> 11 :: u32"
abbreviation (input) "kPrizeInfo \<equiv> 12 :: u32"
abbreviation (input) "kGameInfo \<equiv> 13 :: u32"
abbreviation (input) "kMBaseInfo \<equiv> 100 :: u32"
abbreviation (input) "kMLipstickInfo \<equiv> 101 :: u32"
abbreviation (input) "kPBaseInfo \<equiv> 1000 :: u32"
abbreviation (input) "kGLipPrizeInfo \<equiv> 2000 :: u32"

text \<open>A player's, machine's, promoter's or the global data. \<open>d_dirty\<close> holds the \<open>update_*\<close> bits that
  the project's protobuf compiler adds to this message: the source saves "those that were
  changed (mutable)", so a \<open>mutable_*\<close> call sets the bit of its part.\<close>

record pb_db_data =
  d_uid :: "u64 option"
  d_base_info :: "db_base_info option"
  d_gold_info :: "db_gold_info option"
  d_prize_info :: "db_prize_info option"
  d_game_info :: "db_game_info option"
  d_m_base_info :: "db_m_base_info option"
  d_m_lipstick_info :: "db_m_lipstick_info option"
  d_p_base_info :: "db_p_base_info option"
  d_g_lip_prize_info :: "db_g_lip_prize_info option"
  d_dirty :: "u32 \<Rightarrow> bool"

definition db_base_info0 :: db_base_info where
  "db_base_info0 = \<lparr>bi_version = 0, bi_nick = [], bi_pic_url = [], bi_gamesvr_type = None,
     bi_gamesvr_id = None, bi_machine_id = None, bi_promoter_id = 0\<rparr>"

definition db_gold_info0 :: db_gold_info where
  "db_gold_info0 = \<lparr>gi_version = 0, gi_gold = 0, gi_buy_ins = [], gi_total_charge = 0,
     gi_total_giving = 0, gi_total_consume = 0, gi_total_prize_value = 0\<rparr>"

definition db_prize_info0 :: db_prize_info where
  "db_prize_info0 = \<lparr>pi_version = 0, pi_prizes = []\<rparr>"

definition db_game_info0 :: db_game_info where
  "db_game_info0 = \<lparr>ga_version = 0, ga_records = []\<rparr>"

definition db_m_base_info0 :: db_m_base_info where
  "db_m_base_info0 = \<lparr>mb_version = 0, mb_machinesvr_id = None, mb_gamesvr_id = None,
     mb_gamesvr_type = None, mb_total_prize_num = 0, mb_total_prize_value = 0,
     mb_total_income = 0, mb_promoter_id = None, mb_game_type = None\<rparr>"

definition db_m_lipstick_info0 :: db_m_lipstick_info where
  "db_m_lipstick_info0 = \<lparr>lp_version = 0, lp_cost = None, lp_prizes = [], lp_lottery_awards = [],
     lp_buy_consume = None, lp_buy_fail = None, lp_buy_time = None, lp_round_knives = [],
     lp_round_timeouts = [], lp_start_timeout = None, lp_retry_timeout = None,
     lp_lottery_timeout = None, lp_lottery_ani_timeout = None, lp_buy_timeout = None,
     lp_buy_ani_timeout = None, lp_game_succ_timeout = None, lp_retry_switch = None,
     lp_lottery_switch = None, lp_buy_switch = None, lp_max_retry_time = None\<rparr>"

definition db_p_base_info0 :: db_p_base_info where
  "db_p_base_info0 = \<lparr>pb_version = 0, pb_total_charge = 0, pb_total_giving = 0\<rparr>"

definition db_g_lip_prize_info0 :: db_g_lip_prize_info where
  "db_g_lip_prize_info0 = \<lparr>gl_version = 0, gl_player_prizes = [], gl_seq = 0\<rparr>"

definition pb_db_data0 :: pb_db_data where
  "pb_db_data0 = \<lparr>d_uid = None, d_base_info = None, d_gold_info = None, d_prize_info = None,
     d_game_info = None, d_m_base_info = None, d_m_lipstick_info = None, d_p_base_info = None,
     d_g_lip_prize_info = None, d_dirty = (\<lambda>_. False)\<rparr>"

subsection \<open>Const and mutable accessors of \<open>PBDBData\<close>\<close>

definition "base_info d = (case d_base_info d of None \<Rightarrow> db_base_info0 | Some x \<Rightarrow> x)"
definition "gold_info d = (case d_gold_info d of None \<Rightarrow> db_gold_info0 | Some x \<Rightarrow> x)"
definition "prize_info d = (case d_prize_info d of None \<Rightarrow> db_prize_info0 | Some x \<Rightarrow> x)"
definition "game_info d = (case d_game_info d of None \<Rightarrow> db_game_info0 | Some x \<Rightarrow> x)"
definition "m_base_info d = (case d_m_base_info d of None \<Rightarrow> db_m_base_info0 | Some x \<Rightarrow> x)"
definition "m_lipstick_info d = (case d_m_lipstick_info d of None \<Rightarrow> db_m_lipstick_info0 | Some x \<Rightarrow> x)"
definition "p_base_info d = (case d_p_base_info d of None \<Rightarrow> db_p_base_info0 | Some x \<Rightarrow> x)"
definition "g_lip_prize_info d = (case d_g_lip_prize_info d of None \<Rightarrow> db_g_lip_prize_info0 | Some x \<Rightarrow> x)"

definition "set_dirty k d = d\<lparr>d_dirty := (d_dirty d)(k := True)\<rparr>" for k :: u32 and d :: pb_db_data
definition "clear_dirty k d = d\<lparr>d_dirty := (d_dirty d)(k := False)\<rparr>" for k :: u32 and d :: pb_db_data

text \<open>\<open>mut_x f d\<close>: \<open>f\<close> applied to \<open>*d.mutable_x()\<close>.\<close>

definition "mut_base_info f d = set_dirty kBaseInfo (d\<lparr>d_base_info := Some (f (base_info d))\<rparr>)"
definition "mut_gold_info f d = set_dirty kGoldInfo (d\<lparr>d_gold_info := Some (f (gold_info d))\<rparr>)"
definition "mut_prize_info f d = set_dirty kPrizeInfo (d\<lparr>d_prize_info := Some (f (prize_info d))\<rparr>)"
definition "mut_game_info f d = set_dirty kGameInfo (d\<lparr>d_game_info := Some (f (game_info d))\<rparr>)"
definition "mut_m_base_info f d = set_dirty kMBaseInfo (d\<lparr>d_m_base_info := Some (f (m_base_info d))\<rparr>)"
definition "mut_m_lipstick_info f d =
  set_dirty kMLipstickInfo (d\<lparr>d_m_lipstick_info := Some (f (m_lipstick_info d))\<rparr>)"
definition "mut_p_base_info f d = set_dirty kPBaseInfo (d\<lparr>d_p_base_info := Some (f (p_base_info d))\<rparr>)"
definition "mut_g_lip_prize_info f d =
  set_dirty kGLipPrizeInfo (d\<lparr>d_g_lip_prize_info := Some (f (g_lip_prize_info d))\<rparr>)"

lemmas part_defs [proto_simps] =
  base_info_def gold_info_def prize_info_def game_info_def m_base_info_def m_lipstick_info_def
  p_base_info_def g_lip_prize_info_def

lemmas mut_defs [proto_simps] =
  mut_base_info_def mut_gold_info_def mut_prize_info_def mut_game_info_def mut_m_base_info_def
  mut_m_lipstick_info_def mut_p_base_info_def mut_g_lip_prize_info_def set_dirty_def clear_dirty_def

text \<open>Each part reads back what its \<open>mutable\<close> accessor wrote and is not touched by the others.\<close>

lemma mut_same [simp]:
  "base_info (mut_base_info f d) = f (base_info d)"
  "gold_info (mut_gold_info f2 d) = f2 (gold_info d)"
  "prize_info (mut_prize_info f3 d) = f3 (prize_info d)"
  "game_info (mut_game_info f4 d) = f4 (game_info d)"
  "m_base_info (mut_m_base_info f5 d) = f5 (m_base_info d)"
  "m_lipstick_info (mut_m_lipstick_info f6 d) = f6 (m_lipstick_info d)"
  "p_base_info (mut_p_base_info f7 d) = f7 (p_base_info d)"
  "g_lip_prize_info (mut_g_lip_prize_info f8 d) = f8 (g_lip_prize_info d)"
  by (simp_all add: proto_simps)

lemma mut_other [simp]:
  "gold_info (mut_base_info f d) = gold_info d" "prize_info (mut_base_info f d) = prize_info d"
  "base_info (mut_gold_info f2 d) = base_info d" "prize_info (mut_gold_info f2 d) = prize_info d"
  "base_info (mut_prize_info f3 d) = base_info d" "gold_info (mut_prize_info f3 d) = gold_info d"
  "m_lipstick_info (mut_m_base_info f5 d) = m_lipstick_info d"
  "m_base_info (mut_m_lipstick_info f6 d) = m_base_info d"
  by (simp_all add: proto_simps)

lemma mut_uid [simp]:
  "d_uid (mut_base_info f d) = d_uid d" "d_uid (mut_gold_info f2 d) = d_uid d"
  "d_uid (mut_prize_info f3 d) = d_uid d" "d_uid (mut_game_info f4 d) = d_uid d"
  "d_uid (mut_m_base_info f5 d) = d_uid d" "d_uid (mut_m_lipstick_info f6 d) = d_uid d"
  "d_uid (mut_p_base_info f7 d) = d_uid d" "d_uid (mut_g_lip_prize_info f8 d) = d_uid d"
  by (simp_all add: proto_simps)

end
