(* ===== verification/Messages.thy ===== *)
theory Messages
  imports Proto
begin

text \<open>
  The messages of proto/pb_cs_msg.proto, pb_ss_msg.proto, pb_internal_msg.proto and the records
  of pb_mem_data.proto. The requests and answers that exist once for the arcade machines and
  once for the H5 players with the same message type are one constructor with a \<open>channel\<close>.
\<close>

subsection \<open>pb_cs_msg.proto\<close>

abbreviation (input) "EN_Result_OK \<equiv> 1 :: u32"
abbreviation (input) "EN_Result_Invalid_Msg \<equiv> 2 :: u32"
abbreviation (input) "EN_Result_Auth_Failed \<equiv> 3 :: u32"
abbreviation (input) "EN_Result_Not_Login \<equiv> 4 :: u32"
abbreviation (input) "EN_Result_Sys_Err \<equiv> 5 :: u32"
abbreviation (input) "EN_Result_Server_Full \<equiv> 6 :: u32"
abbreviation (input) "EN_Result_Machine_State_Diff \<equiv> 7 :: u32"
abbreviation (input) "EN_Result_Machine_No_Player \<equiv> 8 :: u32"
abbreviation (input) "EN_Result_Invalid_Prize_Id \<equiv> 9 :: u32"
abbreviation (input) "EN_Result_Gold_Not_Enough \<equiv> 10 :: u32"
abbreviation (input) "EN_Result_Invalid_Params \<equiv> 11 :: u32"
abbreviation (input) "EN_Result_Invalid_Req \<equiv> 12 :: u32"

datatype channel = Mach | H5

record cs_lipstick_info =
  li_cost :: u64
  li_prize_ids :: "u32 list"
  li_lotterys :: "pb_award list list"
  li_max_retry_time :: u32

record cs_rsp_m_login =
  ml_use_heart_beat :: bool
  ml_heart_beat_interval :: u32
  ml_game_type :: u32
  ml_game_host :: string
  ml_game_port :: u32

record cs_notify_m_player_login =
  np_uid :: u64
  np_nick :: string
  np_pic_url :: string
  np_timeout :: u32
  np_prize_num :: u32

record cs_rsp_start =
  rs_can_get_prize :: bool
  rs_left_buy_in :: u64
  rs_round_timeouts :: "u32 list"
  rs_round_knives :: "u32 list"
  rs_retry_timeout :: u32
  rs_retry_switch :: bool

record cs_rsp_end =
  re_next_step :: u32
  re_timeout :: u32
  re_prize_id :: u64
  re_prize_num :: u32
  re_buy_cost :: u64
  re_game_succ_timeout :: u32

record cs_rsp_retry =
  rr_can_get_prize :: bool
  rr_left_buy_in :: u64
  rr_retry_time :: u32

record cs_rsp_lottery =
  rl_awards :: "pb_award list"
  rl_prize_num :: u32
  rl_timeout :: u32
  rl_award_index :: u32

record cs_rsp_buy =
  rb_prize_id :: u64
  rb_prize_num :: u32
  rb_timeout :: u32
  rb_left_buy_in :: u64

record cs_rsp_login_game =
  lg_heart_beat_interval :: u32
  lg_gold :: u64
  lg_lipstick_info :: "cs_lipstick_info option"
  lg_prize_num :: u32

text \<open>\<open>PBCSMsg::msg_union\<close>; a request that carries one field has it as the argument.\<close>

datatype cs_body =
    CsReqHeartBeat | CsRspHeartBeat u32
  | CsNotifyCommonErr | CsNotifyLogout u32 | CsNotifyPoint u32
  | CsNotifyUpdateMachine | CsNotifyDeleteMachine | CsNotifyRestartMachine
  | CsReqMLogin string | CsRspMLogin cs_rsp_m_login
  | CsReqMLoginGame string | CsRspMLoginGame bool u32 "cs_lipstick_info option"
  | CsNotifyMPlayerLogin cs_notify_m_player_login | CsNotifyMPlayerBuyIn u64
  | CsReqStart channel u32 | CsRspStart channel cs_rsp_start
  | CsReqEnd channel bool | CsRspEnd channel cs_rsp_end
  | CsReqPlayerLogout channel | CsRspPlayerLogout channel | CsNotifyPlayerLogout
  | CsReqRetry channel u32 | CsRspRetry channel cs_rsp_retry
  | CsReqLottery channel | CsRspLottery channel cs_rsp_lottery
  | CsReqLotteryEnd channel | CsRspLotteryEnd channel u32
  | CsReqBuyPrize channel bool | CsRspBuyPrize channel cs_rsp_buy
  | CsReqLoginGame string | CsRspLoginGame cs_rsp_login_game
  | CsNotifyGold u64

text \<open>\<open>msg_union_case()\<close>: the field numbers of the proto file.\<close>

primrec cs_case :: "cs_body \<Rightarrow> u32" where
  "cs_case CsReqHeartBeat = 1000" | "cs_case (CsRspHeartBeat _) = 1001"
| "cs_case CsNotifyCommonErr = 1002" | "cs_case (CsNotifyLogout _) = 1003"
| "cs_case (CsNotifyPoint _) = 2000" | "cs_case CsNotifyUpdateMachine = 1029"
| "cs_case CsNotifyDeleteMachine = 1030" | "cs_case CsNotifyRestartMachine = 1031"
| "cs_case (CsReqMLogin _) = 1010" | "cs_case (CsRspMLogin _) = 1011"
| "cs_case (CsReqMLoginGame _) = 1012" | "cs_case (CsRspMLoginGame _ _ _) = 1013"
| "cs_case (CsNotifyMPlayerLogin _) = 1014" | "cs_case (CsNotifyMPlayerBuyIn _) = 1015"
| "cs_case (CsReqStart c _) = (if c = Mach then 1016 else 5002)"
| "cs_case (CsRspStart c _) = (if c = Mach then 1017 else 5003)"
| "cs_case (CsReqEnd c _) = (if c = Mach then 1018 else 5004)"
| "cs_case (CsRspEnd c _) = (if c = Mach then 1019 else 5005)"
| "cs_case (CsReqPlayerLogout c) = (if c = Mach then 1020 else 5015)"
| "cs_case (CsRspPlayerLogout c) = (if c = Mach then 1021 else 5016)"
| "cs_case CsNotifyPlayerLogout = 1022"
| "cs_case (CsReqRetry c _) = (if c = Mach then 1023 else 5006)"
| "cs_case (CsRspRetry c _) = (if c = Mach then 1024 else 5007)"
| "cs_case (CsReqLottery c) = (if c = Mach then 1025 else 5008)"
| "cs_case (CsRspLottery c _) = (if c = Mach then 1026 else 5009)"
| "cs_case (CsReqLotteryEnd c) = (if c = Mach then 1032 else 5013)"
| "cs_case (CsRspLotteryEnd c _) = (if c = Mach then 1033 else 5014)"
| "cs_case (CsReqBuyPrize c _) = (if c = Mach then 1027 else 5010)"
| "cs_case (CsRspBuyPrize c _) = (if c = Mach then 1028 else 5011)"
| "cs_case (CsReqLoginGame _) = 5000" | "cs_case (CsRspLoginGame _) = 5001"
| "cs_case (CsNotifyGold _) = 5012"

record pb_cs_msg =
  cs_uid :: u64
  cs_cli_ver :: u32
  cs_cli_seq :: u32
  cs_cmd :: u32
  cs_result :: "u32 option"
  cs_body :: "cs_body option"

definition cs_msg0 :: pb_cs_msg where
  "cs_msg0 = \<lparr>cs_uid = 0, cs_cli_ver = 0, cs_cli_seq = 0, cs_cmd = 0, cs_result = None, cs_body = None\<rparr>"

definition cs_union_case :: "pb_cs_msg \<Rightarrow> u32" where
  "cs_union_case m = (case cs_body m of None \<Rightarrow> 0 | Some b \<Rightarrow> cs_case b)"

subsection \<open>pb_ss_msg.proto\<close>

abbreviation (input) "EN_KVDB_Sucess \<equiv> 1 :: u32"
abbreviation (input) "EN_KVDB_Failed \<equiv> 2 :: u32"
abbreviation (input) "EN_KVDB_Ver_Diff \<equiv> 3 :: u32"
abbreviation (input) "EN_Uid_Lip_Prize \<equiv> 1 :: u64"
abbreviation (input) "EN_Web_OK \<equiv> 1 :: u32"
abbreviation (input) "EN_Web_DB_Error \<equiv> 2 :: u32"
abbreviation (input) "EN_Web_Machine_Not_Online \<equiv> 3 :: u32"
abbreviation (input) "EN_Web_Machine_In_Use \<equiv> 4 :: u32"
abbreviation (input) "EN_Web_Player_Not_Login \<equiv> 5 :: u32"
abbreviation (input) "EN_Web_Player_Gold_Not_Enough \<equiv> 6 :: u32"
abbreviation (input) "EN_Web_Machine_State_Error \<equiv> 7 :: u32"
abbreviation (input) "EN_Web_Player_Prize_Not_Enough \<equiv> 8 :: u32"
abbreviation (input) "EN_Web_Invalid_Params \<equiv> 9 :: u32"
abbreviation (input) "EN_SS_Request \<equiv> 1 :: u32"
abbreviation (input) "EN_SS_Response \<equiv> 2 :: u32"

record pb_kvdb_data =
  kv_key :: u32
  kv_value :: "byte list option"
  kv_version :: u32
  kv_update_time :: u32

text \<open>The kinds of data the web messages address: players, machines, promoters, global.\<close>

datatype dbkind = DK_player | DK_m | DK_p | DK_g

datatype ss_body =
    SsReqQuery u64 "pb_kvdb_data list"
  | SsRspQuery u32 u64 "pb_kvdb_data list"
  | SsReqSave u64 "pb_kvdb_data list"
  | SsRspSave u32 u64 "pb_kvdb_data list"
  | SsNotifyKickPlayer u64 "u64 option"
  | SsNotifyUpdateMachine u64
  | SsNotifyPromoterGold u64 u64 u64
  | SsNotifyPlayerGold u64 u64
  | SsGMCommand string u32
  | WebNotifyUpdateConfig string
  | WebReqPlayerLogin u64 u64
  | WebRspPlayerLogin u32 "pb_db_data option"
  | WebReqPlayerBuyIn u64 u64 u64
  | WebRspPlayerBuyIn u32
  | WebNotifyDeleteMachine u64
  | WebNotifyRestartMachine u64
  | WebNotifyPlayerInfo u64 string string
  | WebReqPlayerCharge u64 "pb_award list" u32
  | WebRspPlayerCharge u32
  | WebReqSubPrize u64 "db_prize list" u32
  | WebRspSubPrize u32 "db_prize list"
  | WebReqQueryDBData dbkind "u64 list"
  | WebRspQueryDBData dbkind u32 "pb_db_data list"
  | WebReqSaveDBData dbkind u64 "pb_db_data option"
  | WebRspSaveDBData dbkind u32
  | WebNotifyPoint u64 u32 "u64 option"

primrec ss_case :: "ss_body \<Rightarrow> u32" where
  "ss_case (SsReqQuery _ _) = 10000" | "ss_case (SsRspQuery _ _ _) = 10001"
| "ss_case (SsReqSave _ _) = 10002" | "ss_case (SsRspSave _ _ _) = 10003"
| "ss_case (SsNotifyKickPlayer _ _) = 11000" | "ss_case (SsNotifyUpdateMachine _) = 11001"
| "ss_case (SsNotifyPromoterGold _ _ _) = 11002" | "ss_case (SsNotifyPlayerGold _ _) = 11003"
| "ss_case (SsGMCommand _ _) = 10004" | "ss_case (WebNotifyUpdateConfig _) = 10017"
| "ss_case (WebReqPlayerLogin _ _) = 10010" | "ss_case (WebRspPlayerLogin _ _) = 10011"
| "ss_case (WebReqPlayerBuyIn _ _ _) = 10012" | "ss_case (WebRspPlayerBuyIn _) = 10013"
| "ss_case (WebNotifyDeleteMachine _) = 10030" | "ss_case (WebNotifyRestartMachine _) = 10031"
| "ss_case (WebNotifyPlayerInfo _ _ _) = 10014" | "ss_case (WebReqPlayerCharge _ _ _) = 10015"
| "ss_case (WebRspPlayerCharge _) = 10016" | "ss_case (WebReqSubPrize _ _ _) = 10024"
| "ss_case (WebRspSubPrize _ _) = 10025"
| "ss_case (WebReqQueryDBData k _) =
     (case k of DK_player \<Rightarrow> 10018 | DK_m \<Rightarrow> 10026 | DK_p \<Rightarrow> 10032 | DK_g \<Rightarrow> 10036)"
| "ss_case (WebRspQueryDBData k _ _) =
     (case k of DK_player \<Rightarrow> 10019 | DK_m \<Rightarrow> 10027 | DK_p \<Rightarrow> 10033 | DK_g \<Rightarrow> 10037)"
| "ss_case (WebReqSaveDBData k _ _) =
     (case k of DK_player \<Rightarrow> 10020 | DK_m \<Rightarrow> 10028 | DK_p \<Rightarrow> 10034 | DK_g \<Rightarrow> 10038)"
| "ss_case (WebRspSaveDBData k _) =
     (case k of DK_player \<Rightarrow> 10021 | DK_m \<Rightarrow> 10029 | DK_p \<Rightarrow> 10035 | DK_g \<Rightarrow> 10039)"
| "ss_case (WebNotifyPoint _ _ _) = 10040"

record pb_ss_msg =
  ss_uid :: u64
  ss_type :: u32
  ss_body :: "ss_body option"

definition ss_msg0 :: pb_ss_msg where
  "ss_msg0 = \<lparr>ss_uid = 0, ss_type = EN_SS_Request, ss_body = None\<rparr>"

definition ss_union_case :: "pb_ss_msg \<Rightarrow> u32" where
  "ss_union_case m = (case ss_body m of None \<Rightarrow> 0 | Some b \<Rightarrow> ss_case b)"

subsection \<open>pb_internal_msg.proto\<close>

text \<open>\<open>InternalUpdateMachinePirze\<close> has its four fields optional: the code asks for the presence of one.\<close>

datatype internal_body =
    InLogout u64
  | InClearBuyIn u64 u64
  | InStartTimeout u64
  | InEndTimeout u64
  | InLotteryTimeout u64
  | InLotteryEndTimeout u64
  | InLotteryAniTimeout u64
  | InBuyTimeout u64
  | InBuyAniTimeout u64
  | InGameRefund u64 u64
  | InUpdateMachinePrize u64 "u64 option" "u32 option" "u64 option"
  | InGameRecord u64 u64 bool

primrec in_case :: "internal_body \<Rightarrow> u32" where
  "in_case (InLogout _) = 20000" | "in_case (InClearBuyIn _ _) = 20002"
| "in_case (InStartTimeout _) = 20003" | "in_case (InEndTimeout _) = 20004"
| "in_case (InLotteryTimeout _) = 20005" | "in_case (InLotteryEndTimeout _) = 20011"
| "in_case (InLotteryAniTimeout _) = 20007" | "in_case (InBuyTimeout _) = 20006"
| "in_case (InBuyAniTimeout _) = 20008" | "in_case (InGameRefund _ _) = 20009"
| "in_case (InUpdateMachinePrize _ _ _ _) = 20010" | "in_case (InGameRecord _ _ _) = 20012"

type_synonym pb_internal_msg = "internal_body option"

definition in_union_case :: "pb_internal_msg \<Rightarrow> u32" where
  "in_union_case m = (case m of None \<Rightarrow> 0 | Some b \<Rightarrow> in_case b)"

end
