(* ===== verification/ObjectManager.thy ===== *)
theory ObjectManager
  imports Prelude
begin

text \<open>
  include/hpp/object_manager.hpp: the fixed pool behind sessions, timers, players and
  machines, with its save to and restore from a shared memory segment over a restart
  (include/hpp/share_mem.hpp, include/hpp/serialize.hpp). A pool hands out the position at
  the front of its free list and takes freed positions at the back. The \<open>unordered_set\<close> of used
  positions is a duplicate-free list in the order of insertion; operations that walk it take
  the order of the walk as an argument where it shows.
\<close>

subsection \<open>include/hpp/object_manager.hpp: the pool\<close>

record 'a objmgr =
  om_size :: nat
  om_shm_key :: u32
  om_pool :: "'a list"
  om_used :: "nat list"
  om_free :: "nat list"

text \<open>\<open>x0\<close> is the object the default constructor makes; \<open>None\<close> is the position \<open>-1\<close>.\<close>

definition om_Malloc :: "'a \<Rightarrow> 'a objmgr \<Rightarrow> nat option \<times> 'a objmgr" where
  "om_Malloc x0 m = (case om_free m of
     [] \<Rightarrow> (None, m)
   | pos # rest \<Rightarrow>
       (Some pos, m\<lparr>om_free := rest, om_used := List.insert pos (om_used m),
                    om_pool := (om_pool m)[pos := x0]\<rparr>))"

text \<open>\<open>Free\<close> does not ask whether the position is in use.\<close>

definition om_Free :: "nat \<Rightarrow> 'a objmgr \<Rightarrow> bool \<times> 'a objmgr" where
  "om_Free pos m =
     (if pos \<ge> om_size m then (False, m)
      else (True, m\<lparr>om_free := om_free m @ [pos], om_used := removeAll pos (om_used m)\<rparr>))"

definition om_Get :: "nat \<Rightarrow> 'a objmgr \<Rightarrow> 'a option" where
  "om_Get pos m = (if pos \<ge> om_size m then None else Some (om_pool m ! pos))"

text \<open>A write through the pointer \<open>Get\<close> returned.\<close>

definition om_put :: "nat \<Rightarrow> 'a \<Rightarrow> 'a objmgr \<Rightarrow> 'a objmgr" where
  "om_put pos x m = m\<lparr>om_pool := (om_pool m)[pos := x]\<rparr>"

definition om_Size :: "'a objmgr \<Rightarrow> nat" where "om_Size m = length (om_used m)"
definition om_MaxSize :: "'a objmgr \<Rightarrow> nat" where "om_MaxSize m = om_size m"
definition om_IsFull :: "'a objmgr \<Rightarrow> bool" where "om_IsFull m \<longleftrightarrow> om_free m = []"

text \<open>The objects a walk from \<open>Begin()\<close> to \<open>End()\<close> visits; \<open>ord\<close> is the order in which the
  hash set yields its elements.\<close>

definition om_iter :: "(nat list \<Rightarrow> nat list) \<Rightarrow> 'a objmgr \<Rightarrow> 'a list" where
  "om_iter ord m = map ((!) (om_pool m)) (ord (om_used m))"

text \<open>A walk meets every element of the set once.\<close>

definition walk_order :: "(nat list \<Rightarrow> nat list) \<Rightarrow> bool" where
  "walk_order ord \<longleftrightarrow> (\<forall>xs. distinct xs \<longrightarrow> distinct (ord xs) \<and> set (ord xs) = set xs)"

lemma walk_orderD:
  assumes "walk_order ord" "distinct xs"
  shows "distinct (ord xs)" "set (ord xs) = set xs" "length (ord xs) = length xs"
proof -
  show w: "distinct (ord xs)" "set (ord xs) = set xs" using assms by (auto simp: walk_order_def)
  then show "length (ord xs) = length xs" using assms(2) by (metis distinct_card)
qed

lemma walk_order_rev [simp]: "walk_order rev" and walk_order_id [simp]: "walk_order (\<lambda>xs. xs)"
  by (simp_all add: walk_order_def)

subsection \<open>The pool's invariant\<close>

definition om_inv :: "'a objmgr \<Rightarrow> bool" where
  "om_inv m \<longleftrightarrow> length (om_pool m) = om_size m \<and> distinct (om_used m) \<and> distinct (om_free m)
     \<and> set (om_used m) \<inter> set (om_free m) = {} \<and> set (om_used m) \<union> set (om_free m) = {..<om_size m}"

lemma om_inv_used: "om_inv m \<Longrightarrow> pos \<in> set (om_used m) \<Longrightarrow> pos < om_size m"
  by (auto simp: om_inv_def)

lemma om_inv_count: "om_inv m \<Longrightarrow> om_Size m + length (om_free m) = om_size m"
proof -
  assume i: "om_inv m"
  then have "card (set (om_used m) \<union> set (om_free m)) = length (om_used m) + length (om_free m)"
    by (metis om_inv_def card_Un_disjoint distinct_card finite_set)
  moreover have "card (set (om_used m) \<union> set (om_free m)) = om_size m"
    using i by (simp add: om_inv_def)
  ultimately show ?thesis by (simp add: om_Size_def)
qed

lemma om_Malloc_None: "om_Malloc x0 m = (None, m') \<longleftrightarrow> om_free m = [] \<and> m' = m"
  by (auto simp: om_Malloc_def split: list.splits)

lemma om_Malloc_Some:
  assumes "om_inv m" "om_Malloc x0 m = (Some pos, m')"
  shows "om_inv m'" "pos \<notin> set (om_used m)" "om_used m' = pos # om_used m"
    "om_free m = pos # om_free m'" "om_pool m' = (om_pool m)[pos := x0]" "pos < om_size m"
    "om_size m' = om_size m" "om_shm_key m' = om_shm_key m"
proof -
  obtain rest where f: "om_free m = pos # rest"
    and m': "m' = m\<lparr>om_free := rest, om_used := List.insert pos (om_used m), om_pool := (om_pool m)[pos := x0]\<rparr>"
    using assms(2) by (auto simp: om_Malloc_def split: list.splits)
  have p: "pos \<notin> set (om_used m)" "pos < om_size m" using assms(1) f by (auto simp: om_inv_def)
  show "om_inv m'" using assms(1) f p unfolding om_inv_def m' by auto
  show "pos \<notin> set (om_used m)" "om_used m' = pos # om_used m" "om_free m = pos # om_free m'"
    "om_pool m' = (om_pool m)[pos := x0]" "pos < om_size m" "om_size m' = om_size m"
    "om_shm_key m' = om_shm_key m"
    using f p m' by simp_all
qed

lemma om_Free_used:
  assumes "om_inv m" "pos \<in> set (om_used m)"
  shows "fst (om_Free pos m) = True" "om_inv (snd (om_Free pos m))"
    "set (om_used (snd (om_Free pos m))) = set (om_used m) - {pos}"
    "om_pool (snd (om_Free pos m)) = om_pool m"
    "om_size (snd (om_Free pos m)) = om_size m"
    "om_free (snd (om_Free pos m)) = om_free m @ [pos]"
proof -
  have "pos < om_size m" using om_inv_used [OF assms] .
  then show "fst (om_Free pos m) = True" "om_inv (snd (om_Free pos m))"
    "set (om_used (snd (om_Free pos m))) = set (om_used m) - {pos}"
    "om_pool (snd (om_Free pos m)) = om_pool m"
    "om_size (snd (om_Free pos m)) = om_size m"
    "om_free (snd (om_Free pos m)) = om_free m @ [pos]"
    using assms by (auto simp: om_Free_def om_inv_def distinct_removeAll)
qed

lemma om_inv_put [simp]: "om_inv (om_put pos x m) = om_inv m"
  by (simp add: om_put_def om_inv_def)

lemma om_put_sel [simp]:
  "om_used (om_put pos x m) = om_used m" "om_free (om_put pos x m) = om_free m"
  "om_size (om_put pos x m) = om_size m" "om_pool (om_put pos x m) = (om_pool m)[pos := x]"
  by (simp_all add: om_put_def)

subsection \<open>include/hpp/share_mem.hpp\<close>

text \<open>The shared memory segments of the host by key. The system call that removes a segment
  may be refused (\<open>rm_ok\<close>), as may the one that makes one (\<open>mk_ok\<close>).\<close>

type_synonym shm_world = "u32 \<Rightarrow> byte list option"

definition ShareMem_IsExist :: "u32 \<Rightarrow> shm_world \<Rightarrow> bool" where
  "ShareMem_IsExist key w \<longleftrightarrow> w key \<noteq> None"

definition ShareMem_Create :: "bool \<Rightarrow> u32 \<Rightarrow> nat \<Rightarrow> shm_world \<Rightarrow> bool \<times> shm_world" where
  "ShareMem_Create mk_ok key n w = (case w key of
     Some seg \<Rightarrow> (n \<le> length seg, w)
   | None \<Rightarrow> if mk_ok then (True, w(key \<mapsto> replicate n 0)) else (False, w))"

text \<open>\<open>shmctl(IPC_RMID)\<close> answers 0 when it removed the segment, and the function then returns
  \<open>false\<close>.\<close>

definition ShareMem_Delete :: "bool \<Rightarrow> u32 \<Rightarrow> shm_world \<Rightarrow> bool \<times> shm_world" where
  "ShareMem_Delete rm_ok key w = (case w key of
     None \<Rightarrow> (False, w)
   | Some _ \<Rightarrow> if rm_ok then (False, w(key := None)) else (True, w))"

subsection \<open>include/hpp/serialize.hpp\<close>

text \<open>A base type is given by its bytes, a protobuf message by its encoding. The buffer may be
  larger than the \<open>buf_size\<close> the callers pass.\<close>

definition put_at :: "byte list \<Rightarrow> nat \<Rightarrow> byte list \<Rightarrow> byte list" where
  "put_at buf off img = take off buf @ img @ drop (off + length img) buf"

definition SerializeBaseType :: "byte list \<Rightarrow> byte list \<Rightarrow> nat \<Rightarrow> nat \<Rightarrow> bool \<times> byte list \<times> nat" where
  "SerializeBaseType elem buf buf_size off =
     (if length elem + off > buf_size then (False, buf, off)
      else (True, put_at buf off elem, off + length elem))"

definition UnSerializeBaseType :: "nat \<Rightarrow> byte list \<Rightarrow> nat \<Rightarrow> nat \<Rightarrow> (byte list \<times> nat) option" where
  "UnSerializeBaseType elem_size buf buf_size off =
     (if elem_size + off > buf_size then None
      else Some (take elem_size (drop off buf), off + elem_size))"

definition SerializeProtoBuf :: "byte list \<Rightarrow> byte list \<Rightarrow> nat \<Rightarrow> nat \<Rightarrow> bool \<times> byte list \<times> nat" where
  "SerializeProtoBuf proto buf buf_size off =
     (if length proto + 8 + off > buf_size then (False, buf, off)
      else
        let (ok, buf1, off1) = SerializeBaseType (le_bytes 8 (length proto)) buf buf_size off in
        if \<not> ok then (False, buf1, off1)
        else (True, put_at buf1 off1 proto, off1 + length proto))"

text \<open>\<open>parse\<close> is the generated \<open>ParseFromArray\<close>. On failure the offset is set back and only the
  answer matters.\<close>

definition UnSerializeProtoBuf ::
    "(byte list \<Rightarrow> 'p option) \<Rightarrow> byte list \<Rightarrow> nat \<Rightarrow> nat \<Rightarrow> ('p \<times> nat) option" where
  "UnSerializeProtoBuf parse buf buf_size off =
     (case UnSerializeBaseType 8 buf buf_size off of
        None \<Rightarrow> None
      | Some (lenb, off1) \<Rightarrow>
          let elem_size = of_le lenb in
          if elem_size + off1 > buf_size then None
          else (case parse (take elem_size (drop off1 buf)) of
                  None \<Rightarrow> None
                | Some p \<Rightarrow> Some (p, off1 + elem_size)))"

lemma length_put_at [simp]: "off + length img \<le> length buf \<Longrightarrow> length (put_at buf off img) = length buf"
  by (simp add: put_at_def)

lemma take_put_at: "off \<le> length buf \<Longrightarrow> take off (put_at buf off img) = take off buf"
  by (simp add: put_at_def)

lemma take_put_at_end:
  "off + length img \<le> length buf \<Longrightarrow> take (off + length img) (put_at buf off img) = take off buf @ img"
  by (simp add: put_at_def)

lemma SerializeProtoBuf_ok:
  assumes "off + 8 + length proto \<le> bs" "bs \<le> length buf"
  shows "SerializeProtoBuf proto buf bs off
      = (True, put_at (put_at buf off (le_bytes 8 (length proto))) (off + 8) proto, off + 8 + length proto)"
  using assms by (simp add: SerializeProtoBuf_def SerializeBaseType_def Let_def)

text \<open>A writer that appends the image \<open>img\<close> at the offset, and a reader that finds it there.\<close>

definition writes :: "byte list \<Rightarrow> (byte list \<Rightarrow> nat \<Rightarrow> nat \<Rightarrow> bool \<times> byte list \<times> nat) \<Rightarrow> bool" where
  "writes img f \<longleftrightarrow> (\<forall>buf bs off. off + length img \<le> bs \<and> bs \<le> length buf \<longrightarrow>
     (\<exists>buf'. f buf bs off = (True, buf', off + length img) \<and> length buf' = length buf
           \<and> take (off + length img) buf' = take off buf @ img))"

definition reads :: "byte list \<Rightarrow> 'x \<Rightarrow> (byte list \<Rightarrow> nat \<Rightarrow> nat \<Rightarrow> ('x \<times> nat) option) \<Rightarrow> bool" where
  "reads img x g \<longleftrightarrow> (\<forall>buf bs off rest. off + length img \<le> bs \<and> bs \<le> length buf \<and> drop off buf = img @ rest
     \<longrightarrow> g buf bs off = Some (x, off + length img))"

definition ser_then :: "(byte list \<Rightarrow> nat \<Rightarrow> nat \<Rightarrow> bool \<times> byte list \<times> nat) \<Rightarrow>
    (byte list \<Rightarrow> nat \<Rightarrow> nat \<Rightarrow> bool \<times> byte list \<times> nat) \<Rightarrow> byte list \<Rightarrow> nat \<Rightarrow> nat \<Rightarrow> bool \<times> byte list \<times> nat" where
  "ser_then f g buf bs off =
     (let (ok, buf1, off1) = f buf bs off in if \<not> ok then (False, buf1, off1) else g buf1 bs off1)"

lemma writesE:
  assumes "writes img f" "off + length img \<le> bs" "bs \<le> length buf"
  obtains buf' where "f buf bs off = (True, buf', off + length img)" "length buf' = length buf"
    "take (off + length img) buf' = take off buf @ img"
  using assms unfolding writes_def by blast

lemma writes_base: "writes elem (SerializeBaseType elem)"
  unfolding writes_def SerializeBaseType_def by (auto simp: take_put_at_end)

lemma writes_proto: "writes (le_bytes 8 (length p) @ p) (SerializeProtoBuf p)"
proof (unfold writes_def, intro allI impI)
  fix buf :: "byte list" and bs off
  assume "off + length (le_bytes 8 (length p) @ p) \<le> bs \<and> bs \<le> length buf"
  then have a: "off + 8 + length p \<le> bs" "bs \<le> length buf" by simp_all
  let ?b1 = "put_at buf off (le_bytes 8 (length p))"
  have "length ?b1 = length buf" using a by simp
  moreover have "take (off + 8) ?b1 = take off buf @ le_bytes 8 (length p)"
    using take_put_at_end [of off "le_bytes 8 (length p)" buf] a by simp
  ultimately show "\<exists>buf'. SerializeProtoBuf p buf bs off
        = (True, buf', off + length (le_bytes 8 (length p) @ p)) \<and> length buf' = length buf
      \<and> take (off + length (le_bytes 8 (length p) @ p)) buf' = take off buf @ le_bytes 8 (length p) @ p"
    using SerializeProtoBuf_ok [OF a] take_put_at_end [of "off + 8" p ?b1] a
    by (auto simp: add.assoc)
qed

lemma writes_then:
  assumes f: "writes a f" and g: "writes b g"
  shows "writes (a @ b) (ser_then f g)"
proof (unfold writes_def, intro allI impI)
  fix buf :: "byte list" and bs off assume l: "off + length (a @ b) \<le> bs \<and> bs \<le> length buf"
  then have l1: "off + length a \<le> bs" "bs \<le> length buf" and l2: "off + length a + length b \<le> bs" by simp_all
  obtain b1 where b1: "f buf bs off = (True, b1, off + length a)" "length b1 = length buf"
      "take (off + length a) b1 = take off buf @ a"
    using writesE [OF f l1] .
  obtain b2 where b2: "g b1 bs (off + length a) = (True, b2, off + length a + length b)"
      "length b2 = length buf" "take (off + length a + length b) b2 = take (off + length a) b1 @ b"
    using writesE [OF g l2, of b1] b1(2) l1(2) by metis
  show "\<exists>buf'. ser_then f g buf bs off = (True, buf', off + length (a @ b)) \<and> length buf' = length buf
      \<and> take (off + length (a @ b)) buf' = take off buf @ a @ b"
    using b1 b2 by (auto simp: ser_then_def add.assoc)
qed

lemma reads_base: "reads img img (UnSerializeBaseType (length img))"
  by (auto simp: reads_def UnSerializeBaseType_def add.commute)

lemma reads_proto:
  assumes "parse p = Some x" "length p < 2 ^ 64"
  shows "reads (le_bytes 8 (length p) @ p) x (UnSerializeProtoBuf parse)"
proof (unfold reads_def, intro allI impI)
  fix buf :: "byte list" and bs off rest
  assume "off + length (le_bytes 8 (length p) @ p) \<le> bs \<and> bs \<le> length buf
    \<and> drop off buf = (le_bytes 8 (length p) @ p) @ rest"
  then have a: "off + 8 + length p \<le> bs" "drop off buf = le_bytes 8 (length p) @ p @ rest" by simp_all
  have "UnSerializeBaseType 8 buf bs off = Some (le_bytes 8 (length p), off + 8)"
    using a by (simp add: UnSerializeBaseType_def)
  moreover have "of_le (le_bytes 8 (length p)) = length p"
    using assms(2) by (intro of_le_le_bytes) simp
  moreover have "drop (off + 8) buf = p @ rest"
    using arg_cong [OF a(2), of "drop 8"] by (simp add: add.commute)
  ultimately show "UnSerializeProtoBuf parse buf bs off
      = Some (x, off + length (le_bytes 8 (length p) @ p))"
    using assms(1) a(1) by (simp add: UnSerializeProtoBuf_def Let_def)
qed

subsection \<open>Release to and Init from shared memory\<close>

text \<open>\<open>bytes\<close>, \<open>ser\<close> and \<open>uns\<close> are \<open>GetByteSize\<close>, \<open>Serialize\<close> and \<open>UnSerialize\<close> of the pooled class.\<close>

fun ser_objs :: "('a \<Rightarrow> byte list \<Rightarrow> nat \<Rightarrow> nat \<Rightarrow> bool \<times> byte list \<times> nat) \<Rightarrow> 'a list
    \<Rightarrow> byte list \<Rightarrow> nat \<Rightarrow> nat \<Rightarrow> bool \<times> byte list \<times> nat" where
  "ser_objs ser [] buf bs off = (True, buf, off)"
| "ser_objs ser (x # xs) buf bs off =
     (let (ok, buf1, off1) = ser x buf bs off
      in if \<not> ok then (False, buf1, off1) else ser_objs ser xs buf1 bs off1)"

definition om_Release :: "(nat list \<Rightarrow> nat list) \<Rightarrow> ('a \<Rightarrow> nat)
    \<Rightarrow> ('a \<Rightarrow> byte list \<Rightarrow> nat \<Rightarrow> nat \<Rightarrow> bool \<times> byte list \<times> nat)
    \<Rightarrow> bool \<Rightarrow> bool \<Rightarrow> 'a objmgr \<Rightarrow> shm_world \<Rightarrow> bool \<times> shm_world" where
  "om_Release ord bytes ser rm_ok mk_ok m w =
     (let key = om_shm_key m in
      if key = 0 then (True, w)
      else
        let (deleted, w1) =
              (if ShareMem_IsExist key w then ShareMem_Delete rm_ok key w else (True, w)) in
        if \<not> deleted then (False, w1)
        else
          let byte_size = 4 + sum_list (map bytes (om_iter ord m));
              (made, w2) = ShareMem_Create mk_ok key byte_size w1 in
          if \<not> made then (False, w2)
          else
            let (ok, buff, off) = ser_then (SerializeBaseType (le_bytes 4 (om_Size m)))
                  (ser_objs ser (om_iter ord m)) (the (w2 key)) byte_size 0
            in (ok, w2(key \<mapsto> buff)))"

text \<open>The loop of \<open>Init\<close> over the saved objects: \<open>n\<close> counts \<open>min _size obj_size\<close> down. The outer
  \<open>None\<close> would be the null pointer of a failed \<open>Malloc\<close>.\<close>

fun om_load :: "'a \<Rightarrow> (byte list \<Rightarrow> nat \<Rightarrow> nat \<Rightarrow> ('a \<times> nat) option) \<Rightarrow> byte list \<Rightarrow> nat \<Rightarrow> nat
    \<Rightarrow> 'a objmgr \<Rightarrow> (bool \<times> 'a objmgr) option" where
  "om_load x0 uns buf off 0 m = Some (True, m)"
| "om_load x0 uns buf off (Suc n) m =
     (case om_Malloc x0 m of
        (None, m1) \<Rightarrow> None
      | (Some pos, m1) \<Rightarrow>
          (case uns buf (length buf) off of
             None \<Rightarrow> Some (False, m1)
           | Some (x, off1) \<Rightarrow> om_load x0 uns buf off1 n (om_put pos x m1)))"

definition om_new :: "'a \<Rightarrow> nat \<Rightarrow> u32 \<Rightarrow> 'a objmgr" where
  "om_new x0 sz key =
     \<lparr>om_size = sz, om_shm_key = key, om_pool = replicate sz x0, om_used = [], om_free = [0..<sz]\<rparr>"

definition om_Init :: "'a \<Rightarrow> (byte list \<Rightarrow> nat \<Rightarrow> nat \<Rightarrow> ('a \<times> nat) option) \<Rightarrow> bool \<Rightarrow> nat \<Rightarrow> u32
    \<Rightarrow> shm_world \<Rightarrow> (bool \<times> 'a objmgr \<times> shm_world) option" where
  "om_Init x0 uns rm_ok sz key w =
     (let m = om_new x0 sz key in
      if sz = 0 then Some (False, m, w)
      else if key = 0 then Some (True, m, w)
      else (case w key of
              None \<Rightarrow> Some (True, m, w)
            | Some buff \<Rightarrow>
                (case UnSerializeBaseType 4 buff (length buff) 0 of
                   None \<Rightarrow> Some (False, m, w)
                 | Some (n, off) \<Rightarrow>
                     (case om_load x0 uns buff off (min sz (of_le n)) m of
                        None \<Rightarrow> None
                      | Some (ok, m1) \<Rightarrow>
                          if \<not> ok then Some (False, m1, w)
                          else Some (True, m1, snd (ShareMem_Delete rm_ok key w))))))"

lemma om_inv_new [simp]: "om_inv (om_new x0 sz key)"
  by (auto simp: om_inv_def om_new_def)

lemma om_new_sel [simp]:
  "om_size (om_new x0 sz key) = sz" "om_used (om_new x0 sz key) = []"
  "om_free (om_new x0 sz key) = [0..<sz]" "om_shm_key (om_new x0 sz key) = key"
  by (simp_all add: om_new_def)

text \<open>The contract between a pooled class and its pool: what \<open>Serialize\<close> writes \<open>UnSerialize\<close>
  reads back, and \<open>GetByteSize\<close> tells its length.\<close>

locale object_class =
  fixes bytes :: "'a \<Rightarrow> nat"
    and ser :: "'a \<Rightarrow> byte list \<Rightarrow> nat \<Rightarrow> nat \<Rightarrow> bool \<times> byte list \<times> nat"
    and uns :: "byte list \<Rightarrow> nat \<Rightarrow> nat \<Rightarrow> ('a \<times> nat) option"
    and img :: "'a \<Rightarrow> byte list"
    and ok :: "'a \<Rightarrow> bool"
  assumes bytes_img: "ok x \<Longrightarrow> bytes x = length (img x)"
    and ser_img: "ok x \<Longrightarrow> writes (img x) (ser x)"
    and uns_img: "ok x \<Longrightarrow> reads (img x) x uns"
begin

lemma ser_objs_writes:
  "\<forall>x\<in>set xs. ok x \<Longrightarrow> writes (concat (map img xs)) (ser_objs ser xs)"
proof (induction xs)
  case Nil
  show ?case by (simp add: writes_def)
next
  case (Cons x xs)
  have "ser_objs ser (x # xs) = ser_then (ser x) (ser_objs ser xs)"
    by (intro ext) (simp add: ser_then_def)
  with Cons ser_img [of x] writes_then [of "img x" "ser x"] show ?case by simp
qed

lemma om_load_objs:
  assumes "om_inv m" "length xs \<le> length (om_free m)" "\<forall>x\<in>set xs. ok x"
    and "off \<le> length buf" "drop off buf = concat (map img xs) @ rest"
  shows "\<exists>m'. om_load x0 uns buf off (length xs) m = Some (True, m') \<and> om_inv m'
      \<and> om_size m' = om_size m
      \<and> set (om_used m') = set (om_used m) \<union> set (take (length xs) (om_free m))
      \<and> (\<forall>i<length xs. om_pool m' ! (om_free m ! i) = xs ! i)
      \<and> (\<forall>pos\<in>set (om_used m). om_pool m' ! pos = om_pool m ! pos)"
  using assms
proof (induction xs arbitrary: m off)
  case Nil
  then show ?case by simp
next
  case (Cons x xs)
  obtain pos m1 where m1: "om_Malloc x0 m = (Some pos, m1)"
    using Cons.prems(2) by (cases "om_free m") (auto simp: om_Malloc_def)
  note M = om_Malloc_Some [OF Cons.prems(1) m1]
  let ?m2 = "om_put pos x m1"
  have l: "off + length (img x) \<le> length buf"
    using arg_cong [OF Cons.prems(5), of length] Cons.prems(4) by simp
  have r: "uns buf (length buf) off = Some (x, off + length (img x))"
    using uns_img [of x] Cons.prems(3,5) l unfolding reads_def by auto
  have d: "drop (off + length (img x)) buf = concat (map img xs) @ rest"
    using arg_cong [OF Cons.prems(5), of "drop (length (img x))"] by (simp add: add.commute)
  obtain m' where IH: "om_load x0 uns buf (off + length (img x)) (length xs) ?m2 = Some (True, m')"
      "om_inv m'" "om_size m' = om_size ?m2"
      "set (om_used m') = set (om_used ?m2) \<union> set (take (length xs) (om_free ?m2))"
      "\<forall>i<length xs. om_pool m' ! (om_free ?m2 ! i) = xs ! i"
      "\<forall>pos\<in>set (om_used ?m2). om_pool m' ! pos = om_pool ?m2 ! pos"
    using Cons.IH [of ?m2 "off + length (img x)"] M Cons.prems l d by auto
  have px: "om_pool m' ! pos = x"
    using IH(6) M Cons.prems(1) by (simp add: om_inv_def)
  have "\<forall>i<length (x # xs). om_pool m' ! (om_free m ! i) = (x # xs) ! i"
    using px IH(5) M(4) by (auto simp: less_Suc_eq_0_disj)
  moreover have "\<forall>p\<in>set (om_used m). om_pool m' ! p = om_pool m ! p"
  proof
    fix p assume p: "p \<in> set (om_used m)"
    then have "p \<noteq> pos" using M(2) by auto
    then show "om_pool m' ! p = om_pool m ! p" using IH(6) M(3,5) p by simp
  qed
  ultimately show ?case
    using m1 r IH M by (auto simp: M(4))
qed

text \<open>What a stopping server saves its restarted successor finds again.\<close>

lemma release_init:
  assumes ord: "length (ord (om_used m)) = om_Size m" and n: "om_Size m < 2 ^ 32"
    and key: "om_shm_key m \<noteq> 0" "w (om_shm_key m) = None"
    and objs: "\<forall>x\<in>set (om_iter ord m). ok x" and sz: "0 < sz"
  shows "\<exists>w' m'. om_Release ord bytes ser rm_ok True m w = (True, w')
      \<and> om_Init x0 uns rm_ok' sz (om_shm_key m) w'
          = Some (True, m', snd (ShareMem_Delete rm_ok' (om_shm_key m) w'))
      \<and> om_inv m' \<and> set (om_used m') = {..<min sz (om_Size m)}
      \<and> (\<forall>i < min sz (om_Size m). om_Get i m' = Some (om_iter ord m ! i))"
proof -
  let ?xs = "om_iter ord m" and ?k = "om_shm_key m"
  let ?img = "le_bytes 4 (om_Size m) @ concat (map img ?xs)"
  have lx: "length ?xs = om_Size m" using ord by (simp add: om_iter_def)
  have "map bytes ?xs = map (length \<circ> img) ?xs" using objs bytes_img by simp
  then have bs: "4 + sum_list (map bytes ?xs) = length ?img"
    by (simp only: length_append length_concat map_map length_le_bytes)
  have W: "writes ?img (ser_then (SerializeBaseType (le_bytes 4 (om_Size m))) (ser_objs ser ?xs))"
    by (intro writes_then writes_base ser_objs_writes objs)
  obtain b where b: "ser_then (SerializeBaseType (le_bytes 4 (om_Size m))) (ser_objs ser ?xs)
      (replicate (length ?img) 0) (length ?img) 0 = (True, b, length ?img)"
      "length b = length ?img" "take (length ?img) b = ?img"
    using writesE [OF W, of 0 "length ?img" "replicate (length ?img) 0"] by auto
  have b': "b = ?img" using b(2,3) by simp
  have R: "om_Release ord bytes ser rm_ok True m w = (True, w(?k \<mapsto> b))"
    using key b(1) unfolding om_Release_def bs Let_def
    by (simp add: ShareMem_IsExist_def ShareMem_Create_def)
  let ?n = "min sz (om_Size m)"
  have hdr: "UnSerializeBaseType 4 b (length b) 0 = Some (le_bytes 4 (om_Size m), 4)"
    by (simp add: UnSerializeBaseType_def b')
  have ln: "of_le (le_bytes 4 (om_Size m)) = om_Size m" using n by (simp add: of_le_le_bytes)
  have ly: "length (take ?n ?xs) = ?n" using lx by simp
  have split: "drop 4 b = concat (map img (take ?n ?xs)) @ concat (map img (drop ?n ?xs))"
    by (simp add: b' flip: concat_append map_append)
  have okt: "\<forall>x\<in>set (take ?n ?xs). ok x" using objs by (auto dest: in_set_takeD)
  obtain m' where L: "om_load x0 uns b 4 ?n (om_new x0 sz ?k) = Some (True, m')" "om_inv m'"
      "om_size m' = sz" "set (om_used m') = set (take ?n [0..<sz])"
      "\<forall>i<?n. om_pool m' ! ([0..<sz] ! i) = take ?n ?xs ! i"
    using om_load_objs [of "om_new x0 sz ?k" "take ?n ?xs" 4 b _ x0, OF _ _ okt _ split, unfolded ly]
      b(2) by auto
  have "om_Init x0 uns rm_ok' sz ?k (w(?k \<mapsto> b))
      = Some (True, m', snd (ShareMem_Delete rm_ok' ?k (w(?k \<mapsto> b))))"
    using key(1) sz hdr ln L(1) by (simp add: om_Init_def Let_def)
  moreover have "set (om_used m') = {..<?n}" using L(4) by (simp add: atLeast0LessThan)
  moreover have "\<forall>i<?n. om_Get i m' = Some (?xs ! i)" using L(3,5) by (simp add: om_Get_def)
  ultimately show ?thesis using R L(2) by blast
qed

end

text \<open>A segment left behind makes \<open>Release\<close> fail whenever it can be removed.\<close>

lemma om_Release_existing:
  assumes "om_shm_key m \<noteq> 0" "w (om_shm_key m) = Some seg"
  shows "om_Release ord bytes ser True mk_ok m w = (False, w(om_shm_key m := None))"
  using assms by (simp add: om_Release_def ShareMem_IsExist_def ShareMem_Delete_def)

end
