(* ===== verification/KeyedPool.thy ===== *)
theory KeyedPool
  imports ObjectManager
begin

text \<open>
  What common/session_manager.cpp, timer_manager.cpp, player_manager.cpp and
  machine_manager.cpp have in common: an object pool with an index from keys to positions, and
  for sessions and timers the generation of a free 32-bit id. The contracts of these managers
  are the locales \<open>keyed_store\<close>, \<open>id_store\<close> (ids made by the manager) and \<open>uid_store\<close> (keys
  given by the caller).
\<close>

subsection \<open>Index over a pool\<close>

record ('k, 'a) kpool =
  kp_om :: "'a objmgr"
  kp_index :: "'k \<Rightarrow> nat option"

text \<open>\<open>_index.find(k) == _index.end()\<close> or the object at the position found.\<close>

definition kp_Get :: "'k \<Rightarrow> ('k, 'a, 'z) kpool_scheme \<Rightarrow> 'a option" where
  "kp_Get k p = (case kp_index p k of None \<Rightarrow> None | Some pos \<Rightarrow> om_Get pos (kp_om p))"

text \<open>Writing through the pointer a lookup returned.\<close>

definition kp_update :: "'k \<Rightarrow> ('a \<Rightarrow> 'a) \<Rightarrow> ('k, 'a, 'z) kpool_scheme \<Rightarrow> ('k, 'a, 'z) kpool_scheme" where
  "kp_update k f p = (case kp_index p k of
     None \<Rightarrow> p
   | Some pos \<Rightarrow> p\<lparr>kp_om := om_put pos (f (om_pool (kp_om p) ! pos)) (kp_om p)\<rparr>)"

text \<open>\<open>clr\<close> is the generated \<open>Clear\<close>.\<close>

definition kp_Release :: "('a \<Rightarrow> 'a) \<Rightarrow> 'k \<Rightarrow> ('k, 'a, 'z) kpool_scheme \<Rightarrow> bool \<times> ('k, 'a, 'z) kpool_scheme" where
  "kp_Release clr k p = (case kp_index p k of
     None \<Rightarrow> (False, p)
   | Some pos \<Rightarrow>
       (let om1 = om_put pos (clr (om_pool (kp_om p) ! pos)) (kp_om p);
            om2 = snd (om_Free pos om1)
        in (True, p\<lparr>kp_om := om2, kp_index := (kp_index p)(k := None)\<rparr>)))"

text \<open>The caller of \<open>Release\<close> on every key collected before.\<close>

definition release_each :: "('k \<Rightarrow> 's \<Rightarrow> bool \<times> 's) \<Rightarrow> 'k list \<Rightarrow> 's \<Rightarrow> 's" where
  "release_each release ks s = foldl (\<lambda>s k. snd (release k s)) s ks"

text \<open>\<open>CreatePlayer\<close> and \<open>CreateMachine\<close>: the key is put into a fresh object and the index is
  overwritten, whether or not the key was there.\<close>

definition kp_Create :: "'a \<Rightarrow> ('k \<Rightarrow> 'a \<Rightarrow> 'a) \<Rightarrow> 'k \<Rightarrow> ('k, 'a, 'z) kpool_scheme
    \<Rightarrow> bool \<times> ('k, 'a, 'z) kpool_scheme" where
  "kp_Create x0 setk k p = (case om_Malloc x0 (kp_om p) of
     (None, _) \<Rightarrow> (False, p)
   | (Some pos, om1) \<Rightarrow>
       (True, p\<lparr>kp_om := om_put pos (setk k x0) om1, kp_index := (kp_index p)(k \<mapsto> pos)\<rparr>))"

subsection \<open>Ids\<close>

record 'a idpool = "(u32, 'a) kpool" +
  ip_cur_max_id :: u32

text \<open>The \<open>while (true)\<close> loop over candidate ids: \<open>n\<close> candidates are left to try.\<close>

fun gen_id :: "nat \<Rightarrow> (u32 \<Rightarrow> nat option) \<Rightarrow> u32 \<Rightarrow> u32 option \<times> u32" where
  "gen_id 0 index mx = (None, mx)"
| "gen_id (Suc n) index mx = (if index (mx + 1) = None then (Some (mx + 1), mx + 1) else gen_id n index (mx + 1))"

text \<open>Allocation as in \<open>CreateSession\<close>, \<open>CreateTimer\<close> and \<open>CreateTimerMsec\<close>: ten taken
  candidates in a row make it give up, after the object has been taken from the pool. \<open>mk\<close> is
  the content written into the object.\<close>

definition ip_Create :: "'a \<Rightarrow> (u32 \<Rightarrow> 'a) \<Rightarrow> 'a idpool \<Rightarrow> u32 option \<times> 'a idpool" where
  "ip_Create x0 mk p = (case om_Malloc x0 (kp_om p) of
     (None, _) \<Rightarrow> (None, p)
   | (Some pos, om1) \<Rightarrow>
       (case gen_id 10 (kp_index p) (ip_cur_max_id p) of
          (None, mx) \<Rightarrow> (None, p\<lparr>kp_om := om1, ip_cur_max_id := mx\<rparr>)
        | (Some i, mx) \<Rightarrow>
            (Some i, p\<lparr>kp_om := om_put pos (mk i) om1, kp_index := (kp_index p)(i \<mapsto> pos),
                        ip_cur_max_id := mx AND 0xfffffff\<rparr>)))"

text \<open>The index and the highest id are rebuilt from the restored objects.\<close>

fun rebuild_index :: "('a \<Rightarrow> 'k) \<Rightarrow> 'a list \<Rightarrow> nat list \<Rightarrow> ('k \<Rightarrow> nat option) \<Rightarrow> 'k \<Rightarrow> nat option" where
  "rebuild_index key pool [] idx = idx"
| "rebuild_index key pool (pos # ps) idx = rebuild_index key pool ps (idx(key (pool ! pos) \<mapsto> pos))"

fun rebuild_max :: "('a \<Rightarrow> u32) \<Rightarrow> 'a list \<Rightarrow> nat list \<Rightarrow> u32 \<Rightarrow> u32" where
  "rebuild_max key pool [] mx = mx"
| "rebuild_max key pool (pos # ps) mx =
     rebuild_max key pool ps (if key (pool ! pos) > mx then key (pool ! pos) else mx)"

subsection \<open>Invariant and laws\<close>

definition kp_inv :: "('a \<Rightarrow> 'k) \<Rightarrow> ('k, 'a, 'z) kpool_scheme \<Rightarrow> bool" where
  "kp_inv key p \<longleftrightarrow> om_inv (kp_om p) \<and>
     (\<forall>k pos. kp_index p k = Some pos \<longrightarrow> pos \<in> set (om_used (kp_om p)) \<and> key (om_pool (kp_om p) ! pos) = k)"

definition kp_room :: "('k, 'a, 'z) kpool_scheme \<Rightarrow> nat" where
  "kp_room p = length (om_free (kp_om p))"

lemma kp_invD:
  assumes "kp_inv key p" "kp_index p k = Some pos"
  shows "pos \<in> set (om_used (kp_om p))" "key (om_pool (kp_om p) ! pos) = k" "pos < om_size (kp_om p)"
    "pos < length (om_pool (kp_om p))" "kp_Get k p = Some (om_pool (kp_om p) ! pos)"
proof -
  show u: "pos \<in> set (om_used (kp_om p))" "key (om_pool (kp_om p) ! pos) = k"
    using assms by (auto simp: kp_inv_def)
  then show l: "pos < om_size (kp_om p)" using assms om_inv_used by (auto simp: kp_inv_def)
  then show "pos < length (om_pool (kp_om p))" using assms by (simp add: kp_inv_def om_inv_def)
  show "kp_Get k p = Some (om_pool (kp_om p) ! pos)" using l assms(2) by (simp add: kp_Get_def om_Get_def)
qed

lemma kp_Get_None: "kp_inv key p \<Longrightarrow> kp_Get k p = None \<longleftrightarrow> kp_index p k = None"
  using kp_invD by (cases "kp_index p k") (fastforce simp: kp_Get_def)+

lemma kp_Get_key: "kp_inv key p \<Longrightarrow> kp_Get k p = Some x \<Longrightarrow> key x = k"
  using kp_invD by (cases "kp_index p k") (fastforce simp: kp_Get_def)+

lemma kp_inj:
  "kp_inv key p \<Longrightarrow> kp_index p j = Some pos \<Longrightarrow> kp_index p k = Some pos \<Longrightarrow> j = k"
  using kp_invD(2) by metis

lemma kp_finite: "kp_inv key p \<Longrightarrow> finite {k. kp_Get k p \<noteq> None}"
proof -
  assume i: "kp_inv key p"
  have "{k. kp_Get k p \<noteq> None} \<subseteq> (\<lambda>pos. key (om_pool (kp_om p) ! pos)) ` set (om_used (kp_om p))"
  proof
    fix k assume "k \<in> {k. kp_Get k p \<noteq> None}"
    then obtain pos where "kp_index p k = Some pos" using kp_Get_None [OF i] by auto
    from kp_invD(1,2) [OF i this] show
      "k \<in> (\<lambda>pos. key (om_pool (kp_om p) ! pos)) ` set (om_used (kp_om p))" by force
  qed
  then show ?thesis by (rule finite_subset) simp
qed

lemma kp_Release_miss: "kp_inv key p \<Longrightarrow> kp_Get k p = None \<Longrightarrow> kp_Release clr k p = (False, p)"
  by (simp add: kp_Get_None kp_Release_def)

lemma kp_Release_hit:
  assumes i: "kp_inv key p" and g: "kp_Get k p = Some x"
  shows "\<exists>p'. kp_Release clr k p = (True, p') \<and> kp_inv key p' \<and> kp_room p' = Suc (kp_room p)
      \<and> (\<forall>j. kp_Get j p' = (if j = k then None else kp_Get j p))"
proof -
  obtain pos where pos: "kp_index p k = Some pos" using g by (auto simp: kp_Get_def split: option.splits)
  note D = kp_invD [OF i pos]
  define om1 where "om1 = om_put pos (clr (om_pool (kp_om p) ! pos)) (kp_om p)"
  define om2 where "om2 = snd (om_Free pos om1)"
  define p' where "p' = p\<lparr>kp_om := om2, kp_index := (kp_index p)(k := None)\<rparr>"
  have o1: "om_inv om1" "pos \<in> set (om_used om1)" using i D(1) by (simp_all add: kp_inv_def om1_def)
  note F = om_Free_used [OF o1, folded om2_def]
  have r: "kp_Release clr k p = (True, p')"
    using pos by (simp add: kp_Release_def Let_def p'_def om2_def om1_def)
  have old: "q \<in> set (om_used om2) \<and> om_pool om2 ! q = om_pool (kp_om p) ! q \<and> key (om_pool (kp_om p) ! q) = j"
    if "kp_index p j = Some q" "j \<noteq> k" for j q
  proof -
    have "q \<noteq> pos" using kp_inj [OF i] pos that by blast
    then show ?thesis using kp_invD(1,2) [OF i that(1)] F(3,4) by (simp add: om1_def)
  qed
  have "kp_inv key p'"
    unfolding kp_inv_def using F(2) old by (auto simp: p'_def split: if_splits)
  moreover have "kp_room p' = Suc (kp_room p)" using F(6) by (simp add: kp_room_def p'_def om1_def)
  moreover have "kp_Get j p' = (if j = k then None else kp_Get j p)" for j
    using F(5) old [of j] by (cases "kp_index p j") (simp_all add: kp_Get_def om_Get_def p'_def om1_def)
  ultimately show ?thesis using r by blast
qed

lemma kp_Malloc_put:
  assumes i: "kp_inv key p" and m: "om_Malloc x0 (kp_om p) = (Some pos, om1)" and k: "key x = k"
    and p': "p' = p\<lparr>kp_om := om_put pos x om1, kp_index := (kp_index p)(k \<mapsto> pos)\<rparr>"
  shows "kp_inv key p'" "Suc (kp_room p') = kp_room p"
    "kp_Get j p' = (if j = k then Some x else kp_Get j p)"
proof -
  have oi: "om_inv (kp_om p)" using i by (simp add: kp_inv_def)
  note M = om_Malloc_Some [OF oi m]
  have len: "pos < length (om_pool (kp_om p))" using M(6) oi by (simp add: om_inv_def)
  have old: "kp_index p j = Some q \<Longrightarrow> (om_pool (kp_om p))[pos := y] ! q = om_pool (kp_om p) ! q" for j q y
    using kp_invD(1) [OF i] M(2) by (metis nth_list_update_neq)
  show "kp_inv key p'"
    using M i len k old unfolding kp_inv_def p' by auto
  show "Suc (kp_room p') = kp_room p" using M by (simp add: kp_room_def p')
  show "kp_Get j p' = (if j = k then Some x else kp_Get j p)"
    using M len old [of j] by (cases "kp_index p j") (simp_all add: kp_Get_def om_Get_def p')
qed

lemma kp_Malloc_lost:
  assumes i: "kp_inv key p" and m: "om_Malloc x0 (kp_om p) = (Some pos, om1)"
    and p': "kp_om p' = om1" "kp_index p' = kp_index p"
  shows "kp_inv key p'" "Suc (kp_room p') = kp_room p" "kp_Get j p' = kp_Get j p"
proof -
  have oi: "om_inv (kp_om p)" using i by (simp add: kp_inv_def)
  note M = om_Malloc_Some [OF oi m]
  have old: "kp_index p j = Some q \<Longrightarrow> (om_pool (kp_om p))[pos := y] ! q = om_pool (kp_om p) ! q" for j q y
    using kp_invD(1) [OF i] M(2) by (metis nth_list_update_neq)
  show "kp_inv key p'" using M i old unfolding kp_inv_def p' by auto
  show "Suc (kp_room p') = kp_room p" using M by (simp add: kp_room_def p')
  show "kp_Get j p' = kp_Get j p"
    using M old [of j] by (cases "kp_index p j") (simp_all add: kp_Get_def om_Get_def p')
qed

lemma gen_id_fresh: "gen_id n index mx = (Some i, mx') \<Longrightarrow> index i = None \<and> mx' = i"
  by (induction n arbitrary: mx) (auto split: if_splits)

text \<open>A fresh id is found unless the next \<open>n\<close> ids are all taken.\<close>

lemma gen_id_None:
  "gen_id n index mx = (None, mx') \<longleftrightarrow> (\<forall>i\<in>{1..n}. index (mx + of_nat i) \<noteq> None) \<and> mx' = mx + of_nat n"
proof (induction n arbitrary: mx)
  case (Suc n)
  have "(\<forall>i\<in>{1..Suc n}. index (mx + of_nat i) \<noteq> None)
      \<longleftrightarrow> index (mx + 1) \<noteq> None \<and> (\<forall>i\<in>{1..n}. index (mx + 1 + of_nat i) \<noteq> None)" (is "?l \<longleftrightarrow> ?r")
  proof
    assume l: ?l
    have "index (mx + 1 + of_nat i) \<noteq> None" if "i \<in> {1..n}" for i
      using bspec [OF l, of "Suc i"] that by (simp add: add.assoc)
    then show ?r using bspec [OF l, of 1] by simp
  next
    assume r: ?r
    show ?l
    proof
      fix i assume i: "i \<in> {1..Suc n}"
      then obtain k where k: "i = Suc k" "k \<le> n" by (cases i) auto
      then show "index (mx + of_nat i) \<noteq> None"
        using r bspec [OF conjunct2 [OF r], of k] by (cases "k = 0") (auto simp: add.commute add.left_commute)
    qed
  qed
  then show ?case using Suc.IH [of "mx + 1"] by (auto simp: algebra_simps)
qed auto

text \<open>The laws of creation with a generated and with a given key.\<close>

lemma ip_Create_full: "kp_room p = 0 \<Longrightarrow> ip_Create x0 mk p = (None, p)"
  by (simp add: kp_room_def ip_Create_def om_Malloc_def)

lemma ip_Create_some:
  assumes i: "kp_inv key p" and c: "ip_Create x0 mk p = (Some k, p')" and key: "key (mk k) = k"
  shows "kp_inv key p'" "kp_Get k p = None" "Suc (kp_room p') = kp_room p"
    "kp_Get j p' = (if j = k then Some (mk k) else kp_Get j p)"
proof -
  obtain pos om1 mx where m: "om_Malloc x0 (kp_om p) = (Some pos, om1)"
      and g: "gen_id 10 (kp_index p) (ip_cur_max_id p) = (Some k, mx)"
      and p': "p' = p\<lparr>kp_om := om_put pos (mk k) om1, kp_index := (kp_index p)(k \<mapsto> pos),
                     ip_cur_max_id := mx AND 0xfffffff\<rparr>"
    using c by (auto simp: ip_Create_def split: prod.splits option.splits)
  let ?q = "p\<lparr>kp_om := om_put pos (mk k) om1, kp_index := (kp_index p)(k \<mapsto> pos)\<rparr>"
  have eq: "kp_inv key p' = kp_inv key ?q" "kp_room p' = kp_room ?q" "kp_Get j p' = kp_Get j ?q"
    by (simp_all add: p' kp_inv_def kp_room_def kp_Get_def split: option.split)
  note P = kp_Malloc_put [OF i m key refl]
  show "kp_inv key p'" "Suc (kp_room p') = kp_room p"
      "kp_Get j p' = (if j = k then Some (mk k) else kp_Get j p)"
    using P unfolding eq by auto
  show "kp_Get k p = None" using gen_id_fresh [OF g] by (simp add: kp_Get_def)
qed

lemma ip_Create_none:
  assumes i: "kp_inv key p" and c: "ip_Create x0 mk p = (None, p')" and r: "0 < kp_room p"
  shows "kp_inv key p'" "Suc (kp_room p') = kp_room p" "kp_Get j p' = kp_Get j p"
    "fst (gen_id 10 (kp_index p) (ip_cur_max_id p)) = None"
proof -
  obtain pos om1 where m: "om_Malloc x0 (kp_om p) = (Some pos, om1)"
    using r by (cases "om_free (kp_om p)") (auto simp: kp_room_def om_Malloc_def)
  with c obtain mx where g: "gen_id 10 (kp_index p) (ip_cur_max_id p) = (None, mx)"
      and p': "p' = p\<lparr>kp_om := om1, ip_cur_max_id := mx\<rparr>"
    by (auto simp: ip_Create_def split: prod.splits option.splits)
  show "kp_inv key p'" "Suc (kp_room p') = kp_room p" "kp_Get j p' = kp_Get j p"
    using kp_Malloc_lost [OF i m, of p'] by (simp_all add: p')
  show "fst (gen_id 10 (kp_index p) (ip_cur_max_id p)) = None" using g by simp
qed

lemma kp_Create_full: "kp_room p = 0 \<Longrightarrow> kp_Create x0 setk k p = (False, p)"
  by (simp add: kp_room_def kp_Create_def om_Malloc_def)

lemma kp_Create_room:
  assumes i: "kp_inv key p" and r: "0 < kp_room p" and key: "key (setk k x0) = k"
  shows "\<exists>p'. kp_Create x0 setk k p = (True, p') \<and> kp_inv key p' \<and> Suc (kp_room p') = kp_room p
      \<and> (\<forall>j. kp_Get j p' = (if j = k then Some (setk k x0) else kp_Get j p))"
proof -
  obtain pos om1 where m: "om_Malloc x0 (kp_om p) = (Some pos, om1)"
    using r by (cases "om_free (kp_om p)") (auto simp: kp_room_def om_Malloc_def)
  show ?thesis
    using kp_Malloc_put [OF i m key refl] m by (auto simp: kp_Create_def)
qed

lemma kp_update_laws:
  assumes "kp_inv key p" "\<And>x. key x = k \<Longrightarrow> key (f x) = k"
  shows "kp_inv key (kp_update k f p)" "kp_room (kp_update k f p) = kp_room p"
    "kp_Get j (kp_update k f p) = (if j = k then map_option f (kp_Get k p) else kp_Get j p)"
proof -
  have "kp_inv key (kp_update k f p) \<and> kp_room (kp_update k f p) = kp_room p
    \<and> kp_Get j (kp_update k f p) = (if j = k then map_option f (kp_Get k p) else kp_Get j p)"
  proof (cases "kp_index p k")
    case None
    with assms(1) show ?thesis by (auto simp: kp_update_def kp_Get_def)
  next
    case (Some pos)
    note D = kp_invD [OF assms(1) Some]
    have old: "kp_index p i = Some q \<Longrightarrow> i \<noteq> k \<Longrightarrow> q \<noteq> pos" for i q
      using kp_inj [OF assms(1)] Some by blast
    have "kp_inv key (kp_update k f p)"
      using assms Some D old unfolding kp_inv_def
      by (simp add: kp_update_def) (metis nth_list_update_eq nth_list_update_neq)
    moreover have "kp_Get j (kp_update k f p) = (if j = k then map_option f (kp_Get k p) else kp_Get j p)"
      using Some D old [of j] by (cases "kp_index p j") (auto simp: kp_update_def kp_Get_def om_Get_def)
    ultimately show ?thesis using Some by (simp add: kp_update_def kp_room_def)
  qed
  then show "kp_inv key (kp_update k f p)" "kp_room (kp_update k f p) = kp_room p"
    "kp_Get j (kp_update k f p) = (if j = k then map_option f (kp_Get k p) else kp_Get j p)" by blast+
qed

lemma gen_id_None_fst: "fst (gen_id n index mx) = None \<longleftrightarrow> (\<forall>i\<in>{1..n}. index (mx + of_nat i) \<noteq> None)"
  using gen_id_None [of n index mx] by (cases "gen_id n index mx") auto

subsection \<open>Walks over the pool\<close>

text \<open>A position in use belongs to the key of its object, unless it is a slot that a failed
  creation took and left in its initial state.\<close>

definition kp_owned :: "('a \<Rightarrow> 'k) \<Rightarrow> 'a \<Rightarrow> ('k, 'a, 'z) kpool_scheme \<Rightarrow> bool" where
  "kp_owned key x0 p \<longleftrightarrow> (\<forall>pos\<in>set (om_used (kp_om p)).
     kp_index p (key (om_pool (kp_om p) ! pos)) = Some pos \<or> om_pool (kp_om p) ! pos = x0)"

lemma kp_walk:
  assumes i: "kp_inv key p" and o: "kp_owned key x0 p" and k: "k \<noteq> key x0"
    and ord: "set (ord (om_used (kp_om p))) = set (om_used (kp_om p))"
  shows "(\<exists>x\<in>set (om_iter ord (kp_om p)). P x \<and> key x = k) \<longleftrightarrow> (\<exists>x. kp_Get k p = Some x \<and> P x)"
proof
  assume "\<exists>x\<in>set (om_iter ord (kp_om p)). P x \<and> key x = k"
  then obtain pos where pos: "pos \<in> set (om_used (kp_om p))" "P (om_pool (kp_om p) ! pos)"
      "key (om_pool (kp_om p) ! pos) = k"
    using ord by (auto simp: om_iter_def)
  then have "kp_index p k = Some pos" using o k by (auto simp: kp_owned_def)
  with kp_invD(5) [OF i this] pos show "\<exists>x. kp_Get k p = Some x \<and> P x" by simp
next
  assume "\<exists>x. kp_Get k p = Some x \<and> P x"
  then obtain x where x: "kp_Get k p = Some x" "P x" by blast
  then obtain pos where pos: "kp_index p k = Some pos" by (cases "kp_index p k") (auto simp: kp_Get_def)
  from kp_invD [OF i pos] x ord show "\<exists>x\<in>set (om_iter ord (kp_om p)). P x \<and> key x = k"
    by (auto simp: om_iter_def)
qed

lemma ip_Create_owned:
  assumes i: "kp_inv key p" and o: "kp_owned key x0 p" and key: "\<And>k. key (mk k) = k"
  shows "kp_owned key x0 (snd (ip_Create x0 mk p))"
proof (cases "om_Malloc x0 (kp_om p)")
  case (Pair r om1)
  show ?thesis
  proof (cases r)
    case None
    with Pair o show ?thesis by (simp add: ip_Create_def)
  next
    case (Some pos)
    have oi: "om_inv (kp_om p)" using i by (simp add: kp_inv_def)
    note M = om_Malloc_Some [OF oi Pair [unfolded Some]]
    have len: "pos < length (om_pool (kp_om p))" using M(6) oi by (simp add: om_inv_def)
    obtain r2 mx where g: "gen_id 10 (kp_index p) (ip_cur_max_id p) = (r2, mx)" by fastforce
    show ?thesis
    proof (cases r2)
      case None
      have "om_pool om1 ! q = (if q = pos then x0 else om_pool (kp_om p) ! q)" for q
        using M(5) len by simp
      with M(3) o Pair Some g None show ?thesis by (auto simp: kp_owned_def ip_Create_def)
    next
      case (Some k)
      have f: "kp_index p k = None" using gen_id_fresh g Some by blast
      have "(om_pool om1)[pos := mk k] ! q = (if q = pos then mk k else om_pool (kp_om p) ! q)" for q
        using M(5) len by simp
      moreover have "q \<in> set (om_used (kp_om p)) \<Longrightarrow> q \<noteq> pos" for q using M(2) by auto
      ultimately show ?thesis
        using M(3) o Pair \<open>r = Some pos\<close> g Some f key
        by (auto simp: kp_owned_def ip_Create_def)
    qed
  qed
qed

lemma kp_Release_owned:
  assumes i: "kp_inv key p" and o: "kp_owned key x0 p"
  shows "kp_owned key x0 (snd (kp_Release clr k p))"
proof (cases "kp_index p k")
  case None
  with o show ?thesis by (simp add: kp_Release_def)
next
  case (Some pos)
  note D = kp_invD [OF i Some]
  have eq: "snd (kp_Release clr k p) = p\<lparr>kp_om := snd (om_Free pos
      (om_put pos (clr (om_pool (kp_om p) ! pos)) (kp_om p))), kp_index := (kp_index p)(k := None)\<rparr>"
    using Some by (simp add: kp_Release_def Let_def)
  show ?thesis unfolding eq kp_owned_def
    using o D(2,3) Some by (auto simp: om_Free_def kp_owned_def)
qed

lemma release_each_owned:
  assumes "kp_inv key p" "kp_owned key x0 p"
  shows "kp_inv key (release_each (kp_Release clr) ks p) \<and> kp_owned key x0 (release_each (kp_Release clr) ks p)"
  using assms
proof (induction ks arbitrary: p)
  case (Cons k ks)
  have "kp_inv key (snd (kp_Release clr k p))"
    using kp_Release_hit [OF Cons.prems(1), of k _ clr] kp_Release_miss [OF Cons.prems(1), of k clr] Cons.prems(1)
    by (cases "kp_Get k p") auto
  with Cons.IH kp_Release_owned [OF Cons.prems, of clr k] show ?case by (simp add: release_each_def)
qed (simp add: release_each_def)

lemma rebuild_index_spec:
  "distinct (map (\<lambda>pos. key (pool ! pos)) ps) \<Longrightarrow> rebuild_index key pool ps idx k =
     (case find (\<lambda>pos. key (pool ! pos) = k) ps of Some pos \<Rightarrow> Some pos | None \<Rightarrow> idx k)"
proof (induction ps arbitrary: idx)
  case (Cons p ps)
  have "find (\<lambda>pos. key (pool ! pos) = k) ps = None" if "key (pool ! p) = k"
    using Cons.prems that by (auto simp: find_None_iff image_iff)
  then show ?case using Cons by (auto split: option.splits)
qed simp

lemma rebuild_index_Some:
  assumes "distinct (map (\<lambda>pos. key (pool ! pos)) ps)"
  shows "rebuild_index key pool ps (\<lambda>_. None) k = Some pos \<longleftrightarrow> pos \<in> set ps \<and> key (pool ! pos) = k"
proof
  assume "rebuild_index key pool ps (\<lambda>_. None) k = Some pos"
  then have "find (\<lambda>pos. key (pool ! pos) = k) ps = Some pos"
    using rebuild_index_spec [OF assms, of "\<lambda>_. None" k] by (simp split: option.splits)
  then show "pos \<in> set ps \<and> key (pool ! pos) = k" by (auto simp: find_Some_iff)
next
  assume p: "pos \<in> set ps \<and> key (pool ! pos) = k"
  then obtain q where q: "find (\<lambda>pos. key (pool ! pos) = k) ps = Some q"
    by (cases "find (\<lambda>pos. key (pool ! pos) = k) ps") (auto simp: find_None_iff)
  then have "q \<in> set ps" "key (pool ! q) = k" by (auto simp: find_Some_iff)
  with p assms have "q = pos" by (auto simp: distinct_map dest: inj_onD)
  with q show "rebuild_index key pool ps (\<lambda>_. None) k = Some pos"
    using rebuild_index_spec [OF assms, of "\<lambda>_. None" k] by simp
qed

subsection \<open>The contracts\<close>

locale keyed_store =
  fixes inv :: "'s \<Rightarrow> bool"
    and lookup :: "'k \<Rightarrow> 's \<Rightarrow> 'a option"
    and release :: "'k \<Rightarrow> 's \<Rightarrow> bool \<times> 's"
    and room :: "'s \<Rightarrow> nat"
  assumes finite_keys: "inv s \<Longrightarrow> finite {k. lookup k s \<noteq> None}"
    and release_hit: "inv s \<Longrightarrow> lookup k s = Some x \<Longrightarrow>
        \<exists>s'. release k s = (True, s') \<and> inv s' \<and> room s' = Suc (room s)
            \<and> (\<forall>j. lookup j s' = (if j = k then None else lookup j s))"
    and release_miss: "inv s \<Longrightarrow> lookup k s = None \<Longrightarrow> release k s = (False, s)"
begin

definition live :: "'s \<Rightarrow> nat" where "live s = card {k. lookup k s \<noteq> None}"

lemma release_cases:
  assumes "inv s"
  obtains (miss) "lookup k s = None" "release k s = (False, s)"
  | (hit) s' where "lookup k s \<noteq> None" "release k s = (True, s')" "inv s'" "room s' = Suc (room s)"
      "\<forall>j. lookup j s' = (if j = k then None else lookup j s)" "live s = Suc (live s')"
proof (cases "lookup k s")
  case None
  with release_miss [OF assms] miss show ?thesis by blast
next
  case (Some x)
  obtain s' where s': "release k s = (True, s')" "inv s'" "room s' = Suc (room s)"
      "\<forall>j. lookup j s' = (if j = k then None else lookup j s)"
    using release_hit [OF assms Some] by blast
  have "{j. lookup j s \<noteq> None} = insert k {j. lookup j s' \<noteq> None}" "k \<notin> {j. lookup j s' \<noteq> None}"
    using Some s'(4) by auto
  then have "live s = Suc (live s')" unfolding live_def using finite_keys [OF s'(2)] by simp
  with s' Some show ?thesis using hit by simp
qed

lemma release_all:
  assumes "inv s"
  shows "inv (release_each release ks s)
    \<and> lookup j (release_each release ks s) = (if j \<in> set ks then None else lookup j s)
    \<and> room (release_each release ks s) + live (release_each release ks s) = room s + live s"
  using assms
proof (induction ks arbitrary: s)
  case Nil
  then show ?case by (simp add: release_each_def)
next
  case (Cons k ks)
  have step: "release_each release (k # ks) s = release_each release ks (snd (release k s))"
    by (simp add: release_each_def)
  from Cons.prems show ?case
  proof (cases rule: release_cases [of s k])
    case miss
    with Cons.IH [OF Cons.prems] show ?thesis unfolding step by auto
  next
    case (hit s')
    with Cons.IH [OF hit(3)] show ?thesis unfolding step by auto
  qed
qed

end

text \<open>A manager that makes the keys. A creation may fail without need: then a free slot is lost.\<close>

datatype ('e, 'k) store_op = Create 'e | Release_key 'k

fun run_store :: "('e \<Rightarrow> 's \<Rightarrow> 'k option \<times> 's) \<Rightarrow> ('k \<Rightarrow> 's \<Rightarrow> bool \<times> 's) \<Rightarrow> ('s \<Rightarrow> nat) \<Rightarrow> ('e, 'k) store_op list
    \<Rightarrow> 's \<Rightarrow> nat \<times> 's" where
  "run_store create release room [] s = (0, s)"
| "run_store create release room (Create a # ops) s =
     (let (r, s1) = create a s; (lost, s2) = run_store create release room ops s1
      in (if r = None \<and> 0 < room s then Suc lost else lost, s2))"
| "run_store create release room (Release_key k # ops) s =
     run_store create release room ops (snd (release k s))"

locale id_store = keyed_store +
  fixes create :: "'e \<Rightarrow> 'b \<Rightarrow> 'c option \<times> 'b"
  constrains inv :: "'b \<Rightarrow> bool" and lookup :: "'c \<Rightarrow> 'b \<Rightarrow> 'd option"
  assumes create_full: "inv s \<Longrightarrow> room s = 0 \<Longrightarrow> create a s = (None, s)"
    and create_some: "inv s \<Longrightarrow> create a s = (Some k, s') \<Longrightarrow>
        inv s' \<and> lookup k s = None \<and> Suc (room s') = room s
        \<and> (\<exists>x. \<forall>j. lookup j s' = (if j = k then Some x else lookup j s))"
    and create_none: "inv s \<Longrightarrow> 0 < room s \<Longrightarrow> create a s = (None, s') \<Longrightarrow>
        inv s' \<and> Suc (room s') = room s \<and> (\<forall>j. lookup j s' = lookup j s)"
begin

lemma create_live:
  assumes "inv s" "create a s = (Some k, s')"
  shows "live s' = Suc (live s)"
proof -
  obtain x where x: "\<forall>j. lookup j s' = (if j = k then Some x else lookup j s)" and k: "lookup k s = None"
    using create_some [OF assms] by blast
  have "{j. lookup j s' \<noteq> None} = insert k {j. lookup j s \<noteq> None}" "k \<notin> {j. lookup j s \<noteq> None}"
    using x k by auto
  then show ?thesis unfolding live_def using finite_keys [OF assms(1)] by simp
qed

text \<open>Whatever is created and released, slots in use, free slots and lost slots add up.\<close>

lemma run_account:
  assumes "inv s" "run_store create release room ops s = (lost, s')"
  shows "inv s' \<and> room s' + live s' + lost = room s + live s"
  using assms
proof (induction ops arbitrary: s lost)
  case Nil
  then show ?case by simp
next
  case (Cons op ops)
  show ?case
  proof (cases op)
    case (Create a)
    obtain r s1 where r: "create a s = (r, s1)" by (cases "create a s")
    obtain lost1 where l: "run_store create release room ops s1 = (lost1, s')"
        "lost = (if r = None \<and> 0 < room s then Suc lost1 else lost1)"
      using Cons.prems(2) r by (cases "run_store create release room ops s1") (auto simp: Create)
    show ?thesis
    proof (cases r)
      case (Some k)
      with r create_some [OF Cons.prems(1), of a k s1] create_live [OF Cons.prems(1), of a k s1] Cons.IH [of s1 lost1] l
      show ?thesis by auto
    next
      case None
      show ?thesis
      proof (cases "room s = 0")
        case True
        with create_full [OF Cons.prems(1)] r None l Cons.IH [of s1 lost1] Cons.prems(1) show ?thesis by auto
      next
        case False
        with create_none [OF Cons.prems(1)] r None have c: "inv s1" "Suc (room s1) = room s"
            "\<forall>j. lookup j s1 = lookup j s" by auto
        from c(3) have "live s1 = live s" by (simp add: live_def)
        with c False None l Cons.IH [of s1 lost1] show ?thesis by auto
      qed
    qed
  next
    case (Release_key k)
    from Cons.prems(1) show ?thesis
    proof (cases rule: release_cases [of s k])
      case miss
      with Cons Release_key show ?thesis by auto
    next
      case (hit s1)
      with Cons.IH [OF hit(3)] Cons.prems Release_key show ?thesis by auto
    qed
  qed
qed

end

text \<open>A manager whose caller gives the keys.\<close>

locale uid_store = keyed_store +
  fixes create :: "'c \<Rightarrow> 'b \<Rightarrow> bool \<times> 'b" and fresh :: "'c \<Rightarrow> 'd"
  constrains inv :: "'b \<Rightarrow> bool" and lookup :: "'c \<Rightarrow> 'b \<Rightarrow> 'd option"
  assumes create_full: "inv s \<Longrightarrow> room s = 0 \<Longrightarrow> create k s = (False, s)"
    and create_room: "inv s \<Longrightarrow> 0 < room s \<Longrightarrow> \<exists>s'. create k s = (True, s') \<and> inv s'
        \<and> Suc (room s') = room s \<and> (\<forall>j. lookup j s' = (if j = k then Some (fresh k) else lookup j s))"
begin

lemma create_release:
  assumes "inv s" "0 < room s"
  shows "\<exists>s1 s2. create k s = (True, s1) \<and> release k s1 = (True, s2) \<and> inv s2
      \<and> lookup k s1 = Some (fresh k) \<and> room s2 = room s
      \<and> (\<forall>j. lookup j s2 = (if j = k then None else lookup j s))"
proof -
  obtain s1 where s1: "create k s = (True, s1)" "inv s1" "Suc (room s1) = room s"
      "\<forall>j. lookup j s1 = (if j = k then Some (fresh k) else lookup j s)"
    using create_room [OF assms] by blast
  moreover from s1(4) have "lookup k s1 = Some (fresh k)" by simp
  moreover obtain s2 where "release k s1 = (True, s2)" "inv s2" "room s2 = Suc (room s1)"
      "\<forall>j. lookup j s2 = (if j = k then None else lookup j s1)"
    using release_hit [OF s1(2) \<open>lookup k s1 = Some (fresh k)\<close>] by blast
  ultimately show ?thesis by auto
qed

text \<open>Creating a key that is there keeps the number of keys and takes one more slot.\<close>

lemma create_again:
  assumes "inv s" "0 < room s" "lookup k s \<noteq> None"
  shows "\<exists>s'. create k s = (True, s') \<and> inv s' \<and> live s' = live s \<and> Suc (room s') = room s"
proof -
  obtain s1 where s1: "create k s = (True, s1)" "inv s1" "Suc (room s1) = room s"
      "\<forall>j. lookup j s1 = (if j = k then Some (fresh k) else lookup j s)"
    using create_room [OF assms(1,2)] by blast
  have "{j. lookup j s1 \<noteq> None} = {j. lookup j s \<noteq> None}" using s1(4) assms(3) by auto
  with s1 show ?thesis by (auto simp: live_def)
qed

end

context object_class
begin

text \<open>After a restart every key finds its object again, in a pool that is large enough.\<close>

lemma restart_lookup:
  fixes key :: "'a \<Rightarrow> 'k" and p :: "('k, 'a, 'z) kpool_scheme"
  defines "om \<equiv> kp_om p"
  assumes i: "kp_inv key p"
    and all: "\<forall>pos\<in>set (om_used om). kp_index p (key (om_pool om ! pos)) = Some pos"
    and ord: "walk_order ord" and ord': "walk_order ord'"
    and n: "om_Size om < 2 ^ 32" "om_Size om \<le> sz" "0 < sz"
    and shm: "om_shm_key om \<noteq> 0" "w (om_shm_key om) = None"
    and objs: "\<forall>x\<in>set (om_iter ord om). ok x"
  shows "\<exists>w' om'. om_Release ord bytes ser rm_ok True om w = (True, w')
      \<and> om_Init x0 uns rm_ok' sz (om_shm_key om) w'
          = Some (True, om', snd (ShareMem_Delete rm_ok' (om_shm_key om) w'))
      \<and> (\<forall>ext k. kp_Get k \<lparr>kp_om = om', kp_index = rebuild_index key (om_pool om') (ord' (om_used om')) (\<lambda>_. None),
             \<dots> = ext\<rparr> = kp_Get k p)"
proof -
  have du0: "distinct (om_used om)" using i by (simp add: kp_inv_def om_inv_def om_def)
  note W = walk_orderD [OF ord du0]
  have len: "length (ord (om_used om)) = om_Size om"
    using W(3) by (simp add: om_Size_def)
  obtain w' om' where R: "om_Release ord bytes ser rm_ok True om w = (True, w')"
      "om_Init x0 uns rm_ok' sz (om_shm_key om) w'
          = Some (True, om', snd (ShareMem_Delete rm_ok' (om_shm_key om) w'))"
      "om_inv om'" "set (om_used om') = {..<min sz (om_Size om)}"
      "\<forall>i < min sz (om_Size om). om_Get i om' = Some (om_iter ord om ! i)"
    using release_init [of ord om w sz, OF len n(1) shm objs n(3)] by blast
  let ?xs = "om_iter ord om"
  have min: "min sz (om_Size om) = om_Size om" using n(2) by simp
  have lx: "length ?xs = om_Size om" using len by (simp add: om_iter_def)
  have pool: "om_pool om' ! j = ?xs ! j \<and> om_Get j om' = Some (?xs ! j)" if "j < om_Size om" for j
  proof -
    have "om_Get j om' = Some (?xs ! j)" using R(5) min that by simp
    then show ?thesis by (simp add: om_Get_def split: if_splits)
  qed
  have "distinct (om_used om')" using R(3) by (simp add: om_inv_def)
  note W' = walk_orderD [OF ord' this]
  have inj: "inj_on (\<lambda>pos. key (om_pool om ! pos)) (set (om_used om))"
    using all by (intro inj_onI) (metis option.inject)
  then have dx: "distinct (map key ?xs)"
    using W by (simp add: om_iter_def distinct_map o_def)
  have u: "set (ord' (om_used om')) = {..<om_Size om}" using W'(2) R(4) min by simp
  have keys: "key (om_pool om' ! j) = map key ?xs ! j" if "j < om_Size om" for j
    using pool [OF that] lx that by simp
  have "inj_on (\<lambda>pos. key (om_pool om' ! pos)) {..<om_Size om}"
  proof (rule inj_onI)
    fix x y assume xy: "x \<in> {..<om_Size om}" "y \<in> {..<om_Size om}"
      "key (om_pool om' ! x) = key (om_pool om' ! y)"
    then have "map key ?xs ! x = map key ?xs ! y" using keys by simp
    then show "x = y" using nth_eq_iff_index_eq [OF dx, of x y] xy lx by simp
  qed
  then have du: "distinct (map (\<lambda>pos. key (om_pool om' ! pos)) (ord' (om_used om')))"
    using u W'(1) by (simp add: distinct_map)
  let ?idx = "rebuild_index key (om_pool om') (ord' (om_used om')) (\<lambda>_. None)"
  have "(case ?idx k of None \<Rightarrow> None | Some pos \<Rightarrow> om_Get pos om') = kp_Get k p" for k
  proof (cases "\<exists>j<om_Size om. key (?xs ! j) = k")
    case True
    then obtain j where j: "j < om_Size om" "key (?xs ! j) = k" by blast
    then have "?idx k = Some j"
      using pool [OF j(1)] u rebuild_index_Some [OF du, of k j] by simp
    moreover have "kp_Get k p = Some (?xs ! j)"
    proof -
      have "?xs ! j \<in> set ?xs" using j lx by simp
      then obtain pos where pos: "pos \<in> set (om_used om)" "?xs ! j = om_pool om ! pos"
        using W(2) by (auto simp: om_iter_def)
      then have "kp_index p k = Some pos" using all j by auto
      with kp_invD(5) [OF i this] pos show ?thesis by (simp add: om_def)
    qed
    ultimately show ?thesis using pool [OF j(1)] by simp
  next
    case False
    have "?idx k = None"
    proof (cases "?idx k")
      case (Some q)
      then have "q < om_Size om" "key (om_pool om' ! q) = k"
        using u rebuild_index_Some [OF du, of k q] by simp_all
      with False pool [of q] show ?thesis by auto
    qed
    moreover have "kp_index p k = None"
    proof (rule ccontr)
      assume "kp_index p k \<noteq> None"
      then obtain pos where pos: "kp_index p k = Some pos" by blast
      from kp_invD(1,2) [OF i pos] have "om_pool om ! pos \<in> set ?xs" "key (om_pool om ! pos) = k"
        using W(2) by (auto simp: om_iter_def om_def)
      with False lx show False by (auto simp: in_set_conv_nth)
    qed
    ultimately show ?thesis by (simp add: kp_Get_def)
  qed
  moreover have "kp_Get k \<lparr>kp_om = om', kp_index = ?idx, \<dots> = ext\<rparr>
      = (case ?idx k of None \<Rightarrow> None | Some pos \<Rightarrow> om_Get pos om')" for ext k
    by (cases "?idx k") (simp_all add: kp_Get_def)
  ultimately show ?thesis using R(1,2) by metis
qed
end

end
