(* ===== verification/Managers.thy ===== *)
theory Managers
  imports Messages KeyedPool
begin

text \<open>
  common/session_manager.cpp, timer_manager.cpp, player_manager.cpp and machine_manager.cpp
  with their objects of proto/pb_mem_data.proto. The clock of core/src/base.cpp is the argument
  \<open>now\<close>, milliseconds in 64 bits. The protobuf encoding of an object is a pair of parameters
  \<open>enc\<close>, \<open>dec\<close>; the raw bytes of a head struct are \<open>henc\<close>, \<open>hdec\<close>.
\<close>

subsection \<open>core/src/base.cpp\<close>

definition GetTimeMsec :: "u64 \<Rightarrow> u64" where "GetTimeMsec now = now"
definition GetTime :: "u64 \<Rightarrow> u32" where "GetTime now = ucast (now div 1000)"

subsection \<open>pb_mem_data.proto\<close>

record pb_db_process =
  dp_uid :: u64
  dp_keys :: "u32 list"
  dp_player :: "pb_db_data option"

datatype session_state = On_Message | Wait_Response | Wait_Query | Wait_Save

text \<open>Every field of \<open>PBSession\<close> and the union of the two heads behind it.\<close>

record session =
  se_uid :: u32
  se_session_id :: u32
  se_update_time :: u32
  se_session_state :: session_state
  se_logic_state :: u32
  se_msg_id :: u32
  se_cs_msg :: pb_cs_msg
  se_cs_response :: pb_cs_msg
  se_ss_msg :: pb_ss_msg
  se_ss_response :: pb_ss_msg
  se_web_msg :: pb_ss_msg
  se_inter_msg :: pb_internal_msg
  se_db_processs :: "pb_db_process list"
  se_process_index :: u32
  se_redo_count :: u32
  se_events :: "pb_event list"
  se_msg_head :: msg_head

definition session0 :: session where
  "session0 = \<lparr>se_uid = 0, se_session_id = 0, se_update_time = 0, se_session_state = On_Message,
     se_logic_state = 0, se_msg_id = 0, se_cs_msg = cs_msg0, se_cs_response = cs_msg0,
     se_ss_msg = ss_msg0, se_ss_response = ss_msg0, se_web_msg = ss_msg0, se_inter_msg = None,
     se_db_processs = [], se_process_index = 0, se_redo_count = 0, se_events = [],
     se_msg_head = MH_unset\<rparr>"

definition Session_Clear :: "session \<Rightarrow> session" where
  "Session_Clear s = session0\<lparr>se_msg_head := se_msg_head s\<rparr>"

record timer =
  ti_timer_id :: u32
  ti_timeout_msec :: u64
  ti_msg :: pb_internal_msg

definition timer0 :: timer where
  "timer0 = \<lparr>ti_timer_id = 0, ti_timeout_msec = 0, ti_msg = None\<rparr>"

definition Timer_Clear :: "timer \<Rightarrow> timer" where "Timer_Clear _ = timer0"

datatype game_state = Wait_Player | Wait_Start | Wait_End | Wait_Lottery | Wait_Lottery_End
  | Wait_Lottery_Ani | Wait_Buy | Wait_Buy_Ani

record machine =
  ma_machine_id :: u64
  ma_heart_beat_time :: u64
  ma_game_state :: game_state
  ma_timer_id :: u32
  ma_machine :: pb_db_data
  ma_player_id :: u64
  ma_prize_id :: u64
  ma_can_get_prize :: bool
  ma_total_consume :: u64
  ma_total_fail :: u32
  ma_total_time :: u32
  ma_update_time :: u32
  ma_retry_time :: u32
  ma_lottery_awards :: "pb_award list"
  ma_connect_head :: "connect_head option"

definition machine0 :: machine where
  "machine0 = \<lparr>ma_machine_id = 0, ma_heart_beat_time = 0, ma_game_state = Wait_Player,
     ma_timer_id = 0, ma_machine = pb_db_data0, ma_player_id = 0, ma_prize_id = 0,
     ma_can_get_prize = False, ma_total_consume = 0, ma_total_fail = 0, ma_total_time = 0,
     ma_update_time = 0, ma_retry_time = 0, ma_lottery_awards = [], ma_connect_head = None\<rparr>"

definition Machine_Clear :: "machine \<Rightarrow> machine" where
  "Machine_Clear m = machine0\<lparr>ma_connect_head := ma_connect_head m\<rparr>"

record player =
  py_player_id :: u64
  py_heart_beat_time :: u64
  py_game_state :: game_state
  py_timer_id :: u32
  py_machine :: pb_db_data
  py_prize_id :: u64
  py_can_get_prize :: bool
  py_total_consume :: u64
  py_total_fail :: u32
  py_total_time :: u32
  py_update_time :: u32
  py_retry_time :: u32
  py_pre_end :: bool
  py_connect_head :: "connect_head option"

definition player0 :: player where
  "player0 = \<lparr>py_player_id = 0, py_heart_beat_time = 0, py_game_state = Wait_Player,
     py_timer_id = 0, py_machine = pb_db_data0, py_prize_id = 0, py_can_get_prize = False,
     py_total_consume = 0, py_total_fail = 0, py_total_time = 0, py_update_time = 0,
     py_retry_time = 0, py_pre_end = False, py_connect_head = None\<rparr>"

definition Player_Clear :: "player \<Rightarrow> player" where
  "Player_Clear p = player0\<lparr>py_connect_head := py_connect_head p\<rparr>"

subsection \<open>class Session\<close>

fun add_key :: "u64 \<Rightarrow> u32 \<Rightarrow> pb_db_process list \<Rightarrow> pb_db_process list" where
  "add_key uid key [] = [\<lparr>dp_uid = uid, dp_keys = [key], dp_player = None\<rparr>]"
| "add_key uid key (p # ps) =
     (if dp_uid p = uid
      then (if key \<in> set (dp_keys p) then p else p\<lparr>dp_keys := dp_keys p @ [key]\<rparr>) # ps
      else p # add_key uid key ps)"

definition AddQueryKey :: "u64 \<Rightarrow> u32 \<Rightarrow> session \<Rightarrow> session" where
  "AddQueryKey uid key s = s\<lparr>se_db_processs := add_key uid key (se_db_processs s)\<rparr>"

definition HaveAllDBData :: "session \<Rightarrow> bool" where
  "HaveAllDBData s = list_all (\<lambda>p. dp_player p \<noteq> None) (se_db_processs s)"

definition GetDBProcessIndex :: "u64 \<Rightarrow> session \<Rightarrow> nat option" where
  "GetDBProcessIndex uid s = index_of (\<lambda>p. uid = dp_uid p) (se_db_processs s)"

definition AddEvent :: "pb_event \<Rightarrow> session \<Rightarrow> session" where
  "AddEvent e s = s\<lparr>se_events := se_events s @ [e]\<rparr>"

definition ClearEvents :: "session \<Rightarrow> session" where
  "ClearEvents s = s\<lparr>se_events := []\<rparr>"

text \<open>\<open>*mutable_db_processs(index)->mutable_player()\<close>; an index out of range is the fault \<open>None\<close>.\<close>

definition GetDBData :: "nat \<Rightarrow> session \<Rightarrow> pb_db_data option" where
  "GetDBData i s = (if i < length (se_db_processs s)
     then Some (case dp_player (se_db_processs s ! i) of None \<Rightarrow> pb_db_data0 | Some d \<Rightarrow> d) else None)"

definition SetDBData :: "nat \<Rightarrow> pb_db_data \<Rightarrow> session \<Rightarrow> session" where
  "SetDBData i d s = s\<lparr>se_db_processs :=
     (se_db_processs s)[i := (se_db_processs s ! i)\<lparr>dp_player := Some d\<rparr>]\<rparr>"

definition Session_GetByteSize :: "(session \<Rightarrow> byte list) \<Rightarrow> (msg_head \<Rightarrow> byte list) \<Rightarrow> session \<Rightarrow> nat" where
  "Session_GetByteSize enc henc s = 8 + length (enc s) + length (henc (se_msg_head s))"

definition Session_Serialize :: "(session \<Rightarrow> byte list) \<Rightarrow> (msg_head \<Rightarrow> byte list) \<Rightarrow> session
    \<Rightarrow> byte list \<Rightarrow> nat \<Rightarrow> nat \<Rightarrow> bool \<times> byte list \<times> nat" where
  "Session_Serialize enc henc s =
     ser_then (SerializeProtoBuf (enc s)) (SerializeBaseType (henc (se_msg_head s)))"

text \<open>\<open>hsz\<close> is \<open>sizeof(_msg_head)\<close>.\<close>

definition Session_UnSerialize :: "(byte list \<Rightarrow> session option) \<Rightarrow> nat \<Rightarrow> (byte list \<Rightarrow> msg_head)
    \<Rightarrow> byte list \<Rightarrow> nat \<Rightarrow> nat \<Rightarrow> (session \<times> nat) option" where
  "Session_UnSerialize dec hsz hdec buf bs off =
     (case UnSerializeProtoBuf dec buf bs off of
        None \<Rightarrow> None
      | Some (s, off1) \<Rightarrow>
          (case UnSerializeBaseType hsz buf bs off1 of
             None \<Rightarrow> None
           | Some (h, off2) \<Rightarrow> Some (s\<lparr>se_msg_head := hdec h\<rparr>, off2)))"

subsection \<open>class SessionManager\<close>

abbreviation (input) "EN_Session_Timeout_Sec \<equiv> 10 :: u32"

type_synonym session_mgr = "session idpool"

definition CreateSession :: "u64 \<Rightarrow> u32 \<Rightarrow> session_mgr \<Rightarrow> u32 option \<times> session_mgr" where
  "CreateSession now msg_id =
     ip_Create session0 (\<lambda>sid. session0\<lparr>se_session_id := sid, se_msg_id := msg_id,
                                  se_update_time := GetTime now, se_session_state := On_Message\<rparr>)"

definition GetSession :: "u32 \<Rightarrow> session_mgr \<Rightarrow> session option" where
  "GetSession sid m = kp_Get sid m"

definition ReleaseSession :: "u32 \<Rightarrow> session_mgr \<Rightarrow> bool \<times> session_mgr" where
  "ReleaseSession sid m = kp_Release Session_Clear sid m"

definition session_expired :: "u64 \<Rightarrow> session \<Rightarrow> bool" where
  "session_expired now s \<longleftrightarrow> se_update_time s + EN_Session_Timeout_Sec \<le> GetTime now"

definition CheckTimeOut :: "(nat list \<Rightarrow> nat list) \<Rightarrow> u64 \<Rightarrow> session_mgr \<Rightarrow> session_mgr" where
  "CheckTimeOut ord now m =
     release_each ReleaseSession
       (map se_session_id (filter (session_expired now) (om_iter ord (kp_om m)))) m"

definition SessionManager_Init :: "(nat list \<Rightarrow> nat list)
    \<Rightarrow> (byte list \<Rightarrow> nat \<Rightarrow> nat \<Rightarrow> (session \<times> nat) option) \<Rightarrow> bool \<Rightarrow> nat \<Rightarrow> u32 \<Rightarrow> shm_world
    \<Rightarrow> (bool \<times> session_mgr \<times> shm_world) option" where
  "SessionManager_Init ord uns rm_ok sz key w =
     (case om_Init session0 uns rm_ok sz key w of
        None \<Rightarrow> None
      | Some (ok, om, w1) \<Rightarrow>
          let walk = ord (om_used om) in
          Some (ok, \<lparr>kp_om = om,
                     kp_index = (if ok then rebuild_index se_session_id (om_pool om) walk (\<lambda>_. None) else (\<lambda>_. None)),
                     ip_cur_max_id = (if ok then rebuild_max se_session_id (om_pool om) walk 0 else 0)\<rparr>, w1))"

subsection \<open>class Timer, class TimerManager\<close>

definition Timer_GetByteSize :: "(timer \<Rightarrow> byte list) \<Rightarrow> timer \<Rightarrow> nat" where
  "Timer_GetByteSize enc t = 8 + length (enc t)"

definition Timer_Serialize :: "(timer \<Rightarrow> byte list) \<Rightarrow> timer \<Rightarrow> byte list \<Rightarrow> nat \<Rightarrow> nat \<Rightarrow> bool \<times> byte list \<times> nat" where
  "Timer_Serialize enc t = SerializeProtoBuf (enc t)"

definition Timer_UnSerialize :: "(byte list \<Rightarrow> timer option) \<Rightarrow> byte list \<Rightarrow> nat \<Rightarrow> nat \<Rightarrow> (timer \<times> nat) option" where
  "Timer_UnSerialize dec = UnSerializeProtoBuf dec"

type_synonym timer_mgr = "timer idpool"

text \<open>\<open>GetTime() + sec\<close> is computed in 32 bits, the product in 64.\<close>

definition CreateTimer :: "u64 \<Rightarrow> u32 \<Rightarrow> pb_internal_msg \<Rightarrow> timer_mgr \<Rightarrow> u32 option \<times> timer_mgr" where
  "CreateTimer now sec msg =
     ip_Create timer0 (\<lambda>tid. \<lparr>ti_timer_id = tid,
       ti_timeout_msec = (ucast (GetTime now + sec) :: u64) * 1000, ti_msg = msg\<rparr>)"

definition CreateTimerMsec :: "u64 \<Rightarrow> u32 \<Rightarrow> pb_internal_msg \<Rightarrow> timer_mgr \<Rightarrow> u32 option \<times> timer_mgr" where
  "CreateTimerMsec now msec msg =
     ip_Create timer0 (\<lambda>tid. \<lparr>ti_timer_id = tid,
       ti_timeout_msec = GetTimeMsec now + ucast msec, ti_msg = msg\<rparr>)"

text \<open>The \<open>int\<close> that is returned, stored in a \<open>uint32\<close>: \<open>-1\<close> for failure.\<close>

definition timer_ret :: "u32 option \<Rightarrow> u32" where
  "timer_ret r = (case r of None \<Rightarrow> -1 | Some tid \<Rightarrow> tid)"

definition GetTimer :: "u32 \<Rightarrow> timer_mgr \<Rightarrow> timer option" where
  "GetTimer tid m = kp_Get tid m"

definition ReleaseTimer :: "u32 \<Rightarrow> timer_mgr \<Rightarrow> bool \<times> timer_mgr" where
  "ReleaseTimer tid m = kp_Release Timer_Clear tid m"

definition timer_due :: "u64 \<Rightarrow> timer \<Rightarrow> bool" where
  "timer_due now t \<longleftrightarrow> ti_timeout_msec t \<le> GetTimeMsec now"

text \<open>The messages handed to \<open>SendMsgToInternal\<close>, in the order of the walk, and the manager after.\<close>

definition Tick :: "(nat list \<Rightarrow> nat list) \<Rightarrow> u64 \<Rightarrow> timer_mgr \<Rightarrow> pb_internal_msg list \<times> timer_mgr" where
  "Tick ord now m =
     (let due = filter (timer_due now) (om_iter ord (kp_om m))
      in (map ti_msg due, release_each ReleaseTimer (map ti_timer_id due) m))"

definition TimerManager_Init :: "(nat list \<Rightarrow> nat list)
    \<Rightarrow> (byte list \<Rightarrow> nat \<Rightarrow> nat \<Rightarrow> (timer \<times> nat) option) \<Rightarrow> bool \<Rightarrow> nat \<Rightarrow> u32 \<Rightarrow> shm_world
    \<Rightarrow> (bool \<times> timer_mgr \<times> shm_world) option" where
  "TimerManager_Init ord uns rm_ok sz key w =
     (case om_Init timer0 uns rm_ok sz key w of
        None \<Rightarrow> None
      | Some (ok, om, w1) \<Rightarrow>
          let walk = ord (om_used om) in
          Some (ok, \<lparr>kp_om = om,
                     kp_index = (if ok then rebuild_index ti_timer_id (om_pool om) walk (\<lambda>_. None) else (\<lambda>_. None)),
                     ip_cur_max_id = (if ok then rebuild_max ti_timer_id (om_pool om) walk 0 else 0)\<rparr>, w1))"

text \<open>common/message_base.cpp: \<open>SetTimer\<close>, \<open>SetTimerMsec\<close>, \<open>ClearTimer\<close>. \<open>SetTimerMsec\<close> hands its
  milliseconds to the function that takes seconds.\<close>

definition SetTimerMsec :: "u64 \<Rightarrow> u32 \<Rightarrow> pb_internal_msg \<Rightarrow> timer_mgr \<Rightarrow> u32 \<times> timer_mgr" where
  "SetTimerMsec now msec msg m = (let (r, m1) = CreateTimer now msec msg m in (timer_ret r, m1))"

definition SetTimer :: "u64 \<Rightarrow> u32 \<Rightarrow> pb_internal_msg \<Rightarrow> timer_mgr \<Rightarrow> u32 \<times> timer_mgr" where
  "SetTimer now sec msg m = SetTimerMsec now (sec * 1000) msg m"

definition ClearTimer :: "u32 \<Rightarrow> timer_mgr \<Rightarrow> timer_mgr" where
  "ClearTimer tid m = (if sint tid < 0 then m else snd (ReleaseTimer tid m))"

subsection \<open>class Player, class PlayerManager\<close>

definition Player_GetByteSize :: "(player \<Rightarrow> byte list) \<Rightarrow> (connect_head option \<Rightarrow> byte list) \<Rightarrow> player \<Rightarrow> nat" where
  "Player_GetByteSize enc henc p = 8 + length (enc p) + length (henc (py_connect_head p))"

definition Player_Serialize :: "(player \<Rightarrow> byte list) \<Rightarrow> (connect_head option \<Rightarrow> byte list) \<Rightarrow> player
    \<Rightarrow> byte list \<Rightarrow> nat \<Rightarrow> nat \<Rightarrow> bool \<times> byte list \<times> nat" where
  "Player_Serialize enc henc p =
     ser_then (SerializeBaseType (henc (py_connect_head p))) (SerializeProtoBuf (enc p))"

definition Player_UnSerialize :: "(byte list \<Rightarrow> player option) \<Rightarrow> nat \<Rightarrow> (byte list \<Rightarrow> connect_head option)
    \<Rightarrow> byte list \<Rightarrow> nat \<Rightarrow> nat \<Rightarrow> (player \<times> nat) option" where
  "Player_UnSerialize dec hsz hdec buf bs off =
     (case UnSerializeBaseType hsz buf bs off of
        None \<Rightarrow> None
      | Some (h, off1) \<Rightarrow>
          (case UnSerializeProtoBuf dec buf bs off1 of
             None \<Rightarrow> None
           | Some (p, off2) \<Rightarrow> Some (p\<lparr>py_connect_head := hdec h\<rparr>, off2)))"

text \<open>\<open>RefreshTimer\<close> gives a running timer at least one more second: a new timer with its message
  is made, the old one is released.\<close>

definition Player_RefreshTimer :: "u64 \<Rightarrow> player \<Rightarrow> timer_mgr \<Rightarrow> player \<times> timer_mgr" where
  "Player_RefreshTimer now p tm = (case GetTimer (py_timer_id p) tm of
     None \<Rightarrow> (p, tm)
   | Some t \<Rightarrow>
       (let left_msec = (if ti_timeout_msec t > GetTimeMsec now
                         then ucast (ti_timeout_msec t - GetTimeMsec now) else 0) :: u32;
            (tid, tm1) = CreateTimerMsec now (left_msec + 1000) (ti_msg t) tm
        in (p\<lparr>py_timer_id := timer_ret tid\<rparr>, snd (ReleaseTimer (py_timer_id p) tm1))))"

type_synonym player_mgr = "(u64, player) kpool"

definition PlayerManager_Init :: "(nat list \<Rightarrow> nat list)
    \<Rightarrow> (byte list \<Rightarrow> nat \<Rightarrow> nat \<Rightarrow> (player \<times> nat) option) \<Rightarrow> bool \<Rightarrow> nat \<Rightarrow> u32 \<Rightarrow> shm_world
    \<Rightarrow> (bool \<times> player_mgr \<times> shm_world) option" where
  "PlayerManager_Init ord uns rm_ok sz key w =
     (case om_Init player0 uns rm_ok sz key w of
        None \<Rightarrow> None
      | Some (ok, om, w1) \<Rightarrow>
          Some (ok, \<lparr>kp_om = om,
            kp_index = (if ok then rebuild_index py_player_id (om_pool om) (ord (om_used om)) (\<lambda>_. None)
                        else (\<lambda>_. None))\<rparr>, w1))"

definition CreatePlayer :: "u64 \<Rightarrow> player_mgr \<Rightarrow> bool \<times> player_mgr" where
  "CreatePlayer uid m = kp_Create player0 (\<lambda>k x. x\<lparr>py_player_id := k\<rparr>) uid m"

definition GetPlayer :: "u64 \<Rightarrow> player_mgr \<Rightarrow> player option" where
  "GetPlayer uid m = kp_Get uid m"

definition ReleasePlayer :: "u64 \<Rightarrow> player_mgr \<Rightarrow> bool \<times> player_mgr" where
  "ReleasePlayer uid m = kp_Release Player_Clear uid m"

subsection \<open>class Machine, class MachineManager\<close>

definition Machine_GetByteSize :: "(machine \<Rightarrow> byte list) \<Rightarrow> (connect_head option \<Rightarrow> byte list) \<Rightarrow> machine \<Rightarrow> nat" where
  "Machine_GetByteSize enc henc p = 8 + length (enc p) + length (henc (ma_connect_head p))"

definition Machine_Serialize :: "(machine \<Rightarrow> byte list) \<Rightarrow> (connect_head option \<Rightarrow> byte list) \<Rightarrow> machine
    \<Rightarrow> byte list \<Rightarrow> nat \<Rightarrow> nat \<Rightarrow> bool \<times> byte list \<times> nat" where
  "Machine_Serialize enc henc p =
     ser_then (SerializeBaseType (henc (ma_connect_head p))) (SerializeProtoBuf (enc p))"

definition Machine_UnSerialize :: "(byte list \<Rightarrow> machine option) \<Rightarrow> nat \<Rightarrow> (byte list \<Rightarrow> connect_head option)
    \<Rightarrow> byte list \<Rightarrow> nat \<Rightarrow> nat \<Rightarrow> (machine \<times> nat) option" where
  "Machine_UnSerialize dec hsz hdec buf bs off =
     (case UnSerializeBaseType hsz buf bs off of
        None \<Rightarrow> None
      | Some (h, off1) \<Rightarrow>
          (case UnSerializeProtoBuf dec buf bs off1 of
             None \<Rightarrow> None
           | Some (p, off2) \<Rightarrow> Some (p\<lparr>ma_connect_head := hdec h\<rparr>, off2)))"

text \<open>\<open>RefreshTimer\<close> gives a running timer at least one more second: a new timer with its message
  is made, the old one is released.\<close>

definition Machine_RefreshTimer :: "u64 \<Rightarrow> machine \<Rightarrow> timer_mgr \<Rightarrow> machine \<times> timer_mgr" where
  "Machine_RefreshTimer now p tm = (case GetTimer (ma_timer_id p) tm of
     None \<Rightarrow> (p, tm)
   | Some t \<Rightarrow>
       (let left_msec = (if ti_timeout_msec t > GetTimeMsec now
                         then ucast (ti_timeout_msec t - GetTimeMsec now) else 0) :: u32;
            (tid, tm1) = CreateTimerMsec now (left_msec + 1000) (ti_msg t) tm
        in (p\<lparr>ma_timer_id := timer_ret tid\<rparr>, snd (ReleaseTimer (ma_timer_id p) tm1))))"

type_synonym machine_mgr = "(u64, machine) kpool"

definition MachineManager_Init :: "(nat list \<Rightarrow> nat list)
    \<Rightarrow> (byte list \<Rightarrow> nat \<Rightarrow> nat \<Rightarrow> (machine \<times> nat) option) \<Rightarrow> bool \<Rightarrow> nat \<Rightarrow> u32 \<Rightarrow> shm_world
    \<Rightarrow> (bool \<times> machine_mgr \<times> shm_world) option" where
  "MachineManager_Init ord uns rm_ok sz key w =
     (case om_Init machine0 uns rm_ok sz key w of
        None \<Rightarrow> None
      | Some (ok, om, w1) \<Rightarrow>
          Some (ok, \<lparr>kp_om = om,
            kp_index = (if ok then rebuild_index ma_machine_id (om_pool om) (ord (om_used om)) (\<lambda>_. None)
                        else (\<lambda>_. None))\<rparr>, w1))"

definition CreateMachine :: "u64 \<Rightarrow> machine_mgr \<Rightarrow> bool \<times> machine_mgr" where
  "CreateMachine uid m = kp_Create machine0 (\<lambda>k x. x\<lparr>ma_machine_id := k\<rparr>) uid m"

definition GetMachine :: "u64 \<Rightarrow> machine_mgr \<Rightarrow> machine option" where
  "GetMachine uid m = kp_Get uid m"

definition ReleaseMachine :: "u64 \<Rightarrow> machine_mgr \<Rightarrow> bool \<times> machine_mgr" where
  "ReleaseMachine uid m = kp_Release Machine_Clear uid m"

subsection \<open>The managers fulfil the contracts\<close>

interpretation sessions: id_store "kp_inv se_session_id" GetSession ReleaseSession kp_room
  "\<lambda>(now, msg_id). CreateSession now msg_id"
proof (unfold_locales, goal_cases)
  case (1 s) then show ?case unfolding GetSession_def by (rule kp_finite)
next
  case (2 s k x) then show ?case unfolding GetSession_def ReleaseSession_def by (rule kp_Release_hit)
next
  case (3 s k) then show ?case unfolding GetSession_def ReleaseSession_def by (rule kp_Release_miss)
next
  case (4 s a) then show ?case by (cases a) (simp add: CreateSession_def ip_Create_full)
next
  case (5 s a k s')
  then show ?case using ip_Create_some [of se_session_id s session0 _ k s']
    by (cases a) (auto simp: CreateSession_def GetSession_def)
next
  case (6 s a s')
  then show ?case using ip_Create_none [of se_session_id s session0 _ s']
    by (cases a) (auto simp: CreateSession_def GetSession_def)
qed

interpretation timers: id_store "kp_inv ti_timer_id" GetTimer ReleaseTimer kp_room
  "\<lambda>(msec, now, delay, msg). (if msec then CreateTimerMsec else CreateTimer) now delay msg"
proof (unfold_locales, goal_cases)
  case (1 s) then show ?case unfolding GetTimer_def by (rule kp_finite)
next
  case (2 s k x) then show ?case unfolding GetTimer_def ReleaseTimer_def by (rule kp_Release_hit)
next
  case (3 s k) then show ?case unfolding GetTimer_def ReleaseTimer_def by (rule kp_Release_miss)
next
  case (4 s a) then show ?case by (cases a) (simp add: CreateTimer_def CreateTimerMsec_def ip_Create_full)
next
  case (5 s a k s')
  then show ?case using ip_Create_some [of ti_timer_id s timer0 _ k s']
    by (cases a) (auto simp: CreateTimer_def CreateTimerMsec_def GetTimer_def split: if_splits)
next
  case (6 s a s')
  then show ?case using ip_Create_none [of ti_timer_id s timer0 _ s']
    by (cases a) (auto simp: CreateTimer_def CreateTimerMsec_def GetTimer_def split: if_splits)
qed

interpretation players: uid_store "kp_inv py_player_id" GetPlayer ReleasePlayer kp_room CreatePlayer
  "\<lambda>k. player0\<lparr>py_player_id := k\<rparr>"
proof (unfold_locales, goal_cases)
  case (1 s) then show ?case unfolding GetPlayer_def by (rule kp_finite)
next
  case (2 s k x) then show ?case unfolding GetPlayer_def ReleasePlayer_def by (rule kp_Release_hit)
next
  case (3 s k) then show ?case unfolding GetPlayer_def ReleasePlayer_def by (rule kp_Release_miss)
next
  case (4 s k) then show ?case by (simp add: CreatePlayer_def kp_Create_full)
next
  case (5 s k) then show ?case unfolding GetPlayer_def CreatePlayer_def by (rule kp_Create_room) simp_all
qed

interpretation machines: uid_store "kp_inv ma_machine_id" GetMachine ReleaseMachine kp_room CreateMachine
  "\<lambda>k. machine0\<lparr>ma_machine_id := k\<rparr>"
proof (unfold_locales, goal_cases)
  case (1 s) then show ?case unfolding GetMachine_def by (rule kp_finite)
next
  case (2 s k x) then show ?case unfolding GetMachine_def ReleaseMachine_def by (rule kp_Release_hit)
next
  case (3 s k) then show ?case unfolding GetMachine_def ReleaseMachine_def by (rule kp_Release_miss)
next
  case (4 s k) then show ?case by (simp add: CreateMachine_def kp_Create_full)
next
  case (5 s k) then show ?case unfolding GetMachine_def CreateMachine_def by (rule kp_Create_room) simp_all
qed

subsection \<open>The pooled classes are saved and restored\<close>

text \<open>An object the protobuf encoding and the raw image of its head bring back.\<close>

definition pb_ok :: "('a \<Rightarrow> byte list) \<Rightarrow> (byte list \<Rightarrow> 'a option) \<Rightarrow> 'a \<Rightarrow> bool" where
  "pb_ok enc dec x \<longleftrightarrow> dec (enc x) = Some x \<and> length (enc x) < 2 ^ 64"

definition head_ok :: "('h \<Rightarrow> byte list) \<Rightarrow> (byte list \<Rightarrow> 'h) \<Rightarrow> nat \<Rightarrow> 'h \<Rightarrow> bool" where
  "head_ok henc hdec hsz h \<longleftrightarrow> length (henc h) = hsz \<and> hdec (henc h) = h"

lemma readsE: "reads img x g \<Longrightarrow> off + length img \<le> bs \<Longrightarrow> bs \<le> length buf
    \<Longrightarrow> drop off buf = img @ rest \<Longrightarrow> g buf bs off = Some (x, off + length img)"
  unfolding reads_def by blast

lemma drop_append_add: "drop off buf = a @ b \<Longrightarrow> drop (off + length a) buf = b"
  by (metis add.commute append_eq_conv_conj drop_drop)

lemma reads_then:
  assumes a: "reads a x f" and b: "reads b y g"
    and h: "\<And>buf bs off r1 o1 r2 o2. f buf bs off = Some (r1, o1) \<Longrightarrow> g buf bs o1 = Some (r2, o2)
        \<Longrightarrow> h buf bs off = Some (c r1 r2, o2)"
  shows "reads (a @ b) (c x y) h"
proof (unfold reads_def, intro allI impI)
  fix buf :: "byte list" and bs off rest
  assume l: "off + length (a @ b) \<le> bs \<and> bs \<le> length buf \<and> drop off buf = (a @ b) @ rest"
  then have f: "f buf bs off = Some (x, off + length a)"
    by (intro readsE [OF a, of off bs buf "b @ rest"]) auto
  have "drop (off + length a) buf = b @ rest" using l drop_append_add [of off buf a "b @ rest"] by simp
  then have g: "g buf bs (off + length a) = Some (y, off + length a + length b)"
    using l by (intro readsE [OF b, of _ bs buf rest]) auto
  from h [OF f g] show "h buf bs off = Some (c x y, off + length (a @ b))" by (simp add: add.assoc)
qed

interpretation session_class: object_class "Session_GetByteSize enc henc" "Session_Serialize enc henc"
  "Session_UnSerialize dec hsz hdec"
  "\<lambda>s. (le_bytes 8 (length (enc s)) @ enc s) @ henc (se_msg_head s)"
  "\<lambda>s. pb_ok enc dec s \<and> head_ok henc hdec hsz (se_msg_head s)"
  for enc dec henc hdec hsz
proof (unfold_locales, goal_cases)
  case (1 s) then show ?case by (simp add: Session_GetByteSize_def)
next
  case (2 s) show ?case unfolding Session_Serialize_def by (intro writes_then writes_proto writes_base)
next
  case (3 s)
  then have d: "dec (enc s) = Some s" "length (enc s) < 2 ^ 64" "length (henc (se_msg_head s)) = hsz"
    "hdec (henc (se_msg_head s)) = se_msg_head s" by (auto simp: pb_ok_def head_ok_def)
  have "reads ((le_bytes 8 (length (enc s)) @ enc s) @ henc (se_msg_head s))
      ((\<lambda>s h. s\<lparr>se_msg_head := hdec h\<rparr>) s (henc (se_msg_head s))) (Session_UnSerialize dec hsz hdec)"
    by (rule reads_then [OF reads_proto [of dec, OF d(1,2)] reads_base])
       (simp add: Session_UnSerialize_def d(3))
  then show ?case by (simp add: d(4))
qed

interpretation timer_class: object_class "Timer_GetByteSize enc" "Timer_Serialize enc"
  "Timer_UnSerialize dec" "\<lambda>t. le_bytes 8 (length (enc t)) @ enc t" "pb_ok enc dec"
  for enc dec
proof (unfold_locales, goal_cases)
  case (1 t) then show ?case by (simp add: Timer_GetByteSize_def)
next
  case (2 t) show ?case unfolding Timer_Serialize_def by (rule writes_proto)
next
  case (3 t) then show ?case unfolding Timer_UnSerialize_def by (intro reads_proto) (auto simp: pb_ok_def)
qed

interpretation player_class: object_class "Player_GetByteSize enc henc" "Player_Serialize enc henc"
  "Player_UnSerialize dec hsz hdec"
  "\<lambda>s. henc (py_connect_head s) @ le_bytes 8 (length (enc s)) @ enc s"
  "\<lambda>s. pb_ok enc dec s \<and> head_ok henc hdec hsz (py_connect_head s)"
  for enc dec henc hdec hsz
proof (unfold_locales, goal_cases)
  case (1 s) then show ?case by (simp add: Player_GetByteSize_def)
next
  case (2 s) show ?case unfolding Player_Serialize_def by (intro writes_then writes_proto writes_base)
next
  case (3 s)
  then have d: "dec (enc s) = Some s" "length (enc s) < 2 ^ 64" "length (henc (py_connect_head s)) = hsz"
    "hdec (henc (py_connect_head s)) = py_connect_head s" by (auto simp: pb_ok_def head_ok_def)
  have "reads (henc (py_connect_head s) @ le_bytes 8 (length (enc s)) @ enc s)
      ((\<lambda>h s. s\<lparr>py_connect_head := hdec h\<rparr>) (henc (py_connect_head s)) s) (Player_UnSerialize dec hsz hdec)"
    by (rule reads_then [OF reads_base reads_proto [of dec, OF d(1,2)]])
       (simp add: Player_UnSerialize_def d(3))
  then show ?case by (simp add: d(4))
qed

interpretation machine_class: object_class "Machine_GetByteSize enc henc" "Machine_Serialize enc henc"
  "Machine_UnSerialize dec hsz hdec"
  "\<lambda>s. henc (ma_connect_head s) @ le_bytes 8 (length (enc s)) @ enc s"
  "\<lambda>s. pb_ok enc dec s \<and> head_ok henc hdec hsz (ma_connect_head s)"
  for enc dec henc hdec hsz
proof (unfold_locales, goal_cases)
  case (1 s) then show ?case by (simp add: Machine_GetByteSize_def)
next
  case (2 s) show ?case unfolding Machine_Serialize_def by (intro writes_then writes_proto writes_base)
next
  case (3 s)
  then have d: "dec (enc s) = Some s" "length (enc s) < 2 ^ 64" "length (henc (ma_connect_head s)) = hsz"
    "hdec (henc (ma_connect_head s)) = ma_connect_head s" by (auto simp: pb_ok_def head_ok_def)
  have "reads (henc (ma_connect_head s) @ le_bytes 8 (length (enc s)) @ enc s)
      ((\<lambda>h s. s\<lparr>ma_connect_head := hdec h\<rparr>) (henc (ma_connect_head s)) s) (Machine_UnSerialize dec hsz hdec)"
    by (rule reads_then [OF reads_base reads_proto [of dec, OF d(1,2)]])
       (simp add: Machine_UnSerialize_def d(3))
  then show ?case by (simp add: d(4))
qed

subsection \<open>Properties\<close>

text \<open>Property C30. Session slots are conserved: whatever requests create sessions and however they
  are released, the sessions that can be found, the free slots and the slots lost by failed
  creations add up to the same number. A creation that fails while slots are free loses one for
  good.\<close>

theorem session_slots_account:
  assumes "kp_inv se_session_id m"
    and "run_store (\<lambda>(now, msg_id). CreateSession now msg_id) ReleaseSession kp_room ops m = (lost, m')"
  shows "kp_inv se_session_id m'
    \<and> kp_room m' + card {k. GetSession k m' \<noteq> None} + lost = kp_room m + card {k. GetSession k m \<noteq> None}"
  using sessions.run_account [OF assms] by (simp add: sessions.live_def)

definition session_mgr0 :: "nat \<Rightarrow> session_mgr" where
  "session_mgr0 n = \<lparr>kp_om = om_new session0 n 77, kp_index = (\<lambda>_. None), ip_cur_max_id = 0\<rparr>"

lemma session_mgr0_inv [simp]:
  "kp_inv se_session_id (session_mgr0 n)" "kp_owned se_session_id session0 (session_mgr0 n)"
  "GetSession k (session_mgr0 n) = None" "kp_room (session_mgr0 n) = n"
  by (simp_all add: session_mgr0_def kp_inv_def kp_owned_def GetSession_def kp_Get_def kp_room_def)

lemma session_slots_account_witness:
  "\<exists>lost m'. run_store (\<lambda>(now, msg_id). CreateSession now msg_id) ReleaseSession kp_room
       [Create (5000, 1012), Release_key 1, Create (6000, 1016)] (session_mgr0 3) = (lost, m')
     \<and> kp_room m' + card {k. GetSession k m' \<noteq> None} + lost = 3"
proof -
  obtain lost m' where r: "run_store (\<lambda>(now, msg_id). CreateSession now msg_id) ReleaseSession kp_room
       [Create (5000, 1012), Release_key 1, Create (6000, 1016)] (session_mgr0 3) = (lost, m')"
    by (rule prod.exhaust)
  from session_slots_account [OF _ r] show ?thesis using r by auto
qed

text \<open>\<open>CreateSession\<close> makes a session under an id no other session has, stamped with the
  message and the time, and touches no other session. It fails when no slot is free, and also
  when the ten ids after the last one are all in use: then nothing can be found under the slot
  it took.\<close>

theorem CreateSession_result:
  assumes "kp_inv se_session_id m"
  shows "case CreateSession now msg_id m of
      (Some sid, m') \<Rightarrow> GetSession sid m = None \<and> kp_inv se_session_id m' \<and> Suc (kp_room m') = kp_room m
        \<and> (\<forall>j. GetSession j m' = (if j = sid then Some (session0\<lparr>se_session_id := sid, se_msg_id := msg_id,
             se_update_time := GetTime now, se_session_state := On_Message\<rparr>) else GetSession j m))
    | (None, m') \<Rightarrow> if kp_room m = 0 then m' = m
        else (\<forall>i\<in>{1..10}. GetSession (ip_cur_max_id m + of_nat i) m \<noteq> None)
             \<and> Suc (kp_room m') = kp_room m \<and> (\<forall>j. GetSession j m' = GetSession j m)"
proof (cases "CreateSession now msg_id m")
  case (Pair r m')
  note c = Pair [unfolded CreateSession_def]
  show ?thesis
  proof (cases r)
    case (Some sid)
    note S = ip_Create_some [OF assms c [unfolded Some]]
    show ?thesis unfolding Pair Some using S by (simp add: GetSession_def)
  next
    case None
    show ?thesis
    proof (cases "kp_room m = 0")
      case True
      with c ip_Create_full [OF True] None Pair show ?thesis by auto
    next
      case False
      then have "0 < kp_room m" by simp
      note N = ip_Create_none [OF assms c [unfolded None] this]
      have "\<forall>i\<in>{1..10}. GetSession (ip_cur_max_id m + of_nat i) m \<noteq> None"
        using N(4) kp_Get_None [OF assms] unfolding gen_id_None_fst GetSession_def by auto
      with Pair None False N show ?thesis by (simp add: GetSession_def)
    qed
  qed
qed

text \<open>Ten sessions hold the ids 1 to 10, an eleventh slot is free and the counter has come round
  to 0.\<close>

definition wrapped_mgr :: session_mgr where
  "wrapped_mgr = \<lparr>kp_om = \<lparr>om_size = 11, om_shm_key = 0,
       om_pool = map (\<lambda>i. session0\<lparr>se_session_id := of_nat (Suc i)\<rparr>) [0..<11],
       om_used = [0..<10], om_free = [10]\<rparr>,
     kp_index = (\<lambda>k. if 1 \<le> unat k \<and> unat k \<le> 10 then Some (unat k - 1) else None), ip_cur_max_id = 0\<rparr>"

lemma wrapped_mgr_inv: "kp_inv se_session_id wrapped_mgr"
proof -
  have "of_nat (Suc (unat k - 1)) = k" if "1 \<le> unat k" for k :: u32
    using that by simp
  then show ?thesis
    by (auto simp: kp_inv_def om_inv_def wrapped_mgr_def session0_def)
qed

lemma CreateSession_result_witness:
  "kp_inv se_session_id wrapped_mgr \<and> kp_room wrapped_mgr = 1
   \<and> (\<exists>m'. CreateSession 9000 1012 wrapped_mgr = (None, m') \<and> kp_room m' = 0
          \<and> GetSession 11 m' = GetSession 11 wrapped_mgr)"
proof -
  have c: "fst (CreateSession 9000 1012 wrapped_mgr) = None"
  proof -
    have "fst (gen_id 10 (kp_index wrapped_mgr) (ip_cur_max_id wrapped_mgr)) = None"
      unfolding gen_id_None_fst by (auto simp: wrapped_mgr_def unat_of_nat)
    then show ?thesis
      by (cases "gen_id 10 (kp_index wrapped_mgr) (ip_cur_max_id wrapped_mgr)")
         (auto simp: CreateSession_def ip_Create_def om_Malloc_def wrapped_mgr_def simp del: gen_id.simps)
  qed
  then obtain m' where m': "CreateSession 9000 1012 wrapped_mgr = (None, m')"
    by (cases "CreateSession 9000 1012 wrapped_mgr") auto
  have "kp_room wrapped_mgr = 1" by (simp add: kp_room_def wrapped_mgr_def)
  with CreateSession_result [OF wrapped_mgr_inv, of 9000 1012] m' wrapped_mgr_inv show ?thesis by auto
qed

lemma CheckTimeOut_get:
  assumes "kp_inv se_session_id m" "kp_owned se_session_id session0 m" "walk_order ord" "k \<noteq> 0"
  shows "GetSession k (CheckTimeOut ord now m)
    = (case GetSession k m of None \<Rightarrow> None | Some s \<Rightarrow> if session_expired now s then None else Some s)"
proof -
  have "distinct (om_used (kp_om m))" using assms(1) by (simp add: kp_inv_def om_inv_def)
  note W = walk_orderD(2) [OF assms(3) this]
  have "k \<in> set (map se_session_id (filter (session_expired now) (om_iter ord (kp_om m))))
      \<longleftrightarrow> (\<exists>s. GetSession k m = Some s \<and> session_expired now s)"
    using kp_walk [where k = k and P = "session_expired now" and ord = ord, OF assms(1,2) _ W] assms(4)
    by (auto simp: GetSession_def session0_def)
  then show ?thesis
    using sessions.release_all [OF assms(1)] by (cases "GetSession k m") (auto simp: CheckTimeOut_def)
qed

text \<open>Property C31. \<open>CheckTimeOut\<close> releases exactly the sessions that have not been touched for
  ten seconds, in whatever order the hash set is walked; every other session stays as it is.\<close>

theorem CheckTimeOut_exact:
  assumes "kp_inv se_session_id m" "kp_owned se_session_id session0 m" "walk_order ord" "k \<noteq> 0"
  shows "GetSession k (CheckTimeOut ord now m)
    = (case GetSession k m of None \<Rightarrow> None
       | Some s \<Rightarrow> if se_update_time s + 10 \<le> GetTime now then None else Some s)"
  using CheckTimeOut_get [OF assms] by (simp add: session_expired_def cong: option.case_cong)

definition two_sessions :: session_mgr where
  "two_sessions = snd (CreateSession 9000 1 (snd (CreateSession 5000 1 (session_mgr0 3))))"

lemma two_sessions_inv [simp]:
  "kp_inv se_session_id two_sessions" "kp_owned se_session_id session0 two_sessions"
proof -
  have step: "kp_inv se_session_id (snd (CreateSession now i m)) \<and> kp_owned se_session_id session0 (snd (CreateSession now i m))"
    if "kp_inv se_session_id m" "kp_owned se_session_id session0 m" for now i m
  proof -
    have "kp_inv se_session_id (snd (CreateSession now i m))"
      using CreateSession_result [OF that(1), of now i] ip_Create_full [of m] ip_Create_none(1) [OF that(1)] that(1)
      by (cases "CreateSession now i m"; cases "kp_room m = 0") (auto simp: CreateSession_def split: option.splits)
    moreover have "kp_owned se_session_id session0 (snd (CreateSession now i m))"
      unfolding CreateSession_def by (rule ip_Create_owned [OF that]) simp
    ultimately show ?thesis ..
  qed
  show "kp_inv se_session_id two_sessions" "kp_owned se_session_id session0 two_sessions"
    unfolding two_sessions_def using step [OF session_mgr0_inv(1,2)] step by blast+
qed

text \<open>The first candidate is taken when it is free.\<close>

lemma gen_id_10: "index (mx + 1) = None \<Longrightarrow> gen_id 10 index mx = (Some (mx + 1), mx + 1)"
  by (simp add: eval_nat_numeral)

lemma two_sessions_Get:
  "GetSession 1 two_sessions = Some (session0\<lparr>se_session_id := 1, se_msg_id := 1, se_update_time := 5\<rparr>)"
  "GetSession 2 two_sessions = Some (session0\<lparr>se_session_id := 2, se_msg_id := 1, se_update_time := 9\<rparr>)"
  by (simp_all add: two_sessions_def CreateSession_def ip_Create_def om_Malloc_def session_mgr0_def
      gen_id_10 om_put_def om_new_def upt_rec GetSession_def kp_Get_def om_Get_def GetTime_def
      session0_def word_div_def del: gen_id.simps)

lemma CheckTimeOut_exact_witness:
  "GetSession 1 (CheckTimeOut rev 16000 two_sessions) = None
   \<and> GetSession 2 (CheckTimeOut rev 16000 two_sessions) = GetSession 2 two_sessions
   \<and> GetSession 2 two_sessions \<noteq> None"
  using CheckTimeOut_exact [OF two_sessions_inv walk_order_rev, of 1 16000]
    CheckTimeOut_exact [OF two_sessions_inv walk_order_rev, of 2 16000]
  by (simp add: two_sessions_Get session_expired_def GetTime_def)

lemma Tick_due:
  assumes "kp_inv ti_timer_id m" "kp_owned ti_timer_id timer0 m" "walk_order ord" "walk_order ord2"
    and "Tick ord now m = (msgs, m')"
  shows "(k \<noteq> 0 \<longrightarrow> GetTimer k m'
      = (case GetTimer k m of None \<Rightarrow> None | Some t \<Rightarrow> if timer_due now t then None else Some t))
    \<and> (\<forall>t. GetTimer k m = Some t \<and> timer_due now t \<longrightarrow> ti_msg t \<in> set msgs)
    \<and> set (fst (Tick ord2 now m')) \<subseteq> {None}"
proof -
  let ?due = "filter (timer_due now) (om_iter ord (kp_om m))"
  have msgs: "msgs = map ti_msg ?due" and m': "m' = release_each ReleaseTimer (map ti_timer_id ?due) m"
    using assms(5) by (auto simp: Tick_def Let_def)
  have "distinct (om_used (kp_om m))" using assms(1) by (simp add: kp_inv_def om_inv_def)
  note W = walk_orderD(2) [OF assms(3) this]
  note walk = kp_walk [where ord = ord, OF assms(1,2) _ W]
  have found: "\<exists>x\<in>set (om_iter ord (kp_om m)). timer_due now x \<and> ti_timer_id x = j \<and> x = t"
    if g: "GetTimer j m = Some t" and d: "timer_due now t" for j t
  proof -
    obtain pos where pos: "kp_index m j = Some pos"
      using g by (cases "kp_index m j") (auto simp: GetTimer_def kp_Get_def)
    from kp_invD [OF assms(1) pos] g d W show ?thesis by (auto simp: GetTimer_def om_iter_def)
  qed
  have get: "GetTimer j m' = (if \<exists>x\<in>set ?due. ti_timer_id x = j then None else GetTimer j m)" for j
    using timers.release_all [OF assms(1), of "map ti_timer_id ?due" j] by (auto simp: m' image_iff)
  have "GetTimer k m' = (case GetTimer k m of None \<Rightarrow> None | Some t \<Rightarrow> if timer_due now t then None else Some t)"
    if "k \<noteq> 0"
    using walk [of k "timer_due now"] that unfolding get
    by (cases "GetTimer k m") (auto simp: GetTimer_def timer0_def)
  moreover have "\<forall>t. GetTimer k m = Some t \<and> timer_due now t \<longrightarrow> ti_msg t \<in> set msgs"
    using found by (fastforce simp: msgs)
  moreover have "set (fst (Tick ord2 now m')) \<subseteq> {None}"
  proof
    fix g assume "g \<in> set (fst (Tick ord2 now m'))"
    then obtain t where t: "t \<in> set (om_iter ord2 (kp_om m'))" "timer_due now t" "g = ti_msg t"
      by (auto simp: Tick_def Let_def)
    have I: "kp_inv ti_timer_id m'" "kp_owned ti_timer_id timer0 m'"
      using release_each_owned [OF assms(1,2), of Timer_Clear "map ti_timer_id ?due"]
      by (simp_all add: m' ReleaseTimer_def [abs_def])
    have "distinct (om_used (kp_om m'))" using I(1) by (simp add: kp_inv_def om_inv_def)
    note W2 = walk_orderD(2) [OF assms(4) this]
    obtain pos where pos: "pos \<in> set (om_used (kp_om m'))" "t = om_pool (kp_om m') ! pos"
      using t(1) W2 by (auto simp: om_iter_def)
    have "t = timer0"
    proof (rule ccontr)
      assume "t \<noteq> timer0"
      then have "kp_index m' (ti_timer_id t) = Some pos" using I(2) pos by (auto simp: kp_owned_def)
      then have t': "GetTimer (ti_timer_id t) m' = Some t"
        using kp_invD(5) [OF I(1)] pos by (simp add: GetTimer_def)
      then have "GetTimer (ti_timer_id t) m = Some t" unfolding get by (simp split: if_splits)
      with found [OF this t(2)] t' show False unfolding get by (auto split: if_splits)
    qed
    then show "g \<in> {None}" using t(3) by (simp add: timer0_def)
  qed
  ultimately show ?thesis by blast
qed

text \<open>The slots in use that no timer can be found in: a failed creation leaves one.\<close>

definition lost_slots :: "timer_mgr \<Rightarrow> nat" where
  "lost_slots m = card {pos \<in> set (om_used (kp_om m)). kp_index m (ti_timer_id (om_pool (kp_om m) ! pos)) \<noteq> Some pos}"

lemma count_list_map_card:
  assumes "distinct xs"
  shows "count_list (map f xs) g = card {x \<in> set xs. f x = g}"
proof -
  have "count_list (map f xs) g = length (filter (\<lambda>x. f x = g) xs)"
    by (simp add: count_list_eq_length_filter filter_map comp_def eq_commute)
  also have "\<dots> = card (set (filter (\<lambda>x. f x = g) xs))" by (rule distinct_card [symmetric]) (use assms in simp)
  finally show ?thesis by simp
qed

text \<open>Each message is delivered as often as there are due timers with it; a lost slot delivers its empty one.\<close>

lemma Tick_count:
  assumes "kp_inv ti_timer_id m" "kp_owned ti_timer_id timer0 m" "walk_order ord" "Tick ord now m = (msgs, m')"
  shows "count_list msgs g = card {j. \<exists>t. GetTimer j m = Some t \<and> timer_due now t \<and> ti_msg t = g} + (if g = None then lost_slots m else 0)"
proof -
  let ?at = "\<lambda>pos. om_pool (kp_om m) ! pos" and ?U = "set (om_used (kp_om m))"
  let ?idx = "\<lambda>pos. kp_index m (ti_timer_id (?at pos)) = Some pos"
  let ?hit = "\<lambda>pos. timer_due now (?at pos) \<and> ti_msg (?at pos) = g"
  have d: "distinct (om_used (kp_om m))" using assms(1) by (simp add: kp_inv_def om_inv_def)
  note W = walk_orderD [OF assms(3) d]
  have "msgs = map (ti_msg \<circ> ?at) (filter (\<lambda>pos. timer_due now (?at pos)) (ord (om_used (kp_om m))))"
    using assms(4) by (auto simp: Tick_def Let_def om_iter_def filter_map comp_def)
  then have "count_list msgs g = card {pos \<in> ?U. ?hit pos}"
    using count_list_map_card [of "filter (\<lambda>pos. timer_due now (?at pos)) (ord (om_used (kp_om m)))" "ti_msg \<circ> ?at" g] W
    by (simp add: conj_assoc)
  also have "{pos \<in> ?U. ?hit pos} = {pos \<in> ?U. ?idx pos \<and> ?hit pos} \<union> {pos \<in> ?U. \<not> ?idx pos \<and> ?hit pos}" by blast
  also have "card \<dots> = card {pos \<in> ?U. ?idx pos \<and> ?hit pos} + card {pos \<in> ?U. \<not> ?idx pos \<and> ?hit pos}"
    by (rule card_Un_disjoint) auto
  also have "card {pos \<in> ?U. ?idx pos \<and> ?hit pos} = card ((\<lambda>pos. ti_timer_id (?at pos)) ` {pos \<in> ?U. ?idx pos \<and> ?hit pos})"
  proof (rule card_image [symmetric], rule inj_onI)
    fix x y assume "x \<in> {pos \<in> ?U. ?idx pos \<and> ?hit pos}" "y \<in> {pos \<in> ?U. ?idx pos \<and> ?hit pos}"
      and eq: "ti_timer_id (?at x) = ti_timer_id (?at y)"
    then have "kp_index m (ti_timer_id (?at y)) = Some x" "kp_index m (ti_timer_id (?at y)) = Some y" by simp_all
    then show "x = y" by simp
  qed
  also have "(\<lambda>pos. ti_timer_id (?at pos)) ` {pos \<in> ?U. ?idx pos \<and> ?hit pos}
      = {j. \<exists>t. GetTimer j m = Some t \<and> timer_due now t \<and> ti_msg t = g}"
  proof (intro set_eqI iffI)
    fix j assume "j \<in> (\<lambda>pos. ti_timer_id (?at pos)) ` {pos \<in> ?U. ?idx pos \<and> ?hit pos}"
    then obtain pos where "?idx pos" "?hit pos" "j = ti_timer_id (?at pos)" by blast
    with kp_invD(5) [OF assms(1), of j pos] show "j \<in> {j. \<exists>t. GetTimer j m = Some t \<and> timer_due now t \<and> ti_msg t = g}"
      by (auto simp: GetTimer_def)
  next
    fix j assume "j \<in> {j. \<exists>t. GetTimer j m = Some t \<and> timer_due now t \<and> ti_msg t = g}"
    then obtain t where t: "GetTimer j m = Some t" "timer_due now t" "ti_msg t = g" by blast
    then obtain pos where pos: "kp_index m j = Some pos" by (cases "kp_index m j") (auto simp: GetTimer_def kp_Get_def)
    from kp_invD [OF assms(1) pos] t pos show "j \<in> (\<lambda>pos. ti_timer_id (?at pos)) ` {pos \<in> ?U. ?idx pos \<and> ?hit pos}"
      by (intro image_eqI [of _ _ pos]) (auto simp: GetTimer_def)
  qed
  also have "card {pos \<in> ?U. \<not> ?idx pos \<and> ?hit pos} = (if g = None then lost_slots m else 0)"
  proof -
    have "?hit pos \<longleftrightarrow> g = None" if "pos \<in> ?U" "\<not> ?idx pos" for pos
    proof -
      have "?at pos = timer0" using assms(2) that by (auto simp: kp_owned_def)
      then show ?thesis by (auto simp: timer0_def timer_due_def)
    qed
    then have "{pos \<in> ?U. \<not> ?idx pos \<and> ?hit pos} = (if g = None then {pos \<in> ?U. \<not> ?idx pos} else {})" by auto
    then show ?thesis by (simp add: lost_slots_def)
  qed
  finally show ?thesis .
qed

text \<open>Property C32. A tick delivers exactly the messages of the timers that are due, each once: a message comes out as often as
  there are due timers with it (the empty message once more for each slot that a failed creation lost). The timers
  that are due can no longer be found, the others stay as they are, and a second tick at the same time delivers no message of a
  timer, only the empty ones of lost slots. The pool is one that its operations make (\<open>kp_inv\<close>, \<open>kp_owned\<close>), and the
  hash set is walked in any order that meets every element once.\<close>

theorem Tick_once:
  assumes "kp_inv ti_timer_id m" "kp_owned ti_timer_id timer0 m" "walk_order ord" "walk_order ord2"
    and "Tick ord now m = (msgs, m')"
  shows "(k \<noteq> 0 \<longrightarrow> GetTimer k m'
      = (case GetTimer k m of None \<Rightarrow> None
         | Some t \<Rightarrow> if ti_timeout_msec t \<le> now then None else Some t))
    \<and> count_list msgs g = card {j. \<exists>t. GetTimer j m = Some t \<and> ti_timeout_msec t \<le> now \<and> ti_msg t = g}
        + (if g = None then lost_slots m else 0)
    \<and> set (fst (Tick ord2 now m')) \<subseteq> {None}"
  using Tick_due [OF assms, of k] Tick_count [OF assms(1-3,5), of g]
  by (simp add: timer_due_def GetTimeMsec_def cong: option.case_cong)

definition timer_mgr0 :: "nat \<Rightarrow> timer_mgr" where
  "timer_mgr0 n = \<lparr>kp_om = om_new timer0 n 0, kp_index = (\<lambda>_. None), ip_cur_max_id = 0\<rparr>"

lemma timer_mgr0_inv [simp]:
  "kp_inv ti_timer_id (timer_mgr0 n)" "kp_owned ti_timer_id timer0 (timer_mgr0 n)"
  "kp_room (timer_mgr0 n) = n"
  by (simp_all add: timer_mgr0_def kp_inv_def kp_owned_def kp_room_def)

definition one_timer :: timer_mgr where
  "one_timer = snd (CreateTimerMsec 1000 500 (Some (InStartTimeout 7)) (timer_mgr0 2))"

lemma one_timer_ok:
  "fst (CreateTimerMsec 1000 500 (Some (InStartTimeout 7)) (timer_mgr0 2)) = Some 1"
  by (simp add: CreateTimerMsec_def ip_Create_def om_Malloc_def timer_mgr0_def gen_id_10
      om_new_def upt_rec del: gen_id.simps)

lemma one_timer_inv [simp]: "kp_inv ti_timer_id one_timer" "kp_owned ti_timer_id timer0 one_timer"
  and one_timer_Get: "GetTimer 1 one_timer
    = Some \<lparr>ti_timer_id = 1, ti_timeout_msec = 1500, ti_msg = Some (InStartTimeout 7)\<rparr>"
proof -
  have c: "ip_Create timer0 (\<lambda>tid. \<lparr>ti_timer_id = tid, ti_timeout_msec = 1500, ti_msg = Some (InStartTimeout 7)\<rparr>)
      (timer_mgr0 2) = (Some 1, one_timer)"
    using one_timer_ok by (simp add: CreateTimerMsec_def one_timer_def GetTimeMsec_def prod_eq_iff)
  note C = ip_Create_some [OF timer_mgr0_inv(1) c]
  show "kp_inv ti_timer_id one_timer" using C(1) by simp
  show "GetTimer 1 one_timer
    = Some \<lparr>ti_timer_id = 1, ti_timeout_msec = 1500, ti_msg = Some (InStartTimeout 7)\<rparr>"
    using C(4) [of 1] by (simp add: GetTimer_def)
  show "kp_owned ti_timer_id timer0 one_timer"
    unfolding one_timer_def CreateTimerMsec_def by (rule ip_Create_owned) simp_all
qed

lemma one_timer_only: "GetTimer j one_timer = Some t \<Longrightarrow> j = 1"
proof -
  assume g: "GetTimer j one_timer = Some t"
  have c: "ip_Create timer0 (\<lambda>tid. \<lparr>ti_timer_id = tid, ti_timeout_msec = 1500, ti_msg = Some (InStartTimeout 7)\<rparr>)
      (timer_mgr0 2) = (Some 1, one_timer)"
    using one_timer_ok by (simp add: CreateTimerMsec_def one_timer_def GetTimeMsec_def prod_eq_iff)
  show "j = 1" using ip_Create_some(4) [OF timer_mgr0_inv(1) c, of j] g
    by (auto simp: GetTimer_def timer_mgr0_def kp_Get_def split: if_splits)
qed

lemma Tick_once_witness:
  "count_list (fst (Tick rev 1500 one_timer)) (Some (InStartTimeout 7)) = 1
   \<and> GetTimer 1 (snd (Tick rev 1500 one_timer)) = None
   \<and> set (fst (Tick (\<lambda>xs. xs) 1500 (snd (Tick rev 1500 one_timer)))) \<subseteq> {None}"
proof -
  have "{j. \<exists>t. GetTimer j one_timer = Some t \<and> ti_timeout_msec t \<le> 1500 \<and> ti_msg t = Some (InStartTimeout 7)} = {1}"
    using one_timer_only by (auto simp: one_timer_Get)
  then show ?thesis using Tick_once [OF one_timer_inv walk_order_rev walk_order_id, of 1500
      "fst (Tick rev 1500 one_timer)" "snd (Tick rev 1500 one_timer)" 1 "Some (InStartTimeout 7)"]
  by (simp add: one_timer_Get timer_due_def GetTimeMsec_def)
qed

text \<open>\<open>SetTimer(sec)\<close> multiplies by 1000 and ends in the function that takes seconds, so
  the timer it makes is due \<open>1000 * sec\<close> seconds from now instead of \<open>sec\<close> seconds.\<close>

theorem SetTimer_thousandfold:
  assumes "kp_inv ti_timer_id m" "SetTimer now sec msg m = (tid, m')" "fst (CreateTimer now (sec * 1000) msg m) \<noteq> None"
    and "unat (GetTime now) + 1000 * unat sec < 2 ^ 32"
  shows "\<exists>t. GetTimer tid m' = Some t \<and> ti_msg t = msg
           \<and> unat (ti_timeout_msec t) = 1000 * (unat (GetTime now) + 1000 * unat sec)"
proof -
  obtain k where c: "CreateTimer now (sec * 1000) msg m = (Some k, m')" and k: "tid = k"
    using assms(2,3) by (auto simp: SetTimer_def SetTimerMsec_def timer_ret_def split: prod.splits)
  let ?t = "\<lparr>ti_timer_id = k, ti_timeout_msec = (ucast (GetTime now + sec * 1000) :: u64) * 1000, ti_msg = msg\<rparr>"
  have g: "GetTimer k m' = Some ?t"
    using ip_Create_some(4) [OF assms(1) c [unfolded CreateTimer_def], of k] by (simp add: GetTimer_def)
  have s: "unat (sec * 1000) = 1000 * unat sec"
    using assms(4) by (simp add: unat_word_ariths)
  then have u: "unat (GetTime now + sec * 1000) = unat (GetTime now) + 1000 * unat sec"
    using assms(4) by (simp add: unat_word_ariths)
  then have "unat (ucast (GetTime now + sec * 1000) :: u64) = unat (GetTime now) + 1000 * unat sec"
    using assms(4) by (simp add: unsigned_ucast_eq take_bit_nat_eq_self)
  then have "unat ((ucast (GetTime now + sec * 1000) :: u64) * 1000) = 1000 * (unat (GetTime now) + 1000 * unat sec)"
    using assms(4) by (simp add: unat_word_ariths)
  with g k show ?thesis by auto
qed

lemma SetTimer_thousandfold_witness:
  "\<exists>tid m' t. SetTimer 7000 3 None (timer_mgr0 1) = (tid, m') \<and> GetTimer tid m' = Some t
     \<and> unat (ti_timeout_msec t) = 3007000"
proof -
  have c: "fst (CreateTimer 7000 (3 * 1000) None (timer_mgr0 1)) \<noteq> None"
    by (simp add: CreateTimer_def ip_Create_def om_Malloc_def timer_mgr0_def gen_id_10
        om_new_def upt_rec del: gen_id.simps)
  obtain tid m' where s: "SetTimer 7000 3 None (timer_mgr0 1) = (tid, m')" by fastforce
  from SetTimer_thousandfold [OF timer_mgr0_inv(1) s c] show ?thesis
    using s by (auto simp: GetTime_def)
qed

text \<open>Creating a player who is already there makes a blank player under the same id and
  costs a slot for good: releasing the player afterwards gives back one slot, not two.\<close>

theorem CreatePlayer_again_leaks:
  assumes "kp_inv py_player_id m" "0 < kp_room m" "GetPlayer uid m = Some p"
  shows "\<exists>m1 m2. CreatePlayer uid m = (True, m1) \<and> GetPlayer uid m1 = Some (player0\<lparr>py_player_id := uid\<rparr>)
     \<and> ReleasePlayer uid m1 = (True, m2) \<and> GetPlayer uid m2 = None \<and> ReleasePlayer uid m2 = (False, m2)
     \<and> kp_room m2 = kp_room m \<and> card {k. GetPlayer k m2 \<noteq> None} + 1 = card {k. GetPlayer k m \<noteq> None}"
proof -
  obtain m1 m2 where m: "CreatePlayer uid m = (True, m1)" "ReleasePlayer uid m1 = (True, m2)"
      "kp_inv py_player_id m2" "GetPlayer uid m1 = Some (player0\<lparr>py_player_id := uid\<rparr>)"
      "kp_room m2 = kp_room m" "\<forall>j. GetPlayer j m2 = (if j = uid then None else GetPlayer j m)"
    using players.create_release [OF assms(1,2), of uid] by blast
  have n: "GetPlayer uid m2 = None" using m(6) by simp
  have "{k. GetPlayer k m \<noteq> None} = insert uid {k. GetPlayer k m2 \<noteq> None}" "uid \<notin> {k. GetPlayer k m2 \<noteq> None}"
    using m(6) assms(3) by auto
  then have "card {k. GetPlayer k m2 \<noteq> None} + 1 = card {k. GetPlayer k m \<noteq> None}"
    using players.finite_keys [OF m(3)] by simp
  with m n players.release_miss [OF m(3) n] show ?thesis by blast
qed

definition player_mgr0 :: "nat \<Rightarrow> player_mgr" where
  "player_mgr0 n = \<lparr>kp_om = om_new player0 n 0, kp_index = (\<lambda>_. None)\<rparr>"

lemma player_mgr0_inv [simp]: "kp_inv py_player_id (player_mgr0 n)" "kp_room (player_mgr0 n) = n"
  by (simp_all add: player_mgr0_def kp_inv_def kp_room_def)

lemma CreatePlayer_again_leaks_witness:
  "\<exists>m p m1 m2. kp_room m = 1 \<and> GetPlayer 9 m = Some p \<and> CreatePlayer 9 m = (True, m1)
     \<and> ReleasePlayer 9 m1 = (True, m2) \<and> kp_room m2 = 1 \<and> GetPlayer 9 m2 = None"
proof -
  obtain m where m: "kp_inv py_player_id m" "Suc (kp_room m) = kp_room (player_mgr0 2)"
      "GetPlayer 9 m = Some (player0\<lparr>py_player_id := 9\<rparr>)"
    using players.create_room [OF player_mgr0_inv(1) [of 2], of 9] by auto
  then have r: "kp_room m = 1" by simp
  from CreatePlayer_again_leaks [OF m(1) _ m(3)] m(3) r show ?thesis by auto
qed


definition one_session :: session_mgr where
  "one_session = snd (CreateSession 5000 1 (session_mgr0 1))"

lemma one_session_eq:
  "one_session = \<lparr>kp_om = \<lparr>om_size = 1, om_shm_key = 77,
       om_pool = [session0\<lparr>se_session_id := 1, se_msg_id := 1, se_update_time := 5\<rparr>],
       om_used = [0], om_free = []\<rparr>, kp_index = [1 \<mapsto> 0], ip_cur_max_id = 1\<rparr>"
  by (simp add: one_session_def CreateSession_def ip_Create_def om_Malloc_def session_mgr0_def
      gen_id_10 om_put_def om_new_def GetTime_def session0_def word_div_def del: gen_id.simps)


text \<open>The pairs of uid and key a session will query.\<close>

definition wanted :: "session \<Rightarrow> (u64 \<times> u32) set" where
  "wanted s = {(dp_uid p, k) | p k. p \<in> set (se_db_processs s) \<and> k \<in> set (dp_keys p)}"

definition query_ok :: "session \<Rightarrow> bool" where
  "query_ok s \<longleftrightarrow> distinct (map dp_uid (se_db_processs s)) \<and> list_all (\<lambda>p. distinct (dp_keys p)) (se_db_processs s)"

lemma add_key_uids:
  "map dp_uid (add_key uid key ps) = (if uid \<in> set (map dp_uid ps) then map dp_uid ps else map dp_uid ps @ [uid])"
  by (induction ps) auto

lemma add_key_distinct:
  "list_all (\<lambda>p. distinct (dp_keys p)) ps \<Longrightarrow> list_all (\<lambda>p. distinct (dp_keys p)) (add_key uid key ps)"
  by (induction ps) auto

lemma add_key_wanted:
  "{(dp_uid p, k) | p k. p \<in> set (add_key uid key ps) \<and> k \<in> set (dp_keys p)}
    = insert (uid, key) {(dp_uid p, k) | p k. p \<in> set ps \<and> k \<in> set (dp_keys p)}"
proof (induction ps)
  case (Cons p ps)
  have split: "{(dp_uid q, k) | q k. q \<in> set (x # xs) \<and> k \<in> set (dp_keys q)}
      = (\<lambda>k. (dp_uid x, k)) ` set (dp_keys x) \<union> {(dp_uid q, k) | q k. q \<in> set xs \<and> k \<in> set (dp_keys q)}"
    for x and xs :: "pb_db_process list" by auto
  show ?case
  proof (cases "dp_uid p = uid")
    case True
    then have e: "add_key uid key (p # ps)
        = (if key \<in> set (dp_keys p) then p else p\<lparr>dp_keys := dp_keys p @ [key]\<rparr>) # ps" by simp
    show ?thesis unfolding e split using True by auto
  next
    case False
    then have "add_key uid key (p # ps) = p # add_key uid key ps" by simp
    then show ?thesis by (simp only: split Cons.IH) auto
  qed
qed auto

text \<open>\<open>AddQueryKey\<close> keeps the list of a session's queries free of duplicate uids and
  of duplicate keys for a uid, adds exactly the pair asked for and never moves the entry of a
  uid that is there, so that an index found before stays right.\<close>

theorem AddQueryKey_dedup:
  assumes "query_ok s"
  shows "query_ok (AddQueryKey uid key s)
     \<and> wanted (AddQueryKey uid key s) = insert (uid, key) (wanted s)
     \<and> (\<forall>u i. GetDBProcessIndex u s = Some i \<longrightarrow> GetDBProcessIndex u (AddQueryKey uid key s) = Some i)"
proof -
  have "distinct (map dp_uid (add_key uid key (se_db_processs s)))"
    using assms unfolding add_key_uids by (auto simp: query_ok_def)
  then have q: "query_ok (AddQueryKey uid key s)"
    using assms add_key_distinct by (auto simp: query_ok_def AddQueryKey_def)
  have "index_of (\<lambda>p. u = dp_uid p) ps = Some i \<Longrightarrow> index_of (\<lambda>p. u = dp_uid p) (add_key uid key ps) = Some i"
    for u i ps by (induction ps arbitrary: i) auto
  then show ?thesis using q add_key_wanted [of uid key "se_db_processs s"]
    by (auto simp: GetDBProcessIndex_def AddQueryKey_def wanted_def)
qed

lemma AddQueryKey_dedup_witness:
  "wanted (AddQueryKey 7 11 (AddQueryKey 7 10 (AddQueryKey 7 11 session0))) = {(7, 10), (7, 11)}
   \<and> query_ok (AddQueryKey 7 11 (AddQueryKey 7 10 (AddQueryKey 7 11 session0)))"
proof -
  have 0: "query_ok session0" "wanted session0 = {}" by (simp_all add: query_ok_def wanted_def session0_def)
  note s1 = AddQueryKey_dedup [OF 0(1), of 7 11]
  note s2 = AddQueryKey_dedup [OF conjunct1 [OF s1], of 7 10]
  note s3 = AddQueryKey_dedup [OF conjunct1 [OF s2], of 7 11]
  from s1 s2 s3 0(2) show ?thesis by auto
qed

text \<open>What the operations on the pool of sessions do, for the servers that live on it.\<close>

lemma session_pool:
  assumes "kp_inv se_session_id sm"
  shows "kp_inv se_session_id (snd (CreateSession now i sm))" "kp_inv se_session_id (snd (ReleaseSession sid sm))"
    "se_session_id s = sid \<Longrightarrow> kp_inv se_session_id (kp_update sid (\<lambda>_. s) sm)"
    "GetSession sid sm = Some s \<Longrightarrow> se_session_id s = sid"
    "CreateSession now i sm = (Some sid, sm') \<Longrightarrow> GetSession sid sm' = Some (session0\<lparr>se_session_id := sid, se_msg_id := i,
                                  se_update_time := GetTime now, se_session_state := On_Message\<rparr>)"
    "CreateSession now i sm = (so, sm') \<Longrightarrow> so \<noteq> Some j \<Longrightarrow> GetSession j sm' = GetSession j sm"
    "GetSession j (snd (ReleaseSession sid sm)) = (if j = sid then None else GetSession j sm)"
    "se_session_id s = sid \<Longrightarrow> GetSession j (kp_update sid (\<lambda>_. s) sm)
       = (if j = sid then map_option (\<lambda>_. s) (GetSession sid sm) else GetSession j sm)"
proof -
  show "kp_inv se_session_id (snd (CreateSession now i sm))"
    using ip_Create_some(1) [OF assms, of session0] ip_Create_none(1) [OF assms, of session0] ip_Create_full [of sm session0] assms
    by (cases "CreateSession now i sm"; cases "fst (CreateSession now i sm)"; cases "kp_room sm = 0")
      (auto simp: CreateSession_def)
  show "kp_inv se_session_id (snd (ReleaseSession sid sm))"
    by (rule sessions.release_cases [OF assms, of sid]) (use assms in auto)
  show "se_session_id s = sid \<Longrightarrow> kp_inv se_session_id (kp_update sid (\<lambda>_. s) sm)"
    using kp_update_laws(1) [OF assms, of sid "\<lambda>_. s"] by simp
  show "GetSession sid sm = Some s \<Longrightarrow> se_session_id s = sid"
    using kp_Get_key [OF assms] by (simp add: GetSession_def)
  show "CreateSession now i sm = (Some sid, sm') \<Longrightarrow> GetSession sid sm' = Some (session0\<lparr>se_session_id := sid, se_msg_id := i,
                                  se_update_time := GetTime now, se_session_state := On_Message\<rparr>)"
    using ip_Create_some(4) [OF assms, of session0] by (simp add: CreateSession_def GetSession_def)
  show "GetSession j sm' = GetSession j sm" if c: "CreateSession now i sm = (so, sm')" and n: "so \<noteq> Some j"
  proof (cases so)
    case None
    show ?thesis
    proof (cases "kp_room sm = 0")
      case True
      with c show ?thesis unfolding CreateSession_def by (simp add: ip_Create_full)
    next
      case False
      then have r: "0 < kp_room sm" by simp
      show ?thesis using ip_Create_none(3) [OF assms c [unfolded None CreateSession_def] r] by (simp add: GetSession_def)
    qed
  next
    case (Some k)
    show ?thesis using ip_Create_some(4) [OF assms c [unfolded Some CreateSession_def], of j] n Some by (simp add: GetSession_def)
  qed
  show "GetSession j (snd (ReleaseSession sid sm)) = (if j = sid then None else GetSession j sm)"
    by (rule sessions.release_cases [OF assms, of sid]) auto
  show "se_session_id s = sid \<Longrightarrow> GetSession j (kp_update sid (\<lambda>_. s) sm)
       = (if j = sid then map_option (\<lambda>_. s) (GetSession sid sm) else GetSession j sm)"
    using kp_update_laws(3) [OF assms, of sid "\<lambda>_. s" j] by (simp add: GetSession_def)
qed

end
