(* ===== verification/DataCommon.thy ===== *)
theory DataCommon
  imports Proto
begin

text \<open>
  common/data_common.cpp: a player's gold, the coins put into machines (buy-ins), prizes and
  awards, with the account events each operation logs; and the lookup tables of
  common/config.h. The operations work on the player's data, the events of the session and
  the commands handed to the shell. Sums are the 64- and 32-bit sums of the code. The three
  functions on charge rates compute in \<open>float\<close> and stay parameters of the code that calls them.
\<close>

subsection \<open>common/config.h\<close>

text \<open>\<open>ConfigPrize\<close>: id, value and name of each row of the table; a reload adds and overwrites but
  removes nothing, and rows of value 0 are skipped.\<close>

type_synonym prize_cfg = "u64 \<Rightarrow> (u64 \<times> string) option"

definition ConfigPrize_Init :: "(u64 \<times> u64 \<times> string) list option \<Rightarrow> prize_cfg \<Rightarrow> bool \<times> prize_cfg" where
  "ConfigPrize_Init rows c = (case rows of
     None \<Rightarrow> (False, c)
   | Some rs \<Rightarrow> (True, foldl (\<lambda>c (pid, value, name). if value = 0 then c else c(pid \<mapsto> (value, name))) c rs))"

definition IsExist :: "u64 \<Rightarrow> prize_cfg \<Rightarrow> bool" where
  "IsExist pid c \<longleftrightarrow> c pid \<noteq> None"

definition GetPrize :: "u64 \<Rightarrow> prize_cfg \<Rightarrow> (u64 \<times> string) option" where
  "GetPrize pid c = (if \<not> IsExist pid c then None else c pid)"

record game_addr =
  gd_game_type :: u32
  gd_hosts :: "string list"
  gd_ports :: "u32 list"

text \<open>\<open>ConfigGameAddr\<close>: entries whose hosts and ports do not pair up are left out of the index.\<close>

fun addr_index :: "nat \<Rightarrow> game_addr list \<Rightarrow> (u32 \<Rightarrow> nat option) \<Rightarrow> u32 \<Rightarrow> nat option" where
  "addr_index i [] idx = idx"
| "addr_index i (a # as) idx = addr_index (Suc i) as
     (if length (gd_hosts a) = length (gd_ports a) \<and> gd_hosts a \<noteq> [] then idx(gd_game_type a \<mapsto> i) else idx)"

definition GetAddrByType :: "u32 \<Rightarrow> game_addr list \<Rightarrow> game_addr option" where
  "GetAddrByType t as = map_option ((!) as) (addr_index 0 as (\<lambda>_. None) t)"

subsection \<open>State and events\<close>

abbreviation (input) "EN_Acc_Unknown \<equiv> 0 :: u32"
abbreviation (input) "EN_Acc_Charge \<equiv> 1 :: u32"
abbreviation (input) "EN_Acc_GM_Add \<equiv> 2 :: u32"
abbreviation (input) "EN_Acc_GM_Sub \<equiv> 3 :: u32"
abbreviation (input) "EN_Acc_Lip_Play \<equiv> 4 :: u32"
abbreviation (input) "EN_Acc_Lip_Retry \<equiv> 5 :: u32"
abbreviation (input) "EN_Acc_Lip_Win \<equiv> 6 :: u32"
abbreviation (input) "EN_Acc_Lip_Lottery \<equiv> 7 :: u32"
abbreviation (input) "EN_Acc_Lip_Buy \<equiv> 8 :: u32"
abbreviation (input) "EN_Acc_Game_Refund \<equiv> 9 :: u32"
abbreviation (input) "EN_Acc_Buy_In \<equiv> 10 :: u32"
abbreviation (input) "EN_Acc_Clear_Buy_In \<equiv> 11 :: u32"
abbreviation (input) "EN_Acc_Buy_In_Timeout \<equiv> 12 :: u32"

text \<open>The arguments of \<open>curl_point.sh\<close>: uid, number, reason.\<close>

record acct =
  ac_db :: pb_db_data
  ac_events :: "pb_event list"
  ac_points :: "(u64 \<times> u32 \<times> u32) list"

definition gold_event :: "(string \<times> u64) list \<Rightarrow> acct \<Rightarrow> acct" where
  "gold_event flds a = a\<lparr>ac_events := ac_events a @
     [\<lparr>ev_name = ''gold_account'', ev_num_fields = flds, ev_str_fields = []\<rparr>]\<rparr>"

definition upd_db :: "(pb_db_data \<Rightarrow> pb_db_data) \<Rightarrow> acct \<Rightarrow> acct" where
  "upd_db f a = a\<lparr>ac_db := f (ac_db a)\<rparr>"

subsection \<open>Reading\<close>

definition GetPlayerBuyIn_at :: "pb_db_data \<Rightarrow> u64 \<Rightarrow> u64" where
  "GetPlayerBuyIn_at d mid = (case find (\<lambda>b. by_machine_id b = mid) (gi_buy_ins (gold_info d)) of
     None \<Rightarrow> 0 | Some b \<Rightarrow> by_num b)"

definition GetPlayerBuyIn :: "pb_db_data \<Rightarrow> u64" where
  "GetPlayerBuyIn d = sum_list (map by_num (gi_buy_ins (gold_info d)))"

definition GetPlayerPrizeNum :: "pb_db_data \<Rightarrow> u32" where
  "GetPlayerPrizeNum d = sum_list (map pz_num (pi_prizes (prize_info d)))"

definition GetPlayerPrizeNum_of :: "pb_db_data \<Rightarrow> u64 \<Rightarrow> u32" where
  "GetPlayerPrizeNum_of d pid =
     sum_list (map pz_num (filter (\<lambda>p. pz_id p = pid) (pi_prizes (prize_info d))))"

definition SumRepeated32 :: "u32 list \<Rightarrow> nat \<Rightarrow> u32" where
  "SumRepeated32 xs start = sum_list (drop start xs)"

subsection \<open>Buy-ins\<close>

text \<open>Coins put into a machine come out of the gold. When the machine has a buy-in already the
  function returns before the event.\<close>

definition PlayerAddBuyIn :: "u32 \<Rightarrow> u64 \<Rightarrow> u64 \<Rightarrow> acct \<Rightarrow> u64 \<times> acct" where
  "PlayerAddBuyIn time num mid a =
     (let info = gold_info (ac_db a);
          num = (if num > gi_gold info then gi_gold info else num);
          info = info\<lparr>gi_gold := gi_gold info - num\<rparr>
      in case find (\<lambda>b. by_machine_id b = mid) (gi_buy_ins info) of
           Some b \<Rightarrow>
             (by_num b + num,
              upd_db (mut_gold_info (\<lambda>_. info\<lparr>gi_buy_ins := upd_first (\<lambda>b. by_machine_id b = mid)
                  (\<lambda>b. b\<lparr>by_num := by_num b + num, by_update_time := time\<rparr>) (gi_buy_ins info)\<rparr>)) a)
         | None \<Rightarrow>
             (let a = upd_db (mut_gold_info (\<lambda>_. info\<lparr>gi_buy_ins := gi_buy_ins info
                  @ [\<lparr>by_machine_id = mid, by_num = num, by_update_time = time\<rparr>]\<rparr>)) a
              in (num,
                  gold_event [(''player_id'', get0 (d_uid (ac_db a))), (''num'', 0), (''after_gold'', gi_gold info),
                    (''after_buy_in'', GetPlayerBuyIn (ac_db a)), (''reason'', ucast EN_Acc_Buy_In),
                    (''time'', ucast time)] a)))"

text \<open>The game takes coins out of the buy-in of its machine: at most what is there. When the
  player has no buy-in in the machine nothing is taken, and the event reports the cost all the
  same.\<close>

definition PlayerSubBuyIn :: "u32 \<Rightarrow> u32 \<Rightarrow> u64 \<Rightarrow> u64 \<Rightarrow> acct \<Rightarrow> u64 \<times> acct" where
  "PlayerSubBuyIn time reason cost mid a =
     (let a = upd_db (mut_gold_info (\<lambda>info. info)) a;
          info = gold_info (ac_db a);
          found = find (\<lambda>b. by_machine_id b = mid) (gi_buy_ins info);
          cost = (case found of None \<Rightarrow> cost | Some b \<Rightarrow> if cost > by_num b then by_num b else cost)
      in if found \<noteq> None \<and> cost = 0 then (by_num (the found), a)
         else
           let a = (case found of
                      None \<Rightarrow> a
                    | Some b \<Rightarrow> upd_db (mut_gold_info (\<lambda>_. info\<lparr>gi_total_consume := gi_total_consume info + cost,
                        gi_buy_ins := upd_first (\<lambda>b. by_machine_id b = mid)
                          (\<lambda>b. b\<lparr>by_num := by_num b - cost, by_update_time := time\<rparr>) (gi_buy_ins info)\<rparr>)) a);
               ret = (case found of None \<Rightarrow> 0 | Some b \<Rightarrow> by_num b - cost)
           in (ret,
               gold_event [(''player_id'', get0 (d_uid (ac_db a))), (''num'', - cost),
                 (''after_gold'', gi_gold info), (''after_buy_in'', GetPlayerBuyIn (ac_db a)),
                 (''reason'', ucast reason), (''time'', ucast time),
                 (''promoter_id'', bi_promoter_id (base_info (ac_db a)))] a))"

text \<open>Buy-ins not touched for ten minutes go back to the gold; the loop keeps its index when it
  deletes an entry.\<close>

fun timeout_loop :: "u32 \<Rightarrow> db_buy_in list \<Rightarrow> u64 \<Rightarrow> db_buy_in list \<times> u64 \<times> bool" where
  "timeout_loop time [] gold = ([], gold, False)"
| "timeout_loop time (b # bs) gold =
     (if by_update_time b + 600 \<le> time
      then (let (bs', gold', _) = timeout_loop time bs (gold + by_num b) in (bs', gold', True))
      else (let (bs', gold', ev) = timeout_loop time bs gold in (b # bs', gold', ev)))"

definition CheckPlayerBuyInTimeout :: "u32 \<Rightarrow> acct \<Rightarrow> acct" where
  "CheckPlayerBuyInTimeout time a =
     (let info = gold_info (ac_db a);
          (buy_ins, gold, need_event) = timeout_loop time (gi_buy_ins info) (gi_gold info)
      in if \<not> need_event then a
         else
           let a = upd_db (mut_gold_info (\<lambda>info. info\<lparr>gi_gold := gold, gi_buy_ins := buy_ins\<rparr>)) a
           in gold_event [(''player_id'', get0 (d_uid (ac_db a))), (''num'', 0), (''after_gold'', gold),
                (''after_buy_in'', GetPlayerBuyIn (ac_db a)), (''reason'', ucast EN_Acc_Buy_In_Timeout),
                (''time'', ucast time), (''promoter_id'', bi_promoter_id (base_info (ac_db a)))] a)"

definition PlayerClearBuyIn :: "u32 \<Rightarrow> u64 \<Rightarrow> acct \<Rightarrow> bool \<times> acct" where
  "PlayerClearBuyIn time mid a =
     (let a = upd_db (mut_gold_info (\<lambda>info. info)) a; info = gold_info (ac_db a)
      in case find (\<lambda>b. by_machine_id b = mid) (gi_buy_ins info) of
           None \<Rightarrow> (False, a)
         | Some b \<Rightarrow>
             (let gold = gi_gold info + by_num b;
                  a = upd_db (mut_gold_info (\<lambda>_. info\<lparr>gi_gold := gold,
                        gi_buy_ins := del_first (\<lambda>b. by_machine_id b = mid) (gi_buy_ins info)\<rparr>)) a
              in (True,
                  gold_event [(''player_id'', get0 (d_uid (ac_db a))), (''num'', 0), (''after_gold'', gold),
                    (''after_buy_in'', GetPlayerBuyIn (ac_db a)), (''reason'', ucast EN_Acc_Clear_Buy_In),
                    (''time'', ucast time)] a)))"

subsection \<open>Gold, prizes, awards\<close>

definition PlayerAddGold :: "u32 \<Rightarrow> u32 \<Rightarrow> u64 \<Rightarrow> u64 \<Rightarrow> acct \<Rightarrow> acct" where
  "PlayerAddGold time reason giving charge a =
     (let (giving, charge) = (if reason = EN_Acc_Lip_Lottery then (charge, giving) else (giving, charge));
          total = giving + charge
      in if total = 0 then a
         else
           let info = gold_info (ac_db a);
               info = info\<lparr>gi_gold := gi_gold info + total\<rparr>;
               info = (if giving \<noteq> 0 then info\<lparr>gi_total_giving := gi_total_giving info + giving\<rparr> else info);
               info = (if charge \<noteq> 0 then info\<lparr>gi_total_charge := gi_total_charge info + charge\<rparr> else info);
               (giving, info) =
                 (if reason = EN_Acc_Game_Refund
                  then (let g1 = (if giving > gi_total_consume info then gi_total_consume info else giving);
                            g2 = (if g1 > gi_total_giving info then gi_total_giving info else g1)
                        in (g2, info\<lparr>gi_total_consume := gi_total_consume info - g2,
                                     gi_total_giving := gi_total_giving info - g2\<rparr>))
                  else (giving, info));
               a = upd_db (mut_gold_info (\<lambda>_. info)) a
           in gold_event [(''player_id'', get0 (d_uid (ac_db a))), (''num'', total), (''charge_num'', charge),
                (''giving_num'', giving), (''after_gold'', gi_gold info),
                (''after_buy_in'', GetPlayerBuyIn (ac_db a)), (''reason'', ucast reason), (''time'', ucast time),
                (''promoter_id'', bi_promoter_id (base_info (ac_db a)))] a)"

definition PlayerSubGold :: "u32 \<Rightarrow> u32 \<Rightarrow> u64 \<Rightarrow> acct \<Rightarrow> u64 \<times> acct" where
  "PlayerSubGold time reason num a =
     (if num = 0 then (gi_gold (gold_info (ac_db a)), a)
      else
        let info = gold_info (ac_db a);
            num = (if num > gi_gold info then gi_gold info else num);
            info = info\<lparr>gi_gold := gi_gold info - num\<rparr>;
            info = (if reason \<noteq> EN_Acc_GM_Sub then info\<lparr>gi_total_consume := gi_total_consume info + num\<rparr> else info);
            a = upd_db (mut_gold_info (\<lambda>_. info)) a
        in (gi_gold info,
            gold_event [(''player_id'', get0 (d_uid (ac_db a))), (''num'', - num), (''after_gold'', gi_gold info),
              (''after_buy_in'', GetPlayerBuyIn (ac_db a)), (''reason'', ucast reason), (''time'', ucast time),
              (''promoter_id'', bi_promoter_id (base_info (ac_db a)))] a))"

definition prize_entry :: "u64 \<Rightarrow> u32 \<Rightarrow> db_prize" where
  "prize_entry pid num = \<lparr>pz_id = pid, pz_num = num, pz_rate = 0, pz_cost = 0, pz_tags = [], pz_sort = 0\<rparr>"

definition PlayerAddPrize :: "prize_cfg \<Rightarrow> u64 \<Rightarrow> u32 \<Rightarrow> acct \<Rightarrow> acct" where
  "PlayerAddPrize cfg pid num a =
     (let prizes = pi_prizes (prize_info (ac_db a));
          prizes = (if list_ex (\<lambda>p. pz_id p = pid) prizes
                    then upd_first (\<lambda>p. pz_id p = pid) (\<lambda>p. p\<lparr>pz_num := pz_num p + num\<rparr>) prizes
                    else prizes @ [prize_entry pid num]);
          a = upd_db (mut_prize_info (\<lambda>info. info\<lparr>pi_prizes := prizes\<rparr>)) a
      in case GetPrize pid cfg of
           None \<Rightarrow> a
         | Some (value, _) \<Rightarrow>
             upd_db (mut_gold_info (\<lambda>g. g\<lparr>gi_total_prize_value := gi_total_prize_value g + value\<rparr>)) a)"

definition PlayerSubPrize :: "u64 \<Rightarrow> u32 \<Rightarrow> acct \<Rightarrow> acct" where
  "PlayerSubPrize pid num a =
     upd_db (mut_prize_info (\<lambda>info. info\<lparr>pi_prizes :=
       (case find (\<lambda>p. pz_id p = pid) (pi_prizes info) of
          None \<Rightarrow> pi_prizes info
        | Some p \<Rightarrow>
            (let num = (if num > pz_num p then pz_num p else num)
             in if pz_num p - num = 0 then del_first (\<lambda>p. pz_id p = pid) (pi_prizes info)
                else upd_first (\<lambda>p. pz_id p = pid) (\<lambda>p. p\<lparr>pz_num := pz_num p - num\<rparr>) (pi_prizes info)))\<rparr>)) a"

definition PlayerAddPoint :: "u64 \<Rightarrow> u32 \<Rightarrow> u32 \<Rightarrow> acct \<Rightarrow> acct" where
  "PlayerAddPoint uid reason num a = a\<lparr>ac_points := ac_points a @ [(uid, num, reason)]\<rparr>"

definition PlayerAddAward :: "prize_cfg \<Rightarrow> u32 \<Rightarrow> u32 \<Rightarrow> pb_award \<Rightarrow> acct \<Rightarrow> acct" where
  "PlayerAddAward cfg time reason w a =
     (if aw_type w = EN_Award_Gold then PlayerAddGold time reason (aw_giving_num w) (aw_charge_num w) a
      else if aw_type w = EN_Award_Prize then PlayerAddPrize cfg (aw_id w) (ucast (aw_giving_num w)) a
      else if aw_type w = EN_Award_Point
        then PlayerAddPoint (get0 (d_uid (ac_db a))) reason (ucast (aw_giving_num w))
               (upd_db (mut_gold_info (\<lambda>info. info)) a)
      else a)"

definition PlayerAddAwards :: "prize_cfg \<Rightarrow> u32 \<Rightarrow> u32 \<Rightarrow> pb_award list \<Rightarrow> acct \<Rightarrow> acct" where
  "PlayerAddAwards cfg time reason ws a = foldl (\<lambda>a w. PlayerAddAward cfg time reason w a) a ws"

subsection \<open>The ledger\<close>

text \<open>What a player owns in coins, and what the account events say it changed by.\<close>

definition wealth :: "pb_db_data \<Rightarrow> u64" where
  "wealth d = gi_gold (gold_info d) + GetPlayerBuyIn d"

definition ev_num :: "string \<Rightarrow> pb_event \<Rightarrow> u64" where
  "ev_num key e = (case map_of (ev_num_fields e) key of None \<Rightarrow> 0 | Some v \<Rightarrow> v)"

definition ledger :: "pb_event list \<Rightarrow> u64" where
  "ledger es = sum_list (map (ev_num ''num'') es)"

lemma ledger_append [simp]: "ledger (es @ fs) = ledger es + ledger fs"
  by (simp add: ledger_def)

lemma ledger_Nil [simp]: "ledger [] = 0"
  by (simp add: ledger_def)

lemma acct_sel [simp]:
  "ac_db (upd_db f a) = f (ac_db a)" "ac_events (upd_db f a) = ac_events a"
  "ac_db (gold_event flds a) = ac_db a" "ac_points (upd_db f a) = ac_points a"
  "ac_points (gold_event flds a) = ac_points a"
  by (simp_all add: upd_db_def gold_event_def)

lemma ledger_gold_event [simp]:
  "ledger (ac_events (gold_event flds a)) = ledger (ac_events a) + (case map_of flds ''num'' of None \<Rightarrow> 0 | Some v \<Rightarrow> v)"
  by (simp add: gold_event_def ledger_def ev_num_def)

lemma wealth_mut_gold [simp]:
  "wealth (mut_gold_info f d) = gi_gold (f (gold_info d)) + sum_list (map by_num (gi_buy_ins (f (gold_info d))))"
  by (simp add: wealth_def GetPlayerBuyIn_def)

lemma wealth_mut_prize [simp]: "wealth (mut_prize_info f d) = wealth d"
  by (simp add: wealth_def GetPlayerBuyIn_def)

lemma wealth_alt: "wealth d = gi_gold (gold_info d) + sum_list (map by_num (gi_buy_ins (gold_info d)))"
  by (simp add: wealth_def GetPlayerBuyIn_def)

text \<open>\<open>balanced a a'\<close>: the coins changed by what the new events report.\<close>

definition balanced :: "acct \<Rightarrow> acct \<Rightarrow> bool" where
  "balanced a a' \<longleftrightarrow> wealth (ac_db a') - ledger (ac_events a') = wealth (ac_db a) - ledger (ac_events a)"

lemma balanced_refl [simp]: "balanced a a"
  by (simp add: balanced_def)

lemma balanced_trans [trans]: "balanced a b \<Longrightarrow> balanced b c \<Longrightarrow> balanced a c"
  by (simp add: balanced_def)

lemma balanced_AddBuyIn: "balanced a (snd (PlayerAddBuyIn time num mid a))"
proof (cases "find (\<lambda>b. by_machine_id b = mid) (gi_buy_ins (gold_info (ac_db a)))")
  case None
  then show ?thesis
    by (auto simp: PlayerAddBuyIn_def Let_def balanced_def wealth_alt ev_num_def)
next
  case (Some b)
  then show ?thesis
    by (auto simp: PlayerAddBuyIn_def Let_def balanced_def wealth_alt sum_upd_first [OF Some])
qed

lemma balanced_SubBuyIn:
  assumes "find (\<lambda>b. by_machine_id b = mid) (gi_buy_ins (gold_info (ac_db a))) \<noteq> None"
  shows "balanced a (snd (PlayerSubBuyIn time reason cost mid a))"
proof -
  obtain b where b: "find (\<lambda>b. by_machine_id b = mid) (gi_buy_ins (gold_info (ac_db a))) = Some b"
    using assms by blast
  then show ?thesis
    by (auto simp: PlayerSubBuyIn_def Let_def balanced_def wealth_alt ev_num_def sum_upd_first [OF b])
qed

lemma timeout_loop_spec:
  "timeout_loop time bs gold = (bs', gold', ev) \<Longrightarrow>
     bs' = filter (\<lambda>b. \<not> by_update_time b + 600 \<le> time) bs
     \<and> gold' + sum_list (map by_num bs') = gold + sum_list (map by_num bs)
     \<and> (ev \<longleftrightarrow> list_ex (\<lambda>b. by_update_time b + 600 \<le> time) bs)"
proof (induction bs arbitrary: gold bs' gold' ev)
  case (Cons b bs)
  show ?case
  proof (cases "by_update_time b + 600 \<le> time")
    case True
    obtain g' ev1 where r: "timeout_loop time bs (gold + by_num b) = (bs', g', ev1)"
      using Cons.prems True by (auto split: prod.splits)
    from Cons.IH [OF r] Cons.prems True r show ?thesis by (auto simp: algebra_simps)
  next
    case False
    obtain bs1 where r: "timeout_loop time bs gold = (bs1, gold', ev)" "bs' = b # bs1"
      using Cons.prems False by (auto split: prod.splits)
    from Cons.IH [OF r(1)] False r(2) show ?thesis by (auto simp: algebra_simps)
  qed
qed auto

lemma balanced_Timeout: "balanced a (CheckPlayerBuyInTimeout time a)"
proof -
  obtain bs g ev where r: "timeout_loop time (gi_buy_ins (gold_info (ac_db a))) (gi_gold (gold_info (ac_db a))) = (bs, g, ev)"
    by (metis prod_cases3)
  from timeout_loop_spec [OF r] r show ?thesis
    by (auto simp: CheckPlayerBuyInTimeout_def Let_def balanced_def wealth_alt ev_num_def)
qed

lemma balanced_ClearBuyIn: "balanced a (snd (PlayerClearBuyIn time mid a))"
proof (cases "find (\<lambda>b. by_machine_id b = mid) (gi_buy_ins (gold_info (ac_db a)))")
  case None
  then show ?thesis by (simp add: PlayerClearBuyIn_def Let_def balanced_def wealth_alt)
next
  case (Some b)
  then show ?thesis
    by (simp add: PlayerClearBuyIn_def Let_def balanced_def wealth_alt ev_num_def sum_del_first [OF Some])
qed

lemma balanced_AddGold: "balanced a (PlayerAddGold time reason giving charge a)"
  by (simp add: PlayerAddGold_def Let_def balanced_def wealth_alt ev_num_def)

lemma balanced_SubGold: "balanced a (snd (PlayerSubGold time reason num a))"
  by (simp add: PlayerSubGold_def Let_def balanced_def wealth_alt ev_num_def)

lemma balanced_AddPrize: "balanced a (PlayerAddPrize cfg pid num a)"
  by (simp add: PlayerAddPrize_def Let_def balanced_def wealth_alt split: option.split prod.split)

lemma balanced_SubPrize: "balanced a (PlayerSubPrize pid num a)"
  by (simp add: PlayerSubPrize_def balanced_def)

lemma balanced_AddAward: "balanced a (PlayerAddAward cfg time reason w a)"
  using balanced_AddGold balanced_AddPrize
  by (simp add: PlayerAddAward_def PlayerAddPoint_def) (simp add: balanced_def wealth_alt)

lemma balanced_AddAwards: "balanced a (PlayerAddAwards cfg time reason ws a)"
  unfolding PlayerAddAwards_def
proof (induction ws arbitrary: a)
  case (Cons w ws)
  then show ?case using balanced_trans [OF balanced_AddAward Cons.IH] by simp
qed simp

subsection \<open>Properties\<close>

datatype acct_op =
    OpAddBuyIn u32 u64 u64 | OpSubBuyIn u32 u32 u64 u64 | OpTimeout u32 | OpClearBuyIn u32 u64
  | OpAddAwards u32 u32 "pb_award list" | OpAddGold u32 u32 u64 u64 | OpSubGold u32 u32 u64
  | OpAddPrize u64 u32 | OpSubPrize u64 u32

primrec run_acct_op :: "prize_cfg \<Rightarrow> acct_op \<Rightarrow> acct \<Rightarrow> acct" where
  "run_acct_op cfg (OpAddBuyIn time num mid) a = snd (PlayerAddBuyIn time num mid a)"
| "run_acct_op cfg (OpSubBuyIn time reason cost mid) a = snd (PlayerSubBuyIn time reason cost mid a)"
| "run_acct_op cfg (OpTimeout time) a = CheckPlayerBuyInTimeout time a"
| "run_acct_op cfg (OpClearBuyIn time mid) a = snd (PlayerClearBuyIn time mid a)"
| "run_acct_op cfg (OpAddAwards time reason ws) a = PlayerAddAwards cfg time reason ws a"
| "run_acct_op cfg (OpAddGold time reason giving charge) a = PlayerAddGold time reason giving charge a"
| "run_acct_op cfg (OpSubGold time reason num) a = snd (PlayerSubGold time reason num a)"
| "run_acct_op cfg (OpAddPrize pid num) a = PlayerAddPrize cfg pid num a"
| "run_acct_op cfg (OpSubPrize pid num) a = PlayerSubPrize pid num a"

lemma balanced_op:
  assumes "case op of OpSubBuyIn _ _ _ mid \<Rightarrow> list_ex (\<lambda>b. by_machine_id b = mid) (gi_buy_ins (gold_info (ac_db a)))
      | _ \<Rightarrow> True"
  shows "balanced a (run_acct_op cfg op a)"
proof (cases op)
  case (OpSubBuyIn time reason cost mid)
  with assms have "find (\<lambda>b. by_machine_id b = mid) (gi_buy_ins (gold_info (ac_db a))) \<noteq> None"
    using find_None_iff_ex by auto
  from balanced_SubBuyIn [OF this] OpSubBuyIn show ?thesis by simp
qed (simp_all add: balanced_AddBuyIn balanced_Timeout balanced_ClearBuyIn balanced_AddAwards
      balanced_AddGold balanced_SubGold balanced_AddPrize balanced_SubPrize)

text \<open>What the events of charges without a buy-in say too much.\<close>

fun phantom :: "prize_cfg \<Rightarrow> acct_op list \<Rightarrow> acct \<Rightarrow> u64" where
  "phantom cfg [] a = 0"
| "phantom cfg (op # ops) a =
     (case op of OpSubBuyIn _ _ cost mid \<Rightarrow> if list_ex (\<lambda>b. by_machine_id b = mid) (gi_buy_ins (gold_info (ac_db a))) then 0 else cost
      | _ \<Rightarrow> 0) + phantom cfg ops (run_acct_op cfg op a)"

definition books :: "acct \<Rightarrow> u64" where
  "books a = wealth (ac_db a) - ledger (ac_events a)"

lemma books_op: "books (run_acct_op cfg op a) = books a + phantom cfg [op] a"
proof (cases "\<exists>time reason cost mid. op = OpSubBuyIn time reason cost mid
    \<and> \<not> list_ex (\<lambda>b. by_machine_id b = mid) (gi_buy_ins (gold_info (ac_db a)))")
  case True
  then obtain time reason cost mid where op: "op = OpSubBuyIn time reason cost mid"
    "\<not> list_ex (\<lambda>b. by_machine_id b = mid) (gi_buy_ins (gold_info (ac_db a)))" by blast
  then have "find (\<lambda>b. by_machine_id b = mid) (gi_buy_ins (gold_info (ac_db a))) = None" using find_None_iff_ex by auto
  with op show ?thesis by (simp add: books_def PlayerSubBuyIn_def Let_def wealth_alt)
next
  case False
  then have "balanced a (run_acct_op cfg op a)" by (intro balanced_op) (auto split: acct_op.split)
  moreover have "phantom cfg [op] a = 0" using False by (auto split: acct_op.split)
  ultimately show ?thesis by (simp add: books_def balanced_def)
qed

text \<open>Property C5. The books: over any sequence of account operations the player's coins, gold and coins in machines
  together, change by exactly the sum of the numbers in the gold_account events that were logged,
  but for the costs of the charges that met no buy-in of their machine: those are logged though nothing is
  taken.\<close>

theorem ledger_balances:
  "wealth (ac_db (foldl (\<lambda>a op. run_acct_op cfg op a) a ops)) + ledger (ac_events a)
   = wealth (ac_db a) + ledger (ac_events (foldl (\<lambda>a op. run_acct_op cfg op a) a ops)) + phantom cfg ops a"
proof -
  have "books (foldl (\<lambda>a op. run_acct_op cfg op a) a ops) = books a + phantom cfg ops a"
  proof (induction ops arbitrary: a)
    case (Cons op ops)
    then show ?case using books_op [of cfg op a] by (simp add: algebra_simps)
  qed simp
  then show ?thesis unfolding books_def by (simp add: diff_eq_eq algebra_simps)
qed

definition acct0 :: acct where
  "acct0 = \<lparr>ac_db = mut_gold_info (\<lambda>g. g\<lparr>gi_gold := 100\<rparr>) (pb_db_data0\<lparr>d_uid := Some 7\<rparr>), ac_events = [], ac_points = []\<rparr>"

lemma acct0_gold [simp]: "gold_info (ac_db acct0) = db_gold_info0\<lparr>gi_gold := 100\<rparr>" "ac_events acct0 = []"
  "ac_points acct0 = []" "d_uid (ac_db acct0) = Some 7"
  by (simp_all add: acct0_def) (simp add: gold_info_def pb_db_data0_def)

lemma ledger_balances_witness:
  "let a = foldl (\<lambda>a op. run_acct_op (\<lambda>_. None) op a) acct0
       [OpAddBuyIn 50 30 9, OpSubBuyIn 51 EN_Acc_Lip_Play 20 9, OpClearBuyIn 52 9, OpSubBuyIn 53 EN_Acc_Lip_Play 20 9]
   in wealth (ac_db a) = 100 + ledger (ac_events a) + 20"
proof -
  have "phantom (\<lambda>_. None) [OpAddBuyIn 50 30 9, OpSubBuyIn 51 EN_Acc_Lip_Play 20 9, OpClearBuyIn 52 9, OpSubBuyIn 53 EN_Acc_Lip_Play 20 9] acct0 = 20"
    by (simp add: PlayerAddBuyIn_def PlayerSubBuyIn_def PlayerClearBuyIn_def Let_def db_gold_info0_def)
  with ledger_balances [of "\<lambda>_. None" acct0 "[OpAddBuyIn 50 30 9, OpSubBuyIn 51 EN_Acc_Lip_Play 20 9, OpClearBuyIn 52 9, OpSubBuyIn 53 EN_Acc_Lip_Play 20 9]"]
  show ?thesis by (simp add: wealth_alt db_gold_info0_def Let_def)
qed

lemma upd_first_nth:
  "find P xs = Some x \<Longrightarrow> \<exists>k<length xs. xs ! k = x \<and> (\<forall>j<k. \<not> P (xs ! j)) \<and> (\<forall>f. upd_first P f xs = xs[k := f x])"
proof (induction xs)
  case (Cons y ys)
  show ?case
  proof (cases "P y")
    case True
    with Cons.prems show ?thesis by (intro exI [of _ 0]) simp
  next
    case False
    with Cons obtain k where "k < length ys" "ys ! k = x" "\<forall>j<k. \<not> P (ys ! j)" "\<forall>f. upd_first P f ys = ys[k := f x]" by auto
    with False show ?thesis by (intro exI [of _ "Suc k"]) (auto simp: less_Suc_eq_0_disj)
  qed
qed simp

lemma mut_gold_info_twice: "mut_gold_info f (mut_gold_info g d) = mut_gold_info (f \<circ> g) d"
  by (simp add: proto_simps)

lemma mut_gold_info_cong: "f (gold_info d) = g (gold_info d) \<Longrightarrow> mut_gold_info f d = mut_gold_info g d"
  by (simp add: mut_gold_info_def)

text \<open>Property C35. Charging a game that has a buy-in in its machine never takes more than the buy-in holds: its entry, the first of
  the machine, goes down by the smaller of cost and content and takes the time, the consumed total goes up by the same,
  nothing else of the player changes, one event reports it (none when nothing is taken), and the
  answer is what is left.\<close>

theorem PlayerSubBuyIn_capped:
  assumes "find (\<lambda>b. by_machine_id b = mid) (gi_buy_ins (gold_info (ac_db a))) = Some b"
    and "PlayerSubBuyIn time reason cost mid a = (left, a')"
  shows "unat left = unat (by_num b) - min (unat cost) (unat (by_num b))
    \<and> (\<exists>k. k < length (gi_buy_ins (gold_info (ac_db a))) \<and> gi_buy_ins (gold_info (ac_db a)) ! k = b
        \<and> (\<forall>j<k. by_machine_id (gi_buy_ins (gold_info (ac_db a)) ! j) \<noteq> mid)
        \<and> ac_db a' = mut_gold_info (\<lambda>g. g\<lparr>gi_total_consume := gi_total_consume g + (by_num b - left),
            gi_buy_ins := (gi_buy_ins g)[k := b\<lparr>by_num := left,
              by_update_time := if left = by_num b then by_update_time b else time\<rparr>]\<rparr>) (ac_db a))
    \<and> ac_points a' = ac_points a
    \<and> (\<exists>es. ac_events a' = ac_events a @ es \<and> length es = (if left = by_num b then 0 else 1) \<and> ledger es = left - by_num b)"
proof -
  define c where "c = (if cost > by_num b then by_num b else cost)"
  have c: "c \<le> by_num b" "unat c = min (unat cost) (unat (by_num b))"
    by (auto simp: c_def word_le_nat_alt word_less_nat_alt min_def)
  have left: "left = by_num b - c"
    using assms(2) by (auto simp: PlayerSubBuyIn_def Let_def assms(1) split: if_splits simp flip: c_def)
  have u: "unat left = unat (by_num b) - unat c" unfolding left using c(1) by (simp add: unat_sub)
  have z: "left = by_num b \<longleftrightarrow> c = 0" by (simp add: left)
  obtain k where k: "k < length (gi_buy_ins (gold_info (ac_db a)))" "gi_buy_ins (gold_info (ac_db a)) ! k = b"
    "\<forall>j<k. by_machine_id (gi_buy_ins (gold_info (ac_db a)) ! j) \<noteq> mid"
    "\<And>f. upd_first (\<lambda>b. by_machine_id b = mid) f (gi_buy_ins (gold_info (ac_db a))) = (gi_buy_ins (gold_info (ac_db a)))[k := f b]"
    using upd_first_nth [OF assms(1)] by blast
  have same: "(gi_buy_ins (gold_info (ac_db a)))[k := b] = gi_buy_ins (gold_info (ac_db a))" using k(2) by (metis list_update_id)
  have "ac_db a' = mut_gold_info (\<lambda>g. g\<lparr>gi_total_consume := gi_total_consume g + c, gi_buy_ins := (gi_buy_ins g)[k := b\<lparr>by_num := by_num b - c,
         by_update_time := if c = 0 then by_update_time b else time\<rparr>]\<rparr>) (ac_db a)"
    using assms(2) k(4) same
    by (auto simp: PlayerSubBuyIn_def Let_def assms(1) mut_gold_info_twice comp_def split: if_splits simp flip: c_def
        intro!: mut_gold_info_cong)
  moreover have "ac_points a' = ac_points a"
    "\<exists>es. ac_events a' = ac_events a @ es \<and> length es = (if c = 0 then 0 else 1) \<and> ledger es = - c"
    using assms(2)
    by (auto simp: PlayerSubBuyIn_def Let_def assms(1) gold_event_def upd_db_def
        ledger_def ev_num_def split: if_splits simp flip: c_def)
  moreover have "by_num b - left = c" "left - by_num b = - c" by (simp_all add: left)
  ultimately show ?thesis using u c(2) k(1-3) z by (auto simp: left)
qed

definition acct_in :: acct where
  "acct_in = snd (PlayerAddBuyIn 50 30 9 acct0)"

lemma acct_in_gold: "gold_info (ac_db acct_in) = db_gold_info0\<lparr>gi_gold := 70,
    gi_buy_ins := [\<lparr>by_machine_id = 9, by_num = 30, by_update_time = 50\<rparr>]\<rparr>"
  by (simp add: acct_in_def PlayerAddBuyIn_def Let_def db_gold_info0_def)

lemma PlayerSubBuyIn_capped_witness:
  "fst (PlayerSubBuyIn 51 EN_Acc_Lip_Play 45 9 acct_in) = 0
   \<and> gi_total_consume (gold_info (ac_db (snd (PlayerSubBuyIn 51 EN_Acc_Lip_Play 45 9 acct_in)))) = 30"
proof -
  have f: "find (\<lambda>b. by_machine_id b = 9) (gi_buy_ins (gold_info (ac_db acct_in)))
      = Some \<lparr>by_machine_id = 9, by_num = 30, by_update_time = 50\<rparr>" by (simp add: acct_in_gold)
  let ?r = "PlayerSubBuyIn 51 EN_Acc_Lip_Play 45 9 acct_in"
  have "?r = (fst ?r, snd ?r)" by simp
  note s = PlayerSubBuyIn_capped [OF f this]
  then have z: "fst ?r = 0" by (simp add: unat_eq_0)
  have "gi_total_consume (gold_info (ac_db (snd ?r))) = gi_total_consume (gold_info (ac_db acct_in)) + (30 - fst ?r)"
    using s by (elim conjE exE) simp
  with z show ?thesis by (simp add: acct_in_gold db_gold_info0_def)
qed

text \<open>Charging a machine the player has put no coins into takes nothing, yet logs a
  gold_account event over the full cost: the books and the player's coins then differ by it.\<close>

theorem PlayerSubBuyIn_phantom:
  assumes "find (\<lambda>b. by_machine_id b = mid) (gi_buy_ins (gold_info (ac_db a))) = None"
  shows "\<exists>a'. PlayerSubBuyIn time reason cost mid a = (0, a') \<and> wealth (ac_db a') = wealth (ac_db a)
    \<and> ledger (ac_events a') = ledger (ac_events a) - cost"
  using assms by (auto simp: PlayerSubBuyIn_def Let_def wealth_alt)

lemma PlayerSubBuyIn_phantom_witness:
  "\<exists>a'. PlayerSubBuyIn 51 EN_Acc_Lip_Play 45 8 acct_in = (0, a') \<and> wealth (ac_db a') = 100
     \<and> ledger (ac_events a') = ledger (ac_events acct_in) - 45"
proof -
  have f: "find (\<lambda>b. by_machine_id b = 8) (gi_buy_ins (gold_info (ac_db acct_in))) = None"
    by (simp add: acct_in_gold)
  have "wealth (ac_db acct_in) = 100" by (simp add: wealth_alt acct_in_gold db_gold_info0_def)
  with PlayerSubBuyIn_phantom [OF f] show ?thesis by metis
qed

lemma find_append_new: "find P xs = None \<Longrightarrow> P x \<Longrightarrow> find P (xs @ [x]) = Some x"
  by (induction xs) (auto split: if_splits)

text \<open>Putting coins into a machine moves the smaller of the number and the gold from
  the gold to the buy-in of that machine, whether or not it was there before; the answer is the
  buy-in after, and the buy-ins of other machines stay.\<close>

theorem PlayerAddBuyIn_moves:
  "case PlayerAddBuyIn time num mid a of (ret, a') \<Rightarrow>
     ret = GetPlayerBuyIn_at (ac_db a') mid
     \<and> unat (gi_gold (gold_info (ac_db a'))) = unat (gi_gold (gold_info (ac_db a))) - min (unat num) (unat (gi_gold (gold_info (ac_db a))))
     \<and> GetPlayerBuyIn_at (ac_db a') mid
         = GetPlayerBuyIn_at (ac_db a) mid + (gi_gold (gold_info (ac_db a)) - gi_gold (gold_info (ac_db a')))
     \<and> (\<forall>m. m \<noteq> mid \<longrightarrow> GetPlayerBuyIn_at (ac_db a') m = GetPlayerBuyIn_at (ac_db a) m)
     \<and> wealth (ac_db a') = wealth (ac_db a)"
proof -
  define g where "g = gold_info (ac_db a)"
  define n where "n = (if num > gi_gold g then gi_gold g else num)"
  have "n \<le> gi_gold g" "unat n = min (unat num) (unat (gi_gold g))"
    by (auto simp: n_def word_le_nat_alt word_less_nat_alt min_def)
  then have u: "unat (gi_gold g - n) = unat (gi_gold g) - min (unat num) (unat (gi_gold g))"
    by (simp add: unat_sub)
  let ?f = "\<lambda>b. b\<lparr>by_num := by_num b + n, by_update_time := time\<rparr>"
  show ?thesis
  proof (cases "find (\<lambda>b. by_machine_id b = mid) (gi_buy_ins g)")
    case None
    have other: "m \<noteq> mid \<Longrightarrow> find (\<lambda>b. by_machine_id b = m) (bs @ [\<lparr>by_machine_id = mid, by_num = n, by_update_time = time\<rparr>])
        = find (\<lambda>b. by_machine_id b = m) bs" for m bs
      by (induction bs) auto
    have new: "find (\<lambda>b. by_machine_id b = mid) (gi_buy_ins g @ [\<lparr>by_machine_id = mid, by_num = n, by_update_time = time\<rparr>])
        = Some \<lparr>by_machine_id = mid, by_num = n, by_update_time = time\<rparr>"
      using None by (rule find_append_new) simp
    show ?thesis
      using None u other new
      by (simp add: PlayerAddBuyIn_def Let_def GetPlayerBuyIn_at_def wealth_alt flip: g_def n_def)
  next
    case (Some b)
    then have mid: "by_machine_id b = mid" by (auto simp: find_Some_iff)
    have other: "find (\<lambda>b. by_machine_id b = m) (upd_first (\<lambda>b. by_machine_id b = mid) ?f (gi_buy_ins g))
        = find (\<lambda>b. by_machine_id b = m) (gi_buy_ins g)" if "m \<noteq> mid" for m
      using that by (intro find_upd_first_other) auto
    show ?thesis
      using Some u other find_upd_first [OF Some, of ?f] mid sum_upd_first [OF Some, of by_num ?f]
      by (simp add: PlayerAddBuyIn_def Let_def GetPlayerBuyIn_at_def wealth_alt flip: g_def n_def)
  qed
qed

lemma PlayerAddBuyIn_moves_witness:
  "unat (gi_gold (gold_info (ac_db (snd (PlayerAddBuyIn 50 300 9 acct0))))) = 0
   \<and> GetPlayerBuyIn_at (ac_db (snd (PlayerAddBuyIn 50 300 9 acct0))) 8 = GetPlayerBuyIn_at (ac_db acct0) 8"
proof -
  obtain ret a' where r: "PlayerAddBuyIn 50 300 9 acct0 = (ret, a')" by (rule prod.exhaust)
  have "(8::u64) \<noteq> 9" by simp
  with PlayerAddBuyIn_moves [where time = 50 and num = 300 and mid = 9 and a = acct0] r show ?thesis by (simp add: db_gold_info0_def)
qed

text \<open>The timeout check gives back exactly the buy-ins not touched for ten minutes:
  they disappear, the others stay in their order, no coin is lost, and an event is logged when
  and only when something was given back.\<close>

theorem CheckPlayerBuyInTimeout_refunds:
  "gi_buy_ins (gold_info (ac_db (CheckPlayerBuyInTimeout time a)))
     = filter (\<lambda>b. \<not> by_update_time b + 600 \<le> time) (gi_buy_ins (gold_info (ac_db a)))
   \<and> wealth (ac_db (CheckPlayerBuyInTimeout time a)) = wealth (ac_db a)
   \<and> length (ac_events (CheckPlayerBuyInTimeout time a)) = length (ac_events a)
       + (if list_ex (\<lambda>b. by_update_time b + 600 \<le> time) (gi_buy_ins (gold_info (ac_db a))) then 1 else 0)"
proof -
  obtain bs g ev where r: "timeout_loop time (gi_buy_ins (gold_info (ac_db a))) (gi_gold (gold_info (ac_db a))) = (bs, g, ev)"
    by (metis prod_cases3)
  from timeout_loop_spec [OF r]
  have S: "bs = filter (\<lambda>b. \<not> by_update_time b + 600 \<le> time) (gi_buy_ins (gold_info (ac_db a)))"
    "g + sum_list (map by_num bs) = wealth (ac_db a)"
    "ev = list_ex (\<lambda>b. by_update_time b + 600 \<le> time) (gi_buy_ins (gold_info (ac_db a)))"
    unfolding wealth_alt by blast+
  show ?thesis
  proof (cases ev)
    case True
    have db: "gold_info (ac_db (CheckPlayerBuyInTimeout time a)) = (gold_info (ac_db a))\<lparr>gi_gold := g, gi_buy_ins := bs\<rparr>"
      "length (ac_events (CheckPlayerBuyInTimeout time a)) = Suc (length (ac_events a))"
      using True r by (simp_all add: CheckPlayerBuyInTimeout_def Let_def gold_event_def upd_db_def)
    show ?thesis using True S unfolding wealth_alt db by simp
  next
    case False
    then have "filter (\<lambda>b. \<not> by_update_time b + 600 \<le> time) (gi_buy_ins (gold_info (ac_db a))) = gi_buy_ins (gold_info (ac_db a))"
      using S by (auto simp: filter_id_conv list_ex_iff)
    then show ?thesis using False S r by (simp add: CheckPlayerBuyInTimeout_def)
  qed
qed

lemma prize_num_find:
  "distinct (map pz_id ps) \<Longrightarrow> sum_list (map pz_num (filter (\<lambda>p. pz_id p = pid) ps))
     = (case find (\<lambda>p. pz_id p = pid) ps of None \<Rightarrow> 0 | Some p \<Rightarrow> pz_num p)"
proof (induction ps)
  case (Cons p ps)
  have "filter (\<lambda>q. pz_id q = pz_id p) ps = []"
    using Cons.prems by (auto simp: filter_empty_conv image_iff)
  with Cons show ?case by auto
qed simp

definition prizes_ok :: "pb_db_data \<Rightarrow> bool" where
  "prizes_ok d \<longleftrightarrow> distinct (map pz_id (pi_prizes (prize_info d)))"

lemma PlayerAddPrize_prizes:
  "prize_info (ac_db (PlayerAddPrize cfg pid num a)) = (prize_info (ac_db a))\<lparr>pi_prizes :=
     (if list_ex (\<lambda>p. pz_id p = pid) (pi_prizes (prize_info (ac_db a)))
      then upd_first (\<lambda>p. pz_id p = pid) (\<lambda>p. p\<lparr>pz_num := pz_num p + num\<rparr>) (pi_prizes (prize_info (ac_db a)))
      else pi_prizes (prize_info (ac_db a)) @ [prize_entry pid num])\<rparr>"
  by (simp add: PlayerAddPrize_def Let_def split: option.split prod.split)

lemma del_first_distinct: "distinct (map f xs) \<Longrightarrow> distinct (map f (del_first P xs))"
proof (induction xs)
  case (Cons x xs)
  have "set (del_first P xs) \<subseteq> set xs" by (induction xs) auto
  with Cons show ?case by auto
qed simp

text \<open>Prizes are counted per id: adding adds to that id alone (a new entry if it has
  none), taking away takes at most what is there and drops an entry that reaches zero; ids stay
  unique.\<close>

theorem prize_counts:
  assumes "prizes_ok (ac_db a)"
  shows "prizes_ok (ac_db (PlayerAddPrize cfg pid num a)) \<and> prizes_ok (ac_db (PlayerSubPrize pid num a))
    \<and> GetPlayerPrizeNum_of (ac_db (PlayerAddPrize cfg pid num a)) pid = GetPlayerPrizeNum_of (ac_db a) pid + num
    \<and> unat (GetPlayerPrizeNum_of (ac_db (PlayerSubPrize pid num a)) pid)
        = unat (GetPlayerPrizeNum_of (ac_db a) pid) - min (unat num) (unat (GetPlayerPrizeNum_of (ac_db a) pid))
    \<and> (\<forall>q. q \<noteq> pid \<longrightarrow> GetPlayerPrizeNum_of (ac_db (PlayerAddPrize cfg pid num a)) q = GetPlayerPrizeNum_of (ac_db a) q
          \<and> GetPlayerPrizeNum_of (ac_db (PlayerSubPrize pid num a)) q = GetPlayerPrizeNum_of (ac_db a) q)"
proof -
  define ps where "ps = pi_prizes (prize_info (ac_db a))"
  have d: "distinct (map pz_id ps)" using assms by (simp add: prizes_ok_def ps_def)
  have num: "GetPlayerPrizeNum_of x q = (case find (\<lambda>p. pz_id p = q) (pi_prizes (prize_info x)) of None \<Rightarrow> 0 | Some p \<Rightarrow> pz_num p)"
    if "prizes_ok x" for x q
    using prize_num_find that by (simp add: GetPlayerPrizeNum_of_def prizes_ok_def)
  define add where "add = (if list_ex (\<lambda>p. pz_id p = pid) ps
      then upd_first (\<lambda>p. pz_id p = pid) (\<lambda>p. p\<lparr>pz_num := pz_num p + num\<rparr>) ps else ps @ [prize_entry pid num])"
  have A: "pi_prizes (prize_info (ac_db (PlayerAddPrize cfg pid num a))) = add"
    by (simp add: PlayerAddPrize_prizes add_def ps_def)
  have "map pz_id add = (if list_ex (\<lambda>p. pz_id p = pid) ps then map pz_id ps else map pz_id ps @ [pid])"
    by (simp add: add_def map_upd_first prize_entry_def)
  then have okA: "prizes_ok (ac_db (PlayerAddPrize cfg pid num a))"
    using d unfolding prizes_ok_def A by (auto simp: list_ex_iff)
  define c where "c p = (if num > pz_num p then pz_num p else num)" for p :: db_prize
  have c: "unat (pz_num p - c p) = unat (pz_num p) - min (unat num) (unat (pz_num p))" for p
    by (auto simp: c_def word_less_nat_alt min_def unat_sub word_le_nat_alt)
  define sub where "sub = (case find (\<lambda>p. pz_id p = pid) ps of None \<Rightarrow> ps
      | Some p \<Rightarrow> if pz_num p - c p = 0 then del_first (\<lambda>p. pz_id p = pid) ps
          else upd_first (\<lambda>p. pz_id p = pid) (\<lambda>x. x\<lparr>pz_num := pz_num x - c p\<rparr>) ps)"
  have S: "pi_prizes (prize_info (ac_db (PlayerSubPrize pid num a))) = sub"
    by (simp add: PlayerSubPrize_def sub_def Let_def ps_def c_def split: option.split)
  have okS: "prizes_ok (ac_db (PlayerSubPrize pid num a))"
    using d unfolding prizes_ok_def S sub_def
    by (auto simp: map_upd_first del_first_distinct split: option.split)
  have fapp: "find (\<lambda>p. pz_id p = q) (xs @ [prize_entry pid num])
      = (case find (\<lambda>p. pz_id p = q) xs of Some p \<Rightarrow> Some p | None \<Rightarrow> if q = pid then Some (prize_entry pid num) else None)"
    for q xs by (induction xs) (auto simp: prize_entry_def)
  show ?thesis
  proof (cases "find (\<lambda>p. pz_id p = pid) ps")
    case None
    then have e: "\<not> list_ex (\<lambda>p. pz_id p = pid) ps" using find_None_iff_ex by blast
    have pe: "pz_num (prize_entry pid num) = num" by (simp add: prize_entry_def)
    show ?thesis
      using okA okS None e c num [OF okA] num [OF okS] num [OF assms]
      by (auto simp: A S add_def sub_def fapp pe simp flip: ps_def split: option.split)
  next
    case (Some p)
    then have e: "list_ex (\<lambda>p. pz_id p = pid) ps" "pz_id p = pid"
      using find_None_iff_ex [of "\<lambda>p. pz_id p = pid" ps] by (simp, metis (mono_tags, lifting) find_Some_iff)
    have upd: "find (\<lambda>p. pz_id p = q) (upd_first (\<lambda>p. pz_id p = pid) f ps)
        = (if q = pid then Some (f p) else find (\<lambda>p. pz_id p = q) ps)" if "\<And>x. pz_id (f x) = pz_id x" for f q
      using find_upd_first [OF Some, of f] e(2) that find_upd_first_other [of "\<lambda>p. pz_id p = pid" "\<lambda>p. pz_id p = q" f ps] by auto
    have del: "find (\<lambda>p. pz_id p = q) (del_first (\<lambda>p. pz_id p = pid) ps)
        = (if q = pid then None else find (\<lambda>p. pz_id p = q) ps)" for q
    proof (cases "q = pid")
      case True
      have "distinct (map pz_id xs) \<Longrightarrow> find (\<lambda>p. pz_id p = pid) (del_first (\<lambda>p. pz_id p = pid) xs) = None" for xs
        by (induction xs) (auto simp: find_None_iff, metis image_eqI)
      with d True show ?thesis by simp
    next
      case False
      then show ?thesis using find_del_first_other [of "\<lambda>p. pz_id p = pid" "\<lambda>p. pz_id p = q" ps] by auto
    qed
    show ?thesis
      using okA okS Some e c [of p] num [OF okA] num [OF okS] num [OF assms]
      by (auto simp: A S add_def sub_def upd del simp flip: ps_def split: option.split)
  qed
qed

lemma prize_counts_witness:
  "GetPlayerPrizeNum_of (ac_db (PlayerAddPrize (\<lambda>_. None) 5 3 acct0)) 5 = 3
   \<and> unat (GetPlayerPrizeNum_of (ac_db (PlayerSubPrize 5 9 (PlayerAddPrize (\<lambda>_. None) 5 3 acct0))) 5) = 0"
proof -
  have 0: "prizes_ok (ac_db acct0)" "GetPlayerPrizeNum_of (ac_db acct0) 5 = 0"
    by (simp_all add: prizes_ok_def GetPlayerPrizeNum_of_def acct0_def prize_info_def pb_db_data0_def db_prize_info0_def mut_defs)
  note p = prize_counts [OF 0(1), of "\<lambda>_. None" 5 3]
  from prize_counts [OF conjunct1 [OF p], of "\<lambda>_. None" 5 9] p 0(2) show ?thesis by auto
qed

end
