(* ===== verification/MessageBase.thy ===== *)
theory MessageBase
  imports Managers DataCommon
begin

text \<open>
  common/message_base.cpp: what a logic server sends and how it exchanges database parts with
  the db proxy. The messages handed to \<open>FrameServer\<close> are a list of effects in the world;
  \<open>me_ok\<close> is the answer \<open>FrameServer\<close> gives (its pipes may be full). Sizes and encodings are
  those of the generated protobuf code and are parameters of \<open>msg_env\<close>, as are the bytes
  of an uninitialised local head and the bytes of one head of the session's union read as the
  other. A head a send function gets by reference is stamped before every use; the model stamps
  the copy that is sent.
\<close>

datatype effect =
    ToClient connect_head pb_cs_msg
  | ToWeb connect_head pb_ss_msg
  | ToProxy proxy_head pb_ss_msg "u32 option"
  | ToInternal pb_internal_msg
  | ToEvent pb_event
  | NotifyLogicIndex connect_head u64
  | PointCommand u64 u32 u32

record world =
  w_out :: "effect list"
  w_timers :: timer_mgr
  w_players :: player_mgr
  w_machines :: machine_mgr

text \<open>A part of the database data, tagged with its type.\<close>

datatype db_part =
    DP_base db_base_info | DP_gold db_gold_info | DP_prize db_prize_info | DP_game db_game_info
  | DP_m_base db_m_base_info | DP_m_lipstick db_m_lipstick_info | DP_p_base db_p_base_info
  | DP_g_lip db_g_lip_prize_info

record msg_env =
  me_now :: u64
  me_svr_type :: u32
  me_svr_id :: u32
  me_cs_size :: "pb_cs_msg \<Rightarrow> nat"
  me_ss_size :: "pb_ss_msg \<Rightarrow> nat"
  me_in_size :: "pb_internal_msg \<Rightarrow> nat"
  me_ev_size :: "pb_event \<Rightarrow> nat"
  me_ok :: "effect list \<Rightarrow> effect \<Rightarrow> bool"
  me_stack_head :: proxy_head
  me_as_connect :: "msg_head \<Rightarrow> connect_head"
  me_as_proxy :: "msg_head \<Rightarrow> proxy_head"
  me_enc :: "db_part \<Rightarrow> byte list"
  me_dec :: "u32 \<Rightarrow> byte list \<Rightarrow> db_part option"

abbreviation (input) "MAX_CS_PB_BUF_LEN \<equiv> 65532 :: nat"
abbreviation (input) "MAX_SS_PB_BUF_LEN \<equiv> 65532 :: nat"
abbreviation (input) "MAX_EVENT_BUF_LEN \<equiv> 8192 :: nat"
abbreviation (input) "MAX_KVDB_BUF_LEN \<equiv> 32768 :: nat"

definition emit :: "'z msg_env_scheme \<Rightarrow> effect \<Rightarrow> 'w world_scheme \<Rightarrow> bool \<times> 'w world_scheme" where
  "emit env e w = (me_ok env (w_out w) e, w\<lparr>w_out := w_out w @ [e]\<rparr>)"

definition GetConnectHead :: "'z msg_env_scheme \<Rightarrow> session \<Rightarrow> connect_head" where
  "GetConnectHead env s = (case se_msg_head s of MH_connect h \<Rightarrow> h | h \<Rightarrow> me_as_connect env h)"

definition GetProxyHead :: "'z msg_env_scheme \<Rightarrow> session \<Rightarrow> proxy_head" where
  "GetProxyHead env s = (case se_msg_head s of MH_proxy h \<Rightarrow> h | h \<Rightarrow> me_as_proxy env h)"

subsection \<open>Sending\<close>

definition SendMsgToClient_to :: "'z msg_env_scheme \<Rightarrow> connect_head \<Rightarrow> pb_cs_msg \<Rightarrow> bool \<Rightarrow> 'w world_scheme
    \<Rightarrow> bool \<times> pb_cs_msg \<times> 'w world_scheme" where
  "SendMsgToClient_to env head m close w =
     (let m1 = m\<lparr>cs_cmd := cs_union_case m,
                 cs_result := (if cs_result m = None then Some EN_Result_OK else cs_result m)\<rparr>
      in if me_cs_size env m1 > MAX_CS_PB_BUF_LEN then (False, m1, w)
         else (let (ok, w1) = emit env (ToClient (head\<lparr>ch_msg_type := Conn_normal, ch_need_close := close\<rparr>) m1) w
               in (ok, m1, w1)))"

definition SendMsgToClient :: "'z msg_env_scheme \<Rightarrow> bool \<Rightarrow> session \<Rightarrow> 'w world_scheme
    \<Rightarrow> bool \<times> session \<times> 'w world_scheme" where
  "SendMsgToClient env close s w =
     (let (ok, m, w1) = SendMsgToClient_to env (GetConnectHead env s)
            ((se_cs_response s)\<lparr>cs_cli_seq := cs_cli_seq (se_cs_msg s)\<rparr>) close w
      in (ok, s\<lparr>se_cs_response := m\<rparr>, w1))"

definition SendCommonErr :: "'z msg_env_scheme \<Rightarrow> connect_head \<Rightarrow> u32 \<Rightarrow> 'w world_scheme \<Rightarrow> 'w world_scheme" where
  "SendCommonErr env head result w = snd (snd (SendMsgToClient_to env head
     (cs_msg0\<lparr>cs_result := Some result, cs_body := Some CsNotifyCommonErr\<rparr>) True w))"

definition SendMsgToWeb_to :: "'z msg_env_scheme \<Rightarrow> connect_head \<Rightarrow> pb_ss_msg \<Rightarrow> bool \<Rightarrow> 'w world_scheme
    \<Rightarrow> bool \<times> 'w world_scheme" where
  "SendMsgToWeb_to env head m close w =
     (if me_ss_size env m > MAX_CS_PB_BUF_LEN then (False, w)
      else emit env (ToWeb (head\<lparr>ch_msg_type := Conn_normal, ch_need_close := close\<rparr>) m) w)"

definition SendMsgToWeb :: "'z msg_env_scheme \<Rightarrow> bool \<Rightarrow> session \<Rightarrow> 'w world_scheme
    \<Rightarrow> bool \<times> session \<times> 'w world_scheme" where
  "SendMsgToWeb env close s w =
     (let m = (se_ss_response s)\<lparr>ss_uid := ss_uid (se_web_msg s)\<rparr>;
          (ok, w1) = SendMsgToWeb_to env (GetConnectHead env s) m close w
      in (ok, s\<lparr>se_ss_response := m\<rparr>, w1))"

definition SendMsgToResponse_to :: "'z msg_env_scheme \<Rightarrow> proxy_head \<Rightarrow> pb_ss_msg \<Rightarrow> 'w world_scheme
    \<Rightarrow> bool \<times> pb_ss_msg \<times> 'w world_scheme" where
  "SendMsgToResponse_to env src m w =
     (let m1 = m\<lparr>ss_type := EN_SS_Response\<rparr>
      in if me_ss_size env m1 > MAX_SS_PB_BUF_LEN then (False, m1, w)
         else
           let head = (me_stack_head env)\<lparr>px_src_type := me_svr_type env, px_src_id := me_svr_id env,
                 px_des_type := px_src_type src, px_des_id := px_src_id src,
                 px_session_id := px_session_id src, px_route_type := Route_p2p\<rparr>;
               (ok, w1) = emit env (ToProxy head m1 (Some (px_src_proxy_id src))) w
           in (ok, m1, w1))"

definition SendMsgToResponse :: "'z msg_env_scheme \<Rightarrow> session \<Rightarrow> 'w world_scheme \<Rightarrow> bool \<times> session \<times> 'w world_scheme" where
  "SendMsgToResponse env s w =
     (let (ok, m, w1) = SendMsgToResponse_to env (GetProxyHead env s) (se_ss_response s) w
      in (ok, s\<lparr>se_ss_response := m\<rparr>, w1))"

definition SendMsgToInternal :: "'z msg_env_scheme \<Rightarrow> pb_internal_msg \<Rightarrow> 'w world_scheme \<Rightarrow> bool \<times> 'w world_scheme" where
  "SendMsgToInternal env m w =
     (if me_in_size env m > MAX_SS_PB_BUF_LEN then (False, w) else emit env (ToInternal m) w)"

definition SendMsgToEvent :: "'z msg_env_scheme \<Rightarrow> pb_event \<Rightarrow> 'w world_scheme \<Rightarrow> bool \<times> 'w world_scheme" where
  "SendMsgToEvent env e w =
     (if me_ev_size env e > MAX_EVENT_BUF_LEN then (False, w) else emit env (ToEvent e) w)"

text \<open>\<open>SendMsgToDBProxy\<close> and \<open>SendMsgToPromoter\<close> differ in the type of the destination; the destination's
  id and the source proxy stay what the stack held.\<close>

definition send_hashed :: "u32 \<Rightarrow> 'z msg_env_scheme \<Rightarrow> pb_ss_msg \<Rightarrow> session \<Rightarrow> 'w world_scheme
    \<Rightarrow> bool \<times> session \<times> 'w world_scheme" where
  "send_hashed des env m s w =
     (let m1 = m\<lparr>ss_type := EN_SS_Request\<rparr>
      in if me_ss_size env m1 > MAX_SS_PB_BUF_LEN then (False, s, w)
         else
           let head = (me_stack_head env)\<lparr>px_src_type := me_svr_type env, px_src_id := me_svr_id env,
                 px_des_type := des, px_session_id := se_session_id s, px_route_type := Route_hash,
                 px_hash_key := ss_uid m1\<rparr>;
               (ok, w1) = emit env (ToProxy head m1 None) w
           in (ok, s\<lparr>se_update_time := GetTime (me_now env)\<rparr>, w1))"

definition SendMsgToDBProxy :: "'z msg_env_scheme \<Rightarrow> pb_ss_msg \<Rightarrow> session \<Rightarrow> 'w world_scheme
    \<Rightarrow> bool \<times> session \<times> 'w world_scheme" where
  "SendMsgToDBProxy = send_hashed EN_1_DBProxy"

definition SendMsgToPromoter :: "'z msg_env_scheme \<Rightarrow> pb_ss_msg \<Rightarrow> session \<Rightarrow> 'w world_scheme
    \<Rightarrow> bool \<times> session \<times> 'w world_scheme" where
  "SendMsgToPromoter = send_hashed EN_6_Promoter"

text \<open>The session is optional: without one the head's session id is what the stack held.\<close>

definition SendMsgToServer :: "'z msg_env_scheme \<Rightarrow> u32 \<Rightarrow> u32 \<Rightarrow> pb_ss_msg \<Rightarrow> session option \<Rightarrow> 'w world_scheme
    \<Rightarrow> bool \<times> session option \<times> 'w world_scheme" where
  "SendMsgToServer env svr_type svr_id m so w =
     (let m1 = m\<lparr>ss_type := EN_SS_Request\<rparr>
      in if me_ss_size env m1 > MAX_SS_PB_BUF_LEN then (False, so, w)
         else
           let head = (me_stack_head env)\<lparr>px_src_type := me_svr_type env, px_src_id := me_svr_id env,
                 px_route_type := Route_p2p, px_des_type := svr_type, px_des_id := svr_id\<rparr>;
               head = (case so of None \<Rightarrow> head | Some s \<Rightarrow> head\<lparr>px_session_id := se_session_id s\<rparr>);
               so1 = map_option (\<lambda>s. s\<lparr>se_update_time := GetTime (me_now env), se_session_state := Wait_Response\<rparr>) so;
               (ok, w1) = emit env (ToProxy head m1 None) w
           in (ok, so1, w1))"

definition BroadcastToServer :: "'z msg_env_scheme \<Rightarrow> u32 \<Rightarrow> pb_ss_msg \<Rightarrow> 'w world_scheme \<Rightarrow> bool \<times> 'w world_scheme" where
  "BroadcastToServer env svr_type m w =
     (let m1 = m\<lparr>ss_type := EN_SS_Request\<rparr>
      in if me_ss_size env m1 > MAX_SS_PB_BUF_LEN then (False, w)
         else emit env (ToProxy ((me_stack_head env)\<lparr>px_src_type := me_svr_type env, px_src_id := me_svr_id env,
                px_session_id := 0, px_route_type := Route_broadcast, px_des_type := svr_type\<rparr>) m1 None) w)"

text \<open>Timers of the world.\<close>

definition w_SetTimer :: "'z msg_env_scheme \<Rightarrow> u32 \<Rightarrow> internal_body \<Rightarrow> 'w world_scheme \<Rightarrow> u32 \<times> 'w world_scheme" where
  "w_SetTimer env sec m w =
     (let (tid, tm) = SetTimer (me_now env) sec (Some m) (w_timers w) in (tid, w\<lparr>w_timers := tm\<rparr>))"

definition w_ClearTimer :: "u32 \<Rightarrow> 'w world_scheme \<Rightarrow> 'w world_scheme" where
  "w_ClearTimer tid w = w\<lparr>w_timers := ClearTimer tid (w_timers w)\<rparr>"

subsection \<open>Parts of the database data\<close>

primrec part_key :: "db_part \<Rightarrow> u32" where
  "part_key (DP_base _) = kBaseInfo" | "part_key (DP_gold _) = kGoldInfo"
| "part_key (DP_prize _) = kPrizeInfo" | "part_key (DP_game _) = kGameInfo"
| "part_key (DP_m_base _) = kMBaseInfo" | "part_key (DP_m_lipstick _) = kMLipstickInfo"
| "part_key (DP_p_base _) = kPBaseInfo" | "part_key (DP_g_lip _) = kGLipPrizeInfo"

text \<open>\<open>head().version()\<close> and \<open>mutable_head()->set_version(v)\<close> of each part.\<close>

primrec part_version :: "db_part \<Rightarrow> u64" where
  "part_version (DP_base x) = bi_version x" | "part_version (DP_gold x) = gi_version x"
| "part_version (DP_prize x) = pi_version x" | "part_version (DP_game x) = ga_version x"
| "part_version (DP_m_base x) = mb_version x" | "part_version (DP_m_lipstick x) = lp_version x"
| "part_version (DP_p_base x) = pb_version x" | "part_version (DP_g_lip x) = gl_version x"

primrec set_part_version :: "u64 \<Rightarrow> db_part \<Rightarrow> db_part" where
  "set_part_version v (DP_base x) = DP_base (x\<lparr>bi_version := v\<rparr>)"
| "set_part_version v (DP_gold x) = DP_gold (x\<lparr>gi_version := v\<rparr>)"
| "set_part_version v (DP_prize x) = DP_prize (x\<lparr>pi_version := v\<rparr>)"
| "set_part_version v (DP_game x) = DP_game (x\<lparr>ga_version := v\<rparr>)"
| "set_part_version v (DP_m_base x) = DP_m_base (x\<lparr>mb_version := v\<rparr>)"
| "set_part_version v (DP_m_lipstick x) = DP_m_lipstick (x\<lparr>lp_version := v\<rparr>)"
| "set_part_version v (DP_p_base x) = DP_p_base (x\<lparr>pb_version := v\<rparr>)"
| "set_part_version v (DP_g_lip x) = DP_g_lip (x\<lparr>gl_version := v\<rparr>)"

definition get_part :: "u32 \<Rightarrow> pb_db_data \<Rightarrow> db_part option" where
  "get_part key d =
     (if key = kBaseInfo then Some (DP_base (base_info d)) else if key = kGoldInfo then Some (DP_gold (gold_info d))
      else if key = kPrizeInfo then Some (DP_prize (prize_info d)) else if key = kGameInfo then Some (DP_game (game_info d))
      else if key = kMBaseInfo then Some (DP_m_base (m_base_info d))
      else if key = kMLipstickInfo then Some (DP_m_lipstick (m_lipstick_info d))
      else if key = kPBaseInfo then Some (DP_p_base (p_base_info d))
      else if key = kGLipPrizeInfo then Some (DP_g_lip (g_lip_prize_info d)) else None)"

primrec mut_part :: "db_part \<Rightarrow> pb_db_data \<Rightarrow> pb_db_data" where
  "mut_part (DP_base x) d = mut_base_info (\<lambda>_. x) d" | "mut_part (DP_gold x) d = mut_gold_info (\<lambda>_. x) d"
| "mut_part (DP_prize x) d = mut_prize_info (\<lambda>_. x) d" | "mut_part (DP_game x) d = mut_game_info (\<lambda>_. x) d"
| "mut_part (DP_m_base x) d = mut_m_base_info (\<lambda>_. x) d" | "mut_part (DP_m_lipstick x) d = mut_m_lipstick_info (\<lambda>_. x) d"
| "mut_part (DP_p_base x) d = mut_p_base_info (\<lambda>_. x) d" | "mut_part (DP_g_lip x) d = mut_g_lip_prize_info (\<lambda>_. x) d"

text \<open>\<open>AddSaveData\<close>: the value without its head is what is stored; the version goes up by one in
  the local copy and travels beside the value, in 32 bits.\<close>

definition AddSaveData :: "'z msg_env_scheme \<Rightarrow> u32 \<Rightarrow> db_part \<Rightarrow> (db_part \<times> pb_kvdb_data) option" where
  "AddSaveData env key p =
     (let value = me_enc env (set_part_version 0 p) in
      if length value > MAX_KVDB_BUF_LEN then None
      else
        let p1 = set_part_version (part_version p + 1) p
        in Some (p1, \<lparr>kv_key = key, kv_value = Some value, kv_version = ucast (part_version p1),
                      kv_update_time = GetTime (me_now env)\<rparr>))"

definition ConstructDBData :: "'z msg_env_scheme \<Rightarrow> pb_kvdb_data \<Rightarrow> byte list \<Rightarrow> db_part option" where
  "ConstructDBData env kv value = (case me_dec env (kv_key kv) value of
     None \<Rightarrow> None
   | Some p \<Rightarrow> Some (set_part_version (ucast (kv_version kv)) p))"

fun build_query :: "'z msg_env_scheme \<Rightarrow> pb_db_process list \<Rightarrow> session \<Rightarrow> 'w world_scheme \<Rightarrow> bool \<times> session \<times> 'w world_scheme" where
  "build_query env [] s w = (False, s, w)"
| "build_query env (p # ps) s w =
     (if dp_player p \<noteq> None then build_query env ps s w
      else
        let m = ss_msg0\<lparr>ss_uid := dp_uid p, ss_body := Some (SsReqQuery (dp_uid p)
              (map (\<lambda>k. \<lparr>kv_key = k, kv_value = None, kv_version = 0, kv_update_time = 0\<rparr>) (dp_keys p)))\<rparr>;
            (_, s1, w1) = SendMsgToDBProxy env m s w;
            (_, s2, w2) = build_query env ps s1 w1
        in (True, s2, w2))"

definition SendQueryToDBProxy :: "'z msg_env_scheme \<Rightarrow> session \<Rightarrow> 'w world_scheme \<Rightarrow> bool \<times> session \<times> 'w world_scheme" where
  "SendQueryToDBProxy env s w =
     (let (get, s1, w1) = build_query env (se_db_processs s) s w
      in (get, if get then s1\<lparr>se_session_state := Wait_Query\<rparr> else s1, w1))"

text \<open>The loop over the queried keys: the outer \<open>None\<close>-like first component is the early
  \<open>return false\<close> on an unknown key; parts before it keep their new version.\<close>

fun save_keys :: "'z msg_env_scheme \<Rightarrow> u32 list \<Rightarrow> pb_db_data \<Rightarrow> pb_kvdb_data list \<Rightarrow> bool \<times> pb_db_data \<times> pb_kvdb_data list" where
  "save_keys env [] d datas = (True, d, datas)"
| "save_keys env (key # keys) d datas =
     (case get_part key d of
        None \<Rightarrow> (False, d, datas)
      | Some p \<Rightarrow>
          if \<not> d_dirty d key then save_keys env keys d datas
          else (case AddSaveData env key p of
                  None \<Rightarrow> save_keys env keys (mut_part p d) datas
                | Some (p1, kv) \<Rightarrow> save_keys env keys (clear_dirty key (mut_part p1 d)) (datas @ [kv])))"

definition SendSaveToDBProxy :: "'z msg_env_scheme \<Rightarrow> session \<Rightarrow> 'w world_scheme \<Rightarrow> bool \<times> session \<times> 'w world_scheme" where
  "SendSaveToDBProxy env s w =
     (let i = unat (se_process_index s) in
      case GetDBData i s of
        None \<Rightarrow> (False, s, w)
      | Some d \<Rightarrow>
          (let (ok, d1, datas) = save_keys env (dp_keys (se_db_processs s ! i)) d [];
               s1 = SetDBData i d1 s;
               save = (ok \<and> datas \<noteq> [])
           in if \<not> save then (False, s1, w)
              else
                let (_, s2, w1) = SendMsgToDBProxy env
                      (ss_msg0\<lparr>ss_uid := get0 (d_uid d), ss_body := Some (SsReqSave (get0 (d_uid d)) datas)\<rparr>) s1 w
                in (True, s2\<lparr>se_session_state := Wait_Save\<rparr>, w1)))"

subsection \<open>Data coming back\<close>

text \<open>\<open>InitDBData\<close>: what a part is when the database has none. The bits of the base and the gold
  part stay set.\<close>

definition InitDBData :: "u32 \<Rightarrow> pb_db_data \<Rightarrow> pb_db_data" where
  "InitDBData key d =
     (if key = kBaseInfo then mut_base_info (\<lambda>i. i\<lparr>bi_promoter_id := 888888\<rparr>) d
      else if key = kGoldInfo then mut_gold_info (\<lambda>i. i\<lparr>gi_gold := 0\<rparr>) d
      else if key = kMBaseInfo then clear_dirty kMBaseInfo (mut_m_base_info
        (\<lambda>i. i\<lparr>mb_game_type := Some EN_G_Type_Lipstick, mb_total_prize_num := 0, mb_promoter_id := Some 888888\<rparr>) d)
      else if key = kMLipstickInfo then clear_dirty kMLipstickInfo (mut_m_lipstick_info
        (\<lambda>i. i\<lparr>lp_round_timeouts := lp_round_timeouts i @ [30, 30, 30], lp_round_knives := lp_round_knives i @ [8, 10, 12],
               lp_start_timeout := Some 120, lp_retry_timeout := Some 15, lp_lottery_timeout := Some 5,
               lp_lottery_ani_timeout := Some 99, lp_buy_timeout := Some 15, lp_buy_ani_timeout := Some 10,
               lp_game_succ_timeout := Some 15, lp_retry_switch := Some True, lp_lottery_switch := Some True,
               lp_buy_switch := Some True, lp_max_retry_time := Some 5\<rparr>) d)
      else if key = kGLipPrizeInfo then clear_dirty kGLipPrizeInfo (mut_g_lip_prize_info (\<lambda>i. i) d)
      else d)"

fun ParseDBData :: "'z msg_env_scheme \<Rightarrow> pb_kvdb_data list \<Rightarrow> pb_db_data \<Rightarrow> pb_db_data option" where
  "ParseDBData env [] d = Some d"
| "ParseDBData env (kv # kvs) d =
     (case kv_value kv of
        Some value \<Rightarrow>
          (if get_part (kv_key kv) d = None then None
           else (case ConstructDBData env kv value of
                   None \<Rightarrow> None
                 | Some p \<Rightarrow> ParseDBData env kvs (clear_dirty (kv_key kv) (mut_part p d))))
      | None \<Rightarrow> ParseDBData env kvs (InitDBData (kv_key kv) d))"

subsection \<open>Laws of the parts\<close>

lemma get_part_key: "get_part k d = Some p \<Longrightarrow> part_key p = k"
  by (auto simp: get_part_def split: if_splits)

lemma get_mut_part [simp]:
  "get_part k (mut_part p d) = (if k = part_key p then Some p else get_part k d)"
  by (cases p) (simp_all add: get_part_def proto_simps)

lemma get_clear_dirty [simp]: "get_part k (clear_dirty k' d) = get_part k d"
  by (simp add: get_part_def proto_simps)

lemma dirty_mut_part [simp]: "d_dirty (mut_part p d) = (d_dirty d)(part_key p := True)"
  by (cases p) (simp_all add: proto_simps)

lemma dirty_clear [simp]: "d_dirty (clear_dirty k d) = (d_dirty d)(k := False)"
  by (simp add: proto_simps)

lemma set_part_version_simps [simp]:
  "part_key (set_part_version v p) = part_key p" "part_version (set_part_version v p) = v"
  "set_part_version v (set_part_version u p) = set_part_version v p"
  "set_part_version (part_version p) p = p"
  by (cases p; simp)+

definition known_key :: "u32 \<Rightarrow> bool" where
  "known_key k \<longleftrightarrow> get_part k pb_db_data0 \<noteq> None"

lemma known_key_any: "get_part k d = None \<longleftrightarrow> \<not> known_key k"
  by (auto simp: known_key_def get_part_def split: if_splits)

text \<open>The parts a save sends: queried, changed and not too long.\<close>

definition to_save :: "'z msg_env_scheme \<Rightarrow> pb_db_data \<Rightarrow> u32 \<Rightarrow> bool" where
  "to_save env d k \<longleftrightarrow> d_dirty d k \<and> (\<exists>p. get_part k d = Some p
     \<and> length (me_enc env (set_part_version 0 p)) \<le> MAX_KVDB_BUF_LEN)"

definition sent_kv :: "'z msg_env_scheme \<Rightarrow> db_part \<Rightarrow> pb_kvdb_data" where
  "sent_kv env p = \<lparr>kv_key = part_key p, kv_value = Some (me_enc env (set_part_version 0 p)),
     kv_version = ucast (part_version p + 1), kv_update_time = GetTime (me_now env)\<rparr>"

lemma save_keys_spec:
  assumes "distinct keys" "\<forall>k\<in>set keys. known_key k" "save_keys env keys d datas = (ok, d', datas')"
  shows "ok \<and> datas' = datas @ map (\<lambda>k. sent_kv env (the (get_part k d))) (filter (to_save env d) keys)
    \<and> (\<forall>k. get_part k d' = (if k \<in> set keys \<and> to_save env d k
          then map_option (\<lambda>p. set_part_version (part_version p + 1) p) (get_part k d) else get_part k d))
    \<and> (\<forall>k. d_dirty d' k = (if k \<in> set keys \<and> to_save env d k then False else d_dirty d k))"
  using assms
proof (induction keys arbitrary: d datas)
  case (Cons k ks)
  obtain p where p: "get_part k d = Some p" using Cons.prems(2) known_key_any [of k d] by auto
  have kp: "part_key p = k" using get_part_key [OF p] .
  show ?case
  proof (cases "to_save env d k")
    case True
    define d1 where "d1 = clear_dirty k (mut_part (set_part_version (part_version p + 1) p) d)"
    have A: "AddSaveData env k p = Some (set_part_version (part_version p + 1) p, sent_kv env p)"
      using True p kp by (auto simp: to_save_def AddSaveData_def sent_kv_def Let_def)
    have s: "save_keys env ks d1 (datas @ [sent_kv env p]) = (ok, d', datas')"
      using Cons.prems(3) p A True by (simp add: to_save_def d1_def)
    have g: "get_part j d1 = (if j = k then Some (set_part_version (part_version p + 1) p) else get_part j d)"
        "d_dirty d1 j = (if j = k then False else d_dirty d j)" for j
      using kp by (simp_all add: d1_def)
    have t: "j \<noteq> k \<Longrightarrow> to_save env d1 j = to_save env d j" for j by (simp add: to_save_def g)
    from Cons.IH [OF _ _ s] Cons.prems(1,2) have IH: "ok"
      "datas' = datas @ sent_kv env p # map (\<lambda>k. sent_kv env (the (get_part k d1))) (filter (to_save env d1) ks)"
      "\<forall>j. get_part j d' = (if j \<in> set ks \<and> to_save env d1 j
          then map_option (\<lambda>p. set_part_version (part_version p + 1) p) (get_part j d1) else get_part j d1)"
      "\<forall>j. d_dirty d' j = (if j \<in> set ks \<and> to_save env d1 j then False else d_dirty d1 j)" by simp_all
    have nk: "k \<notin> set ks" using Cons.prems(1) by simp
    have "map (\<lambda>k. sent_kv env (the (get_part k d1))) (filter (to_save env d1) ks)
        = map (\<lambda>k. sent_kv env (the (get_part k d))) (filter (to_save env d) ks)"
      using nk t g by (metis (mono_tags, lifting) filter_cong list.map_cong0 mem_Collect_eq set_filter)
    with IH show ?thesis using nk True p t g by auto
  next
    case False
    show ?thesis
    proof (cases "d_dirty d k")
      case True
      then have "AddSaveData env k p = None" using False p by (auto simp: to_save_def AddSaveData_def Let_def)
      then have s: "save_keys env ks (mut_part p d) datas = (ok, d', datas')"
        using Cons.prems(3) p True by simp
      have g: "get_part j (mut_part p d) = get_part j d" "d_dirty (mut_part p d) j = d_dirty d j" for j
        using kp p True by simp_all
      then have t: "to_save env (mut_part p d) = to_save env d" by (auto simp: to_save_def)
      from Cons.IH [OF _ _ s] Cons.prems(1,2) False show ?thesis unfolding g t by auto
    next
      case nd: False
      from Cons.IH [of d datas] Cons.prems p nd False show ?thesis by auto
    qed
  qed
qed simp

text \<open>What the proxy gives back for a list of stored values.\<close>

definition codec_ok :: "'z msg_env_scheme \<Rightarrow> db_part \<Rightarrow> bool" where
  "codec_ok env p \<longleftrightarrow> me_dec env (part_key p) (me_enc env (set_part_version 0 p)) = Some (set_part_version 0 p)"

lemma ParseDBData_sent:
  assumes "\<forall>p\<in>set ps. codec_ok env p \<and> unat (part_version p) + 1 < 2 ^ 32" "distinct (map part_key ps)"
  shows "\<exists>d'. ParseDBData env (map (sent_kv env) ps) d = Some d'
    \<and> (\<forall>k. get_part k d' = (case find (\<lambda>p. part_key p = k) ps of
          Some p \<Rightarrow> Some (set_part_version (part_version p + 1) p) | None \<Rightarrow> get_part k d))"
  using assms
proof (induction ps arbitrary: d)
  case (Cons p ps)
  have c: "me_dec env (part_key p) (me_enc env (set_part_version 0 p)) = Some (set_part_version 0 p)"
    and v: "unat (part_version p) + 1 < 2 ^ 32"
    using Cons.prems(1) by (simp_all add: codec_ok_def)
  have "unat (part_version p + 1) = unat (part_version p) + 1" using v by (simp add: unat_word_ariths)
  then have vv: "ucast (ucast (part_version p + 1) :: u32) = part_version p + 1"
    using v by (simp add: word_unat_eq_iff unsigned_ucast_eq unsigned_take_bit_eq take_bit_nat_eq_self)
  define d1 where "d1 = clear_dirty (part_key p) (mut_part (set_part_version (part_version p + 1) p) d)"
  have "get_part (part_key p) d \<noteq> None" by (cases p) (simp_all add: get_part_def)
  then have s: "ParseDBData env (map (sent_kv env) (p # ps)) d = ParseDBData env (map (sent_kv env) ps) d1"
    using c vv by (auto simp: sent_kv_def ConstructDBData_def d1_def)
  obtain d' where d': "ParseDBData env (map (sent_kv env) ps) d1 = Some d'"
      "\<And>k. get_part k d' = (case find (\<lambda>p. part_key p = k) ps of
          Some p \<Rightarrow> Some (set_part_version (part_version p + 1) p) | None \<Rightarrow> get_part k d1)"
    using Cons.IH [of d1] Cons.prems by auto
  have "find (\<lambda>q. part_key q = part_key p) ps = None"
    using Cons.prems(2) by (auto simp: find_None_iff image_iff)
  then have "\<forall>k. get_part k d' = (case find (\<lambda>p. part_key p = k) (p # ps) of
          Some p \<Rightarrow> Some (set_part_version (part_version p + 1) p) | None \<Rightarrow> get_part k d)"
    by (auto simp: d'(2) d1_def split: option.splits)
  with s d'(1) show ?case by auto
qed simp
subsection \<open>Properties\<close>

text \<open>Property C14. A save sends the parts that were queried, were changed and fit a message, each once
  and in the order of the query; its version is one above the one read, in the message and in
  the local copy, and the part counts as unchanged afterwards. When the database hands the
  values back they parse to exactly the local copy. The keys are known and distinct, the versions do not wrap, and
  a part that is serialized is parsed again (\<open>codec_ok\<close>).\<close>

theorem save_query_roundtrip:
  assumes "distinct keys" "\<forall>k\<in>set keys. known_key k" "save_keys env keys d [] = (ok, d', kvs)"
    and "\<forall>k\<in>set keys. codec_ok env (the (get_part k d)) \<and> unat (part_version (the (get_part k d))) + 1 < 2 ^ 32"
  shows "ok \<and> map kv_key kvs = filter (to_save env d) keys
    \<and> (\<forall>kv\<in>set kvs. unat (kv_version kv) = unat (part_version (the (get_part (kv_key kv) d))) + 1)
    \<and> (\<exists>d2. ParseDBData env kvs e = Some d2
         \<and> (\<forall>k\<in>set (map kv_key kvs). get_part k d2 = get_part k d' \<and> \<not> d_dirty d' k))"
proof -
  let ?ks = "filter (to_save env d) keys" and ?part = "\<lambda>k. the (get_part k d)"
  have S: "ok" "kvs = map (sent_kv env) (map ?part ?ks)"
    "\<forall>k. get_part k d' = (if k \<in> set keys \<and> to_save env d k
          then map_option (\<lambda>p. set_part_version (part_version p + 1) p) (get_part k d) else get_part k d)"
    "\<forall>k. d_dirty d' k = (if k \<in> set keys \<and> to_save env d k then False else d_dirty d k)"
    using save_keys_spec [OF assms(1,2,3)] by (simp_all add: comp_def)
  have key: "part_key (?part k) = k" "get_part k d = Some (?part k)" if "k \<in> set keys" for k
    using that assms(2) known_key_any [of k d] get_part_key [of k d] by auto
  then have mk: "map part_key (map ?part ?ks) = ?ks" unfolding map_map by (intro map_idI) auto
  have vs: "unat (ucast (part_version p + 1) :: u32) = unat (part_version p) + 1"
    if "unat (part_version p) + 1 < 2 ^ 32" for p
    using that by (simp add: unsigned_ucast_eq take_bit_nat_eq_self unat_word_ariths)
  obtain d2 where d2: "ParseDBData env kvs e = Some d2"
    "\<And>k. get_part k d2 = (case find (\<lambda>p. part_key p = k) (map ?part ?ks) of
          Some p \<Rightarrow> Some (set_part_version (part_version p + 1) p) | None \<Rightarrow> get_part k e)"
    using ParseDBData_sent [of "map ?part ?ks" env e] assms(1,4) unfolding mk S(2) by auto
  have found: "find (\<lambda>p. part_key p = k) (map ?part ?ks) = Some (?part k)" if k: "k \<in> set ?ks" for k
  proof -
    obtain p where p: "find (\<lambda>p. part_key p = k) (map ?part ?ks) = Some p"
      using k key by (cases "find (\<lambda>p. part_key p = k) (map ?part ?ks)") (auto simp: find_None_iff)
    then have "p \<in> set (map ?part ?ks)" "part_key p = k" using find_SomeD [OF p] by blast+
    with key have "p = ?part k" by auto
    with p show ?thesis by simp
  qed
  have "map kv_key kvs = ?ks" using mk by (simp add: S(2) sent_kv_def comp_def)
  moreover have "\<forall>kv\<in>set kvs. unat (kv_version kv) = unat (part_version (?part (kv_key kv))) + 1"
    using assms(4) key vs by (auto simp: S(2) sent_kv_def)
  moreover have "\<forall>k\<in>set ?ks. get_part k d2 = get_part k d' \<and> \<not> d_dirty d' k"
  proof
    fix k assume k: "k \<in> set ?ks"
    then obtain p where "get_part k d = Some p" using key by auto
    then show "get_part k d2 = get_part k d' \<and> \<not> d_dirty d' k"
      using found [OF k] k by (simp add: d2(2) S(3,4))
  qed
  ultimately show ?thesis using S(1) d2(1) by auto
qed

definition test_env :: msg_env where
  "test_env = \<lparr>me_now = 5000, me_svr_type = EN_4_Lipstick, me_svr_id = 1, me_cs_size = (\<lambda>_. 10),
     me_ss_size = (\<lambda>_. 10), me_in_size = (\<lambda>_. 10), me_ev_size = (\<lambda>_. 10), me_ok = (\<lambda>_ _. True),
     me_stack_head = \<lparr>px_src_type = 0, px_src_id = 0, px_des_type = 0, px_des_id = 0, px_session_id = 0,
       px_hash_key = 0, px_src_proxy_id = 0, px_route_type = Route_p2p\<rparr>,
     me_as_connect = (\<lambda>_. \<lparr>ch_create_time = 0, ch_socket_pos = 0, ch_socket_port = 0, ch_socket_addr = [],
       ch_need_close = False, ch_msg_type = Conn_normal, ch_conn_type = Conn_tcp\<rparr>),
     me_as_proxy = (\<lambda>_. \<lparr>px_src_type = 0, px_src_id = 0, px_des_type = 0, px_des_id = 0, px_session_id = 0,
       px_hash_key = 0, px_src_proxy_id = 0, px_route_type = Route_p2p\<rparr>),
     me_enc = (\<lambda>_. [42]), me_dec = (\<lambda>k _. if k = kGoldInfo then Some (DP_gold (db_gold_info0\<lparr>gi_gold := 100\<rparr>)) else None)\<rparr>"

lemma save_query_roundtrip_witness:
  "\<exists>d' kv d2. save_keys test_env [kGoldInfo] (ac_db acct0) [] = (True, d', [kv]) \<and> unat (kv_version kv) = 1
     \<and> ParseDBData test_env [kv] pb_db_data0 = Some d2 \<and> get_part kGoldInfo d2 = get_part kGoldInfo d'"
proof -
  have g: "get_part kGoldInfo (ac_db acct0) = Some (DP_gold (db_gold_info0\<lparr>gi_gold := 100\<rparr>))"
    by (simp add: get_part_def)
  have dirty: "d_dirty (ac_db acct0) kGoldInfo" by (simp add: acct0_def proto_simps)
  then have t: "to_save test_env (ac_db acct0) kGoldInfo" by (simp add: to_save_def g test_env_def)
  have k: "\<forall>k\<in>set [kGoldInfo]. known_key k" by (simp add: known_key_def get_part_def)
  have c: "\<forall>k\<in>set [kGoldInfo]. codec_ok test_env (the (get_part k (ac_db acct0)))
      \<and> unat (part_version (the (get_part k (ac_db acct0)))) + 1 < 2 ^ 32"
    by (simp add: g codec_ok_def test_env_def db_gold_info0_def)
  obtain ok d' kvs where s: "save_keys test_env [kGoldInfo] (ac_db acct0) [] = (ok, d', kvs)"
    by (metis prod_cases3)
  from save_query_roundtrip [OF _ k s c, of pb_db_data0] obtain d2 where
    R: "ok" "map kv_key kvs = [kGoldInfo]" "\<forall>kv\<in>set kvs. unat (kv_version kv) = unat (part_version (the (get_part (kv_key kv) (ac_db acct0)))) + 1"
      "ParseDBData test_env kvs pb_db_data0 = Some d2" "get_part kGoldInfo d2 = get_part kGoldInfo d'"
    using t by auto
  then obtain kv where kv: "kvs = [kv]" "kv_key kv = kGoldInfo" by (cases kvs) auto
  then have "unat (kv_version kv) = 1" using R(3) by (simp add: g db_gold_info0_def)
  with R s kv show ?thesis by auto
qed

end
