(* ===== verification/HandlerBase.thy ===== *)
theory HandlerBase
  imports MessageBase
begin

text \<open>
  common/message_handler_base.cpp: the life of a message session. A handler asks for database
  parts, works on them when all have arrived, saves them, and redoes its work on fresh data
  when another server saved first. A handler is the record of its six overridable functions;
  each returns the next step, the session and the world, or \<open>None\<close> for an access through a
  null pointer.
\<close>

datatype hresult = H_Done | H_Hup | H_Next | H_Failed | H_Query | H_Save

type_synonym 'w hstep = "session \<Rightarrow> 'w \<Rightarrow> (hresult \<times> session \<times> 'w) option"

record 'w handler =
  h_OnMessage :: "'w hstep"
  h_OnServerResponse :: "'w hstep"
  h_OnQuerySuccess :: "'w hstep"
  h_OnSaveSuccess :: "'w hstep"
  h_OnQueryFailed :: "'w hstep"
  h_OnSaveFailed :: "'w hstep"

abbreviation (input) "EN_Max_DB_Redo_Time \<equiv> 5 :: u32"

text \<open>What a handler that overrides nothing does.\<close>

definition base_handler :: "'z msg_env_scheme \<Rightarrow> 'w world_scheme handler" where
  "base_handler env = \<lparr>
     h_OnMessage = (\<lambda>s w. Some (H_Done, s, w)),
     h_OnServerResponse = (\<lambda>s w. Some (H_Done, s, w)),
     h_OnQuerySuccess = (\<lambda>s w. Some (H_Done, s, w)),
     h_OnSaveSuccess = (\<lambda>s w. let (_, s1, w1) = SendMsgToClient env False s w in Some (H_Done, s1, w1)),
     h_OnQueryFailed = (\<lambda>s w. Some (H_Failed, s, SendCommonErr env (GetConnectHead env s) EN_Result_Sys_Err w)),
     h_OnSaveFailed = (\<lambda>s w. Some (H_Failed, s, SendCommonErr env (GetConnectHead env s) EN_Result_Sys_Err w))\<rparr>"

subsection \<open>Steps\<close>

definition ProcessNext :: "'w handler \<Rightarrow> 'w hstep" where
  "ProcessNext h s w =
     (let s1 = s\<lparr>se_process_index := se_process_index s + 1\<rparr>
      in if sint (se_process_index s1) < int (length (se_db_processs s1)) then h_OnQuerySuccess h s1 w
         else Some (H_Done, s1, w))"

text \<open>The body of the answer, with the defaults of an absent message.\<close>

definition rsp_query :: "session \<Rightarrow> u32 \<times> u64 \<times> pb_kvdb_data list" where
  "rsp_query s = (case ss_body (se_ss_response s) of Some (SsRspQuery r u ds) \<Rightarrow> (r, u, ds) | _ \<Rightarrow> (EN_KVDB_Sucess, 0, []))"

definition rsp_save :: "session \<Rightarrow> u32 \<times> u64 \<times> pb_kvdb_data list" where
  "rsp_save s = (case ss_body (se_ss_response s) of Some (SsRspSave r u ds) \<Rightarrow> (r, u, ds) | _ \<Rightarrow> (EN_KVDB_Sucess, 0, []))"

definition QueryResponse :: "'z msg_env_scheme \<Rightarrow> 'w handler \<Rightarrow> 'w hstep" where
  "QueryResponse env h s w =
     (let (result, uid, datas) = rsp_query s in
      if result = EN_KVDB_Sucess then
        (case ParseDBData env datas (pb_db_data0\<lparr>d_uid := Some uid\<rparr>) of
           None \<Rightarrow> h_OnQueryFailed h s w
         | Some player \<Rightarrow>
             (case GetDBProcessIndex uid s of
                None \<Rightarrow> h_OnQueryFailed h s w
              | Some i \<Rightarrow>
                  (let s1 = SetDBData i player s
                   in if HaveAllDBData s1 then h_OnQuerySuccess h s1 w else Some (H_Hup, s1, w))))
      else h_OnQueryFailed h s w)"

definition SaveResponse :: "'z msg_env_scheme \<Rightarrow> 'w handler \<Rightarrow> 'w hstep" where
  "SaveResponse env h s w =
     (let (result, uid, datas) = rsp_save s in
      if result = EN_KVDB_Sucess then h_OnSaveSuccess h s w
      else if result = EN_KVDB_Ver_Diff then
        (let s1 = s\<lparr>se_redo_count := se_redo_count s + 1\<rparr> in
         if se_redo_count s1 \<ge> EN_Max_DB_Redo_Time then h_OnSaveFailed h s1 w
         else
           (case ParseDBData env datas (pb_db_data0\<lparr>d_uid := Some uid\<rparr>) of
              None \<Rightarrow> h_OnSaveFailed h s1 w
            | Some player \<Rightarrow>
                (case GetDBProcessIndex uid s1 of
                   None \<Rightarrow> h_OnSaveFailed h s1 w
                 | Some i \<Rightarrow> h_OnQuerySuccess h (ClearEvents (SetDBData i player s1)) w)))
      else h_OnSaveFailed h s w)"

definition QueryAllData :: "'z msg_env_scheme \<Rightarrow> session \<Rightarrow> 'w world_scheme \<Rightarrow> hresult \<times> session \<times> 'w world_scheme" where
  "QueryAllData env s w =
     (let (ok, s1, w1) = SendQueryToDBProxy env s w in (if ok then H_Hup else H_Failed, s1, w1))"

definition SaveOneData :: "'z msg_env_scheme \<Rightarrow> session \<Rightarrow> 'w world_scheme \<Rightarrow> hresult \<times> session \<times> 'w world_scheme" where
  "SaveOneData env s w =
     (let (ok, s1, w1) = SendSaveToDBProxy env s w in (if ok then H_Hup else H_Failed, s1, w1))"

subsection \<open>Events\<close>

text \<open>A later field of the same name replaces an earlier one in the map.\<close>

definition event_num :: "string \<Rightarrow> pb_event \<Rightarrow> u64" where
  "event_num key e = (case map_of (rev (ev_num_fields e)) key of None \<Rightarrow> 0 | Some v \<Rightarrow> v)"

definition promoter_msg :: "pb_event \<Rightarrow> pb_ss_msg" where
  "promoter_msg e =
     (let pid = event_num ''promoter_id'' e in
      ss_msg0\<lparr>ss_uid := pid, ss_body := Some (
        if event_num ''reason'' e = ucast EN_Acc_Game_Refund
        then SsNotifyPromoterGold pid 0 (- event_num ''giving_num'' e)
        else SsNotifyPromoterGold pid (event_num ''charge_num'' e) (event_num ''giving_num'' e))\<rparr>)"

text \<open>\<open>return\<close>, not \<open>continue\<close>, on an account event that is not an income.\<close>

fun post_events :: "'z msg_env_scheme \<Rightarrow> pb_event list \<Rightarrow> session \<Rightarrow> 'w world_scheme \<Rightarrow> session \<times> 'w world_scheme" where
  "post_events env [] s w = (s, w)"
| "post_events env (e # es) s w =
     (let (_, w1) = SendMsgToEvent env e w in
      if ev_name e = ''gold_account'' then
        (if sint (event_num ''num'' e) \<le> 0 then (s, w1)
         else (let (_, s1, w2) = SendMsgToPromoter env (promoter_msg e) s w1 in post_events env es s1 w2))
      else post_events env es s w1)"

definition OnPostMessage :: "'z msg_env_scheme \<Rightarrow> session \<Rightarrow> 'w world_scheme \<Rightarrow> session \<times> 'w world_scheme" where
  "OnPostMessage env s w = post_events env (se_events s) s w"

subsection \<open>Process\<close>

text \<open>\<open>Ret (None, w)\<close>: the session has been released.\<close>

definition ProcessDone :: "'z msg_env_scheme \<Rightarrow> session \<Rightarrow> 'w world_scheme \<Rightarrow> (session option \<times> 'w world_scheme) outcome" where
  "ProcessDone env s w = Ret (None, snd (OnPostMessage env s w))"

definition ProcessFailed :: "session \<Rightarrow> 'w world_scheme \<Rightarrow> (session option \<times> 'w world_scheme) outcome" where
  "ProcessFailed s w = Ret (None, w)"

text \<open>The \<open>while (true)\<close> loop; the outer \<open>None\<close> is a loop that does not end.\<close>

partial_function (option) process_loop :: "'z msg_env_scheme \<Rightarrow> 'w world_scheme handler \<Rightarrow> hresult \<Rightarrow> session
    \<Rightarrow> 'w world_scheme \<Rightarrow> (session option \<times> 'w world_scheme) outcome option" where
  "process_loop env h r s w =
     (case r of
        H_Query \<Rightarrow> process_loop env h (fst (QueryAllData env s w)) (fst (snd (QueryAllData env s w)))
                     (snd (snd (QueryAllData env s w)))
      | H_Save \<Rightarrow> process_loop env h (fst (SaveOneData env s w)) (fst (snd (SaveOneData env s w)))
                     (snd (snd (SaveOneData env s w)))
      | H_Next \<Rightarrow>
          (case ProcessNext h s w of
             None \<Rightarrow> Some Crash
           | Some x \<Rightarrow> process_loop env h (fst x) (fst (snd x)) (snd (snd x)))
      | H_Done \<Rightarrow> Some (ProcessDone env s w)
      | H_Failed \<Rightarrow> Some (ProcessFailed s w)
      | H_Hup \<Rightarrow> Some (Ret (Some s, w)))"

definition Process :: "'z msg_env_scheme \<Rightarrow> 'w world_scheme handler \<Rightarrow> session \<Rightarrow> 'w world_scheme
    \<Rightarrow> (session option \<times> 'w world_scheme) outcome option" where
  "Process env h s w =
     (case (case se_session_state s of
              On_Message \<Rightarrow> h_OnMessage h s w
            | Wait_Response \<Rightarrow> h_OnServerResponse h s w
            | Wait_Query \<Rightarrow> QueryResponse env h s w
            | Wait_Save \<Rightarrow> SaveResponse env h s w) of
        None \<Rightarrow> Some Crash
      | Some (r, s1, w1) \<Rightarrow> process_loop env h r s1 w1)"

subsection \<open>Properties\<close>

text \<open>A session whose index lies within its queries, and handlers that keep it so; a handler that
  asks for the next data leaves index and number of queries alone.\<close>

definition sess_ok :: "session \<Rightarrow> bool" where
  "sess_ok s \<longleftrightarrow> unat (se_process_index s) \<le> length (se_db_processs s) \<and> length (se_db_processs s) < 2 ^ 30"

definition step_ok :: "'w hstep \<Rightarrow> bool" where
  "step_ok f \<longleftrightarrow> (\<forall>s w. sess_ok s \<longrightarrow> (\<exists>r s' w'. f s w = Some (r, s', w') \<and> sess_ok s'))"

definition handler_ok :: "'w handler \<Rightarrow> bool" where
  "handler_ok h \<longleftrightarrow> step_ok (h_OnMessage h) \<and> step_ok (h_OnServerResponse h) \<and> step_ok (h_OnQuerySuccess h)
     \<and> step_ok (h_OnSaveSuccess h) \<and> step_ok (h_OnQueryFailed h) \<and> step_ok (h_OnSaveFailed h)
     \<and> (\<forall>s w s' w'. h_OnQuerySuccess h s w = Some (H_Next, s', w') \<longrightarrow>
          se_process_index s' = se_process_index s \<and> length (se_db_processs s') = length (se_db_processs s))"

lemma handler_okD:
  "handler_ok h \<Longrightarrow> h_OnQuerySuccess h s w = Some (H_Next, s', w') \<Longrightarrow>
     se_process_index s' = se_process_index s \<and> length (se_db_processs s') = length (se_db_processs s)"
  unfolding handler_ok_def by blast

lemma step_okE:
  assumes "step_ok f" "sess_ok s"
  obtains r s' w' where "f s w = Some (r, s', w')" "sess_ok s'"
  using assms unfolding step_ok_def by blast

lemma loop_end [simp]:
  "process_loop env h H_Done s w = Some (ProcessDone env s w)"
  "process_loop env h H_Failed s w = Some (ProcessFailed s w)"
  "process_loop env h H_Hup s w = Some (Ret (Some s, w))"
  by (subst process_loop.simps, simp)+

lemma loop_next:
  "process_loop env h H_Next s w = (case ProcessNext h s w of
     None \<Rightarrow> Some Crash | Some x \<Rightarrow> process_loop env h (fst x) (fst (snd x)) (snd (snd x)))"
  by (subst process_loop.simps) simp

lemma loop_stops:
  assumes "r \<noteq> H_Next"
  shows "\<exists>y. process_loop env h r s w = Some (Ret y)"
proof -
  have fin: "\<exists>y. process_loop env h q t v = Some (Ret y)" if "q = H_Hup \<or> q = H_Failed" for q t v
    using that by (auto simp: ProcessFailed_def)
  have q: "fst (QueryAllData env s w) = H_Hup \<or> fst (QueryAllData env s w) = H_Failed"
    "fst (SaveOneData env s w) = H_Hup \<or> fst (SaveOneData env s w) = H_Failed"
    by (auto simp: QueryAllData_def SaveOneData_def split: prod.splits)
  show ?thesis
  proof (cases r)
    case H_Query
    then show ?thesis using fin [OF q(1)] by (subst process_loop.simps) simp
  next
    case H_Save
    then show ?thesis using fin [OF q(2)] by (subst process_loop.simps) simp
  qed (use assms in \<open>simp_all add: ProcessDone_def ProcessFailed_def\<close>)
qed

lemma sint_small: "unat (i :: u32) < 2 ^ 31 \<Longrightarrow> sint i = int (unat i)"
proof -
  assume "unat i < 2 ^ 31"
  then have "int (unat i) < 2 ^ 31" by (metis of_nat_less_iff of_nat_numeral of_nat_power)
  then have u: "uint i < 2 ^ 31" "0 \<le> uint i" by (simp_all only: uint_nat of_nat_0_le_iff)
  then have "sint i = uint i" unfolding sint_uint
    by (intro signed_take_bit_int_eq_self) (auto intro: order_trans [OF _ u(2)])
  then show ?thesis by simp
qed

lemma process_loop_returns:
  assumes h: "handler_ok h"
  shows "sess_ok s \<Longrightarrow> \<exists>y. process_loop env h r s w = Some (Ret y)"
proof (induction "length (se_db_processs s) - unat (se_process_index s)" arbitrary: r s w rule: less_induct)
  case less
  show ?case
  proof (cases "r = H_Next")
    case True
    let ?s1 = "s\<lparr>se_process_index := se_process_index s + 1\<rparr>"
    have b: "unat (se_process_index s) \<le> length (se_db_processs s)" "length (se_db_processs s) < 2 ^ 30"
      using less.prems by (simp_all add: sess_ok_def)
    then have u: "unat (se_process_index s + 1) = unat (se_process_index s) + 1" by (simp add: unat_word_ariths)
    have "unat (se_process_index s + 1) < 2 ^ 31" using b u by simp
    have idx: "se_process_index ?s1 = se_process_index s + 1" by simp
    have si: "sint (se_process_index ?s1) = int (unat (se_process_index s) + 1)"
      unfolding idx sint_small [OF \<open>unat (se_process_index s + 1) < 2 ^ 31\<close>] u ..
    have len: "length (se_db_processs ?s1) = length (se_db_processs s)" by simp
    show ?thesis
    proof (cases "unat (se_process_index s) + 1 < length (se_db_processs s)")
      case False
      then have "\<not> sint (se_process_index ?s1) < int (length (se_db_processs ?s1))" by (simp only: si len of_nat_less_iff not_False_eq_True)
      then have "ProcessNext h s w = Some (H_Done, ?s1, w)" unfolding ProcessNext_def Let_def by (rule if_not_P)
      then show ?thesis by (simp add: True loop_next ProcessDone_def)
    next
      case inside: True
      then have "sint (se_process_index ?s1) < int (length (se_db_processs ?s1))" by (simp only: si len of_nat_less_iff not_False_eq_True)
      then have pn: "ProcessNext h s w = h_OnQuerySuccess h ?s1 w" unfolding ProcessNext_def Let_def by (rule if_P)
      have "step_ok (h_OnQuerySuccess h)" "sess_ok ?s1"
        using h inside b u by (simp_all add: handler_ok_def sess_ok_def)
      then obtain r2 s2 w2 where n: "h_OnQuerySuccess h ?s1 w = Some (r2, s2, w2)" "sess_ok s2"
        by (rule step_okE)
      with pn have step: "process_loop env h r s w = process_loop env h r2 s2 w2"
        by (simp add: True loop_next)
      show ?thesis
      proof (cases "r2 = H_Next")
        case True
        from handler_okD [OF h n(1) [unfolded True]]
        have "se_process_index s2 = se_process_index s + 1" "length (se_db_processs s2) = length (se_db_processs s)"
          by simp_all
        then show ?thesis unfolding step using less.hyps [of s2] n(2) inside u by simp
      qed (use step loop_stops in simp)
    qed
  qed (rule loop_stops)
qed

text \<open>For a handler whose steps all return and keep the index of the session within its queries (\<open>handler_ok\<close>, as the steps of the base
  class do), \<open>Process\<close> returns with the session released or waiting for an answer: every further
  round of its loop moves to the next of the session's queries.\<close>

theorem Process_returns:
  assumes "handler_ok h" "sess_ok s"
  shows "\<exists>so w'. Process env h s w = Some (Ret (so, w'))"
proof -
  have sd: "sess_ok (SetDBData i d t) = sess_ok t" "sess_ok (ClearEvents t) = sess_ok t" for i d t
    by (simp_all add: sess_ok_def SetDBData_def ClearEvents_def)
  have rd: "sess_ok (t\<lparr>se_redo_count := c\<rparr>) = sess_ok t" for t c by (simp add: sess_ok_def)
  note H = assms(1) [unfolded handler_ok_def]
  have "step_ok (QueryResponse env h)"
  proof (unfold step_ok_def, intro allI impI)
    fix t :: session and v :: "'a world_scheme"
    assume t: "sess_ok t"
    obtain r u ds where q: "rsp_query t = (r, u, ds)" by (rule prod_cases3)
    have "QueryResponse env h t v \<in> {h_OnQueryFailed h t v}
        \<union> {x. \<exists>i d. x = h_OnQuerySuccess h (SetDBData i d t) v \<or> x = Some (H_Hup, SetDBData i d t, v)}"
      by (auto simp: QueryResponse_def q Let_def split: option.split)
    with t H sd show "\<exists>r s' w'. QueryResponse env h t v = Some (r, s', w') \<and> sess_ok s'"
      unfolding step_ok_def by fastforce
  qed
  moreover have "step_ok (SaveResponse env h)"
  proof (unfold step_ok_def, intro allI impI)
    fix t :: session and v :: "'a world_scheme"
    assume t: "sess_ok t"
    obtain r u ds where q: "rsp_save t = (r, u, ds)" by (rule prod_cases3)
    have "SaveResponse env h t v \<in> {h_OnSaveSuccess h t v, h_OnSaveFailed h t v}
        \<union> {x. \<exists>c i d. x = h_OnSaveFailed h (t\<lparr>se_redo_count := c\<rparr>) v
              \<or> x = h_OnQuerySuccess h (ClearEvents (SetDBData i d (t\<lparr>se_redo_count := c\<rparr>))) v}"
      by (auto simp: SaveResponse_def q Let_def split: option.split)
    with t H sd rd show "\<exists>r s' w'. SaveResponse env h t v = Some (r, s', w') \<and> sess_ok s'"
      unfolding step_ok_def by fastforce
  qed
  ultimately obtain r s1 w1 where "(case se_session_state s of
              On_Message \<Rightarrow> h_OnMessage h s w
            | Wait_Response \<Rightarrow> h_OnServerResponse h s w
            | Wait_Query \<Rightarrow> QueryResponse env h s w
            | Wait_Save \<Rightarrow> SaveResponse env h s w) = Some (r, s1, w1)" "sess_ok s1"
    using H assms(2) unfolding step_ok_def by (cases "se_session_state s") (simp_all, metis+)
  with process_loop_returns [OF assms(1), of s1] show ?thesis by (auto simp: Process_def)
qed

lemma base_handler_ok: "handler_ok (base_handler env)"
  by (simp add: handler_ok_def base_handler_def step_ok_def sess_ok_def SendMsgToClient_def Let_def split: prod.split)

definition world0 :: world where
  "world0 = \<lparr>w_out = [], w_timers = timer_mgr0 4, w_players = player_mgr0 4,
     w_machines = \<lparr>kp_om = om_new machine0 4 0, kp_index = (\<lambda>_. None)\<rparr>\<rparr>"

lemma Process_returns_witness:
  "\<exists>so w'. Process test_env (base_handler test_env) (AddQueryKey 7 kGoldInfo session0) world0 = Some (Ret (so, w'))"
  by (rule Process_returns [OF base_handler_ok]) (simp add: sess_ok_def AddQueryKey_def session0_def)

text \<open>Property C13. When another server saved first, the session starts over on the fresh data: the
  queried part is replaced by what the database sent, the events of the failed attempt are gone,
  the other parts stay, and after five refusals the session fails instead.\<close>

theorem SaveResponse_redo:
  assumes "rsp_save s = (EN_KVDB_Ver_Diff, uid, datas)"
    and "ParseDBData env datas (pb_db_data0\<lparr>d_uid := Some uid\<rparr>) = Some d"
    and "GetDBProcessIndex uid s = Some i"
  shows "if se_redo_count s + 1 \<ge> 5 then SaveResponse env h s w = h_OnSaveFailed h (s\<lparr>se_redo_count := se_redo_count s + 1\<rparr>) w
    else \<exists>s1. SaveResponse env h s w = h_OnQuerySuccess h s1 w \<and> se_redo_count s1 = se_redo_count s + 1
      \<and> se_events s1 = [] \<and> GetDBData i s1 = Some d \<and> (\<forall>j. j \<noteq> i \<longrightarrow> GetDBData j s1 = GetDBData j s)
      \<and> se_process_index s1 = se_process_index s \<and> se_session_id s1 = se_session_id s"
proof -
  have i: "i < length (se_db_processs s)"
    using index_of_Some [OF assms(3) [unfolded GetDBProcessIndex_def]] by blast
  have g: "GetDBProcessIndex uid (s\<lparr>se_redo_count := se_redo_count s + 1\<rparr>) = Some i"
    using assms(3) by (simp add: GetDBProcessIndex_def)
  show ?thesis
  proof (cases "se_redo_count s + 1 \<ge> 5")
    case True
    then show ?thesis by (simp add: SaveResponse_def assms(1))
  next
    case False
    let ?s1 = "ClearEvents (SetDBData i d (s\<lparr>se_redo_count := se_redo_count s + 1\<rparr>))"
    have "SaveResponse env h s w = h_OnQuerySuccess h ?s1 w"
      using False g assms by (simp add: SaveResponse_def Let_def)
    moreover have "GetDBData i ?s1 = Some d" "j \<noteq> i \<Longrightarrow> GetDBData j ?s1 = GetDBData j s" for j
      using i by (auto simp: GetDBData_def ClearEvents_def SetDBData_def)
    moreover have "se_redo_count ?s1 = se_redo_count s + 1" "se_events ?s1 = []"
      "se_process_index ?s1 = se_process_index s" "se_session_id ?s1 = se_session_id s"
      by (simp_all add: ClearEvents_def SetDBData_def)
    ultimately show ?thesis using False by auto
  qed
qed

definition stale_session :: session where
  "stale_session = (AddQueryKey 7 kGoldInfo session0)\<lparr>se_session_state := Wait_Save,
     se_events := [\<lparr>ev_name = ''gold_account'', ev_num_fields = [], ev_str_fields = []\<rparr>],
     se_ss_response := ss_msg0\<lparr>ss_body := Some (SsRspSave EN_KVDB_Ver_Diff 7
        [\<lparr>kv_key = kGoldInfo, kv_value = Some [42], kv_version = 8, kv_update_time = 0\<rparr>])\<rparr>\<rparr>"

lemma SaveResponse_redo_witness:
  "\<exists>s1 d. SaveResponse test_env (base_handler test_env) stale_session world0
       = h_OnQuerySuccess (base_handler test_env) s1 world0
     \<and> se_events s1 = [] \<and> se_redo_count s1 = 1 \<and> GetDBData 0 s1 = Some d \<and> gi_version (gold_info d) = 8"
proof -
  have r: "rsp_save stale_session = (EN_KVDB_Ver_Diff, 7, [\<lparr>kv_key = kGoldInfo, kv_value = Some [42], kv_version = 8, kv_update_time = 0\<rparr>])"
    by (simp add: rsp_save_def stale_session_def)
  have i: "GetDBProcessIndex 7 stale_session = Some 0"
    by (simp add: GetDBProcessIndex_def stale_session_def AddQueryKey_def session0_def)
  obtain d where d: "ParseDBData test_env [\<lparr>kv_key = kGoldInfo, kv_value = Some [42], kv_version = 8, kv_update_time = 0\<rparr>]
      (pb_db_data0\<lparr>d_uid := Some 7\<rparr>) = Some d" "gi_version (gold_info d) = 8"
    by (simp add: ConstructDBData_def test_env_def get_part_def) (simp add: proto_simps)
  have "se_redo_count stale_session = 0" by (simp add: stale_session_def AddQueryKey_def session0_def)
  moreover have "\<not> (5::u32) \<le> 1" by (simp add: word_le_nat_alt)
  ultimately show ?thesis
    using SaveResponse_redo [OF r d(1) i, of "base_handler test_env" world0] d(2) by auto
qed

text \<open>An expense ends the posting of a session's events: after the first gold_account
  event whose number is not positive no further event is sent, and no promoter hears of an
  income logged after it.\<close>

theorem post_events_cut:
  assumes "ev_name e = ''gold_account''" "sint (event_num ''num'' e) \<le> 0"
  shows "post_events env (es @ e # fs) s w = post_events env (es @ [e]) s w"
proof (induction es arbitrary: s w)
  case Nil
  with assms show ?case by (auto split: prod.split)
next
  case (Cons x es)
  then show ?case by (auto split: prod.split)
qed

definition expense :: pb_event where
  "expense = \<lparr>ev_name = ''gold_account'', ev_num_fields = [(''num'', -20)], ev_str_fields = []\<rparr>"

definition income :: pb_event where
  "income = \<lparr>ev_name = ''gold_account'', ev_num_fields = [(''num'', 50), (''promoter_id'', 3)], ev_str_fields = []\<rparr>"

lemma post_events_cut_witness:
  "w_out (snd (post_events test_env [expense, income] session0 world0)) = [ToEvent expense]
   \<and> length (w_out (snd (post_events test_env [income, expense] session0 world0))) = 3"
proof -
  have "sint (event_num ''num'' expense) \<le> 0" by (simp add: event_num_def expense_def)
  from post_events_cut [OF _ this, where es = "[]" and fs = "[income]"]
  have cut: "post_events test_env [expense, income] session0 world0 = post_events test_env [expense] session0 world0"
    by (simp add: expense_def)
  show ?thesis unfolding cut
    by (simp add: expense_def income_def event_num_def SendMsgToEvent_def emit_def test_env_def world0_def
        SendMsgToPromoter_def send_hashed_def Let_def)
qed

text \<open>A session works on its data only when all of it has arrived: an answer of the
  database is stored under the uid it is for, and the handler is called only when no query of
  the session is left open; until then the session waits.\<close>

theorem QueryResponse_waits:
  assumes "rsp_query s = (EN_KVDB_Sucess, uid, datas)"
    and "ParseDBData env datas (pb_db_data0\<lparr>d_uid := Some uid\<rparr>) = Some d"
    and "GetDBProcessIndex uid s = Some i"
  shows "\<exists>s1. dp_player (se_db_processs s1 ! i) = Some d
    \<and> (\<forall>j. j \<noteq> i \<longrightarrow> se_db_processs s1 ! j = se_db_processs s ! j)
    \<and> (if \<exists>p\<in>set (se_db_processs s1). dp_player p = None then QueryResponse env h s w = Some (H_Hup, s1, w)
       else QueryResponse env h s w = h_OnQuerySuccess h s1 w)"
proof -
  have i: "i < length (se_db_processs s)"
    using index_of_Some [OF assms(3) [unfolded GetDBProcessIndex_def]] by blast
  have h: "HaveAllDBData t \<longleftrightarrow> \<not> (\<exists>p\<in>set (se_db_processs t). dp_player p = None)" for t
    by (auto simp: HaveAllDBData_def list_all_iff)
  show ?thesis
    using assms i by (intro exI [of _ "SetDBData i d s"])
      (auto simp: QueryResponse_def Let_def h SetDBData_def simp del: not_None_eq)
qed

definition asking_session :: session where
  "asking_session = (AddQueryKey 9 kGoldInfo (AddQueryKey 7 kGoldInfo session0))\<lparr>se_session_state := Wait_Query,
     se_ss_response := ss_msg0\<lparr>ss_body := Some (SsRspQuery EN_KVDB_Sucess 7
        [\<lparr>kv_key = kGoldInfo, kv_value = Some [42], kv_version = 8, kv_update_time = 0\<rparr>])\<rparr>\<rparr>"

lemma QueryResponse_waits_witness:
  "\<exists>s1. QueryResponse test_env (base_handler test_env) asking_session world0 = Some (H_Hup, s1, world0)
     \<and> dp_player (se_db_processs s1 ! 0) \<noteq> None"
proof -
  have r: "rsp_query asking_session = (EN_KVDB_Sucess, 7, [\<lparr>kv_key = kGoldInfo, kv_value = Some [42], kv_version = 8, kv_update_time = 0\<rparr>])"
    by (simp add: rsp_query_def asking_session_def)
  have p: "se_db_processs asking_session = [\<lparr>dp_uid = 7, dp_keys = [kGoldInfo], dp_player = None\<rparr>,
      \<lparr>dp_uid = 9, dp_keys = [kGoldInfo], dp_player = None\<rparr>]"
    by (simp add: asking_session_def AddQueryKey_def session0_def)
  have i: "GetDBProcessIndex 7 asking_session = Some 0" by (simp add: GetDBProcessIndex_def p)
  obtain d where d: "ParseDBData test_env [\<lparr>kv_key = kGoldInfo, kv_value = Some [42], kv_version = 8, kv_update_time = 0\<rparr>]
      (pb_db_data0\<lparr>d_uid := Some 7\<rparr>) = Some d"
    by (simp add: ConstructDBData_def test_env_def get_part_def)
  have "\<not> HaveAllDBData (SetDBData 0 d asking_session)" by (simp add: HaveAllDBData_def SetDBData_def p)
  then have "QueryResponse test_env (base_handler test_env) asking_session world0
      \<noteq> h_OnQuerySuccess (base_handler test_env) t world0" if "True" for t
    using r i d by (simp add: QueryResponse_def base_handler_def)
  with QueryResponse_waits [OF r d i, of "base_handler test_env" world0] show ?thesis
    by (auto split: if_splits)
qed

end
