(* ===== verification/LevelDb.thy ===== *)
theory LevelDb
  imports HandlerBase "HOL-Library.Signed_Division"
begin

text \<open>
  svr/dbproxysvr: the db proxy, the one process that stores the database parts of the players it
  is responsible for. A part is saved with a version, and a save is accepted only when its
  version is the successor of the stored one (leveldb_manager.cpp, message_handler_leveldb.cpp;
  the days of include/hpp/time.hpp). LevelDB is a pair of functions \<open>ldb_get\<close>, \<open>ldb_put\<close> on an
  abstract database; \<open>kv_enc\<close>, \<open>kv_dec\<close> are the protobuf encoding of a stored record.
\<close>

subsection \<open>Keys\<close>

text \<open>\<open>snprintf("%llu|%u", uid, key)\<close>.\<close>

definition digit :: "nat \<Rightarrow> char" where
  "digit n = char_of (48 + n mod 10)"

fun decimal :: "nat \<Rightarrow> string" where
  "decimal n = (if n < 10 then [digit n] else decimal (n div 10) @ [digit n])"

declare decimal.simps [simp del]

definition GenerateDBKey :: "u64 \<Rightarrow> u32 \<Rightarrow> string" where
  "GenerateDBKey uid key = decimal (unat uid) @ ''|'' @ decimal (unat key)"

fun undigits :: "string \<Rightarrow> nat \<Rightarrow> nat" where
  "undigits [] acc = acc"
| "undigits (c # cs) acc = undigits cs (10 * acc + (of_char c - 48))"

lemma undigits_append: "undigits (cs @ ds) acc = undigits ds (undigits cs acc)"
  by (induction cs arbitrary: acc) auto

lemma of_char_digit: "of_char (digit n) = 48 + n mod 10"
  by (simp add: digit_def of_char_of)

lemma decimal_value: "undigits (decimal n) 0 = n"
proof (induction n rule: decimal.induct)
  case (1 n)
  show ?case
  proof (cases "n < 10")
    case True
    then show ?thesis by (simp add: decimal.simps [of n] of_char_digit)
  next
    case False
    then have "undigits (decimal (n div 10)) 0 = n div 10" using 1 by simp
    with False show ?thesis by (simp add: decimal.simps [of n] undigits_append of_char_digit)
  qed
qed

lemma decimal_no_bar: "CHR ''|'' \<notin> set (decimal n)"
proof (induction n rule: decimal.induct)
  case (1 n)
  have "(of_char (digit n) :: nat) \<noteq> of_char (CHR ''|'')" using of_char_digit [of n] by simp
  then have d: "CHR ''|'' \<noteq> digit n" by metis
  show ?case
  proof (cases "n < 10")
    case True
    with d show ?thesis by (simp add: decimal.simps [of n])
  next
    case False
    with d 1 show ?thesis by (simp add: decimal.simps [of n])
  qed
qed

lemma split_at_unique:
  "xs @ c # ys = xs' @ c # ys' \<Longrightarrow> c \<notin> set xs \<Longrightarrow> c \<notin> set xs' \<Longrightarrow> xs = xs' \<and> ys = ys'"
proof (induction xs arbitrary: xs')
  case Nil
  then show ?case by (cases xs') auto
next
  case (Cons x xs)
  then show ?case by (cases xs') auto
qed

text \<open>Different parts have different keys.\<close>

lemma GenerateDBKey_inj:
  assumes "GenerateDBKey uid key = GenerateDBKey uid' key'"
  shows "uid = uid' \<and> key = key'"
proof -
  have "decimal (unat uid) = decimal (unat uid') \<and> decimal (unat key) = decimal (unat key')"
    by (rule split_at_unique [of _ "CHR ''|''"])
       (use assms decimal_no_bar in \<open>simp_all add: GenerateDBKey_def\<close>)
  then have "unat uid = unat uid'" "unat key = unat key'" by (metis decimal_value)+
  then show ?thesis by (simp add: word_unat_eq_iff)
qed

subsection \<open>Days\<close>

text \<open>include/hpp/time.hpp. \<open>localtime_r\<close> and \<open>mktime\<close> of the C library are parameters: a zone. A
  \<open>time_t\<close> is an \<open>int\<close>.\<close>

record tm =
  tm_year :: int
  tm_mon :: int
  tm_mday :: int
  tm_hour :: int
  tm_min :: int
  tm_sec :: int
  tm_isdst :: int

record zone =
  localtime :: "int \<Rightarrow> tm"
  mktime :: "tm \<Rightarrow> int"

text \<open>\<open>%d\<close> and \<open>%02d\<close>. The buffer of twelve bytes holds a year of four digits.\<close>

definition fmt_d :: "int \<Rightarrow> string" where
  "fmt_d i = (if i < 0 then CHR ''-'' # decimal (nat (- i)) else decimal (nat i))"

definition fmt_02d :: "int \<Rightarrow> string" where
  "fmt_02d i = (if 0 \<le> i \<and> i < 10 then CHR ''0'' # fmt_d i else fmt_d i)"

definition GetYYYYMMDD :: "zone \<Rightarrow> int \<Rightarrow> string" where
  "GetYYYYMMDD z t = (let tm = localtime z t in
     ''_'' @ fmt_d (tm_year tm + 1900) @ ''_'' @ fmt_02d (tm_mon tm + 1) @ ''_'' @ fmt_02d (tm_mday tm))"

definition tm_midnight :: "tm \<Rightarrow> tm" where
  "tm_midnight tm = tm\<lparr>tm_hour := 0, tm_min := 0, tm_sec := 0\<rparr>"

text \<open>\<open>(time2 - time1) / SECS_PER_DAY\<close> is a division of \<open>time_t\<close>, which truncates.\<close>

definition GetDiffDays :: "zone \<Rightarrow> int \<Rightarrow> int \<Rightarrow> u32" where
  "GetDiffDays z t1 t2 =
     (let time1 = min t1 t2; time2 = max t1 t2;
          m1 = mktime z (tm_midnight (localtime z time1)); m2 = mktime z (tm_midnight (localtime z time2))
      in of_int ((m2 - m1) sdiv 86400))"

text \<open>The documented behaviour of the two functions in a zone without daylight saving, \<open>off\<close> seconds east
  of Greenwich: the midnight of a time's day is a whole number of days of 86400 seconds away, and
  times of the same day have the same date.\<close>

definition day_of :: "int \<Rightarrow> int \<Rightarrow> int" where
  "day_of off t = (t + off) div 86400"

definition no_dst :: "int \<Rightarrow> zone \<Rightarrow> bool" where
  "no_dst off z \<longleftrightarrow>
     (\<forall>t. mktime z (tm_midnight (localtime z t)) = 86400 * day_of off t - off)
     \<and> (\<forall>s t. day_of off s = day_of off t \<longrightarrow> tm_year (localtime z s) = tm_year (localtime z t)
          \<and> tm_mon (localtime z s) = tm_mon (localtime z t) \<and> tm_mday (localtime z s) = tm_mday (localtime z t))"

text \<open>The times before the year 10000, up to which the date's buffer has room.\<close>

definition clock_ok :: "int \<Rightarrow> bool" where
  "clock_ok t \<longleftrightarrow> 0 \<le> t \<and> t < 253402214400"

text \<open>In such a zone the difference is that of the days, and no difference means the same date.\<close>

lemma GetDiffDays_no_dst:
  assumes "no_dst off z" "clock_ok s" "clock_ok t"
  shows "GetDiffDays z s t = of_int \<bar>day_of off s - day_of off t\<bar>"
    and "GetDiffDays z s t = 0 \<Longrightarrow> day_of off s = day_of off t"
    and "GetDiffDays z s t = 0 \<Longrightarrow> GetYYYYMMDD z s = GetYYYYMMDD z t"
proof -
  have mono: "day_of off a \<le> day_of off b" if "a \<le> b" for a b
    unfolding day_of_def by (rule zdiv_mono1) (use that in simp_all)
  have div: "(86400 * (n :: int)) sdiv 86400 = n" if "0 \<le> n" for n
    using that by (simp add: signed_divide_int_def sgn_if)
  have "GetDiffDays z s t = of_int ((86400 * \<bar>day_of off s - day_of off t\<bar>) sdiv 86400)"
  proof (cases "s \<le> t")
    case True
    then show ?thesis using assms(1) mono [OF True]
      by (simp add: GetDiffDays_def no_dst_def Let_def min_def max_def right_diff_distrib)
  next
    case False
    then show ?thesis using assms(1) mono [of t s]
      by (simp add: GetDiffDays_def no_dst_def Let_def min_def max_def right_diff_distrib)
  qed
  then show d: "GetDiffDays z s t = of_int \<bar>day_of off s - day_of off t\<bar>" by (simp only: div abs_ge_zero)
  have far: "day_of off a \<le> day_of off b + 3000000" if "clock_ok a" "clock_ok b" for a b
  proof -
    have "day_of off a \<le> day_of off (b + 3000000 * 86400)" by (rule mono) (use that in \<open>simp add: clock_ok_def\<close>)
    also have "\<dots> = day_of off b + 3000000" using div_mult_self1 [of 86400 "b + off" 3000000]
      by (simp add: day_of_def algebra_simps)
    finally show ?thesis .
  qed
  have "\<bar>day_of off s - day_of off t\<bar> \<le> 3000000" using far [of s t] far [of t s] assms(2,3) by simp
  then have small: "\<bar>day_of off s - day_of off t\<bar> < 2 ^ 32" by simp
  show same: "day_of off s = day_of off t" if "GetDiffDays z s t = 0"
  proof -
    have "(2 :: int) ^ 32 dvd \<bar>day_of off s - day_of off t\<bar>"
      using that d by (simp add: word_of_int_eq_0_iff del: dvd_abs_iff)
    then show ?thesis using small zdvd_imp_le [of "2 ^ 32" "\<bar>day_of off s - day_of off t\<bar>"] by linarith
  qed
  show "GetYYYYMMDD z s = GetYYYYMMDD z t" if "GetDiffDays z s t = 0"
  proof -
    have "tm_year (localtime z s) = tm_year (localtime z t) \<and> tm_mon (localtime z s) = tm_mon (localtime z t)
        \<and> tm_mday (localtime z s) = tm_mday (localtime z t)"
      using same [OF that] assms(1) unfolding no_dst_def by blast
    then show ?thesis by (simp add: GetYYYYMMDD_def Let_def)
  qed
qed

text \<open>A day of 23 hours, the first of daylight saving: the day after it is taken for the same day.\<close>

lemma GetDiffDays_short_day:
  assumes "s \<le> t" "mktime z (tm_midnight (localtime z t)) = mktime z (tm_midnight (localtime z s)) + 82800"
  shows "GetDiffDays z s t = 0"
  using assms by (simp add: GetDiffDays_def Let_def min_def max_def signed_divide_int_def)

text \<open>The calendar of Greenwich, counted day by day from the first of January 1970.\<close>

definition leap :: "int \<Rightarrow> bool" where
  "leap y \<longleftrightarrow> 4 dvd y \<and> (\<not> 100 dvd y \<or> 400 dvd y)"

definition month_days :: "int \<Rightarrow> int \<Rightarrow> int" where
  "month_days y m = (if m = 1 then if leap y then 29 else 28 else if m \<in> {3, 5, 8, 10} then 30 else 31)"

fun next_day :: "int \<times> int \<times> int \<Rightarrow> int \<times> int \<times> int" where
  "next_day (y, m, d) =
     (if d < month_days y m then (y, m, d + 1) else if m < 11 then (y, m + 1, 1) else (y + 1, 0, 1))"

definition leaps :: "int \<Rightarrow> int" where
  "leaps y = y div 4 - y div 100 + y div 400"

definition days_to_year :: "int \<Rightarrow> int" where
  "days_to_year y = 365 * (y - 1970) + leaps (y - 1) - leaps 1969"

definition days_to_month :: "int \<Rightarrow> int \<Rightarrow> int" where
  "days_to_month y m = sum_list (map (month_days y \<circ> int) [0..<nat m])"

definition utc :: zone where
  "utc = \<lparr>localtime = (\<lambda>t. let day = t div 86400; s = t mod 86400; (y, m, d) = (next_day ^^ nat day) (1970, 0, 1)
       in \<lparr>tm_year = y - 1900, tm_mon = m, tm_mday = (if day < 0 then day + 1 else d), tm_hour = s div 3600, tm_min = s mod 3600 div 60,
           tm_sec = s mod 60, tm_isdst = 0\<rparr>),
     mktime = (\<lambda>x. 86400 * (days_to_year (tm_year x + 1900) + days_to_month (tm_year x + 1900) (tm_mon x) + tm_mday x - 1)
       + 3600 * tm_hour x + 60 * tm_min x + tm_sec x)\<rparr>"

lemma div_step:
  fixes n y :: int
  assumes "0 < n"
  shows "y div n = (y - 1) div n + (if n dvd y then 1 else 0)"
proof -
  define q r where "q = (y - 1) div n" and "r = (y - 1) mod n"
  have r: "0 \<le> r" "r < n" "y = q * n + (r + 1)" using assms by (simp_all add: q_def r_def)
  show ?thesis
  proof (cases "r + 1 < n")
    case True
    then have "y div n = q" "y mod n = r + 1" using r by simp_all
    then show ?thesis using r(1) by (simp add: dvd_eq_mod_eq_0 flip: q_def)
  next
    case False
    then have "r + 1 = n" using r(2) by simp
    then have "y = (q + 1) * n" using r(3) by (simp add: distrib_right)
    then have "y div n = q + 1" "n dvd y" using assms by simp_all
    then show ?thesis by (simp flip: q_def)
  qed
qed

lemma leaps_step: "leaps y = leaps (y - 1) + (if leap y then 1 else 0)"
proof -
  have d: "100 dvd y \<Longrightarrow> 4 dvd y" "400 dvd y \<Longrightarrow> 100 dvd y" using dvd_trans [of 4 100 y] dvd_trans [of 100 400 y] by simp_all
  have arith: "y4 - y100 + y400 = a - b + c + (if p4 \<and> (\<not> p100 \<or> p400) then 1 else (0 :: int))"
    if "p100 \<Longrightarrow> p4" "p400 \<Longrightarrow> p100" "y4 = a + (if p4 then 1 else 0)" "y100 = b + (if p100 then 1 else 0)"
      "y400 = c + (if p400 then 1 else 0)" for p4 p100 p400 y4 y100 y400 a b c
    using that by auto
  show ?thesis unfolding leap_def leaps_def by (rule arith [OF d div_step div_step div_step]) simp_all
qed

lemma next_day_counts:
  fixes y m d :: int
  assumes "0 \<le> m" "m < 12" "next_day (y, m, d) = (y', m', d')" "d \<le> month_days y m"
  shows "days_to_year y' + days_to_month y' m' + d' = days_to_year y + days_to_month y m + d + 1" "0 \<le> m'" "m' < 12" "d' \<le> month_days y' m'"
proof -
  have year: "days_to_month y 12 = (if leap y then 366 else 365)" 
    by (simp add: days_to_month_def month_days_def upt_rec del: upt_Suc)
  have month: "days_to_month y (m + 1) = days_to_month y m + month_days y m"
    using assms(1) by (simp add: days_to_month_def nat_add_distrib)
  have next_year: "days_to_year (y + 1) = days_to_year y + (if leap y then 366 else 365)"
    using leaps_step [of y] by (simp add: days_to_year_def)
  consider "d < month_days y m" | "d = month_days y m" "m < 11" | "d = month_days y m" "m = 11" using assms(2,4) by linarith
  then show "days_to_year y' + days_to_month y' m' + d' = days_to_year y + days_to_month y m + d + 1"
  proof cases
    case 3
    then have "y' = y + 1" "m' = 0" "d' = 1" using assms(3) by simp_all
    moreover have "days_to_month (y + 1) 0 = 0" by (simp add: days_to_month_def)
    moreover have "days_to_month y 11 + month_days y 11 = days_to_month y 12" using month 3 by simp
    ultimately show ?thesis using 3 next_year year by (simp split: if_splits)
  qed (use assms(3) month in auto)
  show "0 \<le> m'" "m' < 12" "d' \<le> month_days y' m'"
    using assms by (auto simp: month_days_def split: if_splits)
qed

lemma calendar:
  "case (next_day ^^ n) (1970, 0, 1) of (y, m, d) \<Rightarrow>
     0 \<le> m \<and> m < 12 \<and> d \<le> month_days y m \<and> days_to_year y + days_to_month y m + d = int n + 1"
proof (induction n)
  case 0
  show ?case by (simp add: days_to_year_def days_to_month_def month_days_def)
next
  case (Suc n)
  obtain y m d where n: "(next_day ^^ n) (1970, 0, 1) = (y, m, d)" by (rule prod_cases3)
  obtain y' m' d' where s: "next_day (y, m, d) = (y', m', d')" by (rule prod_cases3)
  have "0 \<le> m" "m < 12" "d \<le> month_days y m" using Suc.IH n by simp_all
  from next_day_counts [OF this(1,2) s this(3)] Suc.IH n s show ?case by (simp del: next_day.simps)
qed

lemma utc_no_dst: "no_dst 0 utc"
proof -
  have "mktime utc (tm_midnight (localtime utc t)) = 86400 * day_of 0 t" for t
  proof -
    obtain y m d where n: "(next_day ^^ nat (t div 86400)) (1970, 0, 1) = (y, m, d)" by (rule prod_cases3)
    show ?thesis
    proof (cases "t div 86400 < 0")
      case True
      with n have "(y, m, d) = (1970, 0, 1)" by simp
      with True show ?thesis by (simp add: utc_def tm_midnight_def day_of_def Let_def days_to_year_def days_to_month_def)
    next
      case False
      with calendar [of "nat (t div 86400)"] n show ?thesis
        by (simp add: utc_def tm_midnight_def day_of_def Let_def)
    qed
  qed
  then show ?thesis by (simp add: no_dst_def day_of_def utc_def Let_def split_beta)
qed

subsection \<open>State\<close>

record ver_info =
  vi_version :: u32
  vi_update_time :: nat

record 'd ldb_ops =
  ldb_get :: "'d \<Rightarrow> string \<Rightarrow> byte list option option"
  ldb_put :: "'d \<Rightarrow> string \<Rightarrow> byte list \<Rightarrow> bool \<times> 'd"
  kv_enc :: "pb_kvdb_data \<Rightarrow> byte list"
  kv_dec :: "byte list \<Rightarrow> bool \<times> pb_kvdb_data"

text \<open>\<open>ldb_get\<close>: \<open>None\<close> is an error, \<open>Some None\<close> is not found.\<close>

record 'd db_world = world +
  dw_db :: 'd
  dw_versions :: "string \<Rightarrow> ver_info option"
  dw_version_update_time :: u32

definition kv_data0 :: pb_kvdb_data where
  "kv_data0 = \<lparr>kv_key = 0, kv_value = None, kv_version = 0, kv_update_time = 0\<rparr>"

subsection \<open>class LeveldbManager\<close>

definition ldb_Query :: "'d ldb_ops \<Rightarrow> u64 \<Rightarrow> u64 \<Rightarrow> u32 \<Rightarrow> 'd db_world \<Rightarrow> bool \<times> pb_kvdb_data \<times> 'd db_world" where
  "ldb_Query ops now uid key w =
     (let db_key = GenerateDBKey uid key; t = unat (GetTime now) in
      case ldb_get ops (dw_db w) db_key of
        None \<Rightarrow> (False, kv_data0, w)
      | Some None \<Rightarrow>
          (True, kv_data0\<lparr>kv_key := key\<rparr>,
           w\<lparr>dw_versions := (dw_versions w)(db_key \<mapsto> \<lparr>vi_version = 0, vi_update_time = t\<rparr>)\<rparr>)
      | Some (Some bytes) \<Rightarrow>
          (let (ok, data) = kv_dec ops bytes in
           if ok then (True, data,
             w\<lparr>dw_versions := (dw_versions w)(db_key \<mapsto> \<lparr>vi_version = kv_version data, vi_update_time = t\<rparr>)\<rparr>)
           else (False, data, w)))"

text \<open>\<open>_version_map[k].version += 1\<close> makes a zero entry when there is none.\<close>

definition ldb_Save :: "'d ldb_ops \<Rightarrow> u64 \<Rightarrow> u32 \<Rightarrow> pb_kvdb_data \<Rightarrow> 'd db_world \<Rightarrow> bool \<times> 'd db_world" where
  "ldb_Save ops uid key data w =
     (let buf = kv_enc ops data in
      if length buf > MAX_KVDB_BUF_LEN then (False, w)
      else
        let db_key = GenerateDBKey uid key; (ok, db) = ldb_put ops (dw_db w) db_key buf in
        if ok then
          (let old = (case dw_versions w db_key of None \<Rightarrow> \<lparr>vi_version = 0, vi_update_time = 0\<rparr> | Some i \<Rightarrow> i)
           in (True, w\<lparr>dw_db := db,
                dw_versions := (dw_versions w)(db_key \<mapsto> old\<lparr>vi_version := vi_version old + 1\<rparr>)\<rparr>))
        else (False, w\<lparr>dw_db := db\<rparr>))"

definition ldb_GetVersion :: "u64 \<Rightarrow> u32 \<Rightarrow> 'd db_world \<Rightarrow> u32 option" where
  "ldb_GetVersion uid key w = map_option vi_version (dw_versions w (GenerateDBKey uid key))"

definition VersionExpire :: "zone \<Rightarrow> u64 \<Rightarrow> 'd db_world \<Rightarrow> 'd db_world" where
  "VersionExpire z now_ms w =
     (let now = GetTime now_ms in
      if GetDiffDays z (uint (dw_version_update_time w - 10800)) (uint (now - 10800)) = 0 then w
      else w\<lparr>dw_version_update_time := now,
             dw_versions := (\<lambda>k. case dw_versions w k of
                None \<Rightarrow> None
              | Some i \<Rightarrow> if vi_update_time i + 86400 \<le> unat now then None else Some i)\<rparr>)"

subsection \<open>The handlers\<close>

definition req_query :: "session \<Rightarrow> u64 \<times> pb_kvdb_data list" where
  "req_query s = (case ss_body (se_ss_msg s) of Some (SsReqQuery uid datas) \<Rightarrow> (uid, datas) | _ \<Rightarrow> (0, []))"

definition req_save :: "session \<Rightarrow> u64 \<times> pb_kvdb_data list" where
  "req_save s = (case ss_body (se_ss_msg s) of Some (SsReqSave uid datas) \<Rightarrow> (uid, datas) | _ \<Rightarrow> (0, []))"

definition reply :: "'z msg_env_scheme \<Rightarrow> ss_body \<Rightarrow> session \<Rightarrow> 'w world_scheme \<Rightarrow> session \<times> 'w world_scheme" where
  "reply env body s w =
     (let (_, s1, w1) = SendMsgToResponse env (s\<lparr>se_ss_response := (se_ss_response s)\<lparr>ss_body := Some body\<rparr>\<rparr>) w
      in (s1, w1))"

text \<open>The loops that collect the current data; a failing query answers \<open>Failed\<close> at once and goes
  on. \<open>mk\<close> makes the answer from result, uid and data.\<close>

fun query_loop :: "'z msg_env_scheme \<Rightarrow> 'd ldb_ops \<Rightarrow> (u32 \<Rightarrow> pb_kvdb_data list \<Rightarrow> ss_body) \<Rightarrow> u64 \<Rightarrow> u32 list
    \<Rightarrow> pb_kvdb_data list \<Rightarrow> session \<Rightarrow> 'd db_world \<Rightarrow> pb_kvdb_data list \<times> session \<times> 'd db_world" where
  "query_loop env ops mk uid [] acc s w = (acc, s, w)"
| "query_loop env ops mk uid (key # keys) acc s w =
     (let (ok, data, w1) = ldb_Query ops (me_now env) uid key w; acc1 = acc @ [data] in
      if ok then query_loop env ops mk uid keys acc1 s w1
      else (let (s1, w2) = reply env (mk EN_KVDB_Failed acc1) s w1 in query_loop env ops mk uid keys acc1 s1 w2))"

definition HandlerQuery_OnMessage :: "'z msg_env_scheme \<Rightarrow> 'd ldb_ops \<Rightarrow> 'd db_world hstep" where
  "HandlerQuery_OnMessage env ops s w =
     (let (uid, datas) = req_query s;
          (acc, s1, w1) = query_loop env ops (\<lambda>r ds. SsRspQuery r 0 ds) uid (map kv_key datas) [] s w;
          (s2, w2) = reply env (SsRspQuery EN_KVDB_Sucess uid acc) s1 w1
      in Some (H_Done, s2, w2))"

text \<open>The version loop: \<open>stack i\<close> is what the uninitialised \<open>uint32 version\<close> holds in iteration \<open>i\<close> when no
  version is known. Result: whether a version differs.\<close>

fun version_loop :: "'z msg_env_scheme \<Rightarrow> (nat \<Rightarrow> u32) \<Rightarrow> u64 \<Rightarrow> pb_kvdb_data list \<Rightarrow> session \<Rightarrow> 'd db_world
    \<Rightarrow> bool \<times> session \<times> 'd db_world" where
  "version_loop env stack uid [] s w = (False, s, w)"
| "version_loop env stack uid (d # ds) s w =
     (let (version, s1, w1) =
            (case ldb_GetVersion uid (kv_key d) w of
               Some v \<Rightarrow> (v, s, w)
             | None \<Rightarrow> (let (s1, w1) = reply env (SsRspSave EN_KVDB_Failed 0 []) s w in (stack 0, s1, w1)))
      in if version + 1 \<noteq> kv_version d then (True, s1, w1) else version_loop env (\<lambda>i. stack (Suc i)) uid ds s1 w1)"

fun save_loop :: "'z msg_env_scheme \<Rightarrow> 'd ldb_ops \<Rightarrow> u64 \<Rightarrow> pb_kvdb_data list \<Rightarrow> session \<Rightarrow> 'd db_world
    \<Rightarrow> session \<times> 'd db_world" where
  "save_loop env ops uid [] s w = (s, w)"
| "save_loop env ops uid (d # ds) s w =
     (let (ok, w1) = ldb_Save ops uid (kv_key d) d w;
          (s1, w2) = (if ok then (s, w1) else reply env (SsRspSave EN_KVDB_Failed 0 []) s w1)
      in save_loop env ops uid ds s1 w2)"

definition HandlerSave_OnMessage :: "'z msg_env_scheme \<Rightarrow> (nat \<Rightarrow> u32) \<Rightarrow> 'd ldb_ops \<Rightarrow> 'd db_world hstep" where
  "HandlerSave_OnMessage env stack ops s w =
     (let (uid, datas) = req_save s; (version_diff, s1, w1) = version_loop env stack uid datas s w in
      if \<not> version_diff then
        (let (s2, w2) = save_loop env ops uid datas s1 w1;
             (s3, w3) = reply env (SsRspSave EN_KVDB_Sucess 0 []) s2 w2
         in Some (H_Done, s3, w3))
      else
        (let (acc, s2, w2) = query_loop env ops (\<lambda>r ds. SsRspSave r 0 ds) uid (map kv_key datas) [] s1 w1;
             (s3, w3) = reply env (SsRspSave EN_KVDB_Ver_Diff uid acc) s2 w2
         in Some (H_Done, s3, w3)))"

text \<open>MessageManager: the handler registered for the message's id, nothing for an id without one.\<close>

definition db_handlers :: "'z msg_env_scheme \<Rightarrow> (nat \<Rightarrow> u32) \<Rightarrow> 'd ldb_ops \<Rightarrow> u32 \<Rightarrow> 'd db_world handler option" where
  "db_handlers env stack ops msg_id =
     (if msg_id = 10000 then Some ((base_handler env)\<lparr>h_OnMessage := HandlerQuery_OnMessage env ops\<rparr>)
      else if msg_id = 10002 then Some ((base_handler env)\<lparr>h_OnMessage := HandlerSave_OnMessage env stack ops\<rparr>)
      else None)"

definition db_Process :: "'z msg_env_scheme \<Rightarrow> (nat \<Rightarrow> u32) \<Rightarrow> 'd ldb_ops \<Rightarrow> session \<Rightarrow> 'd db_world
    \<Rightarrow> (session option \<times> 'd db_world) outcome option" where
  "db_Process env stack ops s w = (case db_handlers env stack ops (se_msg_id s) of
     None \<Rightarrow> Some (Ret (Some s, w)) | Some h \<Rightarrow> Process env h s w)"

lemma HandlerQuery_returns: "\<exists>s' w'. HandlerQuery_OnMessage env ops s w = Some (H_Done, s', w')"
  unfolding HandlerQuery_OnMessage_def Let_def by (auto split: prod.split)

lemma HandlerSave_returns: "\<exists>s' w'. HandlerSave_OnMessage env stack ops s w = Some (H_Done, s', w')"
  unfolding HandlerSave_OnMessage_def Let_def by (auto split: prod.split)

subsection \<open>What the database promises\<close>

text \<open>The documented behaviour of LevelDB and of the generated code: a read after a successful write
  gives what was written, a write touches its own key only, a failed one nothing; what was
  serialized parses back.\<close>

definition ldb_ok :: "'d ldb_ops \<Rightarrow> bool" where
  "ldb_ok ops \<longleftrightarrow>
     (\<forall>db k v ok db'. ldb_put ops db k v = (ok, db') \<longrightarrow>
        (ok \<longrightarrow> ldb_get ops db' k = Some (Some v)) \<and>
        (\<forall>k'. k' \<noteq> k \<or> \<not> ok \<longrightarrow> ldb_get ops db' k' = ldb_get ops db k')) \<and>
     (\<forall>d. kv_dec ops (kv_enc ops d) = (True, d))"

lemma ldb_putD:
  assumes "ldb_ok ops" "ldb_put ops db k v = (ok, db')"
  shows "ok \<Longrightarrow> ldb_get ops db' k = Some (Some v)"
    and "k' \<noteq> k \<Longrightarrow> ldb_get ops db' k' = ldb_get ops db k'"
    and "\<not> ok \<Longrightarrow> ldb_get ops db' k' = ldb_get ops db k'"
  using assms unfolding ldb_ok_def by blast+

lemma ldb_codec: "ldb_ok ops \<Longrightarrow> kv_dec ops (kv_enc ops d) = (True, d)"
  by (simp add: ldb_ok_def)

text \<open>What the database holds of a part, and the version of it.\<close>

definition part_in_db :: "'d ldb_ops \<Rightarrow> u64 \<Rightarrow> 'd \<Rightarrow> u32 \<Rightarrow> pb_kvdb_data" where
  "part_in_db ops uid db key = (case ldb_get ops db (GenerateDBKey uid key) of
     None \<Rightarrow> kv_data0 | Some None \<Rightarrow> kv_data0\<lparr>kv_key := key\<rparr> | Some (Some b) \<Rightarrow> snd (kv_dec ops b))"

definition stored_version :: "'d ldb_ops \<Rightarrow> u64 \<Rightarrow> 'd \<Rightarrow> u32 \<Rightarrow> u32" where
  "stored_version ops uid db key = kv_version (part_in_db ops uid db key)"

definition versions_ok :: "'d ldb_ops \<Rightarrow> 'd db_world \<Rightarrow> bool" where
  "versions_ok ops w \<longleftrightarrow>
     (\<forall>uid key v. ldb_GetVersion uid key w = Some v \<longrightarrow> v = stored_version ops uid (dw_db w) key)"

definition same_db :: "'d db_world \<Rightarrow> 'd db_world \<Rightarrow> bool" where
  "same_db w w' \<longleftrightarrow> dw_db w' = dw_db w \<and> dw_versions w' = dw_versions w"

lemma same_db_GetVersion: "same_db w w' \<Longrightarrow> ldb_GetVersion uid key w' = ldb_GetVersion uid key w"
  by (simp add: same_db_def ldb_GetVersion_def)

lemma same_db_versions_ok: "same_db w w' \<Longrightarrow> versions_ok ops w' = versions_ok ops w"
  by (simp add: versions_ok_def same_db_GetVersion) (simp add: same_db_def)

lemma same_db_trans: "same_db w w' \<Longrightarrow> same_db w' w'' \<Longrightarrow> same_db w w''"
  by (simp add: same_db_def)

lemma reply_frame:
  assumes "reply env b s w = (s', w')"
  shows "same_db w w'" "req_save s' = req_save s" "req_query s' = req_query s"
    "ss_body (se_ss_response s') = Some b"
  using assms
  by (auto simp: reply_def SendMsgToResponse_def SendMsgToResponse_to_def emit_def Let_def same_db_def
      req_save_def req_query_def split: prod.splits if_splits)

lemma ldb_Query_frame:
  assumes "ldb_Query ops now uid key w = (ok, data, w')"
  shows "dw_db w' = dw_db w" "data = part_in_db ops uid (dw_db w) key"
  using assms
  by (auto simp: ldb_Query_def part_in_db_def Let_def split: option.splits prod.splits if_splits)

lemma GetVersion_put:
  "ldb_GetVersion uid key (w\<lparr>dw_versions := (dw_versions w)(GenerateDBKey uid' key' \<mapsto> i)\<rparr>)
   = (if uid = uid' \<and> key = key' then Some (vi_version i) else ldb_GetVersion uid key w)"
  using GenerateDBKey_inj [of uid key uid' key'] by (auto simp: ldb_GetVersion_def)

lemma versions_ok_set:
  assumes "versions_ok ops w" "vi_version i = stored_version ops uid db' key"
    and "\<And>uid' key'. (uid', key') \<noteq> (uid, key) \<Longrightarrow> part_in_db ops uid' db' key' = part_in_db ops uid' (dw_db w) key'"
  shows "versions_ok ops (w\<lparr>dw_db := db', dw_versions := (dw_versions w)(GenerateDBKey uid key \<mapsto> i)\<rparr>)"
  unfolding versions_ok_def
proof (intro allI impI)
  fix u k v
  assume g: "ldb_GetVersion u k (w\<lparr>dw_db := db', dw_versions := (dw_versions w)(GenerateDBKey uid key \<mapsto> i)\<rparr>) = Some v"
  show "v = stored_version ops u (dw_db (w\<lparr>dw_db := db', dw_versions := (dw_versions w)(GenerateDBKey uid key \<mapsto> i)\<rparr>)) k"
  proof (cases "u = uid \<and> k = key")
    case True
    with g assms(2) show ?thesis by (simp add: ldb_GetVersion_def)
  next
    case False
    then have "GenerateDBKey u k \<noteq> GenerateDBKey uid key" using GenerateDBKey_inj by blast
    with g have "ldb_GetVersion u k w = Some v" by (simp add: ldb_GetVersion_def)
    with assms(1,3) False show ?thesis by (simp add: versions_ok_def stored_version_def)
  qed
qed

lemma ldb_Query_versions_ok:
  assumes "versions_ok ops w" "ldb_Query ops now uid key w = (ok, data, w')"
  shows "versions_ok ops w'"
proof -
  have "versions_ok ops (w\<lparr>dw_versions := (dw_versions w)(GenerateDBKey uid key \<mapsto> i)\<rparr>)"
    if "vi_version i = stored_version ops uid (dw_db w) key" for i
    using versions_ok_set [OF assms(1) that] by simp
  with assms show ?thesis
    by (simp add: ldb_Query_def Let_def stored_version_def part_in_db_def kv_data0_def
        split: option.splits prod.splits if_splits) auto
qed

lemma query_loop_frame:
  "query_loop env ops mk uid keys acc s w = (acc', s', w') \<Longrightarrow>
     dw_db w' = dw_db w \<and> acc' = acc @ map (part_in_db ops uid (dw_db w)) keys
     \<and> (versions_ok ops w \<longrightarrow> versions_ok ops w') \<and> req_save s' = req_save s"
proof (induction keys arbitrary: acc s w)
  case (Cons key keys)
  obtain ok data w1 where q: "ldb_Query ops (me_now env) uid key w = (ok, data, w1)" by (rule prod_cases3)
  obtain s1 w2 where r: "reply env (mk EN_KVDB_Failed (acc @ [data])) s w1 = (s1, w2)" by (rule prod.exhaust)
  note q' = ldb_Query_frame [OF q] ldb_Query_versions_ok [OF _ q]
  note r' = reply_frame [OF r]
  show ?case
  proof (cases ok)
    case True
    with Cons.prems q have "query_loop env ops mk uid keys (acc @ [data]) s w1 = (acc', s', w')" by simp
    from Cons.IH [OF this] q' show ?thesis by simp
  next
    case False
    with Cons.prems q r have "query_loop env ops mk uid keys (acc @ [data]) s1 w2 = (acc', s', w')" by simp
    from Cons.IH [OF this] q' r' same_db_versions_ok [OF r'(1), of ops] show ?thesis by (simp add: same_db_def)
  qed
qed simp

text \<open>The version a save is compared with: the known one, or what the stack held.\<close>

definition assumed_version :: "u32 \<Rightarrow> u64 \<Rightarrow> u32 \<Rightarrow> 'd db_world \<Rightarrow> u32" where
  "assumed_version stack uid key w = (case ldb_GetVersion uid key w of Some v \<Rightarrow> v | None \<Rightarrow> stack)"

lemma version_loop_frame:
  "version_loop env stack uid ds s w = (b, s', w') \<Longrightarrow>
     same_db w w' \<and> req_save s' = req_save s
     \<and> (b \<longleftrightarrow> (\<exists>i<length ds. assumed_version (stack i) uid (kv_key (ds ! i)) w + 1 \<noteq> kv_version (ds ! i)))"
proof (induction ds arbitrary: s w stack)
  case Nil
  then show ?case by (simp add: same_db_def)
next
  case (Cons d ds)
  obtain s1 w1 where v: "(case ldb_GetVersion uid (kv_key d) w of
               Some v \<Rightarrow> (v, s, w)
             | None \<Rightarrow> (let (s1, w1) = reply env (SsRspSave EN_KVDB_Failed 0 []) s w in (stack 0, s1, w1)))
        = (assumed_version (stack 0) uid (kv_key d) w, s1, w1)" "same_db w w1" "req_save s1 = req_save s"
  proof (cases "ldb_GetVersion uid (kv_key d) w")
    case None
    obtain s1 w1 where "reply env (SsRspSave EN_KVDB_Failed 0 []) s w = (s1, w1)" by (rule prod.exhaust)
    with None reply_frame [OF this] that show ?thesis by (simp add: assumed_version_def)
  next
    case (Some v)
    then show ?thesis using that [of s w] by (simp add: assumed_version_def same_db_def)
  qed
  have a: "assumed_version x uid k w1 = assumed_version x uid k w" for x k
    by (simp add: assumed_version_def same_db_GetVersion [OF v(2)])
  show ?case
  proof (cases "assumed_version (stack 0) uid (kv_key d) w + 1 \<noteq> kv_version d")
    case True
    with Cons.prems v show ?thesis by auto
  next
    case False
    with Cons.prems v(1) have "version_loop env (\<lambda>i. stack (Suc i)) uid ds s1 w1 = (b, s', w')" by simp
    from Cons.IH [OF this] False v(2,3) a show ?thesis by (simp add: Ex_less_Suc2) (blast intro: same_db_trans)
  qed
qed

subsection \<open>Saving\<close>

text \<open>A part that can be stored: it fits the buffer and the database takes it.\<close>

definition storable :: "'d ldb_ops \<Rightarrow> pb_kvdb_data \<Rightarrow> bool" where
  "storable ops d \<longleftrightarrow> length (kv_enc ops d) \<le> MAX_KVDB_BUF_LEN \<and> (\<forall>db k. fst (ldb_put ops db k (kv_enc ops d)))"

lemma ldb_Save_frame:
  assumes ok: "ldb_ok ops" and s: "ldb_Save ops uid (kv_key d) d w = (b, w')"
  shows "(uid', key') \<noteq> (uid, kv_key d) \<Longrightarrow> part_in_db ops uid' (dw_db w') key' = part_in_db ops uid' (dw_db w) key'"
    and "(uid', key') \<noteq> (uid, kv_key d) \<Longrightarrow> ldb_GetVersion uid' key' w' = ldb_GetVersion uid' key' w"
    and "part_in_db ops uid (dw_db w') (kv_key d) = (if b then d else part_in_db ops uid (dw_db w) (kv_key d))"
    and "storable ops d \<Longrightarrow> b"
    and "versions_ok ops w \<Longrightarrow> ldb_GetVersion uid (kv_key d) w = Some (kv_version d - 1) \<Longrightarrow> versions_ok ops w'"
proof -
  let ?k = "GenerateDBKey uid (kv_key d)"
  obtain p db where put: "ldb_put ops (dw_db w) ?k (kv_enc ops d) = (p, db)" by (rule prod.exhaust)
  note law = ldb_putD [OF ok put]
  have ne: "(u, k) \<noteq> (uid, kv_key d) \<Longrightarrow> GenerateDBKey u k \<noteq> ?k" for u k
    using GenerateDBKey_inj by blast
  have other: "part_in_db ops u db k = part_in_db ops u (dw_db w) k" if "(u, k) \<noteq> (uid, kv_key d) \<or> \<not> p" for u k
    using that law ne by (auto simp: part_in_db_def)
  have same: "p \<Longrightarrow> part_in_db ops uid db (kv_key d) = d"
    using law(1) ldb_codec [OF ok] by (simp add: part_in_db_def)
  have cases: "(\<not> b \<and> w' = w) \<or> (\<not> b \<and> \<not> p \<and> w' = w\<lparr>dw_db := db\<rparr>)
      \<or> (b \<and> p \<and> (\<exists>i. w' = w\<lparr>dw_db := db, dw_versions := (dw_versions w)(?k \<mapsto> i)\<rparr>
            \<and> (\<forall>v. ldb_GetVersion uid (kv_key d) w = Some v \<longrightarrow> vi_version i = v + 1)))"
    using s put by (auto simp: ldb_Save_def Let_def ldb_GetVersion_def split: if_splits)
  show "part_in_db ops uid' (dw_db w') key' = part_in_db ops uid' (dw_db w) key'" if "(uid', key') \<noteq> (uid, kv_key d)"
    using cases other that by auto
  show "ldb_GetVersion uid' key' w' = ldb_GetVersion uid' key' w" if "(uid', key') \<noteq> (uid, kv_key d)"
    using cases ne [OF that] by (auto simp: ldb_GetVersion_def)
  show "part_in_db ops uid (dw_db w') (kv_key d) = (if b then d else part_in_db ops uid (dw_db w) (kv_key d))"
    using cases other same by auto
  show b if "storable ops d"
  proof -
    have "p" using that put unfolding storable_def by (metis fst_conv)
    with that s put show ?thesis by (simp add: ldb_Save_def storable_def Let_def)
  qed
  show "versions_ok ops w'" if v: "versions_ok ops w" "ldb_GetVersion uid (kv_key d) w = Some (kv_version d - 1)"
    using cases
  proof (elim disjE conjE exE)
    assume "\<not> p" "w' = w\<lparr>dw_db := db\<rparr>"
    with other v(1) show ?thesis by (simp add: versions_ok_def stored_version_def ldb_GetVersion_def)
  next
    fix i
    assume "p" and i: "w' = w\<lparr>dw_db := db, dw_versions := (dw_versions w)(?k \<mapsto> i)\<rparr>"
      "\<forall>v. ldb_GetVersion uid (kv_key d) w = Some v \<longrightarrow> vi_version i = v + 1"
    with v(2) have "vi_version i = stored_version ops uid db (kv_key d)" by (simp add: stored_version_def same)
    from versions_ok_set [OF v(1) this other] i(1) show ?thesis by simp
  qed (use v in simp)
qed

lemma save_loop_frame:
  assumes "ldb_ok ops"
  shows "save_loop env ops uid ds s w = (s', w') \<Longrightarrow> distinct (map kv_key ds) \<Longrightarrow>
     (\<forall>u k. (u = uid \<longrightarrow> k \<notin> kv_key ` set ds) \<longrightarrow> part_in_db ops u (dw_db w') k = part_in_db ops u (dw_db w) k)
     \<and> (\<forall>d\<in>set ds. part_in_db ops uid (dw_db w') (kv_key d) \<in> {d, part_in_db ops uid (dw_db w) (kv_key d)}
           \<and> (storable ops d \<longrightarrow> part_in_db ops uid (dw_db w') (kv_key d) = d))
     \<and> (versions_ok ops w \<and> (\<forall>d\<in>set ds. ldb_GetVersion uid (kv_key d) w = Some (kv_version d - 1)) \<longrightarrow> versions_ok ops w')"
proof (induction ds arbitrary: s w)
  case (Cons d ds)
  obtain b w1 where sv: "ldb_Save ops uid (kv_key d) d w = (b, w1)" by (rule prod.exhaust)
  note fr = ldb_Save_frame [OF assms sv]
  obtain s1 w2 where r: "(if b then (s, w1) else reply env (SsRspSave EN_KVDB_Failed 0 []) s w1) = (s1, w2)"
    by (rule prod.exhaust)
  then have same: "same_db w1 w2" using reply_frame(1) [of env _ s w1 s1 w2]
    by (auto simp: same_db_def split: if_splits)
  have "save_loop env ops uid ds s1 w2 = (s', w')" using Cons.prems(1) sv r by simp
  note IH = Cons.IH [OF this] 
  have notin: "kv_key d \<notin> kv_key ` set ds" using Cons.prems(2) by simp
  have new: "kv_key e \<noteq> kv_key d" if "e \<in> set ds" for e using notin that by (metis imageI)
  have db: "dw_db w2 = dw_db w1" using same by (simp add: same_db_def)
  have gv: "ldb_GetVersion uid (kv_key e) w2 = ldb_GetVersion uid (kv_key e) w" if "e \<in> set ds" for e
    using fr(2) [of uid "kv_key e"] new [OF that] same_db_GetVersion [OF same] by simp
  have dist: "distinct (map kv_key ds)" using Cons.prems(2) by simp
  note IH' = IH [OF dist, unfolded db]
  have 1: "part_in_db ops u (dw_db w') k = part_in_db ops u (dw_db w) k" if "u = uid \<longrightarrow> k \<notin> kv_key ` set (d # ds)" for u k
    using IH' fr(1) [of u k] that by auto
  have 2: "part_in_db ops uid (dw_db w') (kv_key d) = (if b then d else part_in_db ops uid (dw_db w) (kv_key d))"
    using IH' fr(3) notin by simp
  have 3: "part_in_db ops uid (dw_db w') (kv_key e) \<in> {e, part_in_db ops uid (dw_db w) (kv_key e)}
        \<and> (storable ops e \<longrightarrow> part_in_db ops uid (dw_db w') (kv_key e) = e)" if "e \<in> set ds" for e
    using IH' fr(1) [of uid "kv_key e"] new [OF that] that by auto
  have 4: "versions_ok ops w'" if "versions_ok ops w" "\<forall>e\<in>set (d # ds). ldb_GetVersion uid (kv_key e) w = Some (kv_version e - 1)"
    using IH' fr(5) that gv same_db_versions_ok [OF same] by simp
  from 1 2 3 4 fr(4) show ?case by simp
qed simp

text \<open>What a save of storable parts leaves, also when it names a part twice: the last one counts.\<close>

definition overwritten :: "'d ldb_ops \<Rightarrow> u64 \<Rightarrow> pb_kvdb_data list \<Rightarrow> 'd \<Rightarrow> u64 \<Rightarrow> u32 \<Rightarrow> pb_kvdb_data" where
  "overwritten ops uid ds db u k = (if u = uid
     then (case map_of (rev (map (\<lambda>d. (kv_key d, d)) ds)) k of Some d \<Rightarrow> d | None \<Rightarrow> part_in_db ops u db k)
     else part_in_db ops u db k)"

lemma save_loop_stores:
  assumes "ldb_ok ops"
  shows "save_loop env ops uid ds s w = (s', w') \<Longrightarrow> \<forall>d\<in>set ds. storable ops d
    \<Longrightarrow> part_in_db ops u (dw_db w') k = overwritten ops uid ds (dw_db w) u k"
proof (induction ds arbitrary: s w)
  case (Cons d ds)
  obtain b w1 where sv: "ldb_Save ops uid (kv_key d) d w = (b, w1)" by (rule prod.exhaust)
  note fr = ldb_Save_frame [OF assms sv]
  have "save_loop env ops uid ds s w1 = (s', w')" using Cons.prems sv fr(4) by simp
  from Cons.IH [OF this] fr(1) [of u k] fr(3,4) Cons.prems(2) show ?case
    by (cases "u = uid \<and> k = kv_key d") (auto simp: overwritten_def map_add_def split: option.splits)
qed (simp add: overwritten_def)

lemma save_loop_others:
  assumes "ldb_ok ops"
  shows "save_loop env ops uid ds s w = (s', w') \<Longrightarrow> u = uid \<longrightarrow> k \<notin> kv_key ` set ds
    \<Longrightarrow> part_in_db ops u (dw_db w') k = part_in_db ops u (dw_db w) k"
proof (induction ds arbitrary: s w)
  case (Cons d ds)
  obtain b w1 where sv: "ldb_Save ops uid (kv_key d) d w = (b, w1)" by (rule prod.exhaust)
  obtain s1 w2 where r: "(if b then (s, w1) else reply env (SsRspSave EN_KVDB_Failed 0 []) s w1) = (s1, w2)"
    by (rule prod.exhaust)
  then have "dw_db w2 = dw_db w1" using reply_frame(1) [of env _ s w1 s1 w2]
    by (auto simp: same_db_def split: if_splits)
  with Cons.IH [of s1 w2] Cons.prems sv r ldb_Save_frame(1) [OF assms sv, of u k] show ?case by auto
qed simp

subsection \<open>The service\<close>

text \<open>A run of the db proxy: requests of any kind and expiry in any order. \<open>sane\<close> says of a save that its
  parts are different and that the garbage an unknown version is compared as does not match.\<close>

definition sane :: "(nat \<Rightarrow> u32) \<Rightarrow> session \<Rightarrow> 'd db_world \<Rightarrow> bool" where
  "sane stack s w \<longleftrightarrow> (let (uid, ds) = req_save s in
     distinct (map kv_key ds) \<and> (\<forall>i<length ds. ldb_GetVersion uid (kv_key (ds ! i)) w = None \<longrightarrow> stack i + 1 \<noteq> kv_version (ds ! i)))"

inductive db_run :: "'d ldb_ops \<Rightarrow> 'd db_world \<Rightarrow> bool" for ops where
  start: "dw_versions w = (\<lambda>_. None) \<Longrightarrow> db_run ops w"
| query: "db_run ops w \<Longrightarrow> HandlerQuery_OnMessage (env :: msg_env) ops s w = Some (r, s', w') \<Longrightarrow> db_run ops w'"
| save: "db_run ops w \<Longrightarrow> sane stack s w \<Longrightarrow> HandlerSave_OnMessage (env :: msg_env) stack ops s w = Some (r, s', w') \<Longrightarrow> db_run ops w'"
| expire: "db_run ops w \<Longrightarrow> db_run ops (VersionExpire z now w)"

definition save_matches :: "'d ldb_ops \<Rightarrow> session \<Rightarrow> 'd db_world \<Rightarrow> bool" where
  "save_matches ops s w \<longleftrightarrow> (let (uid, ds) = req_save s in
     \<forall>d\<in>set ds. ldb_GetVersion uid (kv_key d) w \<noteq> None \<and> kv_version d = stored_version ops uid (dw_db w) (kv_key d) + 1)"

text \<open>The two branches of a save.\<close>

lemma HandlerSave_cases:
  assumes "ldb_ok ops" "versions_ok ops w" "sane stack s w"
    and h: "HandlerSave_OnMessage env stack ops s w = Some (r, s', w')" and rq: "req_save s = (uid, ds)"
  shows "r = H_Done" "versions_ok ops w'"
    and "save_matches ops s w \<Longrightarrow>
      (\<forall>u k. (u = uid \<longrightarrow> k \<notin> kv_key ` set ds) \<longrightarrow> part_in_db ops u (dw_db w') k = part_in_db ops u (dw_db w) k)
     \<and> (\<forall>d\<in>set ds. storable ops d \<longrightarrow> part_in_db ops uid (dw_db w') (kv_key d) = d)
     \<and> ss_body (se_ss_response s') = Some (SsRspSave EN_KVDB_Sucess 0 [])"
    and "\<not> save_matches ops s w \<Longrightarrow> dw_db w' = dw_db w
     \<and> ss_body (se_ss_response s') = Some (SsRspSave EN_KVDB_Ver_Diff uid (map (part_in_db ops uid (dw_db w) \<circ> kv_key) ds))"
proof -
  obtain b s1 w1 where vl: "version_loop env stack uid ds s w = (b, s1, w1)" by (rule prod_cases3)
  note fr = version_loop_frame [OF vl]
  have vok: "ldb_GetVersion uid k w = Some v \<Longrightarrow> v = stored_version ops uid (dw_db w) k" for k v
    using assms(2) by (simp add: versions_ok_def)
  have "assumed_version (stack i) uid (kv_key (ds ! i)) w + 1 = kv_version (ds ! i) \<longleftrightarrow>
      ldb_GetVersion uid (kv_key (ds ! i)) w \<noteq> None \<and> kv_version (ds ! i) = stored_version ops uid (dw_db w) (kv_key (ds ! i)) + 1"
    if "i < length ds" for i
    using assms(3) that vok [of "kv_key (ds ! i)"] rq
    by (cases "ldb_GetVersion uid (kv_key (ds ! i)) w") (auto simp: sane_def assumed_version_def)
  then have b: "\<not> b \<longleftrightarrow> save_matches ops s w" using fr rq by (simp add: save_matches_def all_set_conv_all_nth)
  have v1: "versions_ok ops w1" using fr assms(2) same_db_versions_ok by blast
  have db1: "dw_db w1 = dw_db w" using fr by (simp add: same_db_def)
  have "r = H_Done \<and> versions_ok ops w' \<and> (if save_matches ops s w then
      (\<forall>u k. (u = uid \<longrightarrow> k \<notin> kv_key ` set ds) \<longrightarrow> part_in_db ops u (dw_db w') k = part_in_db ops u (dw_db w) k)
     \<and> (\<forall>d\<in>set ds. storable ops d \<longrightarrow> part_in_db ops uid (dw_db w') (kv_key d) = d)
     \<and> ss_body (se_ss_response s') = Some (SsRspSave EN_KVDB_Sucess 0 [])
    else dw_db w' = dw_db w
     \<and> ss_body (se_ss_response s') = Some (SsRspSave EN_KVDB_Ver_Diff uid (map (part_in_db ops uid (dw_db w) \<circ> kv_key) ds)))"
  proof (cases b)
    case True
    obtain acc s2 w2 where q: "query_loop env ops (\<lambda>r ds. SsRspSave r 0 ds) uid (map kv_key ds) [] s1 w1 = (acc, s2, w2)"
      by (rule prod_cases3)
    obtain s3 w3 where rp: "reply env (SsRspSave EN_KVDB_Ver_Diff uid acc) s2 w2 = (s3, w3)" by (rule prod.exhaust)
    have out: "r = H_Done" "s' = s3" "w' = w3" using h True rq vl q rp by (simp_all add: HandlerSave_OnMessage_def)
    note q' = query_loop_frame [OF q] and r' = reply_frame [OF rp]
    from q' r' v1 same_db_versions_ok [OF r'(1)] have "versions_ok ops w3" by simp
    moreover have "dw_db w3 = dw_db w" using q' r'(1) db1 by (simp add: same_db_def)
    ultimately show ?thesis using True b r'(4) q' out db1 by (simp add: comp_def)
  next
    case False
    obtain s2 w2 where q: "save_loop env ops uid ds s1 w1 = (s2, w2)" by (rule prod.exhaust)
    obtain s3 w3 where rp: "reply env (SsRspSave EN_KVDB_Sucess 0 []) s2 w2 = (s3, w3)" by (rule prod.exhaust)
    have out: "r = H_Done" "s' = s3" "w' = w3" using h False rq vl q rp by (simp_all add: HandlerSave_OnMessage_def)
    have dist: "distinct (map kv_key ds)" using assms(3) rq by (simp add: sane_def)
    have "\<forall>d\<in>set ds. ldb_GetVersion uid (kv_key d) w1 = Some (kv_version d - 1)"
      using False b vok same_db_GetVersion fr rq unfolding save_matches_def by fastforce
    with save_loop_frame [OF assms(1) q dist] v1 have "versions_ok ops w2" by blast
    then have "versions_ok ops w3" using same_db_versions_ok [OF reply_frame(1) [OF rp]] by blast
    moreover have "dw_db w3 = dw_db w2" using reply_frame(1) [OF rp] by (simp add: same_db_def)
    ultimately show ?thesis using False b out reply_frame(4) [OF rp] save_loop_frame [OF assms(1) q dist] db1 by simp
  qed
  then show "r = H_Done" "versions_ok ops w'"
    and "save_matches ops s w \<Longrightarrow>
      (\<forall>u k. (u = uid \<longrightarrow> k \<notin> kv_key ` set ds) \<longrightarrow> part_in_db ops u (dw_db w') k = part_in_db ops u (dw_db w) k)
     \<and> (\<forall>d\<in>set ds. storable ops d \<longrightarrow> part_in_db ops uid (dw_db w') (kv_key d) = d)
     \<and> ss_body (se_ss_response s') = Some (SsRspSave EN_KVDB_Sucess 0 [])"
    and "\<not> save_matches ops s w \<Longrightarrow> dw_db w' = dw_db w
     \<and> ss_body (se_ss_response s') = Some (SsRspSave EN_KVDB_Ver_Diff uid (map (part_in_db ops uid (dw_db w) \<circ> kv_key) ds))"
    by (simp_all split: if_splits)
qed

lemma HandlerQuery_versions_ok:
  assumes "versions_ok ops w" "HandlerQuery_OnMessage env ops s w = Some (r, s', w')"
  shows "versions_ok ops w'"
proof -
  obtain uid ds where rq: "req_query s = (uid, ds)" by (rule prod.exhaust)
  obtain acc s1 w1 where q: "query_loop env ops (\<lambda>r ds. SsRspQuery r 0 ds) uid (map kv_key ds) [] s w = (acc, s1, w1)"
    by (rule prod_cases3)
  obtain s2 w2 where rp: "reply env (SsRspQuery EN_KVDB_Sucess uid acc) s1 w1 = (s2, w2)" by (rule prod.exhaust)
  have "w' = w2" using assms(2) rq q rp by (simp add: HandlerQuery_OnMessage_def)
  with assms(1) query_loop_frame [OF q] same_db_versions_ok [OF reply_frame(1) [OF rp]] show ?thesis by blast
qed

lemma VersionExpire_versions_ok:
  assumes "versions_ok ops w"
  shows "versions_ok ops (VersionExpire z now w)"
proof -
  have "ldb_GetVersion u k (VersionExpire z now w) = Some v \<Longrightarrow> ldb_GetVersion u k w = Some v" for u k v
    by (auto simp: VersionExpire_def ldb_GetVersion_def Let_def split: option.splits if_splits)
  moreover have "dw_db (VersionExpire z now w) = dw_db w" by (simp add: VersionExpire_def Let_def)
  ultimately show ?thesis using assms unfolding versions_ok_def by simp
qed

lemma db_run_versions_ok:
  assumes "ldb_ok ops" "db_run ops w"
  shows "versions_ok ops w"
  using assms(2)
proof induction
  case (start w)
  then show ?case by (simp add: versions_ok_def ldb_GetVersion_def)
next
  case (query w env s r s' w')
  show ?case by (rule HandlerQuery_versions_ok [OF query.IH query.hyps(2)])
next
  case (save w stack s env r s' w')
  obtain uid ds where "req_save s = (uid, ds)" by (rule prod.exhaust)
  with HandlerSave_cases(2) [OF assms(1) save.IH save.hyps(2,3)] show ?case by blast
next
  case (expire w z now)
  show ?case by (rule VersionExpire_versions_ok [OF expire.IH])
qed

text \<open>Property C11. The cache of versions is right in every run of queries, expiries and saves in any order, as long as each save
  names its parts once and, for a part whose version the service does not know, does not happen to match the
  uninitialised memory it is compared with (\<open>sane\<close>): then the version the service knows of a part is the
  version of what the database holds. Either condition is needed: \<open>duplicate_part_breaks\<close>,
  \<open>save_unknown_blind\<close>.\<close>

theorem versions_cached:
  assumes "ldb_ok ops" "db_run ops w" "ldb_GetVersion uid key w = Some v"
  shows "v = stored_version ops uid (dw_db w) key"
  using db_run_versions_ok [OF assms(1,2)] assms(3) by (simp add: versions_ok_def)

text \<open>A database of this kind: a map from keys to bytes.\<close>

definition kv_bytes :: "pb_kvdb_data \<Rightarrow> byte list" where
  "kv_bytes d = le_bytes 4 (unat (kv_key d)) @ le_bytes 4 (unat (kv_version d)) @ le_bytes 4 (unat (kv_update_time d))
     @ (case kv_value d of None \<Rightarrow> [] | Some v \<Rightarrow> 1 # v)"

definition kv_parse :: "byte list \<Rightarrow> bool \<times> pb_kvdb_data" where
  "kv_parse bs = (True, \<lparr>kv_key = of_nat (of_le (take 4 bs)),
     kv_value = (case drop 12 bs of [] \<Rightarrow> None | _ # v \<Rightarrow> Some v),
     kv_version = of_nat (of_le (take 4 (drop 4 bs))), kv_update_time = of_nat (of_le (take 4 (drop 8 bs)))\<rparr>)"

definition map_ops :: "(string \<Rightarrow> byte list option) ldb_ops" where
  "map_ops = \<lparr>ldb_get = (\<lambda>db k. Some (db k)), ldb_put = (\<lambda>db k v. (True, db(k \<mapsto> v))),
     kv_enc = kv_bytes, kv_dec = kv_parse\<rparr>"

lemma kv_parse_bytes: "kv_parse (kv_bytes d) = (True, d)"
proof -
  have u: "of_le (le_bytes 4 (unat x)) = unat x" for x :: u32
    using of_le_le_bytes [of "unat x" 4] unsigned_less [of x] by simp
  show ?thesis by (cases d) (simp add: kv_parse_def kv_bytes_def u split: option.split)
qed

lemma map_ops_ok: "ldb_ok map_ops"
  by (auto simp: ldb_ok_def map_ops_def kv_parse_bytes)

definition db_world0 :: "(string \<Rightarrow> byte list option) db_world" where
  "db_world0 = \<lparr>w_out = [], w_timers = timer_mgr0 4, w_players = player_mgr0 4,
     w_machines = \<lparr>kp_om = om_new machine0 4 0, kp_index = (\<lambda>_. None)\<rparr>,
     dw_db = (\<lambda>_. None), dw_versions = (\<lambda>_. None), dw_version_update_time = 0\<rparr>"

definition gold_part :: "u32 \<Rightarrow> pb_kvdb_data" where
  "gold_part v = \<lparr>kv_key = kGoldInfo, kv_value = Some [7], kv_version = v, kv_update_time = 0\<rparr>"

definition query_session :: session where
  "query_session = session0\<lparr>se_ss_msg := ss_msg0\<lparr>ss_body := Some (SsReqQuery 5 [gold_part 0])\<rparr>\<rparr>"

definition save_session :: "u32 \<Rightarrow> session" where
  "save_session v = session0\<lparr>se_ss_msg := ss_msg0\<lparr>ss_body := Some (SsReqSave 5 [gold_part v])\<rparr>\<rparr>"

definition queried :: "(string \<Rightarrow> byte list option) db_world" where
  "queried = (case HandlerQuery_OnMessage test_env map_ops query_session db_world0 of
     Some (_, _, w) \<Rightarrow> w | None \<Rightarrow> db_world0)"

lemma queried_run: "db_run map_ops queried"
proof -
  obtain s w where h: "HandlerQuery_OnMessage test_env map_ops query_session db_world0 = Some (H_Done, s, w)"
    using HandlerQuery_returns by blast
  have "db_run map_ops db_world0" by (rule db_run.start) (simp add: db_world0_def)
  from db_run.query [OF this h] show ?thesis by (simp add: queried_def h)
qed

lemma queried_known: "ldb_GetVersion 5 kGoldInfo queried = Some 0" "dw_db queried = (\<lambda>_. None)"
  by (simp_all add: queried_def HandlerQuery_OnMessage_def query_session_def req_query_def ldb_Query_def db_world0_def
      map_ops_def gold_part_def reply_def SendMsgToResponse_def SendMsgToResponse_to_def emit_def ldb_GetVersion_def
      Let_def split: prod.split)

lemma versions_cached_witness:
  "ldb_GetVersion 5 kGoldInfo queried = Some 0 \<and> stored_version map_ops 5 (dw_db queried) kGoldInfo = 0"
  using versions_cached [OF map_ops_ok queried_run queried_known(1)] queried_known by simp

text \<open>The version a part of a save is compared with: the stored one when the service knows it, what the
  uninitialised local of that iteration holds otherwise.\<close>

definition compared :: "'d ldb_ops \<Rightarrow> (nat \<Rightarrow> u32) \<Rightarrow> u64 \<Rightarrow> pb_kvdb_data list \<Rightarrow> 'd db_world \<Rightarrow> nat \<Rightarrow> u32" where
  "compared ops stack uid ds w i = (if ldb_GetVersion uid (kv_key (ds ! i)) w = None then stack i
     else stored_version ops uid (dw_db w) (kv_key (ds ! i)))"

lemma compared_assumed:
  "versions_ok ops w \<Longrightarrow> assumed_version (stack i) uid (kv_key (ds ! i)) w = compared ops stack uid ds w i"
  by (auto simp: versions_ok_def compared_def assumed_version_def split: option.split)



text \<open>Property C25. What a save stored is what the next query of the same parts reads: after a run of sane requests, a sane save whose
  parts match and can be stored.\<close>

theorem save_then_query:
  assumes "ldb_ok ops" "db_run ops w" "sane stack s w" "req_save s = (uid, ds)" "save_matches ops s w"
    and "\<forall>d\<in>set ds. storable ops d"
    and "HandlerSave_OnMessage env stack ops s w = Some (r, s', w')"
    and "req_query q = (uid, qs)" "map kv_key qs = map kv_key ds"
    and "HandlerQuery_OnMessage env' ops q w' = Some (r', q', w'')"
  shows "ss_body (se_ss_response q') = Some (SsRspQuery EN_KVDB_Sucess uid ds)"
proof -
  obtain acc q1 w1 where l: "query_loop env' ops (\<lambda>r ds. SsRspQuery r 0 ds) uid (map kv_key qs) [] q w' = (acc, q1, w1)"
    by (rule prod_cases3)
  obtain q2 w2 where rp: "reply env' (SsRspQuery EN_KVDB_Sucess uid acc) q1 w1 = (q2, w2)" by (rule prod.exhaust)
  have "q' = q2" using assms(8,10) l rp by (simp add: HandlerQuery_OnMessage_def)
  moreover have "acc = map (part_in_db ops uid (dw_db w')) (map kv_key ds)"
    using query_loop_frame [OF l] assms(9) by simp
  moreover have "part_in_db ops uid (dw_db w') (kv_key d) = d" if "d \<in> set ds" for d
    using HandlerSave_cases(3) [OF assms(1) db_run_versions_ok [OF assms(1,2)] assms(3,7,4,5)] assms(6) that by blast
  then have "map (part_in_db ops uid (dw_db w')) (map kv_key ds) = ds" by (simp add: map_idI)
  ultimately show ?thesis using reply_frame(4) [OF rp] by simp
qed

lemma save_then_query_witness:
  "\<exists>s' w' q' w''. HandlerSave_OnMessage test_env (\<lambda>_. 9) map_ops (save_session 1) queried = Some (H_Done, s', w')
     \<and> HandlerQuery_OnMessage test_env map_ops query_session w' = Some (H_Done, q', w'')
     \<and> ss_body (se_ss_response q') = Some (SsRspQuery EN_KVDB_Sucess 5 [gold_part 1])"
proof -
  obtain s1 w1 where h1: "HandlerSave_OnMessage test_env (\<lambda>_. 9) map_ops (save_session 1) queried = Some (H_Done, s1, w1)"
    using HandlerSave_returns by blast
  obtain q w2 where h2: "HandlerQuery_OnMessage test_env map_ops query_session w1 = Some (H_Done, q, w2)"
    using HandlerQuery_returns by blast
  have rq: "req_save (save_session 1) = (5, [gold_part 1])" by (simp add: req_save_def save_session_def)
  have rq2: "req_query query_session = (5, [gold_part 0])" by (simp add: req_query_def query_session_def)
  have k: "kv_key (gold_part v) = kGoldInfo" "kv_version (gold_part v) = v" for v by (simp_all add: gold_part_def)
  have sane: "sane (\<lambda>_. 9) (save_session 1) queried" by (simp add: sane_def rq k queried_known)
  have m: "save_matches map_ops (save_session 1) queried"
    by (simp add: save_matches_def rq k queried_known stored_version_def part_in_db_def map_ops_def kv_data0_def)
  have st: "\<forall>d\<in>set [gold_part 1]. storable map_ops d" by (simp add: storable_def map_ops_def kv_bytes_def gold_part_def)
  have "map kv_key [gold_part 0] = map kv_key [gold_part 1]" by (simp add: k)
  from save_then_query [OF map_ops_ok queried_run sane rq m st h1 rq2 this h2] h1 h2 show ?thesis by blast
qed

lemma reply_out:
  assumes "\<And>m. me_ss_size env m \<le> MAX_SS_PB_BUF_LEN"
  shows "\<exists>s' h m. reply env b s w = (s', w\<lparr>w_out := w_out w @ [ToProxy h m (Some (px_src_proxy_id (GetProxyHead env s)))]\<rparr>)
      \<and> ss_body m = Some b \<and> GetProxyHead env s' = GetProxyHead env s"
proof -
  have g: "GetProxyHead env (s\<lparr>se_ss_response := m\<rparr>) = GetProxyHead env s" for m by (simp add: GetProxyHead_def)
  have sz: "\<not> MAX_SS_PB_BUF_LEN < me_ss_size env m" for m using assms [of m] by simp
  let ?src = "GetProxyHead env s"
  let ?m = "(se_ss_response s)\<lparr>ss_body := Some b, ss_type := EN_SS_Response\<rparr>"
  let ?h = "(me_stack_head env)\<lparr>px_src_type := me_svr_type env, px_src_id := me_svr_id env,
                 px_des_type := px_src_type ?src, px_des_id := px_src_id ?src,
                 px_session_id := px_session_id ?src, px_route_type := Route_p2p\<rparr>"
  have "reply env b s w = (s\<lparr>se_ss_response := ?m\<rparr>, w\<lparr>w_out := w_out w @ [ToProxy ?h ?m (Some (px_src_proxy_id ?src))]\<rparr>)"
    by (simp add: reply_def SendMsgToResponse_def SendMsgToResponse_to_def emit_def Let_def g sz)
  then show ?thesis using g by (intro exI [of _ "s\<lparr>se_ss_response := ?m\<rparr>"] exI [of _ ?h] exI [of _ ?m]) simp
qed

text \<open>A save that names a part twice: each copy is compared with the old version, both are stored, and the
  version the service knows is one ahead of the database from then on.\<close>

lemma ldb_Save_known:
  assumes "storable ops d" "ldb_GetVersion uid (kv_key d) w = Some v" "ldb_Save ops uid (kv_key d) d w = (b, w')"
  shows "ldb_GetVersion uid (kv_key d) w' = Some (v + 1)"
proof -
  obtain db where "ldb_put ops (dw_db w) (GenerateDBKey uid (kv_key d)) (kv_enc ops d) = (True, db)"
    using assms(1) unfolding storable_def by (metis (full_types) prod.collapse)
  with assms show ?thesis by (auto simp: ldb_Save_def storable_def ldb_GetVersion_def Let_def)
qed

lemma duplicate_part_breaks:
  assumes "ldb_ok ops" "req_save s = (uid, [d, d])" "ldb_GetVersion uid (kv_key d) w = Some (kv_version d - 1)" "storable ops d"
    and "HandlerSave_OnMessage env stack ops s w = Some (r, s', w')"
  shows "stored_version ops uid (dw_db w') (kv_key d) = kv_version d \<and> ldb_GetVersion uid (kv_key d) w' = Some (kv_version d + 1)"
proof -
  have vl: "version_loop env stack uid [d, d] s w = (False, s, w)" using assms(3) by simp
  obtain b1 w1 where s1: "ldb_Save ops uid (kv_key d) d w = (b1, w1)" by (rule prod.exhaust)
  obtain b2 w2 where s2: "ldb_Save ops uid (kv_key d) d w1 = (b2, w2)" by (rule prod.exhaust)
  have b: "b1" "b2" using ldb_Save_frame(4) [OF assms(1) s1] ldb_Save_frame(4) [OF assms(1) s2] assms(4) by simp_all
  obtain s3 w3 where rp: "reply env (SsRspSave EN_KVDB_Sucess 0 []) s w2 = (s3, w3)" by (rule prod.exhaust)
  have "w' = w3" using assms(2,5) vl s1 s2 b rp by (simp add: HandlerSave_OnMessage_def)
  moreover have "ldb_GetVersion uid (kv_key d) w2 = Some (kv_version d + 1)"
    using ldb_Save_known [OF assms(4) ldb_Save_known [OF assms(4,3) s1] s2] by simp
  moreover have "part_in_db ops uid (dw_db w2) (kv_key d) = d" using ldb_Save_frame(3) [OF assms(1) s2] b(2) by simp
  moreover have "same_db w2 w3" by (rule reply_frame(1) [OF rp])
  ultimately show ?thesis using same_db_GetVersion [of w2 w3] by (simp add: stored_version_def same_db_def)
qed

text \<open>A save of a part whose version the service does not know is answered \<open>Failed\<close> and
  then carried on with an uninitialised version: when that happens to match, the part is stored
  over whatever newer one there is and a second answer reports success.\<close>

theorem save_unknown_blind:
  assumes "ldb_ok ops" "req_save s = (uid, [d])" "ldb_GetVersion uid (kv_key d) w = None"
    and "storable ops d" "kv_version d = stack 0 + 1" "\<And>m. me_ss_size env m \<le> MAX_SS_PB_BUF_LEN"
  shows "\<exists>s' w' h1 h2 m1 m2 x. HandlerSave_OnMessage env stack ops s w = Some (H_Done, s', w')
    \<and> part_in_db ops uid (dw_db w') (kv_key d) = d
    \<and> w_out w' = w_out w @ [ToProxy h1 m1 x, ToProxy h2 m2 x]
    \<and> ss_body m1 = Some (SsRspSave EN_KVDB_Failed 0 []) \<and> ss_body m2 = Some (SsRspSave EN_KVDB_Sucess 0 [])"
proof -
  have rep: "\<exists>s' h m. reply env b t v = (s', v\<lparr>w_out := w_out v @ [ToProxy h m (Some (px_src_proxy_id (GetProxyHead env t)))]\<rparr>)
      \<and> ss_body m = Some b \<and> GetProxyHead env s' = GetProxyHead env t" for b t and v :: "'a db_world"
    using reply_out [OF assms(6)] by metis
  obtain s1 h1 m1 where r1: "reply env (SsRspSave EN_KVDB_Failed 0 []) s w
      = (s1, w\<lparr>w_out := w_out w @ [ToProxy h1 m1 (Some (px_src_proxy_id (GetProxyHead env s)))]\<rparr>)"
    "ss_body m1 = Some (SsRspSave EN_KVDB_Failed 0 [])" "GetProxyHead env s1 = GetProxyHead env s"
    using rep by blast
  let ?w1 = "w\<lparr>w_out := w_out w @ [ToProxy h1 m1 (Some (px_src_proxy_id (GetProxyHead env s)))]\<rparr>"
  have vl: "version_loop env stack uid [d] s w = (False, s1, ?w1)" using assms(3,5) r1 by simp
  obtain b w2 where sv: "ldb_Save ops uid (kv_key d) d ?w1 = (b, w2)" by (rule prod.exhaust)
  have b: "b" "part_in_db ops uid (dw_db w2) (kv_key d) = d" using ldb_Save_frame(3,4) [OF assms(1) sv] assms(4) by auto
  have o: "w_out w2 = w_out ?w1" using sv by (auto simp: ldb_Save_def Let_def split: prod.splits if_splits)
  obtain s2 h2 m2 where r2: "reply env (SsRspSave EN_KVDB_Sucess 0 []) s1 w2
      = (s2, w2\<lparr>w_out := w_out w2 @ [ToProxy h2 m2 (Some (px_src_proxy_id (GetProxyHead env s1)))]\<rparr>)"
    "ss_body m2 = Some (SsRspSave EN_KVDB_Sucess 0 [])"
    using rep by blast
  have "HandlerSave_OnMessage env stack ops s w = Some (H_Done, s2, w2\<lparr>w_out := w_out w2 @ [ToProxy h2 m2 (Some (px_src_proxy_id (GetProxyHead env s1)))]\<rparr>)"
    using assms(2) vl sv b(1) r2(1) by (simp add: HandlerSave_OnMessage_def)
  with r1 r2 b o show ?thesis by auto
qed

lemma save_unknown_blind_witness:
  "\<exists>s' w'. HandlerSave_OnMessage test_env (\<lambda>_. 0) map_ops (save_session 1)
        (db_world0\<lparr>dw_db := [GenerateDBKey 5 kGoldInfo \<mapsto> kv_bytes (gold_part 80)]\<rparr>) = Some (H_Done, s', w')
     \<and> part_in_db map_ops 5 (dw_db w') kGoldInfo = gold_part 1"
proof -
  have rq: "req_save (save_session 1) = (5, [gold_part 1])" by (simp add: req_save_def save_session_def)
  have k: "kv_key (gold_part v) = kGoldInfo" "kv_version (gold_part v) = v" for v by (simp_all add: gold_part_def)
  have st: "storable map_ops (gold_part 1)" by (simp add: storable_def map_ops_def kv_bytes_def gold_part_def)
  have g: "ldb_GetVersion 5 (kv_key (gold_part 1)) (db_world0\<lparr>dw_db := [GenerateDBKey 5 kGoldInfo \<mapsto> kv_bytes (gold_part 80)]\<rparr>) = None"
    by (simp add: ldb_GetVersion_def db_world0_def)
  have sz: "me_ss_size test_env m \<le> MAX_SS_PB_BUF_LEN" for m by (simp add: test_env_def)
  from save_unknown_blind [OF map_ops_ok rq g st _ sz, of "\<lambda>_. 0"] show ?thesis by (auto simp: k)
qed

end
