(* ===== verification/NetBytes.thy ===== *)
theory NetBytes
  imports Proto
begin

text \<open>
  What the network servers share: the bytes of the protocol heads as the compiler lays them out
  (net_head.h, 64-bit little-endian), the two system calls \<open>recv\<close> and \<open>send\<close> on a
  non-blocking socket, and the cutting of a byte stream into packages. What the peer and the
  kernel do is a script: the segments and errors that the coming \<open>recv\<close> calls meet and the
  answers to the coming \<open>send\<close> calls.
\<close>

subsection \<open>Fields at an offset\<close>

definition rd32 :: "nat \<Rightarrow> byte list \<Rightarrow> u32" where
  "rd32 off bs = of_nat (of_le32 (drop off bs))"

definition rd64 :: "nat \<Rightarrow> byte list \<Rightarrow> u64" where
  "rd64 off bs = of_nat (of_le (take 8 (drop off bs)))"

definition wr :: "nat \<Rightarrow> byte list \<Rightarrow> byte list \<Rightarrow> byte list" where
  "wr off v bs = take off bs @ v @ drop (off + length v) bs"

lemma length_wr [simp]: "off + length v \<le> length bs \<Longrightarrow> length (wr off v bs) = length bs"
  by (simp add: wr_def)

definition w32 :: "u32 \<Rightarrow> byte list" where "w32 x = le32 (unat x)"
definition w64 :: "u64 \<Rightarrow> byte list" where "w64 x = le_bytes 8 (unat x)"

text \<open>\<open>htonl\<close>, \<open>ntohl\<close> on the value in memory.\<close>

definition be32 :: "nat \<Rightarrow> byte list" where "be32 n = rev (le32 n)"
definition of_be32 :: "byte list \<Rightarrow> nat" where "of_be32 bs = of_le32 (rev (take 4 bs))"

lemma length_w [simp]: "length (w32 x) = 4" "length (w64 y) = 8" "length (be32 n) = 4"
  by (simp_all add: w32_def w64_def be32_def)


lemma rd32_0 [simp]: "rd32 0 (w32 v @ ys) = v" "rd32 0 (w32 v) = v"
proof -
  have "of_le32 (le32 (unat v) @ ys) = unat v" for ys
    using unsigned_less [of v] by (intro of_le32_le32_append) simp
  from this [of ys] this [of "[]"] show "rd32 0 (w32 v @ ys) = v" "rd32 0 (w32 v) = v"
    by (simp_all add: rd32_def w32_def)
qed

lemma rd64_0 [simp]: "rd64 0 (w64 v @ ys) = v"
proof -
  have "of_le (le_bytes 8 (unat v)) = unat v"
    using unsigned_less [of v] by (intro of_le_le_bytes) simp
  then show ?thesis by (simp add: rd64_def w64_def)
qed

lemma rd_skip: "length xs \<le> off \<Longrightarrow> rd32 off (xs @ ys) = rd32 (off - length xs) ys"
    "length xs \<le> off \<Longrightarrow> rd64 off (xs @ ys) = rd64 (off - length xs) ys"
  by (simp_all add: rd32_def rd64_def)

lemma nth_wr:
  assumes "off + length v \<le> length bs" "i < length bs" "i < off \<or> off + length v \<le> i"
  shows "wr off v bs ! i = bs ! i"
  using assms by (auto simp: wr_def nth_append min_def)

lemma rd32_nth_cong:
  assumes "\<And>k. k < 4 \<Longrightarrow> xs ! (off + k) = ys ! (off + k)" "off + 4 \<le> length xs" "off + 4 \<le> length ys"
  shows "rd32 off xs = rd32 off ys"
  using assms(1) [of 0] assms(1) [of 1] assms(1) [of 2] assms(1) [of 3] assms(2,3)
  by (simp add: rd32_def of_le32_def)

lemma rd64_nth_cong:
  assumes "\<And>k. k < 8 \<Longrightarrow> xs ! (off + k) = ys ! (off + k)" "off + 8 \<le> length xs" "off + 8 \<le> length ys"
  shows "rd64 off xs = rd64 off ys"
proof -
  have "take 8 (drop off xs) = take 8 (drop off ys)"
    using assms by (intro nth_equalityI) auto
  then show ?thesis by (simp add: rd64_def)
qed

lemma rd_wr_other:
  assumes "off + length v \<le> length bs" "o2 + 4 \<le> length bs" "o2 + 4 \<le> off \<or> off + length v \<le> o2"
  shows "rd32 o2 (wr off v bs) = rd32 o2 bs"
  using assms by (intro rd32_nth_cong nth_wr) auto

lemma rd_wr_other64:
  assumes "off + length v \<le> length bs" "o2 + 8 \<le> length bs" "o2 + 8 \<le> off \<or> off + length v \<le> o2"
  shows "rd64 o2 (wr off v bs) = rd64 o2 bs"
  using assms by (intro rd64_nth_cong nth_wr) auto

lemma rd_wr_same: "off + 4 \<le> length bs \<Longrightarrow> rd32 off (wr off (w32 x) bs) = x"
  "off + 8 \<le> length bs \<Longrightarrow> rd64 off (wr off (w64 y) bs) = y"
  by (simp_all add: wr_def rd_skip)

lemma wr_shift: "wr (length xs + off) v (xs @ ys) = xs @ wr off v ys"
  by (simp add: wr_def)

lemma wr_within: "off + length v \<le> length xs \<Longrightarrow> wr off v (xs @ ys) = wr off v xs @ ys"
  by (simp add: wr_def)

lemma rd32_cong: "take (off + 4) bs = take (off + 4) cs \<Longrightarrow> off + 4 \<le> length bs \<Longrightarrow> off + 4 \<le> length cs
    \<Longrightarrow> rd32 off bs = rd32 off cs"
proof -
  assume a: "take (off + 4) bs = take (off + 4) cs" and l: "off + 4 \<le> length bs" "off + 4 \<le> length cs"
  have "take 4 (drop off bs) = take 4 (drop off cs)" using a by (metis drop_take add_diff_cancel_left')
  then have "of_le32 (drop off bs) = of_le32 (drop off cs)"
    using l of_le32_take [of "drop off bs"] of_le32_take [of "drop off cs"] by simp
  then show ?thesis by (simp add: rd32_def)
qed

lemma of_be32_be32: "n < 2 ^ 32 \<Longrightarrow> of_be32 (be32 n @ xs) = n"
  using of_le32_le32 [of n] by (simp add: of_be32_def be32_def)

lemma of_be32_append: "4 \<le> length bs \<Longrightarrow> of_be32 (bs @ cs) = of_be32 bs"
  by (simp add: of_be32_def)

lemma of_le32_append: "4 \<le> length bs \<Longrightarrow> of_le32 (bs @ cs) = of_le32 bs"
  using of_le32_take [of bs] of_le32_take [of "bs @ cs"] by simp

subsection \<open>stProxyHead and stConnectHead in memory\<close>

abbreviation (input) "PROXY_HEAD_LEN \<equiv> 40 :: nat"
abbreviation (input) "CONNECT_HEAD_LEN \<equiv> 48 :: nat"
abbreviation (input) "MAX_CS_PKG_BUF_LEN \<equiv> 65536 :: nat"
abbreviation (input) "MAX_PROXY_BUF_LEN \<equiv> 65576 :: nat"
abbreviation (input) "MAX_CONNECT_BUF_LEN \<equiv> 65584 :: nat"

primrec route_code :: "route_type \<Rightarrow> u32" where
  "route_code Route_p2p = 1" | "route_code Route_hash = 2"
| "route_code Route_random = 3" | "route_code Route_broadcast = 4"

text \<open>The four bytes before \<open>_hash_key\<close> are padding and hold what was there.\<close>

definition proxy_bytes :: "byte list \<Rightarrow> proxy_head \<Rightarrow> byte list" where
  "proxy_bytes pad h = w32 (px_src_type h) @ w32 (px_src_id h) @ w32 (px_des_type h) @ w32 (px_des_id h)
     @ w32 (px_session_id h) @ pad @ w64 (px_hash_key h) @ w32 (px_src_proxy_id h) @ w32 (route_code (px_route_type h))"

lemma length_proxy_bytes: "length pad = 4 \<Longrightarrow> length (proxy_bytes pad h) = PROXY_HEAD_LEN"
  by (simp add: proxy_bytes_def)

lemma proxy_bytes_fields:
  assumes "length pad = 4"
  shows "rd32 0 (proxy_bytes pad h @ xs) = px_src_type h" "rd32 4 (proxy_bytes pad h @ xs) = px_src_id h"
    "rd32 8 (proxy_bytes pad h @ xs) = px_des_type h" "rd32 12 (proxy_bytes pad h @ xs) = px_des_id h"
    "rd32 16 (proxy_bytes pad h @ xs) = px_session_id h" "rd64 24 (proxy_bytes pad h @ xs) = px_hash_key h"
    "rd32 32 (proxy_bytes pad h @ xs) = px_src_proxy_id h" "rd32 36 (proxy_bytes pad h @ xs) = route_code (px_route_type h)"
  by (simp_all add: proxy_bytes_def rd_skip assms)

subsection \<open>recv and send\<close>

datatype recv_event = Seg "byte list" | Peer_closed | Recv_again | Recv_error

datatype send_event = Sent nat | Send_again | Send_error

text \<open>A \<open>recv\<close> with room for \<open>cap\<close> bytes takes what fits of the next segment; without anything to
  read the call would block. A segment is never empty.\<close>

fun net_recv :: "nat \<Rightarrow> recv_event list \<Rightarrow> recv_event \<times> recv_event list" where
  "net_recv cap [] = (Recv_again, [])"
| "net_recv cap (Seg bs # es) =
     (if bs = [] then (Peer_closed, es)
      else if length bs \<le> cap then (Seg bs, es) else (Seg (take cap bs), Seg (drop cap bs) # es))"
| "net_recv cap (e # es) = (e, es)"

definition recv_size :: "recv_event list \<Rightarrow> nat" where
  "recv_size es = sum_list (map (\<lambda>e. case e of Seg bs \<Rightarrow> Suc (length bs) | _ \<Rightarrow> 1) es)"

lemma net_recv_decreases: "net_recv cap es = (Seg bs, es') \<Longrightarrow> 0 < cap \<Longrightarrow> recv_size es' < recv_size es"
  by (induction cap es rule: net_recv.induct) (auto simp: recv_size_def split: if_splits)

lemma net_recv_length: "net_recv cap es = (Seg bs, es') \<Longrightarrow> 0 < cap \<Longrightarrow> bs \<noteq> [] \<and> length bs \<le> cap"
  by (induction cap es rule: net_recv.induct) (auto split: if_splits)

lemma net_recv_segs:
  assumes "[] \<notin> set segs" "segs \<noteq> []" "0 < cap"
  shows "\<exists>bs segs'. net_recv cap (map Seg segs) = (Seg bs, map Seg segs') \<and> [] \<notin> set segs' \<and> bs \<noteq> []
    \<and> length bs \<le> cap \<and> concat segs = bs @ concat segs'"
proof -
  obtain x xs where s: "segs = x # xs" using assms(2) by (cases segs) auto
  show ?thesis
  proof (cases "length x \<le> cap")
    case True
    then show ?thesis using assms s by (intro exI [of _ x] exI [of _ xs]) auto
  next
    case False
    then show ?thesis using assms s by (intro exI [of _ "take cap x"] exI [of _ "drop cap x # xs"]) auto
  qed
qed

text \<open>The bytes that arrive before the stream ends or fails.\<close>

fun arriving :: "recv_event list \<Rightarrow> byte list" where
  "arriving (Seg bs # es) = (if bs = [] then [] else bs @ arriving es)"
| "arriving _ = []"

text \<open>A \<open>send\<close> accepts a prefix; with no answer scripted it accepts everything.\<close>

definition net_send :: "byte list \<Rightarrow> send_event list \<Rightarrow> byte list option \<times> bool \<times> send_event list" where
  "net_send bs es = (case es of
     [] \<Rightarrow> (Some bs, False, [])
   | Sent n # es' \<Rightarrow> (Some (take n bs), False, es')
   | Send_again # es' \<Rightarrow> (None, False, es')
   | Send_error # es' \<Rightarrow> (None, True, es'))"

text \<open>A script without short sends: each send takes all it is given or nothing. The code relies on this, but a non-blocking
  socket does not promise it; where it matters it is a condition on the run.\<close>

definition sends_whole :: "send_event list \<Rightarrow> bool" where
  "sends_whole es \<longleftrightarrow> (\<forall>n. Sent n \<notin> set es)"

lemma net_send_whole:
  "sends_whole es \<Longrightarrow> net_send bs es = (r, err, es') \<Longrightarrow> (r = Some bs \<or> r = None) \<and> sends_whole es'"
  by (auto simp: net_send_def sends_whole_def split: list.splits send_event.splits)

subsection \<open>Cutting a stream into packages\<close>

text \<open>What the bytes at hand say: wait for more, a package of \<open>n\<close> bytes is complete, or the length field
  is not acceptable.\<close>

datatype verdict = V_wait | V_take nat | V_bad

function cut_frames :: "(byte list \<Rightarrow> verdict) \<Rightarrow> byte list \<Rightarrow> byte list list \<times> byte list \<times> bool" where
  "cut_frames v bs = (case v bs of
     V_wait \<Rightarrow> ([], bs, True)
   | V_bad \<Rightarrow> ([], bs, False)
   | V_take n \<Rightarrow> (if n = 0 \<or> length bs < n then ([], bs, False)
        else (take n bs # fst (cut_frames v (drop n bs)), snd (cut_frames v (drop n bs)))))"
  by pat_completeness auto
termination by (relation "measure (\<lambda>(v, bs). length bs)") auto

declare cut_frames.simps [simp del]

lemma cut_wait: "v bs = V_wait \<Longrightarrow> cut_frames v bs = ([], bs, True)"
  by (simp add: cut_frames.simps)

lemma cut_bad: "v bs = V_bad \<Longrightarrow> cut_frames v bs = ([], bs, False)"
  by (simp add: cut_frames.simps)

lemma cut_take: "v bs = V_take n \<Longrightarrow> 0 < n \<Longrightarrow> n \<le> length bs \<Longrightarrow>
    cut_frames v bs = (take n bs # fst (cut_frames v (drop n bs)), snd (cut_frames v (drop n bs)))"
  by (subst cut_frames.simps) simp

lemma cut_parts: "cut_frames v bs = (fs, rest, ok) \<Longrightarrow> concat fs @ rest = bs"
proof (induction v bs arbitrary: fs rest ok rule: cut_frames.induct)
  case (1 v bs)
  show ?case
  proof (cases "v bs")
    case (V_take n)
    show ?thesis
    proof (cases "n = 0 \<or> length bs < n")
      case True
      then show ?thesis using "1.prems" V_take by (auto simp: cut_frames.simps [of v bs])
    next
      case False
      then have "(fs, rest, ok) = (take n bs # fst (cut_frames v (drop n bs)), snd (cut_frames v (drop n bs)))"
        using "1.prems" V_take by (simp add: cut_frames.simps [of v bs])
      moreover have "concat (fst (cut_frames v (drop n bs))) @ fst (snd (cut_frames v (drop n bs))) = drop n bs"
        using 1(1) [OF V_take False] by (metis prod.collapse)
      ultimately show ?thesis by (metis append_assoc append_take_drop_id concat.simps(2) fst_conv prod.inject)
    qed
  qed (use "1.prems" in \<open>simp_all add: cut_frames.simps [of v bs]\<close>)
qed

text \<open>The contract of a length field: a verdict once given is not changed by bytes that arrive later.\<close>

locale framing =
  fixes v :: "byte list \<Rightarrow> verdict"
  assumes take_ok: "v bs = V_take n \<Longrightarrow> 0 < n \<and> n \<le> length bs"
    and take_stable: "v bs = V_take n \<Longrightarrow> v (bs @ cs) = V_take n"
    and bad_stable: "v bs = V_bad \<Longrightarrow> v (bs @ cs) = V_bad"
begin

text \<open>Cutting is independent of how the stream is segmented.\<close>

lemma cut_append:
  "cut_frames v bs = (fs, rest, True) \<Longrightarrow> cut_frames v (bs @ cs) = (fs @ fst (cut_frames v (rest @ cs)), snd (cut_frames v (rest @ cs)))"
proof (induction "length bs" arbitrary: bs fs rule: less_induct)
  case less
  show ?case
  proof (cases "v bs")
    case V_wait
    then show ?thesis using less.prems by (simp add: cut_wait)
  next
    case V_bad
    then show ?thesis using less.prems by (simp add: cut_bad)
  next
    case (V_take n)
    then have n: "0 < n" "n \<le> length bs" using take_ok by blast+
    obtain fs1 r1 ok1 where c: "cut_frames v (drop n bs) = (fs1, r1, ok1)" by (rule prod_cases3)
    with less.prems cut_take [of v bs n, OF V_take n] have f: "fs = take n bs # fs1" "r1 = rest" "ok1" by simp_all
    have "cut_frames v (drop n bs @ cs) = (fs1 @ fst (cut_frames v (rest @ cs)), snd (cut_frames v (rest @ cs)))"
      using less.hyps [of "drop n bs" fs1] c f n by simp
    moreover have "cut_frames v (bs @ cs) = (take n bs # fst (cut_frames v (drop n bs @ cs)), snd (cut_frames v (drop n bs @ cs)))"
      using cut_take [of v "bs @ cs" n, OF take_stable [OF V_take]] n by simp
    ultimately show ?thesis using f by simp
  qed
qed

lemma cut_bad_append:
  "cut_frames v bs = (fs, rest, False) \<Longrightarrow> cut_frames v (bs @ cs) = (fs, rest @ cs, False)"
proof (induction "length bs" arbitrary: bs fs rule: less_induct)
  case less
  show ?case
  proof (cases "v bs")
    case V_bad
    then show ?thesis using less.prems cut_bad [of v "bs @ cs"] by (simp add: cut_bad bad_stable)
  next
    case (V_take n)
    then have n: "0 < n" "n \<le> length bs" using take_ok by blast+
    obtain fs1 r1 ok1 where c: "cut_frames v (drop n bs) = (fs1, r1, ok1)" by (rule prod_cases3)
    with less.prems cut_take [of v bs n, OF V_take n] have f: "fs = take n bs # fs1" "r1 = rest" "\<not> ok1" by simp_all
    have "cut_frames v (drop n bs @ cs) = (fs1, rest @ cs, False)"
      using less.hyps [of "drop n bs" fs1] c f n by simp
    then show ?thesis using cut_take [of v "bs @ cs" n, OF take_stable [OF V_take]] n f by simp
  qed (use less.prems in \<open>simp add: cut_wait\<close>)
qed

lemma cut_rest: "cut_frames v bs = (fs, rest, True) \<Longrightarrow> v rest = V_wait"
proof (induction "length bs" arbitrary: bs fs rule: less_induct)
  case less
  show ?case
  proof (cases "v bs")
    case (V_take n)
    then have n: "0 < n" "n \<le> length bs" using take_ok by blast+
    obtain fs1 r1 ok1 where c: "cut_frames v (drop n bs) = (fs1, r1, ok1)" by (rule prod_cases3)
    then show ?thesis using less.prems less.hyps [of "drop n bs" fs1] cut_take [of v bs n, OF V_take n] n by simp
  qed (use less.prems in \<open>simp_all add: cut_wait cut_bad\<close>)
qed

end

end
