(* ===== verification/ProxyServer.thy ===== *)
theory ProxyServer
  imports NetBytes "HOL-Library.Multiset" "HOL-Library.Sublist"
begin

text \<open>
  svr/proxysvr: the router between the logic servers (proxy_server.cpp, server_manager.cpp). A
  logic server connects, names itself, and from then on sends packages
  \<open>4 bytes length | stProxyHead | message\<close>; the proxy passes each on to the servers the head
  names. Data for a server that is away or slow is kept in a bounded buffer and sent when it
  returns. \<open>_socket_pos\<close> of a socket is its position in the pool and is not a field; the arrays
  \<open>_recv_buf\<close>, \<open>_send_buf\<close> with their offsets are the lists of the bytes before the offset. The
  script of the network is part of a socket; \<open>sv_sent\<close> is what the network has accepted. The pool's
  memory is taken to be zero at the start, which the code relies on.
\<close>

abbreviation (input) "LISTEN_SOCKET \<equiv> 1 :: nat"
abbreviation (input) "CLIENT_SOCKET \<equiv> 2 :: nat"
abbreviation (input) "SOCKET_CLOSED \<equiv> - 1 :: int"
abbreviation (input) "RECV_BUF_LEN \<equiv> 1311520 :: nat"
abbreviation (input) "SEND_BUF_LEN \<equiv> 1311520 :: nat"

record svr_socket =
  sv_fd :: int
  sv_type :: nat
  sv_recv :: "byte list"
  sv_send :: "byte list"
  sv_in :: "recv_event list"
  sv_out :: "send_event list"
  sv_sent :: "byte list"

definition svr_socket0 :: svr_socket where
  "svr_socket0 = \<lparr>sv_fd = SOCKET_CLOSED, sv_type = 0, sv_recv = [], sv_send = [], sv_in = [], sv_out = [], sv_sent = []\<rparr>"

text \<open>\<open>ps_conf\<close>: server type and number of the configuration, in order.\<close>

record proxy_svr =
  ps_conf :: "(u32 \<times> nat) list"
  ps_id :: u32
  ps_pool :: "svr_socket list"
  ps_free :: "nat list"
  ps_servers :: "u32 \<Rightarrow> nat option list option"

definition set_sock :: "nat \<Rightarrow> svr_socket \<Rightarrow> proxy_svr \<Rightarrow> proxy_svr" where
  "set_sock pos s ps = ps\<lparr>ps_pool := (ps_pool ps)[pos := s]\<rparr>"

subsection \<open>The socket pool\<close>

text \<open>The position is a \<open>uint16\<close>: with more slots than it counts the loop does not end.\<close>

definition SocketPoolInit :: "proxy_svr \<Rightarrow> proxy_svr option" where
  "SocketPoolInit ps =
     (let svr_num = (sum_list (map snd (ps_conf ps)) * 2) mod 2 ^ 32
      in if svr_num > 65535 then None
         else Some (ps\<lparr>ps_pool := replicate svr_num svr_socket0, ps_free := [0..<svr_num]\<rparr>))"

definition SocketCreate :: "proxy_svr \<Rightarrow> nat option \<times> proxy_svr" where
  "SocketCreate ps = (case ps_free ps of [] \<Rightarrow> (None, ps) | pos # rest \<Rightarrow> (Some pos, ps\<lparr>ps_free := rest\<rparr>))"

definition SocketRelease :: "nat \<Rightarrow> proxy_svr \<Rightarrow> proxy_svr" where
  "SocketRelease pos ps = (set_sock pos svr_socket0 ps)\<lparr>ps_free := ps_free ps @ [pos]\<rparr>"

definition disconn :: "svr_socket \<Rightarrow> svr_socket" where
  "disconn s = s\<lparr>sv_fd := SOCKET_CLOSED, sv_recv := []\<rparr>"

definition SocketDisconn :: "nat \<Rightarrow> proxy_svr \<Rightarrow> proxy_svr" where
  "SocketDisconn pos ps = set_sock pos (disconn (ps_pool ps ! pos)) ps"

subsection \<open>class ServerManager\<close>

definition vec_resize :: "nat \<Rightarrow> 'a option list \<Rightarrow> 'a option list" where
  "vec_resize n xs = take n xs @ replicate (n - length xs) None"

definition add_type :: "(u32 \<Rightarrow> 'a option list option) \<Rightarrow> u32 \<times> nat \<Rightarrow> u32 \<Rightarrow> 'a option list option" where
  "add_type m c = m(fst c \<mapsto> vec_resize (snd c) (case m (fst c) of None \<Rightarrow> [] | Some v \<Rightarrow> v))"

definition ServerManager_Init :: "(u32 \<times> nat) list \<Rightarrow> u32 \<Rightarrow> nat option list option" where
  "ServerManager_Init conf = foldl add_type (\<lambda>_. None) conf"

text \<open>\<open>GetLogicSvr(type)->svr_num()\<close>: the last entry of a type counts.\<close>

definition GetLogicSvr :: "(u32 \<times> nat) list \<Rightarrow> u32 \<Rightarrow> nat option" where
  "GetLogicSvr conf t = map_option snd (find (\<lambda>x. fst x = t) (rev conf))"

text \<open>\<open>send\<close> on a closed descriptor fails.\<close>

definition sock_send :: "byte list \<Rightarrow> svr_socket \<Rightarrow> byte list option \<times> bool \<times> svr_socket" where
  "sock_send bs s =
     (if sv_fd s = SOCKET_CLOSED then (None, True, s)
      else case net_send bs (sv_out s) of (r, err, es) \<Rightarrow>
        (r, err, s\<lparr>sv_out := es, sv_sent := sv_sent s @ (case r of None \<Rightarrow> [] | Some x \<Rightarrow> x)\<rparr>))"

definition ReserveData :: "byte list \<Rightarrow> svr_socket \<Rightarrow> svr_socket" where
  "ReserveData buf s =
     s\<lparr>sv_send := (if length (sv_send s) + length buf > SEND_BUF_LEN then [] else sv_send s) @ buf\<rparr>"

definition SendBufData :: "svr_socket \<Rightarrow> bool \<times> svr_socket" where
  "SendBufData s = (case sock_send (sv_send s) s of
     (None, err, s1) \<Rightarrow> (False, if err then disconn s1 else s1)
   | (Some _, _, s1) \<Rightarrow> (True, s1\<lparr>sv_send := []\<rparr>))"

definition SendOneData :: "byte list \<Rightarrow> svr_socket \<Rightarrow> bool \<times> svr_socket" where
  "SendOneData buf s =
     (if sv_fd s = SOCKET_CLOSED then (False, ReserveData buf s)
      else
        let (flushed, s1) = (if sv_send s \<noteq> [] then SendBufData s else (True, s))
        in if \<not> flushed then (False, ReserveData buf s1)
           else case sock_send buf s1 of
             (None, err, s2) \<Rightarrow> (False, ReserveData buf (if err then disconn s2 else s2))
           | (Some _, _, s2) \<Rightarrow> (True, s2))"

definition send_to :: "byte list \<Rightarrow> nat \<Rightarrow> proxy_svr \<Rightarrow> proxy_svr" where
  "send_to buf pos ps = set_sock pos (snd (SendOneData buf (ps_pool ps ! pos))) ps"

text \<open>\<open>SendBufData()\<close> over all servers; the order of the map's keys is given.\<close>

definition flush_all :: "u32 list \<Rightarrow> proxy_svr \<Rightarrow> proxy_svr" where
  "flush_all types ps = fold (\<lambda>slot ps. case slot of None \<Rightarrow> ps
       | Some pos \<Rightarrow> if sv_send (ps_pool ps ! pos) = [] then ps
                     else set_sock pos (snd (SendBufData (ps_pool ps ! pos))) ps)
     (concat (map (\<lambda>t. case ps_servers ps t of None \<Rightarrow> [] | Some v \<Rightarrow> v) types)) ps"

definition Register :: "nat \<Rightarrow> u32 \<Rightarrow> u32 \<Rightarrow> proxy_svr \<Rightarrow> bool \<times> proxy_svr" where
  "Register pos svr_type svr_id ps = (case ps_servers ps svr_type of
     None \<Rightarrow> (False, ps)
   | Some v \<Rightarrow>
       if unat svr_id \<ge> length v then (False, ps)
       else
         let ps1 = (case v ! unat svr_id of
               None \<Rightarrow> ps
             | Some before \<Rightarrow>
                 SocketRelease before
                   (set_sock pos (snd (SendBufData ((ps_pool ps ! pos)\<lparr>sv_send := sv_send (ps_pool ps ! before)\<rparr>))) ps))
         in (True, ps1\<lparr>ps_servers := (ps_servers ps1)(svr_type \<mapsto> v[unat svr_id := Some pos])\<rparr>))"

text \<open>\<open>DoTransfer(buf, len)\<close>: \<open>bs\<close> are the received bytes from \<open>buf\<close> on and \<open>stale\<close> what the receive buffer
  holds behind them; the head is read even from a package that ends inside it. A server id
  that is not checked, or no server to hash to, is \<open>Crash\<close>.\<close>

definition DoTransfer :: "byte list \<Rightarrow> byte list \<Rightarrow> nat \<Rightarrow> proxy_svr \<Rightarrow> proxy_svr outcome" where
  "DoTransfer stale bs len ps =
     (if len \<le> PROXY_HEAD_LEN then Ret ps
      else
        let mem = wr 36 (w32 (ps_id ps)) (bs @ stale); frame = take len mem;
            des_type = rd32 12 mem; des_id = unat (rd32 16 mem); hash_key = rd64 28 mem; route = rd32 40 mem
        in case ps_servers ps des_type of
             None \<Rightarrow> Ret ps
           | Some v \<Rightarrow>
               if route = route_code Route_p2p then
                 (if des_id \<ge> length v then Crash
                  else case v ! des_id of None \<Rightarrow> Ret ps | Some pos \<Rightarrow> Ret (send_to frame pos ps))
               else if route = route_code Route_broadcast then
                 (case GetLogicSvr (ps_conf ps) des_type of
                    None \<Rightarrow> Ret ps
                  | Some n \<Rightarrow>
                      if n > length v then Crash
                      else Ret (fold (\<lambda>slot ps. case slot of None \<Rightarrow> ps | Some pos \<Rightarrow> send_to frame pos ps) (take n v) ps))
               else if route = route_code Route_hash then
                 (case GetLogicSvr (ps_conf ps) des_type of
                    None \<Rightarrow> Ret ps
                  | Some n \<Rightarrow>
                      if n = 0 then Crash
                      else let h = unat hash_key mod n in
                        if h \<ge> length v then Crash
                        else case v ! h of None \<Rightarrow> Ret ps | Some pos \<Rightarrow> Ret (send_to frame pos ps))
               else Ret ps)"

subsection \<open>Receiving\<close>

text \<open>The inner loop over complete packages; the outer \<open>None\<close> is a loop that does not end. The result
  is the bytes left and the server.\<close>

partial_function (option) transfer_loop :: "byte list \<Rightarrow> byte list \<Rightarrow> proxy_svr \<Rightarrow> (byte list \<times> proxy_svr) outcome option" where
  "transfer_loop stale bs ps =
     (if length bs > 4 then
        (let len = of_le32 bs
         in if len > length bs then Some (Ret (bs, ps))
            else case DoTransfer stale bs len ps of
              Crash \<Rightarrow> Some Crash
            | Ret ps1 \<Rightarrow> transfer_loop stale (drop len bs) ps1)
      else Some (Ret (bs, ps)))"

definition sock_recv :: "svr_socket \<Rightarrow> recv_event \<times> svr_socket" where
  "sock_recv s =
     (if sv_fd s = SOCKET_CLOSED then (Recv_error, s)
      else case net_recv (RECV_BUF_LEN - length (sv_recv s)) (sv_in s) of (r, es) \<Rightarrow> (r, s\<lparr>sv_in := es\<rparr>))"

partial_function (option) RecvServerData :: "byte list \<Rightarrow> nat \<Rightarrow> proxy_svr \<Rightarrow> proxy_svr outcome option" where
  "RecvServerData stale pos ps =
     (if length (sv_recv (ps_pool ps ! pos)) = RECV_BUF_LEN then Some (Ret ps)
      else case sock_recv (ps_pool ps ! pos) of
        (Peer_closed, s1) \<Rightarrow> Some (Ret (set_sock pos (disconn s1) ps))
      | (Recv_again, s1) \<Rightarrow> Some (Ret (set_sock pos s1 ps))
      | (Recv_error, s1) \<Rightarrow> Some (Ret (set_sock pos (disconn s1) ps))
      | (Seg bs, s1) \<Rightarrow>
          (case transfer_loop stale (sv_recv s1 @ bs) (set_sock pos (s1\<lparr>sv_recv := sv_recv s1 @ bs\<rparr>) ps) of
             None \<Rightarrow> None
           | Some Crash \<Rightarrow> Some Crash
           | Some (Ret (rest, ps2)) \<Rightarrow>
               RecvServerData stale pos (set_sock pos ((ps_pool ps2 ! pos)\<lparr>sv_recv := rest\<rparr>) ps2)))"

text \<open>What the calls of \<open>AcceptConnect\<close> meet: the new descriptor, whether the server names itself in time
  and how, whether the descriptor can be made non-blocking and added to the poll set; and the
  network's script for the connection.\<close>

record accept_env =
  ac_fd :: "int option"
  ac_info :: "(u32 \<times> u32) option"
  ac_nonblock :: bool
  ac_epoll :: bool
  ac_in :: "recv_event list"
  ac_out :: "send_event list"

definition AcceptConnect :: "accept_env \<Rightarrow> proxy_svr \<Rightarrow> proxy_svr" where
  "AcceptConnect e ps = (case ac_fd e of
     None \<Rightarrow> ps
   | Some cli_fd \<Rightarrow>
       (case SocketCreate ps of
          (None, ps1) \<Rightarrow> ps1
        | (Some pos, ps1) \<Rightarrow>
            let ps2 = set_sock pos ((ps_pool ps1 ! pos)\<lparr>sv_fd := cli_fd, sv_type := CLIENT_SOCKET,
                        sv_in := ac_in e, sv_out := ac_out e\<rparr>) ps1
            in case ac_info e of
                 None \<Rightarrow> SocketRelease pos ps2
               | Some (svr_type, svr_id) \<Rightarrow>
                   if \<not> ac_nonblock e then SocketRelease pos ps2
                   else if \<not> ac_epoll e then SocketRelease pos ps2
                   else let (ok, ps3) = Register pos svr_type svr_id ps2
                        in if ok then ps3 else SocketRelease pos ps3))"

text \<open>\<open>InitNetwork\<close> without the system calls, and \<open>ServerManager::Init\<close>.\<close>

definition ProxyServer_Init :: "u32 \<Rightarrow> (u32 \<times> nat) list \<Rightarrow> proxy_svr outcome option" where
  "ProxyServer_Init svr_id conf =
     (case SocketPoolInit \<lparr>ps_conf = conf, ps_id = svr_id, ps_pool = [], ps_free = [], ps_servers = (\<lambda>_. None)\<rparr> of
        None \<Rightarrow> None
      | Some ps \<Rightarrow>
          (case SocketCreate ps of
             (None, _) \<Rightarrow> Some Crash
           | (Some pos, ps1) \<Rightarrow>
               Some (Ret ((set_sock pos ((ps_pool ps1 ! pos)\<lparr>sv_type := LISTEN_SOCKET\<rparr>) ps1)
                 \<lparr>ps_servers := ServerManager_Init conf\<rparr>))))"

text \<open>One event of the poll set.\<close>

definition DealNetwork_one :: "accept_env \<Rightarrow> byte list \<Rightarrow> nat \<Rightarrow> proxy_svr \<Rightarrow> proxy_svr outcome option" where
  "DealNetwork_one e stale pos ps =
     (if sv_type (ps_pool ps ! pos) = LISTEN_SOCKET then Some (Ret (AcceptConnect e ps))
      else RecvServerData stale pos ps)"

subsection \<open>Where the slots are\<close>

text \<open>The slots the servers of the types \<open>ts\<close> hold.\<close>

definition slots_of :: "nat option list \<Rightarrow> nat list" where
  "slots_of v = List.map_filter (\<lambda>x. x) v"

definition held :: "u32 list \<Rightarrow> (u32 \<Rightarrow> nat option list option) \<Rightarrow> nat list" where
  "held ts m = concat (map (\<lambda>t. case m t of None \<Rightarrow> [] | Some v \<Rightarrow> slots_of v) ts)"

lemma slots_of_simps [simp]:
  "slots_of [] = []" "slots_of (None # v) = slots_of v" "slots_of (Some p # v) = p # slots_of v"
  by (simp_all add: slots_of_def)

lemma slots_of_update:
  "i < length v \<Longrightarrow> mset (slots_of (v[i := Some pos])) + (case v ! i of None \<Rightarrow> {#} | Some b \<Rightarrow> {#b#})
     = add_mset pos (mset (slots_of v))"
proof (induction v arbitrary: i)
  case (Cons x v)
  then show ?case by (cases i; cases x) (auto split: option.splits simp: add_mset_commute)
qed simp

lemma held_cong: "(\<And>t. t \<in> set ts \<Longrightarrow> m t = m' t) \<Longrightarrow> held ts m = held ts m'"
  by (simp add: held_def cong: map_cong)

lemma held_update:
  assumes "distinct ts" "t \<in> set ts" "m t = Some v" "i < length v"
  shows "mset (held ts (m(t \<mapsto> v[i := Some pos]))) + (case v ! i of None \<Rightarrow> {#} | Some b \<Rightarrow> {#b#})
     = add_mset pos (mset (held ts m))"
proof -
  obtain as bs where ts: "ts = as @ t # bs" using assms(2) by (auto dest: split_list)
  then have "t \<notin> set as" "t \<notin> set bs" using assms(1) by auto
  then have "held as (m(t \<mapsto> v[i := Some pos])) = held as m" "held bs (m(t \<mapsto> v[i := Some pos])) = held bs m"
    by (auto intro!: held_cong)
  then show ?thesis using slots_of_update [OF assms(4), of pos] assms(3) unfolding ts held_def
    by (simp add: ac_simps)
qed

lemma slots_of_in: "i < length v \<Longrightarrow> v ! i = Some b \<Longrightarrow> b \<in> set (slots_of v)"
  by (induction v arbitrary: i) (auto simp: nth_Cons slots_of_def List.map_filter_def split: nat.splits)

lemma length_slots_of: "length (slots_of v) \<le> length v"
  by (simp add: slots_of_def List.map_filter_def)

text \<open>A proxy whose slots are all accounted for: the listener has slot 0, every other slot is free or
  the slot of exactly one server.\<close>

definition proxy_ok :: "(u32 \<times> nat) list \<Rightarrow> proxy_svr \<Rightarrow> bool" where
  "proxy_ok conf ps \<longleftrightarrow> ps_conf ps = conf
     \<and> (\<forall>t. ps_servers ps t \<noteq> None \<longleftrightarrow> t \<in> fst ` set conf)
     \<and> (\<forall>t n v. (t, n) \<in> set conf \<longrightarrow> ps_servers ps t = Some v \<longrightarrow> length v = n)
     \<and> length (ps_pool ps) = 2 * sum_list (map snd conf)
     \<and> add_mset 0 (mset (ps_free ps) + mset (held (map fst conf) (ps_servers ps))) = mset [0..<length (ps_pool ps)]"

text \<open>Sending and receiving change sockets, not who holds them.\<close>

definition same_slots :: "proxy_svr \<Rightarrow> proxy_svr \<Rightarrow> bool" where
  "same_slots ps ps' \<longleftrightarrow> ps_conf ps' = ps_conf ps \<and> ps_id ps' = ps_id ps \<and> ps_free ps' = ps_free ps
     \<and> ps_servers ps' = ps_servers ps \<and> length (ps_pool ps') = length (ps_pool ps)"

lemma same_slots_refl: "same_slots ps ps"
  and same_slots_trans: "same_slots ps ps' \<Longrightarrow> same_slots ps' ps'' \<Longrightarrow> same_slots ps ps''"
  and same_slots_set_sock [simp]: "same_slots ps (set_sock pos s ps') = same_slots ps ps'"
  and same_slots_set_left [simp]: "same_slots (set_sock pos s ps) ps' = same_slots ps ps'"
  and same_slots_send_to [simp]: "same_slots ps (send_to f pos ps') = same_slots ps ps'"
  by (auto simp: same_slots_def set_sock_def send_to_def)

lemma same_slots_ok: "same_slots ps ps' \<Longrightarrow> proxy_ok conf ps' = proxy_ok conf ps"
  by (simp add: same_slots_def proxy_ok_def)

lemma same_slots_fold:
  "(\<And>x ps'. same_slots ps (g x ps') = same_slots ps ps') \<Longrightarrow> same_slots ps (fold g xs ps') = same_slots ps ps'"
  by (induction xs arbitrary: ps') auto

lemma same_slots_flush: "same_slots ps (flush_all types ps)"
  unfolding flush_all_def by (subst same_slots_fold) (auto simp: same_slots_refl split: option.split)

lemma DoTransfer_same: "DoTransfer stale bs len ps = Ret ps' \<Longrightarrow> same_slots ps ps'"
  by (auto simp: DoTransfer_def Let_def same_slots_refl same_slots_fold split: if_splits option.splits)

lemma transfer_loop_slots:
  "transfer_loop stale bs ps = Some r \<Longrightarrow> \<forall>rest ps'. r = Ret (rest, ps') \<longrightarrow> same_slots ps ps'"
proof (erule transfer_loop.raw_induct [rotated])
  fix loop stale bs ps r
  assume IH: "\<And>stale bs ps r. loop stale bs ps = Some r \<Longrightarrow> \<forall>rest ps'. r = Ret (rest, ps') \<longrightarrow> same_slots ps ps'"
    and step: "(if length bs > 4 then
        (let len = of_le32 bs
         in if len > length bs then Some (Ret (bs, ps))
            else case DoTransfer stale bs len ps of
              Crash \<Rightarrow> Some Crash
            | Ret ps1 \<Rightarrow> loop stale (drop len bs) ps1)
      else Some (Ret (bs, ps))) = Some r"
  show "\<forall>rest ps'. r = Ret (rest, ps') \<longrightarrow> same_slots ps ps'"
    using step by (auto simp: Let_def same_slots_refl split: if_splits outcome.splits
        dest!: IH DoTransfer_same intro: same_slots_trans)
qed

lemma RecvServerData_slots:
  "RecvServerData stale pos ps = Some r \<Longrightarrow> \<forall>ps'. r = Ret ps' \<longrightarrow> same_slots ps ps'"
proof (erule RecvServerData.raw_induct [rotated])
  fix loop stale pos ps r
  assume IH: "\<And>stale pos ps r. loop stale pos ps = Some r \<Longrightarrow> \<forall>ps'. r = Ret ps' \<longrightarrow> same_slots ps ps'"
    and step: "(if length (sv_recv (ps_pool ps ! pos)) = RECV_BUF_LEN then Some (Ret ps)
      else case sock_recv (ps_pool ps ! pos) of
        (Peer_closed, s1) \<Rightarrow> Some (Ret (set_sock pos (disconn s1) ps))
      | (Recv_again, s1) \<Rightarrow> Some (Ret (set_sock pos s1 ps))
      | (Recv_error, s1) \<Rightarrow> Some (Ret (set_sock pos (disconn s1) ps))
      | (Seg bs, s1) \<Rightarrow>
          (case transfer_loop stale (sv_recv s1 @ bs) (set_sock pos (s1\<lparr>sv_recv := sv_recv s1 @ bs\<rparr>) ps) of
             None \<Rightarrow> None
           | Some Crash \<Rightarrow> Some Crash
           | Some (Ret (rest, ps2)) \<Rightarrow>
               loop stale pos (set_sock pos ((ps_pool ps2 ! pos)\<lparr>sv_recv := rest\<rparr>) ps2))) = Some r"
  have tl: "same_slots ps ps2"
    if "transfer_loop stale bs (set_sock pos s1 ps) = Some (Ret (rest, ps2))" for bs s1 rest ps2
  proof -
    have "same_slots (set_sock pos s1 ps) ps2" using transfer_loop_slots [OF that] by simp
    then show ?thesis by (simp add: same_slots_def set_sock_def)
  qed
  show "\<forall>ps'. r = Ret ps' \<longrightarrow> same_slots ps ps'"
    using step by (auto simp: same_slots_refl split: if_splits prod.splits recv_event.splits option.splits outcome.splits
        dest!: IH tl intro: same_slots_trans)
qed


lemma mset_upt_lt: "x \<in># mset [0..<n] \<longleftrightarrow> x < n"
  by simp

text \<open>Registering: the new slot is held instead of the one before it, which is free again.\<close>

lemma Register_ok:
  assumes ok: "proxy_ok conf (ps\<lparr>ps_free := pos # ps_free ps\<rparr>)" "distinct (map fst conf)"
    and r: "Register pos t i ps = (True, ps')"
  shows "proxy_ok conf ps'"
proof -
  obtain v where v: "ps_servers ps t = Some v" "unat i < length v"
    using r by (auto simp: Register_def split: option.splits if_splits)
  have t: "t \<in> set (map fst conf)" using ok(1) v(1) by (auto simp: proxy_ok_def)
  define m' where "m' = (ps_servers ps)(t \<mapsto> v[unat i := Some pos])"
  have vec: "ps_servers ps u \<noteq> None \<longleftrightarrow> u \<in> fst ` set conf" "(u, n) \<in> set conf \<Longrightarrow> ps_servers ps u = Some w \<Longrightarrow> length w = n"
    for u n w using ok(1) by (auto simp: proxy_ok_def)
  have keep: "(\<forall>u. m' u \<noteq> None \<longleftrightarrow> u \<in> fst ` set conf) \<and> (\<forall>u n w. (u, n) \<in> set conf \<longrightarrow> m' u = Some w \<longrightarrow> length w = n)"
    using vec v t by (auto simp: m'_def)
  note up = held_update [where m = "ps_servers ps" and pos = pos, OF ok(2) t v, folded m'_def]
  have acc: "add_mset 0 (add_mset pos (mset (ps_free ps)) + mset (held (map fst conf) (ps_servers ps)))
      = mset [0..<length (ps_pool ps)]"
    and len: "length (ps_pool ps) = 2 * sum_list (map snd conf)" "ps_conf ps = conf"
    using ok(1) by (simp_all add: proxy_ok_def)
  show ?thesis
  proof (cases "v ! unat i")
    case None
    then have "ps' = ps\<lparr>ps_servers := m'\<rparr>" using r v by (simp add: Register_def m'_def)
    with keep up acc len None show ?thesis by (simp add: proxy_ok_def)
  next
    case (Some b)
    define ps1 where "ps1 = set_sock pos (snd (SendBufData ((ps_pool ps ! pos)\<lparr>sv_send := sv_send (ps_pool ps ! b)\<rparr>))) ps"
    have s1: "same_slots ps ps1" by (simp add: ps1_def same_slots_refl)
    have "ps' = (SocketRelease b ps1)\<lparr>ps_servers := (ps_servers (SocketRelease b ps1))(t \<mapsto> v[unat i := Some pos])\<rparr>"
      using r v Some by (simp add: Register_def ps1_def Let_def)
    with s1 have "ps_conf ps' = ps_conf ps" "ps_servers ps' = m'" "ps_free ps' = ps_free ps @ [b]"
      "length (ps_pool ps') = length (ps_pool ps)"
      by (auto simp: same_slots_def SocketRelease_def set_sock_def m'_def)
    moreover have "mset (ps_free ps @ [b]) + mset (held (map fst conf) m')
        = add_mset pos (mset (ps_free ps)) + mset (held (map fst conf) (ps_servers ps))"
      using up Some by simp
    ultimately show ?thesis using keep acc len by (simp add: proxy_ok_def del: mset_append)
  qed
qed

lemma SocketRelease_ok:
  "proxy_ok conf (ps\<lparr>ps_free := pos # ps_free ps\<rparr>) \<Longrightarrow> proxy_ok conf (SocketRelease pos ps)"
  by (simp add: proxy_ok_def SocketRelease_def set_sock_def)

lemma AcceptConnect_ok:
  assumes "proxy_ok conf ps" "distinct (map fst conf)"
  shows "proxy_ok conf (AcceptConnect e ps)"
proof (cases "ac_fd e")
  case None
  then show ?thesis using assms by (simp add: AcceptConnect_def)
next
  case (Some fd)
  show ?thesis
  proof (cases "ps_free ps")
    case Nil
    then show ?thesis using assms Some by (simp add: AcceptConnect_def SocketCreate_def)
  next
    case (Cons pos rest)
    define ps2 where "ps2 = set_sock pos ((ps_pool ps ! pos)\<lparr>sv_fd := fd, sv_type := CLIENT_SOCKET,
                        sv_in := ac_in e, sv_out := ac_out e\<rparr>) (ps\<lparr>ps_free := rest\<rparr>)"
    have ok2: "proxy_ok conf (ps2\<lparr>ps_free := pos # ps_free ps2\<rparr>)"
      using assms(1) Cons by (simp add: proxy_ok_def ps2_def set_sock_def)
    have rel: "proxy_ok conf (SocketRelease pos ps2)" by (rule SocketRelease_ok [OF ok2])
    have reg: "Register pos t i ps2 = (False, x) \<Longrightarrow> x = ps2" for t :: u32 and i :: u32 and x
      by (auto simp: Register_def Let_def split: option.splits if_splits)
    have "AcceptConnect e ps = (case ac_info e of
                 None \<Rightarrow> SocketRelease pos ps2
               | Some (svr_type, svr_id) \<Rightarrow>
                   if \<not> ac_nonblock e then SocketRelease pos ps2
                   else if \<not> ac_epoll e then SocketRelease pos ps2
                   else let (ok, ps3) = Register pos svr_type svr_id ps2
                        in if ok then ps3 else SocketRelease pos ps3)"
      using Some Cons by (simp add: AcceptConnect_def SocketCreate_def Let_def ps2_def split: option.split)
    moreover have "proxy_ok conf (let (ok, ps3) = Register pos t i ps2 in if ok then ps3 else SocketRelease pos ps3)" for t i
    proof -
      obtain okk ps3 where r: "Register pos t i ps2 = (okk, ps3)" by (rule prod.exhaust)
      then show ?thesis using Register_ok [OF ok2 assms(2)] rel reg [of t i ps3] by (cases okk) auto
    qed
    ultimately show ?thesis using rel by (auto split: option.split)
  qed
qed

lemma foldl_servers:
  assumes "distinct (map fst conf)" "\<And>t. t \<in> fst ` set conf \<Longrightarrow> m t = None"
  shows "foldl add_type m conf u = (case map_of conf u of None \<Rightarrow> m u | Some n \<Rightarrow> Some (replicate n None))"
  using assms
proof (induction conf arbitrary: m)
  case (Cons x conf)
  obtain t n where x: "x = (t, n)" by (rule prod.exhaust)
  have "m t = None" "map_of conf t = None" using Cons.prems x by (auto simp: map_of_eq_None_iff)
  moreover from this have "add_type m x = m(t \<mapsto> replicate n None)" by (simp add: add_type_def x vec_resize_def)
  moreover have "foldl add_type (m(t \<mapsto> replicate n None)) conf u
      = (case map_of conf u of None \<Rightarrow> (m(t \<mapsto> replicate n None)) u | Some n \<Rightarrow> Some (replicate n None))"
    using Cons.prems x by (intro Cons.IH) auto
  ultimately show ?case by (auto simp: x split: option.split)
qed simp

lemma slots_of_replicate [simp]: "slots_of (replicate n None) = []"
  by (induction n) auto

lemma Init_ok:
  assumes "distinct (map fst conf)" "sum_list (map snd conf) < 32768"
    and "ProxyServer_Init sid conf = Some (Ret ps)"
  shows "proxy_ok conf ps"
proof -
  let ?S = "sum_list (map snd conf)"
  have s: "?S * 2 mod 2 ^ 32 = ?S * 2" using assms(2) by simp
  have pos: "?S \<noteq> 0"
  proof
    assume "?S = 0"
    then have "ProxyServer_Init sid conf = Some Crash"
      by (simp add: ProxyServer_Init_def SocketPoolInit_def SocketCreate_def del: sum_list_eq_0_iff)
    with assms(3) show False by simp
  qed
  then have up: "[0..<?S * 2] = 0 # [1..<?S * 2]" by (simp add: upt_conv_Cons del: sum_list_eq_0_iff)
  have ps: "ps_conf ps = conf" "ps_servers ps = ServerManager_Init conf" "length (ps_pool ps) = ?S * 2" "ps_free ps = [1..<?S * 2]"
    using assms(2,3) by (auto simp: ProxyServer_Init_def SocketPoolInit_def s SocketCreate_def Let_def up set_sock_def simp del: upt_Suc split: if_splits)
  have srv: "ServerManager_Init conf t = (case map_of conf t of None \<Rightarrow> None | Some n \<Rightarrow> Some (replicate n None))" for t
    unfolding ServerManager_Init_def by (subst foldl_servers [OF assms(1)]) simp_all
  have "held (map fst conf) (ServerManager_Init conf) = []"
    by (auto simp: held_def srv split: option.split)
  moreover have "ServerManager_Init conf t \<noteq> None \<longleftrightarrow> t \<in> fst ` set conf" for t
    using map_of_eq_None_iff [of conf t] by (simp add: srv split: option.split) force
  moreover have "length v = n" if "(t, n) \<in> set conf" "ServerManager_Init conf t = Some v" for t n v
    using that assms(1) by (auto simp: srv)
  ultimately show ?thesis using up by (simp add: proxy_ok_def ps mult.commute)
qed

subsection \<open>Runs of the proxy\<close>

inductive proxy_run :: "u32 \<Rightarrow> (u32 \<times> nat) list \<Rightarrow> proxy_svr \<Rightarrow> bool" for sid conf where
  start: "ProxyServer_Init sid conf = Some (Ret ps) \<Longrightarrow> proxy_run sid conf ps"
| event: "proxy_run sid conf ps \<Longrightarrow> DealNetwork_one e stale pos ps = Some (Ret ps') \<Longrightarrow> proxy_run sid conf ps'"
| flush: "proxy_run sid conf ps \<Longrightarrow> proxy_run sid conf (flush_all types ps)"

lemma proxy_run_ok:
  assumes "distinct (map fst conf)" "sum_list (map snd conf) < 32768" "proxy_run sid conf ps"
  shows "proxy_ok conf ps"
  using assms(3)
proof induction
  case (start ps)
  then show ?case using Init_ok assms by blast
next
  case (event ps e stale pos ps')
  show ?case
  proof (cases "sv_type (ps_pool ps ! pos) = LISTEN_SOCKET")
    case True
    with event.hyps(2) have "ps' = AcceptConnect e ps" by (simp add: DealNetwork_one_def)
    then show ?thesis using AcceptConnect_ok [OF event.IH assms(1)] by simp
  next
    case False
    with event.hyps(2) RecvServerData_slots have "same_slots ps ps'" by (auto simp: DealNetwork_one_def)
    then show ?thesis using event.IH same_slots_ok by blast
  qed
next
  case (flush ps types)
  then show ?case using same_slots_ok [OF same_slots_flush] by simp
qed

lemma length_held:
  "(\<And>t n v. (t, n) \<in> set conf \<Longrightarrow> m t = Some v \<Longrightarrow> length v = n) \<Longrightarrow>
     length (held (map fst conf) m) \<le> sum_list (map snd conf)"
proof (induction conf)
  case (Cons x conf)
  obtain t n where x: "x = (t, n)" by (rule prod.exhaust)
  have "length (case m t of None \<Rightarrow> [] | Some v \<Rightarrow> slots_of v) \<le> n"
    using Cons.prems [of t n] x length_slots_of by (cases "m t") (auto intro: order_trans)
  moreover have "length (held (map fst conf) m) \<le> sum_list (map snd conf)"
    using Cons.prems by (intro Cons.IH) auto
  ultimately show ?case by (simp add: x held_def)
qed (simp add: held_def)

lemma proxy_ok_free:
  assumes "proxy_ok conf ps"
  shows "length (ps_free ps) + length (held (map fst conf) (ps_servers ps)) + 1 = 2 * sum_list (map snd conf)"
    and "length (held (map fst conf) (ps_servers ps)) \<le> sum_list (map snd conf)"
proof -
  have m: "add_mset 0 (mset (ps_free ps) + mset (held (map fst conf) (ps_servers ps))) = mset [0..<length (ps_pool ps)]"
    and len: "length (ps_pool ps) = 2 * sum_list (map snd conf)"
    using assms by (simp_all only: proxy_ok_def)
  from arg_cong [OF m, of size] len
  show "length (ps_free ps) + length (held (map fst conf) (ps_servers ps)) + 1 = 2 * sum_list (map snd conf)"
    by (simp del: sum_list_eq_0_iff mset_upt)
  show "length (held (map fst conf) (ps_servers ps)) \<le> sum_list (map snd conf)"
    using assms by (intro length_held) (auto simp: proxy_ok_def)
qed

text \<open>However the servers come, go and come back, no slot of the proxy's pool is lost and a
  server that connects always finds one: every slot is the listener's, free, or held by exactly
  one server of the table. The pool of twice the number of servers is enough from two
  servers on.\<close>

theorem proxy_always_room:
  assumes "distinct (map fst conf)" "2 \<le> sum_list (map snd conf)" "sum_list (map snd conf) < 32768"
    and "proxy_run sid conf ps"
  shows "\<exists>pos ps'. SocketCreate ps = (Some pos, ps') \<and> pos < length (ps_pool ps) \<and> pos \<noteq> 0
     \<and> pos \<notin> set (held (map fst conf) (ps_servers ps)) \<and> distinct (held (map fst conf) (ps_servers ps))"
proof -
  note ok = proxy_run_ok [OF assms(1,3,4)]
  from proxy_ok_free [OF ok] assms(2) have "ps_free ps \<noteq> []" by auto
  then obtain pos rest where fr: "ps_free ps = pos # rest" by (cases "ps_free ps") auto
  have m: "mset (0 # ps_free ps @ held (map fst conf) (ps_servers ps)) = mset [0..<length (ps_pool ps)]"
    using ok by (simp add: proxy_ok_def)
  have "distinct (0 # ps_free ps @ held (map fst conf) (ps_servers ps))"
    using mset_eq_imp_distinct_iff [OF m] by simp
  moreover have "set (0 # ps_free ps @ held (map fst conf) (ps_servers ps)) = {0..<length (ps_pool ps)}"
    using mset_eq_setD [OF m] by simp
  ultimately show ?thesis using fr by (auto simp: SocketCreate_def)
qed

lemma upt_small: "[0..<4] = [0, 1, 2, 3]" "[0..<2] = [0, 1]" "replicate 2 x = [x, x]"
  by (simp_all add: upt_rec numeral_2_eq_2)

definition conf2 :: "(u32 \<times> nat) list" where "conf2 = [(EN_1_DBProxy, 2)]"

definition no_accept :: accept_env where
  "no_accept = \<lparr>ac_fd = Some 7, ac_info = Some (EN_1_DBProxy, 0), ac_nonblock = True, ac_epoll = True, ac_in = [], ac_out = []\<rparr>"

lemma proxy_always_room_witness:
  "\<exists>ps pos ps'. proxy_run 1 conf2 ps \<and> length (held [EN_1_DBProxy] (ps_servers ps)) = 1 \<and> SocketCreate ps = (Some pos, ps')"
proof -
  obtain ps0 where i: "ProxyServer_Init 1 conf2 = Some (Ret ps0)" "ps_free ps0 = [1, 2, 3]"
    "ps_servers ps0 = [EN_1_DBProxy \<mapsto> [None, None]]" "sv_type (ps_pool ps0 ! 0) = LISTEN_SOCKET"
    by (simp add: ProxyServer_Init_def SocketPoolInit_def conf2_def SocketCreate_def set_sock_def ServerManager_Init_def
        add_type_def vec_resize_def upt_small)
  have run0: "proxy_run 1 conf2 ps0" using i(1) by (rule proxy_run.start)
  have "DealNetwork_one no_accept [] 0 ps0 = Some (Ret (AcceptConnect no_accept ps0))"
    by (simp add: DealNetwork_one_def i)
  from proxy_run.event [OF run0 this] have run: "proxy_run 1 conf2 (AcceptConnect no_accept ps0)" .
  have "held [EN_1_DBProxy] (ps_servers (AcceptConnect no_accept ps0)) = [1]"
    by (simp add: AcceptConnect_def no_accept_def SocketCreate_def i Register_def set_sock_def held_def)
  moreover have "distinct (map fst conf2)" "2 \<le> sum_list (map snd conf2)" "sum_list (map snd conf2) < 32768"
    by (simp_all add: conf2_def)
  ultimately show ?thesis using proxy_always_room [OF _ _ _ run] run by fastforce
qed

text \<open>A proxy that is configured for a single server can never take that server back: once it has
  registered the pool is used up, and its slot is kept when the connection is lost, so every
  later connection is closed at once.\<close>

theorem lone_server_locked_out:
  assumes "proxy_run sid [(t, 1)] ps" "ps_servers ps t = Some [Some pos]"
  shows "AcceptConnect e ps = ps \<and> AcceptConnect e (SocketDisconn pos ps) = SocketDisconn pos ps"
proof -
  have "proxy_ok [(t, 1)] ps" by (rule proxy_run_ok [OF _ _ assms(1)]) simp_all
  from proxy_ok_free(1) [OF this] have fr: "ps_free ps = []" using assms(2) by (simp add: held_def)
  then have "ps_free (SocketDisconn pos ps) = []" by (simp add: SocketDisconn_def set_sock_def)
  with fr show ?thesis by (simp add: AcceptConnect_def SocketCreate_def split: option.split)
qed

lemma lone_server_locked_out_witness:
  "\<exists>ps. proxy_run 1 [(EN_1_DBProxy, 1)] ps \<and> sv_fd (ps_pool (SocketDisconn 1 ps) ! 1) = SOCKET_CLOSED
     \<and> AcceptConnect no_accept (SocketDisconn 1 ps) = SocketDisconn 1 ps"
proof -
  obtain ps0 where i: "ProxyServer_Init 1 [(EN_1_DBProxy, 1)] = Some (Ret ps0)" "ps_free ps0 = [1]" "length (ps_pool ps0) = 2"
    "ps_servers ps0 = [EN_1_DBProxy \<mapsto> [None]]" "sv_type (ps_pool ps0 ! 0) = LISTEN_SOCKET"
    by (simp add: ProxyServer_Init_def SocketPoolInit_def SocketCreate_def set_sock_def ServerManager_Init_def
        add_type_def vec_resize_def upt_small)
  have run0: "proxy_run 1 [(EN_1_DBProxy, 1)] ps0" using i(1) by (rule proxy_run.start)
  have "DealNetwork_one no_accept [] 0 ps0 = Some (Ret (AcceptConnect no_accept ps0))"
    by (simp add: DealNetwork_one_def i)
  from proxy_run.event [OF run0 this] have run: "proxy_run 1 [(EN_1_DBProxy, 1)] (AcceptConnect no_accept ps0)" .
  have s: "ps_servers (AcceptConnect no_accept ps0) EN_1_DBProxy = Some [Some 1]"
    "length (ps_pool (AcceptConnect no_accept ps0)) = 2"
    by (simp_all add: AcceptConnect_def no_accept_def SocketCreate_def i Register_def set_sock_def)
  from lone_server_locked_out [OF run s(1)] run s(2) show ?thesis
    by (intro exI [of _ "AcceptConnect no_accept ps0"]) (simp add: SocketDisconn_def set_sock_def disconn_def)
qed

subsection \<open>Sending in order\<close>

lemma sock_send_whole:
  assumes "sends_whole (sv_out s)" "sock_send bs s = (r, err, s')"
  shows "(r = Some bs \<and> sv_sent s' = sv_sent s @ bs \<or> r = None \<and> sv_sent s' = sv_sent s)
    \<and> sends_whole (sv_out s') \<and> sv_send s' = sv_send s"
proof -
  obtain q e es where n: "net_send bs (sv_out s) = (q, e, es)" by (rule prod_cases3)
  show ?thesis using net_send_whole [OF assms(1) n] assms n by (auto simp: sock_send_def split: if_splits)
qed

lemma disconn_keeps [simp]: "sv_send (disconn s) = sv_send s" "sv_out (disconn s) = sv_out s" "sv_sent (disconn s) = sv_sent s"
  by (simp_all add: disconn_def)

lemma SendBufData_order:
  assumes "sends_whole (sv_out s)" "SendBufData s = (ok, s')"
  shows "sv_sent s' @ sv_send s' = sv_sent s @ sv_send s \<and> sends_whole (sv_out s')
    \<and> length (sv_send s') \<le> length (sv_send s) \<and> (ok \<longrightarrow> sv_send s' = [])"
proof -
  obtain r err s1 where n: "sock_send (sv_send s) s = (r, err, s1)" by (rule prod_cases3)
  show ?thesis using sock_send_whole [OF assms(1) n] assms(2) n
    by (cases r) (auto simp: SendBufData_def)
qed

lemma SendOneData_order:
  assumes "sends_whole (sv_out s)" "length (sv_send s) + length buf \<le> SEND_BUF_LEN" "SendOneData buf s = (ok, s')"
  shows "sv_sent s' @ sv_send s' = sv_sent s @ sv_send s @ buf \<and> sends_whole (sv_out s')
    \<and> length (sv_send s') \<le> length (sv_send s) + length buf"
proof (cases "sv_fd s = SOCKET_CLOSED")
  case True
  then show ?thesis using assms by (auto simp: SendOneData_def ReserveData_def)
next
  case False
  obtain fl s1 where f: "(if sv_send s \<noteq> [] then SendBufData s else (True, s)) = (fl, s1)" by (rule prod.exhaust)
  then have s1: "sv_sent s1 @ sv_send s1 = sv_sent s @ sv_send s" "sends_whole (sv_out s1)"
    "length (sv_send s1) \<le> length (sv_send s)" "fl \<Longrightarrow> sv_send s1 = []"
    using SendBufData_order [OF assms(1), of fl s1] assms(1) by (auto split: if_splits)
  obtain r err s2 where n: "sock_send buf s1 = (r, err, s2)" by (rule prod_cases3)
  note w = sock_send_whole [OF s1(2) n]
  have "SendOneData buf s = (if \<not> fl then (False, ReserveData buf s1)
           else case (r, err, s2) of
             (None, err, s2) \<Rightarrow> (False, ReserveData buf (if err then disconn s2 else s2))
           | (Some _, _, s2) \<Rightarrow> (True, s2))"
    using False f n by (simp add: SendOneData_def Let_def)
  then show ?thesis using w s1 assms(2,3)
    by (cases fl; cases r) (auto simp: ReserveData_def)
qed

text \<open>What happens to one server's socket: a package for it, or the flush of every turn.\<close>

definition sock_op :: "byte list option \<Rightarrow> svr_socket \<Rightarrow> svr_socket" where
  "sock_op p s = (case p of None \<Rightarrow> snd (SendBufData s) | Some buf \<Rightarrow> snd (SendOneData buf s))"

definition payload :: "byte list option \<Rightarrow> byte list" where
  "payload p = (case p of None \<Rightarrow> [] | Some buf \<Rightarrow> buf)"

lemma proxy_order:
  assumes "sends_whole (sv_out s)" "length (sv_send s) + length (concat (map payload ps)) \<le> SEND_BUF_LEN"
  shows "sv_sent (fold sock_op ps s) @ sv_send (fold sock_op ps s)
    = sv_sent s @ sv_send s @ concat (map payload ps)"
  using assms
proof (induction ps arbitrary: s)
  case (Cons p ps)
  let ?s = "sock_op p s"
  have step: "sv_sent ?s @ sv_send ?s = sv_sent s @ sv_send s @ payload p \<and> sends_whole (sv_out ?s)
      \<and> length (sv_send ?s) \<le> length (sv_send s) + length (payload p)"
  proof (cases p)
    case None
    obtain ok s' where "SendBufData s = (ok, s')" by (rule prod.exhaust)
    with None SendBufData_order [OF Cons.prems(1) this] show ?thesis by (simp add: sock_op_def payload_def)
  next
    case (Some buf)
    obtain ok s' where sd: "SendOneData buf s = (ok, s')" by (rule prod.exhaust)
    have "length (sv_send s) + length buf \<le> SEND_BUF_LEN" using Cons.prems(2) Some by (simp add: payload_def)
    from SendOneData_order [OF Cons.prems(1) this sd] Some sd show ?thesis by (simp add: sock_op_def payload_def)
  qed
  then have "length (sv_send ?s) + length (concat (map payload ps)) \<le> SEND_BUF_LEN" using Cons.prems(2) by simp
  with Cons.IH [of ?s] step show ?case by simp
qed simp

text \<open>What the network has taken and what waits, and that a step loses bytes at most: it never reorders,
  doubles or invents any, and what was sent stays sent.\<close>

definition stream_of :: "svr_socket \<Rightarrow> byte list" where
  "stream_of s = sv_sent s @ sv_send s"

definition no_more_than :: "svr_socket \<Rightarrow> byte list \<Rightarrow> svr_socket \<Rightarrow> bool" where
  "no_more_than s buf s' \<longleftrightarrow> subseq (stream_of s') (stream_of s @ buf) \<and> prefix (sv_sent s) (sv_sent s')"

lemma no_more_trans: "no_more_than s xs s1 \<Longrightarrow> no_more_than s1 ys s2 \<Longrightarrow> no_more_than s (xs @ ys) s2"
  unfolding no_more_than_def
  using subseq_order.trans [of "stream_of s2" "stream_of s1 @ ys" "(stream_of s @ xs) @ ys"]
    list_emb_append_mono [of "(=)" "stream_of s1" "stream_of s @ xs" ys ys] prefix_order.trans
  by auto

lemma sock_send_part:
  "sock_send bs s = (r, err, s') \<Longrightarrow> (case r of None \<Rightarrow> sv_sent s' = sv_sent s | Some x \<Rightarrow> prefix x bs \<and> sv_sent s' = sv_sent s @ x)
    \<and> sv_send s' = sv_send s"
  by (auto simp: sock_send_def net_send_def take_is_prefix split: if_splits list.splits send_event.splits)

lemma ReserveData_part: "no_more_than s buf (ReserveData buf s)"
  by (simp add: no_more_than_def stream_of_def ReserveData_def subseq_append' list_emb_append2)

lemma SendBufData_part: "no_more_than s [] (snd (SendBufData s))"
proof -
  obtain r err s1 where n: "sock_send (sv_send s) s = (r, err, s1)" by (rule prod_cases3)
  show ?thesis using sock_send_part [OF n] n
    by (cases r) (auto simp: SendBufData_def no_more_than_def stream_of_def subseq_append')
qed

lemma SendOneData_part: "no_more_than s buf (snd (SendOneData buf s))"
proof (cases "sv_fd s = SOCKET_CLOSED")
  case True
  then show ?thesis by (simp add: SendOneData_def ReserveData_part)
next
  case False
  obtain fl s1 where f: "(if sv_send s \<noteq> [] then SendBufData s else (True, s)) = (fl, s1)" by (rule prod.exhaust)
  have s1: "no_more_than s [] s1" "fl \<Longrightarrow> sv_send s1 = []"
    using SendBufData_part [of s] f by (auto simp: no_more_than_def SendBufData_def split: if_splits prod.splits option.splits)
  obtain r err s2 where n: "sock_send buf s1 = (r, err, s2)" by (rule prod_cases3)
  note p = sock_send_part [OF n]
  have e: "SendOneData buf s = (if \<not> fl then (False, ReserveData buf s1)
           else case (r, err, s2) of
             (None, err, s2) \<Rightarrow> (False, ReserveData buf (if err then disconn s2 else s2))
           | (Some _, _, s2) \<Rightarrow> (True, s2))"
    using False f n by (simp add: SendOneData_def Let_def)
  have "no_more_than s1 buf (snd (SendOneData buf s))"
  proof (cases "fl \<and> r \<noteq> None")
    case True
    then show ?thesis unfolding e using p s1(2) by (auto simp: no_more_than_def stream_of_def subseq_append')
  next
    case f2: False
    have "no_more_than s1 buf (ReserveData buf (if err then disconn s2 else s2))" if "r = None"
      using ReserveData_part [of "if err then disconn s2 else s2" buf] p that by (simp add: no_more_than_def stream_of_def split: if_splits)
    then show ?thesis unfolding e using f2 ReserveData_part by auto
  qed
  from no_more_trans [OF s1(1) this] show ?thesis by simp
qed

lemma sock_ops_part: "no_more_than s (concat (map payload ps)) (fold sock_op ps s)"
proof (induction ps arbitrary: s)
  case Nil
  show ?case by (simp add: no_more_than_def)
next
  case (Cons p ps)
  have "no_more_than s (payload p) (sock_op p s)"
    using SendBufData_part SendOneData_part by (cases p) (simp_all add: sock_op_def payload_def)
  from no_more_trans [OF this Cons.IH] show ?case by simp
qed

text \<open>Property C21. What a server gets of what is routed to it, over any sequence of packages and flushes and whatever the
  network answers (refused, broken and short sends, a buffer that overflows): the bytes the network took followed by the bytes
  kept are the bytes routed, in their order, none twice and none invented, and what was taken stays taken. Bytes can be lost, by a
  short send or by an overflow of the buffer; when the network takes each package whole or not at
  all, and everything fits the buffer, none is.\<close>

theorem proxy_send_fifo:
  "subseq (sv_sent (fold sock_op ps s) @ sv_send (fold sock_op ps s)) (sv_sent s @ sv_send s @ concat (map payload ps))
    \<and> prefix (sv_sent s) (sv_sent (fold sock_op ps s))
    \<and> (sends_whole (sv_out s) \<and> length (sv_send s) + length (concat (map payload ps)) \<le> SEND_BUF_LEN \<longrightarrow>
        sv_sent (fold sock_op ps s) @ sv_send (fold sock_op ps s) = sv_sent s @ sv_send s @ concat (map payload ps))"
  using sock_ops_part [of s ps] proxy_order [of s ps] by (simp add: no_more_than_def stream_of_def)

definition flaky :: svr_socket where
  "flaky = svr_socket0\<lparr>sv_fd := 5, sv_out := [Send_again, Send_again]\<rparr>"

lemma proxy_send_fifo_witness:
  "sv_sent (fold sock_op [Some [1, 2], None, Some [3]] flaky) @ sv_send (fold sock_op [Some [1, 2], None, Some [3]] flaky) = [1, 2, 3]"
  using proxy_send_fifo [of "[Some [1, 2], None, Some [3]]" flaky]
  by (simp add: flaky_def svr_socket0_def sends_whole_def payload_def)

text \<open>A short send loses the rest of the package, and the peer takes the bytes that follow
  for it: the code checks for \<open>-1\<close> only.\<close>

lemma short_send_loses:
  assumes "sv_fd s \<noteq> SOCKET_CLOSED" "sv_send s = []" "sv_out s = Sent n # es" "n < length buf"
  shows "\<exists>s'. SendOneData buf s = (True, s') \<and> sv_send s' = [] \<and> sv_sent s' = sv_sent s @ take n buf \<and> take n buf \<noteq> buf"
  using assms by (simp add: SendOneData_def sock_send_def net_send_def)

lemma short_send_loses_witness:
  "\<exists>s'. SendOneData [9, 9, 9] (svr_socket0\<lparr>sv_fd := 5, sv_out := [Sent 1]\<rparr>) = (True, s') \<and> sv_sent s' = [9]"
  using short_send_loses [of "svr_socket0\<lparr>sv_fd := 5, sv_out := [Sent 1]\<rparr>" 1 "[]" "[9, 9, 9]"]
  by (auto simp: svr_socket0_def)

end
