(* ===== verification/ProxyRouting.thy ===== *)
theory ProxyRouting
  imports ProxyServer
begin

text \<open>
  What the proxy promises the logic servers: a package goes to the servers its head names and to
  no other, and the packages of a connection are cut out of its byte stream independently of
  how the network segments it. The receive loop is an instance of the \<open>framing\<close> contract.
\<close>

subsection \<open>Routing\<close>

text \<open>The slots a package goes to, \<open>None\<close> where the code indexes outside its table.\<close>

definition slot_at :: "nat \<Rightarrow> nat option list \<Rightarrow> nat list option" where
  "slot_at i v = (if i \<ge> length v then None else Some (case v ! i of None \<Rightarrow> [] | Some pos \<Rightarrow> [pos]))"

definition targets :: "proxy_svr \<Rightarrow> byte list \<Rightarrow> nat list option" where
  "targets ps f =
     (if length f \<le> PROXY_HEAD_LEN then Some []
      else case ps_servers ps (rd32 12 f) of
        None \<Rightarrow> Some []
      | Some v \<Rightarrow>
          if rd32 40 f = route_code Route_p2p then slot_at (unat (rd32 16 f)) v
          else if rd32 40 f = route_code Route_broadcast then
            (case GetLogicSvr (ps_conf ps) (rd32 12 f) of
               None \<Rightarrow> Some [] | Some n \<Rightarrow> if n > length v then None else Some (slots_of (take n v)))
          else if rd32 40 f = route_code Route_hash then
            (case GetLogicSvr (ps_conf ps) (rd32 12 f) of
               None \<Rightarrow> Some [] | Some n \<Rightarrow> if n = 0 then None else slot_at (unat (rd64 28 f) mod n) v)
          else Some [])"

definition stamp :: "proxy_svr \<Rightarrow> byte list \<Rightarrow> byte list" where
  "stamp ps f = wr 36 (w32 (ps_id ps)) f"

text \<open>A package too short to be routed, or with a whole head.\<close>

definition headed :: "byte list \<Rightarrow> bool" where
  "headed f \<longleftrightarrow> length f \<le> PROXY_HEAD_LEN \<or> 4 + PROXY_HEAD_LEN \<le> length f"

lemma rd_wr_append:
  assumes "44 \<le> length f"
  shows "rd32 12 (wr 36 (w32 x) (f @ ds)) = rd32 12 f" "rd32 16 (wr 36 (w32 x) (f @ ds)) = rd32 16 f"
    "rd64 28 (wr 36 (w32 x) (f @ ds)) = rd64 28 f" "rd32 40 (wr 36 (w32 x) (f @ ds)) = rd32 40 f"
    "take (length f) (wr 36 (w32 x) (f @ ds)) = wr 36 (w32 x) f"
proof -
  have n: "wr 36 (w32 x) (f @ ds) ! i = f ! i" if "i < 44" "i < 36 \<or> 40 \<le> i" for i
    using assms that nth_wr [of 36 "w32 x" "f @ ds" i] by (simp add: nth_append)
  have l: "44 \<le> length (wr 36 (w32 x) (f @ ds))" using assms by simp
  show "rd32 12 (wr 36 (w32 x) (f @ ds)) = rd32 12 f" "rd32 16 (wr 36 (w32 x) (f @ ds)) = rd32 16 f"
    "rd64 28 (wr 36 (w32 x) (f @ ds)) = rd64 28 f" "rd32 40 (wr 36 (w32 x) (f @ ds)) = rd32 40 f"
    using assms l n by (auto intro!: rd32_nth_cong rd64_nth_cong)
  show "take (length f) (wr 36 (w32 x) (f @ ds)) = wr 36 (w32 x) f"
    using assms by (simp add: wr_def)
qed

lemma fold_slots:
  "fold (\<lambda>slot ps. case slot of None \<Rightarrow> ps | Some pos \<Rightarrow> send_to f pos ps) v ps = fold (send_to f) (slots_of v) ps"
  by (induction v arbitrary: ps) (auto split: option.split)

text \<open>Transferring a package is sending it, stamped with the proxy's id, to its targets.\<close>

lemma DoTransfer_targets:
  assumes "headed f"
  shows "DoTransfer stale (f @ ds) (length f) ps
    = (case targets ps f of None \<Rightarrow> Crash | Some ts \<Rightarrow> Ret (fold (send_to (stamp ps f)) ts ps))"
proof (cases "length f \<le> PROXY_HEAD_LEN")
  case True
  then show ?thesis by (simp add: DoTransfer_def targets_def)
next
  case False
  with assms have l: "44 \<le> length f" by (simp add: headed_def)
  note r = rd_wr_append [OF l, of "ps_id ps" "ds @ stale"]
  show ?thesis using False
    by (simp add: DoTransfer_def targets_def slot_at_def stamp_def r fold_slots Let_def
        split: option.split)
qed

text \<open>Who is meant by a package: the server of the destination type with the given id, all of them, or
  the one the key selects.\<close>

definition receivers :: "proxy_svr \<Rightarrow> byte list \<Rightarrow> nat set" where
  "receivers ps f = {pos. \<exists>v i. ps_servers ps (rd32 12 f) = Some v \<and> i < length v \<and> v ! i = Some pos
     \<and> (rd32 40 f = route_code Route_p2p \<and> i = unat (rd32 16 f) \<or> rd32 40 f = route_code Route_broadcast
        \<or> rd32 40 f = route_code Route_hash \<and> i = unat (rd64 28 f) mod length v)}"

definition misrouted :: "proxy_svr \<Rightarrow> byte list \<Rightarrow> bool" where
  "misrouted ps f \<longleftrightarrow> (\<exists>v. ps_servers ps (rd32 12 f) = Some v
     \<and> (rd32 40 f = route_code Route_p2p \<and> length v \<le> unat (rd32 16 f) \<or> rd32 40 f = route_code Route_hash \<and> v = []))"

lemma GetLogicSvr_length:
  assumes "proxy_ok conf ps" "ps_servers ps t = Some v"
  shows "GetLogicSvr (ps_conf ps) t = Some (length v)"
proof -
  have "t \<in> fst ` set conf" using assms unfolding proxy_ok_def by blast
  then have "find (\<lambda>x. fst x = t) (rev conf) \<noteq> None" by (auto simp: find_None_iff)
  then obtain y where y: "find (\<lambda>x. fst x = t) (rev conf) = Some y" by blast
  from find_SomeD [OF this] have "(t, snd y) \<in> set conf" by auto
  then have "length v = snd y" using assms unfolding proxy_ok_def by blast
  with y assms(1) show ?thesis by (simp add: GetLogicSvr_def proxy_ok_def)
qed

lemma set_slots_of: "set (slots_of v) = {pos. \<exists>i<length v. v ! i = Some pos}"
proof -
  have "pos \<in> set (slots_of v) \<longleftrightarrow> Some pos \<in> set v" for pos
    by (induction v) (auto simp: slots_of_def List.map_filter_simps split: option.split)
  then show ?thesis by (auto simp: in_set_conv_nth)
qed

lemma targets_receivers:
  assumes "proxy_ok conf ps" "PROXY_HEAD_LEN < length f"
  shows "case targets ps f of None \<Rightarrow> misrouted ps f | Some ts \<Rightarrow> \<not> misrouted ps f \<and> set ts = receivers ps f"
proof (cases "ps_servers ps (rd32 12 f)")
  case None
  then show ?thesis using assms(2) by (simp add: targets_def misrouted_def receivers_def)
next
  case (Some v)
  note n = GetLogicSvr_length [OF assms(1) Some]
  have md: "v \<noteq> [] \<Longrightarrow> \<not> length v \<le> k mod length v" for k by (simp add: not_le)
  show ?thesis using Some n assms(2)
    by (auto simp: targets_def misrouted_def receivers_def slot_at_def set_slots_of md split: option.split)
qed

lemma distinct_slots_of: "distinct (held ts m) \<Longrightarrow> t \<in> set ts \<Longrightarrow> m t = Some v \<Longrightarrow> distinct (slots_of v)"
  by (induction ts) (auto simp: held_def)

lemma slots_in_held: "t \<in> set ts \<Longrightarrow> m t = Some v \<Longrightarrow> set (slots_of v) \<subseteq> set (held ts m)"
  by (auto simp: held_def)

lemma targets_distinct:
  assumes "proxy_ok conf ps" "targets ps f = Some ts"
  shows "distinct ts" "set ts \<subseteq> {..<length (ps_pool ps)}"
proof -
  have m: "mset (0 # ps_free ps @ held (map fst conf) (ps_servers ps)) = mset [0..<length (ps_pool ps)]"
    using assms by (simp add: proxy_ok_def)
  have d: "distinct (held (map fst conf) (ps_servers ps))" "set (held (map fst conf) (ps_servers ps)) \<subseteq> {..<length (ps_pool ps)}"
    using mset_eq_imp_distinct_iff [OF m] mset_eq_setD [OF m] by auto
  have "distinct ts \<and> set ts \<subseteq> {..<length (ps_pool ps)}"
  proof (cases "PROXY_HEAD_LEN < length f \<and> ps_servers ps (rd32 12 f) \<noteq> None")
    case False
    then have "ts = []" using assms(2) by (auto simp: targets_def split: if_splits option.splits)
    then show ?thesis by simp
  next
    case True
    then obtain v where v: "ps_servers ps (rd32 12 f) = Some v" by blast
    have t: "rd32 12 f \<in> set (map fst conf)" using assms(1) v by (auto simp: proxy_ok_def)
    note dv = distinct_slots_of [where m = "ps_servers ps", OF d(1) t v]
      and sv = slots_in_held [where m = "ps_servers ps", OF t v]
    have md: "v \<noteq> [] \<Longrightarrow> k mod length v < length v" for k by simp
    have "ts = [] \<or> (\<exists>i<length v. \<exists>pos. v ! i = Some pos \<and> ts = [pos]) \<or> ts = slots_of v"
      using assms(2) True v GetLogicSvr_length [OF assms(1) v]
      by (auto simp: targets_def slot_at_def not_le split: if_splits option.splits intro: md)
    then show ?thesis using dv sv d(2) slots_of_in [of _ v] by fastforce
  qed
  then show "distinct ts" "set ts \<subseteq> {..<length (ps_pool ps)}" by auto
qed

lemma pool_send_to: "p < length (ps_pool ps) \<Longrightarrow> ps_pool (send_to f q ps) ! p
    = (if p = q then snd (SendOneData f (ps_pool ps ! q)) else ps_pool ps ! p)"
  by (auto simp: send_to_def set_sock_def nth_list_update)

lemma length_pool_send_to [simp]: "length (ps_pool (send_to f q ps)) = length (ps_pool ps)"
  by (simp add: send_to_def set_sock_def)

lemma pool_fold_send_to:
  "distinct ts \<Longrightarrow> p < length (ps_pool ps) \<Longrightarrow> ps_pool (fold (send_to f) ts ps) ! p
    = (if p \<in> set ts then snd (SendOneData f (ps_pool ps ! p)) else ps_pool ps ! p)"
  by (induction ts arbitrary: ps) (auto simp: pool_send_to)

text \<open>Property C9. A package reaches the servers it names and no other: after a transfer the socket of
  each receiver has been sent the package, stamped with the proxy's id, exactly once, and every
  other socket is as before. The transfer goes outside the server table exactly for a server id
  that does not exist, which the code does not check, or a type without servers to hash to.\<close>

theorem package_routed:
  assumes "distinct (map fst conf)" "sum_list (map snd conf) < 32768" "proxy_run sid conf ps"
    and "4 + PROXY_HEAD_LEN \<le> length f"
  shows "if misrouted ps f then DoTransfer stale (f @ ds) (length f) ps = Crash
    else \<exists>ps'. DoTransfer stale (f @ ds) (length f) ps = Ret ps' \<and> ps_servers ps' = ps_servers ps
      \<and> (\<forall>p<length (ps_pool ps). ps_pool ps' ! p =
           (if p \<in> receivers ps f then snd (SendOneData (stamp ps f) (ps_pool ps ! p)) else ps_pool ps ! p))"
proof -
  note ok = proxy_run_ok [OF assms(1-3)]
  have h: "headed f" "PROXY_HEAD_LEN < length f" using assms(4) by (auto simp: headed_def)
  note tr = targets_receivers [OF ok h(2)] and dt = DoTransfer_targets [OF h(1), of stale ds ps]
  show ?thesis
  proof (cases "targets ps f")
    case None
    then show ?thesis using tr dt by simp
  next
    case (Some ts)
    have "same_slots ps (fold (send_to (stamp ps f)) ts ps)" by (subst same_slots_fold) (auto simp: same_slots_refl)
    then have "ps_servers (fold (send_to (stamp ps f)) ts ps) = ps_servers ps" by (simp add: same_slots_def)
    with Some tr dt pool_fold_send_to [OF targets_distinct(1) [OF ok Some]] show ?thesis by simp
  qed
qed

definition toy_proxy :: proxy_svr where
  "toy_proxy = AcceptConnect no_accept (case ProxyServer_Init 1 conf2 of Some (Ret ps) \<Rightarrow> ps | _ \<Rightarrow> undefined)"

definition toy_head :: "u32 \<Rightarrow> route_type \<Rightarrow> proxy_head" where
  "toy_head i r = \<lparr>px_src_type = EN_4_Lipstick, px_src_id = 1, px_des_type = EN_1_DBProxy, px_des_id = i,
     px_session_id = 3, px_hash_key = 8, px_src_proxy_id = 0, px_route_type = r\<rparr>"

lemma toy_fields: "px_des_type (toy_head i r) = EN_1_DBProxy" "px_des_id (toy_head i r) = i" "px_route_type (toy_head i r) = r"
  by (simp_all add: toy_head_def)

definition package :: "proxy_head \<Rightarrow> byte list \<Rightarrow> byte list" where
  "package h m = le32 (4 + PROXY_HEAD_LEN + length m) @ proxy_bytes [0, 0, 0, 0] h @ m"

lemma toy_proxy: "proxy_run 1 conf2 toy_proxy" "ps_servers toy_proxy = [EN_1_DBProxy \<mapsto> [Some 1, None]]"
  "length (ps_pool toy_proxy) = 4" "sv_fd (ps_pool toy_proxy ! 1) = 7" "sv_send (ps_pool toy_proxy ! 1) = []"
  "sv_out (ps_pool toy_proxy ! 1) = []" "sv_sent (ps_pool toy_proxy ! 1) = []"
proof -
  obtain ps0 where i: "ProxyServer_Init 1 conf2 = Some (Ret ps0)" "ps_free ps0 = [1, 2, 3]" "length (ps_pool ps0) = 4"
    "ps_servers ps0 = [EN_1_DBProxy \<mapsto> [None, None]]" "sv_type (ps_pool ps0 ! 0) = LISTEN_SOCKET" "ps_pool ps0 ! 1 = svr_socket0"
    by (simp add: ProxyServer_Init_def SocketPoolInit_def conf2_def SocketCreate_def set_sock_def ServerManager_Init_def
        add_type_def vec_resize_def upt_small)
  have run0: "proxy_run 1 conf2 ps0" using i(1) by (rule proxy_run.start)
  have "DealNetwork_one no_accept [] 0 ps0 = Some (Ret (AcceptConnect no_accept ps0))"
    by (simp add: DealNetwork_one_def i)
  from proxy_run.event [OF run0 this] show "proxy_run 1 conf2 toy_proxy" by (simp add: toy_proxy_def i)
  show "ps_servers toy_proxy = [EN_1_DBProxy \<mapsto> [Some 1, None]]" "length (ps_pool toy_proxy) = 4"
    "sv_fd (ps_pool toy_proxy ! 1) = 7" "sv_send (ps_pool toy_proxy ! 1) = []" "sv_out (ps_pool toy_proxy ! 1) = []"
    "sv_sent (ps_pool toy_proxy ! 1) = []"
    by (simp_all add: toy_proxy_def i AcceptConnect_def no_accept_def SocketCreate_def Register_def set_sock_def svr_socket0_def
        del: One_nat_def)
qed

lemma package_fields: "rd32 12 (package h m) = px_des_type h" "rd32 16 (package h m) = px_des_id h"
  "rd64 28 (package h m) = px_hash_key h" "rd32 40 (package h m) = route_code (px_route_type h)"
  "length (package h m) = 4 + PROXY_HEAD_LEN + length m"
  using proxy_bytes_fields [of "[0, 0, 0, 0]" h m] length_proxy_bytes [of "[0, 0, 0, 0]" h]
  by (simp_all add: package_def rd_skip)

lemma package_routed_witness:
  "DoTransfer [] (package (toy_head 9 Route_p2p) [5]) 45 toy_proxy = Crash
   \<and> (\<exists>ps'. DoTransfer [] (package (toy_head 0 Route_p2p) [5]) 45 toy_proxy = Ret ps'
        \<and> ps_pool ps' ! 1 = snd (SendOneData (stamp toy_proxy (package (toy_head 0 Route_p2p) [5])) (ps_pool toy_proxy ! 1))
        \<and> ps_pool ps' ! 2 = ps_pool toy_proxy ! 2)"
proof -
  have c: "distinct (map fst conf2)" "sum_list (map snd conf2) < 32768" by (simp_all add: conf2_def)
  note r = package_routed [OF c toy_proxy(1), where ds = "[]" and stale = "[]"]
  have len: "4 + PROXY_HEAD_LEN \<le> length (package h [5])" for h by (simp add: package_fields)
  have "misrouted toy_proxy (package (toy_head 9 Route_p2p) [5])"
    by (simp add: misrouted_def package_fields toy_proxy(2) toy_head_def)
  moreover have "\<not> misrouted toy_proxy (package (toy_head 0 Route_p2p) [5])"
    by (simp add: misrouted_def package_fields toy_proxy(2) toy_head_def)
  moreover have "receivers toy_proxy (package (toy_head 0 Route_p2p) [5]) = {1}"
    by (auto simp: receivers_def package_fields toy_proxy(2) toy_head_def)
  ultimately show ?thesis using r [OF len, of "toy_head 9 Route_p2p"] r [OF len, of "toy_head 0 Route_p2p"] toy_proxy(3)
    by (auto simp: package_fields)
qed

subsection \<open>The stream of a server\<close>

text \<open>The verdict of the receive loop on the bytes it has; a length of zero is taken off forever.\<close>

definition proxy_verdict :: "byte list \<Rightarrow> verdict" where
  "proxy_verdict bs = (if length bs \<le> 4 then V_wait else if of_le32 bs = 0 then V_bad
     else if of_le32 bs > length bs then V_wait else V_take (of_le32 bs))"

interpretation px: framing proxy_verdict
  by unfold_locales (auto simp: proxy_verdict_def of_le32_append split: if_splits)

fun deliver :: "byte list list \<Rightarrow> proxy_svr \<Rightarrow> proxy_svr outcome" where
  "deliver [] ps = Ret ps"
| "deliver (f # fs) ps = (case targets ps f of None \<Rightarrow> Crash
     | Some ts \<Rightarrow> deliver fs (fold (send_to (stamp ps f)) ts ps))"

lemma transfer_loop_cut:
  "cut_frames proxy_verdict bs = (fs, rest, True) \<Longrightarrow> \<forall>f\<in>set fs. headed f \<Longrightarrow>
     transfer_loop stale bs ps = Some (case deliver fs ps of Crash \<Rightarrow> Crash | Ret ps1 \<Rightarrow> Ret (rest, ps1))"
proof (induction fs arbitrary: bs ps)
  case Nil
  have "proxy_verdict bs = V_wait"
  proof (cases "proxy_verdict bs")
    case (V_take n)
    then show ?thesis using Nil px.take_ok [OF V_take] by (simp add: cut_take)
  qed (use Nil in \<open>simp_all add: cut_bad\<close>)
  then have "rest = bs" "\<not> length bs > 4 \<or> of_le32 bs > length bs"
    using Nil by (auto simp: cut_wait proxy_verdict_def split: if_splits)
  then show ?case by (subst transfer_loop.simps) auto
next
  case (Cons f fs)
  obtain n where v: "proxy_verdict bs = V_take n"
    using Cons.prems(1) by (cases "proxy_verdict bs") (auto simp: cut_wait cut_bad)
  then have n: "0 < n" "n \<le> length bs" "4 < length bs" "n = of_le32 bs" using px.take_ok [OF v]
    by (auto simp: proxy_verdict_def split: if_splits)
  obtain fs1 r1 ok1 where c: "cut_frames proxy_verdict (drop n bs) = (fs1, r1, ok1)" by (rule prod_cases3)
  with Cons.prems(1) cut_take [of proxy_verdict bs n, OF v n(1,2)]
  have f: "f = take n bs" "fs1 = fs" "r1 = rest" "ok1" by simp_all
  have "DoTransfer stale bs n ps = (case targets ps f of None \<Rightarrow> Crash | Some ts \<Rightarrow> Ret (fold (send_to (stamp ps f)) ts ps))"
    using DoTransfer_targets [of f stale "drop n bs" ps] Cons.prems(2) f(1) n(2) by simp
  then have "transfer_loop stale bs ps = (case targets ps f of None \<Rightarrow> Some Crash
      | Some ts \<Rightarrow> transfer_loop stale (drop n bs) (fold (send_to (stamp ps f)) ts ps))"
    using n by (subst transfer_loop.simps) (simp add: Let_def split: option.split)
  with Cons.IH [of "drop n bs"] c f Cons.prems(2) show ?case by (simp split: option.split)
qed

text \<open>A package of length zero stops the proxy for good: the receive loop takes nothing off
  and never ends.\<close>

lemma zero_length_hangs:
  assumes "4 < length bs" "of_le32 bs = 0"
  shows "transfer_loop stale bs ps = None"
proof -
  have "transfer_loop stale bs ps = Some r \<Longrightarrow> \<not> (4 < length bs \<and> of_le32 bs = 0)" for r
  proof (erule transfer_loop.raw_induct [rotated])
    fix loop stale bs ps r
    assume IH: "\<And>stale bs ps r. loop stale bs ps = Some r \<Longrightarrow> \<not> (4 < length bs \<and> of_le32 bs = 0)"
      and step: "(if length bs > 4 then
          (let len = of_le32 bs
           in if len > length bs then Some (Ret (bs, ps))
              else case DoTransfer stale bs len ps of
                Crash \<Rightarrow> Some Crash
              | Ret ps1 \<Rightarrow> loop stale (drop len bs) ps1)
        else Some (Ret (bs, ps))) = Some r"
    show "\<not> (4 < length bs \<and> of_le32 bs = 0)"
    proof
      assume z: "4 < length bs \<and> of_le32 bs = 0"
      then have "loop stale bs ps = Some r" using step by (simp add: DoTransfer_def)
      with IH z show False by blast
    qed
  qed
  with assms show ?thesis by (cases "transfer_loop stale bs ps") auto
qed

lemma zero_length_hangs_witness: "transfer_loop [] [0, 0, 0, 0, 1] toy_proxy = None"
  by (rule zero_length_hangs) (simp_all add: of_le32_def)

text \<open>What is delivered does not depend on a socket that gets none of it.\<close>

definition spares :: "nat \<Rightarrow> proxy_svr \<Rightarrow> byte list list \<Rightarrow> bool" where
  "spares pos ps fs \<longleftrightarrow> (\<forall>f\<in>set fs. \<forall>ts. targets ps f = Some ts \<longrightarrow> pos \<notin> set ts)"

lemma same_slots_targets: "same_slots ps ps' \<Longrightarrow> targets ps' f = targets ps f \<and> stamp ps' f = stamp ps f"
proof -
  assume "same_slots ps ps'"
  then have e: "ps_conf ps' = ps_conf ps" "ps_servers ps' = ps_servers ps" "ps_id ps' = ps_id ps"
    by (simp_all add: same_slots_def)
  show ?thesis unfolding targets_def stamp_def e by simp
qed

lemma same_slots_fold_send: "same_slots ps (fold (send_to f) ts ps)"
  by (subst same_slots_fold) (auto simp: same_slots_refl)

lemma same_slots_spares: "same_slots ps ps' \<Longrightarrow> spares pos ps' fs = spares pos ps fs"
  by (simp add: spares_def same_slots_targets)

lemma send_to_other: "p \<noteq> pos \<Longrightarrow> send_to f p (set_sock pos s ps) = set_sock pos s (send_to f p ps)"
  by (simp add: send_to_def set_sock_def list_update_swap)

lemma fold_send_to_other: "pos \<notin> set ts \<Longrightarrow> fold (send_to f) ts (set_sock pos s ps) = set_sock pos s (fold (send_to f) ts ps)"
  by (induction ts arbitrary: ps) (auto simp: send_to_other)

lemma fold_send_to_pool: "pos \<notin> set ts \<Longrightarrow> ps_pool (fold (send_to f) ts ps) ! pos = ps_pool ps ! pos"
  by (induction ts arbitrary: ps) (auto simp: send_to_def set_sock_def)

lemma deliver_set_sock:
  "spares pos ps fs \<Longrightarrow> deliver fs (set_sock pos s ps)
     = (case deliver fs ps of Crash \<Rightarrow> Crash | Ret ps1 \<Rightarrow> Ret (set_sock pos s ps1))"
proof (induction fs arbitrary: ps)
  case (Cons f fs)
  have t: "targets (set_sock pos s ps) f = targets ps f" "stamp (set_sock pos s ps) f = stamp ps f"
    using same_slots_targets [of ps "set_sock pos s ps" f] by (simp_all add: same_slots_refl)
  show ?case
  proof (cases "targets ps f")
    case (Some ts)
    have "spares pos (fold (send_to (stamp ps f)) ts ps) fs"
      using Cons.prems same_slots_spares [OF same_slots_fold_send] by (simp add: spares_def)
    moreover have "pos \<notin> set ts" using Cons.prems Some by (simp add: spares_def)
    ultimately show ?thesis using Some t Cons.IH by (simp add: fold_send_to_other)
  qed (use t in simp)
qed simp

lemma deliver_frame:
  "spares pos ps fs \<Longrightarrow> deliver fs ps = Ret ps' \<Longrightarrow> same_slots ps ps' \<and> ps_pool ps' ! pos = ps_pool ps ! pos"
proof (induction fs arbitrary: ps)
  case (Cons f fs)
  then obtain ts where ts: "targets ps f = Some ts" "deliver fs (fold (send_to (stamp ps f)) ts ps) = Ret ps'"
    by (auto split: option.splits)
  have "spares pos (fold (send_to (stamp ps f)) ts ps) fs" "pos \<notin> set ts"
    using Cons.prems ts same_slots_spares [OF same_slots_fold_send] by (auto simp: spares_def)
  from Cons.IH [OF this(1) ts(2)] this(2) show ?case
    using same_slots_trans [OF same_slots_fold_send, of "stamp ps f" ts ps ps'] by (simp add: fold_send_to_pool)
qed (simp add: same_slots_refl)

lemma deliver_append:
  "deliver (fs @ gs) ps = (case deliver fs ps of Crash \<Rightarrow> Crash | Ret ps1 \<Rightarrow> deliver gs ps1)"
  by (induction fs arbitrary: ps) (auto split: option.split)

lemma set_sock_set_sock [simp]: "set_sock pos s (set_sock pos s' ps) = set_sock pos s ps"
  by (simp add: set_sock_def)

lemma pool_set_sock [simp]: "pos < length (ps_pool ps) \<Longrightarrow> ps_pool (set_sock pos s ps) ! pos = s"
  "length (ps_pool (set_sock pos s ps)) = length (ps_pool ps)"
  by (simp_all add: set_sock_def)


lemma package_verdict: "length m < 2 ^ 31 \<Longrightarrow> proxy_verdict (package h m @ ds) = V_take (4 + PROXY_HEAD_LEN + length m)"
  using length_proxy_bytes [of "[0, 0, 0, 0]" h]
  by (simp add: proxy_verdict_def package_def of_le32_le32_append)

lemma cut_package: "length m < 2 ^ 31 \<Longrightarrow> cut_frames proxy_verdict (package h m) = ([package h m], [], True)"
  using package_verdict [of m h "[]"] cut_take [of proxy_verdict "package h m" "4 + PROXY_HEAD_LEN + length m"]
    cut_wait [of proxy_verdict "[]"]
  by (simp add: package_fields proxy_verdict_def [of "[]"])


end
