(* ===== verification/ProxyManager.thy ===== *)
theory ProxyManager
  imports ProxyRouting
begin

text \<open>
  core/src/proxy_manager.h: a logic server's connections to the proxies. A package goes to the
  proxy its route selects, packages that arrive are posted to the server's message queue. The
  sockets have the fields of the proxy's own (\<open>stSvrCliSocket\<close> and \<open>stSvrSocket\<close> differ in the
  address and the position). \<open>pm_buf\<close> is \<open>_recv_send_buf\<close>; \<open>pm_count\<close> the static \<open>send_count\<close>.
\<close>

record proxy_mgr =
  pm_pool :: "svr_socket list"
  pm_count :: u32
  pm_buf :: "byte list"

abbreviation (input) "pm_upd i s pm \<equiv> pm\<lparr>pm_pool := (pm_pool pm)[i := s]\<rparr>"

definition GetProxyNum :: "proxy_mgr \<Rightarrow> nat" where
  "GetProxyNum pm = length (pm_pool pm)"

subsection \<open>One proxy\<close>

definition pm_SendBufData :: "svr_socket \<Rightarrow> bool \<times> svr_socket" where
  "pm_SendBufData s =
     (if sv_send s = [] then (True, s)
      else case sock_send (sv_send s) s of
        (None, err, s1) \<Rightarrow> (False, if err then disconn s1 else s1)
      | (Some _, _, s1) \<Rightarrow> (True, s1\<lparr>sv_send := []\<rparr>))"

definition pm_ReserveData :: "byte list \<Rightarrow> svr_socket \<Rightarrow> svr_socket" where
  "pm_ReserveData buf s =
     s\<lparr>sv_send := (if length (sv_send s) + length buf > SEND_BUF_LEN then [] else sv_send s) @ buf\<rparr>"

definition pm_SendOneData :: "byte list \<Rightarrow> svr_socket \<Rightarrow> svr_socket" where
  "pm_SendOneData buf s =
     (if sv_fd s = SOCKET_CLOSED then pm_ReserveData buf s
      else
        let (flushed, s1) = pm_SendBufData s
        in if \<not> flushed then pm_ReserveData buf s1
           else case sock_send buf s1 of
             (None, err, s2) \<Rightarrow> pm_ReserveData buf (if err then disconn s2 else s2)
           | (Some _, _, s2) \<Rightarrow> s2)"

text \<open>The \<open>do\<close> loop of \<open>recv\<close>.\<close>

partial_function (option) pm_RecvData :: "svr_socket \<Rightarrow> svr_socket option" where
  "pm_RecvData s =
     (if length (sv_recv s) = RECV_BUF_LEN then Some s
      else case net_recv (RECV_BUF_LEN - length (sv_recv s)) (sv_in s) of
        (Peer_closed, es) \<Rightarrow> Some (disconn (s\<lparr>sv_in := es\<rparr>))
      | (Recv_error, es) \<Rightarrow> Some (disconn (s\<lparr>sv_in := es\<rparr>))
      | (Recv_again, es) \<Rightarrow> Some (s\<lparr>sv_in := es\<rparr>)
      | (Seg bs, es) \<Rightarrow> pm_RecvData (s\<lparr>sv_recv := sv_recv s @ bs, sv_in := es\<rparr>))"

text \<open>The length is checked against what has arrived, not against the caller's buffer.\<close>

definition pm_GetOneData :: "svr_socket \<Rightarrow> (byte list option \<times> svr_socket) outcome" where
  "pm_GetOneData s =
     (if length (sv_recv s) \<le> 4 then Ret (None, s)
      else let len = of_le32 (sv_recv s) in
        if len > length (sv_recv s) then Ret (None, s)
        else if len > MAX_PROXY_BUF_LEN then Crash
        else Ret (Some (take len (sv_recv s)), s\<lparr>sv_recv := drop len (sv_recv s)\<rparr>))"

subsection \<open>Receiving\<close>

text \<open>The packages of one proxy, up to \<open>max_count\<close> and one more. \<open>post\<close> is \<open>PostMessage\<close> on head and message;
  the answer \<open>False\<close> stops the whole pass. The length is read from the buffer the package was
  copied to.\<close>

partial_function (option) post_loop :: "(byte list \<Rightarrow> byte list \<Rightarrow> 'f \<Rightarrow> (bool \<times> 'f) outcome) \<Rightarrow> nat \<Rightarrow> nat \<Rightarrow> byte list
    \<Rightarrow> svr_socket \<Rightarrow> 'f \<Rightarrow> (bool \<times> byte list \<times> svr_socket \<times> 'f) outcome option" where
  "post_loop post max_count cnt buf s f = (case pm_GetOneData s of
     Crash \<Rightarrow> Some Crash
   | Ret (None, s1) \<Rightarrow> Some (Ret (True, buf, s1, f))
   | Ret (Some pkg, s1) \<Rightarrow>
       (let buf1 = pkg @ drop (length pkg) buf; len = of_le32 buf1 in
        if len \<le> 4 + PROXY_HEAD_LEN then post_loop post max_count cnt buf1 s1 f
        else case post (take PROXY_HEAD_LEN (drop 4 buf1)) (take (len - 4 - PROXY_HEAD_LEN) (drop (4 + PROXY_HEAD_LEN) buf1)) f of
          Crash \<Rightarrow> Some Crash
        | Ret (ok, f1) \<Rightarrow>
            if \<not> ok then Some (Ret (False, buf1, s1, f1))
            else if cnt + 1 > max_count then Some (Ret (True, buf1, s1, f1))
            else post_loop post max_count (cnt + 1) buf1 s1 f1))"

fun recv_all :: "nat list \<Rightarrow> proxy_mgr \<Rightarrow> proxy_mgr option" where
  "recv_all [] pm = Some pm"
| "recv_all (i # is) pm = (case pm_RecvData (pm_pool pm ! i) of
     None \<Rightarrow> None | Some s \<Rightarrow> recv_all is (pm_upd i s pm))"

fun post_all :: "(byte list \<Rightarrow> byte list \<Rightarrow> 'f \<Rightarrow> (bool \<times> 'f) outcome) \<Rightarrow> nat \<Rightarrow> nat list \<Rightarrow> proxy_mgr \<Rightarrow> 'f
    \<Rightarrow> (proxy_mgr \<times> 'f) outcome option" where
  "post_all post max_count [] pm f = Some (Ret (pm, f))"
| "post_all post max_count (i # is) pm f = (case post_loop post max_count 0 (pm_buf pm) (pm_pool pm ! i) f of
     None \<Rightarrow> None
   | Some Crash \<Rightarrow> Some Crash
   | Some (Ret (go, buf, s, f1)) \<Rightarrow>
       (let pm1 = (pm_upd i s pm)\<lparr>pm_buf := buf\<rparr>
        in if go then post_all post max_count is pm1 f1 else Some (Ret (pm1, f1))))"

text \<open>\<open>ready\<close>: the sockets \<open>select\<close> reports.\<close>

definition GetProxyData :: "(byte list \<Rightarrow> byte list \<Rightarrow> 'f \<Rightarrow> (bool \<times> 'f) outcome) \<Rightarrow> nat \<Rightarrow> (nat \<Rightarrow> bool) \<Rightarrow> proxy_mgr \<Rightarrow> 'f
    \<Rightarrow> (proxy_mgr \<times> 'f) outcome option" where
  "GetProxyData post msg_shm_size ready pm f =
     (case recv_all (filter (\<lambda>i. sv_fd (pm_pool pm ! i) \<noteq> SOCKET_CLOSED \<and> ready i) [0..<GetProxyNum pm]) pm of
        None \<Rightarrow> None
      | Some pm1 \<Rightarrow> post_all post (msg_shm_size div GetProxyNum pm div 4) [0..<GetProxyNum pm] pm1 f)"

subsection \<open>Sending\<close>

text \<open>Without a given proxy a hashed package goes by its key and any other in turn.\<close>

definition choose_proxy :: "proxy_head \<Rightarrow> u32 option \<Rightarrow> proxy_mgr \<Rightarrow> int \<times> proxy_mgr" where
  "choose_proxy head des pm = (case des of
     Some d \<Rightarrow> (sint d, pm)
   | None \<Rightarrow>
       if px_route_type head = Route_hash then (int (unat (px_hash_key head) mod GetProxyNum pm), pm)
       else (int (unat (pm_count pm) mod GetProxyNum pm), pm\<lparr>pm_count := pm_count pm + 1\<rparr>))"

definition SendProxyData :: "byte list \<Rightarrow> proxy_head \<Rightarrow> byte list \<Rightarrow> u32 option \<Rightarrow> proxy_mgr \<Rightarrow> (bool \<times> proxy_mgr) outcome" where
  "SendProxyData pad head buf des pm =
     (let (d, pm1) = choose_proxy head des pm in
      if 0 \<le> d \<and> d < int (GetProxyNum pm1) then
        (let frame = le32 (4 + PROXY_HEAD_LEN + length buf) @ proxy_bytes pad head @ buf in
         if length frame > MAX_PROXY_BUF_LEN then Crash
         else Ret (True, (pm_upd (nat d) (pm_SendOneData frame (pm_pool pm1 ! nat d)) pm1)
                \<lparr>pm_buf := frame @ drop (length frame) (pm_buf pm1)\<rparr>))
      else Ret (False, pm1))"

definition SendProxyBuf :: "proxy_mgr \<Rightarrow> proxy_mgr" where
  "SendProxyBuf pm = pm\<lparr>pm_pool := map (\<lambda>s. if sv_fd s = SOCKET_CLOSED \<or> sv_send s = [] then s
     else snd (pm_SendBufData s)) (pm_pool pm)\<rparr>"

subsection \<open>Reconnecting\<close>

text \<open>What connecting to proxy \<open>i\<close> brings: the descriptor and the network's script, or failure; and whether
  the first send of \<open>Register\<close> that is not interrupted succeeds.\<close>

record reconnect =
  rc_fd :: "int option"
  rc_in :: "recv_event list"
  rc_out :: "send_event list"
  rc_registered :: bool

fun check_connect :: "(nat \<Rightarrow> reconnect) \<Rightarrow> nat list \<Rightarrow> proxy_mgr \<Rightarrow> proxy_mgr" where
  "check_connect rc [] pm = pm"
| "check_connect rc (i # is) pm =
     (if sv_fd (pm_pool pm ! i) \<noteq> SOCKET_CLOSED then pm
      else case rc_fd (rc i) of
        None \<Rightarrow> pm
      | Some fd \<Rightarrow>
          (let s = (pm_pool pm ! i)\<lparr>sv_fd := fd, sv_in := rc_in (rc i), sv_out := rc_out (rc i)\<rparr> in
           if \<not> rc_registered (rc i) then pm_upd i s pm
           else check_connect rc is (pm_upd i (snd (pm_SendBufData s)) pm)))"

definition CheckConnect :: "(nat \<Rightarrow> reconnect) \<Rightarrow> proxy_mgr \<Rightarrow> proxy_mgr" where
  "CheckConnect rc pm = check_connect rc [0..<GetProxyNum pm] pm"

subsection \<open>Agreement with the proxy\<close>

text \<open>The two ends buffer in the same way.\<close>

lemma pm_SendOneData_eq: "pm_SendOneData buf s = snd (SendOneData buf s)"
proof -
  have r: "pm_ReserveData = ReserveData" by (intro ext) (simp add: pm_ReserveData_def ReserveData_def)
  have b: "pm_SendBufData s = (if sv_send s \<noteq> [] then SendBufData s else (True, s))"
    by (simp add: pm_SendBufData_def SendBufData_def)
  show ?thesis
    by (simp add: pm_SendOneData_def SendOneData_def r b Let_def split: prod.split option.split)
qed

text \<open>A reconnection stops at the first proxy that is still there: with proxy \<open>0\<close> connected no other proxy
  is ever connected again.\<close>

lemma CheckConnect_stuck:
  "0 < GetProxyNum pm \<Longrightarrow> sv_fd (pm_pool pm ! 0) \<noteq> SOCKET_CLOSED \<Longrightarrow> CheckConnect rc pm = pm"
  by (simp add: CheckConnect_def upt_conv_Cons)

lemma cut_concat:
  assumes "\<forall>f\<in>set frames. f \<noteq> [] \<and> (\<forall>ds. proxy_verdict (f @ ds) = V_take (length f))"
  shows "cut_frames proxy_verdict (concat frames) = (frames, [], True)"
  using assms
proof (induction frames)
  case Nil
  then show ?case by (simp add: cut_wait proxy_verdict_def)
next
  case (Cons f frames)
  then have "proxy_verdict (concat (f # frames)) = V_take (length f)" "0 < length f" by simp_all
  from cut_take [of proxy_verdict "concat (f # frames)" "length f", OF this] Cons show ?case by simp
qed

text \<open>A package as a logic server sends it.\<close>

definition sent_package :: "byte list \<Rightarrow> proxy_head \<times> byte list \<Rightarrow> byte list" where
  "sent_package pad hm = le32 (4 + PROXY_HEAD_LEN + length (snd hm)) @ proxy_bytes pad (fst hm) @ snd hm"

lemma sent_package_verdict:
  assumes "length pad = 4" "length (snd hm) < 2 ^ 31"
  shows "sent_package pad hm \<noteq> []" "proxy_verdict (sent_package pad hm @ ds) = V_take (length (sent_package pad hm))"
proof -
  show "sent_package pad hm \<noteq> []" by (simp add: sent_package_def le32_def)
  show "proxy_verdict (sent_package pad hm @ ds) = V_take (length (sent_package pad hm))"
    using assms length_proxy_bytes [OF assms(1), of "fst hm"]
    by (simp add: proxy_verdict_def sent_package_def of_le32_le32_append)
qed

text \<open>What a logic server sends to a proxy is cut by the proxy into exactly the packages
  that were sent, in order, for any sequence of messages, refused and broken
  sends included, in a run in which they fit the buffer and the network takes each package whole or not at all. That a send
  is not short is an assumption on the run, not a promise of the system.\<close>

theorem proxy_end_to_end:
  assumes "sv_sent s = []" "sv_send s = []" "sends_whole (sv_out s)" "length pad = 4"
    and "\<forall>hm\<in>set msgs. length (snd hm) < 2 ^ 31"
    and "length (concat (map (sent_package pad) msgs)) \<le> SEND_BUF_LEN"
    and "s' = fold pm_SendOneData (map (sent_package pad) msgs) s"
  shows "cut_frames proxy_verdict (sv_sent s' @ sv_send s') = (map (sent_package pad) msgs, [], True)"
proof -
  have "fold pm_SendOneData frames t = fold sock_op (map Some frames) t" for frames t
    by (induction frames arbitrary: t) (simp_all add: sock_op_def pm_SendOneData_eq)
  then have "sv_sent s' @ sv_send s' = concat (map (sent_package pad) msgs)"
    using proxy_order [of s "map Some (map (sent_package pad) msgs)"] assms(1-3,6,7)
    by (simp add: payload_def comp_def)
  moreover have "\<forall>f\<in>set (map (sent_package pad) msgs). f \<noteq> [] \<and> (\<forall>ds. proxy_verdict (f @ ds) = V_take (length f))"
  proof
    fix f assume "f \<in> set (map (sent_package pad) msgs)"
    then obtain hm where hm: "hm \<in> set msgs" "f = sent_package pad hm" by auto
    then have "length (snd hm) < 2 ^ 31" using assms(5) by blast
    from sent_package_verdict [OF assms(4) this] hm(2)
    show "f \<noteq> [] \<and> (\<forall>ds. proxy_verdict (f @ ds) = V_take (length f))" by simp
  qed
  ultimately show ?thesis using cut_concat by simp
qed

lemma proxy_end_to_end_witness:
  "\<exists>s'. s' = fold pm_SendOneData (map (sent_package [0, 0, 0, 0]) [(toy_head 0 Route_p2p, [1]), (toy_head 1 Route_hash, [2, 3])]) flaky
     \<and> fst (cut_frames proxy_verdict (sv_sent s' @ sv_send s'))
       = map (sent_package [0, 0, 0, 0]) [(toy_head 0 Route_p2p, [1]), (toy_head 1 Route_hash, [2, 3])]"
proof -
  define s' where "s' = fold pm_SendOneData (map (sent_package [0, 0, 0, 0]) [(toy_head 0 Route_p2p, [1]), (toy_head 1 Route_hash, [2, 3])]) flaky"
  have "length (sent_package [0, 0, 0, 0] hm) = 44 + length (snd hm)" for hm
    by (simp add: sent_package_def length_proxy_bytes)
  then have "cut_frames proxy_verdict (sv_sent s' @ sv_send s')
      = (map (sent_package [0, 0, 0, 0]) [(toy_head 0 Route_p2p, [1]), (toy_head 1 Route_hash, [2, 3])], [], True)"
    by (intro proxy_end_to_end [OF _ _ _ _ _ _ s'_def]) (simp_all add: flaky_def svr_socket0_def sends_whole_def)
  then show ?thesis using s'_def by simp
qed

end
