(* ===== verification/ConnectServer.thy ===== *)
theory ConnectServer
  imports NetBytes ShmPipe Managers
begin

text \<open>
  svr/connectsvr: the server the clients connect to by TCP (connect_server.cpp). It cuts the
  clients' streams into packages \<open>4 bytes length in network order | message\<close>, puts a
  \<open>stConnectHead\<close> before each and passes it to the logic server through a shared-memory pipe;
  what the logic server answers comes back through a second pipe. The receive buffer of a
  client has room for a head before the received bytes, and the head of a package is written
  over the bytes before it: \<open>cl_mem\<close> is this memory, 48 bytes and the received ones. A socket's
  position in the pool is not a field. \<open>Crash\<close> is an access outside the pool or a pipe's buffer.
\<close>

abbreviation (input) "NONE_SOCKET \<equiv> 0 :: nat"
abbreviation (input) "RECV_ROOM \<equiv> 131072 :: nat"
abbreviation (input) "NO_INDEX \<equiv> - 1 :: u64"

record cli_socket =
  cl_fd :: int
  cl_type :: nat
  cl_logic_index :: u64
  cl_mem :: "byte list"
  cl_create_time :: u64
  cl_update_time :: u32
  cl_port :: u32
  cl_addr :: string
  cl_in :: "recv_event list"
  cl_out :: "send_event list"
  cl_sent :: "byte list"

record conn_conf =
  cc_max_client_num :: nat
  cc_heart_beat_check :: bool
  cc_max_send_client_num :: nat
  cc_max_send_client_retry :: nat

record conn_svr =
  cv_conf :: conn_conf
  cv_pool :: "cli_socket list"
  cv_free :: "nat list"
  cv_cs_pipe :: shm_pipe
  cv_sc_pipe :: shm_pipe
  cv_heart :: u32

definition cli_socket0 :: "byte list \<Rightarrow> cli_socket" where
  "cli_socket0 mem = \<lparr>cl_fd = 0, cl_type = NONE_SOCKET, cl_logic_index = 0, cl_mem = take 48 mem, cl_create_time = 0,
     cl_update_time = 0, cl_port = 0, cl_addr = [], cl_in = [], cl_out = [], cl_sent = []\<rparr>"

definition set_cli :: "nat \<Rightarrow> cli_socket \<Rightarrow> conn_svr \<Rightarrow> conn_svr" where
  "set_cli pos s cv = cv\<lparr>cv_pool := (cv_pool cv)[pos := s]\<rparr>"

subsection \<open>The socket pool\<close>

definition cs_SocketPoolInit :: "conn_svr \<Rightarrow> conn_svr option" where
  "cs_SocketPoolInit cv =
     (let n = cc_max_client_num (cv_conf cv)
      in if n > 65535 then None
         else Some (cv\<lparr>cv_pool := replicate n (cli_socket0 (replicate 48 0)), cv_free := [0..<n]\<rparr>))"

definition cs_SocketCreate :: "conn_svr \<Rightarrow> nat option \<times> conn_svr" where
  "cs_SocketCreate cv = (case cv_free cv of [] \<Rightarrow> (None, cv) | pos # rest \<Rightarrow> (Some pos, cv\<lparr>cv_free := rest\<rparr>))"

text \<open>The notification overwrites the type in the head of the last package and the first eight bytes of
  the receive buffer; the result is the memory and the pipe.\<close>

definition NotifyLogicDiscon :: "cli_socket \<Rightarrow> shm_pipe \<Rightarrow> (byte list \<times> shm_pipe) option" where
  "NotifyLogicDiscon s p =
     (if cl_logic_index s \<noteq> NO_INDEX then
        (let mem = wr 48 (w64 (cl_logic_index s)) (wr 36 (w32 3) (cl_mem s))
         in case AppendOneData (take 56 mem) p of
              None \<Rightarrow> None
            | Some (_, p1) \<Rightarrow> Some (mem, p1))
      else Some (cl_mem s, p))"

definition cs_SocketRelease :: "nat \<Rightarrow> bool \<Rightarrow> conn_svr \<Rightarrow> conn_svr outcome" where
  "cs_SocketRelease pos need_notify_logic cv =
     (case (if need_notify_logic then NotifyLogicDiscon (cv_pool cv ! pos) (cv_cs_pipe cv)
            else Some (cl_mem (cv_pool cv ! pos), cv_cs_pipe cv)) of
        None \<Rightarrow> Crash
      | Some (mem, p) \<Rightarrow>
          Ret ((set_cli pos (cli_socket0 mem) cv)\<lparr>cv_cs_pipe := p, cv_free := cv_free cv @ [pos]\<rparr>))"

text \<open>What \<open>accept\<close> and \<open>fcntl\<close>, \<open>epoll_ctl\<close> answer.\<close>

record cli_accept =
  ca_fd :: "int option"
  ca_port :: u32
  ca_addr :: string
  ca_nonblock :: bool
  ca_epoll :: bool
  ca_in :: "recv_event list"
  ca_out :: "send_event list"

definition cs_AcceptConnect :: "u64 \<Rightarrow> cli_accept \<Rightarrow> conn_svr \<Rightarrow> conn_svr outcome" where
  "cs_AcceptConnect now a cv = (case ca_fd a of
     None \<Rightarrow> Ret cv
   | Some cli_fd \<Rightarrow>
       (case cs_SocketCreate cv of
          (None, cv1) \<Rightarrow> Ret cv1
        | (Some pos, cv1) \<Rightarrow>
            let s = cv_pool cv1 ! pos;
                cv2 = set_cli pos (s\<lparr>cl_fd := cli_fd, cl_type := 2, cl_create_time := now,
                        cl_logic_index := NO_INDEX, cl_mem := take 48 (cl_mem s), cl_port := ca_port a, cl_addr := ca_addr a,
                        cl_in := ca_in a, cl_out := ca_out a, cl_sent := []\<rparr>) cv1
            in if \<not> ca_nonblock a then cs_SocketRelease pos True cv2
               else if \<not> ca_epoll a then cs_SocketRelease pos True cv2
               else Ret cv2))"

subsection \<open>Receiving from a client\<close>

text \<open>The head of the package that starts at \<open>k\<close>; \<open>_need_close\<close> and the padding keep what was there.\<close>

definition addr_bytes :: "string \<Rightarrow> byte list" where
  "addr_bytes a = map of_char a @ [0]"

definition put_head :: "nat \<Rightarrow> nat \<Rightarrow> cli_socket \<Rightarrow> byte list \<Rightarrow> byte list" where
  "put_head pos k s mem =
     wr (k + 16) (addr_bytes (cl_addr s)) (wr (k + 40) (w32 1) (wr (k + 36) (w32 1) (wr (k + 12) (w32 (cl_port s))
       (wr k (w64 (cl_create_time s)) (wr (k + 8) (w32 (of_nat pos)) mem)))))"

text \<open>The loop over complete packages: \<open>left\<close> bytes are left behind the \<open>k\<close> taken.\<close>

datatype parsed = P_crash | P_invalid "byte list" shm_pipe | P_done nat nat "byte list" shm_pipe

function recv_parse :: "nat \<Rightarrow> cli_socket \<Rightarrow> nat \<Rightarrow> nat \<Rightarrow> byte list \<Rightarrow> shm_pipe \<Rightarrow> parsed" where
  "recv_parse pos s left k mem p =
     (if left \<ge> 4 then
        (let len = of_be32 (drop (48 + k) mem) in
         if len > MAX_CS_PKG_BUF_LEN \<or> len < 4 then P_invalid mem p
         else if len > left then P_done left k mem p
         else
           let mem1 = put_head pos k s mem in
           case AppendOneData (take (len + 48) (drop k mem1)) p of
             None \<Rightarrow> P_crash
           | Some (ok, p1) \<Rightarrow>
               if \<not> ok then P_done left k mem1 p1 else recv_parse pos s (left - len) (k + len) mem1 p1)
      else P_done left k mem p)"
  by pat_completeness auto
termination by (relation "measure (\<lambda>(pos, s, left, k, mem, p). left)") auto

declare recv_parse.simps [simp del]

text \<open>\<open>RecvClientData\<close> on the socket and the pipe: the socket, whether it is to be released, the pipe.
  The outer \<open>None\<close> is a loop that does not end.\<close>

partial_function (option) recv_client :: "nat \<Rightarrow> cli_socket \<Rightarrow> shm_pipe \<Rightarrow> (bool \<times> cli_socket \<times> shm_pipe) outcome option" where
  "recv_client pos s p =
     (if length (cl_mem s) - 48 = RECV_ROOM then Some (Ret (False, s, p))
      else case net_recv (RECV_ROOM - (length (cl_mem s) - 48)) (cl_in s) of
        (Peer_closed, es) \<Rightarrow> Some (Ret (True, s\<lparr>cl_in := es\<rparr>, p))
      | (Recv_error, es) \<Rightarrow> Some (Ret (True, s\<lparr>cl_in := es\<rparr>, p))
      | (Recv_again, es) \<Rightarrow> Some (Ret (False, s\<lparr>cl_in := es\<rparr>, p))
      | (Seg bs, es) \<Rightarrow>
          (case recv_parse pos s (length (cl_mem s @ bs) - 48) 0 (cl_mem s @ bs) p of
             P_crash \<Rightarrow> Some Crash
           | P_invalid mem p1 \<Rightarrow> Some (Ret (True, s\<lparr>cl_mem := mem, cl_in := es\<rparr>, p1))
           | P_done left k mem p1 \<Rightarrow>
               recv_client pos (s\<lparr>cl_mem := take 48 mem @ take left (drop (48 + k) mem), cl_in := es\<rparr>) p1))"

definition RecvClientData :: "nat \<Rightarrow> conn_svr \<Rightarrow> conn_svr outcome option" where
  "RecvClientData pos cv = (case recv_client pos (cv_pool cv ! pos) (cv_cs_pipe cv) of
     None \<Rightarrow> None
   | Some Crash \<Rightarrow> Some Crash
   | Some (Ret (release, s, p)) \<Rightarrow>
       (let cv1 = (set_cli pos s cv)\<lparr>cv_cs_pipe := p\<rparr>
        in Some (if release then cs_SocketRelease pos True cv1 else Ret cv1)))"

subsection \<open>Sending to the clients\<close>

datatype sent = S_lost cli_socket | S_failed cli_socket | S_sent cli_socket

fun send_retry :: "nat \<Rightarrow> byte list \<Rightarrow> cli_socket \<Rightarrow> sent" where
  "send_retry 0 bs s = S_lost s"
| "send_retry (Suc n) bs s = (case net_send bs (cl_out s) of
     (Some x, _, es) \<Rightarrow> S_sent (s\<lparr>cl_out := es, cl_sent := cl_sent s @ x\<rparr>)
   | (None, True, es) \<Rightarrow> S_failed (s\<lparr>cl_out := es\<rparr>)
   | (None, False, es) \<Rightarrow> send_retry n bs (s\<lparr>cl_out := es\<rparr>))"

text \<open>One message of the logic server; the result says whether the loop goes on. A message shorter than
  its head does not occur and is \<open>Crash\<close>.\<close>

definition send_one :: "u64 \<Rightarrow> byte list \<Rightarrow> conn_svr \<Rightarrow> (bool \<times> conn_svr) outcome" where
  "send_one now msg cv =
     (let pos = unat (rd32 8 msg) mod 65536 in
      if length msg < 48 \<or> pos \<ge> length (cv_pool cv) then Crash
      else if rd64 0 msg \<noteq> cl_create_time (cv_pool cv ! pos) then Ret (False, cv)
      else
        let s = (cv_pool cv ! pos)\<lparr>cl_update_time := GetTime now\<rparr> in
        if rd32 36 msg = 2 then
          Ret (False, set_cli pos (if length msg - 48 = 8 then s\<lparr>cl_logic_index := rd64 48 msg\<rparr> else s) cv)
        else
          case send_retry (cc_max_send_client_retry (cv_conf cv)) (drop 48 msg) s of
            S_lost s1 \<Rightarrow> Ret (True, set_cli pos s1 cv)
          | S_failed s1 \<Rightarrow>
              (case cs_SocketRelease pos True (set_cli pos s1 cv) of Crash \<Rightarrow> Crash | Ret cv1 \<Rightarrow> Ret (False, cv1))
          | S_sent s1 \<Rightarrow>
              if msg ! 32 \<noteq> 0 then
                (case cs_SocketRelease pos False (set_cli pos s1 cv) of Crash \<Rightarrow> Crash | Ret cv1 \<Rightarrow> Ret (False, cv1))
              else Ret (False, set_cli pos s1 cv))"

fun send_loop :: "nat \<Rightarrow> u64 \<Rightarrow> conn_svr \<Rightarrow> conn_svr outcome" where
  "send_loop 0 now cv = Ret cv"
| "send_loop (Suc i) now cv = (case GetOneData MAX_CONNECT_BUF_LEN (cv_sc_pipe cv) of
     None \<Rightarrow> Crash
   | Some (None, p) \<Rightarrow> Ret (cv\<lparr>cv_sc_pipe := p\<rparr>)
   | Some (Some msg, p) \<Rightarrow>
       (case send_one now msg (cv\<lparr>cv_sc_pipe := p\<rparr>) of
          Crash \<Rightarrow> Crash
        | Ret (True, cv1) \<Rightarrow> send_loop i now cv1
        | Ret (False, cv1) \<Rightarrow> Ret cv1))"

definition SendClientData :: "u64 \<Rightarrow> conn_svr \<Rightarrow> conn_svr outcome" where
  "SendClientData now cv = send_loop (cc_max_send_client_num (cv_conf cv)) now cv"

subsection \<open>The heart beat check\<close>

definition idle_action :: "u32 \<Rightarrow> cli_socket \<Rightarrow> bool option" where
  "idle_action now s =
     (if cl_type s \<noteq> 2 then None
      else if cl_logic_index s = NO_INDEX then
        (if unat (cl_create_time s) div 1000 + 6 \<le> unat now then Some False else None)
      else if cl_update_time s + 600 \<le> now then Some True else None)"

fun check_idle :: "u32 \<Rightarrow> nat list \<Rightarrow> conn_svr \<Rightarrow> conn_svr outcome" where
  "check_idle now [] cv = Ret cv"
| "check_idle now (pos # ps) cv = (case idle_action now (cv_pool cv ! pos) of
     None \<Rightarrow> check_idle now ps cv
   | Some notify \<Rightarrow>
       (case cs_SocketRelease pos notify cv of Crash \<Rightarrow> Crash | Ret cv1 \<Rightarrow> check_idle now ps cv1))"

definition cs_OnRoutineCheck :: "u64 \<Rightarrow> conn_svr \<Rightarrow> conn_svr outcome" where
  "cs_OnRoutineCheck now cv =
     (if cc_heart_beat_check (cv_conf cv) \<and> cv_heart cv + 6 \<le> GetTime now
      then check_idle (GetTime now) [0..<cc_max_client_num (cv_conf cv)] (cv\<lparr>cv_heart := GetTime now\<rparr>)
      else Ret cv)"

text \<open>\<open>InitNetwork\<close> without the system calls: the first slot is the listening socket's.\<close>

definition cs_InitNetwork :: "conn_svr \<Rightarrow> conn_svr outcome option" where
  "cs_InitNetwork cv = (case cs_SocketPoolInit cv of
     None \<Rightarrow> None
   | Some cv1 \<Rightarrow>
       (case cs_SocketCreate cv1 of
          (None, _) \<Rightarrow> Some Crash
        | (Some pos, cv2) \<Rightarrow> Some (Ret (set_cli pos ((cv_pool cv2 ! pos)\<lparr>cl_type := 1\<rparr>) cv2))))"

text \<open>One event of the poll set.\<close>

definition cs_DealNetwork_one :: "u64 \<Rightarrow> cli_accept \<Rightarrow> nat \<Rightarrow> conn_svr \<Rightarrow> conn_svr outcome option" where
  "cs_DealNetwork_one now a pos cv =
     (if cl_type (cv_pool cv ! pos) = 1 then Some (cs_AcceptConnect now a cv) else RecvClientData pos cv)"

subsection \<open>The stream of a client\<close>

definition client_verdict :: "byte list \<Rightarrow> verdict" where
  "client_verdict bs = (if length bs < 4 then V_wait
     else if of_be32 bs > MAX_CS_PKG_BUF_LEN \<or> of_be32 bs < 4 then V_bad
     else if of_be32 bs > length bs then V_wait else V_take (of_be32 bs))"

interpretation csf: framing client_verdict
  by unfold_locales (auto simp: client_verdict_def of_be32_append split: if_splits)

lemma client_wait_short: "client_verdict bs = V_wait \<Longrightarrow> length bs < MAX_CS_PKG_BUF_LEN"
  by (auto simp: client_verdict_def split: if_splits)

text \<open>A message of the pipe that carries a package of the client.\<close>

definition carries :: "nat \<Rightarrow> cli_socket \<Rightarrow> byte list \<Rightarrow> byte list \<Rightarrow> bool" where
  "carries pos s f msg \<longleftrightarrow> length msg = 48 + length f \<and> drop 48 msg = f \<and> rd64 0 msg = cl_create_time s
     \<and> rd32 8 msg = of_nat pos \<and> rd32 12 msg = cl_port s \<and> rd32 36 msg = 1 \<and> rd32 40 msg = 1"

lemma put_head_shift: "length xs = k \<Longrightarrow> put_head pos k s (xs @ ys) = xs @ put_head pos 0 s ys"
  using wr_shift [of xs 0] by (auto simp: put_head_def wr_shift)

lemma length_addr_bytes [simp]: "length (addr_bytes a) = length a + 1"
  by (simp add: addr_bytes_def)

lemma put_head_within:
  "48 \<le> length h \<Longrightarrow> length (cl_addr s) \<le> 15 \<Longrightarrow> put_head pos 0 s (h @ ys) = put_head pos 0 s h @ ys"
  by (simp add: put_head_def wr_within)

lemma length_put_head: "48 \<le> length h \<Longrightarrow> length (cl_addr s) \<le> 15 \<Longrightarrow> length (put_head pos 0 s h) = length h"
  by (simp add: put_head_def)

lemma put_head_carries:
  assumes "length h = 48" "length (cl_addr s) \<le> 15"
  shows "carries pos s f (put_head pos 0 s h @ f)"
proof -
  have l: "length (put_head pos 0 s h) = 48" using assms by (simp add: length_put_head)
  have app: "rd32 off (put_head pos 0 s h @ f) = rd32 off (put_head pos 0 s h)" if "off + 4 \<le> 48" for off
    using that l by (auto intro!: rd32_nth_cong simp: nth_append)
  have app64: "rd64 off (put_head pos 0 s h @ f) = rd64 off (put_head pos 0 s h)" if "off + 8 \<le> 48" for off
    using that l by (auto intro!: rd64_nth_cong simp: nth_append)
  have "rd64 0 (put_head pos 0 s h) = cl_create_time s" "rd32 8 (put_head pos 0 s h) = of_nat pos"
    "rd32 12 (put_head pos 0 s h) = cl_port s" "rd32 36 (put_head pos 0 s h) = 1" "rd32 40 (put_head pos 0 s h) = 1"
    using assms by (simp_all add: put_head_def rd_wr_other rd_wr_other64 rd_wr_same)
  with app app64 l show ?thesis by (simp add: carries_def)
qed

text \<open>Room in the pipe, and what an accepted message takes of it.\<close>

lemma pipe_put:
  assumes "pipe_rep p q" "used p + 4 + length m < sp_size p"
  shows "\<exists>p'. AppendOneData m p = Some (True, p') \<and> pipe_rep p' (q @ [m]) \<and> sp_size p' = sp_size p
     \<and> used p' = used p + 4 + length m"
proof -
  have inv: "pipe_inv p" and c: "content p = concat (map frame q)" using assms(1) by (simp_all add: pipe_rep_def)
  have fits: "fits_pipe m p" using assms(2) by (simp add: fits_pipe_def)
  obtain p' where p': "AppendOneData m p = Some (True, p')" "pipe_rep p' (q @ [m])"
    using shm.put_accept [OF assms(1) fits] by blast
  moreover have "sp_size p' = sp_size p"
    using AppendOneData_accept [OF inv, of m] fits p'(1) by (auto simp: fits_pipe_def)
  moreover have "content p' = content p @ frame m" using p'(2) c by (simp add: pipe_rep_def)
  from arg_cong [OF this, of length] have "used p' = used p + 4 + length m" by simp
  ultimately show ?thesis by blast
qed

definition room_for :: "byte list list \<Rightarrow> nat" where
  "room_for fs = sum_list (map (\<lambda>f. 52 + length f) fs)"

lemma recv_parse_cut:
  assumes "length (cl_addr s) \<le> 15"
  shows "cut_frames client_verdict bs = (fs, rest, ok) \<Longrightarrow> length pre = 48 + k \<Longrightarrow> pipe_rep p q
     \<Longrightarrow> used p + room_for fs < sp_size p
     \<Longrightarrow> \<exists>pre' p' msgs. recv_parse pos s (length bs) k (pre @ bs) p =
           (if ok then P_done (length rest) (k + (length bs - length rest)) (pre' @ rest) p' else P_invalid (pre' @ rest) p')
         \<and> length pre' = 48 + k + (length bs - length rest) \<and> pipe_rep p' (q @ msgs) \<and> list_all2 (carries pos s) fs msgs
         \<and> sp_size p' = sp_size p \<and> used p' = used p + room_for fs"
proof (induction fs arbitrary: bs pre k p q)
  case Nil
  then have rb: "rest = bs" using cut_parts [OF Nil(1)] by simp
  have "client_verdict bs = (if ok then V_wait else V_bad)"
  proof (cases "client_verdict bs")
    case (V_take n)
    then show ?thesis using Nil(1) csf.take_ok [OF V_take] by (simp add: cut_take)
  qed (use Nil(1) in \<open>auto simp: cut_bad cut_wait\<close>)
  then have "recv_parse pos s (length bs) k (pre @ bs) p = (if ok then P_done (length bs) k (pre @ bs) p else P_invalid (pre @ bs) p)"
    using Nil(2) by (subst recv_parse.simps) (auto simp: client_verdict_def Let_def split: if_splits)
  then show ?case using Nil rb by (intro exI [of _ pre] exI [of _ p] exI [of _ "[]"]) (simp add: room_for_def)
next
  case (Cons f fs)
  obtain n where v: "client_verdict bs = V_take n"
    using Cons.prems(1) by (cases "client_verdict bs") (auto simp: cut_wait cut_bad)
  then have n: "0 < n" "n \<le> length bs" "4 \<le> length bs" "n = of_be32 bs" "n \<le> MAX_CS_PKG_BUF_LEN" "4 \<le> n"
    using csf.take_ok [OF v] by (auto simp: client_verdict_def split: if_splits)
  obtain fs1 r1 ok1 where c: "cut_frames client_verdict (drop n bs) = (fs1, r1, ok1)" by (rule prod_cases3)
  with Cons.prems(1) cut_take [of client_verdict bs n, OF v n(1,2)]
  have f: "f = take n bs" "fs1 = fs" "r1 = rest" "ok1 = ok" by simp_all
  have fn: "length f = n" using f n by simp
  have rl: "length rest \<le> length bs - n" using cut_parts [OF c] f(3) by (metis length_append length_drop le_add2)
  define h where "h = put_head pos 0 s (drop k pre)"
  have hl: "length (drop k pre) = 48" using Cons.prems(2) by simp
  have lh: "length h = 48" using hl assms by (simp add: h_def length_put_head)
  have mem1: "put_head pos k s (pre @ bs) = take k pre @ h @ bs"
    using put_head_shift [of "take k pre" k pos s "drop k pre @ bs"] Cons.prems(2) put_head_within [of "drop k pre" s pos bs] hl assms
    by (simp add: h_def flip: append_assoc)
  have msg: "take (n + 48) (drop k (take k pre @ h @ bs)) = h @ f" using Cons.prems(2) lh f(1) by simp
  have rm: "used p + 4 + length (h @ f) < sp_size p" "used p + 52 + length f + room_for fs < sp_size p"
    using Cons.prems(4) lh by (simp_all add: room_for_def)
  from pipe_put [OF Cons.prems(3) rm(1)] obtain p1 where p1: "AppendOneData (h @ f) p = Some (True, p1)"
    "pipe_rep p1 (q @ [h @ f])" "sp_size p1 = sp_size p" "used p1 = used p + 4 + length (h @ f)" by blast
  have bs: "bs = f @ drop n bs" using f(1) by simp
  have step: "recv_parse pos s (length bs) k (pre @ bs) p
      = recv_parse pos s (length (drop n bs)) (k + n) ((take k pre @ h @ f) @ drop n bs) p1"
    using n Cons.prems(2) mem1 msg p1(1) bs
    by (subst recv_parse.simps) (simp add: Let_def)
  have "length (take k pre @ h @ f) = 48 + (k + n)" using Cons.prems(2) lh fn by simp
  moreover have "used p1 + room_for fs < sp_size p1" using rm(2) p1 lh by simp
  ultimately obtain pre' p' msgs where IH:
    "recv_parse pos s (length (drop n bs)) (k + n) ((take k pre @ h @ f) @ drop n bs) p1 =
      (if ok then P_done (length rest) (k + n + (length (drop n bs) - length rest)) (pre' @ rest) p' else P_invalid (pre' @ rest) p')"
    "length pre' = 48 + (k + n) + (length (drop n bs) - length rest)" "pipe_rep p' ((q @ [h @ f]) @ msgs)"
    "list_all2 (carries pos s) fs msgs" "sp_size p' = sp_size p1" "used p' = used p1 + room_for fs"
    using Cons.IH [OF c [unfolded f(2-4)], of "take k pre @ h @ f" "k + n" p1 "q @ [h @ f]"] p1(2) by blast
  have "k + n + (length (drop n bs) - length rest) = k + (length bs - length rest)" using rl n by simp
  with IH step show ?case
    using put_head_carries [OF hl assms, of pos f] p1 lh
    by (intro exI [of _ pre'] exI [of _ p'] exI [of _ "(h @ f) # msgs"]) (auto simp: h_def room_for_def)
qed

lemma carries_cong: "cl_create_time s' = cl_create_time s \<Longrightarrow> cl_port s' = cl_port s \<Longrightarrow> carries pos s' = carries pos s"
  by (intro ext) (simp add: carries_def)

text \<open>The receiving loop over the segments, by induction on the bytes still to come.\<close>

lemma recv_client_stream:
  assumes "pipe_rep p q" "length (cl_mem s) = 48 + length buf" "drop 48 (cl_mem s) = buf"
    and "client_verdict buf = V_wait" "cl_in s = map Seg segs" "[] \<notin> set segs" "length (cl_addr s) \<le> 15"
    and "cut_frames client_verdict (buf @ concat segs) = (fs, rest, ok)"
    and "used p + room_for fs < sp_size p"
  shows "\<exists>s' p' msgs. recv_client pos s p = Some (Ret (\<not> ok, s', p')) \<and> pipe_rep p' (q @ msgs)
    \<and> list_all2 (carries pos s) fs msgs \<and> (ok \<longrightarrow> drop 48 (cl_mem s') = rest)"
  using assms
proof (induction "length (concat segs)" arbitrary: segs s buf p q fs rule: less_induct)
  case less
  note pr = less.prems
  have off: "length (cl_mem s) - 48 = length buf" using pr(2) by simp
  have short: "length buf < MAX_CS_PKG_BUF_LEN" using client_wait_short [OF pr(4)] .
  show ?case
  proof (cases "segs = []")
    case True
    then have "fs = []" "rest = buf" "ok" using pr(4,8) by (simp_all add: cut_wait)
    moreover have "recv_client pos s p = Some (Ret (False, s, p))"
      using True pr(5) short by (subst recv_client.simps) (simp add: off)
    ultimately show ?thesis using pr(1,3) by (intro exI [of _ s] exI [of _ p] exI [of _ "[]"]) simp
  next
    case False
    obtain bs segs' where rv: "net_recv (RECV_ROOM - length buf) (map Seg segs) = (Seg bs, map Seg segs')"
      "[] \<notin> set segs'" "bs \<noteq> []" "concat segs = bs @ concat segs'"
      using net_recv_segs [OF pr(6) False, of "RECV_ROOM - length buf"] short by auto
    obtain fs1 r1 ok1 where c1: "cut_frames client_verdict (buf @ bs) = (fs1, r1, ok1)" by (rule prod_cases3)
    obtain fs2 where c2: "fs = fs1 @ fs2" "ok1 \<Longrightarrow> cut_frames client_verdict (r1 @ concat segs') = (fs2, rest, ok)"
      "\<not> ok1 \<Longrightarrow> fs2 = [] \<and> \<not> ok"
    proof (cases ok1)
      case True
      with c1 csf.cut_append [of "buf @ bs" fs1 r1 "concat segs'"] pr(8) rv(4) that
      show ?thesis by (cases "cut_frames client_verdict (r1 @ concat segs')") auto
    next
      case False
      with c1 csf.cut_bad_append [of "buf @ bs" fs1 r1 "concat segs'"] pr(8) rv(4) that show ?thesis by auto
    qed
    have room: "used p + room_for fs1 < sp_size p" "used p + room_for fs1 + room_for fs2 < sp_size p"
      using pr(9) c2(1) by (simp_all add: room_for_def)
    have pre: "length (take 48 (cl_mem s)) = 48 + 0" "cl_mem s @ bs = take 48 (cl_mem s) @ (buf @ bs)"
      using pr(2,3) append_take_drop_id [of 48 "cl_mem s"] by (simp, metis append_assoc)
    let ?n = "length (buf @ bs)"
    obtain pre' p1 msgs1 where ps: "recv_parse pos s ?n 0 (take 48 (cl_mem s) @ (buf @ bs)) p =
        (if ok1 then P_done (length r1) (0 + (?n - length r1)) (pre' @ r1) p1 else P_invalid (pre' @ r1) p1)"
      "length pre' = 48 + 0 + (?n - length r1)" "pipe_rep p1 (q @ msgs1)" "list_all2 (carries pos s) fs1 msgs1"
      "sp_size p1 = sp_size p" "used p1 = used p + room_for fs1"
      using recv_parse_cut [OF pr(7) c1 pre(1) pr(1) room(1), of pos] by blast
    have len: "length (cl_mem s @ bs) - 48 = ?n" using pr(2) by simp
    have step: "recv_client pos s p = (case recv_parse pos s ?n 0 (take 48 (cl_mem s) @ (buf @ bs)) p of
             P_crash \<Rightarrow> Some Crash
           | P_invalid mem p1 \<Rightarrow> Some (Ret (True, s\<lparr>cl_mem := mem, cl_in := map Seg segs'\<rparr>, p1))
           | P_done left k mem p1 \<Rightarrow>
               recv_client pos (s\<lparr>cl_mem := take 48 mem @ take left (drop (48 + k) mem), cl_in := map Seg segs'\<rparr>) p1)"
      using short rv(1) unfolding pre(2) [symmetric] len [symmetric]
      by (subst recv_client.simps) (simp add: pr(5) pr(2))
    show ?thesis
    proof (cases ok1)
      case False
      then show ?thesis unfolding step ps(1) using ps(3,4) c2(1,3) by auto
    next
      case True
      let ?s = "s\<lparr>cl_mem := take 48 (pre' @ r1) @ r1, cl_in := map Seg segs'\<rparr>"
      have st: "recv_client pos s p = recv_client pos ?s p1"
        unfolding step ps(1) using True ps(2) by simp
      have "length (concat segs') < length (concat segs)" using rv(3,4) by simp
      moreover have "48 \<le> length pre'" using ps(2) by simp
      ultimately have "\<exists>s' p' msgs. recv_client pos ?s p1 = Some (Ret (\<not> ok, s', p')) \<and> pipe_rep p' ((q @ msgs1) @ msgs)
          \<and> list_all2 (carries pos ?s) fs2 msgs \<and> (ok \<longrightarrow> drop 48 (cl_mem s') = rest)"
        using ps(3,5,6) csf.cut_rest [of "buf @ bs" fs1 r1] c1 True rv(2) pr(7) c2(2) room(2)
        by (intro less.hyps [of segs' p1 "q @ msgs1" ?s r1 fs2]) simp_all
      then obtain s' p' msgs where "recv_client pos ?s p1 = Some (Ret (\<not> ok, s', p'))"
        "pipe_rep p' ((q @ msgs1) @ msgs)" "list_all2 (carries pos ?s) fs2 msgs" "ok \<longrightarrow> drop 48 (cl_mem s') = rest"
        by blast
      moreover have "carries pos ?s = carries pos s" by (rule carries_cong) simp_all
      ultimately show ?thesis using st ps(4) c2(1)
        by (intro exI [of _ s'] exI [of _ p'] exI [of _ "msgs1 @ msgs"]) (simp add: list_all2_appendI)
    qed
  qed
qed

text \<open>Property C6. As long as the pipe has room for all packages with their heads (and the client's address is a text
  of at most 15 characters): what a client sends reaches the logic server's pipe package by package, in order, each
  behind a head with the client's position, time stamp and port, however the network cuts
  the stream and however little of it fits the receive buffer at a time; an incomplete
  package waits for the rest, and the first invalid length ends the connection after the
  packages before it have been passed on. A pipe without room can block the client for good
  (\<open>full_buffer_wedged\<close>).\<close>

theorem client_stream:
  assumes "pipe_rep p q" "length (cl_mem s) = 48 + length buf" "drop 48 (cl_mem s) = buf"
    and "client_verdict buf = V_wait" "cl_in s = map Seg segs" "[] \<notin> set segs" "length (cl_addr s) \<le> 15"
    and "cut_frames client_verdict (buf @ concat segs) = (fs, rest, ok)"
    and "used p + room_for fs < sp_size p"
  shows "\<exists>s' p' msgs. recv_client pos s p = Some (Ret (\<not> ok, s', p')) \<and> pipe_rep p' (q @ msgs)
    \<and> list_all2 (carries pos s) fs msgs \<and> (ok \<longrightarrow> drop 48 (cl_mem s') = rest)"
  by (rule recv_client_stream [OF assms])

definition wide_pipe :: shm_pipe where
  "wide_pipe = ShmPipe_ctor False \<lparr>sp_begin = 0, sp_end = 0, sp_size = 0, sp_buf = replicate 500 0\<rparr>"

lemma wide_pipe: "pipe_rep wide_pipe []" "sp_size wide_pipe = 500" "used wide_pipe = 0"
proof -
  show "pipe_rep wide_pipe []" using Initialize_rep by (simp add: wide_pipe_def ShmPipe_ctor_def)
  show "sp_size wide_pipe = 500" "used wide_pipe = 0"
    by (simp_all add: wide_pipe_def ShmPipe_ctor_def Initialize_def wrap32_def used_def)
qed

definition a_client :: cli_socket where
  "a_client = (cli_socket0 (replicate 48 0))\<lparr>cl_fd := 8, cl_type := 2, cl_logic_index := NO_INDEX, cl_create_time := 5,
     cl_in := [Seg [0, 0], Seg [0, 6, 7, 8, 0, 0, 0], Seg [5, 9, 0]]\<rparr>"

lemma a_client_cut:
  "cut_frames client_verdict [0, 0, 0, 6, 7, 8, 0, 0, 0, 5, 9, 0] = ([[0, 0, 0, 6, 7, 8], [0, 0, 0, 5, 9]], [0], True)"
proof -
  let ?bs = "[0, 0, 0, 6, 7, 8, 0, 0, 0, 5, 9, 0] :: byte list"
  have v: "client_verdict ?bs = V_take 6" "client_verdict [0, 0, 0, 5, 9, 0] = V_take 5" "client_verdict [0] = V_wait"
    by (simp_all add: client_verdict_def of_be32_def of_le32_def)
  show ?thesis
    using cut_take [of client_verdict ?bs 6, OF v(1)] cut_take [of client_verdict "[0, 0, 0, 5, 9, 0]" 5, OF v(2)] cut_wait [of client_verdict "[0]", OF v(3)]
    by simp
qed

lemma client_stream_witness:
  "\<exists>s' p' m1 m2. recv_client 3 a_client wide_pipe = Some (Ret (False, s', p')) \<and> pipe_rep p' [m1, m2]
     \<and> drop 48 m1 = [0, 0, 0, 6, 7, 8] \<and> drop 48 m2 = [0, 0, 0, 5, 9] \<and> rd32 8 m2 = 3 \<and> drop 48 (cl_mem s') = [0]"
proof -
  have "\<exists>s' p' msgs. recv_client 3 a_client wide_pipe = Some (Ret (\<not> True, s', p')) \<and> pipe_rep p' ([] @ msgs)
    \<and> list_all2 (carries 3 a_client) [[0, 0, 0, 6, 7, 8], [0, 0, 0, 5, 9]] msgs \<and> (True \<longrightarrow> drop 48 (cl_mem s') = [0])"
    by (rule client_stream [where buf = "[]" and segs = "[[0, 0], [0, 6, 7, 8, 0, 0, 0], [5, 9, 0]]"])
       (simp_all add: wide_pipe a_client_def cli_socket0_def a_client_cut client_verdict_def room_for_def)
  then show ?thesis by (auto simp: list_all2_Cons1 carries_def)
qed

text \<open>A connection is lost to a full pipe: when the receive buffer is full nothing is received and
  nothing is parsed, so packages that were complete in it when the pipe had no room stay there
  although the pipe has been emptied, and the client is never heard of again.\<close>

lemma full_buffer_wedged:
  "length (cl_mem s) = 48 + RECV_ROOM \<Longrightarrow> recv_client pos s p = Some (Ret (False, s, p))"
  by (subst recv_client.simps) simp

end
