(* ===== verification/FrameServer.thy ===== *)
theory FrameServer
  imports ProxyManager ConnectServer
begin

text \<open>
  core/src/frame_server.cpp: the frame every logic server runs in. Messages of the clients (two
  shared-memory pipes, TCP and web socket), of other servers (the proxies) and of the server
  itself go through one message queue, a third pipe, from which they are dispatched to the
  virtual functions the server overrides. \<open>'g\<close> is the state of the server proper. The queue
  carries the bytes of \<open>stMessage\<close>, whose member \<open>_message\<close> keeps what earlier messages left.
\<close>

abbreviation (input) "MAX_PB_BUF_LEN \<equiv> 65532 :: nat"
abbreviation (input) "MSG_SIZE \<equiv> 65592 :: nat"

record st_message =
  sm_type :: u32
  sm_buf :: "byte list"
  sm_len :: u32
  sm_head :: "byte list"

definition msg_bytes :: "byte list \<Rightarrow> st_message \<Rightarrow> byte list" where
  "msg_bytes pad m = w32 (sm_type m) @ sm_buf m @ w32 (sm_len m) @ pad @ sm_head m"

definition msg_of_bytes :: "byte list \<Rightarrow> st_message" where
  "msg_of_bytes bs = \<lparr>sm_type = rd32 0 bs, sm_buf = take MAX_PB_BUF_LEN (drop 4 bs),
     sm_len = rd32 65536 bs, sm_head = take 48 (drop 65544 bs)\<rparr>"

record 'g frame_svr =
  fs_msg_shm_size :: nat
  fs_msg_pipe :: shm_pipe
  fs_cs_pipe :: "shm_pipe option"
  fs_sc_pipe :: "shm_pipe option"
  fs_cs_pipe_ws :: "shm_pipe option"
  fs_sc_pipe_ws :: "shm_pipe option"
  fs_proxy :: proxy_mgr
  fs_message :: st_message
  fs_pad :: "byte list"
  fs_check_time :: u32
  fs_game :: 'g

text \<open>The virtual functions of the server; one may access memory outside an object (\<open>Crash\<close>) or not return (\<open>None\<close>).\<close>

record 'g virtuals =
  v_client :: "byte list \<Rightarrow> byte list \<Rightarrow> 'g frame_svr \<Rightarrow> 'g frame_svr outcome option"
  v_offline :: "byte list \<Rightarrow> u64 \<Rightarrow> 'g frame_svr \<Rightarrow> 'g frame_svr outcome option"
  v_server :: "byte list \<Rightarrow> byte list \<Rightarrow> 'g frame_svr \<Rightarrow> 'g frame_svr outcome option"
  v_internal :: "byte list \<Rightarrow> 'g frame_svr \<Rightarrow> 'g frame_svr outcome option"
  v_routine :: "'g frame_svr \<Rightarrow> 'g frame_svr outcome option"

text \<open>One call after the other.\<close>

definition bind_turn :: "'a outcome option \<Rightarrow> ('a \<Rightarrow> 'b outcome option) \<Rightarrow> 'b outcome option" where
  "bind_turn x k = (case x of None \<Rightarrow> None | Some Crash \<Rightarrow> Some Crash | Some (Ret y) \<Rightarrow> k y)"

lemma bind_turn_Ret: "bind_turn x k = Some (Ret r) \<longleftrightarrow> (\<exists>y. x = Some (Ret y) \<and> k y = Some (Ret r))"
  by (auto simp: bind_turn_def split: option.split outcome.split)

subsection \<open>The message queue\<close>

text \<open>The three \<open>PostMessage\<close>: message types 1 client, 2 server, 3 internal. The head of an internal message
  is the one of the message before.\<close>

definition post_msg :: "u32 \<Rightarrow> byte list \<Rightarrow> byte list \<Rightarrow> 'g frame_svr \<Rightarrow> (bool \<times> 'g frame_svr) outcome" where
  "post_msg t head buf fs =
     (if length buf > MAX_PB_BUF_LEN then Crash
      else
        let m = (fs_message fs)\<lparr>sm_type := t, sm_head := wr 0 head (sm_head (fs_message fs)),
                  sm_len := of_nat (length buf), sm_buf := wr 0 buf (sm_buf (fs_message fs))\<rparr>
        in case AppendOneData (msg_bytes (fs_pad fs) m) (fs_msg_pipe fs) of
             None \<Rightarrow> Crash
           | Some (ok, p) \<Rightarrow> Ret (ok, fs\<lparr>fs_message := m, fs_msg_pipe := p\<rparr>))"

definition PostMessage_client :: "byte list \<Rightarrow> byte list \<Rightarrow> 'g frame_svr \<Rightarrow> (bool \<times> 'g frame_svr) outcome" where
  "PostMessage_client = post_msg 1"

definition PostMessage_server :: "byte list \<Rightarrow> byte list \<Rightarrow> 'g frame_svr \<Rightarrow> (bool \<times> 'g frame_svr) outcome" where
  "PostMessage_server = post_msg 2"

definition PostMessage_internal :: "byte list \<Rightarrow> 'g frame_svr \<Rightarrow> (bool \<times> 'g frame_svr) outcome" where
  "PostMessage_internal = post_msg 3 []"

definition dispatch_one :: "'g virtuals \<Rightarrow> 'g frame_svr \<Rightarrow> 'g frame_svr outcome option" where
  "dispatch_one v fs =
     (let m = fs_message fs; body = take (unat (sm_len m)) (sm_buf m) in
      if sm_type m = 1 then v_client v (sm_head m) body fs
      else if sm_type m = 2 then v_server v (take PROXY_HEAD_LEN (sm_head m)) body fs
      else if sm_type m = 3 then v_internal v body fs
      else Some (Ret fs))"

fun dispatch_loop :: "nat \<Rightarrow> 'g virtuals \<Rightarrow> 'g frame_svr \<Rightarrow> 'g frame_svr outcome option" where
  "dispatch_loop 0 v fs = Some (Ret fs)"
| "dispatch_loop (Suc i) v fs = (case GetOneData MSG_SIZE (fs_msg_pipe fs) of
     None \<Rightarrow> Some Crash
   | Some (None, p) \<Rightarrow> Some (Ret (fs\<lparr>fs_msg_pipe := p\<rparr>))
   | Some (Some bs, p) \<Rightarrow>
       (let fs1 = fs\<lparr>fs_msg_pipe := p,
                     fs_message := msg_of_bytes (bs @ drop (length bs) (msg_bytes (fs_pad fs) (fs_message fs)))\<rparr>
        in bind_turn (if length bs \<noteq> MSG_SIZE then Some (Ret fs1) else dispatch_one v fs1) (dispatch_loop i v)))"

definition DispatchMessage :: "'g virtuals \<Rightarrow> 'g frame_svr \<Rightarrow> 'g frame_svr outcome option" where
  "DispatchMessage v fs = dispatch_loop (fs_msg_shm_size fs) v fs"

subsection \<open>Messages of the clients\<close>

text \<open>One message of a client pipe; the result says whether the loop goes on. A message the queue has no
  room for is gone.\<close>

definition client_msg :: "'g virtuals \<Rightarrow> byte list \<Rightarrow> 'g frame_svr \<Rightarrow> (bool \<times> 'g frame_svr) outcome option" where
  "client_msg v buf fs =
     (if length buf \<le> CONNECT_HEAD_LEN + 4 then Some (Ret (True, fs))
      else
        let body = drop CONNECT_HEAD_LEN buf; head = take CONNECT_HEAD_LEN buf in
        if rd32 36 buf = 3 then
          (if length body \<noteq> 8 then Some (Ret (True, fs))
           else bind_turn (v_offline v head (rd64 0 body) fs) (\<lambda>fs1. Some (Ret (True, fs1))))
        else if length body \<le> 4 then Some (Ret (True, fs))
        else if of_be32 body \<noteq> length body then Some (Ret (True, fs))
        else Some (PostMessage_client head (drop 4 body) fs))"

fun client_loop :: "nat \<Rightarrow> 'g virtuals \<Rightarrow> ('g frame_svr \<Rightarrow> shm_pipe option) \<Rightarrow> (shm_pipe \<Rightarrow> 'g frame_svr \<Rightarrow> 'g frame_svr)
    \<Rightarrow> 'g frame_svr \<Rightarrow> 'g frame_svr outcome option" where
  "client_loop 0 v pipe set_pipe fs = Some (Ret fs)"
| "client_loop (Suc i) v pipe set_pipe fs = (case pipe fs of
     None \<Rightarrow> Some (Ret fs)
   | Some p \<Rightarrow>
       (case GetOneData MAX_CONNECT_BUF_LEN p of
          None \<Rightarrow> Some Crash
        | Some (None, p1) \<Rightarrow> Some (Ret (set_pipe p1 fs))
        | Some (Some buf, p1) \<Rightarrow>
            bind_turn (client_msg v buf (set_pipe p1 fs))
              (\<lambda>(go, fs1). if go then client_loop i v pipe set_pipe fs1 else Some (Ret fs1))))"

definition GetClientMessage :: "'g virtuals \<Rightarrow> 'g frame_svr \<Rightarrow> 'g frame_svr outcome option" where
  "GetClientMessage v fs = client_loop (fs_msg_shm_size fs div 2) v fs_cs_pipe (\<lambda>p fs. fs\<lparr>fs_cs_pipe := Some p\<rparr>) fs"

definition GetClientMessageWs :: "'g virtuals \<Rightarrow> 'g frame_svr \<Rightarrow> 'g frame_svr outcome option" where
  "GetClientMessageWs v fs = client_loop (fs_msg_shm_size fs div 2) v fs_cs_pipe_ws (\<lambda>p fs. fs\<lparr>fs_cs_pipe_ws := Some p\<rparr>) fs"

subsection \<open>Messages of the proxies\<close>

definition GetProxyMessage :: "(nat \<Rightarrow> bool) \<Rightarrow> 'g frame_svr \<Rightarrow> 'g frame_svr outcome option" where
  "GetProxyMessage ready fs =
     (case GetProxyData (\<lambda>head pb. PostMessage_server head pb) (fs_msg_shm_size fs) ready (fs_proxy fs) fs of
        None \<Rightarrow> None
      | Some Crash \<Rightarrow> Some Crash
      | Some (Ret (pm, fs1)) \<Rightarrow> Some (Ret (fs1\<lparr>fs_proxy := pm\<rparr>)))"

definition fs_SendProxyBuf :: "'g frame_svr \<Rightarrow> 'g frame_svr" where
  "fs_SendProxyBuf fs = fs\<lparr>fs_proxy := SendProxyBuf (fs_proxy fs)\<rparr>"

definition CheckProxyConnect :: "u64 \<Rightarrow> (nat \<Rightarrow> reconnect) \<Rightarrow> 'g frame_svr \<Rightarrow> 'g frame_svr" where
  "CheckProxyConnect now rc fs =
     (if fs_check_time fs + 1 \<le> GetTime now
      then fs\<lparr>fs_check_time := GetTime now, fs_proxy := CheckConnect rc (fs_proxy fs)\<rparr> else fs)"

text \<open>One turn of \<open>Run\<close>.\<close>

definition Run_turn :: "u64 \<Rightarrow> (nat \<Rightarrow> reconnect) \<Rightarrow> (nat \<Rightarrow> bool) \<Rightarrow> 'g virtuals \<Rightarrow> 'g frame_svr \<Rightarrow> 'g frame_svr outcome option" where
  "Run_turn now rc ready v fs =
     bind_turn (v_routine v fs) (\<lambda>fs0.
     bind_turn (GetClientMessage v fs0) (\<lambda>fs1.
     bind_turn (GetClientMessageWs v fs1) (\<lambda>fs2.
     bind_turn (GetProxyMessage ready (fs_SendProxyBuf (CheckProxyConnect now rc fs2))) (\<lambda>fs3.
     DispatchMessage v fs3))))"

subsection \<open>Sending\<close>

text \<open>The image of a head; \<open>junk\<close> is what the padding and the rest of the address array hold.\<close>

primrec conn_msg_code :: "conn_msg_type \<Rightarrow> u32" where
  "conn_msg_code Conn_normal = 1" | "conn_msg_code Conn_logic_index = 2" | "conn_msg_code Conn_client_discon = 3"

primrec conn_code :: "conn_type \<Rightarrow> u32" where
  "conn_code Conn_tcp = 1" | "conn_code Conn_ws = 2"

definition connect_bytes :: "byte list \<Rightarrow> connect_head \<Rightarrow> byte list" where
  "connect_bytes junk h =
     wr 40 (w32 (conn_code (ch_conn_type h))) (wr 36 (w32 (conn_msg_code (ch_msg_type h)))
       (wr 32 [if ch_need_close h then 1 else 0] (wr 16 (addr_bytes (ch_socket_addr h))
         (wr 12 (w32 (ch_socket_port h)) (wr 8 (w32 (ch_socket_pos h)) (wr 0 (w64 (ch_create_time h)) junk))))))"

definition send_client :: "connect_head \<Rightarrow> byte list \<Rightarrow> 'g frame_svr \<Rightarrow> (bool \<times> 'g frame_svr) outcome" where
  "send_client h bs fs = (case ch_conn_type h of
     Conn_tcp \<Rightarrow>
       (case fs_sc_pipe fs of
          None \<Rightarrow> Ret (False, fs)
        | Some p \<Rightarrow> if length bs > MAX_CONNECT_BUF_LEN then Crash
            else (case AppendOneData bs p of None \<Rightarrow> Crash | Some (ok, p1) \<Rightarrow> Ret (ok, fs\<lparr>fs_sc_pipe := Some p1\<rparr>)))
   | Conn_ws \<Rightarrow>
       (case fs_sc_pipe_ws fs of
          None \<Rightarrow> Ret (False, fs)
        | Some p \<Rightarrow> if length bs > MAX_CONNECT_BUF_LEN then Crash
            else (case AppendOneData bs p of None \<Rightarrow> Crash | Some (ok, p1) \<Rightarrow> Ret (ok, fs\<lparr>fs_sc_pipe_ws := Some p1\<rparr>))))"

definition SendMessageToClient :: "byte list \<Rightarrow> connect_head \<Rightarrow> byte list \<Rightarrow> 'g frame_svr \<Rightarrow> (bool \<times> 'g frame_svr) outcome" where
  "SendMessageToClient junk h buf fs = send_client h (connect_bytes junk h @ be32 (length buf + 4) @ buf) fs"

definition NotifyConnectLogicIndex :: "byte list \<Rightarrow> connect_head \<Rightarrow> u64 \<Rightarrow> 'g frame_svr \<Rightarrow> (bool \<times> 'g frame_svr) outcome" where
  "NotifyConnectLogicIndex junk h logic_index fs =
     send_client h (connect_bytes junk (h\<lparr>ch_msg_type := Conn_logic_index\<rparr>) @ w64 logic_index) fs"

definition SendMessageToInternal :: "byte list \<Rightarrow> 'g frame_svr \<Rightarrow> (bool \<times> 'g frame_svr) outcome" where
  "SendMessageToInternal = PostMessage_internal"

definition SendMessageToProxy :: "byte list \<Rightarrow> proxy_head \<Rightarrow> byte list \<Rightarrow> u32 option \<Rightarrow> 'g frame_svr \<Rightarrow> (bool \<times> 'g frame_svr) outcome" where
  "SendMessageToProxy pad h buf des fs = (case SendProxyData pad h buf des (fs_proxy fs) of
     Crash \<Rightarrow> Crash | Ret (ok, pm) \<Rightarrow> Ret (ok, fs\<lparr>fs_proxy := pm\<rparr>))"

end
