(* ===== verification/LipstickBase.thy ===== *)
theory LipstickBase
  imports HandlerBase "HOL-Library.Monad_Syntax"
begin

text \<open>
  svr/lipsticksvr, the game server: what its handlers share. The world of the handlers also has
  the random numbers \<open>rand()\<close> will give, the commands handed to the shell and the flags of
  \<open>H5MachineManager\<close>. A handler's step is in the option monad: \<open>None\<close> is an access through a null
  pointer or past the end of a repeated field. The rates of common/data_common.cpp are computed
  in \<open>float\<close> and are parameters, as are the decoded bytes of messages, what AES and base64 make
  of a login token and the memory of an object's head that was never written.
\<close>

record lip_world = world +
  lw_rand :: "nat list"
  lw_wechat :: "(u64 \<times> u32 \<times> u64 \<times> u64) list"
  lw_h5 :: "bool list"

record lip_env = msg_env +
  le_cfg :: prize_cfg
  le_use_heart_beat :: bool
  le_heart_beat_interval :: u32
  le_prize_rate :: "pb_db_data \<Rightarrow> u64 \<Rightarrow> u32 \<Rightarrow> u64 \<Rightarrow> pb_db_data \<Rightarrow> u32"
  le_lottery_pays :: "pb_db_data \<Rightarrow> u32 \<Rightarrow> pb_db_data \<Rightarrow> bool"
  le_decrypt :: "string \<Rightarrow> string option"
  le_parse_cs :: "byte list \<Rightarrow> pb_cs_msg option"
  le_parse_ss :: "byte list \<Rightarrow> pb_ss_msg option"
  le_parse_in :: "byte list \<Rightarrow> pb_internal_msg option"
  le_no_head :: connect_head
  le_ord :: "nat list \<Rightarrow> nat list"

subsection \<open>The world\<close>

definition upd_machine :: "u64 \<Rightarrow> (machine \<Rightarrow> machine) \<Rightarrow> lip_world \<Rightarrow> lip_world" where
  "upd_machine uid f w = w\<lparr>w_machines := kp_update uid f (w_machines w)\<rparr>"

definition upd_player :: "u64 \<Rightarrow> (player \<Rightarrow> player) \<Rightarrow> lip_world \<Rightarrow> lip_world" where
  "upd_player uid f w = w\<lparr>w_players := kp_update uid f (w_players w)\<rparr>"

definition get_machine :: "u64 \<Rightarrow> lip_world \<Rightarrow> machine option" where
  "get_machine uid w = GetMachine uid (w_machines w)"

definition get_player :: "u64 \<Rightarrow> lip_world \<Rightarrow> player option" where
  "get_player uid w = GetPlayer uid (w_players w)"

definition w_CreateTimer :: "lip_env \<Rightarrow> u32 \<Rightarrow> internal_body \<Rightarrow> lip_world \<Rightarrow> u32 \<times> lip_world" where
  "w_CreateTimer env sec m w =
     (let (r, tm) = CreateTimer (me_now env) sec (Some m) (w_timers w) in (timer_ret r, w\<lparr>w_timers := tm\<rparr>))"

definition w_CreateTimerMsec :: "lip_env \<Rightarrow> u32 \<Rightarrow> internal_body \<Rightarrow> lip_world \<Rightarrow> u32 \<times> lip_world" where
  "w_CreateTimerMsec env msec m w =
     (let (r, tm) = CreateTimerMsec (me_now env) msec (Some m) (w_timers w) in (timer_ret r, w\<lparr>w_timers := tm\<rparr>))"

definition w_ReleaseTimer :: "u32 \<Rightarrow> lip_world \<Rightarrow> lip_world" where
  "w_ReleaseTimer tid w = w\<lparr>w_timers := snd (ReleaseTimer tid (w_timers w))\<rparr>"

definition w_internal :: "lip_env \<Rightarrow> internal_body \<Rightarrow> lip_world \<Rightarrow> lip_world" where
  "w_internal env m w = snd (SendMsgToInternal env (Some m) w)"

definition w_client :: "lip_env \<Rightarrow> connect_head \<Rightarrow> cs_body \<Rightarrow> bool \<Rightarrow> lip_world \<Rightarrow> lip_world" where
  "w_client env head body close w = snd (snd (SendMsgToClient_to env head (cs_msg0\<lparr>cs_body := Some body\<rparr>) close w))"

definition w_rand :: "lip_world \<Rightarrow> nat \<times> lip_world" where
  "w_rand w = (case lw_rand w of [] \<Rightarrow> (0, w) | r # rs \<Rightarrow> (r, w\<lparr>lw_rand := rs\<rparr>))"

definition w_wechat :: "u64 \<Rightarrow> u32 \<Rightarrow> u64 \<Rightarrow> u64 \<Rightarrow> lip_world \<Rightarrow> lip_world" where
  "w_wechat uid t pid num w = w\<lparr>lw_wechat := lw_wechat w @ [(uid, t, pid, num)]\<rparr>"

definition m_head :: "lip_env \<Rightarrow> machine \<Rightarrow> connect_head" where
  "m_head env m = (case ma_connect_head m of None \<Rightarrow> le_no_head env | Some h \<Rightarrow> h)"

definition p_head :: "lip_env \<Rightarrow> player \<Rightarrow> connect_head" where
  "p_head env p = (case py_connect_head p of None \<Rightarrow> le_no_head env | Some h \<Rightarrow> h)"

text \<open>\<open>pmachine->RefreshTimer()\<close>, \<open>pplayer->RefreshTimer()\<close>.\<close>

definition m_refresh :: "lip_env \<Rightarrow> u64 \<Rightarrow> lip_world \<Rightarrow> lip_world" where
  "m_refresh env uid w = (case get_machine uid w of
     None \<Rightarrow> w
   | Some m \<Rightarrow> (let (m1, tm) = Machine_RefreshTimer (me_now env) m (w_timers w)
                in upd_machine uid (\<lambda>_. m1) (w\<lparr>w_timers := tm\<rparr>)))"

definition p_refresh :: "lip_env \<Rightarrow> u64 \<Rightarrow> lip_world \<Rightarrow> lip_world" where
  "p_refresh env uid w = (case get_player uid w of
     None \<Rightarrow> w
   | Some p \<Rightarrow> (let (p1, tm) = Player_RefreshTimer (me_now env) p (w_timers w)
                in upd_player uid (\<lambda>_. p1) (w\<lparr>w_timers := tm\<rparr>)))"

text \<open>A new timer and the state it guards; the timer before is released or has run off.\<close>

definition m_wait :: "lip_env \<Rightarrow> u64 \<Rightarrow> u32 \<Rightarrow> internal_body \<Rightarrow> game_state \<Rightarrow> lip_world \<Rightarrow> lip_world" where
  "m_wait env uid sec msg st w =
     (let (tid, w1) = w_CreateTimer env sec msg w
      in upd_machine uid (\<lambda>m. m\<lparr>ma_timer_id := tid, ma_game_state := st\<rparr>) w1)"

definition p_wait :: "lip_env \<Rightarrow> u64 \<Rightarrow> u32 \<Rightarrow> internal_body \<Rightarrow> game_state \<Rightarrow> lip_world \<Rightarrow> lip_world" where
  "p_wait env uid sec msg st w =
     (let (tid, w1) = w_CreateTimer env sec msg w
      in upd_player uid (\<lambda>p. p\<lparr>py_timer_id := tid, py_game_state := st\<rparr>) w1)"

subsection \<open>The session\<close>

definition s_uid :: "session \<Rightarrow> u64" where
  "s_uid s = ucast (se_uid s)"

text \<open>\<open>GetCSResponse().mutable_...()\<close>: the accessor of a member of the union keeps a member that is set and
  makes an empty one otherwise.\<close>

definition rsp :: "(cs_body option \<Rightarrow> cs_body) \<Rightarrow> session \<Rightarrow> session" where
  "rsp f s = s\<lparr>se_cs_response := (se_cs_response s)\<lparr>cs_body := Some (f (cs_body (se_cs_response s)))\<rparr>\<rparr>"

definition cs_rsp_start0 :: cs_rsp_start where
  "cs_rsp_start0 = \<lparr>rs_can_get_prize = False, rs_left_buy_in = 0, rs_round_timeouts = [], rs_round_knives = [], rs_retry_timeout = 0, rs_retry_switch = False\<rparr>"

definition rsp_start :: "channel \<Rightarrow> (cs_rsp_start \<Rightarrow> cs_rsp_start) \<Rightarrow> cs_body option \<Rightarrow> cs_body" where
  "rsp_start ch f b = CsRspStart ch (f (case b of Some (CsRspStart c r) \<Rightarrow> if c = ch then r else cs_rsp_start0 | _ \<Rightarrow> cs_rsp_start0))"

definition cs_rsp_end0 :: cs_rsp_end where
  "cs_rsp_end0 = \<lparr>re_next_step = 0, re_timeout = 0, re_prize_id = 0, re_prize_num = 0, re_buy_cost = 0, re_game_succ_timeout = 0\<rparr>"

definition rsp_end :: "channel \<Rightarrow> (cs_rsp_end \<Rightarrow> cs_rsp_end) \<Rightarrow> cs_body option \<Rightarrow> cs_body" where
  "rsp_end ch f b = CsRspEnd ch (f (case b of Some (CsRspEnd c r) \<Rightarrow> if c = ch then r else cs_rsp_end0 | _ \<Rightarrow> cs_rsp_end0))"

definition cs_rsp_retry0 :: cs_rsp_retry where
  "cs_rsp_retry0 = \<lparr>rr_can_get_prize = False, rr_left_buy_in = 0, rr_retry_time = 0\<rparr>"

definition rsp_retry :: "channel \<Rightarrow> (cs_rsp_retry \<Rightarrow> cs_rsp_retry) \<Rightarrow> cs_body option \<Rightarrow> cs_body" where
  "rsp_retry ch f b = CsRspRetry ch (f (case b of Some (CsRspRetry c r) \<Rightarrow> if c = ch then r else cs_rsp_retry0 | _ \<Rightarrow> cs_rsp_retry0))"

definition cs_rsp_lottery0 :: cs_rsp_lottery where
  "cs_rsp_lottery0 = \<lparr>rl_awards = [], rl_prize_num = 0, rl_timeout = 0, rl_award_index = 0\<rparr>"

definition get_lottery :: "channel \<Rightarrow> cs_body option \<Rightarrow> cs_rsp_lottery" where
  "get_lottery ch b = (case b of Some (CsRspLottery c r) \<Rightarrow> if c = ch then r else cs_rsp_lottery0 | _ \<Rightarrow> cs_rsp_lottery0)"

definition rsp_lottery :: "channel \<Rightarrow> (cs_rsp_lottery \<Rightarrow> cs_rsp_lottery) \<Rightarrow> cs_body option \<Rightarrow> cs_body" where
  "rsp_lottery ch f b = CsRspLottery ch (f (get_lottery ch b))"

definition cs_rsp_buy0 :: cs_rsp_buy where
  "cs_rsp_buy0 = \<lparr>rb_prize_id = 0, rb_prize_num = 0, rb_timeout = 0, rb_left_buy_in = 0\<rparr>"

definition rsp_buy :: "channel \<Rightarrow> (cs_rsp_buy \<Rightarrow> cs_rsp_buy) \<Rightarrow> cs_body option \<Rightarrow> cs_body" where
  "rsp_buy ch f b = CsRspBuyPrize ch (f (case b of Some (CsRspBuyPrize c r) \<Rightarrow> if c = ch then r else cs_rsp_buy0 | _ \<Rightarrow> cs_rsp_buy0))"

definition rsp_lottery_end :: "channel \<Rightarrow> cs_body option \<Rightarrow> cs_body" where
  "rsp_lottery_end ch b = (case b of Some (CsRspLotteryEnd c t) \<Rightarrow> if c = ch then CsRspLotteryEnd c t else CsRspLotteryEnd ch 0
     | _ \<Rightarrow> CsRspLotteryEnd ch 0)"

definition set_result :: "u32 \<Rightarrow> session \<Rightarrow> session" where
  "set_result r s = s\<lparr>se_cs_response := (se_cs_response s)\<lparr>cs_result := Some r\<rparr>\<rparr>"

text \<open>Answer and be done; with an error code.\<close>

definition reply :: "lip_env \<Rightarrow> session \<Rightarrow> lip_world \<Rightarrow> (hresult \<times> session \<times> lip_world) option" where
  "reply env s w = (let (_, s1, w1) = SendMsgToClient env False s w in Some (H_Done, s1, w1))"

definition fail :: "lip_env \<Rightarrow> u32 \<Rightarrow> (cs_body option \<Rightarrow> cs_body) \<Rightarrow> session \<Rightarrow> lip_world
    \<Rightarrow> (hresult \<times> session \<times> lip_world) option" where
  "fail env code f s w = reply env (rsp f (set_result code s)) w"

definition web_reply :: "lip_env \<Rightarrow> ss_body \<Rightarrow> session \<Rightarrow> lip_world \<Rightarrow> (hresult \<times> session \<times> lip_world) option" where
  "web_reply env body s w =
     (let s1 = s\<lparr>se_ss_response := (se_ss_response s)\<lparr>ss_body := Some body\<rparr>\<rparr>;
          (_, s2, w1) = SendMsgToResponse env s1 w
      in Some (H_Done, s2, w1))"

text \<open>The requests; a message of another type reads as the empty one.\<close>

definition req_start :: "channel \<Rightarrow> session \<Rightarrow> u64" where
  "req_start ch s = (case cs_body (se_cs_msg s) of Some (CsReqStart c p) \<Rightarrow> if c = ch then ucast p else 0 | _ \<Rightarrow> 0)"

definition req_retry :: "channel \<Rightarrow> session \<Rightarrow> u32" where
  "req_retry ch s = (case cs_body (se_cs_msg s) of Some (CsReqRetry c r) \<Rightarrow> if c = ch then r else 0 | _ \<Rightarrow> 0)"

definition req_end :: "channel \<Rightarrow> session \<Rightarrow> bool" where
  "req_end ch s = (case cs_body (se_cs_msg s) of Some (CsReqEnd c g) \<Rightarrow> c = ch \<and> g | _ \<Rightarrow> False)"

definition req_buy :: "channel \<Rightarrow> session \<Rightarrow> bool" where
  "req_buy ch s = (case cs_body (se_cs_msg s) of Some (CsReqBuyPrize c g) \<Rightarrow> c = ch \<and> g | _ \<Rightarrow> False)"

text \<open>An operation of \<open>DataCommon\<close> on \<open>GetDBData()\<close>: its events go to the session, its commands to the shell.\<close>

definition on_account :: "(acct \<Rightarrow> 'a \<times> acct) \<Rightarrow> session \<Rightarrow> lip_world \<Rightarrow> ('a \<times> session \<times> lip_world) option" where
  "on_account f s w = (let i = unat (se_process_index s) in
     case GetDBData i s of
       None \<Rightarrow> None
     | Some d \<Rightarrow>
         (let (x, a) = f \<lparr>ac_db = d, ac_events = [], ac_points = []\<rparr>
          in Some (x, (SetDBData i (ac_db a) s)\<lparr>se_events := se_events s @ ac_events a\<rparr>,
                   w\<lparr>w_out := w_out w @ map (\<lambda>(u, n, r). PointCommand u n r) (ac_points a)\<rparr>)))"

definition cur_data :: "session \<Rightarrow> pb_db_data option" where
  "cur_data s = GetDBData (unat (se_process_index s)) s"

definition set_cur_data :: "(pb_db_data \<Rightarrow> pb_db_data) \<Rightarrow> session \<Rightarrow> session option" where
  "set_cur_data f s = (let i = unat (se_process_index s) in
     case GetDBData i s of None \<Rightarrow> None | Some d \<Rightarrow> Some (SetDBData i (f d) s))"

subsection \<open>Machines and games\<close>

definition linfo :: "pb_db_data \<Rightarrow> db_m_lipstick_info" where "linfo d = m_lipstick_info d"

definition find_prize :: "u64 \<Rightarrow> pb_db_data \<Rightarrow> db_prize option" where
  "find_prize pid d = find (\<lambda>p. pid = pz_id p) (lp_prizes (linfo d))"

text \<open>The price of the guaranteed purchase: the prize's value less what has been spent.\<close>

definition buy_cost :: "u64 \<Rightarrow> u64 \<Rightarrow> u64" where
  "buy_cost value consume = (if value > consume then value - consume else 0)"

definition buy_offered :: "lip_env \<Rightarrow> pb_db_data \<Rightarrow> u64 \<Rightarrow> u64 \<Rightarrow> u32 \<Rightarrow> u32 \<Rightarrow> bool" where
  "buy_offered env d pid consume fails time \<longleftrightarrow> (let info = linfo d in
     getF (lp_buy_switch info) \<and> GetPrize pid (le_cfg env) \<noteq> None \<and> consume \<ge> get0 (lp_buy_consume info)
     \<and> fails \<ge> get0 (lp_buy_fail info) \<and> time \<ge> get0 (lp_buy_time info))"

definition prize_value :: "lip_env \<Rightarrow> u64 \<Rightarrow> u64" where
  "prize_value env pid = (case GetPrize pid (le_cfg env) of None \<Rightarrow> 0 | Some (v, _) \<Rightarrow> v)"

text \<open>A prize given out is added to the machine's totals, which go to the database as a message.\<close>

definition count_prize :: "u64 \<Rightarrow> pb_db_data \<Rightarrow> pb_db_data" where
  "count_prize value d = mut_m_base_info (\<lambda>b. b\<lparr>mb_total_prize_value := mb_total_prize_value b + ucast value,
     mb_total_prize_num := mb_total_prize_num b + 1\<rparr>) d"

definition count_income :: "u64 \<Rightarrow> pb_db_data \<Rightarrow> pb_db_data" where
  "count_income cost d = mut_m_base_info (\<lambda>b. b\<lparr>mb_total_income := cost + mb_total_income b\<rparr>) d"

end
