(* ===== verification/LipstickLogin.thy ===== *)
theory LipstickLogin
  imports LipstickBase
begin

text \<open>
  svr/lipsticksvr/message.cpp and h5_machine_manager.cpp: who may speak for which machine or
  player. Every client message passes \<open>MessageFilter\<close>: a login brings a token that must name the
  machine or player and be less than a day old, any other message must come from the connection
  that logged in. A logout settles the game that is interrupted.
\<close>

subsection \<open>The number and string functions of the C library the token check uses\<close>

fun c_digits :: "int \<Rightarrow> string \<Rightarrow> int" where
  "c_digits acc [] = acc"
| "c_digits acc (c # cs) = (let d = of_char c :: int in
     if 48 \<le> d \<and> d \<le> 57 then c_digits (acc * 10 + (d - 48)) cs else acc)"

text \<open>\<open>atoll\<close>, \<open>atoi\<close>: blanks, a sign, digits. Out of range is undefined in C; the value then wraps.\<close>

definition c_atoi :: "string \<Rightarrow> int" where
  "c_atoi s = (let t = dropWhile (\<lambda>c. of_char c = (32::nat) \<or> (9 \<le> (of_char c :: nat) \<and> of_char c \<le> (13::nat))) s in
     case t of [] \<Rightarrow> 0
     | c # cs \<Rightarrow> if c = CHR ''-'' then - c_digits 0 cs else if c = CHR ''+'' then c_digits 0 cs else c_digits 0 t)"

text \<open>What is behind the first occurrence \<open>strstr\<close> finds.\<close>

fun c_behind :: "string \<Rightarrow> string \<Rightarrow> string option" where
  "c_behind pat [] = (if pat = [] then Some [] else None)"
| "c_behind pat (c # cs) = (if take (length pat) (c # cs) = pat then Some (drop (length pat) (c # cs)) else c_behind pat cs)"

subsection \<open>H5MachineManager\<close>

definition H5_Init :: "lip_env \<Rightarrow> lip_world \<Rightarrow> lip_world" where
  "H5_Init env w =
     (let n = om_MaxSize (kp_om (w_players w)) in
      w\<lparr>lw_h5 := fold (\<lambda>p arr. case d_uid (py_machine p) of
            None \<Rightarrow> arr
          | Some mid \<Rightarrow> if unat mid mod 100000 \<ge> n then arr else arr[unat mid mod 100000 := True])
          (om_iter (le_ord env) (kp_om (w_players w))) (replicate n False)\<rparr>)"

text \<open>The chosen place is not marked.\<close>

definition H5_Alloc :: "lip_env \<Rightarrow> lip_world \<Rightarrow> u32 \<times> lip_world" where
  "H5_Alloc env w =
     (let max_index = om_Size (kp_om (w_players w)) + 5;
          max_index = (if max_index > length (lw_h5 w) then length (lw_h5 w) else max_index);
          index_vec = filter (\<lambda>i. \<not> lw_h5 w ! i) [0..<max_index]
      in if index_vec = [] then (- 1, w)
         else
           let (r, w1) = w_rand w
           in (5000000 + me_svr_id env * 100000 + of_nat (index_vec ! (r mod length index_vec)), w1))"

definition H5_Release :: "u64 \<Rightarrow> lip_world \<Rightarrow> lip_world" where
  "H5_Release mid w =
     (let index = unat mid mod 100000
      in if index \<ge> length (lw_h5 w) then w else w\<lparr>lw_h5 := (lw_h5 w)[index := False]\<rparr>)"

subsection \<open>Logout\<close>

abbreviation (input) "EN_Logout_Default \<equiv> 0 :: u32"
abbreviation (input) "EN_Logout_Multi_Login \<equiv> 1 :: u32"
abbreviation (input) "EN_Logout_Heart_Beat \<equiv> 2 :: u32"

text \<open>A game that is being played is paid back by a timer 100 milliseconds later.\<close>

definition settle_machine :: "lip_env \<Rightarrow> machine \<Rightarrow> lip_world \<Rightarrow> lip_world" where
  "settle_machine env m w =
     (if ma_game_state m = Wait_Player then w
      else
        let w1 = w_internal env (InClearBuyIn (ma_player_id m) (ma_machine_id m)) (w_ReleaseTimer (ma_timer_id m) w)
        in if ma_game_state m = Wait_End
           then snd (w_CreateTimerMsec env 100 (InGameRefund (ma_player_id m) (get0 (lp_cost (linfo (ma_machine m))))) w1)
           else w1)"

definition LogoutMachine :: "lip_env \<Rightarrow> u64 \<Rightarrow> bool \<Rightarrow> u32 \<Rightarrow> bool \<Rightarrow> lip_world \<Rightarrow> lip_world" where
  "LogoutMachine env uid notify_cli reason clear_db w = (case get_machine uid w of
     None \<Rightarrow> w
   | Some m \<Rightarrow>
       (let w1 = settle_machine env m w;
            w2 = (if notify_cli then w_client env (m_head env m) (CsNotifyLogout reason) True w1 else w1);
            w3 = (if clear_db then w_internal env (InLogout (ma_machine_id m)) w2 else w2)
        in w3\<lparr>w_machines := snd (ReleaseMachine (ma_machine_id m) (w_machines w3))\<rparr>))"

definition settle_player :: "lip_env \<Rightarrow> player \<Rightarrow> lip_world \<Rightarrow> lip_world" where
  "settle_player env p w =
     (let w1 = (if py_game_state p \<noteq> Wait_Start then w_ReleaseTimer (py_timer_id p) w else w)
      in if py_game_state p = Wait_End \<and> \<not> py_pre_end p then
           (case find_prize (py_prize_id p) (py_machine p) of
              None \<Rightarrow> w1
            | Some z \<Rightarrow> w_internal env (InGameRefund (py_player_id p) (pz_cost z)) w1)
         else w1)"

definition LogoutPlayer :: "lip_env \<Rightarrow> u64 \<Rightarrow> bool \<Rightarrow> u32 \<Rightarrow> bool \<Rightarrow> lip_world \<Rightarrow> lip_world" where
  "LogoutPlayer env uid notify_cli reason clear_db w = (case get_player uid w of
     None \<Rightarrow> w
   | Some p \<Rightarrow>
       (let w1 = settle_player env p w;
            w2 = (if notify_cli then w_client env (p_head env p) (CsNotifyLogout reason) True w1 else w1);
            w3 = (if clear_db then w_internal env (InLogout (py_player_id p)) w2 else w2);
            w4 = (case d_uid (py_machine p) of None \<Rightarrow> w3 | Some mid \<Rightarrow> H5_Release mid w3)
        in w4\<lparr>w_players := snd (ReleasePlayer (py_player_id p) (w_players w4))\<rparr>))"

subsection \<open>Login\<close>

definition same_connection :: "connect_head \<Rightarrow> connect_head \<Rightarrow> bool" where
  "same_connection h1 h2 \<longleftrightarrow> ch_socket_pos h1 = ch_socket_pos h2 \<and> ch_create_time h1 = ch_create_time h2"

definition token_ok :: "lip_env \<Rightarrow> string \<Rightarrow> u64 \<Rightarrow> bool" where
  "token_ok env token uid \<longleftrightarrow> (case le_decrypt env token of
     None \<Rightarrow> False
   | Some decrypted \<Rightarrow>
       of_int (c_atoi decrypted) = uid \<and>
       (case c_behind ''#$#'' decrypted of
          None \<Rightarrow> False
        | Some rest \<Rightarrow> \<not> (of_int (c_atoi rest) + 86400 \<le> GetTime (me_now env))))"

definition refuse_login :: "lip_env \<Rightarrow> connect_head \<Rightarrow> u32 \<Rightarrow> cs_body \<Rightarrow> lip_world \<Rightarrow> bool \<times> lip_world" where
  "refuse_login env head result body w =
     (False, snd (snd (SendMsgToClient_to env head (cs_msg0\<lparr>cs_result := Some result, cs_body := Some body\<rparr>) True w)))"

definition OnMachineLogin :: "lip_env \<Rightarrow> connect_head \<Rightarrow> pb_cs_msg \<Rightarrow> lip_world \<Rightarrow> bool \<times> lip_world" where
  "OnMachineLogin env head msg w =
     (let machine_id = cs_uid msg;
          token = (case cs_body msg of Some (CsReqMLoginGame t) \<Rightarrow> t | _ \<Rightarrow> []);
          refuse = (\<lambda>result. refuse_login env head result (CsRspMLoginGame False 0 None));
          beat = (\<lambda>m. m\<lparr>ma_heart_beat_time := ucast (GetTime (me_now env))\<rparr>);
          old = get_machine machine_id w
      in if \<not> token_ok env token machine_id then refuse EN_Result_Auth_Failed w
         else if (case old of None \<Rightarrow> False | Some m \<Rightarrow> same_connection (m_head env m) head)
         then (True, upd_machine machine_id beat w)
         else
           let w1 = (if old = None then w else LogoutMachine env machine_id True EN_Logout_Multi_Login False w);
               (ok, w2) = emit env (NotifyLogicIndex head machine_id) w1
           in if \<not> ok then refuse EN_Result_Sys_Err w2
              else
                let (created, mm) = CreateMachine machine_id (w_machines w2); w3 = w2\<lparr>w_machines := mm\<rparr>
                in if \<not> created then refuse EN_Result_Server_Full w3
                   else (True, upd_machine machine_id (\<lambda>m. beat (m\<lparr>ma_connect_head := Some head\<rparr>)) w3))"

definition OnPlayerLogin :: "lip_env \<Rightarrow> connect_head \<Rightarrow> pb_cs_msg \<Rightarrow> lip_world \<Rightarrow> bool \<times> lip_world" where
  "OnPlayerLogin env head msg w =
     (let player_id = cs_uid msg;
          token = (case cs_body msg of Some (CsReqLoginGame t) \<Rightarrow> t | _ \<Rightarrow> []);
          refuse = (\<lambda>result. refuse_login env head result
            (CsRspLoginGame \<lparr>lg_heart_beat_interval = 0, lg_gold = 0, lg_lipstick_info = None, lg_prize_num = 0\<rparr>));
          beat = (\<lambda>p. p\<lparr>py_heart_beat_time := ucast (GetTime (me_now env))\<rparr>);
          old = get_player player_id w
      in if \<not> token_ok env token player_id then refuse EN_Result_Auth_Failed w
         else if (case old of None \<Rightarrow> False | Some p \<Rightarrow> same_connection (p_head env p) head)
         then (True, upd_player player_id beat w)
         else
           let w1 = (if old = None then w else LogoutPlayer env player_id True EN_Logout_Multi_Login False w);
               (ok, w2) = emit env (NotifyLogicIndex head player_id) w1
           in if \<not> ok then refuse EN_Result_Sys_Err w2
              else
                let (created, pm) = CreatePlayer player_id (w_players w2); w3 = w2\<lparr>w_players := pm\<rparr>
                in if \<not> created then refuse EN_Result_Server_Full w3
                   else (True, upd_player player_id (\<lambda>p. beat (p\<lparr>py_connect_head := Some head\<rparr>)) w3))"

definition OnLoginCheck :: "lip_env \<Rightarrow> connect_head \<Rightarrow> pb_cs_msg \<Rightarrow> lip_world \<Rightarrow> bool \<times> lip_world" where
  "OnLoginCheck env head msg w =
     (let now = ucast (GetTime (me_now env)); reject = (False, SendCommonErr env head EN_Result_Not_Login w) in
      if cs_uid msg < 10000000 then
        (case get_machine (cs_uid msg) w of
           None \<Rightarrow> reject
         | Some m \<Rightarrow>
             if \<not> same_connection head (m_head env m) then reject
             else (True, upd_machine (cs_uid msg) (\<lambda>m. m\<lparr>ma_heart_beat_time := now\<rparr>) w))
      else
        (case get_player (cs_uid msg) w of
           None \<Rightarrow> reject
         | Some p \<Rightarrow>
             if \<not> same_connection head (p_head env p) then reject
             else (True, upd_player (cs_uid msg) (\<lambda>p. p\<lparr>py_heart_beat_time := now\<rparr>) w)))"

text \<open>The message of the client when it may go on to its handler.\<close>

definition MessageFilter :: "lip_env \<Rightarrow> connect_head \<Rightarrow> byte list \<Rightarrow> lip_world \<Rightarrow> pb_cs_msg option \<times> lip_world" where
  "MessageFilter env head buf w = (case le_parse_cs env buf of
     None \<Rightarrow> (None, SendCommonErr env head EN_Result_Invalid_Msg w)
   | Some msg \<Rightarrow>
       (let (ok, w1) = (case cs_body msg of
              Some (CsReqMLoginGame _) \<Rightarrow> OnMachineLogin env head msg w
            | Some (CsReqLoginGame _) \<Rightarrow> OnPlayerLogin env head msg w
            | _ \<Rightarrow> OnLoginCheck env head msg w)
        in (if ok then Some msg else None, w1)))"

end
