(* ===== verification/LipstickMachine.thy ===== *)
theory LipstickMachine
  imports LipstickLogin
begin

text \<open>
  svr/lipsticksvr/message_handler_common.cpp: the handlers of the arcade machines. The phases of a
  handler are its steps: \<open>_OnMessage\<close>, \<open>_OnQuerySuccess\<close> (the database parts have arrived) and
  \<open>_OnSaveSuccess\<close> (the changed parts are stored). Between two steps other messages are
  processed, so every step looks its machine up again; no step checks that it is still there.
\<close>

type_synonym lstep = "lip_env \<Rightarrow> session \<Rightarrow> lip_world \<Rightarrow> (hresult \<times> session \<times> lip_world) option"

definition m_beat :: "lip_env \<Rightarrow> machine \<Rightarrow> machine" where
  "m_beat env m = m\<lparr>ma_heart_beat_time := ucast (GetTime (me_now env))\<rparr>"

definition m_promoter :: "machine \<Rightarrow> u64" where
  "m_promoter m = get0 (mb_promoter_id (m_base_info (ma_machine m)))"

text \<open>A client message that is not an answer to the session's own client.\<close>

definition notify_machine :: "lip_env \<Rightarrow> machine \<Rightarrow> session \<Rightarrow> lip_world \<Rightarrow> session \<times> lip_world" where
  "notify_machine env m s w = (let (_, r, w1) = SendMsgToClient_to env (m_head env m) (se_cs_response s) False w
     in (s\<lparr>se_cs_response := r\<rparr>, w1))"

subsection \<open>Heart beat, login of a machine\<close>

definition HeartBeat_OnMessage :: lstep where
  "HeartBeat_OnMessage env s w = reply env (rsp (\<lambda>_. CsRspHeartBeat (GetTime (me_now env))) s) w"

definition MLoginGame_OnMessage :: lstep where
  "MLoginGame_OnMessage env s w =
     Some (H_Query, AddQueryKey (s_uid s) kMLipstickInfo (AddQueryKey (s_uid s) kMBaseInfo s), w)"

definition MLoginGame_OnQuerySuccess :: lstep where
  "MLoginGame_OnQuerySuccess env s w = do {
     s1 \<leftarrow> set_cur_data (mut_m_base_info (\<lambda>b. b\<lparr>mb_gamesvr_id := Some (me_svr_id env), mb_gamesvr_type := Some (me_svr_type env)\<rparr>)) s;
     Some (H_Save, s1, w) }"

definition MLoginGame_OnSaveSuccess :: lstep where
  "MLoginGame_OnSaveSuccess env s w = do {
     d \<leftarrow> cur_data s;
     m \<leftarrow> get_machine (s_uid s) w;
     let info = linfo d;
     let view = \<lparr>li_cost = get0 (lp_cost info),
           li_prize_ids = map ucast (filter (\<lambda>pid. IsExist pid (le_cfg env)) (map pz_id (lp_prizes info))),
           li_lotterys = map la_awards (lp_lottery_awards info), li_max_retry_time = get0 (lp_max_retry_time info)\<rparr>;
     reply env (rsp (\<lambda>_. CsRspMLoginGame (le_use_heart_beat env) (le_heart_beat_interval env) (Some view)) s)
       (upd_machine (s_uid s) (\<lambda>m. m\<lparr>ma_machine := d\<rparr>) w) }"

subsection \<open>A player comes to a machine\<close>

definition web_login :: "session \<Rightarrow> u64 \<times> u64" where
  "web_login s = (case ss_body (se_ss_msg s) of Some (WebReqPlayerLogin uid mid) \<Rightarrow> (uid, mid) | _ \<Rightarrow> (0, 0))"

definition PlayerLogin_OnMessage :: lstep where
  "PlayerLogin_OnMessage env s w = (let (uid, mid) = web_login s in
     case get_machine mid w of
       None \<Rightarrow> web_reply env (WebRspPlayerLogin EN_Web_Machine_Not_Online None) s w
     | Some m \<Rightarrow> Some (H_Query, AddQueryKey uid kPrizeInfo (AddQueryKey uid kGoldInfo (AddQueryKey uid kBaseInfo s)),
                       upd_machine mid (m_beat env) w))"

definition kick_elsewhere :: "lip_env \<Rightarrow> pb_db_data \<Rightarrow> bool \<Rightarrow> lip_world \<Rightarrow> lip_world" where
  "kick_elsewhere env d here w = (case bi_gamesvr_type (base_info d) of
     None \<Rightarrow> w
   | Some t \<Rightarrow>
       if here then w
       else snd (snd (SendMsgToServer env t (get0 (bi_gamesvr_id (base_info d)))
              (ss_msg0\<lparr>ss_body := Some (SsNotifyKickPlayer (get0 (d_uid d)) (bi_machine_id (base_info d)))\<rparr>) None w)))"

definition PlayerLogin_OnQuerySuccess :: lstep where
  "PlayerLogin_OnQuerySuccess env s w = (let (uid, mid) = web_login s in do {
     m \<leftarrow> get_machine mid w;
     d \<leftarrow> cur_data s;
     if ma_game_state m \<noteq> Wait_Player then
       web_reply env (WebRspPlayerLogin (if ma_player_id m \<noteq> uid then EN_Web_Machine_In_Use else EN_Web_OK) (Some d)) s w
     else do {
       let w1 = kick_elsewhere env d (bi_machine_id (base_info d) = Some (ma_machine_id m)) w;
       let timeout = get0 (lp_start_timeout (linfo (ma_machine m)));
       let w2 = m_wait env mid timeout (InStartTimeout (ma_machine_id m)) Wait_Start (upd_machine mid
             (\<lambda>m. m\<lparr>ma_player_id := uid, ma_total_consume := 0, ma_total_fail := 0, ma_total_time := 0\<rparr>) w1);
       let (s1, w3) = notify_machine env m (rsp (\<lambda>_. CsNotifyMPlayerLogin \<lparr>np_uid = get0 (d_uid d), np_nick = bi_nick (base_info d),
             np_pic_url = bi_pic_url (base_info d), np_timeout = timeout, np_prize_num = GetPlayerPrizeNum d\<rparr>) s) w2;
       (_, s2, w4) \<leftarrow> on_account (\<lambda>a. ((), CheckPlayerBuyInTimeout (GetTime (me_now env)) a)) s1 w3;
       s3 \<leftarrow> set_cur_data (mut_base_info (\<lambda>b. b\<lparr>bi_gamesvr_type := Some (me_svr_type env),
             bi_gamesvr_id := Some (me_svr_id env), bi_machine_id := Some (ma_machine_id m)\<rparr>)) s2;
       Some (H_Save, s3, w4) } })"

definition PlayerLogin_OnSaveSuccess :: lstep where
  "PlayerLogin_OnSaveSuccess env s w = do {
     d \<leftarrow> cur_data s;
     web_reply env (WebRspPlayerLogin EN_Web_OK (Some d)) s w }"

subsection \<open>Coins\<close>

definition web_buy_in :: "session \<Rightarrow> u64 \<times> u64 \<times> u64" where
  "web_buy_in s = (case ss_body (se_ss_msg s) of Some (WebReqPlayerBuyIn uid mid num) \<Rightarrow> (uid, mid, num) | _ \<Rightarrow> (0, 0, 0))"

definition PlayerBuyIn_OnMessage :: lstep where
  "PlayerBuyIn_OnMessage env s w = (let (uid, mid, num) = web_buy_in s in
     case get_machine mid w of
       None \<Rightarrow> web_reply env (WebRspPlayerBuyIn EN_Web_Machine_Not_Online) s w
     | Some m \<Rightarrow> Some (H_Query, AddQueryKey uid kGoldInfo s, upd_machine mid (m_beat env) w))"

definition PlayerBuyIn_OnQuerySuccess :: lstep where
  "PlayerBuyIn_OnQuerySuccess env s w = (let (uid, mid, num) = web_buy_in s in do {
     m \<leftarrow> get_machine mid w;
     if ma_game_state m = Wait_Player \<or> ma_player_id m \<noteq> uid then web_reply env (WebRspPlayerBuyIn EN_Web_Player_Not_Login) s w
     else do {
       s1 \<leftarrow> set_cur_data (mut_gold_info (\<lambda>i. i)) s;
       d \<leftarrow> cur_data s1;
       if gi_gold (gold_info d) < num then web_reply env (WebRspPlayerBuyIn EN_Web_Player_Gold_Not_Enough) s1 w
       else do {
         (cur, s2, w1) \<leftarrow> on_account (PlayerAddBuyIn (GetTime (me_now env)) num mid) s1 w;
         Some (H_Save, rsp (\<lambda>_. CsNotifyMPlayerBuyIn cur) s2, w1) } } })"

definition PlayerBuyIn_OnSaveSuccess :: lstep where
  "PlayerBuyIn_OnSaveSuccess env s w = (let (uid, mid, num) = web_buy_in s in do {
     m \<leftarrow> get_machine mid w;
     if ma_game_state m = Wait_Player \<or> ma_player_id m \<noteq> uid then web_reply env (WebRspPlayerBuyIn EN_Web_Player_Not_Login) s w
     else let (s1, w1) = notify_machine env m s w in web_reply env (WebRspPlayerBuyIn EN_Web_OK) s1 w1 })"

subsection \<open>Start of a game\<close>

definition StartGame_OnMessage :: lstep where
  "StartGame_OnMessage env s w = do {
     m \<leftarrow> get_machine (s_uid s) w;
     Some (H_Query, AddQueryKey (m_promoter m) kPBaseInfo (AddQueryKey (ma_player_id m) kGoldInfo
             (AddQueryKey (ma_player_id m) kBaseInfo s)), w) }"

definition StartGame_OnQuerySuccess :: lstep where
  "StartGame_OnQuerySuccess env s w = do {
     m \<leftarrow> get_machine (s_uid s) w;
     if ma_game_state m \<noteq> Wait_Start then fail env EN_Result_Machine_State_Diff (rsp_start Mach (\<lambda>r. r)) s w
     else do {
       let w1 = m_refresh env (s_uid s) w;
       let info = linfo (ma_machine m);
       let cost = get0 (lp_cost info);
       if find_prize (req_start Mach s) (ma_machine m) = None \<or> \<not> IsExist (req_start Mach s) (le_cfg env)
       then fail env EN_Result_Invalid_Prize_Id (rsp_start Mach (\<lambda>r. r)) s w1
       else do {
         d \<leftarrow> cur_data s;
         if GetPlayerBuyIn_at d (ma_machine_id m) < cost
         then fail env EN_Result_Gold_Not_Enough (rsp_start Mach (\<lambda>r. r)) s w1
         else do {
           (left, s1, w2) \<leftarrow> on_account (PlayerSubBuyIn (GetTime (me_now env)) EN_Acc_Lip_Play cost (ma_machine_id m)) s w1;
           Some (H_Save, rsp (rsp_start Mach (\<lambda>r. r\<lparr>rs_left_buy_in := left, rs_retry_timeout := get0 (lp_retry_timeout info),
               rs_retry_switch := getF (lp_retry_switch info), rs_round_timeouts := lp_round_timeouts info,
               rs_round_knives := lp_round_knives info\<rparr>)) s1, w2) } } } }"

text \<open>The draw: whether this game may be won.\<close>

definition draw :: "lip_env \<Rightarrow> pb_db_data \<Rightarrow> u64 \<Rightarrow> db_prize \<Rightarrow> session \<Rightarrow> lip_world \<Rightarrow> (bool \<times> lip_world) option" where
  "draw env d cost z s w = do {
     (value, _) \<leftarrow> GetPrize (pz_id z) (le_cfg env);
     promoter \<leftarrow> GetDBData 1 s;
     let (r, w1) = w_rand w;
     Some (r mod 100000 < unat (le_prize_rate env d cost (pz_rate z) value promoter), w1) }"

definition StartGame_OnSaveSuccess :: lstep where
  "StartGame_OnSaveSuccess env s w = do {
     m \<leftarrow> get_machine (s_uid s) w;
     if ma_game_state m \<noteq> Wait_Start then fail env EN_Result_Machine_State_Diff (rsp_start Mach (\<lambda>r. r)) s w
     else (case find_prize (req_start Mach s) (ma_machine m) of
       None \<Rightarrow> fail env EN_Result_Invalid_Prize_Id (rsp_start Mach (\<lambda>r. r)) s w
     | Some z \<Rightarrow>
       if \<not> IsExist (req_start Mach s) (le_cfg env) then fail env EN_Result_Invalid_Prize_Id (rsp_start Mach (\<lambda>r. r)) s w
       else do {
         let info = linfo (ma_machine m);
         let cost = get0 (lp_cost info);
         let timeout = SumRepeated32 (lp_round_timeouts info) 0 + get0 (lp_retry_timeout info);
         let w1 = m_wait env (s_uid s) (timeout * 2) (InEndTimeout (ma_machine_id m)) Wait_End (w_ReleaseTimer (ma_timer_id m) w);
         let d = count_income cost (ma_machine m);
         let w2 = upd_machine (s_uid s) (\<lambda>m. m\<lparr>ma_total_consume := ma_total_consume m + cost,
               ma_update_time := GetTime (me_now env), ma_retry_time := 0, ma_machine := d\<rparr>) w1;
         let w3 = w_internal env (InUpdateMachinePrize (ma_machine_id m) None None (Some (mb_total_income (m_base_info d)))) w2;
         (win, w4) \<leftarrow> draw env d cost z s w3;
         reply env (rsp (rsp_start Mach (\<lambda>r. r\<lparr>rs_can_get_prize := win\<rparr>)) s)
           (upd_machine (s_uid s) (\<lambda>m. m\<lparr>ma_can_get_prize := win, ma_prize_id := req_start Mach s\<rparr>) w4) }) }"

subsection \<open>Going on after a failure\<close>

definition RetryGame_OnMessage :: lstep where
  "RetryGame_OnMessage env s w = do {
     m \<leftarrow> get_machine (s_uid s) w;
     let info = linfo (ma_machine m);
     if \<not> getF (lp_retry_switch info) \<or> ma_game_state m \<noteq> Wait_End
     then fail env EN_Result_Machine_State_Diff (rsp_retry Mach (\<lambda>r. r)) s w
     else (let w1 = m_refresh env (s_uid s) w in
       if req_retry Mach s = 0 \<or> unat (req_retry Mach s) > length (lp_round_timeouts info)
       then fail env EN_Result_Invalid_Params (rsp_retry Mach (\<lambda>r. r)) s w1
       else if ma_retry_time m \<ge> get0 (lp_max_retry_time info)
       then fail env EN_Result_Invalid_Req (rsp_retry Mach (\<lambda>r. r)) s w1
       else Some (H_Query, AddQueryKey (m_promoter m) kPBaseInfo (AddQueryKey (ma_player_id m) kGoldInfo
             (AddQueryKey (ma_player_id m) kBaseInfo s)), w1)) }"

definition RetryGame_OnQuerySuccess :: lstep where
  "RetryGame_OnQuerySuccess env s w = do {
     m \<leftarrow> get_machine (s_uid s) w;
     if ma_game_state m \<noteq> Wait_End then fail env EN_Result_Machine_State_Diff (rsp_retry Mach (\<lambda>r. r)) s w
     else do {
       let w1 = m_refresh env (s_uid s) w;
       let cost = get0 (lp_cost (linfo (ma_machine m)));
       if find_prize (ma_prize_id m) (ma_machine m) = None \<or> \<not> IsExist (ma_prize_id m) (le_cfg env)
       then fail env EN_Result_Invalid_Prize_Id (rsp_retry Mach (\<lambda>r. r)) s w1
       else do {
         d \<leftarrow> cur_data s;
         if GetPlayerBuyIn_at d (ma_machine_id m) < cost
         then fail env EN_Result_Gold_Not_Enough (rsp_retry Mach (\<lambda>r. r)) s w1
         else do {
           (left, s1, w2) \<leftarrow> on_account (PlayerSubBuyIn (GetTime (me_now env)) EN_Acc_Lip_Retry cost (ma_machine_id m)) s w1;
           Some (H_Save, rsp (rsp_retry Mach (\<lambda>r. r\<lparr>rr_left_buy_in := left\<rparr>)) s1, w2) } } } }"

text \<open>\<open>total_time + GetTime() - update_time\<close>, in 32 bits.\<close>

definition m_fail_time :: "lip_env \<Rightarrow> machine \<Rightarrow> machine" where
  "m_fail_time env m = m\<lparr>ma_total_fail := ma_total_fail m + 1,
     ma_total_time := ma_total_time m + GetTime (me_now env) - ma_update_time m\<rparr>"

definition RetryGame_OnSaveSuccess :: lstep where
  "RetryGame_OnSaveSuccess env s w = do {
     m \<leftarrow> get_machine (s_uid s) w;
     if ma_game_state m \<noteq> Wait_End then fail env EN_Result_Machine_State_Diff (rsp_retry Mach (\<lambda>r. r)) s w
     else (case find_prize (ma_prize_id m) (ma_machine m) of
       None \<Rightarrow> fail env EN_Result_Invalid_Prize_Id (rsp_retry Mach (\<lambda>r. r)) s w
     | Some z \<Rightarrow>
       if \<not> IsExist (ma_prize_id m) (le_cfg env) then fail env EN_Result_Invalid_Prize_Id (rsp_retry Mach (\<lambda>r. r)) s w
       else do {
         let info = linfo (ma_machine m);
         let cost = get0 (lp_cost info);
         let timeout = SumRepeated32 (lp_round_timeouts info) (unat (req_retry Mach s - 1)) + get0 (lp_retry_timeout info);
         let w1 = m_wait env (s_uid s) (timeout * 2) (InEndTimeout (ma_machine_id m)) Wait_End (w_ReleaseTimer (ma_timer_id m) w);
         let d = count_income cost (ma_machine m);
         let w2 = upd_machine (s_uid s) (\<lambda>m. (m_fail_time env m)\<lparr>ma_total_consume := ma_total_consume m + cost,
               ma_update_time := GetTime (me_now env), ma_retry_time := ma_retry_time m + 1, ma_machine := d\<rparr>) w1;
         let w3 = w_internal env (InUpdateMachinePrize (ma_machine_id m) None None (Some (mb_total_income (m_base_info d)))) w2;
         (win, w4) \<leftarrow> draw env d cost z s w3;
         reply env (rsp (rsp_retry Mach (\<lambda>r. r\<lparr>rr_retry_time := ma_retry_time m + 1, rr_can_get_prize := win\<rparr>)) s)
           (upd_machine (s_uid s) (\<lambda>m. m\<lparr>ma_can_get_prize := win\<rparr>) w4) }) }"

subsection \<open>End of a game\<close>

definition EndGame_OnMessage :: lstep where
  "EndGame_OnMessage env s w = do {
     m \<leftarrow> get_machine (s_uid s) w;
     if ma_game_state m \<noteq> Wait_End then fail env EN_Result_Machine_State_Diff (rsp_end Mach (\<lambda>r. r)) s w
     else Some (H_Query, AddQueryKey (m_promoter m) kPBaseInfo (AddQueryKey (ma_player_id m) kPrizeInfo
             (AddQueryKey (ma_player_id m) kGoldInfo s)), m_refresh env (s_uid s) w) }"

text \<open>The next game: the machine waits for its start.\<close>

definition next_game :: "lip_env \<Rightarrow> u64 \<Rightarrow> machine \<Rightarrow> u32 \<Rightarrow> lip_world \<Rightarrow> lip_world" where
  "next_game env uid m timeout w = m_wait env uid timeout (InStartTimeout (ma_machine_id m)) Wait_Start w"

text \<open>The guaranteed purchase is offered.\<close>

definition buy_rsp :: "channel \<Rightarrow> lip_env \<Rightarrow> u64 \<Rightarrow> u64 \<Rightarrow> u32 \<Rightarrow> cs_body option \<Rightarrow> cs_body" where
  "buy_rsp ch env pid consume timeout = rsp_end ch (\<lambda>r. r\<lparr>re_next_step := 3, re_timeout := timeout,
     re_buy_cost := buy_cost (prize_value env pid) consume, re_prize_id := pid\<rparr>)"

definition EndGame_OnQuerySuccess :: lstep where
  "EndGame_OnQuerySuccess env s w = do {
     m \<leftarrow> get_machine (s_uid s) w;
     if ma_game_state m \<noteq> Wait_End then fail env EN_Result_Machine_State_Diff (rsp_end Mach (\<lambda>r. r)) s w
     else (let w1 = m_refresh env (s_uid s) w in case find_prize (ma_prize_id m) (ma_machine m) of
       None \<Rightarrow> fail env EN_Result_Invalid_Prize_Id (rsp_end Mach (\<lambda>r. r)) s w1
     | Some z \<Rightarrow>
       if \<not> IsExist (ma_prize_id m) (le_cfg env) then fail env EN_Result_Invalid_Prize_Id (rsp_end Mach (\<lambda>r. r)) s w1
       else if \<not> req_end Mach s then do {
         let info = linfo (ma_machine m);
         let w2 = upd_machine (s_uid s) (m_fail_time env) w1;
         m1 \<leftarrow> get_machine (s_uid s) w2;
         pays \<leftarrow> (if getF (lp_lottery_switch info)
                 then map_option (le_lottery_pays env (ma_machine m) (pz_rate z)) (GetDBData 1 s) else Some False);
         let w3 = w_ReleaseTimer (ma_timer_id m1) w2;
         if pays then
           reply env (rsp (rsp_end Mach (\<lambda>r. r\<lparr>re_next_step := 2, re_timeout := get0 (lp_lottery_timeout info)\<rparr>)) s)
             (m_wait env (s_uid s) (get0 (lp_lottery_timeout info) * 2) (InLotteryTimeout (ma_machine_id m)) Wait_Lottery w3)
         else if buy_offered env (ma_machine m1) (ma_prize_id m1) (ma_total_consume m1) (ma_total_fail m1) (ma_total_time m1) then
           reply env (rsp (buy_rsp Mach env (ma_prize_id m1) (ma_total_consume m1) (get0 (lp_buy_timeout info))) s)
             (m_wait env (s_uid s) (get0 (lp_buy_timeout info)) (InBuyTimeout (ma_machine_id m)) Wait_Buy w3)
         else
           reply env (rsp (rsp_end Mach (\<lambda>r. r\<lparr>re_next_step := 1, re_timeout := get0 (lp_start_timeout info)\<rparr>)) s)
             (next_game env (s_uid s) m (get0 (lp_start_timeout info)) w3) }
       else if \<not> ma_can_get_prize m then do {
         m1 \<leftarrow> get_machine (s_uid s) w1;
         let timeout = get0 (lp_start_timeout (linfo (ma_machine m)));
         fail env EN_Result_Sys_Err (rsp_end Mach (\<lambda>r. r\<lparr>re_next_step := 1, re_timeout := timeout\<rparr>)) s
           (next_game env (s_uid s) m timeout (w_ReleaseTimer (ma_timer_id m1) w1)) }
       else do {
         (_, s1, w2) \<leftarrow> on_account (\<lambda>a. ((), PlayerAddPrize (le_cfg env) (ma_prize_id m) 1 a)) s w1;
         Some (H_Save, s1, w2) }) }"

text \<open>A prize goes to the shell script for the player and into the machine's totals.\<close>

definition report_prize :: "lip_env \<Rightarrow> u64 \<Rightarrow> u64 \<Rightarrow> lip_world \<Rightarrow> lip_world option" where
  "report_prize env uid pid w = (case GetPrize pid (le_cfg env) of
     None \<Rightarrow> Some w
   | Some (value, _) \<Rightarrow> do {
       m \<leftarrow> get_machine uid w;
       let d = count_prize value (ma_machine m);
       Some (w_internal env (InUpdateMachinePrize (ma_machine_id m) (Some (ucast (mb_total_prize_value (m_base_info d))))
                (Some (mb_total_prize_num (m_base_info d))) None) (upd_machine uid (\<lambda>m. m\<lparr>ma_machine := d\<rparr>) w)) })"

definition EndGame_OnSaveSuccess :: lstep where
  "EndGame_OnSaveSuccess env s w = do {
     m \<leftarrow> get_machine (s_uid s) w;
     if ma_game_state m \<noteq> Wait_End then fail env EN_Result_Machine_State_Diff (rsp_end Mach (\<lambda>r. r)) s w
     else do {
       let info = linfo (ma_machine m);
       d \<leftarrow> cur_data s;
       let w1 = next_game env (s_uid s) m (get0 (lp_start_timeout info) + get0 (lp_game_succ_timeout info))
             (w_ReleaseTimer (ma_timer_id m) w);
       let w2 = upd_machine (s_uid s) (\<lambda>m. m\<lparr>ma_total_fail := 0, ma_total_time := 0\<rparr>) w1;
       let (_, s1, w3) = SendMsgToClient env False (rsp (rsp_end Mach (\<lambda>r. r\<lparr>re_next_step := 1,
             re_timeout := get0 (lp_start_timeout info), re_game_succ_timeout := get0 (lp_game_succ_timeout info),
             re_prize_id := ma_prize_id m, re_prize_num := GetPlayerPrizeNum d\<rparr>)) s) w2;
       w4 \<leftarrow> report_prize env (s_uid s) (ma_prize_id m) (w_wechat (ma_player_id m) EN_Award_Prize (ma_prize_id m) 1 w3);
       Some (H_Done, s1, w4) } }"

subsection \<open>Lottery\<close>

text \<open>The first award whose running sum of rates exceeds the number drawn, with its index; nothing when there is
  none or it is empty.\<close>

definition pick_award :: "nat \<Rightarrow> pb_db_data \<Rightarrow> cs_rsp_lottery \<Rightarrow> cs_rsp_lottery" where
  "pick_award r d rs =
     (let awards = lp_lottery_awards (linfo d);
          rs1 = (case index_of (\<lambda>a. r < unat (la_sum_rate a)) awards of
                   None \<Rightarrow> rs
                 | Some i \<Rightarrow> rs\<lparr>rl_awards := la_awards (awards ! i), rl_award_index := of_nat i\<rparr>)
      in if rl_awards rs1 = []
         then rs1\<lparr>rl_awards := [\<lparr>aw_type = EN_Award_None, aw_id = 0, aw_charge_num = 0, aw_giving_num = 0\<rparr>], rl_award_index := - 1\<rparr>
         else rs1)"

definition Lottery_OnMessage :: lstep where
  "Lottery_OnMessage env s w = do {
     m \<leftarrow> get_machine (s_uid s) w;
     if \<not> getF (lp_lottery_switch (linfo (ma_machine m))) \<or> ma_game_state m \<noteq> Wait_Lottery
     then fail env EN_Result_Machine_State_Diff (rsp_lottery Mach (\<lambda>r. r)) s w
     else do {
       let (r, w1) = w_rand (m_refresh env (s_uid s) w);
       let s1 = rsp (rsp_lottery Mach (pick_award (r mod 10000) (ma_machine m))) s;
       let awards = rl_awards (get_lottery Mach (cs_body (se_cs_response s1)));
       let w2 = upd_machine (s_uid s) (\<lambda>m. m\<lparr>ma_lottery_awards := awards\<rparr>) w1;
       m1 \<leftarrow> get_machine (s_uid s) w2;
       if aw_type (hd awards) = EN_Award_None then
         reply env (rsp (rsp_lottery Mach (\<lambda>r. r\<lparr>rl_timeout := 10\<rparr>)) s1)
           (m_wait env (s_uid s) 20 (InLotteryEndTimeout (ma_machine_id m)) Wait_Lottery_End (w_ReleaseTimer (ma_timer_id m1) w2))
       else Some (H_Query, AddQueryKey (ma_player_id m) kPrizeInfo (AddQueryKey (ma_player_id m) kGoldInfo s1), w2) } }"

definition Lottery_OnQuerySuccess :: lstep where
  "Lottery_OnQuerySuccess env s w = do {
     m \<leftarrow> get_machine (s_uid s) w;
     if ma_game_state m \<noteq> Wait_Lottery then fail env EN_Result_Machine_State_Diff (rsp_lottery Mach (\<lambda>r. r)) s w
     else do {
       (_, s1, w1) \<leftarrow> on_account (\<lambda>a. ((), PlayerAddAwards (le_cfg env) (GetTime (me_now env)) EN_Acc_Lip_Lottery
             (rl_awards (get_lottery Mach (cs_body (se_cs_response s)))) a)) s (m_refresh env (s_uid s) w);
       d \<leftarrow> cur_data s1;
       Some (H_Save, rsp (rsp_lottery Mach (\<lambda>r. r\<lparr>rl_prize_num := GetPlayerPrizeNum d\<rparr>)) s1, w1) } }"

definition Lottery_OnSaveSuccess :: lstep where
  "Lottery_OnSaveSuccess env s w = do {
     m \<leftarrow> get_machine (s_uid s) w;
     if ma_game_state m \<noteq> Wait_Lottery then fail env EN_Result_Machine_State_Diff (rsp_lottery Mach (\<lambda>r. r)) s w
     else do {
       let w1 = m_wait env (s_uid s) 20 (InLotteryEndTimeout (ma_machine_id m)) Wait_Lottery_End (w_ReleaseTimer (ma_timer_id m) w);
       let (_, s1, w2) = SendMsgToClient env False (rsp (rsp_lottery Mach (\<lambda>r. r\<lparr>rl_timeout := 10\<rparr>)) s) w1;
       case rl_awards (get_lottery Mach (cs_body (se_cs_response s1))) of
         [] \<Rightarrow> None
       | a # _ \<Rightarrow> do {
           let w3 = w_wechat (ma_player_id m) (aw_type a) (aw_id a) (aw_giving_num a) w2;
           w4 \<leftarrow> (if aw_type a = EN_Award_Prize then report_prize env (s_uid s) (aw_id a) w3 else Some w3);
           Some (H_Done, s1, w4) } } }"

text \<open>The time the lottery's animation takes depends on what was won.\<close>

definition ani_timeout :: "machine \<Rightarrow> u32 option" where
  "ani_timeout m = (case ma_lottery_awards m of
     [] \<Rightarrow> None
   | a # _ \<Rightarrow> Some (if aw_type a = EN_Award_Prize then get0 (lp_lottery_ani_timeout (linfo (ma_machine m))) else 10))"

definition LotteryEnd_OnMessage :: lstep where
  "LotteryEnd_OnMessage env s w = do {
     m \<leftarrow> get_machine (s_uid s) w;
     if ma_game_state m \<noteq> Wait_Lottery_End then fail env EN_Result_Machine_State_Diff (rsp_lottery_end Mach) s w
     else do {
       timeout \<leftarrow> ani_timeout m;
       reply env (rsp (\<lambda>_. CsRspLotteryEnd Mach timeout) s)
         (m_wait env (s_uid s) timeout (InLotteryAniTimeout (ma_machine_id m)) Wait_Lottery_Ani (w_ReleaseTimer (ma_timer_id m) w)) } }"

subsection \<open>The guaranteed purchase\<close>

text \<open>The answer to a declined offer is an \<open>CSRspEndLipstick\<close>.\<close>

definition BuyPrize_OnMessage :: lstep where
  "BuyPrize_OnMessage env s w = do {
     m \<leftarrow> get_machine (s_uid s) w;
     if \<not> getF (lp_buy_switch (linfo (ma_machine m))) \<or> ma_game_state m \<noteq> Wait_Buy
     then fail env EN_Result_Machine_State_Diff (rsp_buy Mach (\<lambda>r. r)) s w
     else do {
       let w1 = m_refresh env (s_uid s) w;
       m1 \<leftarrow> get_machine (s_uid s) w1;
       let timeout = get0 (lp_start_timeout (linfo (ma_machine m)));
       if \<not> req_buy Mach s then
         reply env (rsp (rsp_end Mach (\<lambda>r. r\<lparr>re_next_step := 1, re_timeout := timeout\<rparr>)) s)
           (next_game env (s_uid s) m timeout (w_ReleaseTimer (ma_timer_id m1) w1))
       else Some (H_Query, AddQueryKey (ma_player_id m) kPrizeInfo (AddQueryKey (ma_player_id m) kGoldInfo
               (AddQueryKey (ma_player_id m) kBaseInfo s)), w1) } }"

definition BuyPrize_OnQuerySuccess :: lstep where
  "BuyPrize_OnQuerySuccess env s w = do {
     m \<leftarrow> get_machine (s_uid s) w;
     if ma_game_state m \<noteq> Wait_Buy then fail env EN_Result_Machine_State_Diff (rsp_buy Mach (\<lambda>r. r)) s w
     else (let w1 = m_refresh env (s_uid s) w in case GetPrize (ma_prize_id m) (le_cfg env) of
       None \<Rightarrow> fail env EN_Result_Gold_Not_Enough (rsp_buy Mach (\<lambda>r. r)) s w1
     | Some (value, _) \<Rightarrow> do {
         let cost = buy_cost value (ma_total_consume m);
         d \<leftarrow> cur_data s;
         if GetPlayerBuyIn_at d (ma_machine_id m) < cost
         then fail env EN_Result_Gold_Not_Enough (rsp_buy Mach (\<lambda>r. r)) s w1
         else do {
           (_, s1, w2) \<leftarrow> (if cost = 0 then Some (0, s, w1)
             else on_account (PlayerSubBuyIn (GetTime (me_now env)) EN_Acc_Lip_Retry cost (ma_machine_id m)) s w1);
           (_, s2, w3) \<leftarrow> on_account (\<lambda>a. ((), PlayerAddPrize (le_cfg env) (ma_prize_id m) 1 a)) s1 w2;
           Some (H_Save, s2, w3) } }) }"

definition count_purchase :: "u64 \<Rightarrow> u64 \<Rightarrow> pb_db_data \<Rightarrow> pb_db_data" where
  "count_purchase value cost d = count_prize value (if cost = 0 then d else count_income cost d)"

definition purchase_msg :: "u64 \<Rightarrow> u64 \<Rightarrow> pb_db_data \<Rightarrow> internal_body" where
  "purchase_msg mid cost d = InUpdateMachinePrize mid (Some (ucast (mb_total_prize_value (m_base_info d))))
     (Some (mb_total_prize_num (m_base_info d))) (if cost = 0 then None else Some (mb_total_income (m_base_info d)))"

definition BuyPrize_OnSaveSuccess :: lstep where
  "BuyPrize_OnSaveSuccess env s w = do {
     m \<leftarrow> get_machine (s_uid s) w;
     if ma_game_state m \<noteq> Wait_Buy then fail env EN_Result_Machine_State_Diff (rsp_buy Mach (\<lambda>r. r)) s w
     else do {
       let timeout = get0 (lp_buy_ani_timeout (linfo (ma_machine m)));
       let w1 = m_wait env (s_uid s) timeout (InBuyAniTimeout (ma_machine_id m)) Wait_Buy_Ani (w_ReleaseTimer (ma_timer_id m) w);
       let w2 = upd_machine (s_uid s) (\<lambda>m. m\<lparr>ma_total_fail := 0, ma_total_time := 0\<rparr>) w1;
       let w3 = (case GetPrize (ma_prize_id m) (le_cfg env) of
             None \<Rightarrow> w2
           | Some (value, _) \<Rightarrow>
               (let cost = buy_cost value (ma_total_consume m); d = count_purchase value cost (ma_machine m);
                    sub = (if value > ma_total_consume m then ma_total_consume m else value)
                in upd_machine (s_uid s) (\<lambda>m. m\<lparr>ma_machine := d, ma_total_consume := ma_total_consume m - sub\<rparr>)
                     (w_internal env (purchase_msg (ma_machine_id m) cost d) w2)));
       d \<leftarrow> cur_data s;
       reply env (rsp (rsp_buy Mach (\<lambda>r. r\<lparr>rb_prize_id := ma_prize_id m, rb_prize_num := GetPlayerPrizeNum d,
             rb_left_buy_in := GetPlayerBuyIn_at d (ma_machine_id m), rb_timeout := timeout\<rparr>)) s)
         (w_wechat (ma_player_id m) EN_Award_Prize (ma_prize_id m) 1 w3) } }"

subsection \<open>Logout of the player\<close>

definition PlayerLogout_OnMessage :: lstep where
  "PlayerLogout_OnMessage env s w = do {
     m \<leftarrow> get_machine (s_uid s) w;
     if ma_game_state m = Wait_End \<or> ma_game_state m = Wait_Player
     then fail env EN_Result_Machine_State_Diff (\<lambda>_. CsRspPlayerLogout Mach) s w
     else do {
       let w1 = upd_machine (s_uid s) (\<lambda>m. m\<lparr>ma_game_state := Wait_Player\<rparr>) (w_ReleaseTimer (ma_timer_id m) w);
       (r, s1, w2) \<leftarrow> reply env (rsp (\<lambda>_. CsRspPlayerLogout Mach) s) w1;
       Some (r, s1, w_internal env (InClearBuyIn (ma_player_id m) (ma_machine_id m)) w2) } }"

subsection \<open>The handlers\<close>

definition lip_base :: "lip_env \<Rightarrow> lip_world handler" where
  "lip_base env = base_handler env"

definition HandlerHeartBeat :: "lip_env \<Rightarrow> lip_world handler" where
  "HandlerHeartBeat env = (lip_base env)\<lparr>h_OnMessage := HeartBeat_OnMessage env\<rparr>"

definition full_handler :: "lip_env \<Rightarrow> lstep \<Rightarrow> lstep \<Rightarrow> lstep \<Rightarrow> lip_world handler" where
  "full_handler env on_msg on_query on_save =
     (lip_base env)\<lparr>h_OnMessage := on_msg env, h_OnQuerySuccess := on_query env, h_OnSaveSuccess := on_save env\<rparr>"

definition HandlerMLoginGame :: "lip_env \<Rightarrow> lip_world handler" where
  "HandlerMLoginGame env = full_handler env MLoginGame_OnMessage MLoginGame_OnQuerySuccess MLoginGame_OnSaveSuccess"

definition HandlerPlayerLogin :: "lip_env \<Rightarrow> lip_world handler" where
  "HandlerPlayerLogin env = full_handler env PlayerLogin_OnMessage PlayerLogin_OnQuerySuccess PlayerLogin_OnSaveSuccess"

definition HandlerPlayerBuyIn :: "lip_env \<Rightarrow> lip_world handler" where
  "HandlerPlayerBuyIn env = full_handler env PlayerBuyIn_OnMessage PlayerBuyIn_OnQuerySuccess PlayerBuyIn_OnSaveSuccess"

definition HandlerStartGame :: "lip_env \<Rightarrow> lip_world handler" where
  "HandlerStartGame env = full_handler env StartGame_OnMessage StartGame_OnQuerySuccess StartGame_OnSaveSuccess"

definition HandlerRetryGame :: "lip_env \<Rightarrow> lip_world handler" where
  "HandlerRetryGame env = full_handler env RetryGame_OnMessage RetryGame_OnQuerySuccess RetryGame_OnSaveSuccess"

definition HandlerEndGame :: "lip_env \<Rightarrow> lip_world handler" where
  "HandlerEndGame env = full_handler env EndGame_OnMessage EndGame_OnQuerySuccess EndGame_OnSaveSuccess"

definition HandlerLottery :: "lip_env \<Rightarrow> lip_world handler" where
  "HandlerLottery env = full_handler env Lottery_OnMessage Lottery_OnQuerySuccess Lottery_OnSaveSuccess"

definition HandlerBuyPrize :: "lip_env \<Rightarrow> lip_world handler" where
  "HandlerBuyPrize env = full_handler env BuyPrize_OnMessage BuyPrize_OnQuerySuccess BuyPrize_OnSaveSuccess"

definition HandlerLotteryEnd :: "lip_env \<Rightarrow> lip_world handler" where
  "HandlerLotteryEnd env = (lip_base env)\<lparr>h_OnMessage := LotteryEnd_OnMessage env\<rparr>"

definition HandlerPlayerLogout :: "lip_env \<Rightarrow> lip_world handler" where
  "HandlerPlayerLogout env = (lip_base env)\<lparr>h_OnMessage := PlayerLogout_OnMessage env\<rparr>"

end
