(* ===== verification/LipstickH5.thy ===== *)
theory LipstickH5
  imports LipstickMachine
begin

text \<open>
  svr/lipsticksvr/message_handler_h5.cpp: the handlers of the players who play in the browser. A
  player has a machine of his own, a number \<open>H5MachineManager\<close> gives out, with the settings of
  his promoter; the price is the prize's and is paid in gold.
\<close>

definition p_promoter :: "player \<Rightarrow> u64" where
  "p_promoter p = get0 (mb_promoter_id (m_base_info (py_machine p)))"

subsection \<open>Login\<close>

definition LoginGameH5_OnMessage :: lstep where
  "LoginGameH5_OnMessage env s w =
     (let (r, w1) = H5_Alloc env w; empty = (\<lambda>_. CsRspLoginGame \<lparr>lg_heart_beat_interval = 0, lg_gold = 0,
            lg_lipstick_info = None, lg_prize_num = 0\<rparr>) in
      if r = - 1 then
        (let (_, s1, w2) = SendMsgToClient env True (rsp empty (set_result EN_Result_Server_Full s)) w1 in Some (H_Done, s1, w2))
      else Some (H_Query, (AddQueryKey (scast r) kMBaseInfo (AddQueryKey (s_uid s) kPrizeInfo (AddQueryKey (s_uid s) kGoldInfo
             (AddQueryKey (s_uid s) kBaseInfo s))))\<lparr>se_logic_state := 1\<rparr>, w1))"

definition LoginGameH5_OnQuerySuccess :: lstep where
  "LoginGameH5_OnQuerySuccess env s w = do {
     d \<leftarrow> cur_data s;
     if se_logic_state s = 1 then
       Some (H_Query, (AddQueryKey (bi_promoter_id (base_info d)) kMLipstickInfo s)\<lparr>se_logic_state := 2\<rparr>, w)
     else if se_logic_state s = 2 then do {
       let w1 = kick_elsewhere env d (bi_machine_id (base_info d) = None \<and> bi_gamesvr_type (base_info d) = Some (me_svr_type env)
             \<and> get0 (bi_gamesvr_id (base_info d)) = me_svr_id env) w;
       s1 \<leftarrow> set_cur_data (mut_base_info (\<lambda>b. b\<lparr>bi_gamesvr_type := Some (me_svr_type env), bi_gamesvr_id := Some (me_svr_id env)\<rparr>)) s;
       Some (H_Save, s1, w1) }
     else Some (H_Done, s, w) }"

definition LoginGameH5_OnSaveSuccess :: lstep where
  "LoginGameH5_OnSaveSuccess env s w = do {
     machine \<leftarrow> GetDBData 2 s;
     d \<leftarrow> cur_data s;
     algo \<leftarrow> GetDBData 1 s;
     p \<leftarrow> get_player (s_uid s) w;
     let info = linfo machine;
     let view = \<lparr>li_cost = 0, li_prize_ids = [], li_lotterys = map la_awards (lp_lottery_awards info),
           li_max_retry_time = get0 (lp_max_retry_time info)\<rparr>;
     let pm = mut_m_base_info (\<lambda>b. (m_base_info algo)\<lparr>mb_promoter_id := Some (bi_promoter_id (base_info d))\<rparr>)
           (machine\<lparr>d_uid := Some (get0 (d_uid algo))\<rparr>);
     reply env (rsp (\<lambda>_. CsRspLoginGame \<lparr>lg_heart_beat_interval = le_heart_beat_interval env, lg_gold = gi_gold (gold_info d),
           lg_lipstick_info = Some view, lg_prize_num = GetPlayerPrizeNum d\<rparr>) s)
       (upd_player (s_uid s) (\<lambda>p. p\<lparr>py_machine := pm, py_game_state := Wait_Start, py_total_consume := 0,
          py_total_fail := 0, py_total_time := 0\<rparr>) w) }"

subsection \<open>Start of a game\<close>

definition StartGameH5_OnMessage :: lstep where
  "StartGameH5_OnMessage env s w = do {
     p \<leftarrow> get_player (s_uid s) w;
     Some (H_Query, AddQueryKey (p_promoter p) kPBaseInfo (AddQueryKey (s_uid s) kGoldInfo (AddQueryKey (s_uid s) kBaseInfo s)), w) }"

definition StartGameH5_OnQuerySuccess :: lstep where
  "StartGameH5_OnQuerySuccess env s w = do {
     p \<leftarrow> get_player (s_uid s) w;
     if py_game_state p \<noteq> Wait_Start then fail env EN_Result_Machine_State_Diff (rsp_start H5 (\<lambda>r. r)) s w
     else (let w1 = p_refresh env (s_uid s) w; info = linfo (py_machine p) in case find_prize (req_start H5 s) (py_machine p) of
       None \<Rightarrow> fail env EN_Result_Invalid_Prize_Id (rsp_start H5 (\<lambda>r. r)) s w1
     | Some z \<Rightarrow>
       if \<not> IsExist (req_start H5 s) (le_cfg env) then fail env EN_Result_Invalid_Prize_Id (rsp_start H5 (\<lambda>r. r)) s w1
       else do {
         d \<leftarrow> cur_data s;
         if gi_gold (gold_info d) < pz_cost z then fail env EN_Result_Gold_Not_Enough (rsp_start H5 (\<lambda>r. r)) s w1
         else do {
           (left, s1, w2) \<leftarrow> on_account (PlayerSubGold (GetTime (me_now env)) EN_Acc_Lip_Play (pz_cost z)) s w1;
           Some (H_Save, rsp (rsp_start H5 (\<lambda>r. r\<lparr>rs_left_buy_in := left, rs_retry_timeout := get0 (lp_retry_timeout info),
               rs_retry_switch := getF (lp_retry_switch info), rs_round_timeouts := lp_round_timeouts info,
               rs_round_knives := lp_round_knives info\<rparr>)) s1, w2) } }) }"

text \<open>The session's last response is not told whether the game may be won.\<close>

definition StartGameH5_OnSaveSuccess :: lstep where
  "StartGameH5_OnSaveSuccess env s w = do {
     p \<leftarrow> get_player (s_uid s) w;
     if py_game_state p \<noteq> Wait_Start then fail env EN_Result_Machine_State_Diff (rsp_start H5 (\<lambda>r. r)) s w
     else (case find_prize (req_start H5 s) (py_machine p) of
       None \<Rightarrow> fail env EN_Result_Invalid_Prize_Id (rsp_start H5 (\<lambda>r. r)) s w
     | Some z \<Rightarrow>
       if \<not> IsExist (req_start H5 s) (le_cfg env) then fail env EN_Result_Invalid_Prize_Id (rsp_start H5 (\<lambda>r. r)) s w
       else do {
         let info = linfo (py_machine p);
         let timeout = SumRepeated32 (lp_round_timeouts info) 0 + get0 (lp_retry_timeout info);
         let w1 = p_wait env (s_uid s) (timeout * 2) (InEndTimeout (py_player_id p)) Wait_End w;
         let d = count_income (pz_cost z) (py_machine p);
         let w2 = upd_player (s_uid s) (\<lambda>p. p\<lparr>py_pre_end := False, py_total_consume := py_total_consume p + pz_cost z,
               py_update_time := GetTime (me_now env), py_retry_time := 0, py_machine := d\<rparr>) w1;
         let w3 = w_internal env (InUpdateMachinePrize (get0 (d_uid d)) None None (Some (mb_total_income (m_base_info d)))) w2;
         (win, w4) \<leftarrow> draw env d (pz_cost z) z s w3;
         reply env s (upd_player (s_uid s) (\<lambda>p. p\<lparr>py_can_get_prize := win, py_prize_id := req_start H5 s\<rparr>) w4) }) }"

subsection \<open>Going on after a failure\<close>

definition RetryGameH5_OnMessage :: lstep where
  "RetryGameH5_OnMessage env s w = do {
     p \<leftarrow> get_player (s_uid s) w;
     let info = linfo (py_machine p);
     if \<not> getF (lp_retry_switch info) \<or> py_game_state p \<noteq> Wait_End
     then fail env EN_Result_Machine_State_Diff (rsp_retry H5 (\<lambda>r. r)) s w
     else (let w1 = p_refresh env (s_uid s) w in
       if req_retry H5 s = 0 \<or> unat (req_retry H5 s) > length (lp_round_timeouts info)
       then fail env EN_Result_Invalid_Params (rsp_retry H5 (\<lambda>r. r)) s w1
       else if py_retry_time p \<ge> get0 (lp_max_retry_time info)
       then fail env EN_Result_Invalid_Req (rsp_retry H5 (\<lambda>r. r)) s w1
       else Some (H_Query, AddQueryKey (p_promoter p) kPBaseInfo (AddQueryKey (s_uid s) kGoldInfo (AddQueryKey (s_uid s) kBaseInfo s)), w1)) }"

definition RetryGameH5_OnQuerySuccess :: lstep where
  "RetryGameH5_OnQuerySuccess env s w = do {
     p \<leftarrow> get_player (s_uid s) w;
     if py_game_state p \<noteq> Wait_End then fail env EN_Result_Machine_State_Diff (rsp_retry H5 (\<lambda>r. r)) s w
     else (let w1 = p_refresh env (s_uid s) w in case find_prize (py_prize_id p) (py_machine p) of
       None \<Rightarrow> fail env EN_Result_Invalid_Prize_Id (rsp_retry H5 (\<lambda>r. r)) s w1
     | Some z \<Rightarrow>
       if \<not> IsExist (py_prize_id p) (le_cfg env) then fail env EN_Result_Invalid_Prize_Id (rsp_retry H5 (\<lambda>r. r)) s w1
       else do {
         d \<leftarrow> cur_data s;
         if gi_gold (gold_info d) < pz_cost z then fail env EN_Result_Gold_Not_Enough (rsp_retry H5 (\<lambda>r. r)) s w1
         else do {
           (left, s1, w2) \<leftarrow> on_account (PlayerSubGold (GetTime (me_now env)) EN_Acc_Lip_Retry (pz_cost z)) s w1;
           Some (H_Save, rsp (rsp_retry H5 (\<lambda>r. r\<lparr>rr_left_buy_in := left\<rparr>)) s1, w2) } }) }"

definition p_fail_time :: "lip_env \<Rightarrow> player \<Rightarrow> player" where
  "p_fail_time env p = p\<lparr>py_total_fail := py_total_fail p + 1,
     py_total_time := py_total_time p + GetTime (me_now env) - py_update_time p\<rparr>"

definition RetryGameH5_OnSaveSuccess :: lstep where
  "RetryGameH5_OnSaveSuccess env s w = do {
     p \<leftarrow> get_player (s_uid s) w;
     if py_game_state p \<noteq> Wait_End then fail env EN_Result_Machine_State_Diff (rsp_retry H5 (\<lambda>r. r)) s w
     else (case find_prize (py_prize_id p) (py_machine p) of
       None \<Rightarrow> fail env EN_Result_Invalid_Prize_Id (rsp_retry H5 (\<lambda>r. r)) s w
     | Some z \<Rightarrow>
       if \<not> IsExist (py_prize_id p) (le_cfg env) then fail env EN_Result_Invalid_Prize_Id (rsp_retry H5 (\<lambda>r. r)) s w
       else do {
         let info = linfo (py_machine p);
         let timeout = SumRepeated32 (lp_round_timeouts info) (unat (req_retry H5 s - 1)) + get0 (lp_retry_timeout info);
         let w1 = p_wait env (s_uid s) (timeout * 2) (InEndTimeout (py_player_id p)) Wait_End (w_ReleaseTimer (py_timer_id p) w);
         let d = count_income (pz_cost z) (py_machine p);
         let w2 = upd_player (s_uid s) (\<lambda>p. (p_fail_time env p)\<lparr>py_pre_end := False, py_total_consume := py_total_consume p + pz_cost z,
               py_update_time := GetTime (me_now env), py_retry_time := py_retry_time p + 1, py_machine := d\<rparr>) w1;
         let w3 = w_internal env (InUpdateMachinePrize (get0 (d_uid d)) None None (Some (mb_total_income (m_base_info d)))) w2;
         (win, w4) \<leftarrow> draw env d (pz_cost z) z s w3;
         reply env (rsp (rsp_retry H5 (\<lambda>r. r\<lparr>rr_retry_time := py_retry_time p + 1, rr_can_get_prize := win\<rparr>)) s)
           (upd_player (s_uid s) (\<lambda>p. p\<lparr>py_can_get_prize := win\<rparr>) w4) }) }"

subsection \<open>End of a game\<close>

definition EndGameH5_OnMessage :: lstep where
  "EndGameH5_OnMessage env s w = do {
     p \<leftarrow> get_player (s_uid s) w;
     if py_game_state p \<noteq> Wait_End then fail env EN_Result_Machine_State_Diff (rsp_end H5 (\<lambda>r. r)) s w
     else Some (H_Query, AddQueryKey (p_promoter p) kPBaseInfo (AddQueryKey (s_uid s) kPrizeInfo
             (AddQueryKey (s_uid s) kGoldInfo s)), p_refresh env (s_uid s) w) }"

text \<open>The next game starts when the player asks for it.\<close>

definition p_next_game :: "u64 \<Rightarrow> player \<Rightarrow> lip_world \<Rightarrow> lip_world" where
  "p_next_game uid p w = upd_player uid (\<lambda>p. p\<lparr>py_game_state := Wait_Start\<rparr>) (w_ReleaseTimer (py_timer_id p) w)"

definition next_rsp :: "cs_body option \<Rightarrow> cs_body" where
  "next_rsp = rsp_end H5 (\<lambda>r. r\<lparr>re_next_step := 1\<rparr>)"

definition EndGameH5_OnQuerySuccess :: lstep where
  "EndGameH5_OnQuerySuccess env s w = do {
     p \<leftarrow> get_player (s_uid s) w;
     if py_game_state p \<noteq> Wait_End then fail env EN_Result_Machine_State_Diff (rsp_end H5 (\<lambda>r. r)) s w
     else (let w1 = p_refresh env (s_uid s) w in case find_prize (py_prize_id p) (py_machine p) of
       None \<Rightarrow> fail env EN_Result_Invalid_Prize_Id (rsp_end H5 (\<lambda>r. r)) s w1
     | Some z \<Rightarrow>
       if \<not> IsExist (py_prize_id p) (le_cfg env) then fail env EN_Result_Invalid_Prize_Id (rsp_end H5 (\<lambda>r. r)) s w1
       else do {
         p1 \<leftarrow> get_player (s_uid s) w1;
         if \<not> req_end H5 s then do {
           let info = linfo (py_machine p);
           let w2 = w_internal env (InGameRecord (py_player_id p) (py_prize_id p) False) w1;
           pays \<leftarrow> (if getF (lp_lottery_switch info)
                   then map_option (le_lottery_pays env (py_machine p) (pz_rate z)) (GetDBData 1 s) else Some False);
           if pays then
             reply env (rsp (rsp_end H5 (\<lambda>r. r\<lparr>re_next_step := 2, re_timeout := get0 (lp_lottery_timeout info)\<rparr>)) s)
               (upd_player (s_uid s) (p_fail_time env) (p_wait env (s_uid s) (get0 (lp_lottery_timeout info))
                  (InLotteryTimeout (py_player_id p)) Wait_Lottery (w_ReleaseTimer (py_timer_id p1) w2)))
           else if buy_offered env (py_machine p) (py_prize_id p) (py_total_consume p) (py_total_fail p) (py_total_time p) then
             reply env (rsp (buy_rsp H5 env (py_prize_id p) (py_total_consume p) (get0 (lp_buy_timeout info))) s)
               (p_wait env (s_uid s) (get0 (lp_buy_timeout info)) (InBuyTimeout (py_player_id p)) Wait_Buy
                  (w_ReleaseTimer (py_timer_id p1) w2))
           else reply env (rsp next_rsp s) (p_next_game (s_uid s) p1 w2) }
         else if \<not> py_can_get_prize p then
           fail env EN_Result_Sys_Err next_rsp s (p_next_game (s_uid s) p1 w1)
         else do {
           (_, s1, w2) \<leftarrow> on_account (\<lambda>a. ((), PlayerAddPrize (le_cfg env) (py_prize_id p) 1 a)) s w1;
           Some (H_Save, s1, w2) } }) }"

definition p_report_prize :: "lip_env \<Rightarrow> u64 \<Rightarrow> u64 \<Rightarrow> lip_world \<Rightarrow> lip_world option" where
  "p_report_prize env uid pid w = (case GetPrize pid (le_cfg env) of
     None \<Rightarrow> Some w
   | Some (value, _) \<Rightarrow> do {
       p \<leftarrow> get_player uid w;
       let d = count_prize value (py_machine p);
       Some (w_internal env (InUpdateMachinePrize (get0 (d_uid d)) (Some (ucast (mb_total_prize_value (m_base_info d))))
                (Some (mb_total_prize_num (m_base_info d))) None) (upd_player uid (\<lambda>p. p\<lparr>py_machine := d\<rparr>) w)) })"

definition EndGameH5_OnSaveSuccess :: lstep where
  "EndGameH5_OnSaveSuccess env s w = do {
     p \<leftarrow> get_player (s_uid s) w;
     if py_game_state p \<noteq> Wait_End then fail env EN_Result_Machine_State_Diff (rsp_end H5 (\<lambda>r. r)) s w
     else do {
       d \<leftarrow> cur_data s;
       let w1 = upd_player (s_uid s) (\<lambda>p. p\<lparr>py_total_fail := 0, py_total_time := 0\<rparr>) (p_next_game (s_uid s) p w);
       let (_, s1, w2) = SendMsgToClient env False (rsp (rsp_end H5 (\<lambda>r. r\<lparr>re_next_step := 1,
             re_prize_id := py_prize_id p, re_prize_num := GetPlayerPrizeNum d\<rparr>)) s) w1;
       w3 \<leftarrow> p_report_prize env (s_uid s) (py_prize_id p)
             (w_internal env (InGameRecord (py_player_id p) (py_prize_id p) (req_end H5 s)) w2);
       Some (H_Done, s1, w3) } }"

subsection \<open>Lottery\<close>

definition LotteryH5_OnMessage :: lstep where
  "LotteryH5_OnMessage env s w = do {
     p \<leftarrow> get_player (s_uid s) w;
     if \<not> getF (lp_lottery_switch (linfo (py_machine p))) \<or> py_game_state p \<noteq> Wait_Lottery
     then fail env EN_Result_Machine_State_Diff (rsp_lottery H5 (\<lambda>r. r)) s w
     else do {
       let (r, w1) = w_rand (p_refresh env (s_uid s) w);
       p1 \<leftarrow> get_player (s_uid s) w1;
       let s1 = rsp (rsp_lottery H5 (pick_award (r mod 10000) (py_machine p))) s;
       if aw_type (hd (rl_awards (get_lottery H5 (cs_body (se_cs_response s1))))) = EN_Award_None then
         reply env (rsp (rsp_lottery H5 (\<lambda>r. r\<lparr>rl_timeout := 10\<rparr>)) s1)
           (p_wait env (s_uid s) 20 (InLotteryEndTimeout (py_player_id p)) Wait_Lottery_End (w_ReleaseTimer (py_timer_id p1) w1))
       else Some (H_Query, AddQueryKey (s_uid s) kPrizeInfo (AddQueryKey (s_uid s) kGoldInfo s1), w1) } }"

definition LotteryH5_OnQuerySuccess :: lstep where
  "LotteryH5_OnQuerySuccess env s w = do {
     p \<leftarrow> get_player (s_uid s) w;
     if py_game_state p \<noteq> Wait_Lottery then fail env EN_Result_Machine_State_Diff (rsp_lottery H5 (\<lambda>r. r)) s w
     else do {
       (_, s1, w1) \<leftarrow> on_account (\<lambda>a. ((), PlayerAddAwards (le_cfg env) (GetTime (me_now env)) EN_Acc_Lip_Lottery
             (rl_awards (get_lottery H5 (cs_body (se_cs_response s)))) a)) s (p_refresh env (s_uid s) w);
       d \<leftarrow> cur_data s1;
       Some (H_Save, rsp (rsp_lottery H5 (\<lambda>r. r\<lparr>rl_prize_num := GetPlayerPrizeNum d\<rparr>)) s1, w1) } }"

definition LotteryH5_OnSaveSuccess :: lstep where
  "LotteryH5_OnSaveSuccess env s w = do {
     p \<leftarrow> get_player (s_uid s) w;
     if py_game_state p \<noteq> Wait_Lottery then fail env EN_Result_Machine_State_Diff (rsp_lottery H5 (\<lambda>r. r)) s w
     else do {
       let w1 = p_wait env (s_uid s) 20 (InLotteryEndTimeout (py_player_id p)) Wait_Lottery_End (w_ReleaseTimer (py_timer_id p) w);
       let (_, s1, w2) = SendMsgToClient env False (rsp (rsp_lottery H5 (\<lambda>r. r\<lparr>rl_timeout := 10\<rparr>)) s) w1;
       case rl_awards (get_lottery H5 (cs_body (se_cs_response s1))) of
         [] \<Rightarrow> None
       | a # _ \<Rightarrow> do {
           w3 \<leftarrow> (if aw_type a = EN_Award_Prize then p_report_prize env (s_uid s) (aw_id a) w2 else Some w2);
           Some (H_Done, s1, w3) } } }"

text \<open>Two answers: the response as it is, then the next step.\<close>

definition reply_twice :: "lip_env \<Rightarrow> (cs_body option \<Rightarrow> cs_body) \<Rightarrow> session \<Rightarrow> lip_world \<Rightarrow> (hresult \<times> session \<times> lip_world) option" where
  "reply_twice env f s w = (let (_, s1, w1) = SendMsgToClient env False s w in reply env (rsp f s1) w1)"

definition LotteryEndH5_OnMessage :: lstep where
  "LotteryEndH5_OnMessage env s w = do {
     p \<leftarrow> get_player (s_uid s) w;
     let timeout = get0 (lp_buy_timeout (linfo (py_machine p)));
     if py_game_state p \<noteq> Wait_Lottery_End then fail env EN_Result_Machine_State_Diff (rsp_lottery_end H5) s w
     else if buy_offered env (py_machine p) (py_prize_id p) (py_total_consume p) (py_total_fail p) (py_total_time p) then
       reply_twice env (buy_rsp H5 env (py_prize_id p) (py_total_consume p) timeout) s
         (p_wait env (s_uid s) timeout (InBuyTimeout (py_player_id p)) Wait_Buy (w_ReleaseTimer (py_timer_id p) w))
     else reply_twice env next_rsp s (p_next_game (s_uid s) p w) }"

subsection \<open>The guaranteed purchase, logout\<close>

definition BuyPrizeH5_OnMessage :: lstep where
  "BuyPrizeH5_OnMessage env s w = do {
     p \<leftarrow> get_player (s_uid s) w;
     if \<not> getF (lp_buy_switch (linfo (py_machine p))) \<or> py_game_state p \<noteq> Wait_Buy
     then fail env EN_Result_Machine_State_Diff (rsp_buy H5 (\<lambda>r. r)) s w
     else do {
       let w1 = p_refresh env (s_uid s) w;
       p1 \<leftarrow> get_player (s_uid s) w1;
       if \<not> req_buy H5 s then reply env (rsp next_rsp s) (p_next_game (s_uid s) p1 w1)
       else Some (H_Query, AddQueryKey (s_uid s) kPrizeInfo (AddQueryKey (s_uid s) kGoldInfo (AddQueryKey (s_uid s) kBaseInfo s)), w1) } }"

definition BuyPrizeH5_OnQuerySuccess :: lstep where
  "BuyPrizeH5_OnQuerySuccess env s w = do {
     p \<leftarrow> get_player (s_uid s) w;
     if py_game_state p \<noteq> Wait_Buy then fail env EN_Result_Machine_State_Diff (rsp_buy H5 (\<lambda>r. r)) s w
     else (let w1 = p_refresh env (s_uid s) w in case GetPrize (py_prize_id p) (le_cfg env) of
       None \<Rightarrow> fail env EN_Result_Gold_Not_Enough (rsp_buy H5 (\<lambda>r. r)) s w1
     | Some (value, _) \<Rightarrow> do {
         let cost = buy_cost value (py_total_consume p);
         d \<leftarrow> cur_data s;
         if gi_gold (gold_info d) < cost then fail env EN_Result_Gold_Not_Enough (rsp_buy H5 (\<lambda>r. r)) s w1
         else do {
           (_, s1, w2) \<leftarrow> on_account (PlayerSubGold (GetTime (me_now env)) EN_Acc_Lip_Buy cost) s w1;
           (_, s2, w3) \<leftarrow> on_account (\<lambda>a. ((), PlayerAddPrize (le_cfg env) (py_prize_id p) 1 a)) s1 w2;
           Some (H_Save, s2, w3) } }) }"

definition BuyPrizeH5_OnSaveSuccess :: lstep where
  "BuyPrizeH5_OnSaveSuccess env s w = do {
     p \<leftarrow> get_player (s_uid s) w;
     if py_game_state p \<noteq> Wait_Buy then fail env EN_Result_Machine_State_Diff (rsp_buy H5 (\<lambda>r. r)) s w
     else do {
       d \<leftarrow> cur_data s;
       let (_, s1, w1) = SendMsgToClient env False (rsp (rsp_buy H5 (\<lambda>r. r\<lparr>rb_prize_id := py_prize_id p,
             rb_prize_num := GetPlayerPrizeNum d\<rparr>)) s) w;
       let w2 = upd_player (s_uid s) (\<lambda>p. p\<lparr>py_total_fail := 0, py_total_time := 0\<rparr>) (p_next_game (s_uid s) p w1);
       let w3 = (case GetPrize (py_prize_id p) (le_cfg env) of
             None \<Rightarrow> w2
           | Some (value, _) \<Rightarrow>
               (let cost = buy_cost value (py_total_consume p); pm = count_purchase value cost (py_machine p);
                    sub = (if value > py_total_consume p then py_total_consume p else value)
                in upd_player (s_uid s) (\<lambda>p. p\<lparr>py_machine := pm, py_total_consume := py_total_consume p - sub\<rparr>)
                     (w_internal env (purchase_msg (get0 (d_uid pm)) cost pm) w2)));
       reply env (rsp next_rsp s1) w3 } }"

definition PlayerLogoutH5_OnMessage :: lstep where
  "PlayerLogoutH5_OnMessage env s w =
     reply env (rsp (\<lambda>_. CsRspPlayerLogout H5) s) (LogoutPlayer env (s_uid s) False EN_Logout_Default True w)"

subsection \<open>The handlers\<close>

definition HandlerLoginGameH5 :: "lip_env \<Rightarrow> lip_world handler" where
  "HandlerLoginGameH5 env = full_handler env LoginGameH5_OnMessage LoginGameH5_OnQuerySuccess LoginGameH5_OnSaveSuccess"

definition HandlerStartGameH5 :: "lip_env \<Rightarrow> lip_world handler" where
  "HandlerStartGameH5 env = full_handler env StartGameH5_OnMessage StartGameH5_OnQuerySuccess StartGameH5_OnSaveSuccess"

definition HandlerRetryGameH5 :: "lip_env \<Rightarrow> lip_world handler" where
  "HandlerRetryGameH5 env = full_handler env RetryGameH5_OnMessage RetryGameH5_OnQuerySuccess RetryGameH5_OnSaveSuccess"

definition HandlerEndGameH5 :: "lip_env \<Rightarrow> lip_world handler" where
  "HandlerEndGameH5 env = full_handler env EndGameH5_OnMessage EndGameH5_OnQuerySuccess EndGameH5_OnSaveSuccess"

definition HandlerLotteryH5 :: "lip_env \<Rightarrow> lip_world handler" where
  "HandlerLotteryH5 env = full_handler env LotteryH5_OnMessage LotteryH5_OnQuerySuccess LotteryH5_OnSaveSuccess"

definition HandlerBuyPrizeH5 :: "lip_env \<Rightarrow> lip_world handler" where
  "HandlerBuyPrizeH5 env = full_handler env BuyPrizeH5_OnMessage BuyPrizeH5_OnQuerySuccess BuyPrizeH5_OnSaveSuccess"

definition HandlerLotteryEndH5 :: "lip_env \<Rightarrow> lip_world handler" where
  "HandlerLotteryEndH5 env = (lip_base env)\<lparr>h_OnMessage := LotteryEndH5_OnMessage env\<rparr>"

definition HandlerPlayerLogoutH5 :: "lip_env \<Rightarrow> lip_world handler" where
  "HandlerPlayerLogoutH5 env = (lip_base env)\<lparr>h_OnMessage := PlayerLogoutH5_OnMessage env\<rparr>"

end
