(* ===== verification/LipstickInternal.thy ===== *)
theory LipstickInternal
  imports LipstickH5
begin

text \<open>
  svr/lipsticksvr/message_handler_internal.cpp and message_handler_server.cpp: what the timers and
  the server itself ask for (timeouts of the game, refunds, updates of the stored totals) and
  what other servers tell it.
\<close>

definition in_msg :: "session \<Rightarrow> internal_body option" where "in_msg s = se_inter_msg s"

subsection \<open>Logout, coins given back\<close>

definition in_logout :: "session \<Rightarrow> u64" where
  "in_logout s = (case in_msg s of Some (InLogout uid) \<Rightarrow> uid | _ \<Rightarrow> 0)"

definition Logout_OnMessage :: lstep where
  "Logout_OnMessage env s w =
     Some (H_Query, AddQueryKey (in_logout s) (if in_logout s < 10000000 then kMBaseInfo else kBaseInfo) s, w)"

definition Logout_OnQuerySuccess :: lstep where
  "Logout_OnQuerySuccess env s w = do {
     s1 \<leftarrow> set_cur_data (if in_logout s < 10000000
           then mut_m_base_info (\<lambda>b. b\<lparr>mb_gamesvr_id := None, mb_gamesvr_type := None\<rparr>)
           else mut_base_info (\<lambda>b. b\<lparr>bi_gamesvr_type := None, bi_gamesvr_id := None, bi_machine_id := None\<rparr>)) s;
     Some (H_Save, s1, w) }"

definition just_done :: lstep where
  "just_done env s w = Some (H_Done, s, w)"

definition in_clear :: "session \<Rightarrow> u64 \<times> u64" where
  "in_clear s = (case in_msg s of Some (InClearBuyIn pid mid) \<Rightarrow> (pid, mid) | _ \<Rightarrow> (0, 0))"

definition ClearBuyIn_OnMessage :: lstep where
  "ClearBuyIn_OnMessage env s w = Some (H_Query, AddQueryKey (fst (in_clear s)) kGoldInfo s, w)"

definition ClearBuyIn_OnQuerySuccess :: lstep where
  "ClearBuyIn_OnQuerySuccess env s w = do {
     (cleared, s1, w1) \<leftarrow> on_account (PlayerClearBuyIn (GetTime (me_now env)) (snd (in_clear s))) s w;
     Some (if cleared then H_Save else H_Done, s1, w1) }"

definition in_refund :: "session \<Rightarrow> u64 \<times> u64" where
  "in_refund s = (case in_msg s of Some (InGameRefund pid num) \<Rightarrow> (pid, num) | _ \<Rightarrow> (0, 0))"

definition GameRefund_OnMessage :: lstep where
  "GameRefund_OnMessage env s w = Some (H_Query, AddQueryKey (fst (in_refund s)) kGoldInfo s, w)"

definition GameRefund_OnQuerySuccess :: lstep where
  "GameRefund_OnQuerySuccess env s w = do {
     (_, s1, w1) \<leftarrow> on_account (\<lambda>a. ((), PlayerAddGold (GetTime (me_now env)) EN_Acc_Game_Refund (snd (in_refund s)) 0 a)) s w;
     Some (H_Save, s1, w1) }"

subsection \<open>Timeouts of the game\<close>

text \<open>The player is gone from the machine.\<close>

definition player_gone :: "lip_env \<Rightarrow> u64 \<Rightarrow> machine \<Rightarrow> lip_world \<Rightarrow> lip_world" where
  "player_gone env uid m w = w_internal env (InClearBuyIn (ma_player_id m) (ma_machine_id m))
     (w_client env (m_head env m) CsNotifyPlayerLogout False
       (upd_machine uid (\<lambda>m. m\<lparr>ma_timer_id := 0, ma_game_state := Wait_Player\<rparr>) w))"

definition low32 :: "u64 \<Rightarrow> u64" where "low32 x = ucast (ucast x :: u32)"

definition StartTimeout_OnMessage :: lstep where
  "StartTimeout_OnMessage env s w =
     (let uid = low32 (case in_msg s of Some (InStartTimeout u) \<Rightarrow> u | _ \<Rightarrow> 0) in
      case get_machine uid w of
        None \<Rightarrow> Some (H_Done, s, w)
      | Some m \<Rightarrow>
          if ma_game_state m \<noteq> Wait_Start then Some (H_Done, s, w) else Some (H_Done, s, player_gone env uid m w))"

definition EndTimeout_OnMessage :: lstep where
  "EndTimeout_OnMessage env s w =
     (let uid = (case in_msg s of Some (InEndTimeout u) \<Rightarrow> u | _ \<Rightarrow> 0) in
      if uid < 10000000 then
        (case get_machine uid w of
           None \<Rightarrow> Some (H_Done, s, w)
         | Some m \<Rightarrow>
             if ma_game_state m \<noteq> Wait_End then Some (H_Done, s, w)
             else Some (H_Done, s, snd (w_CreateTimerMsec env 500 (InGameRefund (ma_player_id m)
                      (get0 (lp_cost (linfo (ma_machine m))))) (player_gone env uid m w))))
      else
        (case get_player uid w of
           None \<Rightarrow> Some (H_Done, s, w)
         | Some p \<Rightarrow>
             if py_game_state p \<noteq> Wait_End then Some (H_Done, s, w)
             else (case find_prize (py_prize_id p) (py_machine p) of
                 None \<Rightarrow> Some (H_Done, s, w)
               | Some z \<Rightarrow>
                   (let w1 = w_client env (p_head env p) (next_rsp None) False
                          (upd_player uid (\<lambda>p. p\<lparr>py_timer_id := 0, py_game_state := Wait_Start\<rparr>) w)
                    in Some (H_Done, s, if py_pre_end p then w1 else w_internal env (InGameRefund (py_player_id p) (pz_cost z)) w1)))))"

text \<open>After the lottery's time and after its animation: the purchase is offered or the next game begins.\<close>

definition m_buy_or_next :: "lip_env \<Rightarrow> u64 \<Rightarrow> machine \<Rightarrow> lip_world \<Rightarrow> lip_world" where
  "m_buy_or_next env uid m w =
     (let info = linfo (ma_machine m) in
      if buy_offered env (ma_machine m) (ma_prize_id m) (ma_total_consume m) (ma_total_fail m) (ma_total_time m) then
        w_client env (m_head env m) (buy_rsp Mach env (ma_prize_id m) (ma_total_consume m) (get0 (lp_buy_timeout info)) None) False
          (m_wait env uid (get0 (lp_buy_timeout info)) (InBuyTimeout (ma_machine_id m)) Wait_Buy w)
      else
        w_client env (m_head env m) (rsp_end Mach (\<lambda>r. r\<lparr>re_next_step := 1, re_timeout := get0 (lp_start_timeout info)\<rparr>) None) False
          (next_game env uid m (get0 (lp_start_timeout info)) w))"

definition LotteryTimeout_OnMessage :: lstep where
  "LotteryTimeout_OnMessage env s w =
     (let uid = low32 (case in_msg s of Some (InLotteryTimeout u) \<Rightarrow> u | _ \<Rightarrow> 0) in
      if uid < 10000000 then
        (case get_machine uid w of
           None \<Rightarrow> Some (H_Done, s, w)
         | Some m \<Rightarrow> Some (H_Done, s, if ma_game_state m \<noteq> Wait_Lottery then w else m_buy_or_next env uid m w))
      else
        (case get_player uid w of
           None \<Rightarrow> Some (H_Done, s, w)
         | Some p \<Rightarrow>
             if py_game_state p \<noteq> Wait_Lottery then Some (H_Done, s, w)
             else if buy_offered env (py_machine p) (py_prize_id p) (py_total_consume p) (py_total_fail p) (py_total_time p) then
               (let timeout = get0 (lp_buy_timeout (linfo (py_machine p))) in
                Some (H_Done, s, w_client env (p_head env p) (buy_rsp H5 env (py_prize_id p) (py_total_consume p) timeout None) False
                  (p_wait env uid timeout (InBuyTimeout (py_player_id p)) Wait_Buy w)))
             else Some (H_Done, s, w_client env (p_head env p) (next_rsp None) False
                    (upd_player uid (\<lambda>p. p\<lparr>py_timer_id := 0, py_game_state := Wait_Start\<rparr>) w))))"

text \<open>For a player the answers go to the session's client, and this session has none.\<close>

definition LotteryEndTimeout_OnMessage :: lstep where
  "LotteryEndTimeout_OnMessage env s w =
     (let uid = low32 (case in_msg s of Some (InLotteryEndTimeout u) \<Rightarrow> u | _ \<Rightarrow> 0) in
      if uid < 10000000 then
        (case get_machine uid w of
           None \<Rightarrow> Some (H_Done, s, w)
         | Some m \<Rightarrow>
             if ma_game_state m \<noteq> Wait_Lottery_End then Some (H_Done, s, w)
             else do {
               timeout \<leftarrow> ani_timeout m;
               Some (H_Done, s, w_client env (m_head env m) (CsRspLotteryEnd Mach timeout) False
                 (m_wait env uid timeout (InLotteryAniTimeout (ma_machine_id m)) Wait_Lottery_Ani w)) })
      else
        (case get_player uid w of
           None \<Rightarrow> Some (H_Done, s, w)
         | Some p \<Rightarrow>
             (let timeout = get0 (lp_buy_timeout (linfo (py_machine p))) in
              if py_game_state p \<noteq> Wait_Lottery_End then Some (H_Done, s, w)
              else if buy_offered env (py_machine p) (py_prize_id p) (py_total_consume p) (py_total_fail p) (py_total_time p) then
                reply_twice env (buy_rsp H5 env (py_prize_id p) (py_total_consume p) timeout) s
                  (p_wait env uid timeout (InBuyTimeout (py_player_id p)) Wait_Buy w)
              else reply_twice env next_rsp s (p_next_game uid p w))))"

definition LotteryAniTimeout_OnMessage :: lstep where
  "LotteryAniTimeout_OnMessage env s w =
     (let uid = low32 (case in_msg s of Some (InLotteryAniTimeout u) \<Rightarrow> u | _ \<Rightarrow> 0) in
      if uid < 10000000 then
        (case get_machine uid w of
           None \<Rightarrow> Some (H_Done, s, w)
         | Some m \<Rightarrow> Some (H_Done, s, if ma_game_state m \<noteq> Wait_Lottery_Ani then w else m_buy_or_next env uid m w))
      else Some (H_Done, s, w))"

definition m_next_told :: "lip_env \<Rightarrow> u64 \<Rightarrow> machine \<Rightarrow> lip_world \<Rightarrow> lip_world" where
  "m_next_told env uid m w =
     (let timeout = get0 (lp_start_timeout (linfo (ma_machine m))) in
      w_client env (m_head env m) (rsp_end Mach (\<lambda>r. r\<lparr>re_next_step := 1, re_timeout := timeout\<rparr>) None) False
        (next_game env uid m timeout w))"

definition BuyTimeout_OnMessage :: lstep where
  "BuyTimeout_OnMessage env s w =
     (let uid = low32 (case in_msg s of Some (InBuyTimeout u) \<Rightarrow> u | _ \<Rightarrow> 0) in
      if uid < 10000000 then
        (case get_machine uid w of
           None \<Rightarrow> Some (H_Done, s, w)
         | Some m \<Rightarrow> Some (H_Done, s, if ma_game_state m \<noteq> Wait_Buy then w else m_next_told env uid m w))
      else
        (case get_player uid w of
           None \<Rightarrow> Some (H_Done, s, w)
         | Some p \<Rightarrow>
             if py_game_state p \<noteq> Wait_Buy then Some (H_Done, s, w)
             else Some (H_Done, s, w_client env (p_head env p) (next_rsp None) False
                    (upd_player uid (\<lambda>p. p\<lparr>py_timer_id := 0, py_game_state := Wait_Start\<rparr>) w))))"

definition BuyAniTimeout_OnMessage :: lstep where
  "BuyAniTimeout_OnMessage env s w =
     (let uid = low32 (case in_msg s of Some (InBuyAniTimeout u) \<Rightarrow> u | _ \<Rightarrow> 0) in
      if uid < 10000000 then
        (case get_machine uid w of
           None \<Rightarrow> Some (H_Done, s, w)
         | Some m \<Rightarrow> Some (H_Done, s, if ma_game_state m \<noteq> Wait_Buy_Ani then w else m_next_told env uid m w))
      else Some (H_Done, s, w))"

subsection \<open>The stored totals\<close>

text \<open>The income is stored when the message has a \<^emph>\<open>value\<close>.\<close>

definition in_update :: "session \<Rightarrow> u64 \<times> u64 option \<times> u32 option \<times> u64 option" where
  "in_update s = (case in_msg s of Some (InUpdateMachinePrize mid v n i) \<Rightarrow> (mid, v, n, i) | _ \<Rightarrow> (0, None, None, None))"

definition UpdateMachinePrize_OnMessage :: lstep where
  "UpdateMachinePrize_OnMessage env s w = Some (H_Query, AddQueryKey (fst (in_update s)) kMBaseInfo s, w)"

definition update_totals :: "u64 option \<Rightarrow> u32 option \<Rightarrow> u64 option \<Rightarrow> db_m_base_info \<Rightarrow> db_m_base_info" where
  "update_totals value num inc b =
     (let b1 = (case value of None \<Rightarrow> b | Some v \<Rightarrow> b\<lparr>mb_total_prize_value := ucast v\<rparr>);
          b2 = (case num of None \<Rightarrow> b1 | Some n \<Rightarrow> b1\<lparr>mb_total_prize_num := n\<rparr>)
      in if value \<noteq> None then b2\<lparr>mb_total_income := get0 inc\<rparr> else b2)"

definition UpdateMachinePrize_OnQuerySuccess :: lstep where
  "UpdateMachinePrize_OnQuerySuccess env s w = (let (mid, value, num, inc) = in_update s in do {
     s1 \<leftarrow> set_cur_data (mut_m_base_info (update_totals value num inc)) s;
     Some (H_Save, s1, w) })"

subsection \<open>Game records\<close>

definition in_record :: "session \<Rightarrow> u64 \<times> u64 \<times> bool" where
  "in_record s = (case in_msg s of Some (InGameRecord uid pid g) \<Rightarrow> (uid, pid, g) | _ \<Rightarrow> (0, 0, False))"

definition GameRecord_OnMessage :: lstep where
  "GameRecord_OnMessage env s w = (let (uid, pid, g) = in_record s; s1 = AddQueryKey uid kGameInfo (AddQueryKey uid kBaseInfo s) in
     Some (H_Query, if g then AddQueryKey EN_Uid_Lip_Prize kGLipPrizeInfo s1 else s1, w))"

text \<open>The newest \<open>n\<close> entries: \<open>DeleteSubrange(0, size - n)\<close> when there are more.\<close>

definition newest :: "nat \<Rightarrow> 'a list \<Rightarrow> 'a list" where
  "newest n xs = (if length xs > n then drop (length xs - n) xs else xs)"

definition add_play :: "db_play \<Rightarrow> db_game_info \<Rightarrow> db_game_info" where
  "add_play p info = (if list_ex (\<lambda>r. gr_game_type r = EN_G_Type_Lipstick) (ga_records info)
     then info\<lparr>ga_records := map (\<lambda>r. if gr_game_type r = EN_G_Type_Lipstick
                then r\<lparr>gr_plays := newest 50 (gr_plays r @ [p])\<rparr> else r) (ga_records info)\<rparr>
     else info\<lparr>ga_records := ga_records info @ [\<lparr>gr_game_type = EN_G_Type_Lipstick, gr_plays = [p]\<rparr>]\<rparr>)"

definition ProcessPlayer :: lstep where
  "ProcessPlayer env s w = (let (uid, pid, g) = in_record s in do {
     s1 \<leftarrow> set_cur_data (mut_game_info (add_play \<lparr>pl_prize_id = pid, pl_timestamp = GetTime (me_now env), pl_get_prize = g\<rparr>)) s;
     Some (H_Save, s1, w) })"

definition ProcessGlobal :: lstep where
  "ProcessGlobal env s w = (let (uid, pid, g) = in_record s in do {
     s1 \<leftarrow> set_cur_data (mut_g_lip_prize_info (\<lambda>i. i)) s;
     case GetPrize pid (le_cfg env) of
       None \<Rightarrow> Some (H_Done, s1, w)
     | Some (value, name) \<Rightarrow> do {
         d0 \<leftarrow> GetDBData 0 s1;
         s2 \<leftarrow> set_cur_data (mut_g_lip_prize_info (\<lambda>i. i\<lparr>gl_seq := gl_seq i + 1, gl_player_prizes := newest 20 (gl_player_prizes i @
               [\<lparr>pp_nick = bi_nick (base_info d0), pp_name = name, pp_seq = gl_seq i + 1\<rparr>])\<rparr>)) s1;
         Some (H_Save, s2, w) } })"

definition GameRecord_OnQuerySuccess :: lstep where
  "GameRecord_OnQuerySuccess env s w = (if se_process_index s = 0 then ProcessPlayer env s w
     else if se_process_index s = 1 then ProcessGlobal env s w else Some (H_Done, s, w))"

definition GameRecord_OnSaveSuccess :: lstep where
  "GameRecord_OnSaveSuccess env s w = Some (H_Next, s, w)"

subsection \<open>What other servers tell\<close>

text \<open>The prize table read anew from MySQL is the \<open>le_cfg\<close> of the calls that follow.\<close>

definition UpdateConfig_OnMessage :: lstep where
  "UpdateConfig_OnMessage env s w = Some (H_Done, s, w)"

definition KickPlayer_OnMessage :: lstep where
  "KickPlayer_OnMessage env s w =
     (let (player_id, on_machine) = (case ss_body (se_ss_msg s) of Some (SsNotifyKickPlayer p m) \<Rightarrow> (p, m) | _ \<Rightarrow> (0, None)) in
      case on_machine of
        None \<Rightarrow> Some (H_Done, s, LogoutPlayer env player_id True EN_Logout_Multi_Login False w)
      | Some mid \<Rightarrow>
          (case get_machine mid w of
             None \<Rightarrow> Some (H_Done, s, w)
           | Some m \<Rightarrow>
               if ma_game_state m = Wait_Player \<or> ma_player_id m \<noteq> player_id then Some (H_Done, s, w)
               else
                 let w1 = w_internal env (InClearBuyIn (ma_player_id m) (ma_machine_id m))
                        (w_client env (m_head env m) (CsRspPlayerLogout Mach) False w);
                     w2 = (if ma_game_state m = Wait_End then snd (w_CreateTimerMsec env 100
                        (InGameRefund (ma_player_id m) (get0 (lp_cost (linfo (ma_machine m))))) w1) else w1)
                 in Some (H_Done, s, upd_machine mid (\<lambda>m. m\<lparr>ma_game_state := Wait_Player\<rparr>) (w_ReleaseTimer (ma_timer_id m) w2))))"

definition PlayerGold_OnMessage :: lstep where
  "PlayerGold_OnMessage env s w =
     (let (uid, gold) = (case ss_body (se_ss_msg s) of Some (SsNotifyPlayerGold u g) \<Rightarrow> (u, g) | _ \<Rightarrow> (0, 0)) in
      case get_player uid w of
        None \<Rightarrow> Some (H_Done, s, w)
      | Some p \<Rightarrow> Some (H_Done, s, w_client env (p_head env p) (CsNotifyGold gold) False w))"

definition NotifyPoint_OnMessage :: lstep where
  "NotifyPoint_OnMessage env s w =
     (let (uid, point, on_machine) = (case ss_body (se_ss_msg s) of Some (WebNotifyPoint u p m) \<Rightarrow> (u, p, m) | _ \<Rightarrow> (0, 0, None)) in
      case on_machine of
        Some mid \<Rightarrow>
          (case get_machine mid w of
             None \<Rightarrow> Some (H_Done, s, w)
           | Some m \<Rightarrow> Some (H_Done, s, if ma_player_id m = uid then w_client env (m_head env m) (CsNotifyPoint point) False w else w))
      | None \<Rightarrow>
          (case get_player uid w of
             None \<Rightarrow> Some (H_Done, s, w)
           | Some p \<Rightarrow> Some (H_Done, s, w_client env (p_head env p) (CsNotifyPoint point) False w)))"

subsection \<open>The handlers\<close>

definition msg_handler :: "lip_env \<Rightarrow> lstep \<Rightarrow> lip_world handler" where
  "msg_handler env on_msg = (lip_base env)\<lparr>h_OnMessage := on_msg env\<rparr>"

definition HandlerLogout :: "lip_env \<Rightarrow> lip_world handler" where
  "HandlerLogout env = full_handler env Logout_OnMessage Logout_OnQuerySuccess just_done"

definition HandlerClearBuyIn :: "lip_env \<Rightarrow> lip_world handler" where
  "HandlerClearBuyIn env = full_handler env ClearBuyIn_OnMessage ClearBuyIn_OnQuerySuccess just_done"

definition HandlerStartTimeout :: "lip_env \<Rightarrow> lip_world handler" where
  "HandlerStartTimeout env = msg_handler env StartTimeout_OnMessage"

definition HandlerEndTimeout :: "lip_env \<Rightarrow> lip_world handler" where
  "HandlerEndTimeout env = msg_handler env EndTimeout_OnMessage"

definition HandlerLotteryTimeout :: "lip_env \<Rightarrow> lip_world handler" where
  "HandlerLotteryTimeout env = msg_handler env LotteryTimeout_OnMessage"

definition HandlerLotteryEndTimeout :: "lip_env \<Rightarrow> lip_world handler" where
  "HandlerLotteryEndTimeout env = msg_handler env LotteryEndTimeout_OnMessage"

definition HandlerLotteryAniTimeout :: "lip_env \<Rightarrow> lip_world handler" where
  "HandlerLotteryAniTimeout env = msg_handler env LotteryAniTimeout_OnMessage"

definition HandlerBuyTimeout :: "lip_env \<Rightarrow> lip_world handler" where
  "HandlerBuyTimeout env = msg_handler env BuyTimeout_OnMessage"

definition HandlerBuyAniTimeout :: "lip_env \<Rightarrow> lip_world handler" where
  "HandlerBuyAniTimeout env = msg_handler env BuyAniTimeout_OnMessage"

definition HandlerGameRefund :: "lip_env \<Rightarrow> lip_world handler" where
  "HandlerGameRefund env = full_handler env GameRefund_OnMessage GameRefund_OnQuerySuccess just_done"

definition HandlerUpdateMachinePrize :: "lip_env \<Rightarrow> lip_world handler" where
  "HandlerUpdateMachinePrize env = full_handler env UpdateMachinePrize_OnMessage UpdateMachinePrize_OnQuerySuccess just_done"

definition HandlerGameRecord :: "lip_env \<Rightarrow> lip_world handler" where
  "HandlerGameRecord env = full_handler env GameRecord_OnMessage GameRecord_OnQuerySuccess GameRecord_OnSaveSuccess"

definition HandlerUpdateConfig :: "lip_env \<Rightarrow> lip_world handler" where
  "HandlerUpdateConfig env = msg_handler env UpdateConfig_OnMessage"

definition HandlerKickPlayer :: "lip_env \<Rightarrow> lip_world handler" where
  "HandlerKickPlayer env = msg_handler env KickPlayer_OnMessage"

definition HandlerPlayerGold :: "lip_env \<Rightarrow> lip_world handler" where
  "HandlerPlayerGold env = msg_handler env PlayerGold_OnMessage"

definition HandlerNotifyPoint :: "lip_env \<Rightarrow> lip_world handler" where
  "HandlerNotifyPoint env = msg_handler env NotifyPoint_OnMessage"

end
