(* ===== verification/LipstickServer.thy ===== *)
theory LipstickServer
  imports LipstickInternal
begin

text \<open>
  svr/lipsticksvr/message_manager.cpp and game_server.cpp: the handler of every message and the
  entry points the frame calls. The state of the server is its sessions and the world of the
  handlers. The start-up that restores the pools is in the managers' own theories; \<open>InitGame\<close> strings them together.
\<close>

subsection \<open>MessageManager\<close>

definition lip_handlers :: "lip_env \<Rightarrow> u32 \<Rightarrow> lip_world handler option" where
  "lip_handlers env msg_id = map_of [
     (1000, HandlerHeartBeat env), (1012, HandlerMLoginGame env), (1016, HandlerStartGame env), (1023, HandlerRetryGame env),
     (1018, HandlerEndGame env), (1025, HandlerLottery env), (1032, HandlerLotteryEnd env), (1027, HandlerBuyPrize env),
     (1020, HandlerPlayerLogout env),
     (5000, HandlerLoginGameH5 env), (5002, HandlerStartGameH5 env), (5006, HandlerRetryGameH5 env), (5004, HandlerEndGameH5 env),
     (5008, HandlerLotteryH5 env), (5013, HandlerLotteryEndH5 env), (5010, HandlerBuyPrizeH5 env), (5015, HandlerPlayerLogoutH5 env),
     (10017, HandlerUpdateConfig env), (10010, HandlerPlayerLogin env), (10012, HandlerPlayerBuyIn env), (10040, HandlerNotifyPoint env),
     (11000, HandlerKickPlayer env), (11003, HandlerPlayerGold env),
     (20000, HandlerLogout env), (20002, HandlerClearBuyIn env), (20003, HandlerStartTimeout env), (20004, HandlerEndTimeout env),
     (20005, HandlerLotteryTimeout env), (20011, HandlerLotteryEndTimeout env), (20007, HandlerLotteryAniTimeout env),
     (20006, HandlerBuyTimeout env), (20008, HandlerBuyAniTimeout env), (20009, HandlerGameRefund env),
     (20010, HandlerUpdateMachinePrize env), (20012, HandlerGameRecord env)] msg_id"

definition lip_Process :: "lip_env \<Rightarrow> session \<Rightarrow> lip_world \<Rightarrow> (session option \<times> lip_world) outcome option" where
  "lip_Process env s w = (case lip_handlers env (se_msg_id s) of
     None \<Rightarrow> Some (Ret (Some s, w))
   | Some h \<Rightarrow> Process env h s w)"

subsection \<open>GameServer\<close>

record lip_server =
  ls_sessions :: session_mgr
  ls_world :: lip_world
  ls_timer_check :: u64
  ls_session_check :: u32
  ls_machine_check :: u32
  ls_player_check :: u32

text \<open>The session in its pool after a call of \<open>Process\<close>: released or written back.\<close>

definition process_session :: "lip_env \<Rightarrow> u32 \<Rightarrow> (session \<Rightarrow> session) \<Rightarrow> lip_server \<Rightarrow> lip_server outcome option" where
  "process_session env sid prepare gs = (case GetSession sid (ls_sessions gs) of
     None \<Rightarrow> Some (Ret gs)
   | Some s \<Rightarrow>
       (case lip_Process env (prepare s) (ls_world gs) of
          None \<Rightarrow> None
        | Some Crash \<Rightarrow> Some Crash
        | Some (Ret (None, w)) \<Rightarrow>
            Some (Ret (gs\<lparr>ls_world := w, ls_sessions := snd (ReleaseSession sid (ls_sessions gs))\<rparr>))
        | Some (Ret (Some s1, w)) \<Rightarrow>
            Some (Ret (gs\<lparr>ls_world := w, ls_sessions := kp_update sid (\<lambda>_. s1) (ls_sessions gs)\<rparr>))))"

definition OnClientMessage :: "lip_env \<Rightarrow> connect_head \<Rightarrow> byte list \<Rightarrow> lip_server \<Rightarrow> lip_server outcome option" where
  "OnClientMessage env head buf gs = (case MessageFilter env head buf (ls_world gs) of
     (None, w) \<Rightarrow> Some (Ret (gs\<lparr>ls_world := w\<rparr>))
   | (Some msg, w) \<Rightarrow>
       (case CreateSession (me_now env) (cs_union_case msg) (ls_sessions gs) of
          (None, sm) \<Rightarrow> Some (Ret (gs\<lparr>ls_sessions := sm, ls_world := SendCommonErr env head EN_Result_Sys_Err w\<rparr>))
        | (Some sid, sm) \<Rightarrow> process_session env sid
            (\<lambda>s. s\<lparr>se_msg_head := MH_connect head, se_cs_msg := msg, se_uid := ucast (cs_uid msg)\<rparr>)
            (gs\<lparr>ls_sessions := sm, ls_world := w\<rparr>)))"

definition OnClientOffline :: "lip_env \<Rightarrow> connect_head \<Rightarrow> u64 \<Rightarrow> lip_server \<Rightarrow> lip_server" where
  "OnClientOffline env head logic_index gs =
     (let w = ls_world gs in
      if logic_index < 10000000 then
        (case get_machine logic_index w of
           None \<Rightarrow> gs
         | Some m \<Rightarrow> if \<not> same_connection (m_head env m) head then gs
             else gs\<lparr>ls_world := LogoutMachine env logic_index False EN_Logout_Default True w\<rparr>)
      else
        (case get_player logic_index w of
           None \<Rightarrow> gs
         | Some p \<Rightarrow> if \<not> same_connection (p_head env p) head then gs
             else gs\<lparr>ls_world := LogoutPlayer env logic_index False EN_Logout_Default True w\<rparr>))"

definition OnServerMessage :: "lip_env \<Rightarrow> proxy_head \<Rightarrow> byte list \<Rightarrow> lip_server \<Rightarrow> lip_server outcome option" where
  "OnServerMessage env head buf gs = (case le_parse_ss env buf of
     None \<Rightarrow> Some (Ret gs)
   | Some msg \<Rightarrow>
       if ss_type msg = EN_SS_Request then
         (case CreateSession (me_now env) (ss_union_case msg) (ls_sessions gs) of
            (None, sm) \<Rightarrow> Some (Ret (gs\<lparr>ls_sessions := sm\<rparr>))
          | (Some sid, sm) \<Rightarrow> process_session env sid (\<lambda>s. s\<lparr>se_msg_head := MH_proxy head, se_ss_msg := msg\<rparr>) (gs\<lparr>ls_sessions := sm\<rparr>))
       else process_session env (px_session_id head) (\<lambda>s. s\<lparr>se_ss_response := msg\<rparr>) gs)"

definition OnInternalMessage :: "lip_env \<Rightarrow> byte list \<Rightarrow> lip_server \<Rightarrow> lip_server outcome option" where
  "OnInternalMessage env buf gs = (case le_parse_in env buf of
     None \<Rightarrow> Some (Ret gs)
   | Some msg \<Rightarrow>
       (case CreateSession (me_now env) (in_union_case msg) (ls_sessions gs) of
          (None, sm) \<Rightarrow> Some (Ret (gs\<lparr>ls_sessions := sm\<rparr>))
        | (Some sid, sm) \<Rightarrow> process_session env sid (\<lambda>s. s\<lparr>se_inter_msg := msg\<rparr>) (gs\<lparr>ls_sessions := sm\<rparr>)))"

text \<open>The four checks of \<open>OnRoutineCheck\<close>.\<close>

definition tick_timers :: "lip_env \<Rightarrow> lip_server \<Rightarrow> lip_server" where
  "tick_timers env gs =
     (if ls_timer_check gs + 100 \<le> GetTimeMsec (me_now env) then
        (let (msgs, tm) = Tick (le_ord env) (me_now env) (w_timers (ls_world gs));
             w = fold (\<lambda>m w. snd (SendMsgToInternal env m w)) msgs (ls_world gs)
         in gs\<lparr>ls_timer_check := GetTimeMsec (me_now env), ls_world := w\<lparr>w_timers := tm\<rparr>\<rparr>)
      else gs)"

definition check_sessions :: "lip_env \<Rightarrow> lip_server \<Rightarrow> lip_server" where
  "check_sessions env gs =
     (if ls_session_check gs + 5 \<le> GetTime (me_now env) then
        gs\<lparr>ls_session_check := GetTime (me_now env), ls_sessions := CheckTimeOut (le_ord env) (me_now env) (ls_sessions gs)\<rparr>
      else gs)"

text \<open>The heart beat's own time is 64 bits wide, the comparison with \<open>GetTime()\<close> is made in 64 bits.\<close>

definition beat_lost :: "lip_env \<Rightarrow> u64 \<Rightarrow> bool" where
  "beat_lost env t \<longleftrightarrow> t + ucast (le_heart_beat_interval env * 2) \<le> ucast (GetTime (me_now env))"

definition check_machines :: "lip_env \<Rightarrow> lip_server \<Rightarrow> lip_server" where
  "check_machines env gs =
     (if ls_machine_check gs + le_heart_beat_interval env \<le> GetTime (me_now env) then
        (let w = ls_world gs;
             ids = map ma_machine_id (filter (\<lambda>m. beat_lost env (ma_heart_beat_time m)) (om_iter (le_ord env) (kp_om (w_machines w))))
         in gs\<lparr>ls_machine_check := GetTime (me_now env),
               ls_world := fold (\<lambda>uid. LogoutMachine env uid True EN_Logout_Heart_Beat True) ids w\<rparr>)
      else gs)"

definition check_players :: "lip_env \<Rightarrow> lip_server \<Rightarrow> lip_server" where
  "check_players env gs =
     (if ls_player_check gs + le_heart_beat_interval env \<le> GetTime (me_now env) then
        (let w = ls_world gs;
             ids = map py_player_id (filter (\<lambda>p. beat_lost env (py_heart_beat_time p)) (om_iter (le_ord env) (kp_om (w_players w))))
         in gs\<lparr>ls_player_check := GetTime (me_now env),
               ls_world := fold (\<lambda>uid. LogoutPlayer env uid True EN_Logout_Heart_Beat True) ids w\<rparr>)
      else gs)"

definition OnRoutineCheck :: "lip_env \<Rightarrow> lip_server \<Rightarrow> lip_server" where
  "OnRoutineCheck env gs = check_players env (check_machines env (check_sessions env (tick_timers env gs)))"

subsection \<open>Start and exit\<close>

text \<open>How the classes of the pools are written to and read from a segment, and the server's settings.\<close>

record lip_boot =
  lb_session :: "(session \<Rightarrow> nat) \<times> (session \<Rightarrow> byte list \<Rightarrow> nat \<Rightarrow> nat \<Rightarrow> bool \<times> byte list \<times> nat) \<times> (byte list \<Rightarrow> nat \<Rightarrow> nat \<Rightarrow> (session \<times> nat) option)"
  lb_timer :: "(timer \<Rightarrow> nat) \<times> (timer \<Rightarrow> byte list \<Rightarrow> nat \<Rightarrow> nat \<Rightarrow> bool \<times> byte list \<times> nat) \<times> (byte list \<Rightarrow> nat \<Rightarrow> nat \<Rightarrow> (timer \<times> nat) option)"
  lb_machine :: "(machine \<Rightarrow> nat) \<times> (machine \<Rightarrow> byte list \<Rightarrow> nat \<Rightarrow> nat \<Rightarrow> bool \<times> byte list \<times> nat) \<times> (byte list \<Rightarrow> nat \<Rightarrow> nat \<Rightarrow> (machine \<times> nat) option)"
  lb_player :: "(player \<Rightarrow> nat) \<times> (player \<Rightarrow> byte list \<Rightarrow> nat \<Rightarrow> nat \<Rightarrow> bool \<times> byte list \<times> nat) \<times> (byte list \<Rightarrow> nat \<Rightarrow> nat \<Rightarrow> (player \<times> nat) option)"
  lb_sizes :: "nat \<times> nat \<times> nat \<times> nat"
  lb_keys :: "u32 \<times> u32 \<times> u32 \<times> u32"
  lb_rm_ok :: bool
  lb_mk_ok :: bool
  lb_config :: bool

definition InitGame :: "lip_env \<Rightarrow> lip_boot \<Rightarrow> shm_world \<Rightarrow> (int \<times> lip_server option \<times> shm_world) option" where
  "InitGame env b shm =
     (let (n1, n2, n3, n4) = lb_sizes b; (k1, k2, k3, k4) = lb_keys b; ord = le_ord env; rm = lb_rm_ok b in do {
       (ok1, sm, shm1) \<leftarrow> SessionManager_Init ord (snd (snd (lb_session b))) rm n1 k1 shm;
       if \<not> ok1 then Some (- 1, None, shm1) else do {
         (ok2, tm, shm2) \<leftarrow> TimerManager_Init ord (snd (snd (lb_timer b))) rm n2 k2 shm1;
         if \<not> ok2 then Some (- 2, None, shm2) else do {
           (ok3, mm, shm3) \<leftarrow> MachineManager_Init ord (snd (snd (lb_machine b))) rm n3 k3 shm2;
           if \<not> ok3 then Some (- 3, None, shm3) else do {
             (ok4, pm, shm4) \<leftarrow> PlayerManager_Init ord (snd (snd (lb_player b))) rm n4 k4 shm3;
             if \<not> ok4 then Some (- 4, None, shm4)
             else if \<not> lb_config b then Some (- 11, None, shm4)
             else
               let w = \<lparr>w_out = [], w_timers = tm, w_players = pm, w_machines = mm, lw_rand = [], lw_wechat = [], lw_h5 = []\<rparr>
               in Some (0, Some \<lparr>ls_sessions = sm, ls_world = H5_Init env w, ls_timer_check = 0, ls_session_check = 0,
                     ls_machine_check = 0, ls_player_check = 0\<rparr>, shm4) } } } })"

definition ExitGame :: "lip_env \<Rightarrow> lip_boot \<Rightarrow> lip_server \<Rightarrow> shm_world \<Rightarrow> shm_world" where
  "ExitGame env b gs shm =
     (let ord = le_ord env; rm = lb_rm_ok b; mk = lb_mk_ok b; w = ls_world gs;
          shm1 = snd (om_Release ord (fst (lb_session b)) (fst (snd (lb_session b))) rm mk (kp_om (ls_sessions gs)) shm);
          shm2 = snd (om_Release ord (fst (lb_timer b)) (fst (snd (lb_timer b))) rm mk (kp_om (w_timers w)) shm1);
          shm3 = snd (om_Release ord (fst (lb_machine b)) (fst (snd (lb_machine b))) rm mk (kp_om (w_machines w)) shm2)
      in snd (om_Release ord (fst (lb_player b)) (fst (snd (lb_player b))) rm mk (kp_om (w_players w)) shm3))"

end
