(* ===== verification/LipstickInv.thy ===== *)
theory LipstickInv
  imports LipstickServer
begin

text \<open>
  What every step of every handler keeps: the pools of the world stay consistent, the session
  keeps its id, and a machine's game goes on only along the arrows of \<open>game_step\<close>. \<open>holds P x\<close>
  says that a step that does not crash ends in a state with \<open>P\<close>; its rules take a step apart, the
  collection \<open>frame_simps\<close> says what each helper leaves alone.
\<close>

named_theorems frame_simps "what an operation leaves alone"

definition world_ok :: "lip_world \<Rightarrow> bool" where
  "world_ok w \<longleftrightarrow> kp_inv ma_machine_id (w_machines w) \<and> kp_inv py_player_id (w_players w) \<and> kp_inv ti_timer_id (w_timers w)"

text \<open>The state of a machine's game; a machine that is not logged in has no player.\<close>

definition m_state :: "u64 \<Rightarrow> lip_world \<Rightarrow> game_state" where
  "m_state uid w = (case get_machine uid w of None \<Rightarrow> Wait_Player | Some m \<Rightarrow> ma_game_state m)"

text \<open>Only a stored charge begins a play.\<close>

inductive game_step :: "bool \<Rightarrow> game_state \<Rightarrow> game_state \<Rightarrow> bool" where
  stay: "game_step paid st st"
| gone: "game_step paid st Wait_Player"
| login: "game_step paid Wait_Player Wait_Start"
| start: "game_step True Wait_Start Wait_End"
| lottery: "game_step paid Wait_End Wait_Lottery"
| offer: "game_step paid Wait_End Wait_Buy"
| again: "game_step paid Wait_End Wait_Start"
| drawn: "game_step paid Wait_Lottery Wait_Lottery_End"
| lottery_offer: "game_step paid Wait_Lottery Wait_Buy"
| lottery_again: "game_step paid Wait_Lottery Wait_Start"
| shown: "game_step paid Wait_Lottery_End Wait_Lottery_Ani"
| ani_offer: "game_step paid Wait_Lottery_Ani Wait_Buy"
| ani_again: "game_step paid Wait_Lottery_Ani Wait_Start"
| bought: "game_step paid Wait_Buy Wait_Buy_Ani"
| declined: "game_step paid Wait_Buy Wait_Start"
| buy_again: "game_step paid Wait_Buy_Ani Wait_Start"

declare game_step.intros [simp]

subsection \<open>Pools\<close>

lemma timers_keep:
  assumes "kp_inv ti_timer_id tm"
  shows "kp_inv ti_timer_id (snd (CreateTimer now sec msg tm))" "kp_inv ti_timer_id (snd (CreateTimerMsec now sec msg tm))"
    "kp_inv ti_timer_id (snd (ReleaseTimer tid tm))"
proof -
  have c: "kp_inv ti_timer_id (snd (ip_Create timer0 mk tm))" if "\<And>k. ti_timer_id (mk k) = k" for mk
  proof (cases "kp_room tm = 0")
    case False
    obtain r tm' where "ip_Create timer0 mk tm = (r, tm')" by (cases "ip_Create timer0 mk tm")
    then show ?thesis using ip_Create_some [OF assms, of timer0 mk _ tm'] ip_Create_none [OF assms, of timer0 mk tm'] that False
      by (cases r) auto
  qed (simp add: ip_Create_full assms)
  then show "kp_inv ti_timer_id (snd (CreateTimer now sec msg tm))" "kp_inv ti_timer_id (snd (CreateTimerMsec now sec msg tm))"
    by (simp_all add: CreateTimer_def CreateTimerMsec_def)
  show "kp_inv ti_timer_id (snd (ReleaseTimer tid tm))"
    by (rule timers.release_cases [OF assms, of tid]) (use assms in auto)
qed

lemma refresh_keeps:
  "kp_inv ti_timer_id tm \<Longrightarrow> kp_inv ti_timer_id (snd (Machine_RefreshTimer now m tm))"
  "kp_inv ti_timer_id tm \<Longrightarrow> kp_inv ti_timer_id (snd (Player_RefreshTimer now p tm))"
  "\<exists>t. fst (Machine_RefreshTimer now m tm) = m\<lparr>ma_timer_id := t\<rparr>"
  "\<exists>t. fst (Player_RefreshTimer now p tm) = p\<lparr>py_timer_id := t\<rparr>"
     apply (auto simp: Machine_RefreshTimer_def Player_RefreshTimer_def Let_def split_beta split: option.split
       intro!: timers_keep)
   apply (rule exI [of _ "ma_timer_id m"], simp)
  apply (rule exI [of _ "py_timer_id p"], simp)
  done

lemma machine_pool:
  assumes "kp_inv ma_machine_id mm"
  shows "\<forall>m. ma_machine_id m = u \<longrightarrow> ma_machine_id (f m) = u \<Longrightarrow> kp_inv ma_machine_id (kp_update u f mm)"
    "\<forall>m. ma_machine_id m = u \<longrightarrow> ma_machine_id (f m) = u \<Longrightarrow>
       GetMachine v (kp_update u f mm) = (if v = u then map_option f (GetMachine u mm) else GetMachine v mm)"
    "kp_inv ma_machine_id (snd (ReleaseMachine u mm))"
    "GetMachine v (snd (ReleaseMachine u mm)) = (if v = u then None else GetMachine v mm)"
    "kp_inv ma_machine_id (snd (CreateMachine u mm))"
    "fst (CreateMachine u mm) \<Longrightarrow> GetMachine v (snd (CreateMachine u mm)) = (if v = u then Some (machine0\<lparr>ma_machine_id := u\<rparr>) else GetMachine v mm)"
    "\<not> fst (CreateMachine u mm) \<Longrightarrow> snd (CreateMachine u mm) = mm"
proof -
  show "\<forall>m. ma_machine_id m = u \<longrightarrow> ma_machine_id (f m) = u \<Longrightarrow> kp_inv ma_machine_id (kp_update u f mm)"
    "\<forall>m. ma_machine_id m = u \<longrightarrow> ma_machine_id (f m) = u \<Longrightarrow>
       GetMachine v (kp_update u f mm) = (if v = u then map_option f (GetMachine u mm) else GetMachine v mm)"
    using kp_update_laws [OF assms, of u f] by (simp_all add: GetMachine_def)
  show "kp_inv ma_machine_id (snd (ReleaseMachine u mm))"
    by (rule machines.release_cases [OF assms, of u]) (use assms in auto)
  show "GetMachine v (snd (ReleaseMachine u mm)) = (if v = u then None else GetMachine v mm)"
    by (rule machines.release_cases [OF assms, of u]) auto
  have c: "CreateMachine u mm = (False, mm) \<or> (\<exists>s'. CreateMachine u mm = (True, s') \<and> kp_inv ma_machine_id s'
      \<and> (\<forall>j. GetMachine j s' = (if j = u then Some (machine0\<lparr>ma_machine_id := u\<rparr>) else GetMachine j mm)))"
    using machines.create_full [OF assms, of u] machines.create_room [OF assms, of u] by (cases "kp_room mm = 0") auto
  show "kp_inv ma_machine_id (snd (CreateMachine u mm))"
    using c assms by auto
  show "fst (CreateMachine u mm) \<Longrightarrow> GetMachine v (snd (CreateMachine u mm)) = (if v = u then Some (machine0\<lparr>ma_machine_id := u\<rparr>) else GetMachine v mm)"
    "\<not> fst (CreateMachine u mm) \<Longrightarrow> snd (CreateMachine u mm) = mm"
    using c by auto
qed

lemma player_pool:
  assumes "kp_inv py_player_id pm"
  shows "\<forall>p. py_player_id p = u \<longrightarrow> py_player_id (f p) = u \<Longrightarrow> kp_inv py_player_id (kp_update u f pm)"
    "\<forall>p. py_player_id p = u \<longrightarrow> py_player_id (f p) = u \<Longrightarrow>
       GetPlayer v (kp_update u f pm) = (if v = u then map_option f (GetPlayer u pm) else GetPlayer v pm)"
    "kp_inv py_player_id (snd (ReleasePlayer u pm))"
    "kp_inv py_player_id (snd (CreatePlayer u pm))"
    "fst (CreatePlayer u pm) \<Longrightarrow> GetPlayer v (snd (CreatePlayer u pm)) = (if v = u then Some (player0\<lparr>py_player_id := u\<rparr>) else GetPlayer v pm)"
proof -
  show "\<forall>p. py_player_id p = u \<longrightarrow> py_player_id (f p) = u \<Longrightarrow> kp_inv py_player_id (kp_update u f pm)"
    "\<forall>p. py_player_id p = u \<longrightarrow> py_player_id (f p) = u \<Longrightarrow>
       GetPlayer v (kp_update u f pm) = (if v = u then map_option f (GetPlayer u pm) else GetPlayer v pm)"
    using kp_update_laws [OF assms, of u f] by (simp_all add: GetPlayer_def)
  show "kp_inv py_player_id (snd (ReleasePlayer u pm))"
    by (rule players.release_cases [OF assms, of u]) (use assms in auto)
  have c: "CreatePlayer u pm = (False, pm) \<or> (\<exists>s'. CreatePlayer u pm = (True, s') \<and> kp_inv py_player_id s'
      \<and> (\<forall>j. GetPlayer j s' = (if j = u then Some (player0\<lparr>py_player_id := u\<rparr>) else GetPlayer j pm)))"
    using players.create_full [OF assms, of u] players.create_room [OF assms, of u] by (cases "kp_room pm = 0") auto
  show "kp_inv py_player_id (snd (CreatePlayer u pm))"
    using c assms by auto
  show "fst (CreatePlayer u pm) \<Longrightarrow> GetPlayer v (snd (CreatePlayer u pm)) = (if v = u then Some (player0\<lparr>py_player_id := u\<rparr>) else GetPlayer v pm)"
    using c by auto
qed

lemma get_machine_id: "world_ok w \<Longrightarrow> get_machine u w = Some m \<Longrightarrow> ma_machine_id m = u"
  using kp_Get_key by (auto simp: world_ok_def get_machine_def GetMachine_def)

lemma get_player_id: "world_ok w \<Longrightarrow> get_player u w = Some p \<Longrightarrow> py_player_id p = u"
  using kp_Get_key by (auto simp: world_ok_def get_player_def GetPlayer_def)

subsection \<open>What the helpers leave alone\<close>

lemma emit_frame [frame_simps]:
  "w_machines (snd (emit env e w)) = w_machines w" "w_players (snd (emit env e w)) = w_players w"
  "w_timers (snd (emit env e w)) = w_timers w"
  by (simp_all add: emit_def)

lemma to_client_frame [frame_simps]:
  "w_machines (snd (snd (SendMsgToClient_to env h msg cl w))) = w_machines w"
  "w_players (snd (snd (SendMsgToClient_to env h msg cl w))) = w_players w"
  "w_timers (snd (snd (SendMsgToClient_to env h msg cl w))) = w_timers w"
  by (simp_all add: SendMsgToClient_to_def Let_def split_beta frame_simps)

lemma client_frame [frame_simps]:
  "w_machines (snd (snd (SendMsgToClient env cl s w))) = w_machines w"
  "w_players (snd (snd (SendMsgToClient env cl s w))) = w_players w"
  "w_timers (snd (snd (SendMsgToClient env cl s w))) = w_timers w"
  "se_session_id (fst (snd (SendMsgToClient env cl s w))) = se_session_id s"
  by (simp_all add: SendMsgToClient_def Let_def split_beta frame_simps)

lemma response_frame [frame_simps]:
  "w_machines (snd (snd (SendMsgToResponse env s w))) = w_machines w"
  "w_players (snd (snd (SendMsgToResponse env s w))) = w_players w"
  "w_timers (snd (snd (SendMsgToResponse env s w))) = w_timers w"
  "se_session_id (fst (snd (SendMsgToResponse env s w))) = se_session_id s"
  by (simp_all add: SendMsgToResponse_def SendMsgToResponse_to_def Let_def split_beta frame_simps)

lemma server_frame [frame_simps]:
  "w_machines (snd (snd (SendMsgToServer env t i msg so w))) = w_machines w"
  "w_players (snd (snd (SendMsgToServer env t i msg so w))) = w_players w"
  "w_timers (snd (snd (SendMsgToServer env t i msg so w))) = w_timers w"
  by (simp_all add: SendMsgToServer_def Let_def split_beta frame_simps)

lemma common_err_frame [frame_simps]:
  "w_machines (SendCommonErr env h r w) = w_machines w" "w_players (SendCommonErr env h r w) = w_players w"
  "w_timers (SendCommonErr env h r w) = w_timers w"
  by (simp_all add: SendCommonErr_def frame_simps)

lemma internal_frame [frame_simps]:
  "w_machines (snd (SendMsgToInternal env msg w)) = w_machines w" "w_players (snd (SendMsgToInternal env msg w)) = w_players w"
  "w_timers (snd (SendMsgToInternal env msg w)) = w_timers w"
  by (simp_all add: SendMsgToInternal_def frame_simps)

lemma helper_frame [frame_simps]:
  "w_machines (w_internal env b w) = w_machines w" "w_players (w_internal env b w) = w_players w"
  "w_timers (w_internal env b w) = w_timers w"
  "w_machines (w_client env h c cl w) = w_machines w" "w_players (w_client env h c cl w) = w_players w"
  "w_timers (w_client env h c cl w) = w_timers w"
  "w_machines (w_wechat u t i n w) = w_machines w" "w_players (w_wechat u t i n w) = w_players w"
  "w_timers (w_wechat u t i n w) = w_timers w"
  "w_machines (snd (w_rand w)) = w_machines w" "w_players (snd (w_rand w)) = w_players w"
  "w_timers (snd (w_rand w)) = w_timers w"
  "w_machines (kick_elsewhere env d here w) = w_machines w" "w_players (kick_elsewhere env d here w) = w_players w"
  "w_timers (kick_elsewhere env d here w) = w_timers w"
  "w_machines (H5_Release mid w) = w_machines w" "w_players (H5_Release mid w) = w_players w" "w_timers (H5_Release mid w) = w_timers w"
  "w_machines (snd (H5_Alloc env w)) = w_machines w" "w_players (snd (H5_Alloc env w)) = w_players w"
  "w_timers (snd (H5_Alloc env w)) = w_timers w"
  by (simp_all add: w_internal_def w_client_def w_wechat_def w_rand_def kick_elsewhere_def H5_Release_def H5_Alloc_def Let_def
      split_beta frame_simps split: list.split option.split)

lemma timer_frame [frame_simps]:
  "w_machines (w_ReleaseTimer tid w) = w_machines w" "w_players (w_ReleaseTimer tid w) = w_players w"
  "w_machines (snd (w_CreateTimer env sec b w)) = w_machines w" "w_players (snd (w_CreateTimer env sec b w)) = w_players w"
  "w_machines (snd (w_CreateTimerMsec env sec b w)) = w_machines w" "w_players (snd (w_CreateTimerMsec env sec b w)) = w_players w"
  by (simp_all add: w_ReleaseTimer_def w_CreateTimer_def w_CreateTimerMsec_def Let_def split_beta)

lemma pool_frame [frame_simps]:
  "w_players (upd_machine u f w) = w_players w" "w_timers (upd_machine u f w) = w_timers w"
  "w_machines (upd_player u g w) = w_machines w" "w_timers (upd_player u g w) = w_timers w"
  "w_players (m_refresh env u w) = w_players w" "w_machines (p_refresh env u w) = w_machines w"
  "w_players (m_wait env u sec b st w) = w_players w" "w_machines (p_wait env u sec b st w) = w_machines w"
  "w_machines (p_next_game u p w) = w_machines w"
  by (simp_all add: upd_machine_def upd_player_def m_refresh_def p_refresh_def m_wait_def p_wait_def p_next_game_def
      Let_def split_beta frame_simps split: option.split)

lemma session_frame [frame_simps]:
  "se_session_id (rsp f s) = se_session_id s" "se_session_id (set_result r s) = se_session_id s"
  "se_session_id (AddQueryKey u k s) = se_session_id s" "se_session_id (SetDBData i d s) = se_session_id s"
  "se_session_id (fst (notify_machine env m s w)) = se_session_id s"
  "w_machines (snd (notify_machine env m s w)) = w_machines w" "w_players (snd (notify_machine env m s w)) = w_players w"
  "w_timers (snd (notify_machine env m s w)) = w_timers w"
  by (simp_all add: rsp_def set_result_def AddQueryKey_def SetDBData_def notify_machine_def Let_def split_beta frame_simps)

text \<open>A world with the same pools; only the lookup of machines matters to the games.\<close>

lemma get_machine_cong: "w_machines w' = w_machines w \<Longrightarrow> get_machine u w' = get_machine u w"
  by (simp add: get_machine_def)

lemma m_state_cong: "w_machines w' = w_machines w \<Longrightarrow> m_state u w' = m_state u w"
  by (simp add: m_state_def get_machine_def)

lemma get_player_cong: "w_players w' = w_players w \<Longrightarrow> get_player u w' = get_player u w"
  by (simp add: get_player_def)

lemma world_ok_cong:
  "w_machines w' = w_machines w \<Longrightarrow> w_players w' = w_players w \<Longrightarrow> w_timers w' = w_timers w \<Longrightarrow> world_ok w' = world_ok w"
  by (simp add: world_ok_def)

lemmas machine_same [frame_simps] =
  emit_frame(1) [THEN get_machine_cong] to_client_frame(1) [THEN get_machine_cong]
  client_frame(1) [THEN get_machine_cong] response_frame(1) [THEN get_machine_cong]
  server_frame(1) [THEN get_machine_cong] common_err_frame(1) [THEN get_machine_cong]
  internal_frame(1) [THEN get_machine_cong] helper_frame(1) [THEN get_machine_cong]
  helper_frame(4) [THEN get_machine_cong] helper_frame(7) [THEN get_machine_cong]
  helper_frame(10) [THEN get_machine_cong] helper_frame(13) [THEN get_machine_cong]
  helper_frame(16) [THEN get_machine_cong] helper_frame(19) [THEN get_machine_cong]
  timer_frame(1) [THEN get_machine_cong] timer_frame(3) [THEN get_machine_cong] timer_frame(5) [THEN get_machine_cong]
  pool_frame(3) [THEN get_machine_cong] pool_frame(6) [THEN get_machine_cong] pool_frame(8) [THEN get_machine_cong]
  pool_frame(9) [THEN get_machine_cong] session_frame(6) [THEN get_machine_cong]

lemmas state_same [frame_simps] =
  emit_frame(1) [THEN m_state_cong] to_client_frame(1) [THEN m_state_cong] client_frame(1) [THEN m_state_cong]
  response_frame(1) [THEN m_state_cong] server_frame(1) [THEN m_state_cong] common_err_frame(1) [THEN m_state_cong]
  internal_frame(1) [THEN m_state_cong] helper_frame(1) [THEN m_state_cong] helper_frame(4) [THEN m_state_cong]
  helper_frame(7) [THEN m_state_cong] helper_frame(10) [THEN m_state_cong] helper_frame(13) [THEN m_state_cong]
  helper_frame(16) [THEN m_state_cong] helper_frame(19) [THEN m_state_cong] timer_frame(1) [THEN m_state_cong]
  timer_frame(3) [THEN m_state_cong] timer_frame(5) [THEN m_state_cong] pool_frame(3) [THEN m_state_cong]
  pool_frame(6) [THEN m_state_cong] pool_frame(8) [THEN m_state_cong] pool_frame(9) [THEN m_state_cong]
  session_frame(6) [THEN m_state_cong]

lemmas player_same [frame_simps] =
  emit_frame(2) [THEN get_player_cong] to_client_frame(2) [THEN get_player_cong]
  client_frame(2) [THEN get_player_cong] response_frame(2) [THEN get_player_cong]
  server_frame(2) [THEN get_player_cong] common_err_frame(2) [THEN get_player_cong]
  internal_frame(2) [THEN get_player_cong] helper_frame(2) [THEN get_player_cong]
  helper_frame(5) [THEN get_player_cong] helper_frame(8) [THEN get_player_cong]
  helper_frame(11) [THEN get_player_cong] helper_frame(14) [THEN get_player_cong]
  helper_frame(17) [THEN get_player_cong] helper_frame(20) [THEN get_player_cong]
  timer_frame(2) [THEN get_player_cong] timer_frame(4) [THEN get_player_cong] timer_frame(6) [THEN get_player_cong]
  pool_frame(1) [THEN get_player_cong] pool_frame(5) [THEN get_player_cong] pool_frame(7) [THEN get_player_cong]
  session_frame(7) [THEN get_player_cong]

lemmas ok_same [frame_simps] =
  emit_frame(1) [THEN world_ok_cong, OF emit_frame(2) emit_frame(3)]
  to_client_frame(1) [THEN world_ok_cong, OF to_client_frame(2) to_client_frame(3)]
  client_frame(1) [THEN world_ok_cong, OF client_frame(2) client_frame(3)]
  response_frame(1) [THEN world_ok_cong, OF response_frame(2) response_frame(3)]
  server_frame(1) [THEN world_ok_cong, OF server_frame(2) server_frame(3)]
  common_err_frame(1) [THEN world_ok_cong, OF common_err_frame(2) common_err_frame(3)]
  internal_frame(1) [THEN world_ok_cong, OF internal_frame(2) internal_frame(3)]
  helper_frame(1) [THEN world_ok_cong, OF helper_frame(2) helper_frame(3)]
  helper_frame(4) [THEN world_ok_cong, OF helper_frame(5) helper_frame(6)]
  helper_frame(7) [THEN world_ok_cong, OF helper_frame(8) helper_frame(9)]
  helper_frame(10) [THEN world_ok_cong, OF helper_frame(11) helper_frame(12)]
  helper_frame(13) [THEN world_ok_cong, OF helper_frame(14) helper_frame(15)]
  helper_frame(16) [THEN world_ok_cong, OF helper_frame(17) helper_frame(18)]
  helper_frame(19) [THEN world_ok_cong, OF helper_frame(20) helper_frame(21)]
  session_frame(6) [THEN world_ok_cong, OF session_frame(7) session_frame(8)]

lemma out_same [frame_simps]:
  "world_ok (w\<lparr>w_out := es\<rparr>) = world_ok w" "m_state u (w\<lparr>w_out := es\<rparr>) = m_state u w"
  "get_machine u (w\<lparr>w_out := es\<rparr>) = get_machine u w" "get_player u (w\<lparr>w_out := es\<rparr>) = get_player u w"
  by (simp_all add: world_ok_def m_state_def get_machine_def get_player_def)

subsection \<open>What the helpers change\<close>

lemma ok_timer [frame_simps]:
  assumes "world_ok w"
  shows "world_ok (w_ReleaseTimer tid w)" "world_ok (snd (w_CreateTimer env sec b w))" "world_ok (snd (w_CreateTimerMsec env sec b w))"
  using assms timers_keep
  by (simp_all add: world_ok_def w_ReleaseTimer_def w_CreateTimer_def w_CreateTimerMsec_def Let_def split_beta)

lemma ok_upd_machine [frame_simps]:
  assumes "world_ok w" "\<forall>m. ma_machine_id m = u \<longrightarrow> ma_machine_id (f m) = u"
  shows "world_ok (upd_machine u f w)"
    "get_machine v (upd_machine u f w) = (if v = u then map_option f (get_machine u w) else get_machine v w)"
    "\<forall>m. ma_game_state (f m) = ma_game_state m \<Longrightarrow> m_state v (upd_machine u f w) = m_state v w"
  using assms machine_pool(1,2) [of "w_machines w" u f]
  by (auto simp: world_ok_def upd_machine_def get_machine_def m_state_def split: option.split)

lemma ok_set_state [frame_simps]:
  assumes "world_ok w"
  shows "m_state v (upd_machine u (\<lambda>m. m\<lparr>ma_game_state := st\<rparr>) w) = (if v = u \<and> get_machine u w \<noteq> None then st else m_state v w)"
    "m_state v (upd_machine u (\<lambda>m. m\<lparr>ma_timer_id := tid, ma_game_state := st\<rparr>) w) =
       (if v = u \<and> get_machine u w \<noteq> None then st else m_state v w)"
  using assms by (auto simp: m_state_def ok_upd_machine split: option.split)

lemma ok_upd_player [frame_simps]:
  assumes "world_ok w" "\<forall>p. py_player_id p = u \<longrightarrow> py_player_id (f p) = u"
  shows "world_ok (upd_player u f w)"
    "get_player v (upd_player u f w) = (if v = u then map_option f (get_player u w) else get_player v w)"
  using assms player_pool(1,2) [of "w_players w" u f] by (auto simp: world_ok_def upd_player_def get_player_def)

lemma ok_wait [frame_simps]:
  assumes "world_ok w"
  shows "world_ok (m_wait env u sec b st w)" "world_ok (p_wait env u sec b st w)" "world_ok (p_next_game u p w)"
    "m_state v (m_wait env u sec b st w) = (if v = u \<and> get_machine u w \<noteq> None then st else m_state v w)"
    "\<exists>tid. get_machine v (m_wait env u sec b st w) =
       (if v = u then map_option (\<lambda>m. m\<lparr>ma_timer_id := tid, ma_game_state := st\<rparr>) (get_machine u w) else get_machine v w)"
  using assms by (auto simp: m_wait_def p_wait_def p_next_game_def Let_def split_beta frame_simps m_state_def split: option.split)

lemma ok_refresh [frame_simps]:
  assumes "world_ok w"
  shows "world_ok (m_refresh env u w)" "world_ok (p_refresh env u w)" "m_state v (m_refresh env u w) = m_state v w"
    "\<exists>tid. get_machine v (m_refresh env u w) =
       (if v = u then map_option (\<lambda>m. m\<lparr>ma_timer_id := tid\<rparr>) (get_machine u w) else get_machine v w)"
proof -
  have t: "world_ok (w\<lparr>w_timers := snd (Machine_RefreshTimer (me_now env) m (w_timers w))\<rparr>)"
     "world_ok (w\<lparr>w_timers := snd (Player_RefreshTimer (me_now env) p (w_timers w))\<rparr>)" for m p
    using assms refresh_keeps(1,2) by (simp_all add: world_ok_def)
  have g: "get_machine v (w\<lparr>w_timers := tm\<rparr>) = get_machine v w" for v tm by (simp add: get_machine_def)
  have "world_ok (m_refresh env u w) \<and> m_state v (m_refresh env u w) = m_state v w \<and> (\<exists>tid. get_machine v (m_refresh env u w) =
       (if v = u then map_option (\<lambda>m. m\<lparr>ma_timer_id := tid\<rparr>) (get_machine u w) else get_machine v w))"
  proof (cases "get_machine u w")
    case (Some m)
    obtain tid where r: "fst (Machine_RefreshTimer (me_now env) m (w_timers w)) = m\<lparr>ma_timer_id := tid\<rparr>"
      using refresh_keeps(3) by blast
    have "\<forall>k. ma_machine_id k = u \<longrightarrow> ma_machine_id (fst (Machine_RefreshTimer (me_now env) m (w_timers w))) = u"
      using get_machine_id [OF assms Some] by (simp add: r)
    note U = ok_upd_machine [OF t(1) this]
    show ?thesis using Some U r by (auto simp: m_refresh_def Let_def split_beta g m_state_def split: option.split)
  qed (simp add: m_refresh_def assms)
  then show "world_ok (m_refresh env u w)" "m_state v (m_refresh env u w) = m_state v w"
    "\<exists>tid. get_machine v (m_refresh env u w) =
       (if v = u then map_option (\<lambda>m. m\<lparr>ma_timer_id := tid\<rparr>) (get_machine u w) else get_machine v w)" by blast+
  show "world_ok (p_refresh env u w)"
  proof (cases "get_player u w")
    case (Some p)
    obtain tid where r: "fst (Player_RefreshTimer (me_now env) p (w_timers w)) = p\<lparr>py_timer_id := tid\<rparr>"
      using refresh_keeps(4) by blast
    have "\<forall>k. py_player_id k = u \<longrightarrow> py_player_id (fst (Player_RefreshTimer (me_now env) p (w_timers w))) = u"
      using get_player_id [OF assms Some] by (simp add: r)
    from ok_upd_player(1) [OF t(2) this] Some show ?thesis by (simp add: p_refresh_def Let_def split_beta)
  qed (simp add: p_refresh_def assms)
qed

subsection \<open>Steps\<close>

definition holds :: "('a \<Rightarrow> bool) \<Rightarrow> 'a option \<Rightarrow> bool" where
  "holds P x \<longleftrightarrow> (\<forall>y. x = Some y \<longrightarrow> P y)"

lemma holds_simps [simp]:
  "holds P None" "holds P (Some y) = P y" "holds P (x \<bind> f) = (\<forall>y. x = Some y \<longrightarrow> holds P (f y))"
  "holds P (map_option g x) = (\<forall>y. x = Some y \<longrightarrow> P (g y))"
  by (auto simp: holds_def bind_eq_Some_conv)

text \<open>What a step has to keep; \<open>paid\<close> tells whether it may begin a play, of its own machine.\<close>

definition good :: "bool \<Rightarrow> session \<Rightarrow> lip_world \<Rightarrow> hresult \<times> session \<times> lip_world \<Rightarrow> bool" where
  "good paid s w = (\<lambda>(r, s', w'). (r = H_Next \<longrightarrow> w' = w) \<and> se_session_id s' = se_session_id s \<and> world_ok w'
     \<and> (\<forall>u. game_step (paid \<and> u = s_uid s) (m_state u w) (m_state u w')))"

definition step_keeps :: "bool \<Rightarrow> lip_world hstep \<Rightarrow> bool" where
  "step_keeps paid f \<longleftrightarrow> (\<forall>s w. world_ok w \<longrightarrow> holds (good paid s w) (f s w))"

lemma holds_reply [simp]:
  "holds P (reply env s w) = P (H_Done, fst (snd (SendMsgToClient env False s w)), snd (snd (SendMsgToClient env False s w)))"
  "holds P (fail env code f s w) = holds P (reply env (rsp f (set_result code s)) w)"
  "holds P (web_reply env b s w) = (let s1 = s\<lparr>se_ss_response := (se_ss_response s)\<lparr>ss_body := Some b\<rparr>\<rparr> in
     P (H_Done, fst (snd (SendMsgToResponse env s1 w)), snd (snd (SendMsgToResponse env s1 w))))"
  "holds P (reply_twice env f s w) = holds P (reply env (rsp f (fst (snd (SendMsgToClient env False s w))))
     (snd (snd (SendMsgToClient env False s w))))"
  by (simp_all add: reply_def fail_def web_reply_def reply_twice_def Let_def split_beta)

lemma on_account_Some [simp]:
  "(on_account f s w = Some y) = (\<exists>d. cur_data s = Some d \<and> y =
     (let (x, a) = f \<lparr>ac_db = d, ac_events = [], ac_points = []\<rparr>
      in (x, (SetDBData (unat (se_process_index s)) (ac_db a) s)\<lparr>se_events := se_events s @ ac_events a\<rparr>,
          w\<lparr>w_out := w_out w @ map (\<lambda>(u, n, r). PointCommand u n r) (ac_points a)\<rparr>)))"
  by (auto simp: on_account_def cur_data_def Let_def split_beta split: option.splits)

lemma set_cur_data_Some [simp]:
  "(set_cur_data f s = Some y) = (\<exists>d. cur_data s = Some d \<and> y = SetDBData (unat (se_process_index s)) (f d) s)"
  by (auto simp: set_cur_data_def cur_data_def Let_def split: option.splits)

lemma draw_Some:
  "draw env d c z s w = Some y \<Longrightarrow> snd y = snd (w_rand w)"
  by (auto simp: draw_def bind_eq_Some_conv Let_def split_beta)

lemma state_of [simp]: "get_machine u w = Some m \<Longrightarrow> m_state u w = ma_game_state m"
  by (simp add: m_state_def)

lemma report_prize_ok:
  "report_prize env u pid w = Some y \<Longrightarrow> world_ok w \<longrightarrow> world_ok y \<and> (\<forall>v. m_state v y = m_state v w)"
  by (auto simp: report_prize_def bind_eq_Some_conv Let_def frame_simps dest: get_machine_id split: option.splits)

lemma p_report_prize_ok:
  "p_report_prize env u pid w = Some y \<Longrightarrow> world_ok w \<longrightarrow> world_ok y \<and> (\<forall>v. m_state v y = m_state v w)"
  by (auto simp: p_report_prize_def bind_eq_Some_conv Let_def frame_simps dest: get_player_id split: option.splits)

lemmas step_defs = step_keeps_def good_def Let_def split_beta

lemma keeps_Start: "step_keeps False (StartGame_OnMessage env)" "step_keeps False (StartGame_OnQuerySuccess env)"
    "step_keeps True (StartGame_OnSaveSuccess env)"
  by (auto simp: step_defs StartGame_OnMessage_def StartGame_OnQuerySuccess_def StartGame_OnSaveSuccess_def frame_simps
      dest!: draw_Some split: option.split)

lemma keeps_Retry: "step_keeps False (RetryGame_OnMessage env)" "step_keeps False (RetryGame_OnQuerySuccess env)"
    "step_keeps False (RetryGame_OnSaveSuccess env)"
  by (auto simp: step_defs RetryGame_OnMessage_def RetryGame_OnQuerySuccess_def RetryGame_OnSaveSuccess_def m_fail_time_def frame_simps
      dest!: draw_Some split: option.split)

lemma keeps_HeartBeat: "step_keeps False (HeartBeat_OnMessage env)"
  by (auto simp: step_defs HeartBeat_OnMessage_def frame_simps)

lemma keeps_MLogin: "step_keeps False (MLoginGame_OnMessage env)" "step_keeps False (MLoginGame_OnQuerySuccess env)"
    "step_keeps False (MLoginGame_OnSaveSuccess env)"
  by (auto simp: step_defs MLoginGame_OnMessage_def MLoginGame_OnQuerySuccess_def MLoginGame_OnSaveSuccess_def frame_simps)

lemma keeps_PLogin: "step_keeps False (PlayerLogin_OnMessage env)" "step_keeps False (PlayerLogin_OnQuerySuccess env)"
    "step_keeps False (PlayerLogin_OnSaveSuccess env)"
  by (auto simp: step_defs PlayerLogin_OnMessage_def PlayerLogin_OnQuerySuccess_def PlayerLogin_OnSaveSuccess_def m_beat_def frame_simps
      split: option.split)

lemma keeps_BuyIn: "step_keeps False (PlayerBuyIn_OnMessage env)" "step_keeps False (PlayerBuyIn_OnQuerySuccess env)"
    "step_keeps False (PlayerBuyIn_OnSaveSuccess env)"
  by (auto simp: step_defs PlayerBuyIn_OnMessage_def PlayerBuyIn_OnQuerySuccess_def PlayerBuyIn_OnSaveSuccess_def m_beat_def frame_simps
      split: option.split)

lemma keeps_End: "step_keeps False (EndGame_OnMessage env)" "step_keeps False (EndGame_OnQuerySuccess env)"
    "step_keeps False (EndGame_OnSaveSuccess env)"
  by (auto simp: step_defs EndGame_OnMessage_def EndGame_OnQuerySuccess_def EndGame_OnSaveSuccess_def m_fail_time_def next_game_def frame_simps
      dest!: report_prize_ok split: option.split)

lemma keeps_Lottery: "step_keeps False (Lottery_OnMessage env)" "step_keeps False (Lottery_OnQuerySuccess env)"
    "step_keeps False (Lottery_OnSaveSuccess env)"
  by (auto simp: step_defs Lottery_OnMessage_def Lottery_OnQuerySuccess_def Lottery_OnSaveSuccess_def next_game_def frame_simps
      dest!: report_prize_ok split: option.split list.split if_splits)

lemma keeps_LotteryEnd: "step_keeps False (LotteryEnd_OnMessage env)"
  by (auto simp: step_defs LotteryEnd_OnMessage_def frame_simps)

lemma keeps_Buy: "step_keeps False (BuyPrize_OnMessage env)" "step_keeps False (BuyPrize_OnQuerySuccess env)"
    "step_keeps False (BuyPrize_OnSaveSuccess env)"
  by (auto simp: step_defs BuyPrize_OnMessage_def BuyPrize_OnQuerySuccess_def BuyPrize_OnSaveSuccess_def next_game_def frame_simps
      split: option.split if_splits)

lemma keeps_Logout1: "step_keeps False (PlayerLogout_OnMessage env)"
  by (auto simp: step_defs PlayerLogout_OnMessage_def frame_simps reply_def)

subsection \<open>The H5 handlers\<close>

lemma keeps_LoginH5: "step_keeps False (LoginGameH5_OnMessage env)" "step_keeps False (LoginGameH5_OnQuerySuccess env)"
    "step_keeps False (LoginGameH5_OnSaveSuccess env)"
  by (auto simp: step_defs LoginGameH5_OnMessage_def LoginGameH5_OnQuerySuccess_def LoginGameH5_OnSaveSuccess_def frame_simps)

lemma keeps_StartH5: "step_keeps False (StartGameH5_OnMessage env)" "step_keeps False (StartGameH5_OnQuerySuccess env)"
    "step_keeps False (StartGameH5_OnSaveSuccess env)"
  by (auto simp: step_defs StartGameH5_OnMessage_def StartGameH5_OnQuerySuccess_def StartGameH5_OnSaveSuccess_def frame_simps
      dest!: draw_Some split: option.split)

lemma keeps_RetryH5: "step_keeps False (RetryGameH5_OnMessage env)" "step_keeps False (RetryGameH5_OnQuerySuccess env)"
    "step_keeps False (RetryGameH5_OnSaveSuccess env)"
  by (auto simp: step_defs RetryGameH5_OnMessage_def RetryGameH5_OnQuerySuccess_def RetryGameH5_OnSaveSuccess_def p_fail_time_def frame_simps
      dest!: draw_Some split: option.split)

lemma keeps_EndH5: "step_keeps False (EndGameH5_OnMessage env)" "step_keeps False (EndGameH5_OnQuerySuccess env)"
    "step_keeps False (EndGameH5_OnSaveSuccess env)"
  by (auto simp: step_defs EndGameH5_OnMessage_def EndGameH5_OnQuerySuccess_def EndGameH5_OnSaveSuccess_def p_fail_time_def frame_simps
      dest!: p_report_prize_ok split: option.split)

lemma keeps_LotteryH5: "step_keeps False (LotteryH5_OnMessage env)" "step_keeps False (LotteryH5_OnQuerySuccess env)"
    "step_keeps False (LotteryH5_OnSaveSuccess env)"
  by (auto simp: step_defs LotteryH5_OnMessage_def LotteryH5_OnQuerySuccess_def LotteryH5_OnSaveSuccess_def frame_simps
      dest!: p_report_prize_ok split: option.split list.split if_splits)

lemma keeps_LotteryEndH5: "step_keeps False (LotteryEndH5_OnMessage env)"
  by (auto simp: step_defs LotteryEndH5_OnMessage_def frame_simps)

lemma keeps_BuyH5: "step_keeps False (BuyPrizeH5_OnMessage env)" "step_keeps False (BuyPrizeH5_OnQuerySuccess env)"
    "step_keeps False (BuyPrizeH5_OnSaveSuccess env)"
  by (auto simp: step_defs BuyPrizeH5_OnMessage_def BuyPrizeH5_OnQuerySuccess_def BuyPrizeH5_OnSaveSuccess_def frame_simps
      split: option.split if_splits)

subsection \<open>Logout and login\<close>

text \<open>A change after which every machine is in the game it was in, or without a player.\<close>

definition quits :: "lip_world \<Rightarrow> lip_world \<Rightarrow> bool" where
  "quits w w' \<longleftrightarrow> (world_ok w \<longrightarrow> world_ok w' \<and> (\<forall>u. m_state u w' = m_state u w \<or> m_state u w' = Wait_Player))"

lemma quits_refl [simp]: "quits w w"
  by (simp add: quits_def)

lemma quits_trans: "quits w w1 \<Longrightarrow> quits w1 w2 \<Longrightarrow> quits w w2"
  unfolding quits_def by metis

lemma quits_step: "quits w w' \<Longrightarrow> world_ok w \<Longrightarrow> game_step paid (m_state u w) (m_state u w')"
  unfolding quits_def by (metis game_step.stay game_step.gone)

lemma quits_settle: "quits w (settle_machine env m w)" "quits w (settle_player env p w)"
  by (auto simp: quits_def settle_machine_def settle_player_def Let_def frame_simps split: option.split)

lemma quits_release:
  "quits w (w\<lparr>w_machines := snd (ReleaseMachine v (w_machines w))\<rparr>)"
  "quits w (w\<lparr>w_players := snd (ReleasePlayer v (w_players w))\<rparr>)"
  using machine_pool(3,4) player_pool(3) by (auto simp: quits_def world_ok_def m_state_def get_machine_def)

lemma quits_LogoutMachine: "quits w (LogoutMachine env uid n r c w)"
proof (cases "get_machine uid w")
  case (Some m)
  let ?w1 = "settle_machine env m w"
  let ?w2 = "if n then w_client env (m_head env m) (CsNotifyLogout r) True ?w1 else ?w1"
  let ?w3 = "if c then w_internal env (InLogout (ma_machine_id m)) ?w2 else ?w2"
  have "quits ?w1 ?w3" by (auto simp: quits_def frame_simps)
  with quits_settle(1) have "quits w ?w3" by (rule quits_trans)
  from quits_trans [OF this quits_release(1)] Some show ?thesis by (simp add: LogoutMachine_def Let_def)
qed (simp add: LogoutMachine_def)

lemma quits_LogoutPlayer: "quits w (LogoutPlayer env uid n r c w)"
proof (cases "get_player uid w")
  case (Some p)
  let ?w1 = "settle_player env p w"
  let ?w2 = "if n then w_client env (p_head env p) (CsNotifyLogout r) True ?w1 else ?w1"
  let ?w3 = "if c then w_internal env (InLogout (py_player_id p)) ?w2 else ?w2"
  let ?w4 = "case d_uid (py_machine p) of None \<Rightarrow> ?w3 | Some mid \<Rightarrow> H5_Release mid ?w3"
  have "quits ?w1 ?w4" by (auto simp: quits_def frame_simps split: option.split)
  with quits_settle(2) have "quits w ?w4" by (rule quits_trans)
  from quits_trans [OF this quits_release(2)] Some show ?thesis by (simp add: LogoutPlayer_def Let_def)
qed (simp add: LogoutPlayer_def)

lemma quits_create:
  "quits w (w\<lparr>w_machines := snd (CreateMachine v (w_machines w))\<rparr>)"
  "quits w (w\<lparr>w_players := snd (CreatePlayer v (w_players w))\<rparr>)"
proof -
  have g: "GetMachine u (snd (CreateMachine v mm)) = GetMachine u mm
      \<or> GetMachine u (snd (CreateMachine v mm)) = Some (machine0\<lparr>ma_machine_id := v\<rparr>)" if "kp_inv ma_machine_id mm" for u mm
    using machine_pool(6,7) [OF that, of v] by (cases "fst (CreateMachine v mm)") auto
  show "quits w (w\<lparr>w_machines := snd (CreateMachine v (w_machines w))\<rparr>)"
  proof (unfold quits_def, intro impI conjI allI)
    assume w: "world_ok w"
    then show "world_ok (w\<lparr>w_machines := snd (CreateMachine v (w_machines w))\<rparr>)"
      using machine_pool(5) by (simp add: world_ok_def)
    fix u
    show "m_state u (w\<lparr>w_machines := snd (CreateMachine v (w_machines w))\<rparr>) = m_state u w
        \<or> m_state u (w\<lparr>w_machines := snd (CreateMachine v (w_machines w))\<rparr>) = Wait_Player"
      using g [of "w_machines w" u] w by (auto simp: world_ok_def m_state_def get_machine_def machine0_def)
  qed
  show "quits w (w\<lparr>w_players := snd (CreatePlayer v (w_players w))\<rparr>)"
    using player_pool(4) by (auto simp: quits_def world_ok_def m_state_def get_machine_def)
qed

lemma quits_upd:
  "\<forall>m. ma_machine_id (f m) = ma_machine_id m \<and> ma_game_state (f m) = ma_game_state m \<Longrightarrow> quits w (upd_machine u f w)"
  "\<forall>p. py_player_id (g p) = py_player_id p \<Longrightarrow> quits w (upd_player u g w)"
  by (auto simp: quits_def frame_simps)

lemma quits_refuse: "quits w (snd (refuse_login env head r b w))" "quits w (SendCommonErr env head r w)"
    "quits w (snd (emit env e w))"
  by (simp_all add: refuse_login_def quits_def frame_simps)

lemma quits_machine_login: "quits w (snd (OnMachineLogin env head msg w))"
proof -
  let ?u = "cs_uid msg"
  let ?w1 = "if get_machine ?u w = None then w else LogoutMachine env ?u True EN_Logout_Multi_Login False w"
  let ?w2 = "snd (emit env (NotifyLogicIndex head ?u) ?w1)"
  let ?w3 = "?w2\<lparr>w_machines := snd (CreateMachine ?u (w_machines ?w2))\<rparr>"
  have w1: "quits w ?w1" by (simp add: quits_LogoutMachine)
  note w2 = quits_trans [OF w1 quits_refuse(3)]
  note w3 = quits_trans [OF w2 quits_create(1)]
  have "snd (OnMachineLogin env head msg w) \<in> {w'. quits w w' \<or> quits ?w2 w' \<or> quits ?w3 w'}"
    by (auto simp: OnMachineLogin_def Let_def split_beta quits_refuse quits_upd)
  then show ?thesis using quits_trans [OF w2] quits_trans [OF w3] by blast
qed

lemma quits_player_login: "quits w (snd (OnPlayerLogin env head msg w))"
proof -
  let ?u = "cs_uid msg"
  let ?w1 = "if get_player ?u w = None then w else LogoutPlayer env ?u True EN_Logout_Multi_Login False w"
  let ?w2 = "snd (emit env (NotifyLogicIndex head ?u) ?w1)"
  let ?w3 = "?w2\<lparr>w_players := snd (CreatePlayer ?u (w_players ?w2))\<rparr>"
  have w1: "quits w ?w1" by (simp add: quits_LogoutPlayer)
  note w2 = quits_trans [OF w1 quits_refuse(3)]
  note w3 = quits_trans [OF w2 quits_create(2)]
  have "snd (OnPlayerLogin env head msg w) \<in> {w'. quits w w' \<or> quits ?w2 w' \<or> quits ?w3 w'}"
    by (auto simp: OnPlayerLogin_def Let_def split_beta quits_refuse quits_upd)
  then show ?thesis using quits_trans [OF w2] quits_trans [OF w3] by blast
qed

lemma quits_check: "quits w (snd (OnLoginCheck env head msg w))"
  by (auto simp: OnLoginCheck_def Let_def quits_refuse quits_upd split: option.split)

lemma quits_filter: "quits w (snd (MessageFilter env head buf w))"
proof (cases "le_parse_cs env buf")
  case (Some msg)
  have "quits w (snd (case cs_body msg of
              Some (CsReqMLoginGame _) \<Rightarrow> OnMachineLogin env head msg w
            | Some (CsReqLoginGame _) \<Rightarrow> OnPlayerLogin env head msg w
            | _ \<Rightarrow> OnLoginCheck env head msg w))"
    by (simp add: quits_machine_login quits_player_login quits_check split: option.split cs_body.split)
  then show ?thesis by (simp add: MessageFilter_def Some Let_def split_beta)
qed (simp add: MessageFilter_def quits_refuse)

subsection \<open>The internal and server handlers\<close>

lemma ok_player_gone [frame_simps]:
  assumes "world_ok w"
  shows "world_ok (player_gone env uid m w)"
    "m_state v (player_gone env uid m w) = (if v = uid \<and> get_machine uid w \<noteq> None then Wait_Player else m_state v w)"
  using assms by (simp_all add: player_gone_def frame_simps)

lemma ok_next [frame_simps]:
  assumes "world_ok w"
  shows "world_ok (m_buy_or_next env uid m w)" "world_ok (m_next_told env uid m w)"
    "m_state v (m_next_told env uid m w) = (if v = uid \<and> get_machine uid w \<noteq> None then Wait_Start else m_state v w)"
    "m_state v (m_buy_or_next env uid m w) = m_state v w \<or> v = uid \<and> m_state v (m_buy_or_next env uid m w) \<in> {Wait_Buy, Wait_Start}"
  using assms by (auto simp: m_buy_or_next_def m_next_told_def next_game_def Let_def frame_simps)

lemma keeps_internal:
  "step_keeps False (Logout_OnMessage env)" "step_keeps False (Logout_OnQuerySuccess env)" "step_keeps False (just_done env)"
  "step_keeps False (ClearBuyIn_OnMessage env)" "step_keeps False (ClearBuyIn_OnQuerySuccess env)"
  "step_keeps False (GameRefund_OnMessage env)" "step_keeps False (GameRefund_OnQuerySuccess env)"
  "step_keeps False (UpdateMachinePrize_OnMessage env)" "step_keeps False (UpdateMachinePrize_OnQuerySuccess env)"
  "step_keeps False (GameRecord_OnMessage env)" "step_keeps False (GameRecord_OnQuerySuccess env)"
  by (auto simp: step_defs Logout_OnMessage_def Logout_OnQuerySuccess_def just_done_def ClearBuyIn_OnMessage_def
      ClearBuyIn_OnQuerySuccess_def GameRefund_OnMessage_def GameRefund_OnQuerySuccess_def UpdateMachinePrize_OnMessage_def
      UpdateMachinePrize_OnQuerySuccess_def GameRecord_OnMessage_def GameRecord_OnQuerySuccess_def ProcessPlayer_def
      ProcessGlobal_def frame_simps split: option.split if_splits)

lemma keeps_StartTimeout: "step_keeps False (StartTimeout_OnMessage env)"
  by (auto simp: step_defs StartTimeout_OnMessage_def frame_simps split: option.split)

lemma keeps_EndTimeout: "step_keeps False (EndTimeout_OnMessage env)"
  by (auto simp: step_defs EndTimeout_OnMessage_def frame_simps split: option.split)

lemma keeps_LotteryTimeout: "step_keeps False (LotteryTimeout_OnMessage env)"
proof (unfold step_keeps_def, intro allI impI)
  fix s w assume w: "world_ok w"
  have "game_step False (m_state u w) (m_state u (m_buy_or_next env v m w))"
    if "get_machine v w = Some m" "ma_game_state m = Wait_Lottery" for u v m
    using ok_next(4) [OF w, of u env v m] that by auto
  then show "holds (good False s w) (LotteryTimeout_OnMessage env s w)"
    using w by (auto simp: good_def Let_def LotteryTimeout_OnMessage_def frame_simps split: option.split)
qed

lemma keeps_LotteryEndTimeout: "step_keeps False (LotteryEndTimeout_OnMessage env)"
  by (auto simp: step_defs LotteryEndTimeout_OnMessage_def frame_simps split: option.split)

lemma keeps_LotteryAniTimeout: "step_keeps False (LotteryAniTimeout_OnMessage env)"
proof (unfold step_keeps_def, intro allI impI)
  fix s w assume w: "world_ok w"
  have "game_step False (m_state u w) (m_state u (m_buy_or_next env v m w))"
    if "get_machine v w = Some m" "ma_game_state m = Wait_Lottery_Ani" for u v m
    using ok_next(4) [OF w, of u env v m] that by auto
  then show "holds (good False s w) (LotteryAniTimeout_OnMessage env s w)"
    using w by (auto simp: good_def Let_def LotteryAniTimeout_OnMessage_def frame_simps split: option.split)
qed

lemma keeps_BuyTimeout: "step_keeps False (BuyTimeout_OnMessage env)" "step_keeps False (BuyAniTimeout_OnMessage env)"
  by (auto simp: step_defs BuyTimeout_OnMessage_def BuyAniTimeout_OnMessage_def frame_simps split: option.split)

lemma keeps_servers: "step_keeps False (PlayerGold_OnMessage env)" "step_keeps False (NotifyPoint_OnMessage env)" "step_keeps False (UpdateConfig_OnMessage env)"
  by (auto simp: step_defs UpdateConfig_OnMessage_def PlayerGold_OnMessage_def NotifyPoint_OnMessage_def frame_simps split: option.split)

lemma keeps_KickPlayer: "step_keeps False (KickPlayer_OnMessage env)"
proof (unfold step_keeps_def, intro allI impI)
  fix s w assume w: "world_ok w"
  then have "world_ok (LogoutPlayer env u True 1 False w)" "game_step False (m_state v w) (m_state v (LogoutPlayer env u True 1 False w))" for u v
    using quits_LogoutPlayer quits_step unfolding quits_def by blast+
  then show "holds (good False s w) (KickPlayer_OnMessage env s w)"
    using w by (auto simp: good_def Let_def split_beta KickPlayer_OnMessage_def frame_simps split: option.split)
qed

lemma keeps_LogoutH5: "step_keeps False (PlayerLogoutH5_OnMessage env)"
proof (unfold step_keeps_def, intro allI impI)
  fix s w assume w: "world_ok w"
  then have "world_ok (LogoutPlayer env u False 0 True w)" "game_step False (m_state v w) (m_state v (LogoutPlayer env u False 0 True w))" for u v
    using quits_LogoutPlayer quits_step unfolding quits_def by blast+
  then show "holds (good False s w) (PlayerLogoutH5_OnMessage env s w)"
    using w by (auto simp: good_def Let_def split_beta PlayerLogoutH5_OnMessage_def frame_simps)
qed

end
