(* ===== verification/LipstickRun.thy ===== *)
theory LipstickRun
  imports LipstickInv
begin

text \<open>
  What a whole event of the game server keeps: the handlers of \<open>MessageManager\<close> run through
  \<open>Process\<close>, the entry points of \<open>GameServer\<close>, and runs of events. The properties say who may
  speak for a machine, that the pools stay consistent, that games go along their arrows and that
  only a stored charge begins a play.
\<close>

subsection \<open>Handlers\<close>

definition handler_keeps :: "bool \<Rightarrow> lip_world handler \<Rightarrow> bool" where
  "handler_keeps paid h \<longleftrightarrow> step_keeps False (h_OnMessage h) \<and> step_keeps False (h_OnServerResponse h)
     \<and> step_keeps False (h_OnQuerySuccess h) \<and> step_keeps paid (h_OnSaveSuccess h)
     \<and> step_keeps False (h_OnQueryFailed h) \<and> step_keeps False (h_OnSaveFailed h)"

lemma base_steps:
  "step_keeps p (h_OnMessage (lip_base env))" "step_keeps p (h_OnServerResponse (lip_base env))"
  "step_keeps p (h_OnQuerySuccess (lip_base env))" "step_keeps p (h_OnSaveSuccess (lip_base env))"
  "step_keeps p (h_OnQueryFailed (lip_base env))" "step_keeps p (h_OnSaveFailed (lip_base env))"
  by (simp_all add: step_defs lip_base_def base_handler_def frame_simps)

lemma keeps_full: "step_keeps False (f env) \<Longrightarrow> step_keeps False (g env) \<Longrightarrow> step_keeps p (k env) \<Longrightarrow> handler_keeps p (full_handler env f g k)"
  using base_steps by (simp add: handler_keeps_def full_handler_def)

lemma keeps_msg: "step_keeps False f \<Longrightarrow> handler_keeps p ((lip_base env)\<lparr>h_OnMessage := f\<rparr>)"
  using base_steps by (simp add: handler_keeps_def)

lemma keeps_Record: "step_keeps False (GameRecord_OnSaveSuccess env)"
  by (simp add: step_defs GameRecord_OnSaveSuccess_def)

lemmas handler_defs =
  HandlerHeartBeat_def HandlerMLoginGame_def HandlerStartGame_def HandlerRetryGame_def HandlerEndGame_def HandlerLottery_def
  HandlerLotteryEnd_def HandlerBuyPrize_def HandlerPlayerLogout_def HandlerLoginGameH5_def HandlerStartGameH5_def
  HandlerRetryGameH5_def HandlerEndGameH5_def HandlerLotteryH5_def HandlerLotteryEndH5_def HandlerBuyPrizeH5_def
  HandlerPlayerLogoutH5_def HandlerPlayerLogin_def HandlerPlayerBuyIn_def HandlerNotifyPoint_def HandlerKickPlayer_def
  HandlerPlayerGold_def HandlerLogout_def HandlerClearBuyIn_def HandlerStartTimeout_def HandlerEndTimeout_def
  HandlerLotteryTimeout_def HandlerLotteryEndTimeout_def HandlerLotteryAniTimeout_def HandlerBuyTimeout_def
  HandlerBuyAniTimeout_def HandlerGameRefund_def HandlerUpdateMachinePrize_def HandlerGameRecord_def HandlerUpdateConfig_def msg_handler_def

lemmas step_lemmas =
  keeps_HeartBeat keeps_MLogin keeps_PLogin keeps_BuyIn keeps_Start keeps_Retry keeps_End keeps_Lottery keeps_LotteryEnd keeps_Buy
  keeps_Logout1 keeps_LoginH5 keeps_StartH5 keeps_RetryH5 keeps_EndH5 keeps_LotteryH5 keeps_LotteryEndH5 keeps_BuyH5 keeps_LogoutH5
  keeps_internal keeps_StartTimeout keeps_EndTimeout keeps_LotteryTimeout keeps_LotteryEndTimeout keeps_LotteryAniTimeout
  keeps_BuyTimeout keeps_servers keeps_KickPlayer keeps_Record

lemma lip_handlers_keep:
  "lip_handlers env i = Some h \<Longrightarrow> handler_keeps (i = 1016) h"
  unfolding lip_handlers_def
  by (drule map_of_SomeD) (auto simp: handler_defs intro!: keeps_full keeps_msg step_lemmas)

subsection \<open>Process\<close>

lemma hashed_frame [frame_simps]:
  "w_machines (snd (snd (send_hashed t env m s w))) = w_machines w" "w_players (snd (snd (send_hashed t env m s w))) = w_players w"
  "w_timers (snd (snd (send_hashed t env m s w))) = w_timers w"
  "se_session_id (fst (snd (send_hashed t env m s w))) = se_session_id s"
  by (simp_all add: send_hashed_def Let_def split_beta frame_simps)

text \<open>A change that leaves the pools of the world and the session's id alone.\<close>

definition calm :: "session \<Rightarrow> 'w world_scheme \<Rightarrow> session \<times> 'w world_scheme \<Rightarrow> bool" where
  "calm s w x \<longleftrightarrow> se_session_id (fst x) = se_session_id s \<and> w_machines (snd x) = w_machines w
     \<and> w_players (snd x) = w_players w \<and> w_timers (snd x) = w_timers w"

lemma calm_refl [simp]: "calm s w (s, w)"
  by (simp add: calm_def)

lemma calm_trans: "calm s w x \<Longrightarrow> calm (fst x) (snd x) y \<Longrightarrow> calm s w y"
  by (simp add: calm_def)

lemma calm_hashed: "calm s w (snd (send_hashed t env m s w))"
  by (simp add: calm_def frame_simps)

lemma calm_build: "calm s w (snd (build_query env ps s w))"
proof (induction ps arbitrary: s w)
  case (Cons p ps)
  have "calm s w (snd (build_query env ps (fst (snd (send_hashed t env m s w))) (snd (snd (send_hashed t env m s w)))))" for t m
    by (rule calm_trans [OF calm_hashed Cons.IH])
  then show ?case by (simp add: Let_def split_beta SendMsgToDBProxy_def Cons.IH)
qed simp

lemma calm_query: "calm s w (snd (QueryAllData env s w))"
  using calm_build [of s w env "se_db_processs s"]
  by (simp add: QueryAllData_def SendQueryToDBProxy_def calm_def split_beta)

lemma calm_more: "calm s w x \<Longrightarrow> se_session_id s' = se_session_id (fst x) \<Longrightarrow> calm s w (s', snd x)"
  by (simp add: calm_def)

lemma calm_set: "calm s w (SetDBData i d s, w)"
  by (simp add: calm_def frame_simps)

lemma calm_save: "calm s w (snd (SaveOneData env s w))"
proof (cases "GetDBData (unat (se_process_index s)) s")
  case (Some d)
  let ?s1 = "\<lambda>d1. SetDBData (unat (se_process_index s)) d1 s"
  have c: "calm s w (snd (send_hashed t env m (?s1 d1) w))" for t m d1
    using calm_trans [OF calm_set calm_hashed] by simp
  have c2: "calm s w ((fst (snd x))\<lparr>se_session_state := st\<rparr>, snd (snd x))" if "calm s w (snd x)" for x st
    using that by (simp add: calm_def)
  show ?thesis
    by (simp add: SaveOneData_def SendSaveToDBProxy_def Some Let_def split_beta SendMsgToDBProxy_def c c2 calm_set)
qed (simp add: SaveOneData_def SendSaveToDBProxy_def)

lemma calm_event: "calm s w (s, snd (SendMsgToEvent env e w))"
  by (simp add: calm_def SendMsgToEvent_def frame_simps)

lemma calm_post: "calm s w (post_events env es s w)"
proof (induction es arbitrary: s w)
  case (Cons e es)
  let ?w1 = "snd (SendMsgToEvent env e w)"
  have a: "calm s w (post_events env es s ?w1)"
    using calm_trans [OF calm_event Cons.IH] by simp
  have b: "calm s w (post_events env es (fst (snd (send_hashed t env m s ?w1))) (snd (snd (send_hashed t env m s ?w1))))" for t m
    using calm_trans [OF calm_event calm_trans [OF calm_hashed Cons.IH]] by simp
  show ?case by (simp add: Let_def split_beta SendMsgToPromoter_def a b calm_event)
qed simp

lemma calm_same: "calm s w x \<Longrightarrow> m_state u (snd x) = m_state u w \<and> world_ok (snd x) = world_ok w"
  unfolding calm_def m_state_def world_ok_def get_machine_def by simp

text \<open>The end of a message: the session, if it is still there, has its id.\<close>

definition ends :: "bool \<Rightarrow> session \<Rightarrow> lip_world \<Rightarrow> (session option \<times> lip_world) outcome option \<Rightarrow> bool" where
  "ends paid s w x \<longleftrightarrow> (\<forall>so w'. x = Some (Ret (so, w')) \<longrightarrow> (\<forall>s'. so = Some s' \<longrightarrow> se_session_id s' = se_session_id s)
     \<and> world_ok w' \<and> (\<forall>u. game_step (paid \<and> u = s_uid s) (m_state u w) (m_state u w')))"

lemma ends_calm:
  assumes "good paid s w (r, s1, w1)" "calm s1 w1 x"
  shows "ends paid s w (Some (Ret (Some (fst x), snd x)))" "ends paid s w (Some (Ret (None, snd x)))"
proof -
  have "m_state u (snd x) = m_state u w1" "world_ok (snd x) = world_ok w1" for u
    using calm_same [OF assms(2)] by blast+
  moreover have "se_session_id s1 = se_session_id s" "world_ok w1" "\<forall>u. game_step (paid \<and> u = s_uid s) (m_state u w) (m_state u w1)"
    "se_session_id (fst x) = se_session_id s1"
    using assms unfolding good_def calm_def by blast+
  ultimately show "ends paid s w (Some (Ret (Some (fst x), snd x)))" "ends paid s w (Some (Ret (None, snd x)))"
    unfolding ends_def by auto
qed

lemma good_calm:
  assumes "good paid s w (r, s1, w1)" "calm s1 w1 x" "r' \<noteq> H_Next"
  shows "good paid s w (r', x)"
proof -
  have "m_state u (snd x) = m_state u w1" "world_ok (snd x) = world_ok w1" for u
    using calm_same [OF assms(2)] by blast+
  moreover have "se_session_id s1 = se_session_id s" "world_ok w1" "\<forall>u. game_step (paid \<and> u = s_uid s) (m_state u w) (m_state u w1)"
    "se_session_id (fst x) = se_session_id s1"
    using assms(1,2) unfolding good_def calm_def by blast+
  ultimately show ?thesis using assms(3) unfolding good_def by (cases x) auto
qed

lemma query_no_next: "fst (QueryAllData env s w) \<noteq> H_Next" and save_no_next: "fst (SaveOneData env s w) \<noteq> H_Next"
  by (simp_all add: QueryAllData_def SaveOneData_def split_beta)

lemma game_step_mono: "game_step False a b \<Longrightarrow> game_step p a b"
  by (induction "False" a b rule: game_step.induct) simp_all

lemma good_next:
  assumes h: "step_keeps False (h_OnQuerySuccess h)" and w: "world_ok w"
    and g: "good paid s w (H_Next, s1, w1)" and n: "ProcessNext h s1 w1 = Some x"
  shows "good paid s w x"
proof -
  let ?s2 = "s1\<lparr>se_process_index := se_process_index s1 + 1\<rparr>"
  have w1: "w1 = w" "se_session_id s1 = se_session_id s" using g by (auto simp: good_def)
  have "good False ?s2 w y" if "h_OnQuerySuccess h ?s2 w = Some y" for y
    using h w that unfolding step_keeps_def holds_def by blast
  moreover have "good paid s w y" if "good False ?s2 w y" for y
  proof -
    obtain r' s' w' where y: "y = (r', s', w')" by (rule prod_cases3)
    from that have "game_step False (m_state u w) (m_state u w')" for u unfolding good_def y by simp
    then have "game_step (paid \<and> u = s_uid s) (m_state u w) (m_state u w')" for u by (rule game_step_mono)
    with that w1(2) show ?thesis unfolding good_def y by simp
  qed
  moreover have "good paid s w (H_Done, ?s2, w)" using g unfolding good_def w1(1) by simp
  ultimately show ?thesis using n unfolding ProcessNext_def Let_def w1(1) by (auto split: if_splits)
qed

lemma loop_ends:
  assumes h: "step_keeps False (h_OnQuerySuccess h)" and w: "world_ok w"
  shows "good paid s w (r, s1, w1) \<Longrightarrow> ends paid s w (process_loop env h r s1 w1)"
proof (unfold ends_def, intro allI impI)
  fix so w' assume g: "good paid s w (r, s1, w1)" and "process_loop env h r s1 w1 = Some (Ret (so, w'))"
  from this(2) have "good paid s w (r, s1, w1) \<longrightarrow> ends paid s w (Some (Ret (so, w')))"
  proof (rule process_loop.raw_induct [rotated, where P = "\<lambda>env h' r s1 w1 y. h' = h \<longrightarrow> good paid s w (r, s1, w1) \<longrightarrow> ends paid s w (Some y)", THEN mp])
    fix loop env h' r s1 w1 y
    assume IH: "\<And>env h' r s1 w1 y. loop env h' r s1 w1 = Some y \<Longrightarrow> h' = h \<longrightarrow> good paid s w (r, s1, w1) \<longrightarrow> ends paid s w (Some y)"
      and step: "(case r of
        H_Query \<Rightarrow> loop env h' (fst (QueryAllData env s1 w1)) (fst (snd (QueryAllData env s1 w1))) (snd (snd (QueryAllData env s1 w1)))
      | H_Save \<Rightarrow> loop env h' (fst (SaveOneData env s1 w1)) (fst (snd (SaveOneData env s1 w1))) (snd (snd (SaveOneData env s1 w1)))
      | H_Next \<Rightarrow> (case ProcessNext h' s1 w1 of None \<Rightarrow> Some Crash | Some x \<Rightarrow> loop env h' (fst x) (fst (snd x)) (snd (snd x)))
      | H_Done \<Rightarrow> Some (ProcessDone env s1 w1) | H_Failed \<Rightarrow> Some (ProcessFailed s1 w1) | H_Hup \<Rightarrow> Some (Ret (Some s1, w1))) = Some y"
    show "h' = h \<longrightarrow> good paid s w (r, s1, w1) \<longrightarrow> ends paid s w (Some y)"
    proof (intro impI)
      assume h': "h' = h" and g: "good paid s w (r, s1, w1)"
      note ec = ends_calm [OF g]
      show "ends paid s w (Some y)"
      proof (cases r)
        case H_Query
        have "good paid s w (fst (QueryAllData env s1 w1), snd (QueryAllData env s1 w1))"
          using g calm_query [of s1 w1 env] query_no_next [of env s1 w1] by (rule good_calm)
        with IH step h' H_Query show ?thesis by simp
      next
        case H_Save
        have "good paid s w (fst (SaveOneData env s1 w1), snd (SaveOneData env s1 w1))"
          using g calm_save [of s1 w1 env] save_no_next [of env s1 w1] by (rule good_calm)
        with IH step h' H_Save show ?thesis by simp
      next
        case H_Next
        show ?thesis
        proof (cases "ProcessNext h s1 w1")
          case None
          with step H_Next h' show ?thesis by (auto simp: ends_def)
        next
          case (Some x)
          from good_next [OF h w g [unfolded H_Next] this] have "good paid s w (fst x, fst (snd x), snd (snd x))" by simp
          with IH step h' H_Next Some show ?thesis by simp
        qed
      next
        case H_Done
        with step ec(2) [OF calm_post] show ?thesis by (auto simp: ProcessDone_def OnPostMessage_def)
      qed (use step ec(1,2) [OF calm_refl] in \<open>auto simp: ProcessFailed_def\<close>)
    qed
  qed simp
  then show "(\<forall>s'. so = Some s' \<longrightarrow> se_session_id s' = se_session_id s)
     \<and> world_ok w' \<and> (\<forall>u. game_step (paid \<and> u = s_uid s) (m_state u w) (m_state u w'))"
    using g by (simp add: ends_def)
qed

lemma good_session:
  assumes "good False s1 w x" "se_session_id s1 = se_session_id s"
  shows "good paid s w x"
proof -
  obtain r s' w' where x: "x = (r, s', w')" by (rule prod_cases3)
  from assms(1) have "game_step False (m_state u w) (m_state u w')" for u unfolding good_def x by simp
  then have "game_step (paid \<and> u = s_uid s) (m_state u w) (m_state u w')" for u by (rule game_step_mono)
  with assms show ?thesis unfolding good_def x by simp
qed

text \<open>Only the answer that the charge is stored may begin a play.\<close>

definition charge_stored :: "session \<Rightarrow> bool" where
  "charge_stored s \<longleftrightarrow> se_msg_id s = 1016 \<and> se_session_state s = Wait_Save \<and> fst (rsp_save s) = EN_KVDB_Sucess"

lemma keeps_step: "step_keeps p f \<Longrightarrow> world_ok w \<Longrightarrow> f s w = Some x \<Longrightarrow> good p s w x"
  unfolding step_keeps_def holds_def by blast

lemma keeps_any: "step_keeps False f \<Longrightarrow> world_ok w \<Longrightarrow> se_session_id s1 = se_session_id s \<Longrightarrow> f s1 w = Some x \<Longrightarrow> good p s w x"
  using keeps_step good_session by blast

lemma keeps_calm: "good p s w (H_Hup, SetDBData i d s, w)" if "world_ok w"
  using that by (simp add: good_def frame_simps)

lemma query_good:
  assumes "handler_keeps paid h" "world_ok w" "QueryResponse env h s w = Some x"
  shows "good p s w x"
proof -
  obtain r u ds where q: "rsp_query s = (r, u, ds)" by (rule prod_cases3)
  have k: "h_OnQueryFailed h s w = Some x \<Longrightarrow> good p s w x" "h_OnQuerySuccess h (SetDBData i d s) w = Some x \<Longrightarrow> good p s w x" for i d
    using assms(1,2) keeps_any unfolding handler_keeps_def by (blast, metis session_frame(4))
  show ?thesis using assms(3) keeps_calm [OF assms(2)]
    by (auto simp: QueryResponse_def q Let_def k split: if_splits option.splits)
qed

lemma save_good:
  assumes "handler_keeps (se_msg_id s = 1016) h" "world_ok w" "SaveResponse env h s w = Some x" "se_session_state s = Wait_Save"
  shows "good (charge_stored s) s w x"
proof -
  obtain r u ds where q: "rsp_save s = (r, u, ds)" by (rule prod_cases3)
  have f: "h_OnSaveFailed h s1 w = Some x \<Longrightarrow> se_session_id s1 = se_session_id s \<Longrightarrow> good p s w x"
    "h_OnQuerySuccess h s1 w = Some x \<Longrightarrow> se_session_id s1 = se_session_id s \<Longrightarrow> good p s w x" for s1 p
    using assms(1,2) keeps_any unfolding handler_keeps_def by blast+
  have ids: "se_session_id (s\<lparr>se_redo_count := c\<rparr>) = se_session_id s"
    "se_session_id (ClearEvents (SetDBData i d (s\<lparr>se_redo_count := c\<rparr>))) = se_session_id s" for c i d
    by (simp_all add: ClearEvents_def SetDBData_def)
  have ok: "h_OnSaveSuccess h s w = Some x \<Longrightarrow> r = EN_KVDB_Sucess \<Longrightarrow> good (charge_stored s) s w x"
    using keeps_step [of "se_msg_id s = 1016" "h_OnSaveSuccess h" w s x] assms(1,2,4)
    unfolding handler_keeps_def charge_stored_def q by simp
  show ?thesis using assms(3) ok f ids
    by (auto simp: SaveResponse_def q Let_def split: if_splits option.splits)
qed

lemma Process_ends:
  assumes h: "handler_keeps (se_msg_id s = 1016) h" and w: "world_ok w"
  shows "ends (charge_stored s) s w (Process env h s w)"
proof -
  let ?first = "case se_session_state s of
              On_Message \<Rightarrow> h_OnMessage h s w
            | Wait_Response \<Rightarrow> h_OnServerResponse h s w
            | Wait_Query \<Rightarrow> QueryResponse env h s w
            | Wait_Save \<Rightarrow> SaveResponse env h s w"
  have "good (charge_stored s) s w x" if "?first = Some x" for x
  proof -
    have steps: "h_OnMessage h s w = Some x \<Longrightarrow> good (charge_stored s) s w x" "h_OnServerResponse h s w = Some x \<Longrightarrow> good (charge_stored s) s w x"
      using h w keeps_any unfolding handler_keeps_def by blast+
    show ?thesis using that steps query_good [OF h w, of env s x "charge_stored s"] save_good [OF h w, of env x]
      by (cases "se_session_state s") simp_all
  qed
  moreover have "step_keeps False (h_OnQuerySuccess h)" using h by (simp add: handler_keeps_def)
  ultimately have "ends (charge_stored s) s w (process_loop env h r s1 w1)" if "?first = Some (r, s1, w1)" for r s1 w1
    using loop_ends [OF _ w] that by blast
  then show ?thesis unfolding Process_def by (cases "?first") (auto simp: ends_def)
qed

lemma lip_Process_ends: "world_ok w \<Longrightarrow> ends (charge_stored s) s w (lip_Process env s w)"
proof (cases "lip_handlers env (se_msg_id s)")
  case (Some h)
  assume "world_ok w"
  from Process_ends [OF lip_handlers_keep [OF Some] this] Some show ?thesis by (simp add: lip_Process_def)
qed (simp add: lip_Process_def ends_def)

subsection \<open>The server\<close>

definition ls_ok :: "lip_server \<Rightarrow> bool" where
  "ls_ok gs \<longleftrightarrow> world_ok (ls_world gs) \<and> kp_inv se_session_id (ls_sessions gs)"

text \<open>What a call of \<open>Process\<close> on the session leaves.\<close>

lemma process_session_keeps:
  assumes ok: "ls_ok gs" and p: "\<And>s. se_session_id (prepare s) = se_session_id s" and r: "process_session env sid prepare gs = Some (Ret gs')"
  shows "ls_ok gs'"
    "game_step (\<exists>s. GetSession sid (ls_sessions gs) = Some s \<and> charge_stored (prepare s) \<and> u = s_uid (prepare s))
       (m_state u (ls_world gs)) (m_state u (ls_world gs'))"
proof -
  have w: "world_ok (ls_world gs)" and k: "kp_inv se_session_id (ls_sessions gs)" using ok by (simp_all add: ls_ok_def)
  have "ls_ok gs' \<and> game_step (\<exists>s. GetSession sid (ls_sessions gs) = Some s \<and> charge_stored (prepare s) \<and> u = s_uid (prepare s))
       (m_state u (ls_world gs)) (m_state u (ls_world gs'))"
  proof (cases "GetSession sid (ls_sessions gs)")
    case None
    with r ok show ?thesis by (simp add: process_session_def)
  next
    case (Some s)
    have sid: "se_session_id (prepare s) = sid" using session_pool(4) [OF k Some] p by simp
    note E = lip_Process_ends [OF w, of "prepare s" env]
    obtain so w' where x: "lip_Process env (prepare s) (ls_world gs) = Some (Ret (so, w'))"
      using r Some by (auto simp: process_session_def split: option.splits outcome.splits)
    with E have e: "\<And>s'. so = Some s' \<Longrightarrow> se_session_id s' = sid" "world_ok w'"
        "game_step (charge_stored (prepare s) \<and> u = s_uid (prepare s)) (m_state u (ls_world gs)) (m_state u w')"
      using sid by (auto simp: ends_def)
    have "ls_world gs' = w'" "ls_ok gs'"
      using r Some x e(1,2) session_pool(2,3) [OF k] by (auto simp: process_session_def ls_ok_def split: option.splits)
    with e(3) Some show ?thesis by simp
  qed
  then show "ls_ok gs'" "game_step (\<exists>s. GetSession sid (ls_sessions gs) = Some s \<and> charge_stored (prepare s) \<and> u = s_uid (prepare s))
       (m_state u (ls_world gs)) (m_state u (ls_world gs'))" by simp_all
qed

text \<open>The frame's calls of the server's entry points.\<close>

datatype lip_event = Ev_Client connect_head "byte list" | Ev_Offline connect_head u64 | Ev_Server proxy_head "byte list"
  | Ev_Internal "byte list" | Ev_Routine

definition lip_event_step :: "lip_env \<Rightarrow> lip_event \<Rightarrow> lip_server \<Rightarrow> lip_server outcome option" where
  "lip_event_step env e gs = (case e of
     Ev_Client head buf \<Rightarrow> OnClientMessage env head buf gs
   | Ev_Offline head idx \<Rightarrow> Some (Ret (OnClientOffline env head idx gs))
   | Ev_Server head buf \<Rightarrow> OnServerMessage env head buf gs
   | Ev_Internal buf \<Rightarrow> OnInternalMessage env buf gs
   | Ev_Routine \<Rightarrow> Some (Ret (OnRoutineCheck env gs)))"

text \<open>A run, each event at its own time; a crash ends the process, a handler that does not return ends the run.\<close>

fun lip_run :: "(lip_env \<times> lip_event) list \<Rightarrow> lip_server \<Rightarrow> lip_server outcome option" where
  "lip_run [] gs = Some (Ret gs)"
| "lip_run ((env, e) # es) gs = (case lip_event_step env e gs of
     None \<Rightarrow> None | Some Crash \<Rightarrow> Some Crash | Some (Ret gs1) \<Rightarrow> lip_run es gs1)"

text \<open>The session whose answer an event brings.\<close>

definition answered :: "lip_env \<Rightarrow> lip_event \<Rightarrow> lip_server \<Rightarrow> session option" where
  "answered env e gs = (case e of
     Ev_Server head buf \<Rightarrow> (case le_parse_ss env buf of
         None \<Rightarrow> None
       | Some msg \<Rightarrow> if ss_type msg = EN_SS_Request then None
           else map_option (\<lambda>s. s\<lparr>se_ss_response := msg\<rparr>) (GetSession (px_session_id head) (ls_sessions gs)))
   | _ \<Rightarrow> None)"

definition charge_for :: "u64 \<Rightarrow> session option \<Rightarrow> bool" where
  "charge_for u so \<longleftrightarrow> (case so of None \<Rightarrow> False | Some s \<Rightarrow> charge_stored s \<and> s_uid s = u)"

text \<open>What an event keeps, step by step.\<close>

definition ev_keeps :: "(u64 \<Rightarrow> bool) \<Rightarrow> lip_server \<Rightarrow> lip_server \<Rightarrow> bool" where
  "ev_keeps paid gs gs' \<longleftrightarrow> (ls_ok gs \<longrightarrow> ls_ok gs' \<and> (\<forall>u. game_step (paid u) (m_state u (ls_world gs)) (m_state u (ls_world gs'))))"

lemma ev_keeps_quits:
  assumes "quits (ls_world gs) (ls_world gs')" "kp_inv se_session_id (ls_sessions gs) \<Longrightarrow> kp_inv se_session_id (ls_sessions gs')"
  shows "ev_keeps paid gs gs'"
proof (unfold ev_keeps_def, intro impI conjI allI)
  assume ok: "ls_ok gs"
  then have w: "world_ok (ls_world gs)" by (simp add: ls_ok_def)
  with assms ok show "ls_ok gs'" by (simp add: ls_ok_def quits_def)
  fix u show "game_step (paid u) (m_state u (ls_world gs)) (m_state u (ls_world gs'))"
    by (rule quits_step [OF assms(1) w])
qed

text \<open>A fresh session has no charge stored.\<close>

lemma fresh_session:
  assumes k: "kp_inv se_session_id (ls_sessions gs)" and c: "CreateSession now i (ls_sessions gs) = (Some sid, sm)"
    and w: "world_ok w" and st: "\<And>s. se_session_state (prepare s) = se_session_state s" and id: "\<And>s. se_session_id (prepare s) = se_session_id s"
    and r: "process_session env sid prepare (gs\<lparr>ls_sessions := sm, ls_world := w\<rparr>) = Some (Ret gs')"
  shows "ls_ok gs'" "game_step False (m_state u w) (m_state u (ls_world gs'))"
proof -
  have ok: "ls_ok (gs\<lparr>ls_sessions := sm, ls_world := w\<rparr>)"
    using session_pool(1) [OF k, of now i] c w by (simp add: ls_ok_def)
  show "ls_ok gs'" by (rule process_session_keeps(1) [OF ok id r])
  have "\<not> charge_stored (prepare s)" if "GetSession sid sm = Some s" for s
    using session_pool(5) [OF k c] that st by (simp add: charge_stored_def)
  then have no: "(\<exists>s. GetSession sid (ls_sessions (gs\<lparr>ls_sessions := sm, ls_world := w\<rparr>)) = Some s \<and> charge_stored (prepare s)
      \<and> u = s_uid (prepare s)) = False" by auto
  show "game_step False (m_state u w) (m_state u (ls_world gs'))"
    using process_session_keeps(2) [OF ok id r, of u, unfolded no] by simp
qed

text \<open>A login leaves the handler nothing to do with the machines.\<close>

lemma loop_machines:
  assumes "process_loop env h r s w = Some (Ret (so, w'))" "r \<noteq> H_Next"
  shows "w_machines w' = w_machines w"
proof -
  have n: "fst (QueryAllData env s w) \<in> {H_Hup, H_Failed}" "fst (SaveOneData env s w) \<in> {H_Hup, H_Failed}"
    by (simp_all add: QueryAllData_def SaveOneData_def split_beta)
  show ?thesis
    using assms calm_query [of s w env] calm_save [of s w env] calm_post [of s w env "se_events s"] n
    by (cases r; subst (asm) process_loop.simps) (auto simp: calm_def ProcessDone_def ProcessFailed_def OnPostMessage_def)
qed

lemma login_calm:
  assumes "se_session_state s = On_Message" "se_msg_id s = 1012 \<or> se_msg_id s = 5000" "lip_Process env s w = Some (Ret (so, w'))"
  shows "w_machines w' = w_machines w"
proof -
  have h: "lip_handlers env 1012 = Some (HandlerMLoginGame env)" "lip_handlers env 5000 = Some (HandlerLoginGameH5 env)"
    by (simp_all add: lip_handlers_def)
  have m: "MLoginGame_OnMessage env s w = Some x \<Longrightarrow> w_machines (snd (snd x)) = w_machines w \<and> fst x \<noteq> H_Next"
    "LoginGameH5_OnMessage env s w = Some x \<Longrightarrow> w_machines (snd (snd x)) = w_machines w \<and> fst x \<noteq> H_Next" for x
    by (auto simp: MLoginGame_OnMessage_def LoginGameH5_OnMessage_def Let_def split_beta frame_simps split: if_splits)
  from assms show ?thesis
    by (auto simp: lip_Process_def h Process_def HandlerMLoginGame_def HandlerLoginGameH5_def full_handler_def
        split: option.splits dest!: m loop_machines)
qed

lemma check_state: "world_ok w \<Longrightarrow> m_state u (snd (OnLoginCheck env head msg w)) = m_state u w"
  by (simp add: OnLoginCheck_def Let_def frame_simps split: option.split)

lemma filter_state:
  assumes f: "MessageFilter env head buf w = (Some msg, w1)" and w: "world_ok w"
  shows "cs_union_case msg = 1012 \<or> cs_union_case msg = 5000 \<or> (\<forall>u. m_state u w1 = m_state u w)"
proof -
  have p: "le_parse_cs env buf = Some msg"
    using f by (auto simp: MessageFilter_def Let_def split_beta split: option.splits if_splits)
  let ?x = "case cs_body msg of Some (CsReqMLoginGame _) \<Rightarrow> OnMachineLogin env head msg w
      | Some (CsReqLoginGame _) \<Rightarrow> OnPlayerLogin env head msg w | _ \<Rightarrow> OnLoginCheck env head msg w"
  have x: "w1 = snd ?x" using f by (simp add: MessageFilter_def p Let_def split_beta)
  have c: "cs_union_case msg = 1012 \<or> cs_union_case msg = 5000 \<or> w1 = snd (OnLoginCheck env head msg w)"
  proof (cases "cs_body msg")
    case (Some b)
    with x show ?thesis by (cases b) (simp_all add: cs_union_case_def)
  qed (use x in simp)
  show ?thesis using c check_state [OF w] by auto
qed

lemma process_login:
  assumes k: "kp_inv se_session_id (ls_sessions gs)" and c: "CreateSession now i (ls_sessions gs) = (Some sid, sm)" and i: "i = 1012 \<or> i = 5000"
    and st: "\<And>s. se_session_state (prepare s) = se_session_state s" and id: "\<And>s. se_msg_id (prepare s) = se_msg_id s"
    and r: "process_session env sid prepare (gs\<lparr>ls_sessions := sm, ls_world := w\<rparr>) = Some (Ret gs')"
  shows "m_state u (ls_world gs') = m_state u w"
proof -
  let ?s = "session0\<lparr>se_session_id := sid, se_msg_id := i, se_update_time := GetTime now, se_session_state := On_Message\<rparr>"
  have g: "GetSession sid sm = Some ?s" by (rule session_pool(5) [OF k c])
  then obtain so w' where x: "lip_Process env (prepare ?s) w = Some (Ret (so, w'))" "ls_world gs' = w'"
    using r by (auto simp: process_session_def split: option.splits outcome.splits)
  have "w_machines w' = w_machines w" using login_calm [OF _ _ x(1)] st id i by simp
  from m_state_cong [OF this] x(2) show ?thesis by simp
qed

lemma client_keeps:
  assumes r: "OnClientMessage env head buf gs = Some (Ret gs')"
  shows "ev_keeps paid gs gs'"
proof -
  obtain mo w1 where f: "MessageFilter env head buf (ls_world gs) = (mo, w1)" by fastforce
  have q: "quits (ls_world gs) w1" using quits_filter [of "ls_world gs" env head buf] f by simp
  show ?thesis
  proof (cases mo)
    case None
    with r f q show ?thesis by (auto simp: OnClientMessage_def intro: ev_keeps_quits)
  next
    case (Some msg)
    obtain so sm where c: "CreateSession (me_now env) (cs_union_case msg) (ls_sessions gs) = (so, sm)" by fastforce
    have k1: "kp_inv se_session_id sm" if "kp_inv se_session_id (ls_sessions gs)"
      using session_pool(1) [OF that, of "me_now env" "cs_union_case msg"] c by simp
    show ?thesis
    proof (cases so)
      case None
      with r f Some c have "gs' = gs\<lparr>ls_sessions := sm, ls_world := SendCommonErr env head EN_Result_Sys_Err w1\<rparr>"
        by (simp add: OnClientMessage_def)
      with quits_trans [OF q quits_refuse(2)] k1 show ?thesis by (auto intro: ev_keeps_quits)
    next
      case s: (Some sid)
      let ?p = "\<lambda>s. s\<lparr>se_msg_head := MH_connect head, se_cs_msg := msg, se_uid := ucast (cs_uid msg)\<rparr>"
      have p: "process_session env sid ?p (gs\<lparr>ls_sessions := sm, ls_world := w1\<rparr>) = Some (Ret gs')"
        using r f Some c s by (simp add: OnClientMessage_def)
      show ?thesis
      proof (unfold ev_keeps_def, intro impI conjI allI)
        assume ok: "ls_ok gs"
        then have k: "kp_inv se_session_id (ls_sessions gs)" and w: "world_ok (ls_world gs)" by (simp_all add: ls_ok_def)
        with q have w1: "world_ok w1" by (simp add: quits_def)
        note F = fresh_session [OF k c [unfolded s] w1 _ _ p]
        show "ls_ok gs'" by (rule F(1)) simp_all
        fix u
        have st: "game_step False (m_state u w1) (m_state u (ls_world gs'))" by (rule F(2)) simp_all
        have "m_state u (ls_world gs') = m_state u w1" if "cs_union_case msg = 1012 \<or> cs_union_case msg = 5000"
          by (rule process_login [OF k c [unfolded s] that _ _ p]) simp_all
        with filter_state [OF f [unfolded Some] w] quits_step [OF q w, of "paid u" u] game_step_mono [OF st, of "paid u"]
        show "game_step (paid u) (m_state u (ls_world gs)) (m_state u (ls_world gs'))" by metis
      qed
    qed
  qed
qed

lemma fresh_keeps:
  assumes c: "CreateSession now i (ls_sessions gs) = (so, sm)"
    and r: "(case so of None \<Rightarrow> Some (Ret (gs\<lparr>ls_sessions := sm\<rparr>)) | Some sid \<Rightarrow> process_session env sid prepare (gs\<lparr>ls_sessions := sm\<rparr>)) = Some (Ret gs')"
    and st: "\<And>s. se_session_state (prepare s) = se_session_state s" and id: "\<And>s. se_session_id (prepare s) = se_session_id s"
  shows "ev_keeps paid gs gs'"
proof (unfold ev_keeps_def, intro impI)
  assume ok: "ls_ok gs"
  then have k: "kp_inv se_session_id (ls_sessions gs)" and w: "world_ok (ls_world gs)" by (simp_all add: ls_ok_def)
  show "ls_ok gs' \<and> (\<forall>u. game_step (paid u) (m_state u (ls_world gs)) (m_state u (ls_world gs')))"
  proof (cases so)
    case None
    with r session_pool(1) [OF k, of now i] c w show ?thesis by (auto simp: ls_ok_def)
  next
    case (Some sid)
    have p: "process_session env sid prepare (gs\<lparr>ls_sessions := sm, ls_world := ls_world gs\<rparr>) = Some (Ret gs')"
      using r Some by simp
    from fresh_session [OF k c [unfolded Some] w st id p] show ?thesis by (auto intro: game_step_mono)
  qed
qed

lemma server_keeps:
  assumes r: "OnServerMessage env head buf gs = Some (Ret gs')"
  shows "ev_keeps (\<lambda>u. charge_for u (answered env (Ev_Server head buf) gs)) gs gs'"
proof (cases "le_parse_ss env buf")
  case None
  with r show ?thesis by (simp add: OnServerMessage_def ev_keeps_quits)
next
  case (Some msg)
  show ?thesis
  proof (cases "ss_type msg = EN_SS_Request")
    case True
    obtain so sm where c: "CreateSession (me_now env) (ss_union_case msg) (ls_sessions gs) = (so, sm)" by fastforce
    show ?thesis by (rule fresh_keeps [OF c, where prepare = "\<lambda>s. s\<lparr>se_msg_head := MH_proxy head, se_ss_msg := msg\<rparr>"])
        (use r Some True c in \<open>simp_all add: OnServerMessage_def split: option.splits\<close>)
  next
    case False
    let ?p = "\<lambda>s. s\<lparr>se_ss_response := msg\<rparr>"
    have p: "process_session env (px_session_id head) ?p gs = Some (Ret gs')"
      using r Some False by (simp add: OnServerMessage_def)
    have c: "(\<exists>s. GetSession (px_session_id head) (ls_sessions gs) = Some s \<and> charge_stored (?p s) \<and> u = s_uid (?p s))
        = charge_for u (answered env (Ev_Server head buf) gs)" for u
      using Some False by (cases "GetSession (px_session_id head) (ls_sessions gs)") (auto simp: charge_for_def answered_def)
    show ?thesis
      using process_session_keeps [OF _ _ p] unfolding c ev_keeps_def by simp
  qed
qed

lemma internal_keeps:
  assumes r: "OnInternalMessage env buf gs = Some (Ret gs')"
  shows "ev_keeps paid gs gs'"
proof (cases "le_parse_in env buf")
  case None
  with r show ?thesis by (simp add: OnInternalMessage_def ev_keeps_quits)
next
  case (Some msg)
  obtain so sm where c: "CreateSession (me_now env) (in_union_case msg) (ls_sessions gs) = (so, sm)" by fastforce
  show ?thesis by (rule fresh_keeps [OF c, where prepare = "\<lambda>s. s\<lparr>se_inter_msg := msg\<rparr>"])
      (use r Some c in \<open>simp_all add: OnInternalMessage_def split: option.splits\<close>)
qed

lemma quits_fold: "(\<And>x w. quits w (f x w)) \<Longrightarrow> quits w (fold f xs w)"
  by (induction xs arbitrary: w) (auto intro: quits_trans)

lemma routine_quits:
  "quits (ls_world gs) (ls_world (tick_timers env gs))" "quits (ls_world gs) (ls_world (check_sessions env gs))"
  "quits (ls_world gs) (ls_world (check_machines env gs))" "quits (ls_world gs) (ls_world (check_players env gs))"
proof -
  have i: "quits w (snd (SendMsgToInternal env m w))" for m w by (simp add: quits_def frame_simps)
  have t: "quits w (w\<lparr>w_timers := snd (Tick ord now (w_timers w0))\<rparr>)" if "kp_inv ti_timer_id (w_timers w0)" for ord now w w0
    using timers.release_all [OF that] by (auto simp: quits_def world_ok_def Tick_def Let_def m_state_def get_machine_def)
  show "quits (ls_world gs) (ls_world (tick_timers env gs))"
  proof (cases "world_ok (ls_world gs)")
    case True
    then have "kp_inv ti_timer_id (w_timers (ls_world gs))" by (simp add: world_ok_def)
    from quits_trans [OF quits_fold t [OF this], of "\<lambda>m w. snd (SendMsgToInternal env m w)"] i
    show ?thesis by (simp add: tick_timers_def Let_def split_beta)
  qed (simp add: quits_def)
  show "quits (ls_world gs) (ls_world (check_sessions env gs))" by (simp add: check_sessions_def)
  show "quits (ls_world gs) (ls_world (check_machines env gs))" "quits (ls_world gs) (ls_world (check_players env gs))"
    by (simp_all add: check_machines_def check_players_def Let_def quits_fold quits_LogoutMachine quits_LogoutPlayer)
qed

lemma routine_keeps: "ev_keeps paid gs (OnRoutineCheck env gs)"
proof (rule ev_keeps_quits)
  show "quits (ls_world gs) (ls_world (OnRoutineCheck env gs))"
    unfolding OnRoutineCheck_def
    by (rule quits_trans [OF quits_trans [OF quits_trans [OF routine_quits(1) routine_quits(2)] routine_quits(3)] routine_quits(4)])
  assume "kp_inv se_session_id (ls_sessions gs)"
  then have c: "kp_inv se_session_id (CheckTimeOut ord now (ls_sessions gs))" for ord now
    unfolding CheckTimeOut_def using sessions.release_all by blast
  have e: "ls_sessions (tick_timers env g) = ls_sessions g" "ls_sessions (check_machines env g) = ls_sessions g"
    "ls_sessions (check_players env g) = ls_sessions g" for g
    by (simp_all add: tick_timers_def check_machines_def check_players_def Let_def split_beta)
  show "kp_inv se_session_id (ls_sessions (OnRoutineCheck env gs))"
    using c \<open>kp_inv se_session_id (ls_sessions gs)\<close> by (simp add: OnRoutineCheck_def e check_sessions_def)
qed

lemma offline_keeps: "ev_keeps paid gs (OnClientOffline env head idx gs)"
  by (rule ev_keeps_quits) (auto simp: OnClientOffline_def Let_def quits_LogoutMachine quits_LogoutPlayer split: option.split)

lemma event_keeps:
  assumes "lip_event_step env e gs = Some (Ret gs')"
  shows "ev_keeps (\<lambda>u. charge_for u (answered env e gs)) gs gs'"
proof (cases e)
  case (Ev_Client head buf)
  with assms show ?thesis by (simp add: lip_event_step_def client_keeps)
next
  case (Ev_Server head buf)
  with assms show ?thesis using server_keeps by (simp add: lip_event_step_def)
next
  case (Ev_Internal buf)
  with assms show ?thesis by (simp add: lip_event_step_def internal_keeps)
next
  case (Ev_Offline head idx)
  with assms have "gs' = OnClientOffline env head idx gs" by (simp add: lip_event_step_def)
  then show ?thesis by (simp only: offline_keeps)
next
  case Ev_Routine
  with assms have "gs' = OnRoutineCheck env gs" by (simp add: lip_event_step_def)
  then show ?thesis by (simp only: routine_keeps)
qed

end
