(* ===== verification/LipstickProps.thy ===== *)
theory LipstickProps
  imports LipstickRun
begin

text \<open>
  The properties of the game server: who may speak for a machine or a player, what a logout pays
  back, what every run of events keeps of the pools and of the games, and what becomes of a
  machine's totals.
\<close>

subsection \<open>A server to look at\<close>

definition lip0 :: lip_world where
  "lip0 = world.extend world0 \<lparr>lw_rand = [], lw_wechat = [], lw_h5 = []\<rparr>"

definition head7 :: connect_head where
  "head7 = \<lparr>ch_create_time = 70, ch_socket_pos = 7, ch_socket_port = 0, ch_socket_addr = [],
     ch_need_close = False, ch_msg_type = Conn_normal, ch_conn_type = Conn_tcp\<rparr>"

definition login7 :: pb_cs_msg where
  "login7 = cs_msg0\<lparr>cs_uid := 7, cs_body := Some (CsReqMLoginGame ''T'')\<rparr>"

definition stored7 :: pb_ss_msg where
  "stored7 = ss_msg0\<lparr>ss_type := EN_SS_Response, ss_body := Some (SsRspSave EN_KVDB_Sucess 3 [])\<rparr>"

text \<open>Machine 7 logs in with the bytes 1, the answer that a charge is stored are the bytes 2.\<close>

definition lip_env0 :: lip_env where
  "lip_env0 = msg_env.extend test_env \<lparr>le_cfg = (\<lambda>pid. if pid = 5 then Some (20, ''gloss'') else None), le_use_heart_beat = True,
     le_heart_beat_interval = 30, le_prize_rate = (\<lambda>_ _ _ _ _. 0), le_lottery_pays = (\<lambda>_ _ _. False),
     le_decrypt = (\<lambda>t. if t = ''T'' then Some ''7#$#5'' else None),
     le_parse_cs = (\<lambda>bs. if bs = [1] then Some login7 else None),
     le_parse_ss = (\<lambda>bs. if bs = [2] then Some stored7 else None), le_parse_in = (\<lambda>_. None), le_no_head = head7, le_ord = (\<lambda>xs. xs)\<rparr>"

definition server0 :: lip_server where
  "server0 = \<lparr>ls_sessions = session_mgr0 4, ls_world = lip0, ls_timer_check = 0, ls_session_check = 0, ls_machine_check = 0, ls_player_check = 0\<rparr>"

lemma lip0_ok [simp]: "world_ok lip0" "ls_ok server0"
  by (simp_all add: world_ok_def ls_ok_def server0_def lip0_def world0_def world.defs)
     (simp_all add: kp_inv_def)

lemma lip_env0_sel [simp]:
  "me_now lip_env0 = 5000" "le_decrypt lip_env0 = (\<lambda>t. if t = ''T'' then Some ''7#$#5'' else None)"
  "le_parse_cs lip_env0 = (\<lambda>bs. if bs = [1] then Some login7 else None)"
  "le_parse_ss lip_env0 = (\<lambda>bs. if bs = [2] then Some stored7 else None)"
  by (simp_all add: lip_env0_def msg_env.defs test_env_def)

definition reply_head :: "u32 \<Rightarrow> proxy_head" where
  "reply_head sid = \<lparr>px_src_type = 0, px_src_id = 0, px_des_type = 0, px_des_id = 0, px_session_id = sid,
     px_hash_key = 0, px_src_proxy_id = 0, px_route_type = Route_p2p\<rparr>"

lemma token7: "token_ok lip_env0 ''T'' 7"
  by (simp add: token_ok_def c_atoi_def GetTime_def word_le_nat_alt)

lemma login_passes: "\<exists>w1. MessageFilter lip_env0 head7 [1] lip0 = (Some login7, w1)"
proof -
  have n: "get_machine 7 lip0 = None"
    by (simp add: get_machine_def GetMachine_def lip0_def world0_def world.defs kp_Get_def)
  have e: "emit lip_env0 (NotifyLogicIndex head7 7) lip0 = (True, lip0\<lparr>w_out := [NotifyLogicIndex head7 7]\<rparr>)"
    by (simp add: emit_def lip_env0_def msg_env.defs test_env_def lip0_def world.defs world0_def)
  have m: "kp_inv ma_machine_id (w_machines lip0)" "kp_room (w_machines lip0) = 4"
    by (simp_all add: lip0_def world0_def world.defs kp_inv_def kp_room_def)
  obtain mm where c: "CreateMachine 7 (w_machines lip0) = (True, mm)"
    using machines.create_room [OF m(1), of 7] m(2) by auto
  have "fst (MessageFilter lip_env0 head7 [1] lip0) = Some login7"
    using token7 by (simp add: MessageFilter_def OnMachineLogin_def login7_def n e c Let_def cs_msg0_def)
  then show ?thesis by (cases "MessageFilter lip_env0 head7 [1] lip0") simp
qed

subsection \<open>Logins\<close>

text \<open>Only the machine that logs in or out changes.\<close>

lemma logout_machines:
  assumes "world_ok w"
  shows "get_machine v (LogoutMachine env u n r c w) = (if v = u then None else get_machine v w)"
    "w_players (LogoutMachine env u n r c w) = w_players w"
proof -
  have s: "w_machines (settle_machine env m w) = w_machines w" "w_players (settle_machine env m w) = w_players w" for m
    by (simp_all add: settle_machine_def Let_def frame_simps)
  have k: "kp_inv ma_machine_id (w_machines w)" using assms by (simp add: world_ok_def)
  show "get_machine v (LogoutMachine env u n r c w) = (if v = u then None else get_machine v w)"
    "w_players (LogoutMachine env u n r c w) = w_players w"
    using machine_pool(4) [OF k, of v u] get_machine_id [OF assms, of u]
    by (auto simp: LogoutMachine_def Let_def frame_simps s get_machine_def split: option.split)
qed

lemma logout_players:
  assumes "world_ok w"
  shows "get_player v (LogoutPlayer env u n r c w) = (if v = u then None else get_player v w)"
    "w_machines (LogoutPlayer env u n r c w) = w_machines w"
proof -
  have s: "w_machines (settle_player env p w) = w_machines w" "w_players (settle_player env p w) = w_players w" for p
    by (simp_all add: settle_player_def Let_def frame_simps split: option.split)
  have k: "kp_inv py_player_id (w_players w)" using assms by (simp add: world_ok_def)
  have rel: "GetPlayer v (snd (ReleasePlayer u (w_players w))) = (if v = u then None else GetPlayer v (w_players w))"
    by (rule players.release_cases [OF k, of u]) auto
  show "get_player v (LogoutPlayer env u n r c w) = (if v = u then None else get_player v w)"
    "w_machines (LogoutPlayer env u n r c w) = w_machines w"
    using rel get_player_id [OF assms, of u]
    by (auto simp: LogoutPlayer_def Let_def frame_simps s get_player_def split: option.split)
qed

text \<open>The machine or the player of the id is logged in on the connection.\<close>

definition machine_on :: "lip_env \<Rightarrow> u64 \<Rightarrow> connect_head \<Rightarrow> lip_world \<Rightarrow> bool" where
  "machine_on env uid head w \<longleftrightarrow> (case get_machine uid w of None \<Rightarrow> False | Some m \<Rightarrow> same_connection (m_head env m) head)"

definition player_on :: "lip_env \<Rightarrow> u64 \<Rightarrow> connect_head \<Rightarrow> lip_world \<Rightarrow> bool" where
  "player_on env uid head w \<longleftrightarrow> (case get_player uid w of None \<Rightarrow> False | Some p \<Rightarrow> same_connection (p_head env p) head)"

definition others_same :: "u64 \<Rightarrow> lip_world \<Rightarrow> lip_world \<Rightarrow> bool" where
  "others_same uid w w' \<longleftrightarrow> (\<forall>u. u \<noteq> uid \<longrightarrow> get_machine u w' = get_machine u w \<and> get_player u w' = get_player u w)"

lemma same_connection_refl [simp]: "same_connection h h"
  by (simp add: same_connection_def)

lemma get_machine_upd: "get_machine v (upd_player u g w) = get_machine v w" "get_player v (upd_machine u f w) = get_player v w"
  by (simp_all add: get_machine_def get_player_def frame_simps)

lemma quits_ok: "quits w w' \<Longrightarrow> world_ok w \<Longrightarrow> world_ok w'"
  by (simp add: quits_def)

lemma machine_login:
  assumes w: "world_ok w" and l: "OnMachineLogin env head msg w = (True, w')"
  shows "token_ok env (case cs_body msg of Some (CsReqMLoginGame t) \<Rightarrow> t | _ \<Rightarrow> []) (cs_uid msg)"
    "machine_on env (cs_uid msg) head w' \<and> others_same (cs_uid msg) w w'"
proof -
  let ?u = "cs_uid msg"
  let ?beat = "\<lambda>m. m\<lparr>ma_heart_beat_time := ucast (GetTime (me_now env))\<rparr>"
  let ?wa = "if get_machine ?u w = None then w else LogoutMachine env ?u True EN_Logout_Multi_Login False w"
  show t: "token_ok env (case cs_body msg of Some (CsReqMLoginGame t) \<Rightarrow> t | _ \<Rightarrow> []) ?u"
    using l by (auto simp: OnMachineLogin_def refuse_login_def Let_def split: if_splits)
  show "machine_on env ?u head w' \<and> others_same ?u w w'"
  proof (cases "case get_machine ?u w of None \<Rightarrow> False | Some m \<Rightarrow> same_connection (m_head env m) head")
    case True
    with l t have "w' = upd_machine ?u ?beat w" by (simp add: OnMachineLogin_def Let_def)
    with True w show ?thesis
      by (auto simp: machine_on_def others_same_def frame_simps m_head_def split: option.splits)
  next
    case False
    define wb where "wb = snd (emit env (NotifyLogicIndex head ?u) ?wa)"
    let ?mm = "snd (CreateMachine ?u (w_machines wb))"
    have f: "fst (CreateMachine ?u (w_machines wb))" and w': "w' = upd_machine ?u (\<lambda>m. ?beat (m\<lparr>ma_connect_head := Some head\<rparr>)) (wb\<lparr>w_machines := ?mm\<rparr>)"
      using l t False by (auto simp: wb_def OnMachineLogin_def refuse_login_def Let_def split_beta split: if_splits)
    then have c: "CreateMachine ?u (w_machines wb) = (True, ?mm)" by (cases "CreateMachine ?u (w_machines wb)") auto
    have a: "world_ok ?wa" using quits_ok [OF quits_LogoutMachine w] w by simp
    then have b: "world_ok wb" by (simp add: wb_def frame_simps)
    then have k: "kp_inv ma_machine_id (w_machines wb)" by (simp add: world_ok_def)
    have ok: "world_ok (wb\<lparr>w_machines := ?mm\<rparr>)" using quits_ok [OF quits_create(1) b, of ?u] c by simp
    have gb: "get_machine v wb = get_machine v w" if "v \<noteq> ?u" for v
      using that logout_machines(1) [OF w] by (simp add: wb_def frame_simps)
    have g: "get_machine v (wb\<lparr>w_machines := ?mm\<rparr>) = (if v = ?u then Some (machine0\<lparr>ma_machine_id := ?u\<rparr>) else get_machine v w)" for v
      using machine_pool(6) [OF k, of ?u v] f(1) gb [of v] unfolding get_machine_def by simp
    have "get_player v w' = get_player v w" for v
      using logout_machines(2) [OF w] by (simp add: w' wb_def get_player_def frame_simps)
    with ok g show ?thesis by (auto simp: w' machine_on_def others_same_def frame_simps m_head_def)
  qed
qed

lemma player_login:
  assumes w: "world_ok w" and l: "OnPlayerLogin env head msg w = (True, w')"
  shows "token_ok env (case cs_body msg of Some (CsReqLoginGame t) \<Rightarrow> t | _ \<Rightarrow> []) (cs_uid msg)"
    "player_on env (cs_uid msg) head w' \<and> others_same (cs_uid msg) w w'"
proof -
  let ?u = "cs_uid msg"
  let ?beat = "\<lambda>p. p\<lparr>py_heart_beat_time := ucast (GetTime (me_now env))\<rparr>"
  let ?wa = "if get_player ?u w = None then w else LogoutPlayer env ?u True EN_Logout_Multi_Login False w"
  show t: "token_ok env (case cs_body msg of Some (CsReqLoginGame t) \<Rightarrow> t | _ \<Rightarrow> []) ?u"
    using l by (auto simp: OnPlayerLogin_def refuse_login_def Let_def split: if_splits)
  show "player_on env ?u head w' \<and> others_same ?u w w'"
  proof (cases "case get_player ?u w of None \<Rightarrow> False | Some p \<Rightarrow> same_connection (p_head env p) head")
    case True
    with l t have "w' = upd_player ?u ?beat w" by (simp add: OnPlayerLogin_def Let_def)
    with True w show ?thesis
      by (auto simp: player_on_def others_same_def frame_simps p_head_def get_machine_upd split: option.splits)
  next
    case False
    define wb where "wb = snd (emit env (NotifyLogicIndex head ?u) ?wa)"
    let ?pm = "snd (CreatePlayer ?u (w_players wb))"
    have f: "fst (CreatePlayer ?u (w_players wb))" and w': "w' = upd_player ?u (\<lambda>p. ?beat (p\<lparr>py_connect_head := Some head\<rparr>)) (wb\<lparr>w_players := ?pm\<rparr>)"
      using l t False by (auto simp: wb_def OnPlayerLogin_def refuse_login_def Let_def split_beta split: if_splits)
    then have c: "CreatePlayer ?u (w_players wb) = (True, ?pm)" by (cases "CreatePlayer ?u (w_players wb)") auto
    have a: "world_ok ?wa" using quits_ok [OF quits_LogoutPlayer w] w by simp
    then have b: "world_ok wb" by (simp add: wb_def frame_simps)
    then have k: "kp_inv py_player_id (w_players wb)" by (simp add: world_ok_def)
    have ok: "world_ok (wb\<lparr>w_players := ?pm\<rparr>)" using quits_ok [OF quits_create(2) b, of ?u] c by simp
    have gb: "get_player v wb = get_player v w" if "v \<noteq> ?u" for v
      using that logout_players(1) [OF w] by (simp add: wb_def frame_simps)
    have g: "get_player v (wb\<lparr>w_players := ?pm\<rparr>) = (if v = ?u then Some (player0\<lparr>py_player_id := ?u\<rparr>) else get_player v w)" for v
      using player_pool(5) [OF k, of ?u v] f(1) gb [of v] unfolding get_player_def by simp
    have "get_machine v w' = get_machine v w" for v
      using logout_players(2) [OF w] by (simp add: w' wb_def get_machine_def frame_simps)
    with ok g show ?thesis by (auto simp: w' player_on_def others_same_def frame_simps p_head_def)
  qed
qed

text \<open>A message that is not a login changes only the heart beat of who is logged in.\<close>

lemma login_check:
  assumes w: "world_ok w" and l: "OnLoginCheck env head msg w = (True, w')"
  shows "others_same (cs_uid msg) w w' \<and> (if cs_uid msg < 10000000
     then machine_on env (cs_uid msg) head w \<and> machine_on env (cs_uid msg) head w'
     else player_on env (cs_uid msg) head w \<and> player_on env (cs_uid msg) head w')"
proof -
  have sym: "same_connection head h = same_connection h head" for h by (auto simp: same_connection_def)
  show ?thesis
  proof (cases "cs_uid msg < 10000000")
    case True
    with l sym obtain m where m: "get_machine (cs_uid msg) w = Some m" "same_connection (m_head env m) head"
        "w' = upd_machine (cs_uid msg) (\<lambda>m. m\<lparr>ma_heart_beat_time := ucast (GetTime (me_now env))\<rparr>) w"
      by (simp add: OnLoginCheck_def Let_def split: option.splits if_splits)
    with True w show ?thesis by (simp add: machine_on_def others_same_def frame_simps get_machine_upd m_head_def)
  next
    case False
    with l sym obtain p where p: "get_player (cs_uid msg) w = Some p" "same_connection (p_head env p) head"
        "w' = upd_player (cs_uid msg) (\<lambda>p. p\<lparr>py_heart_beat_time := ucast (GetTime (me_now env))\<rparr>) w"
      by (simp add: OnLoginCheck_def Let_def split: option.splits if_splits)
    with False w show ?thesis by (simp add: player_on_def others_same_def frame_simps get_machine_upd p_head_def)
  qed
qed

text \<open>Property C2. No message passes to its handler unless its machine or player is logged in on the
  very connection it came from; a login passes only with a token that names the machine or player
  and is not a day old, and no login, logout or heart beat on the way touches another machine or
  player.\<close>

theorem login_gate:
  assumes "world_ok w" "MessageFilter env head buf w = (Some msg, w')"
  shows "others_same (cs_uid msg) w w' \<and> (case cs_body msg of
      Some (CsReqMLoginGame t) \<Rightarrow> token_ok env t (cs_uid msg) \<and> machine_on env (cs_uid msg) head w'
    | Some (CsReqLoginGame t) \<Rightarrow> token_ok env t (cs_uid msg) \<and> player_on env (cs_uid msg) head w'
    | _ \<Rightarrow> if cs_uid msg < 10000000 then machine_on env (cs_uid msg) head w \<and> machine_on env (cs_uid msg) head w'
        else player_on env (cs_uid msg) head w \<and> player_on env (cs_uid msg) head w')"
proof -
  let ?x = "case cs_body msg of Some (CsReqMLoginGame _) \<Rightarrow> OnMachineLogin env head msg w
      | Some (CsReqLoginGame _) \<Rightarrow> OnPlayerLogin env head msg w | _ \<Rightarrow> OnLoginCheck env head msg w"
  have p: "le_parse_cs env buf = Some msg"
    using assms(2) by (auto simp: MessageFilter_def Let_def split_beta split: option.splits if_splits)
  have x: "?x = (True, w')"
    using assms(2) by (cases ?x) (simp add: MessageFilter_def p Let_def split_beta split: if_splits)
  consider (m) t where "cs_body msg = Some (CsReqMLoginGame t)" | (p) t where "cs_body msg = Some (CsReqLoginGame t)"
    | (c) "\<nexists>t. cs_body msg = Some (CsReqMLoginGame t)" "\<nexists>t. cs_body msg = Some (CsReqLoginGame t)" by blast
  then show ?thesis
  proof cases
    case m
    with x machine_login [OF assms(1), of env head msg w'] show ?thesis by simp
  next
    case p
    with x player_login [OF assms(1), of env head msg w'] show ?thesis by simp
  next
    case c
    have e: "(case cs_body msg of Some (CsReqMLoginGame t) \<Rightarrow> f t | Some (CsReqLoginGame t) \<Rightarrow> g t | _ \<Rightarrow> z) = z" for f g and z :: 'z
      using c by (auto split: option.split cs_body.split)
    from x [unfolded e] show ?thesis unfolding e by (rule login_check [OF assms(1)])
  qed
qed

lemma login_gate_witness:
  "token_ok lip_env0 ''T'' 7 \<and> machine_on lip_env0 7 head7 (snd (MessageFilter lip_env0 head7 [1] lip0))"
proof -
  obtain w1 where "MessageFilter lip_env0 head7 [1] lip0 = (Some login7, w1)" using login_passes by blast
  from login_gate [OF lip0_ok(1) this] this show ?thesis by (simp add: login7_def cs_msg0_def)
qed

subsection \<open>Runs\<close>

text \<open>Property C15. Whatever clients, servers, timers and the routine check send, in whatever order and
  at whatever times, the server's tables stay well formed: every machine, player, timer and session
  is in one slot of its pool and is found under the id it carries, as long as no call faults (a step that finds its machine
  or player gone does).\<close>

theorem lip_run_ok:
  assumes "ls_ok gs" "lip_run es gs = Some (Ret gs')"
  shows "ls_ok gs' \<and> (\<forall>uid. (case get_machine uid (ls_world gs') of None \<Rightarrow> True | Some m \<Rightarrow> ma_machine_id m = uid)
    \<and> (case get_player uid (ls_world gs') of None \<Rightarrow> True | Some p \<Rightarrow> py_player_id p = uid))
    \<and> (\<forall>sid. case GetSession sid (ls_sessions gs') of None \<Rightarrow> True | Some s \<Rightarrow> se_session_id s = sid)"
proof -
  have "ls_ok gs \<Longrightarrow> lip_run es gs = Some (Ret gs') \<Longrightarrow> ls_ok gs'"
  proof (induction es gs rule: lip_run.induct)
    case (2 env e es gs)
    obtain gs1 where s: "lip_event_step env e gs = Some (Ret gs1)" "lip_run es gs1 = Some (Ret gs')"
      using "2.prems"(2) by (auto split: option.splits outcome.splits)
    from event_keeps [OF s(1)] "2.prems"(1) have "ls_ok gs1" by (simp add: ev_keeps_def)
    from "2.IH" [OF s(1) refl this s(2)] show ?case .
  qed simp
  with assms have ok: "ls_ok gs'" by blast
  then have "world_ok (ls_world gs')" "kp_inv se_session_id (ls_sessions gs')" by (simp_all add: ls_ok_def)
  with ok show ?thesis using get_machine_id get_player_id session_pool(4) by (auto split: option.split)
qed

lemma lip_run_ok_witness:
  "\<exists>gs'. lip_run [(lip_env0, Ev_Client head7 [1]), (lip_env0, Ev_Routine), (lip_env0, Ev_Offline head7 7)] server0 = Some (Ret gs') \<and> ls_ok gs'"
proof -
  obtain w1 where f: "MessageFilter lip_env0 head7 [1] lip0 = (Some login7, w1)" using login_passes by blast
  have u: "cs_union_case login7 = 1012" by (simp add: cs_union_case_def login7_def cs_msg0_def)
  obtain so sm where c: "CreateSession 5000 1012 (session_mgr0 4) = (so, sm)" by fastforce
  have "\<exists>gs1. lip_event_step lip_env0 (Ev_Client head7 [1]) server0 = Some (Ret gs1)"
  proof (cases so)
    case None
    with f c u show ?thesis by (simp add: lip_event_step_def OnClientMessage_def server0_def)
  next
    case (Some sid)
    let ?s = "session0\<lparr>se_session_id := sid, se_msg_id := 1012, se_update_time := GetTime 5000, se_session_state := On_Message,
        se_msg_head := MH_connect head7, se_cs_msg := login7, se_uid := 7\<rparr>"
    have g: "GetSession sid sm = Some (session0\<lparr>se_session_id := sid, se_msg_id := 1012, se_update_time := GetTime 5000, se_session_state := On_Message\<rparr>)"
      by (rule session_pool(5) [OF _ c [unfolded Some]]) simp
    have "lip_handlers lip_env0 1012 = Some (HandlerMLoginGame lip_env0)" by (simp add: lip_handlers_def)
    then have "\<exists>y. lip_Process lip_env0 ?s w1 = Some (Ret y)"
      using loop_stops [of H_Query lip_env0 "HandlerMLoginGame lip_env0"]
      by (simp add: lip_Process_def Process_def HandlerMLoginGame_def full_handler_def MLoginGame_OnMessage_def)
    then obtain t w2 where "lip_Process lip_env0 ?s w1 = Some (Ret (t, w2))" by auto
    moreover have "cs_uid login7 = 7" by (simp add: login7_def)
    ultimately show ?thesis using f c u Some g
      by (cases t) (simp_all add: lip_event_step_def OnClientMessage_def server0_def process_session_def)
  qed
  then obtain gs' where r: "lip_run [(lip_env0, Ev_Client head7 [1]), (lip_env0, Ev_Routine), (lip_env0, Ev_Offline head7 7)] server0
      = Some (Ret gs')" by (auto simp: lip_event_step_def)
  from lip_run_ok [OF lip0_ok(2) r] r show ?thesis by blast
qed

text \<open>Property C8. In every event a machine's game stays where it is, is given up (the player or the
  machine is gone), or goes on along one arrow of \<open>game_step\<close>; and a play begins only when the event
  is the database's answer that the charge is stored, to the machine's own start message. (An event in which a call faults
  has no state after it.)\<close>

theorem games_go_along:
  assumes "ls_ok gs" "lip_event_step env e gs = Some (Ret gs')"
  shows "game_step (charge_for uid (answered env e gs)) (m_state uid (ls_world gs)) (m_state uid (ls_world gs'))"
  using event_keeps [OF assms(2)] assms(1) by (simp add: ev_keeps_def)

definition machine7 :: machine where
  "machine7 = machine0\<lparr>ma_machine_id := 7, ma_game_state := Wait_Start, ma_player_id := 3, ma_machine := pb_db_data0\<lparr>d_m_lipstick_info := Some
     (db_m_lipstick_info0\<lparr>lp_cost := Some 10, lp_prizes := [\<lparr>pz_id = 5, pz_num = 1, pz_rate = 0, pz_cost = 0, pz_tags = [], pz_sort = 0\<rparr>]\<rparr>)\<rparr>\<rparr>"

definition charge7 :: session where
  "charge7 = session0\<lparr>se_uid := 7, se_session_id := 1, se_msg_id := 1016, se_session_state := Wait_Save,
     se_cs_msg := cs_msg0\<lparr>cs_body := Some (CsReqStart Mach 5)\<rparr>, se_msg_head := MH_connect head7,
     se_db_processs := [\<lparr>dp_uid = 3, dp_keys = [], dp_player = None\<rparr>, \<lparr>dp_uid = 9, dp_keys = [], dp_player = None\<rparr>]\<rparr>"

definition server7 :: lip_server where
  "server7 = server0\<lparr>ls_sessions := \<lparr>kp_om = \<lparr>om_size = 1, om_shm_key = 77, om_pool = [charge7], om_used = [0], om_free = []\<rparr>,
       kp_index = [1 \<mapsto> 0], ip_cur_max_id = 1\<rparr>,
     ls_world := lip0\<lparr>w_machines := \<lparr>kp_om = \<lparr>om_size = 1, om_shm_key = 78, om_pool = [machine7], om_used = [0], om_free = []\<rparr>,
       kp_index = [7 \<mapsto> 0]\<rparr>\<rparr>\<rparr>"

lemma server7_ok: "ls_ok server7" "get_machine 7 (ls_world server7) = Some machine7" "GetSession 1 (ls_sessions server7) = Some charge7"
  using lip0_ok(1)
  by (auto simp: ls_ok_def server7_def world_ok_def kp_inv_def om_inv_def machine7_def charge7_def get_machine_def GetMachine_def
      kp_Get_def GetSession_def om_Get_def split: if_splits)

lemma games_go_along_witness:
  "\<exists>gs'. lip_event_step lip_env0 (Ev_Server (reply_head 1) [2]) server7 = Some (Ret gs')
     \<and> charge_for 7 (answered lip_env0 (Ev_Server (reply_head 1) [2]) server7)
     \<and> m_state 7 (ls_world server7) = Wait_Start \<and> m_state 7 (ls_world gs') = Wait_End
     \<and> game_step True (m_state 7 (ls_world server7)) (m_state 7 (ls_world gs'))"
proof -
  let ?e = "Ev_Server (reply_head 1) [2]" and ?w = "ls_world server7"
  let ?s = "charge7\<lparr>se_ss_response := stored7\<rparr>"
  have sid: "px_session_id (reply_head 1) = 1" by (simp add: reply_head_def)
  have ty: "ss_type stored7 \<noteq> EN_SS_Request" by (simp add: stored7_def ss_msg0_def)
  have r: "rsp_save ?s = (EN_KVDB_Sucess, 3, [])" by (simp add: rsp_save_def stored7_def)
  have st: "se_session_state ?s = Wait_Save" "se_msg_id ?s = 1016" "s_uid ?s = 7" by (simp_all add: charge7_def s_uid_def)
  have c: "charge_for 7 (answered lip_env0 ?e server7)"
    using sid ty r st server7_ok(3) by (simp add: answered_def charge_for_def charge_stored_def)
  have ok: "world_ok ?w" using server7_ok(1) by (simp add: ls_ok_def)
  have before: "m_state 7 ?w = Wait_Start" using server7_ok(2) by (simp add: machine7_def)
  have p: "find_prize (req_start Mach ?s) (ma_machine machine7) = Some \<lparr>pz_id = 5, pz_num = 1, pz_rate = 0, pz_cost = 0, pz_tags = [], pz_sort = 0\<rparr>"
    by (simp add: find_prize_def req_start_def charge7_def machine7_def linfo_def m_lipstick_info_def)
  have x: "GetPrize 5 (le_cfg lip_env0) = Some (20, ''gloss'')" "IsExist (req_start Mach ?s) (le_cfg lip_env0)"
    by (simp_all add: GetPrize_def IsExist_def lip_env0_def msg_env.defs req_start_def charge7_def)
  have d: "GetDBData 1 ?s = Some pb_db_data0" by (simp add: GetDBData_def charge7_def)
  have m: "ma_game_state machine7 = Wait_Start" "ma_machine_id machine7 = 7" by (simp_all add: machine7_def)
  have "\<exists>x. StartGame_OnSaveSuccess lip_env0 ?s ?w = Some x \<and> fst x = H_Done \<and> m_state 7 (snd (snd x)) = Wait_End"
    using server7_ok(2) ok p x d st(3) m by (simp add: StartGame_OnSaveSuccess_def draw_def reply_def Let_def split_beta frame_simps)
  then obtain s1 w1 where save: "StartGame_OnSaveSuccess lip_env0 ?s ?w = Some (H_Done, s1, w1)" "m_state 7 w1 = Wait_End" by auto
  have "lip_handlers lip_env0 1016 = Some (HandlerStartGame lip_env0)" by (simp add: lip_handlers_def)
  then have "lip_Process lip_env0 ?s ?w = Some (Ret (None, snd (OnPostMessage lip_env0 s1 w1)))"
    using st r save(1) by (simp add: lip_Process_def Process_def SaveResponse_def HandlerStartGame_def full_handler_def ProcessDone_def)
  then obtain gs' where g: "lip_event_step lip_env0 ?e server7 = Some (Ret gs')" "ls_world gs' = snd (OnPostMessage lip_env0 s1 w1)"
    using sid ty server7_ok(3) by (simp add: lip_event_step_def OnServerMessage_def process_session_def)
  have after: "m_state 7 (ls_world gs') = Wait_End"
    using calm_same [OF calm_post [of s1 w1 lip_env0 "se_events s1"]] save(2) g(2) by (simp add: OnPostMessage_def)
  from games_go_along [OF server7_ok(1) g(1), of 7] c have "game_step True (m_state 7 ?w) (m_state 7 (ls_world gs'))" by simp
  with g(1) c before after show ?thesis by blast
qed

subsection \<open>Logout\<close>

lemma timer_create:
  assumes "kp_inv ti_timer_id tm" "CreateTimerMsec now ms msg tm = (r, tm')"
  shows "GetTimer k tm' = (if r = Some k then Some \<lparr>ti_timer_id = k, ti_timeout_msec = GetTimeMsec now + ucast ms, ti_msg = msg\<rparr>
     else GetTimer k tm)"
proof (cases r)
  case (Some tid)
  with assms(2) ip_Create_some(4) [OF assms(1), of timer0 _ tid tm' k] show ?thesis
    by (auto simp: CreateTimerMsec_def GetTimer_def)
next
  case None
  show ?thesis
  proof (cases "kp_room tm = 0")
    case True
    with assms(2) None show ?thesis by (simp add: CreateTimerMsec_def ip_Create_full)
  next
    case False
    with assms(2) None ip_Create_none(3) [OF assms(1), of timer0 _ tm' k] show ?thesis
      by (auto simp: CreateTimerMsec_def GetTimer_def)
  qed
qed

lemma timer_release:
  "kp_inv ti_timer_id tm \<Longrightarrow> GetTimer k (snd (ReleaseTimer tid tm)) = (if k = tid then None else GetTimer k tm)"
  by (rule timers.release_cases [of tm tid]) auto

definition refund_of :: "machine \<Rightarrow> internal_body" where
  "refund_of m = InGameRefund (ma_player_id m) (get0 (lp_cost (linfo (ma_machine m))))"

lemma logout_parts:
  assumes ok: "world_ok w" and m: "get_machine uid w = Some m"
    and r: "CreateTimerMsec (me_now env) 100 (Some (refund_of m)) (snd (ReleaseTimer (ma_timer_id m) (w_timers w))) = (r, tm)"
  shows "get_machine v (LogoutMachine env uid notify reason clear w) = (if v = uid then None else get_machine v w)"
    and "GetTimer k (w_timers (LogoutMachine env uid notify reason clear w)) =
       (if ma_game_state m = Wait_Player then GetTimer k (w_timers w)
        else if ma_game_state m = Wait_End \<and> r = Some k
        then Some \<lparr>ti_timer_id = k, ti_timeout_msec = GetTimeMsec (me_now env) + 100, ti_msg = Some (refund_of m)\<rparr>
        else if k = ma_timer_id m then None else GetTimer k (w_timers w))"
    and "\<exists>rest. w_out (LogoutMachine env uid notify reason clear w) =
       (if ma_game_state m = Wait_Player then w_out w
        else w_out (w_internal env (InClearBuyIn (ma_player_id m) uid) w)) @ rest"
proof -
  have id: "ma_machine_id m = uid" by (rule get_machine_id [OF ok m])
  have k: "kp_inv ti_timer_id (w_timers w)" using ok by (simp add: world_ok_def)
  let ?tm = "snd (ReleaseTimer (ma_timer_id m) (w_timers w))"
  have k1: "kp_inv ti_timer_id ?tm" by (rule timers_keep(3) [OF k])
  show "get_machine v (LogoutMachine env uid notify reason clear w) = (if v = uid then None else get_machine v w)"
    by (rule logout_machines(1) [OF ok])
  have t: "w_timers (LogoutMachine env uid notify reason clear w) = w_timers (settle_machine env m w)"
    by (simp add: LogoutMachine_def m Let_def frame_simps)
  have s: "w_timers (settle_machine env m w) = (if ma_game_state m = Wait_Player then w_timers w
      else if ma_game_state m = Wait_End then tm else ?tm)"
    using r by (simp add: settle_machine_def Let_def frame_simps w_CreateTimerMsec_def w_ReleaseTimer_def refund_of_def)
  show "GetTimer k (w_timers (LogoutMachine env uid notify reason clear w)) =
       (if ma_game_state m = Wait_Player then GetTimer k (w_timers w)
        else if ma_game_state m = Wait_End \<and> r = Some k
        then Some \<lparr>ti_timer_id = k, ti_timeout_msec = GetTimeMsec (me_now env) + 100, ti_msg = Some (refund_of m)\<rparr>
        else if k = ma_timer_id m then None else GetTimer k (w_timers w))"
    using timer_create [OF k1 r, of k] timer_release [OF k, of k "ma_timer_id m"]
    by (cases "k = ma_timer_id m"; simp add: t s)
  have c: "\<exists>rest. w_out (w_client env h b cl x) = w_out x @ rest" "\<exists>rest. w_out (w_internal env b2 x) = w_out x @ rest" for h b b2 cl x
    by (simp_all add: w_client_def w_internal_def SendMsgToClient_to_def SendMsgToInternal_def emit_def Let_def)
  have so: "w_out (settle_machine env m w) = (if ma_game_state m = Wait_Player then w_out w
        else w_out (w_internal env (InClearBuyIn (ma_player_id m) uid) w))"
    by (simp add: settle_machine_def Let_def w_CreateTimerMsec_def w_ReleaseTimer_def split_beta id w_internal_def SendMsgToInternal_def emit_def)
  let ?x = "settle_machine env m w"
  let ?y = "if notify then w_client env (m_head env m) (CsNotifyLogout reason) True ?x else ?x"
  let ?z = "if clear then w_internal env (InLogout uid) ?y else ?y"
  have "\<exists>r1. w_out ?y = w_out ?x @ r1" by (simp add: c)
  moreover have "\<exists>r2. w_out ?z = w_out ?y @ r2" using c(2) by (cases clear) simp_all
  ultimately obtain r1 r2 where "w_out ?y = w_out ?x @ r1" "w_out ?z = w_out ?y @ r2" by blast
  then have "w_out ?z = w_out ?x @ r1 @ r2" by simp
  moreover have "w_out (LogoutMachine env uid notify reason clear w) = w_out ?z"
    unfolding LogoutMachine_def m Let_def by (simp add: id)
  ultimately have "w_out (LogoutMachine env uid notify reason clear w) = w_out ?x @ r1 @ r2" by simp
  then show "\<exists>rest. w_out (LogoutMachine env uid notify reason clear w) =
       (if ma_game_state m = Wait_Player then w_out w
        else w_out (w_internal env (InClearBuyIn (ma_player_id m) uid) w)) @ rest" unfolding so by blast
qed

text \<open>Property C22. A logout takes the machine, and only it, out of the pool. If a game is being played
  the player is paid its price back by one new timer, due in 100 milliseconds; between games nothing
  is refunded; the timer of the game is gone in both cases, the coins on the machine are asked back,
  and no other timer changes. A machine without a player leaves no trace.\<close>

theorem LogoutMachine_settles:
  assumes ok: "world_ok w" and m: "get_machine uid w = Some m"
    and r: "CreateTimerMsec (me_now env) 100 (Some (refund_of m)) (snd (ReleaseTimer (ma_timer_id m) (w_timers w))) = (r, tm)"
  shows "(get_machine v (LogoutMachine env uid notify reason clear w) = (if v = uid then None else get_machine v w))
    \<and> (GetTimer k (w_timers (LogoutMachine env uid notify reason clear w)) =
       (if ma_game_state m = Wait_Player then GetTimer k (w_timers w)
        else if ma_game_state m = Wait_End \<and> r = Some k
        then Some \<lparr>ti_timer_id = k, ti_timeout_msec = GetTimeMsec (me_now env) + 100, ti_msg = Some (refund_of m)\<rparr>
        else if k = ma_timer_id m then None else GetTimer k (w_timers w)))
    \<and> (\<exists>rest. w_out (LogoutMachine env uid notify reason clear w) =
       (if ma_game_state m = Wait_Player then w_out w
        else w_out (w_internal env (InClearBuyIn (ma_player_id m) uid) w)) @ rest)"
  using logout_parts [OF assms] by (intro conjI)

definition playing7 :: lip_world where
  "playing7 = upd_machine 7 (\<lambda>m. m\<lparr>ma_game_state := Wait_End\<rparr>) (ls_world server7)"

lemma LogoutMachine_settles_witness:
  "\<exists>k. GetTimer k (w_timers (LogoutMachine lip_env0 7 True EN_Logout_Multi_Login False playing7))
     = Some \<lparr>ti_timer_id = k, ti_timeout_msec = GetTimeMsec 5000 + 100, ti_msg = Some (InGameRefund 3 10)\<rparr>"
proof -
  let ?m = "machine7\<lparr>ma_game_state := Wait_End\<rparr>"
  have w: "world_ok (ls_world server7)" using server7_ok(1) by (simp add: ls_ok_def)
  have i: "ma_machine_id machine7 = 7" by (simp add: machine7_def)
  have ok: "world_ok playing7" using w by (simp add: playing7_def frame_simps)
  have m: "get_machine 7 playing7 = Some ?m" using w server7_ok(2) by (simp add: playing7_def frame_simps)
  have rf: "refund_of ?m = InGameRefund 3 10"
    by (simp add: refund_of_def machine7_def linfo_def m_lipstick_info_def get0_def)
  have t: "w_timers playing7 = timer_mgr0 4"
    by (simp add: playing7_def frame_simps server7_def server0_def lip0_def world.defs world0_def)
  have "snd (ReleaseTimer (ma_timer_id ?m) (timer_mgr0 4)) = timer_mgr0 4"
    by (simp add: ReleaseTimer_def kp_Release_def timer_mgr0_def)
  then obtain r tm where c: "CreateTimerMsec (me_now lip_env0) 100 (Some (refund_of ?m)) (snd (ReleaseTimer (ma_timer_id ?m) (w_timers playing7))) = (r, tm)"
      "CreateTimerMsec 5000 100 (Some (refund_of ?m)) (timer_mgr0 4) = (r, tm)"
    using t by (cases "CreateTimerMsec 5000 100 (Some (refund_of ?m)) (timer_mgr0 4)") simp
  have "r = Some 1" using c(2)
    by (simp add: CreateTimerMsec_def ip_Create_def om_Malloc_def timer_mgr0_def gen_id_10 om_new_def upt_rec del: gen_id.simps)
  with LogoutMachine_settles [OF ok m c(1), of 7 True EN_Logout_Multi_Login False 1] rf show ?thesis by auto
qed

subsection \<open>Totals\<close>

text \<open>What the server reports about a machine's totals is not what is stored: the income a
  start or a retry reports, which comes without a value, leaves the stored income as it was, and
  the report of a prize, which comes without an income, sets the stored income to 0.\<close>

theorem totals_lost:
  assumes d: "cur_data s = Some d"
  shows "(in_update s = (mid, None, None, Some inc) \<longrightarrow>
      map_option (\<lambda>(r, s1, _). (r, map_option (\<lambda>x. mb_total_income (m_base_info x)) (cur_data s1)))
        (UpdateMachinePrize_OnQuerySuccess env s w) = Some (H_Save, Some (mb_total_income (m_base_info d))))
    \<and> (in_update s = (mid, Some value, Some num, None) \<longrightarrow>
      map_option (\<lambda>(r, s1, _). (r, map_option (\<lambda>x. (mb_total_prize_value (m_base_info x), mb_total_prize_num (m_base_info x),
          mb_total_income (m_base_info x))) (cur_data s1)))
        (UpdateMachinePrize_OnQuerySuccess env s w) = Some (H_Save, Some (ucast value, num, 0)))"
proof -
  let ?i = "unat (se_process_index s)"
  have i: "?i < length (se_db_processs s)" using d by (auto simp: cur_data_def GetDBData_def split: if_splits)
  have get: "cur_data (SetDBData ?i x s) = Some x" for x
    using i by (simp add: cur_data_def GetDBData_def SetDBData_def)
  have set: "set_cur_data f s = Some (SetDBData ?i (f d) s)" for f using d by (simp add: cur_data_def set_cur_data_def Let_def)
  have upd: "m_base_info (mut_m_base_info f d) = f (m_base_info d)" for f
    by (simp add: proto_simps)
  show ?thesis by (simp add: UpdateMachinePrize_OnQuerySuccess_def set get upd update_totals_def get0_def)
qed

definition report7 :: "u64 option \<Rightarrow> u32 option \<Rightarrow> u64 option \<Rightarrow> session" where
  "report7 value num inc = session0\<lparr>se_inter_msg := Some (InUpdateMachinePrize 7 value num inc), se_db_processs :=
     [\<lparr>dp_uid = 7, dp_keys = [kMBaseInfo], dp_player = Some (mut_m_base_info (\<lambda>b. b\<lparr>mb_total_income := 500\<rparr>) pb_db_data0)\<rparr>]\<rparr>"

lemma totals_lost_witness:
  "map_option (\<lambda>(r, s1, _). map_option (\<lambda>x. mb_total_income (m_base_info x)) (cur_data s1))
     (UpdateMachinePrize_OnQuerySuccess lip_env0 (report7 None None (Some 600)) lip0) = Some (Some 500)
   \<and> map_option (\<lambda>(r, s1, _). map_option (\<lambda>x. mb_total_income (m_base_info x)) (cur_data s1))
     (UpdateMachinePrize_OnQuerySuccess lip_env0 (report7 (Some 20) (Some 1) None) lip0) = Some (Some 0)"
proof -
  let ?d = "mut_m_base_info (\<lambda>b. b\<lparr>mb_total_income := 500\<rparr>) pb_db_data0"
  have d: "cur_data (report7 v n i) = Some ?d" for v n i
    by (simp add: cur_data_def GetDBData_def report7_def session0_def)
  have u: "in_update (report7 v n i) = (7, v, n, i)" for v n i by (simp add: in_update_def in_msg_def report7_def)
  have "mb_total_income (m_base_info ?d) = 500" by (simp add: proto_simps)
  with totals_lost [OF d, of None None "Some 600" 7 600 lip_env0 lip0] totals_lost [OF d, of "Some 20" "Some 1" None 7 _ lip_env0 lip0 20 1] u
  show ?thesis by (auto split: option.splits)
qed

end
