(* ===== verification/ServerOnFrame.thy ===== *)
theory ServerOnFrame
  imports FrameServer LipstickProps
begin

text \<open>
  The lipstick server as a server of the frame: its entry points are the frame's virtual functions
  (core/src/frame_server.h, svr/lipsticksvr/game_server.h), and what it sends goes through the
  frame's pipes (common/message_base.cpp, the calls of \<open>_pserver\<close>). The server's own model records its
  sends in \<open>w_out\<close>; here they are carried out after the call, in their order. The results of
  the sends are those that \<open>me_ok\<close> has given to the handlers. The protobuf encodings are
  parameters. The lemma is that such a server keeps the frame in order: it only ever appends to the
  message queue.
\<close>

subsection \<open>Heads\<close>

text \<open>The members of \<open>stConnectHead\<close> and \<open>stProxyHead\<close> (core/src/net_head.h) in memory.\<close>

definition read_connect :: "byte list \<Rightarrow> connect_head" where
  "read_connect h = \<lparr>ch_create_time = rd64 0 h, ch_socket_pos = rd32 8 h, ch_socket_port = rd32 12 h,
     ch_socket_addr = map (\<lambda>b. char_of (unat b)) (takeWhile (\<lambda>b. b \<noteq> 0) (take 16 (drop 16 h))), ch_need_close = (h ! 32 \<noteq> 0),
     ch_msg_type = (if rd32 36 h = 2 then Conn_logic_index else if rd32 36 h = 3 then Conn_client_discon else Conn_normal),
     ch_conn_type = (if rd32 40 h = 2 then Conn_ws else Conn_tcp)\<rparr>"

definition read_proxy :: "byte list \<Rightarrow> proxy_head" where
  "read_proxy h = \<lparr>px_src_type = rd32 0 h, px_src_id = rd32 4 h, px_des_type = rd32 8 h, px_des_id = rd32 12 h,
     px_session_id = rd32 16 h, px_hash_key = rd64 24 h, px_src_proxy_id = rd32 32 h,
     px_route_type = (if rd32 36 h = route_code Route_hash then Route_hash
       else if rd32 36 h = route_code Route_random then Route_random
       else if rd32 36 h = route_code Route_broadcast then Route_broadcast else Route_p2p)\<rparr>"

lemma read_proxy_bytes: "length pad = 4 \<Longrightarrow> read_proxy (proxy_bytes pad h) = h"
  using proxy_bytes_fields [of pad h "[]"] by (cases h; cases "px_route_type h") (simp_all add: read_proxy_def)

subsection \<open>Sending\<close>

text \<open>\<open>SerializeWithCachedSizesToArray\<close> of the message types, and the padding of the heads.\<close>

record wire =
  wi_cs :: "pb_cs_msg \<Rightarrow> byte list"
  wi_ss :: "pb_ss_msg \<Rightarrow> byte list"
  wi_in :: "pb_internal_msg \<Rightarrow> byte list"
  wi_junk :: "byte list"
  wi_pad :: "byte list"

definition sent :: "(bool \<times> 'g frame_svr) outcome \<Rightarrow> 'g frame_svr outcome option" where
  "sent r = (case r of Crash \<Rightarrow> Some Crash | Ret (ok, fs) \<Rightarrow> Some (Ret fs))"

text \<open>Events and point commands leave the process by other ways than the frame's pipes.\<close>

definition carry_out :: "wire \<Rightarrow> effect \<Rightarrow> 'g frame_svr \<Rightarrow> 'g frame_svr outcome option" where
  "carry_out wi e fs = (case e of
     ToClient h m \<Rightarrow> sent (SendMessageToClient (wi_junk wi) h (wi_cs wi m) fs)
   | ToWeb h m \<Rightarrow> sent (SendMessageToClient (wi_junk wi) h (wi_ss wi m) fs)
   | ToProxy h m des \<Rightarrow> sent (SendMessageToProxy (wi_pad wi) h (wi_ss wi m) des fs)
   | ToInternal m \<Rightarrow> sent (SendMessageToInternal (wi_in wi m) fs)
   | NotifyLogicIndex h i \<Rightarrow> sent (NotifyConnectLogicIndex (wi_junk wi) h i fs)
   | _ \<Rightarrow> Some (Ret fs))"

fun carry_all :: "wire \<Rightarrow> effect list \<Rightarrow> 'g frame_svr \<Rightarrow> 'g frame_svr outcome option" where
  "carry_all wi [] fs = Some (Ret fs)"
| "carry_all wi (e # es) fs = bind_turn (carry_out wi e fs) (carry_all wi es)"

text \<open>A call of the server proper: what it has sent beyond the sends before the call is carried out.\<close>

definition on_frame :: "wire \<Rightarrow> ('g \<Rightarrow> effect list) \<Rightarrow> ('g \<Rightarrow> 'g outcome option) \<Rightarrow> 'g frame_svr \<Rightarrow> 'g frame_svr outcome option" where
  "on_frame wi outs call fs = bind_turn (call (fs_game fs))
     (\<lambda>g. carry_all wi (drop (length (outs (fs_game fs))) (outs g)) (fs\<lparr>fs_game := g\<rparr>))"

definition lip_virtuals :: "wire \<Rightarrow> lip_env \<Rightarrow> lip_server virtuals" where
  "lip_virtuals wi env =
     (let call = (\<lambda>e. on_frame wi (\<lambda>gs. w_out (ls_world gs)) (lip_event_step env e)) in
      \<lparr>v_client = (\<lambda>h b. call (Ev_Client (read_connect h) b)), v_offline = (\<lambda>h i. call (Ev_Offline (read_connect h) i)),
       v_server = (\<lambda>h b. call (Ev_Server (read_proxy h) b)), v_internal = (\<lambda>b. call (Ev_Internal b)),
       v_routine = call Ev_Routine\<rparr>)"

subsection \<open>A server in order\<close>

definition frame_ok :: "'g frame_svr \<Rightarrow> bool" where
  "frame_ok fs \<longleftrightarrow> length (sm_buf (fs_message fs)) = MAX_PB_BUF_LEN \<and> length (sm_head (fs_message fs)) = 48
     \<and> length (fs_pad fs) = 4"

definition appends :: "'g frame_svr \<Rightarrow> 'g frame_svr \<Rightarrow> bool" where
  "appends fs fs' \<longleftrightarrow> (frame_ok fs \<longrightarrow> frame_ok fs')
     \<and> (\<forall>q. pipe_rep (fs_msg_pipe fs) q \<longrightarrow> (\<exists>q'. pipe_rep (fs_msg_pipe fs') (q @ q')))"

text \<open>A handler for client messages that appends to the queue at most, whenever it returns.\<close>

definition orderly :: "'g virtuals \<Rightarrow> bool" where
  "orderly v \<longleftrightarrow> (\<forall>h b fs fs'. v_client v h b fs = Some (Ret fs') \<longrightarrow> appends fs fs')"

lemma appends_refl: "fs_msg_pipe fs' = fs_msg_pipe fs \<Longrightarrow> fs_message fs' = fs_message fs \<Longrightarrow> fs_pad fs' = fs_pad fs \<Longrightarrow> appends fs fs'"
  by (auto simp: appends_def frame_ok_def intro: exI [of _ "[]"])

lemma appends_trans: "appends fs fs1 \<Longrightarrow> appends fs1 fs2 \<Longrightarrow> appends fs fs2"
  unfolding appends_def by (metis append_assoc)

lemma sent_Ret: "sent x = Some (Ret fs) \<longleftrightarrow> (\<exists>ok. x = Ret (ok, fs))"
  by (auto simp: sent_def split: outcome.split)

lemma post_msg_appends:
  assumes "post_msg t head buf fs = Ret (ok, fs')" "length head \<le> 48"
  shows "appends fs fs'"
proof -
  define m where "m = (fs_message fs)\<lparr>sm_type := t, sm_head := wr 0 head (sm_head (fs_message fs)),
                  sm_len := of_nat (length buf), sm_buf := wr 0 buf (sm_buf (fs_message fs))\<rparr>"
  have l: "length buf \<le> MAX_PB_BUF_LEN" using assms(1) by (auto simp: post_msg_def split: if_splits)
  with assms(1) obtain p where p: "AppendOneData (msg_bytes (fs_pad fs) m) (fs_msg_pipe fs) = Some (ok, p)"
    "fs' = fs\<lparr>fs_message := m, fs_msg_pipe := p\<rparr>"
    by (auto simp: post_msg_def Let_def simp flip: m_def split: option.splits)
  have "\<exists>q'. pipe_rep p (q @ q')" if "pipe_rep (fs_msg_pipe fs) q" for q
  proof -
    have "pipe_rep p (if length (msg_bytes (fs_pad fs) m) + 4 + used (fs_msg_pipe fs) < sp_size (fs_msg_pipe fs)
        then q @ [msg_bytes (fs_pad fs) m] else q)"
      using shm_pipe_append_exact [OF that, of "msg_bytes (fs_pad fs) m"] p(1) by auto
    then show ?thesis by (metis append_Nil2)
  qed
  then show ?thesis using l assms(2) by (simp add: p(2) appends_def frame_ok_def m_def wr_def)
qed

lemma send_client_appends: "send_client h bs fs = Ret (ok, fs') \<Longrightarrow> appends fs fs'"
  by (rule appends_refl) (auto simp: send_client_def split: conn_type.splits option.splits if_splits)

lemma carry_out_appends:
  assumes "carry_out wi e fs = Some (Ret fs')"
  shows "appends fs fs'"
  using assms
  by (cases e) (auto simp: carry_out_def sent_Ret SendMessageToClient_def NotifyConnectLogicIndex_def SendMessageToInternal_def
      PostMessage_internal_def SendMessageToProxy_def appends_refl split: outcome.splits prod.splits
      intro: send_client_appends post_msg_appends)

lemma carry_all_appends: "carry_all wi es fs = Some (Ret fs') \<Longrightarrow> appends fs fs'"
proof (induction es arbitrary: fs)
  case Nil
  then show ?case by (simp add: appends_refl)
next
  case (Cons e es)
  then show ?case using carry_out_appends appends_trans by (fastforce simp: bind_turn_Ret)
qed

lemma on_frame_appends:
  assumes "on_frame wi outs call fs = Some (Ret fs')"
  shows "appends fs fs'"
proof -
  obtain g where g: "carry_all wi (drop (length (outs (fs_game fs))) (outs g)) (fs\<lparr>fs_game := g\<rparr>) = Some (Ret fs')"
    using assms by (auto simp: on_frame_def bind_turn_Ret)
  have "appends fs (fs\<lparr>fs_game := g\<rparr>)" by (rule appends_refl) simp_all
  from appends_trans [OF this carry_all_appends [OF g]] show ?thesis .
qed

lemma lip_orderly: "orderly (lip_virtuals wi env)"
  using on_frame_appends by (auto simp: orderly_def lip_virtuals_def Let_def)

end
