(* ===== verification/ClientPath.thy ===== *)
theory ClientPath
  imports ServerOnFrame
begin

text \<open>
  The way of a client's message through three components: the connect server cuts the TCP stream
  (ConnectServer), the pipe carries its packages (ShmPipe), the frame of the logic server
  queues and dispatches them (FrameServer) to its handler for client messages, e.g. that of the lipstick
  server (ServerOnFrame).
\<close>

subsection \<open>From the client to the handler\<close>

lemma msg_roundtrip:
  assumes "length (sm_buf m) = MAX_PB_BUF_LEN" "length (sm_head m) = 48" "length pad = 4"
  shows "msg_of_bytes (msg_bytes pad m @ ds) = m" "length (msg_bytes pad m) = MSG_SIZE"
  using assms by (simp_all add: msg_of_bytes_def msg_bytes_def rd_skip)

text \<open>A message of the queue.\<close>

definition queued :: "u32 \<Rightarrow> byte list \<Rightarrow> byte list \<Rightarrow> byte list \<Rightarrow> bool" where
  "queued t head body bs \<longleftrightarrow> length bs = MSG_SIZE \<and> sm_type (msg_of_bytes bs) = t \<and> sm_head (msg_of_bytes bs) = head
     \<and> take (unat (sm_len (msg_of_bytes bs))) (sm_buf (msg_of_bytes bs)) = body
     \<and> length (sm_buf (msg_of_bytes bs)) = MAX_PB_BUF_LEN"

lemma post_msg_queues:
  assumes "frame_ok fs" "pipe_rep (fs_msg_pipe fs) q" "used (fs_msg_pipe fs) + (MSG_SIZE + 4) < sp_size (fs_msg_pipe fs)"
    and "length buf \<le> MAX_PB_BUF_LEN" "length head = 48"
  shows "\<exists>m p b. post_msg t head buf fs = Ret (True, fs\<lparr>fs_message := m, fs_msg_pipe := p\<rparr>)
     \<and> frame_ok (fs\<lparr>fs_message := m, fs_msg_pipe := p\<rparr>) \<and> pipe_rep p (q @ [b]) \<and> queued t head buf b
     \<and> sp_size p = sp_size (fs_msg_pipe fs) \<and> used p = used (fs_msg_pipe fs) + (MSG_SIZE + 4)"
proof -
  define m where "m = (fs_message fs)\<lparr>sm_type := t, sm_head := wr 0 head (sm_head (fs_message fs)),
                  sm_len := of_nat (length buf), sm_buf := wr 0 buf (sm_buf (fs_message fs))\<rparr>"
  have l: "length (sm_buf m) = MAX_PB_BUF_LEN" "length (sm_head m) = 48" "length (fs_pad fs) = 4"
    using assms(1,4,5) by (simp_all add: m_def frame_ok_def)
  note rt = msg_roundtrip [OF l]
  have "sm_head m = head" using assms(1,5) by (simp add: m_def frame_ok_def wr_def)
  moreover have "unat (sm_len m) = length buf" using assms(4) by (simp add: m_def unat_of_nat)
  then have "take (unat (sm_len m)) (sm_buf m) = buf" by (simp add: m_def wr_def)
  ultimately have qd: "queued t head buf (msg_bytes (fs_pad fs) m)"
    using rt(1) [of "[]"] rt(2) l by (simp add: queued_def m_def)
  have "used (fs_msg_pipe fs) + 4 + length (msg_bytes (fs_pad fs) m) < sp_size (fs_msg_pipe fs)"
    using assms(3) rt(2) by simp
  from pipe_put [OF assms(2) this] obtain p where p: "AppendOneData (msg_bytes (fs_pad fs) m) (fs_msg_pipe fs) = Some (True, p)"
    "pipe_rep p (q @ [msg_bytes (fs_pad fs) m])" "sp_size p = sp_size (fs_msg_pipe fs)"
    "used p = used (fs_msg_pipe fs) + 4 + length (msg_bytes (fs_pad fs) m)" by blast
  have "post_msg t head buf fs = Ret (True, fs\<lparr>fs_message := m, fs_msg_pipe := p\<rparr>)"
    using assms(4) p(1) by (simp add: post_msg_def Let_def flip: m_def)
  then show ?thesis using p qd rt(2) l
    by (intro exI [of _ m] exI [of _ p] exI [of _ "msg_bytes (fs_pad fs) m"]) (simp add: frame_ok_def)
qed

text \<open>A package as the connect server passes it on: its length field is its length.\<close>

definition whole_package :: "byte list \<Rightarrow> bool" where
  "whole_package f \<longleftrightarrow> of_be32 f = length f \<and> 4 \<le> length f \<and> length f \<le> MAX_CS_PKG_BUF_LEN"

lemma cut_whole:
  "cut_frames client_verdict bs = (fs, rest, ok) \<Longrightarrow> \<forall>f\<in>set fs. whole_package f"
proof (induction fs arbitrary: bs)
  case (Cons f fs)
  obtain n where v: "client_verdict bs = V_take n"
    using Cons.prems by (cases "client_verdict bs") (auto simp: cut_wait cut_bad)
  then have n: "0 < n" "n \<le> length bs" "4 \<le> length bs" "n = of_be32 bs" "n \<le> MAX_CS_PKG_BUF_LEN" "4 \<le> n"
    using csf.take_ok [OF v] by (auto simp: client_verdict_def split: if_splits)
  obtain fs1 r1 ok1 where c: "cut_frames client_verdict (drop n bs) = (fs1, r1, ok1)" by (rule prod_cases3)
  with Cons.prems cut_take [of client_verdict bs n, OF v n(1,2)] have f: "f = take n bs" "fs1 = fs" by simp_all
  have "of_be32 (take n bs) = of_be32 bs" using n(6) by (simp add: of_be32_def min_def)
  with f n have "whole_package f" by (simp add: whole_package_def)
  with Cons.IH [of "drop n bs"] c f Cons.prems show ?case
    using cut_take [of client_verdict bs n, OF v n(1,2)] by simp
qed simp

text \<open>The head of a message names the client: its time stamp, position and port, and the types of message and
  connection.\<close>

definition names_client :: "nat \<Rightarrow> cli_socket \<Rightarrow> byte list \<Rightarrow> bool" where
  "names_client pos s h \<longleftrightarrow> (let c = read_connect h in ch_create_time c = cl_create_time s \<and> ch_socket_pos c = of_nat pos
     \<and> ch_socket_port c = cl_port s \<and> ch_msg_type c = Conn_normal \<and> ch_conn_type c = Conn_tcp)"

lemma carries_names: "carries pos s f msg \<Longrightarrow> names_client pos s (take 48 msg)"
proof -
  assume c: "carries pos s f msg"
  then have l: "48 \<le> length msg" by (simp add: carries_def)
  then have "rd64 0 (take 48 msg) = rd64 0 msg" "rd32 8 (take 48 msg) = rd32 8 msg" "rd32 12 (take 48 msg) = rd32 12 msg"
    "rd32 36 (take 48 msg) = rd32 36 msg" "rd32 40 (take 48 msg) = rd32 40 msg"
    by (auto intro!: rd32_nth_cong rd64_nth_cong)
  with c show ?thesis by (simp add: names_client_def read_connect_def carries_def)
qed

definition posted :: "nat \<Rightarrow> cli_socket \<Rightarrow> byte list \<Rightarrow> byte list \<Rightarrow> bool" where
  "posted pos s f b \<longleftrightarrow> (\<exists>head. queued 1 head (drop 4 f) b \<and> names_client pos s head)"

lemma client_msg_posts:
  assumes "carries pos s f msg" "whole_package f" "4 < length f" "frame_ok fs" "pipe_rep (fs_msg_pipe fs) q"
    and "used (fs_msg_pipe fs) + (MSG_SIZE + 4) < sp_size (fs_msg_pipe fs)"
  shows "\<exists>m p b. client_msg v msg fs = Some (Ret (True, fs\<lparr>fs_message := m, fs_msg_pipe := p\<rparr>))
     \<and> frame_ok (fs\<lparr>fs_message := m, fs_msg_pipe := p\<rparr>) \<and> pipe_rep p (q @ [b]) \<and> posted pos s f b
     \<and> sp_size p = sp_size (fs_msg_pipe fs) \<and> used p = used (fs_msg_pipe fs) + (MSG_SIZE + 4)"
proof -
  have l: "length msg = 48 + length f" "drop 48 msg = f" "rd32 36 msg = 1" using assms(1) by (simp_all add: carries_def)
  have "client_msg v msg fs = Some (post_msg 1 (take 48 msg) (drop 4 f) fs)"
    using l assms(2,3) by (simp add: client_msg_def PostMessage_client_def whole_package_def)
  moreover have "names_client pos s (take 48 msg)" by (rule carries_names [OF assms(1)])
  moreover have "length (drop 4 f) \<le> MAX_PB_BUF_LEN" "length (take 48 msg) = 48"
    using assms(2) l(1) by (simp_all add: whole_package_def le_diff_conv)
  ultimately show ?thesis using post_msg_queues [OF assms(4-6), of "drop 4 f" "take 48 msg" 1]
    unfolding posted_def by metis
qed

lemma client_loop_posts:
  assumes "set_pipe = (\<lambda>p fs. fs\<lparr>fs_cs_pipe := Some p\<rparr>)"
  shows "list_all2 (carries pos s) frames msgs \<Longrightarrow> \<forall>f\<in>set frames. whole_package f \<and> 4 < length f
    \<Longrightarrow> fs_cs_pipe fs = Some cp \<Longrightarrow> pipe_rep cp msgs \<Longrightarrow> length frames < i \<Longrightarrow> frame_ok fs \<Longrightarrow> pipe_rep (fs_msg_pipe fs) q
    \<Longrightarrow> used (fs_msg_pipe fs) + length frames * (MSG_SIZE + 4) < sp_size (fs_msg_pipe fs)
    \<Longrightarrow> \<exists>m p cp' qs. client_loop i v fs_cs_pipe set_pipe fs = Some (Ret (fs\<lparr>fs_cs_pipe := Some cp', fs_message := m, fs_msg_pipe := p\<rparr>))
         \<and> pipe_rep p (q @ qs) \<and> list_all2 (posted pos s) frames qs
         \<and> frame_ok (fs\<lparr>fs_cs_pipe := Some cp', fs_message := m, fs_msg_pipe := p\<rparr>)"
proof (induction frames arbitrary: msgs fs cp q i)
  case Nil
  then obtain j where i: "i = Suc j" by (cases i) auto
  have "GetOneData MAX_CONNECT_BUF_LEN cp = Some (None, cp)" using Nil.prems shm.get_empty by auto
  then have "client_loop i v fs_cs_pipe set_pipe fs = Some (Ret (fs\<lparr>fs_cs_pipe := Some cp\<rparr>))"
    using Nil.prems i by (simp add: assms)
  moreover have "fs\<lparr>fs_cs_pipe := Some cp\<rparr> = fs\<lparr>fs_cs_pipe := Some cp, fs_message := fs_message fs, fs_msg_pipe := fs_msg_pipe fs\<rparr>"
    by simp
  moreover have "frame_ok (fs\<lparr>fs_cs_pipe := Some cp\<rparr>)" using Nil.prems by (simp add: frame_ok_def)
  ultimately show ?case using Nil.prems
    by (intro exI [of _ "fs_message fs"] exI [of _ "fs_msg_pipe fs"] exI [of _ cp] exI [of _ "[]"]) simp
next
  case (Cons f frames)
  obtain msg ms where m: "msgs = msg # ms" "carries pos s f msg" "list_all2 (carries pos s) frames ms"
    using Cons.prems(1) by (auto simp: list_all2_Cons1)
  obtain j where i: "i = Suc j" "length frames < j" using Cons.prems(5) by (cases i) auto
  have wf: "whole_package f" "4 < length f" using Cons.prems(2) by auto
  have len: "length msg \<le> MAX_CONNECT_BUF_LEN" using m(2) wf by (simp add: carries_def whole_package_def)
  obtain cp1 where g: "GetOneData MAX_CONNECT_BUF_LEN cp = Some (Some msg, cp1)" "pipe_rep cp1 ms"
    using shm.get_first [OF _ len] Cons.prems(4) m(1) by blast
  let ?fs = "fs\<lparr>fs_cs_pipe := Some cp1\<rparr>"
  have r: "used (fs_msg_pipe ?fs) + (MSG_SIZE + 4) < sp_size (fs_msg_pipe ?fs)" "frame_ok ?fs" "pipe_rep (fs_msg_pipe ?fs) q"
    using Cons.prems by (simp_all add: frame_ok_def)
  obtain m1 p1 b where c: "client_msg v msg ?fs = Some (Ret (True, ?fs\<lparr>fs_message := m1, fs_msg_pipe := p1\<rparr>))"
    "frame_ok (?fs\<lparr>fs_message := m1, fs_msg_pipe := p1\<rparr>)" "pipe_rep p1 (q @ [b])" "posted pos s f b"
    "sp_size p1 = sp_size (fs_msg_pipe ?fs)" "used p1 = used (fs_msg_pipe ?fs) + (MSG_SIZE + 4)"
    using client_msg_posts [OF m(2) wf r(2,3,1), of v] by blast
  let ?fs1 = "?fs\<lparr>fs_message := m1, fs_msg_pipe := p1\<rparr>"
  have "client_loop i v fs_cs_pipe set_pipe fs = client_loop j v fs_cs_pipe set_pipe ?fs1"
    using g(1) c(1) Cons.prems(3) i(1) by (simp add: assms bind_turn_def)
  moreover have "\<exists>m p cp' qs. client_loop j v fs_cs_pipe set_pipe ?fs1 = Some (Ret (?fs1\<lparr>fs_cs_pipe := Some cp', fs_message := m, fs_msg_pipe := p\<rparr>))
         \<and> pipe_rep p ((q @ [b]) @ qs) \<and> list_all2 (posted pos s) frames qs
         \<and> frame_ok (?fs1\<lparr>fs_cs_pipe := Some cp', fs_message := m, fs_msg_pipe := p\<rparr>)"
    using Cons.prems c g(2) i(2) m(3) by (intro Cons.IH [of ms ?fs1 cp1 j "q @ [b]"]) simp_all
  ultimately obtain m p cp' qs where "client_loop i v fs_cs_pipe set_pipe fs = Some (Ret (?fs1\<lparr>fs_cs_pipe := Some cp', fs_message := m, fs_msg_pipe := p\<rparr>))"
    "pipe_rep p ((q @ [b]) @ qs)" "list_all2 (posted pos s) frames qs"
    "frame_ok (?fs1\<lparr>fs_cs_pipe := Some cp', fs_message := m, fs_msg_pipe := p\<rparr>)" by auto
  then show ?case using c(4)
    by (intro exI [of _ m] exI [of _ p] exI [of _ cp'] exI [of _ "b # qs"]) simp
qed

subsection \<open>Dispatch\<close>

text \<open>The call of the handler with the package \<open>f\<close>: the oldest message has been taken from the queue into \<open>_message\<close>,
  and the handler gets the bytes behind the length field with a head that names the client.\<close>

definition client_call :: "'g virtuals \<Rightarrow> nat \<Rightarrow> cli_socket \<Rightarrow> byte list \<Rightarrow> 'g frame_svr \<Rightarrow> 'g frame_svr outcome option \<Rightarrow> bool" where
  "client_call v pos s f fs r \<longleftrightarrow> (\<exists>head bs p m. GetOneData MSG_SIZE (fs_msg_pipe fs) = Some (Some bs, p)
     \<and> names_client pos s head \<and> r = v_client v head (drop 4 f) (fs\<lparr>fs_msg_pipe := p, fs_message := m\<rparr>))"

text \<open>The handler called with one package after the other, each call on the state that the one before has left, until one
  faults or does not return. \<open>r\<close> is what comes out.\<close>

inductive calls :: "'g virtuals \<Rightarrow> nat \<Rightarrow> cli_socket \<Rightarrow> byte list list \<Rightarrow> 'g frame_svr \<Rightarrow> 'g frame_svr outcome option \<Rightarrow> bool"
  for v pos s where
  none: "calls v pos s [] fs (Some (Ret fs))"
| returns: "client_call v pos s f fs (Some (Ret fs1)) \<Longrightarrow> calls v pos s frames fs1 r \<Longrightarrow> calls v pos s (f # frames) fs r"
| faults: "client_call v pos s f fs r \<Longrightarrow> \<nexists>fs1. r = Some (Ret fs1) \<Longrightarrow> calls v pos s (f # frames) fs r"

inductive_cases calls_ConsE: "calls v pos s (f # frames) fs r"
inductive_simps calls_Nil [simp]: "calls v pos s [] fs r"

lemma dispatch_loop_calls:
  "list_all2 (posted pos s) frames qs \<Longrightarrow> orderly v \<Longrightarrow> pipe_rep (fs_msg_pipe fs) (qs @ q)
    \<Longrightarrow> \<exists>r. calls v pos s frames fs r \<and> dispatch_loop (length frames + i) v fs = bind_turn r (dispatch_loop i v)"
proof (induction frames arbitrary: qs fs q)
  case Nil
  then show ?case by (simp add: bind_turn_def)
next
  case (Cons f frames)
  obtain b bs where q: "qs = b # bs" "posted pos s f b" "list_all2 (posted pos s) frames bs"
    using Cons.prems(1) by (auto simp: list_all2_Cons1)
  obtain head where h: "queued 1 head (drop 4 f) b" "names_client pos s head"
    using q(2) by (auto simp: posted_def)
  have l: "length b = MSG_SIZE" using h(1) by (simp add: queued_def)
  obtain p1 where g: "GetOneData MSG_SIZE (fs_msg_pipe fs) = Some (Some b, p1)" "pipe_rep p1 (bs @ q)"
    using shm.get_first [of "fs_msg_pipe fs" b "bs @ q" MSG_SIZE] Cons.prems(3) q(1) l by auto
  have mb: "msg_of_bytes (b @ ds) = msg_of_bytes b" for ds
    using l by (auto simp: msg_of_bytes_def nth_append intro!: rd32_nth_cong)
  let ?fs = "fs\<lparr>fs_msg_pipe := p1, fs_message := msg_of_bytes b\<rparr>"
  let ?r = "v_client v head (drop 4 f) ?fs"
  have one: "dispatch_one v ?fs = ?r" using h(1) by (simp add: dispatch_one_def queued_def)
  have step: "dispatch_loop (length (f # frames) + i) v fs = bind_turn ?r (dispatch_loop (length frames + i) v)"
    using g(1) l one by (simp add: mb)
  have call: "client_call v pos s f fs ?r" using g(1) h(2) unfolding client_call_def by blast
  show ?case
  proof (cases "\<exists>fs1. ?r = Some (Ret fs1)")
    case True
    then obtain fs1 where r: "?r = Some (Ret fs1)" by blast
    have "appends ?fs fs1" using Cons.prems(2) r by (auto simp: orderly_def)
    then obtain q' where "pipe_rep (fs_msg_pipe fs1) ((bs @ q) @ q')" using g(2) by (auto simp: appends_def)
    then have "pipe_rep (fs_msg_pipe fs1) (bs @ (q @ q'))" by simp
    from Cons.IH [OF q(3) Cons.prems(2) this] obtain r2 where r2: "calls v pos s frames fs1 r2"
      "dispatch_loop (length frames + i) v fs1 = bind_turn r2 (dispatch_loop i v)" by blast
    have "calls v pos s (f # frames) fs r2" by (rule calls.returns [OF _ r2(1)]) (use call r in simp)
    moreover have "dispatch_loop (length (f # frames) + i) v fs = bind_turn r2 (dispatch_loop i v)"
      using step r r2(2) by (simp add: bind_turn_def)
    ultimately show ?thesis by blast
  next
    case False
    then have "bind_turn ?r k = ?r" for k by (auto simp: bind_turn_def split: option.split outcome.split)
    with step calls.faults [OF call False] show ?thesis by metis
  qed
qed

subsection \<open>From the stream to the handler\<close>

lemma GetClientMessage_posts:
  assumes "list_all2 (carries pos s) frames msgs" "\<forall>f\<in>set frames. whole_package f \<and> 4 < length f"
    and "fs_cs_pipe fs = Some cp" "pipe_rep cp msgs" "length frames < fs_msg_shm_size fs div 2"
    and "frame_ok fs" "pipe_rep (fs_msg_pipe fs) q"
    and "used (fs_msg_pipe fs) + length frames * (MSG_SIZE + 4) < sp_size (fs_msg_pipe fs)"
  shows "\<exists>fs1 qs. GetClientMessage v fs = Some (Ret fs1) \<and> pipe_rep (fs_msg_pipe fs1) (q @ qs)
     \<and> list_all2 (posted pos s) frames qs \<and> fs_game fs1 = fs_game fs \<and> fs_msg_shm_size fs1 = fs_msg_shm_size fs"
  using client_loop_posts [OF refl assms, of v] by (auto simp: GetClientMessage_def)


text \<open>The lipstick server on the frame, and a stream with the login of machine 7 and a package it cannot read.\<close>

definition a_wire :: wire where
  "a_wire = \<lparr>wi_cs = (\<lambda>_. [1]), wi_ss = (\<lambda>_. [2]), wi_in = (\<lambda>_. [3]), wi_junk = replicate 48 0, wi_pad = [0, 0, 0, 0]\<rparr>"

definition log_pipe :: shm_pipe where
  "log_pipe = ShmPipe_ctor False \<lparr>sp_begin = 0, sp_end = 0, sp_size = 0, sp_buf = replicate 200000 0\<rparr>"

lemma log_pipe: "pipe_rep log_pipe []" "sp_size log_pipe = 200000" "used log_pipe = 0"
proof -
  show "pipe_rep log_pipe []" using Initialize_rep by (simp add: log_pipe_def ShmPipe_ctor_def)
  show "sp_size log_pipe = 200000" "used log_pipe = 0"
    by (simp_all add: log_pipe_def ShmPipe_ctor_def Initialize_def wrap32_def used_def)
qed

definition lip_frame :: "lip_server frame_svr" where
  "lip_frame = \<lparr>fs_msg_shm_size = 6, fs_msg_pipe = log_pipe, fs_cs_pipe = None, fs_sc_pipe = None, fs_cs_pipe_ws = None,
     fs_sc_pipe_ws = None, fs_proxy = \<lparr>pm_pool = [], pm_count = 0, pm_buf = []\<rparr>,
     fs_message = \<lparr>sm_type = 0, sm_buf = replicate MAX_PB_BUF_LEN 0, sm_len = 0, sm_head = replicate 48 0\<rparr>,
     fs_pad = [0, 0, 0, 0], fs_check_time = 0, fs_game = server0\<rparr>"

definition machine_client :: cli_socket where
  "machine_client = a_client\<lparr>cl_in := [Seg [0, 0], Seg [0, 5, 1, 0, 0, 0], Seg [5, 9, 0]]\<rparr>"

lemma machine_client_cut:
  "cut_frames client_verdict [0, 0, 0, 5, 1, 0, 0, 0, 5, 9, 0] = ([[0, 0, 0, 5, 1], [0, 0, 0, 5, 9]], [0], True)"
proof -
  let ?bs = "[0, 0, 0, 5, 1, 0, 0, 0, 5, 9, 0] :: byte list"
  have v: "client_verdict ?bs = V_take 5" "client_verdict [0, 0, 0, 5, 9, 0] = V_take 5" "client_verdict [0] = V_wait"
    by (simp_all add: client_verdict_def of_be32_def of_le32_def)
  show ?thesis
    using cut_take [of client_verdict ?bs 5, OF v(1)] cut_take [of client_verdict "[0, 0, 0, 5, 9, 0]" 5, OF v(2)] cut_wait [of client_verdict "[0]", OF v(3)]
    by simp
qed


end
