(* ===== verification/GameShell.thy ===== *)
theory GameShell
  imports LipstickBase
begin

text \<open>
  What the \<open>GameServer\<close> classes of svr/machinesvr, svr/promotersvr, svr/websvr and
  svr/dbproxysvr have in common: a session is made for every request and every internal
  message, an answer goes to the session that waits for it, timers and sessions are checked
  from time to time. \<open>proc\<close> is a server's \<open>MessageManager::Process\<close>. \<open>lip_env\<close> is the environment
  of these servers too. The locale \<open>session_server\<close> is the contract between the handlers of a
  server and its entry points: sessions that are fine end their processing in a value, and are
  fine when they are kept.
\<close>

type_synonym 'w proc = "session \<Rightarrow> 'w \<Rightarrow> (session option \<times> 'w) outcome option"

record 'w shell =
  sh_sessions :: session_mgr
  sh_world :: 'w
  sh_timer_check :: u64
  sh_session_check :: u32

definition manager_Process :: "lip_env \<Rightarrow> (u32 \<Rightarrow> 'w world_scheme handler option) \<Rightarrow> 'w world_scheme proc" where
  "manager_Process env hs s w = (case hs (se_msg_id s) of
     None \<Rightarrow> Some (Ret (Some s, w))
   | Some h \<Rightarrow> Process env h s w)"

text \<open>The session in its pool after a call of \<open>Process\<close>: released or written back.\<close>

definition run_session :: "'w proc \<Rightarrow> u32 \<Rightarrow> (session \<Rightarrow> session) \<Rightarrow> ('w, 'g) shell_scheme \<Rightarrow> ('w, 'g) shell_scheme outcome option" where
  "run_session proc sid prepare gs = (case GetSession sid (sh_sessions gs) of
     None \<Rightarrow> Some (Ret gs)
   | Some s \<Rightarrow>
       (case proc (prepare s) (sh_world gs) of
          None \<Rightarrow> None
        | Some Crash \<Rightarrow> Some Crash
        | Some (Ret (None, w)) \<Rightarrow>
            Some (Ret (gs\<lparr>sh_world := w, sh_sessions := snd (ReleaseSession sid (sh_sessions gs))\<rparr>))
        | Some (Ret (Some s1, w)) \<Rightarrow>
            Some (Ret (gs\<lparr>sh_world := w, sh_sessions := kp_update sid (\<lambda>_. s1) (sh_sessions gs)\<rparr>))))"

definition open_session :: "lip_env \<Rightarrow> 'w proc \<Rightarrow> u32 \<Rightarrow> (session \<Rightarrow> session) \<Rightarrow> ('w, 'g) shell_scheme
    \<Rightarrow> ('w, 'g) shell_scheme outcome option" where
  "open_session env proc msg_id prepare gs = (case CreateSession (me_now env) msg_id (sh_sessions gs) of
     (None, sm) \<Rightarrow> Some (Ret (gs\<lparr>sh_sessions := sm\<rparr>))
   | (Some sid, sm) \<Rightarrow> run_session proc sid prepare (gs\<lparr>sh_sessions := sm\<rparr>))"

definition shell_OnServerMessage :: "lip_env \<Rightarrow> 'w proc \<Rightarrow> proxy_head \<Rightarrow> byte list \<Rightarrow> ('w, 'g) shell_scheme
    \<Rightarrow> ('w, 'g) shell_scheme outcome option" where
  "shell_OnServerMessage env proc head buf gs = (case le_parse_ss env buf of
     None \<Rightarrow> Some (Ret gs)
   | Some msg \<Rightarrow>
       if ss_type msg = EN_SS_Request then
         open_session env proc (ss_union_case msg) (\<lambda>s. s\<lparr>se_msg_head := MH_proxy head, se_ss_msg := msg\<rparr>) gs
       else run_session proc (px_session_id head) (\<lambda>s. s\<lparr>se_ss_response := msg\<rparr>) gs)"

definition shell_OnInternalMessage :: "lip_env \<Rightarrow> 'w proc \<Rightarrow> byte list \<Rightarrow> ('w, 'g) shell_scheme
    \<Rightarrow> ('w, 'g) shell_scheme outcome option" where
  "shell_OnInternalMessage env proc buf gs = (case le_parse_in env buf of
     None \<Rightarrow> Some (Ret gs)
   | Some msg \<Rightarrow> open_session env proc (in_union_case msg) (\<lambda>s. s\<lparr>se_inter_msg := msg\<rparr>) gs)"

definition shell_timers :: "lip_env \<Rightarrow> ('w world_scheme, 'g) shell_scheme \<Rightarrow> ('w world_scheme, 'g) shell_scheme" where
  "shell_timers env gs =
     (if sh_timer_check gs + 100 \<le> GetTimeMsec (me_now env) then
        (let (msgs, tm) = Tick (le_ord env) (me_now env) (w_timers (sh_world gs));
             w = fold (\<lambda>m w. snd (SendMsgToInternal env m w)) msgs (sh_world gs)
         in gs\<lparr>sh_timer_check := GetTimeMsec (me_now env), sh_world := w\<lparr>w_timers := tm\<rparr>\<rparr>)
      else gs)"

definition shell_sessions :: "lip_env \<Rightarrow> ('w, 'g) shell_scheme \<Rightarrow> ('w, 'g) shell_scheme" where
  "shell_sessions env gs =
     (if sh_session_check gs + 5 \<le> GetTime (me_now env) then
        gs\<lparr>sh_session_check := GetTime (me_now env), sh_sessions := CheckTimeOut (le_ord env) (me_now env) (sh_sessions gs)\<rparr>
      else gs)"

subsection \<open>Start and exit\<close>

text \<open>How sessions and timers are written to and read from a segment, the sizes and keys of the pools,
  and whether the configuration of the server can be read.\<close>

record shell_boot =
  sb_session :: "(session \<Rightarrow> nat) \<times> (session \<Rightarrow> byte list \<Rightarrow> nat \<Rightarrow> nat \<Rightarrow> bool \<times> byte list \<times> nat) \<times> (byte list \<Rightarrow> nat \<Rightarrow> nat \<Rightarrow> (session \<times> nat) option)"
  sb_timer :: "(timer \<Rightarrow> nat) \<times> (timer \<Rightarrow> byte list \<Rightarrow> nat \<Rightarrow> nat \<Rightarrow> bool \<times> byte list \<times> nat) \<times> (byte list \<Rightarrow> nat \<Rightarrow> nat \<Rightarrow> (timer \<times> nat) option)"
  sb_sizes :: "nat \<times> nat"
  sb_keys :: "u32 \<times> u32"
  sb_rm_ok :: bool
  sb_mk_ok :: bool
  sb_config :: bool

definition init_managers :: "lip_env \<Rightarrow> 'b shell_boot_scheme \<Rightarrow> shm_world \<Rightarrow> (int \<times> (session_mgr \<times> timer_mgr) option \<times> shm_world) option" where
  "init_managers env b shm = do {
     (ok1, sm, shm1) \<leftarrow> SessionManager_Init (le_ord env) (snd (snd (sb_session b))) (sb_rm_ok b) (fst (sb_sizes b)) (fst (sb_keys b)) shm;
     if \<not> ok1 then Some (- 1, None, shm1) else do {
       (ok2, tm, shm2) \<leftarrow> TimerManager_Init (le_ord env) (snd (snd (sb_timer b))) (sb_rm_ok b) (snd (sb_sizes b)) (snd (sb_keys b)) shm1;
       if \<not> ok2 then Some (- 2, None, shm2) else Some (0, Some (sm, tm), shm2) } }"

definition release_managers :: "lip_env \<Rightarrow> 'b shell_boot_scheme \<Rightarrow> session_mgr \<Rightarrow> timer_mgr \<Rightarrow> shm_world \<Rightarrow> shm_world" where
  "release_managers env b sm tm shm =
     (let shm1 = snd (om_Release (le_ord env) (fst (sb_session b)) (fst (snd (sb_session b))) (sb_rm_ok b) (sb_mk_ok b) (kp_om sm) shm)
      in snd (om_Release (le_ord env) (fst (sb_timer b)) (fst (snd (sb_timer b))) (sb_rm_ok b) (sb_mk_ok b) (kp_om tm) shm1))"

subsection \<open>Events one after the other\<close>

fun shell_run :: "('e \<Rightarrow> 'g \<Rightarrow> 'g outcome option) \<Rightarrow> 'e list \<Rightarrow> 'g \<Rightarrow> 'g outcome option" where
  "shell_run step [] gs = Some (Ret gs)"
| "shell_run step (e # es) gs = (case step e gs of Some (Ret gs1) \<Rightarrow> shell_run step es gs1 | r \<Rightarrow> r)"

lemma shell_run_keeps:
  assumes "\<And>e gs. P gs \<Longrightarrow> \<exists>gs'. step e gs = Some (Ret gs') \<and> P gs'"
  shows "P gs \<Longrightarrow> \<exists>gs'. shell_run step es gs = Some (Ret gs') \<and> P gs'"
proof (induction es arbitrary: gs)
  case (Cons e es)
  obtain gs1 where "step e gs = Some (Ret gs1)" "P gs1" using assms [OF Cons.prems] by blast
  with Cons.IH [of gs1] show ?case by simp
qed simp

subsection \<open>The contract of a server's handlers\<close>

text \<open>A session is fine when its handler works on its first query, and has one when it waits for a
  save. The servers of this theory never leave the first query.\<close>

definition fine :: "session \<Rightarrow> bool" where
  "fine s \<longleftrightarrow> se_process_index s = 0 \<and> (se_session_state s = Wait_Save \<longrightarrow> se_db_processs s \<noteq> [])"

definition pool_fine :: "('w, 'g) shell_scheme \<Rightarrow> bool" where
  "pool_fine gs \<longleftrightarrow> kp_inv se_session_id (sh_sessions gs) \<and> (\<forall>k s. GetSession k (sh_sessions gs) = Some s \<longrightarrow> fine s)"

lemma pool_fineD:
  "pool_fine gs \<Longrightarrow> kp_inv se_session_id (sh_sessions gs)" "pool_fine gs \<Longrightarrow> GetSession k (sh_sessions gs) = Some s \<Longrightarrow> fine s"
  by (auto simp: pool_fine_def)

lemma fine_fill [simp]:
  "fine (s\<lparr>se_msg_head := h, se_ss_msg := m\<rparr>) = fine s" "fine (s\<lparr>se_ss_response := m\<rparr>) = fine s"
  "fine (s\<lparr>se_inter_msg := i\<rparr>) = fine s" "fine (s\<lparr>se_msg_head := h, se_cs_msg := c, se_uid := u\<rparr>) = fine s"
  "fine (s\<lparr>se_msg_head := h, se_web_msg := m\<rparr>) = fine s" "fine (s\<lparr>se_update_time := t\<rparr>) = fine s"
  by (simp_all add: fine_def)

definition new_session :: "u32 \<Rightarrow> u32 \<Rightarrow> u64 \<Rightarrow> session" where
  "new_session j i now = session0\<lparr>se_session_id := j, se_msg_id := i, se_update_time := GetTime now, se_session_state := On_Message\<rparr>"

lemma new_session_fine [simp]: "fine (new_session j i now)"
  by (simp add: fine_def new_session_def session0_def)

definition pool_good :: "(session \<Rightarrow> bool) \<Rightarrow> ('w, 'g) shell_scheme \<Rightarrow> bool" where
  "pool_good good gs \<longleftrightarrow> kp_inv se_session_id (sh_sessions gs) \<and> (\<forall>k s. GetSession k (sh_sessions gs) = Some s \<longrightarrow> good s)"

lemma pool_goodD:
  "pool_good good gs \<Longrightarrow> kp_inv se_session_id (sh_sessions gs)" "pool_good good gs \<Longrightarrow> GetSession k (sh_sessions gs) = Some s \<Longrightarrow> good s"
  by (auto simp: pool_good_def)

lemma pool_fine_good: "pool_fine gs = pool_good fine gs"
  by (simp add: pool_fine_def pool_good_def)

text \<open>\<open>good\<close> is what the handlers of a server need of a session and keep.\<close>

locale session_keeper =
  fixes proc :: "'w proc" and good :: "session \<Rightarrow> bool"
  assumes ends: "good s \<Longrightarrow> \<exists>so w'. proc s w = Some (Ret (so, w'))
      \<and> (\<forall>s'. so = Some s' \<longrightarrow> good s' \<and> se_session_id s' = se_session_id s)"
begin

lemma run_good:
  assumes ok: "pool_good good gs"
    and p: "\<And>s. GetSession sid (sh_sessions gs) = Some s \<Longrightarrow> good (prepare s)" "\<And>s. se_session_id (prepare s) = se_session_id s"
  shows "\<exists>gs'. run_session proc sid prepare gs = Some (Ret gs') \<and> pool_good good gs'"
proof (cases "GetSession sid (sh_sessions gs)")
  case None
  with ok show ?thesis by (simp add: run_session_def)
next
  case (Some s)
  note k = pool_goodD(1) [OF ok] and L = session_pool [OF pool_goodD(1) [OF ok]]
  have id: "se_session_id (prepare s) = sid" using L(4) [OF Some] p(2) by simp
  from ends [OF p(1) [OF Some], of "sh_world gs"] obtain so w' where r: "proc (prepare s) (sh_world gs) = Some (Ret (so, w'))"
    "\<forall>s'. so = Some s' \<longrightarrow> good s' \<and> se_session_id s' = sid" unfolding id by blast
  show ?thesis
  proof (cases so)
    case None
    have "pool_good good (gs\<lparr>sh_world := w', sh_sessions := snd (ReleaseSession sid (sh_sessions gs))\<rparr>)"
      using L(2) L(7) pool_goodD(2) [OF ok] by (auto simp: pool_good_def split: if_splits)
    with r(1) None Some show ?thesis by (simp add: run_session_def)
  next
    case s1: (Some s1)
    with r(2) have f: "good s1" "se_session_id s1 = sid" by simp_all
    have "pool_good good (gs\<lparr>sh_world := w', sh_sessions := kp_update sid (\<lambda>_. s1) (sh_sessions gs)\<rparr>)"
      using L(3) [OF f(2)] L(8) [OF f(2)] f(1) pool_goodD(2) [OF ok] by (auto simp: pool_good_def split: if_splits)
    with r(1) s1 Some show ?thesis by (simp add: run_session_def)
  qed
qed

text \<open>A session that has just been made is \<open>new_session j i now\<close>.\<close>

lemma create_good:
  assumes ok: "pool_good good gs" and c: "CreateSession now i (sh_sessions gs) = (so, sm)"
    and fresh: "\<And>j. so = Some j \<Longrightarrow> good (new_session j i now)"
  shows "pool_good good (gs\<lparr>sh_sessions := sm\<rparr>)"
proof -
  note L = session_pool [OF pool_goodD(1) [OF ok]]
  have "good s" if g: "GetSession j sm = Some s" for j s
  proof (cases "so = Some j")
    case True
    from g L(5) [OF c [unfolded True]] have "s = new_session j i now" by (simp add: new_session_def)
    then show ?thesis using fresh [OF True] by simp
  next
    case False
    from L(6) [OF c False] g pool_goodD(2) [OF ok] show ?thesis by simp
  qed
  moreover have "kp_inv se_session_id sm" using L(1) [of now i] c by simp
  ultimately show ?thesis by (simp add: pool_good_def)
qed

lemma open_good:
  assumes ok: "pool_good good gs" and fresh: "\<And>j. good (new_session j i (me_now env))"
    and p: "\<And>j. good (prepare (new_session j i (me_now env)))" "\<And>s. se_session_id (prepare s) = se_session_id s"
  shows "\<exists>gs'. open_session env proc i prepare gs = Some (Ret gs') \<and> pool_good good gs'"
proof (cases "CreateSession (me_now env) i (sh_sessions gs)")
  case (Pair so sm)
  have ok': "pool_good good (gs\<lparr>sh_sessions := sm\<rparr>)" by (rule create_good [OF ok Pair fresh])
  show ?thesis
  proof (cases so)
    case (Some sid)
    note L = session_pool(5) [OF pool_goodD(1) [OF ok] Pair [unfolded Some]]
    have "good (prepare s)" if "GetSession sid (sh_sessions (gs\<lparr>sh_sessions := sm\<rparr>)) = Some s" for s
      using that L p(1) [of sid] by (simp add: new_session_def)
    from run_good [OF ok' this p(2)] show ?thesis by (simp add: open_session_def Pair Some)
  qed (use Pair ok' in \<open>simp add: open_session_def\<close>)
qed

end

locale session_server = session_keeper proc fine for proc :: "'w proc"
begin

lemma run_session_ok:
  assumes "pool_fine gs" "\<And>s. fine (prepare s) = fine s" "\<And>s. se_session_id (prepare s) = se_session_id s"
  shows "\<exists>gs'. run_session proc sid prepare gs = Some (Ret gs') \<and> pool_fine gs'"
  using run_good [of gs sid prepare] assms pool_goodD(2) [of fine gs] by (auto simp: pool_fine_good)

lemma open_session_ok:
  assumes "pool_fine gs" "\<And>s. fine (prepare s) = fine s" "\<And>s. se_session_id (prepare s) = se_session_id s"
  shows "\<exists>gs'. open_session env proc i prepare gs = Some (Ret gs') \<and> pool_fine gs'"
  using open_good [of gs i env prepare] assms by (simp add: pool_fine_good)

lemma server_message_ok:
  "pool_fine gs \<Longrightarrow> \<exists>gs'. shell_OnServerMessage env proc head buf gs = Some (Ret gs') \<and> pool_fine gs'"
  using open_session_ok [of gs "\<lambda>s. s\<lparr>se_msg_head := MH_proxy head, se_ss_msg := m\<rparr>" env "ss_union_case m" for m]
    run_session_ok [of gs "\<lambda>s. s\<lparr>se_ss_response := m\<rparr>" for m]
  by (auto simp: shell_OnServerMessage_def split: option.split)

lemma internal_message_ok:
  "pool_fine gs \<Longrightarrow> \<exists>gs'. shell_OnInternalMessage env proc buf gs = Some (Ret gs') \<and> pool_fine gs'"
  using open_session_ok [of gs "\<lambda>s. s\<lparr>se_inter_msg := m\<rparr>" env "in_union_case m" for m]
  by (auto simp: shell_OnInternalMessage_def split: option.split)

end

text \<open>The checks keep the pool fine whatever the handlers do.\<close>

lemma shell_timers_fine [simp]: "pool_fine (shell_timers env gs) = pool_fine gs"
  by (simp add: shell_timers_def pool_fine_def Let_def split_beta)

lemma shell_sessions_fine: "pool_fine gs \<Longrightarrow> pool_fine (shell_sessions env gs)"
  using sessions.release_all [of "sh_sessions gs"]
  by (auto simp: shell_sessions_def pool_fine_def CheckTimeOut_def split: if_splits)

subsection \<open>Handlers that keep the contract\<close>

text \<open>A session keeps its number and the type of its message.\<close>

definition same_key :: "session \<Rightarrow> session \<Rightarrow> bool" where
  "same_key s' s \<longleftrightarrow> se_session_id s' = se_session_id s \<and> se_msg_id s' = se_msg_id s"

lemma same_key_refl [simp]: "same_key s s"
  by (simp add: same_key_def)

lemma same_key_trans: "same_key s2 s1 \<Longrightarrow> same_key s1 s \<Longrightarrow> same_key s2 s"
  by (simp add: same_key_def)

definition step_fine :: "bool \<Rightarrow> 'w hstep \<Rightarrow> bool" where
  "step_fine queried f \<longleftrightarrow> (\<forall>s w. fine s \<longrightarrow> (queried \<longrightarrow> se_db_processs s \<noteq> []) \<longrightarrow>
     (\<exists>r s' w'. f s w = Some (r, s', w') \<and> r \<noteq> H_Next \<and> fine s' \<and> same_key s' s))"

definition handler_fine :: "'w handler \<Rightarrow> bool" where
  "handler_fine h \<longleftrightarrow> step_fine False (h_OnMessage h) \<and> step_fine False (h_OnServerResponse h) \<and> step_fine True (h_OnQuerySuccess h)
     \<and> step_fine True (h_OnSaveSuccess h) \<and> step_fine False (h_OnQueryFailed h) \<and> step_fine False (h_OnSaveFailed h)"

lemma step_fineD:
  "step_fine q f \<Longrightarrow> fine s \<Longrightarrow> (q \<Longrightarrow> se_db_processs s \<noteq> []) \<Longrightarrow>
    \<exists>r s' w'. f s w = Some (r, s', w') \<and> r \<noteq> H_Next \<and> fine s' \<and> same_key s' s"
  unfolding step_fine_def by blast

lemma base_handler_fine [simp]:
  "step_fine False (h_OnMessage (base_handler env))" "step_fine False (h_OnServerResponse (base_handler env))"
  "step_fine True (h_OnQuerySuccess (base_handler env))" "step_fine True (h_OnSaveSuccess (base_handler env))"
  "step_fine False (h_OnQueryFailed (base_handler env))" "step_fine False (h_OnSaveFailed (base_handler env))"
  by (auto simp: base_handler_def step_fine_def SendMsgToClient_def split_beta fine_def same_key_def)

lemma hashed_fields:
  "se_process_index (fst (snd (send_hashed t env m s w))) = se_process_index s"
  "se_db_processs (fst (snd (send_hashed t env m s w))) = se_db_processs s"
  "se_session_state (fst (snd (send_hashed t env m s w))) = se_session_state s"
  "se_session_id (fst (snd (send_hashed t env m s w))) = se_session_id s"
  "se_msg_id (fst (snd (send_hashed t env m s w))) = se_msg_id s"
  by (simp_all add: send_hashed_def Let_def split_beta)

lemma build_query_fields:
  "se_process_index (fst (snd (build_query env ps s w))) = se_process_index s
   \<and> se_db_processs (fst (snd (build_query env ps s w))) = se_db_processs s
   \<and> se_session_state (fst (snd (build_query env ps s w))) = se_session_state s
   \<and> same_key (fst (snd (build_query env ps s w))) s"
  by (induction ps arbitrary: s w) (simp_all add: same_key_def Let_def split_beta SendMsgToDBProxy_def hashed_fields)

lemma query_fine:
  assumes "fine s" "QueryAllData env s w = (r, s', w')"
  shows "r \<in> {H_Hup, H_Failed} \<and> fine s' \<and> same_key s' s"
  using assms build_query_fields [of env "se_db_processs s" s w]
  by (auto simp: QueryAllData_def SendQueryToDBProxy_def split_beta fine_def same_key_def split: if_splits)

lemma save_fine:
  assumes "fine s" "SaveOneData env s w = (r, s', w')"
  shows "r \<in> {H_Hup, H_Failed} \<and> fine s' \<and> same_key s' s"
  using assms
  by (auto simp: SaveOneData_def SendSaveToDBProxy_def SendMsgToDBProxy_def SetDBData_def GetDBData_def Let_def split_beta
      fine_def hashed_fields same_key_def split: option.splits if_splits)

definition ends_fine :: "session \<Rightarrow> (session option \<times> 'w) outcome option \<Rightarrow> bool" where
  "ends_fine s x \<longleftrightarrow> (\<exists>so w'. x = Some (Ret (so, w')) \<and> (\<forall>s'. so = Some s' \<longrightarrow> fine s' \<and> same_key s' s))"

lemma loop_fine:
  assumes "fine s1" "r \<noteq> H_Next" "same_key s1 s"
  shows "ends_fine s (process_loop env h r s1 w)"
proof -
  have e: "ends_fine s (process_loop env h q s2 w2)"
    if "q \<in> {H_Hup, H_Failed, H_Done} \<and> fine s2 \<and> same_key s2 s1" for q s2 w2
    using that assms(3) same_key_trans by (auto simp: ends_fine_def ProcessDone_def ProcessFailed_def)
  obtain r1 s2 w2 where q: "QueryAllData env s1 w = (r1, s2, w2)" by (rule prod_cases3)
  obtain r3 s4 w4 where v: "SaveOneData env s1 w = (r3, s4, w4)" by (rule prod_cases3)
  show ?thesis
  proof (cases r)
    case H_Query
    with query_fine [OF assms(1) q] q show ?thesis by (subst process_loop.simps) (auto intro!: e)
  next
    case H_Save
    with save_fine [OF assms(1) v] v show ?thesis by (subst process_loop.simps) (auto intro!: e)
  qed (use assms in \<open>auto simp: ends_fine_def ProcessDone_def ProcessFailed_def\<close>)
qed

lemma SetDBData_fine [simp]:
  "fine (SetDBData i d s) = fine s" "se_db_processs (SetDBData i d s) = [] \<longleftrightarrow> se_db_processs s = []"
  "same_key (SetDBData i d s) t = same_key s t" "same_key t (SetDBData i d s) = same_key t s"
  by (auto simp: SetDBData_def fine_def same_key_def)

lemma AddQueryKey_fine [simp]:
  "fine s \<Longrightarrow> fine (AddQueryKey uid key s)" "same_key (AddQueryKey uid key s) t = same_key s t"
proof -
  have "add_key uid key ps \<noteq> []" for ps by (cases ps) simp_all
  then show "fine s \<Longrightarrow> fine (AddQueryKey uid key s)" "same_key (AddQueryKey uid key s) t = same_key s t"
    by (simp_all add: fine_def AddQueryKey_def same_key_def)
qed

lemma index_some_queried: "GetDBProcessIndex uid s = Some i \<Longrightarrow> se_db_processs s \<noteq> []"
  by (auto simp: GetDBProcessIndex_def)

lemma QueryResponse_fine:
  assumes h: "handler_fine h" and s: "fine s"
  shows "\<exists>r s' w'. QueryResponse env h s w = Some (r, s', w') \<and> r \<noteq> H_Next \<and> fine s' \<and> same_key s' s"
proof -
  have f: "\<exists>r s' w'. h_OnQueryFailed h s w = Some (r, s', w') \<and> r \<noteq> H_Next \<and> fine s' \<and> same_key s' s"
    using step_fineD [of False "h_OnQueryFailed h" s w] h s by (simp add: handler_fine_def)
  have ok: "\<exists>r s' w'. h_OnQuerySuccess h (SetDBData i d s) w = Some (r, s', w') \<and> r \<noteq> H_Next \<and> fine s' \<and> same_key s' s"
    if "se_db_processs s \<noteq> []" for i d
    using step_fineD [of True "h_OnQuerySuccess h" "SetDBData i d s" w] h s that by (simp add: handler_fine_def)
  show ?thesis
    using f ok s by (auto simp: QueryResponse_def Let_def split: prod.split option.split dest!: index_some_queried)
qed

lemma SaveResponse_fine:
  assumes h: "handler_fine h" and s: "fine s" "se_session_state s = Wait_Save"
  shows "\<exists>r s' w'. SaveResponse env h s w = Some (r, s', w') \<and> r \<noteq> H_Next \<and> fine s' \<and> same_key s' s"
proof -
  let ?s1 = "s\<lparr>se_redo_count := se_redo_count s + 1\<rparr>"
  have ne: "se_db_processs s \<noteq> []" using s by (simp add: fine_def)
  have f1: "fine ?s1" and fc: "fine (ClearEvents (SetDBData i d ?s1))" for i d
    using s(1) by (simp_all add: fine_def ClearEvents_def SetDBData_def)
  have f: "\<exists>r s' w'. h_OnSaveFailed h t w = Some (r, s', w') \<and> r \<noteq> H_Next \<and> fine s' \<and> same_key s' s"
    if "t = s \<or> t = ?s1" for t
    using step_fineD [of False "h_OnSaveFailed h" t w] h s(1) f1 that by (auto simp: handler_fine_def same_key_def simp del: split_paired_Ex)
  have ok: "\<exists>r s' w'. h_OnSaveSuccess h s w = Some (r, s', w') \<and> r \<noteq> H_Next \<and> fine s' \<and> same_key s' s"
    using step_fineD [of True "h_OnSaveSuccess h" s w] h s(1) ne by (simp add: handler_fine_def)
  have redo: "\<exists>r s' w'. h_OnQuerySuccess h (ClearEvents (SetDBData i d ?s1)) w = Some (r, s', w') \<and> r \<noteq> H_Next \<and> fine s' \<and> same_key s' s"
    for i d
    using step_fineD [of True "h_OnQuerySuccess h" "ClearEvents (SetDBData i d ?s1)" w] h fc [of i d] ne
    by (auto simp: handler_fine_def ClearEvents_def same_key_def SetDBData_def simp del: split_paired_Ex)
  show ?thesis
    using f [of s] f [of ?s1] ok redo by (simp add: SaveResponse_def Let_def split: prod.split option.split)
qed

lemma Process_fine:
  assumes h: "handler_fine h" and s: "fine s"
  shows "ends_fine s (Process env h s w)"
proof -
  have "\<exists>r s' w'. (case se_session_state s of On_Message \<Rightarrow> h_OnMessage h s w | Wait_Response \<Rightarrow> h_OnServerResponse h s w
        | Wait_Query \<Rightarrow> QueryResponse env h s w | Wait_Save \<Rightarrow> SaveResponse env h s w) = Some (r, s', w')
      \<and> r \<noteq> H_Next \<and> fine s' \<and> same_key s' s"
  proof (cases "se_session_state s")
    case On_Message
    then show ?thesis using step_fineD [of False "h_OnMessage h" s w] h s by (auto simp: handler_fine_def)
  next
    case Wait_Response
    then show ?thesis using step_fineD [of False "h_OnServerResponse h" s w] h s by (auto simp: handler_fine_def)
  qed (use QueryResponse_fine [OF h s] SaveResponse_fine [OF h s] in simp_all)
  then obtain r s' w' where x: "(case se_session_state s of On_Message \<Rightarrow> h_OnMessage h s w | Wait_Response \<Rightarrow> h_OnServerResponse h s w
        | Wait_Query \<Rightarrow> QueryResponse env h s w | Wait_Save \<Rightarrow> SaveResponse env h s w) = Some (r, s', w')"
      "r \<noteq> H_Next" "fine s'" "same_key s' s" by blast
  show ?thesis unfolding Process_def x(1) using loop_fine [OF x(3,2,4)] by simp
qed

text \<open>A manager all of whose handlers keep the contract is a \<open>session_server\<close>.\<close>

lemma manager_ends:
  assumes "\<And>i h. hs i = Some h \<Longrightarrow> handler_fine h" "fine s"
  shows "\<exists>so w'. manager_Process env hs s w = Some (Ret (so, w'))
      \<and> (\<forall>s'. so = Some s' \<longrightarrow> fine s' \<and> same_key s' s)"
  using Process_fine [OF assms(1) assms(2)] assms(2)
  by (cases "hs (se_msg_id s)") (auto simp: manager_Process_def ends_fine_def)

lemma manager_server:
  assumes "\<And>i h. hs i = Some h \<Longrightarrow> handler_fine h"
  shows "session_server (manager_Process env hs)"
proof (unfold_locales)
  fix s w assume "fine s"
  then have "\<exists>so w'. manager_Process env hs s w = Some (Ret (so, w')) \<and> (\<forall>s'. so = Some s' \<longrightarrow> fine s' \<and> same_key s' s)"
    by (intro manager_ends assms)
  then show "\<exists>so w'. manager_Process env hs s w = Some (Ret (so, w'))
      \<and> (\<forall>s'. so = Some s' \<longrightarrow> fine s' \<and> se_session_id s' = se_session_id s)"
    unfolding same_key_def by blast
qed

subsection \<open>An environment for examples\<close>

definition shell_env0 :: "(byte list \<Rightarrow> pb_ss_msg option) \<Rightarrow> lip_env" where
  "shell_env0 parse = msg_env.extend test_env \<lparr>le_cfg = (\<lambda>_. None), le_use_heart_beat = True, le_heart_beat_interval = 30,
     le_prize_rate = (\<lambda>_ _ _ _ _. 0), le_lottery_pays = (\<lambda>_ _ _. False), le_decrypt = (\<lambda>_. None), le_parse_cs = (\<lambda>_. None),
     le_parse_ss = parse, le_parse_in = (\<lambda>_. None), le_no_head = me_as_connect test_env MH_unset, le_ord = (\<lambda>xs. xs)\<rparr>"

lemma session_mgr0_fine [simp]: "sh_sessions gs = session_mgr0 n \<Longrightarrow> pool_fine gs"
  using session_mgr0_inv(1) by (simp add: pool_fine_def GetSession_def kp_Get_def session_mgr0_def)

end
