(* ===== verification/Promoter.thy ===== *)
theory Promoter
  imports GameShell "HOL-Library.AList"
begin

text \<open>
  svr/promotersvr: the server that adds up what the players of a promoter charge and are given.
  \<open>HandlerPromoterGold\<close> keeps the sums of a promoter in memory and books them on the promoter's
  account at every tenth notification after the first; over a restart the sums go through a
  shared memory segment. The \<open>unordered_map\<close> is an association list; \<open>ord\<close> is the order of a
  walk over it. \<open>stPromoter\<close> has six bytes of padding, which are what \<open>pad\<close> says; an object that
  could not be read from the segment is what the stack held.
\<close>

record st_promoter =
  sp_promoter_id :: u64
  sp_giving_num :: u64
  sp_charge_num :: u64
  sp_count :: u16

type_synonym promoter_map = "(u64 \<times> st_promoter) list"

record promo_world = world +
  pw_promoters :: promoter_map

definition put_promoter :: "u64 \<Rightarrow> st_promoter \<Rightarrow> promo_world \<Rightarrow> promo_world" where
  "put_promoter pid p w = w\<lparr>pw_promoters := AList.update pid p (pw_promoters w)\<rparr>"

definition get_promoter :: "u64 \<Rightarrow> promo_world \<Rightarrow> st_promoter option" where
  "get_promoter pid w = map_of (pw_promoters w) pid"

lemma get_put_promoter [simp]:
  "get_promoter k (put_promoter pid p w) = (if k = pid then Some p else get_promoter k w)"
  by (simp add: get_promoter_def put_promoter_def update_conv)

subsection \<open>The handler\<close>

text \<open>\<open>ss_notify_promoter_gold()\<close>: promoter, charge, giving.\<close>

definition promoter_gold :: "session \<Rightarrow> u64 \<times> u64 \<times> u64" where
  "promoter_gold s = (case ss_body (se_ss_msg s) of Some (SsNotifyPromoterGold pid charge giving) \<Rightarrow> (pid, charge, giving) | _ \<Rightarrow> (0, 0, 0))"

definition PromoterGold_OnMessage :: "promo_world hstep" where
  "PromoterGold_OnMessage s w =
     (let (pid, charge, giving) = promoter_gold s in
      case get_promoter pid w of
        None \<Rightarrow> Some (H_Done, s, put_promoter pid \<lparr>sp_promoter_id = pid, sp_giving_num = giving, sp_charge_num = charge, sp_count = 0\<rparr> w)
      | Some p \<Rightarrow>
          let p1 = p\<lparr>sp_count := sp_count p + 1, sp_giving_num := sp_giving_num p + giving, sp_charge_num := sp_charge_num p + charge\<rparr>;
              w1 = put_promoter pid p1 w
          in if sp_count p1 = 10 then Some (H_Query, AddQueryKey pid kPBaseInfo s, w1) else Some (H_Done, s, w1))"

text \<open>A sum below zero in \<open>int64\<close> is stored as zero.\<close>

definition not_below_0 :: "u64 \<Rightarrow> u64" where
  "not_below_0 x = (if sint x < 0 then 0 else x)"

definition PromoterGold_OnQuerySuccess :: "promo_world hstep" where
  "PromoterGold_OnQuerySuccess s w =
     (let (pid, _, _) = promoter_gold s in
      case get_promoter pid w of
        None \<Rightarrow> Some (H_Done, s, w)
      | Some p \<Rightarrow>
          (let i = unat (se_process_index s) in
           case GetDBData i s of
             None \<Rightarrow> None
           | Some d \<Rightarrow>
               let book = (\<lambda>info. info\<lparr>pb_total_charge := not_below_0 (pb_total_charge info + sp_charge_num p),
                                      pb_total_giving := not_below_0 (pb_total_giving info + sp_giving_num p)\<rparr>)
               in Some (H_Save, SetDBData i (mut_p_base_info book d) s,
                        put_promoter pid (p\<lparr>sp_count := 0, sp_charge_num := 0, sp_giving_num := 0\<rparr>) w)))"

definition PromoterGold_OnSaveSuccess :: "promo_world hstep" where
  "PromoterGold_OnSaveSuccess s w = Some (H_Done, s, w)"

definition HandlerPromoterGold :: "lip_env \<Rightarrow> promo_world handler" where
  "HandlerPromoterGold env = (base_handler env)\<lparr>h_OnMessage := PromoterGold_OnMessage,
     h_OnQuerySuccess := PromoterGold_OnQuerySuccess, h_OnSaveSuccess := PromoterGold_OnSaveSuccess\<rparr>"

definition promo_handlers :: "lip_env \<Rightarrow> u32 \<Rightarrow> promo_world handler option" where
  "promo_handlers env msg_id = map_of [(11002, HandlerPromoterGold env)] msg_id"

definition promo_Process :: "lip_env \<Rightarrow> promo_world proc" where
  "promo_Process env = manager_Process env (promo_handlers env)"

subsection \<open>GameServer\<close>

definition promo_OnServerMessage :: "lip_env \<Rightarrow> proxy_head \<Rightarrow> byte list \<Rightarrow> promo_world shell \<Rightarrow> promo_world shell outcome option" where
  "promo_OnServerMessage env head buf gs = shell_OnServerMessage env (promo_Process env) head buf gs"

definition promo_OnInternalMessage :: "lip_env \<Rightarrow> byte list \<Rightarrow> promo_world shell \<Rightarrow> promo_world shell outcome option" where
  "promo_OnInternalMessage env buf gs = shell_OnInternalMessage env (promo_Process env) buf gs"

definition promo_OnRoutineCheck :: "lip_env \<Rightarrow> promo_world shell \<Rightarrow> promo_world shell" where
  "promo_OnRoutineCheck env gs = shell_sessions env (shell_timers env gs)"

subsection \<open>The sums over a restart\<close>

definition promoter_image :: "(st_promoter \<Rightarrow> byte list) \<Rightarrow> st_promoter \<Rightarrow> byte list" where
  "promoter_image pad p = le_bytes 8 (unat (sp_promoter_id p)) @ le_bytes 8 (unat (sp_giving_num p))
     @ le_bytes 8 (unat (sp_charge_num p)) @ le_bytes 2 (unat (sp_count p)) @ pad p"

definition promoter_of :: "byte list \<Rightarrow> st_promoter" where
  "promoter_of bs = \<lparr>sp_promoter_id = of_nat (of_le (take 8 bs)), sp_giving_num = of_nat (of_le (take 8 (drop 8 bs))),
     sp_charge_num = of_nat (of_le (take 8 (drop 16 bs))), sp_count = of_nat (of_le (take 2 (drop 24 bs)))\<rparr>"

text \<open>\<open>svr_type * 100000 + svr_id * 100 + 99\<close>.\<close>

definition promoter_shm_key :: "lip_env \<Rightarrow> u32" where
  "promoter_shm_key env = me_svr_type env * 100000 + me_svr_id env * 100 + 99"

text \<open>The size of the map is written as a \<open>size_t\<close>, eight bytes, into a segment made for four.\<close>

definition Promoter_Release :: "(promoter_map \<Rightarrow> promoter_map) \<Rightarrow> (st_promoter \<Rightarrow> byte list) \<Rightarrow> bool \<Rightarrow> bool \<Rightarrow> lip_env
    \<Rightarrow> promoter_map \<Rightarrow> shm_world \<Rightarrow> shm_world" where
  "Promoter_Release ord pad rm_ok mk_ok env ps shm =
     (let key = promoter_shm_key env;
          (deleted, shm1) = (if ShareMem_IsExist key shm then ShareMem_Delete rm_ok key shm else (True, shm)) in
      if \<not> deleted then shm1
      else
        let byte_size = 4 + length ps * 32;
            (made, shm2) = ShareMem_Create mk_ok key byte_size shm1 in
        if \<not> made then shm2
        else
          let (_, buff, _) = ser_then (SerializeBaseType (le_bytes 8 (length ps)))
                (ser_objs (\<lambda>e. SerializeBaseType (promoter_image pad (snd e))) (ord ps)) (the (shm2 key)) byte_size 0
          in shm2(key \<mapsto> buff))"

text \<open>\<open>stack i\<close>: the memory of the uninitialised object of iteration \<open>i\<close>.\<close>

fun promoter_load :: "(nat \<Rightarrow> st_promoter) \<Rightarrow> byte list \<Rightarrow> nat \<Rightarrow> nat \<Rightarrow> promoter_map \<Rightarrow> promoter_map" where
  "promoter_load stack buff off 0 ps = ps"
| "promoter_load stack buff off (Suc n) ps =
     (let (p, off1) = (case UnSerializeBaseType 32 buff (length buff) off of
            None \<Rightarrow> (stack 0, off) | Some (bs, off1) \<Rightarrow> (promoter_of bs, off1))
      in promoter_load (\<lambda>i. stack (Suc i)) buff off1 n (AList.update (sp_promoter_id p) p ps))"

definition Promoter_Init :: "(nat \<Rightarrow> st_promoter) \<Rightarrow> bool \<Rightarrow> lip_env \<Rightarrow> promoter_map \<Rightarrow> shm_world \<Rightarrow> promoter_map \<times> shm_world" where
  "Promoter_Init stack rm_ok env ps shm =
     (let key = promoter_shm_key env in
      case shm key of
        None \<Rightarrow> (ps, shm)
      | Some buff \<Rightarrow>
          (let (n, off) = (case UnSerializeBaseType 4 buff (length buff) 0 of
                 None \<Rightarrow> (0, 0) | Some (bs, off) \<Rightarrow> (of_le bs, off))
           in (promoter_load stack buff off n ps, snd (ShareMem_Delete rm_ok key shm))))"

text \<open>\<open>InitGame\<close> and \<open>ExitGame\<close>; the map is what the last process left in the segment.\<close>

definition promo_InitGame :: "lip_env \<Rightarrow> 'b shell_boot_scheme \<Rightarrow> (nat \<Rightarrow> st_promoter) \<Rightarrow> promo_world \<Rightarrow> shm_world
    \<Rightarrow> (int \<times> promo_world shell option \<times> shm_world) option" where
  "promo_InitGame env b stack w0 shm = (case init_managers env b shm of
     None \<Rightarrow> None
   | Some (ret, None, shm1) \<Rightarrow> Some (ret, None, shm1)
   | Some (ret, Some (sm, tm), shm1) \<Rightarrow>
       (let (ps, shm2) = Promoter_Init stack (sb_rm_ok b) env [] shm1
        in if \<not> sb_config b then Some (- 11, None, shm2)
           else Some (0, Some \<lparr>sh_sessions = sm, sh_world = w0\<lparr>w_out := [], w_timers := tm, pw_promoters := ps\<rparr>,
                         sh_timer_check = 0, sh_session_check = 0\<rparr>, shm2)))"

definition promo_ExitGame :: "lip_env \<Rightarrow> 'b shell_boot_scheme \<Rightarrow> (promoter_map \<Rightarrow> promoter_map) \<Rightarrow> (st_promoter \<Rightarrow> byte list)
    \<Rightarrow> promo_world shell \<Rightarrow> shm_world \<Rightarrow> shm_world" where
  "promo_ExitGame env b ord pad gs shm =
     Promoter_Release ord pad (sb_rm_ok b) (sb_mk_ok b) env (pw_promoters (sh_world gs))
       (release_managers env b (sh_sessions gs) (w_timers (sh_world gs)) shm)"

subsection \<open>The server as a session server\<close>

lemma promoter_handler_fine: "handler_fine (HandlerPromoterGold env)"
proof -
  have "step_fine False PromoterGold_OnMessage"
    by (auto simp: step_fine_def PromoterGold_OnMessage_def Let_def split: prod.split option.split)
  moreover have "step_fine True PromoterGold_OnQuerySuccess"
    by (auto simp: step_fine_def PromoterGold_OnQuerySuccess_def Let_def GetDBData_def split: prod.split option.split)
       (auto simp: fine_def)
  moreover have "step_fine True PromoterGold_OnSaveSuccess"
    by (auto simp: step_fine_def PromoterGold_OnSaveSuccess_def)
  ultimately show ?thesis by (simp add: handler_fine_def HandlerPromoterGold_def)
qed

interpretation promo: session_server "promo_Process env"
  unfolding promo_Process_def
  by (rule manager_server) (auto simp: promo_handlers_def promoter_handler_fine split: if_splits)

text \<open>What the frame calls the server with.\<close>

datatype promo_event = PE_Server proxy_head "byte list" | PE_Internal "byte list" | PE_Routine

definition promo_step :: "lip_env \<times> promo_event \<Rightarrow> promo_world shell \<Rightarrow> promo_world shell outcome option" where
  "promo_step e gs = (case snd e of
     PE_Server head buf \<Rightarrow> promo_OnServerMessage (fst e) head buf gs
   | PE_Internal buf \<Rightarrow> promo_OnInternalMessage (fst e) buf gs
   | PE_Routine \<Rightarrow> Some (Ret (promo_OnRoutineCheck (fst e) gs)))"

lemma promo_step_ok: "pool_fine gs \<Longrightarrow> \<exists>gs'. promo_step e gs = Some (Ret gs') \<and> pool_fine gs'"
  using promo.server_message_ok [of gs "fst e"] promo.internal_message_ok [of gs "fst e"] shell_sessions_fine [of "shell_timers (fst e) gs"]
  by (cases "snd e") (simp_all add: promo_step_def promo_OnServerMessage_def promo_OnInternalMessage_def promo_OnRoutineCheck_def)

text \<open>Whatever messages reach the promoter server and whatever the database answers, at whatever
  times, no call faults or runs forever, and the pool of sessions stays sound.\<close>

theorem promo_runs:
  assumes "pool_fine gs"
  shows "\<exists>gs'. shell_run promo_step es gs = Some (Ret gs') \<and> pool_fine gs'"
  using shell_run_keeps [of pool_fine promo_step gs es, OF promo_step_ok assms] by simp

subsection \<open>The sums\<close>

definition noted :: "session \<Rightarrow> promo_world \<Rightarrow> promo_world" where
  "noted s w = snd (snd (the (PromoterGold_OnMessage s w)))"

definition notes_of :: "u64 \<Rightarrow> session list \<Rightarrow> session list" where
  "notes_of pid ss = filter (\<lambda>s. fst (promoter_gold s) = pid) ss"

definition charged :: "u64 \<Rightarrow> session list \<Rightarrow> u64" where
  "charged pid ss = sum_list (map (\<lambda>s. fst (snd (promoter_gold s))) (notes_of pid ss))"

definition given :: "u64 \<Rightarrow> session list \<Rightarrow> u64" where
  "given pid ss = sum_list (map (\<lambda>s. snd (snd (promoter_gold s))) (notes_of pid ss))"

lemma noted_other: "fst (promoter_gold s) \<noteq> pid \<Longrightarrow> get_promoter pid (noted s w) = get_promoter pid w"
  by (auto simp: noted_def PromoterGold_OnMessage_def Let_def split: prod.split option.split)

lemma noted_first:
  "fst (promoter_gold s) = pid \<Longrightarrow> get_promoter pid w = None \<Longrightarrow> get_promoter pid (noted s w)
     = Some \<lparr>sp_promoter_id = pid, sp_giving_num = snd (snd (promoter_gold s)), sp_charge_num = fst (snd (promoter_gold s)), sp_count = 0\<rparr>"
  by (auto simp: noted_def PromoterGold_OnMessage_def Let_def split: prod.split)

lemma noted_next:
  "fst (promoter_gold s) = pid \<Longrightarrow> get_promoter pid w = Some p \<Longrightarrow> get_promoter pid (noted s w)
     = Some (p\<lparr>sp_count := sp_count p + 1, sp_giving_num := sp_giving_num p + snd (snd (promoter_gold s)),
               sp_charge_num := sp_charge_num p + fst (snd (promoter_gold s))\<rparr>)"
  by (auto simp: noted_def PromoterGold_OnMessage_def Let_def split: prod.split)

lemma noted_all:
  "get_promoter pid w = Some p \<Longrightarrow> get_promoter pid (fold noted ss w)
     = Some (p\<lparr>sp_count := sp_count p + of_nat (length (notes_of pid ss)), sp_giving_num := sp_giving_num p + given pid ss,
               sp_charge_num := sp_charge_num p + charged pid ss\<rparr>)"
proof (induction ss arbitrary: w p)
  case (Cons s ss)
  show ?case
  proof (cases "fst (promoter_gold s) = pid")
    case True
    from Cons.IH [OF noted_next [OF True Cons.prems]] True show ?thesis
      by (simp add: notes_of_def given_def charged_def algebra_simps)
  next
    case False
    with Cons show ?thesis by (simp add: noted_other notes_of_def given_def charged_def)
  qed
qed (simp add: notes_of_def given_def charged_def)

lemma ninth: "n < 65536 \<Longrightarrow> (of_nat n = (9 :: u16)) = (n = 9)"
proof -
  assume n: "n < 65536"
  have "(of_nat n = (9 :: u16)) = (of_nat n = (of_nat 9 :: u16))" by simp
  also have "\<dots> = (n mod 65536 = 9 mod 65536)" unfolding word_of_nat_eq_iff take_bit_eq_mod by simp
  finally show ?thesis using n by simp
qed

text \<open>What happens to the sums: notifications, and the answers of the database on which they are booked.\<close>

datatype promoter_input = Note session | Book session

definition booked :: "session \<Rightarrow> promo_world \<Rightarrow> promo_world" where
  "booked s w = (case PromoterGold_OnQuerySuccess s w of Some (_, _, w') \<Rightarrow> w' | None \<Rightarrow> w)"

primrec promoter_act :: "promoter_input \<Rightarrow> promo_world \<Rightarrow> promo_world" where
  "promoter_act (Note s) w = noted s w"
| "promoter_act (Book s) w = booked s w"

text \<open>The act that opens an account of a promoter, with the charged and given sums it starts from: the first notification
  of him, or a booking.\<close>

fun opens :: "u64 \<Rightarrow> promoter_input \<Rightarrow> promo_world \<Rightarrow> (u64 \<times> u64) option" where
  "opens pid (Note s) w = (if fst (promoter_gold s) = pid \<and> get_promoter pid w = None then Some (snd (promoter_gold s)) else None)"
| "opens pid (Book s) w = (if fst (promoter_gold s) = pid \<and> get_promoter pid w \<noteq> None
       \<and> GetDBData (unat (se_process_index s)) s \<noteq> None then Some (0, 0) else None)"

fun books_of :: "u64 \<Rightarrow> promoter_input \<Rightarrow> bool" where
  "books_of pid (Book s) \<longleftrightarrow> fst (promoter_gold s) = pid"
| "books_of pid (Note s) \<longleftrightarrow> False"

definition note_sessions :: "promoter_input list \<Rightarrow> session list" where
  "note_sessions acts = concat (map (\<lambda>a. case a of Note s \<Rightarrow> [s] | Book _ \<Rightarrow> []) acts)"

lemma booked_other: "fst (promoter_gold s) \<noteq> pid \<Longrightarrow> get_promoter pid (booked s w) = get_promoter pid w"
  by (auto simp: booked_def PromoterGold_OnQuerySuccess_def Let_def split: prod.split option.split)

lemma book_account:
  assumes "fst (promoter_gold s) = pid" "get_promoter pid w = Some p" "GetDBData (unat (se_process_index s)) s = Some d"
  shows "\<exists>d' w'. PromoterGold_OnQuerySuccess s w = Some (H_Save, SetDBData (unat (se_process_index s)) d' s, w')
    \<and> p_base_info d' = (p_base_info d)\<lparr>pb_total_charge := not_below_0 (pb_total_charge (p_base_info d) + sp_charge_num p),
        pb_total_giving := not_below_0 (pb_total_giving (p_base_info d) + sp_giving_num p)\<rparr>
    \<and> get_promoter pid w' = Some (p\<lparr>sp_count := 0, sp_charge_num := 0, sp_giving_num := 0\<rparr>) \<and> booked s w = w'"
  using assms by (auto simp: booked_def PromoterGold_OnQuerySuccess_def Let_def split: prod.split)

text \<open>The account after its opening.\<close>

definition has_sums :: "st_promoter \<Rightarrow> u64 \<Rightarrow> u64 \<Rightarrow> nat \<Rightarrow> bool" where
  "has_sums p charge giving n \<longleftrightarrow> sp_charge_num p = charge \<and> sp_giving_num p = giving \<and> sp_count p = of_nat n"

lemma opened:
  assumes "opens pid a w = Some (charge, giving)"
  shows "\<exists>p. get_promoter pid (promoter_act a w) = Some p \<and> has_sums p charge giving 0"
proof (cases a)
  case (Note s)
  with assms show ?thesis by (auto simp: noted_first has_sums_def split: if_splits)
next
  case (Book s)
  with assms obtain p d where "fst (promoter_gold s) = pid" "get_promoter pid w = Some p" "GetDBData (unat (se_process_index s)) s = Some d"
    "charge = 0" "giving = 0" by (auto split: if_splits)
  with book_account [OF this(1-3)] Book show ?thesis by (auto simp: has_sums_def)
qed

lemma sums_since:
  "get_promoter pid w = Some p \<Longrightarrow> has_sums p charge giving n \<Longrightarrow> \<not> list_ex (books_of pid) acts
    \<Longrightarrow> \<exists>q. get_promoter pid (fold promoter_act acts w) = Some q
      \<and> has_sums q (charge + charged pid (note_sessions acts)) (giving + given pid (note_sessions acts)) (n + length (notes_of pid (note_sessions acts)))"
proof (induction acts arbitrary: w p charge giving n)
  case Nil
  then show ?case by (simp add: note_sessions_def charged_def given_def notes_of_def)
next
  case (Cons a acts)
  show ?case
  proof (cases "\<exists>s. a = Note s \<and> fst (promoter_gold s) = pid")
    case True
    then obtain s where s: "a = Note s" "fst (promoter_gold s) = pid" by blast
    note nx = noted_next [OF s(2) Cons.prems(1)]
    have "has_sums (p\<lparr>sp_count := sp_count p + 1, sp_giving_num := sp_giving_num p + snd (snd (promoter_gold s)),
               sp_charge_num := sp_charge_num p + fst (snd (promoter_gold s))\<rparr>)
        (charge + fst (snd (promoter_gold s))) (giving + snd (snd (promoter_gold s))) (Suc n)"
      using Cons.prems(2) by (simp add: has_sums_def)
    from Cons.IH [OF nx this] Cons.prems(3) s show ?thesis
      by (simp add: note_sessions_def charged_def given_def notes_of_def algebra_simps)
  next
    case False
    with Cons.prems(1,3) have "get_promoter pid (promoter_act a w) = Some p"
      by (cases a) (auto simp: noted_other booked_other)
    from Cons.IH [OF this Cons.prems(2)] Cons.prems(3) False show ?thesis
      by (cases a) (auto simp: note_sessions_def charged_def given_def notes_of_def)
  qed
qed

text \<open>Property C34. The sums of a promoter are those of his notifications since his account was last opened, by his first notification
  (which is not counted, but its sums are) or by a booking (from zero), whatever notifications and bookings of
  other promoters come between. With the next notification the database is asked for his account exactly when it is the
  tenth counted one (as long as the count is below the limit of its 16 bits), and a booking adds
  exactly these sums to the totals of the account, a total below zero being stored as zero, and resets them.\<close>

theorem promoter_accounts:
  assumes "opens pid a w = Some (charge, giving)" "\<not> list_ex (books_of pid) acts" "w' = fold promoter_act acts (promoter_act a w)"
  shows "\<exists>p. get_promoter pid w' = Some p
    \<and> has_sums p (charge + charged pid (note_sessions acts)) (giving + given pid (note_sessions acts)) (length (notes_of pid (note_sessions acts)))
    \<and> (fst (promoter_gold t) = pid \<and> length (notes_of pid (note_sessions acts)) < 65535 \<longrightarrow>
         (fst (the (PromoterGold_OnMessage t w')) = H_Query \<longleftrightarrow> length (notes_of pid (note_sessions acts)) = 9))
    \<and> (fst (promoter_gold t) = pid \<and> GetDBData (unat (se_process_index t)) t = Some d \<longrightarrow>
        (\<exists>d' w2. PromoterGold_OnQuerySuccess t w' = Some (H_Save, SetDBData (unat (se_process_index t)) d' t, w2)
          \<and> p_base_info d' = (p_base_info d)\<lparr>pb_total_charge := not_below_0 (pb_total_charge (p_base_info d) + (charge + charged pid (note_sessions acts))),
              pb_total_giving := not_below_0 (pb_total_giving (p_base_info d) + (giving + given pid (note_sessions acts)))\<rparr>
          \<and> get_promoter pid w2 = Some (p\<lparr>sp_count := 0, sp_charge_num := 0, sp_giving_num := 0\<rparr>)))"
proof -
  let ?n = "length (notes_of pid (note_sessions acts))"
  obtain p0 where "get_promoter pid (promoter_act a w) = Some p0" "has_sums p0 charge giving 0" using opened [OF assms(1)] by blast
  from sums_since [OF this assms(2)] obtain p where p: "get_promoter pid w' = Some p"
    "has_sums p (charge + charged pid (note_sessions acts)) (giving + given pid (note_sessions acts)) ?n" by (auto simp: assms(3))
  have "fst (the (PromoterGold_OnMessage t w')) = (if of_nat ?n + 1 = (10 :: u16) then H_Query else H_Done)"
    if "fst (promoter_gold t) = pid"
    using p that by (auto simp: PromoterGold_OnMessage_def has_sums_def Let_def split: prod.split)
  then have "fst (promoter_gold t) = pid \<and> ?n < 65535 \<longrightarrow> (fst (the (PromoterGold_OnMessage t w')) = H_Query \<longleftrightarrow> ?n = 9)"
    by (simp add: ninth)
  moreover have "\<exists>d' w2. PromoterGold_OnQuerySuccess t w' = Some (H_Save, SetDBData (unat (se_process_index t)) d' t, w2)
          \<and> p_base_info d' = (p_base_info d)\<lparr>pb_total_charge := not_below_0 (pb_total_charge (p_base_info d) + (charge + charged pid (note_sessions acts))),
              pb_total_giving := not_below_0 (pb_total_giving (p_base_info d) + (giving + given pid (note_sessions acts)))\<rparr>
          \<and> get_promoter pid w2 = Some (p\<lparr>sp_count := 0, sp_charge_num := 0, sp_giving_num := 0\<rparr>)"
    if b: "fst (promoter_gold t) = pid" "GetDBData (unat (se_process_index t)) t = Some d"
  proof -
    have sums: "sp_charge_num p = charge + charged pid (note_sessions acts)" "sp_giving_num p = giving + given pid (note_sessions acts)"
      using p(2) by (simp_all add: has_sums_def)
    obtain d' w2 where "PromoterGold_OnQuerySuccess t w' = Some (H_Save, SetDBData (unat (se_process_index t)) d' t, w2)"
      "p_base_info d' = (p_base_info d)\<lparr>pb_total_charge := not_below_0 (pb_total_charge (p_base_info d) + sp_charge_num p),
        pb_total_giving := not_below_0 (pb_total_giving (p_base_info d) + sp_giving_num p)\<rparr>"
      "get_promoter pid w2 = Some (p\<lparr>sp_count := 0, sp_charge_num := 0, sp_giving_num := 0\<rparr>)"
      using book_account [OF b(1) p(1) b(2)] by (elim exE conjE)
    then show ?thesis unfolding sums by (intro exI [of _ d'] exI [of _ w2] conjI)
  qed
  ultimately show ?thesis using p by (intro exI [of _ p] conjI impI) simp_all
qed

definition promo0 :: "promoter_map \<Rightarrow> promo_world" where
  "promo0 ps = world.extend world0 \<lparr>pw_promoters = ps\<rparr>"

definition gold_note :: "u64 \<Rightarrow> u64 \<Rightarrow> u64 \<Rightarrow> session" where
  "gold_note pid charge giving = session0\<lparr>se_ss_msg := ss_msg0\<lparr>ss_body := Some (SsNotifyPromoterGold pid charge giving)\<rparr>\<rparr>"

definition gold_answer :: "u64 \<Rightarrow> session" where
  "gold_answer pid = (gold_note pid 0 0)\<lparr>se_db_processs := [\<lparr>dp_uid = pid, dp_keys = [], dp_player = Some pb_db_data0\<rparr>]\<rparr>"

lemma promoter_accounts_witness:
  "\<exists>p. get_promoter 7 (fold promoter_act [Note (gold_note 8 1 1), Note (gold_note 7 30 (- 2)), Book (gold_answer 8)]
        (booked (gold_answer 7) (noted (gold_note 7 50 5) (promo0 [])))) = Some p \<and> has_sums p 30 (- 2) 1"
proof -
  have w: "get_promoter 7 (noted (gold_note 7 50 5) (promo0 [])) \<noteq> None"
    using noted_first [of "gold_note 7 50 5" 7 "promo0 []"]
    by (simp add: promo0_def world.defs world0_def get_promoter_def gold_note_def promoter_gold_def)
  have o: "opens 7 (Book (gold_answer 7)) (noted (gold_note 7 50 5) (promo0 [])) = Some (0, 0)"
    using w by (simp add: gold_answer_def gold_note_def promoter_gold_def GetDBData_def session0_def)
  have b: "\<not> list_ex (books_of 7) [Note (gold_note 8 1 1), Note (gold_note 7 30 (- 2)), Book (gold_answer 8)]"
    by (simp add: gold_answer_def gold_note_def promoter_gold_def)
  from promoter_accounts [OF o b refl, of session0 pb_db_data0] show ?thesis
    by (auto simp: note_sessions_def charged_def given_def notes_of_def gold_note_def promoter_gold_def)
qed

definition gold_request :: pb_ss_msg where
  "gold_request = ss_msg0\<lparr>ss_body := Some (SsNotifyPromoterGold 7 50 5)\<rparr>"

lemma promo_runs_witness:
  "\<exists>gs'. shell_run promo_step [(shell_env0 (\<lambda>_. Some gold_request), PE_Server (me_as_proxy test_env MH_unset) [1]),
      (shell_env0 (\<lambda>_. None), PE_Routine)]
      \<lparr>sh_sessions = session_mgr0 4, sh_world = promo0 [], sh_timer_check = 0, sh_session_check = 0\<rparr> = Some (Ret gs') \<and> pool_fine gs'"
  by (rule promo_runs) simp

subsection \<open>What is lost\<close>

text \<open>The sums are taken out of the memory before they are saved: when another server saved the
  promoter's account first, the redo books nothing, and what the promoter's players had charged
  and been given since the last booking is gone.\<close>

theorem promoter_redo_loses:
  assumes "get_promoter pid w = Some p" "fst (promoter_gold s) = pid"
    and "PromoterGold_OnQuerySuccess s w = Some (H_Save, s1, w1)"
    and "promoter_gold s2 = promoter_gold s" "se_redo_count s2 = 0" "rsp_save s2 = (EN_KVDB_Ver_Diff, uid, datas)"
    and "ParseDBData env datas (pb_db_data0\<lparr>d_uid := Some uid\<rparr>) = Some d"
    and "GetDBProcessIndex uid s2 = Some (unat (se_process_index s2))"
    and "unat (se_process_index s2) < length (se_db_processs s2)"
  shows "\<exists>s3 w3 d3. SaveResponse env (HandlerPromoterGold env') s2 w1 = Some (H_Save, s3, w3)
    \<and> GetDBData (unat (se_process_index s2)) s3 = Some d3
    \<and> pb_total_charge (p_base_info d3) = not_below_0 (pb_total_charge (p_base_info d))
    \<and> pb_total_giving (p_base_info d3) = not_below_0 (pb_total_giving (p_base_info d))
    \<and> get_promoter pid w3 = Some (p\<lparr>sp_count := 0, sp_charge_num := 0, sp_giving_num := 0\<rparr>)"
proof -
  let ?z = "p\<lparr>sp_count := 0, sp_charge_num := 0, sp_giving_num := 0\<rparr>"
  have w1: "get_promoter pid w1 = Some ?z"
    using assms(1-3) by (auto simp: PromoterGold_OnQuerySuccess_def Let_def split: prod.splits option.splits)
  let ?s = "ClearEvents (SetDBData (unat (se_process_index s2)) d (s2\<lparr>se_redo_count := se_redo_count s2 + 1\<rparr>))"
  have gold: "promoter_gold ?s = promoter_gold s"
    using assms(4) by (simp add: promoter_gold_def ClearEvents_def SetDBData_def)
  have i: "GetDBProcessIndex uid (s2\<lparr>se_redo_count := se_redo_count s2 + 1\<rparr>) = Some (unat (se_process_index s2))"
    using assms(8) by (simp add: GetDBProcessIndex_def)
  have "SaveResponse env (HandlerPromoterGold env') s2 w1 = PromoterGold_OnQuerySuccess ?s w1"
    using assms(5-7) i by (simp add: SaveResponse_def Let_def HandlerPromoterGold_def word_le_nat_alt)
  moreover have "GetDBData (unat (se_process_index ?s)) ?s = Some d"
    using assms(9) by (simp add: GetDBData_def SetDBData_def ClearEvents_def)
  moreover have "se_process_index ?s = se_process_index s2" by (simp add: SetDBData_def ClearEvents_def)
  ultimately show ?thesis
    using w1 gold assms(2,9)
    by (simp add: PromoterGold_OnQuerySuccess_def Let_def split_beta GetDBData_def SetDBData_def ClearEvents_def)
qed

text \<open>A session that has taken ten notifications' sums of promoter 7, and the answer it gets.\<close>

definition booking :: session where
  "booking = SetDBData 0 pb_db_data0 (AddQueryKey 7 kPBaseInfo (gold_note 7 50 5))"

definition ver_diff7 :: session where
  "ver_diff7 = booking\<lparr>se_ss_response := ss_msg0\<lparr>ss_body := Some (SsRspSave EN_KVDB_Ver_Diff 7 [])\<rparr>\<rparr>"

lemma promoter_redo_loses_witness:
  "\<exists>s1 w1 s3 w3 d3. PromoterGold_OnQuerySuccess booking
       (promo0 [(7, \<lparr>sp_promoter_id = 7, sp_giving_num = 20, sp_charge_num = 900, sp_count = 10\<rparr>)]) = Some (H_Save, s1, w1)
    \<and> SaveResponse test_env (HandlerPromoterGold (shell_env0 (\<lambda>_. None))) ver_diff7 w1 = Some (H_Save, s3, w3)
    \<and> GetDBData 0 s3 = Some d3 \<and> pb_total_charge (p_base_info d3) = 0
    \<and> get_promoter 7 w3 = Some \<lparr>sp_promoter_id = 7, sp_giving_num = 0, sp_charge_num = 0, sp_count = 0\<rparr>"
proof -
  let ?p = "\<lparr>sp_promoter_id = 7, sp_giving_num = 20, sp_charge_num = 900, sp_count = 10\<rparr>" and ?d = "pb_db_data0\<lparr>d_uid := Some 7\<rparr>"
  let ?w = "promo0 [(7, ?p)]"
  have g: "get_promoter 7 ?w = Some ?p" by (simp add: get_promoter_def promo0_def world.defs world0_def)
  have b: "promoter_gold booking = (7, 50, 5)" "se_process_index ver_diff7 = 0" "promoter_gold ver_diff7 = promoter_gold booking"
    "se_redo_count ver_diff7 = 0" "rsp_save ver_diff7 = (EN_KVDB_Ver_Diff, 7, [])" "length (se_db_processs ver_diff7) = 1"
    "GetDBProcessIndex 7 ver_diff7 = Some 0" "GetDBData (unat (se_process_index booking)) booking = Some pb_db_data0"
    by (simp_all add: ver_diff7_def booking_def gold_note_def promoter_gold_def SetDBData_def AddQueryKey_def session0_def rsp_save_def
        GetDBProcessIndex_def GetDBData_def)
  obtain s1 w1 where q: "PromoterGold_OnQuerySuccess booking ?w = Some (H_Save, s1, w1)"
    using g b by (simp add: PromoterGold_OnQuerySuccess_def Let_def)
  have "fst (promoter_gold booking) = 7" "ParseDBData test_env [] ?d = Some ?d"
    "GetDBProcessIndex 7 ver_diff7 = Some (unat (se_process_index ver_diff7))"
    "unat (se_process_index ver_diff7) < length (se_db_processs ver_diff7)" using b by simp_all
  from promoter_redo_loses [OF g this(1) q b(3,4,5) this(2-4), of "shell_env0 (\<lambda>_. None)"] b(2) q
  show ?thesis by (auto simp: p_base_info_def pb_db_data0_def db_p_base_info0_def not_below_0_def)
qed

subsection \<open>What a restart makes of the sums\<close>

lemma length_promoter_image [simp]: "length (pad p) = 6 \<Longrightarrow> length (promoter_image pad p) = 32"
  by (simp add: promoter_image_def)

text \<open>The last element no longer fits.\<close>

lemma ser_last_missing:
  assumes f: "\<And>e. length (f e) = 32"
  shows "off + 32 * length xs + 28 = bs \<Longrightarrow> length buf = bs \<Longrightarrow>
    ser_objs (\<lambda>e. SerializeBaseType (f e)) (xs @ [x]) buf bs off
      = (False, take off buf @ concat (map f xs) @ drop (off + 32 * length xs) buf, off + 32 * length xs)"
proof (induction xs arbitrary: off buf)
  case Nil
  then show ?case by (simp add: SerializeBaseType_def f)
next
  case (Cons a xs)
  let ?b = "put_at buf off (f a)"
  have "off + 32 \<le> bs" using Cons.prems(1) by simp
  then have ser: "SerializeBaseType (f a) buf bs off = (True, ?b, off + 32)" and lb: "length ?b = bs"
    using Cons.prems(2) by (simp_all add: SerializeBaseType_def f)
  have t: "take (off + 32) ?b = take off buf @ f a" and d: "drop (off + 32 + n) ?b = drop (off + 32 + n) buf" for n
    using \<open>off + 32 \<le> bs\<close> Cons.prems(2) by (simp_all add: put_at_def f ac_simps)
  have "ser_objs (\<lambda>e. SerializeBaseType (f e)) ((a # xs) @ [x]) buf bs off
      = ser_objs (\<lambda>e. SerializeBaseType (f e)) (xs @ [x]) ?b bs (off + 32)" by (simp add: ser)
  also have "\<dots> = (False, take (off + 32) ?b @ concat (map f xs) @ drop (off + 32 + 32 * length xs) ?b, off + 32 + 32 * length xs)"
    using Cons.IH [of "off + 32" ?b] Cons.prems(1) lb by simp
  finally show ?case using t d by (simp add: add.assoc)
qed

lemma take4_concat:
  assumes "\<And>e. length (f e) = 32"
  shows "j < length xs \<Longrightarrow> take 4 (drop (32 * j + 28) (concat (map f xs) @ rest)) = drop 28 (f (xs ! j))"
proof (induction xs arbitrary: j)
  case (Cons a xs)
  show ?case
  proof (cases j)
    case 0
    with assms [of a] show ?thesis by simp
  next
    case (Suc i)
    have "drop (32 * j + 28) (concat (map f (a # xs)) @ rest) = drop (32 * i + 28) (concat (map f xs) @ rest)"
      using Suc assms [of a] by (simp add: ac_simps)
    with Cons.IH [of i] Cons.prems Suc show ?thesis by simp
  qed
qed simp

text \<open>An object whose first four bytes are zero has a promoter id that ends in 32 zero bits.\<close>

lemma zeros_id:
  assumes "take 4 bs = replicate 4 0"
  shows "unat (sp_promoter_id (promoter_of bs)) mod 2 ^ 32 = 0"
proof -
  have "take 8 bs = replicate 4 0 @ drop 4 (take 8 bs)" using assms append_take_drop_id [of 4 "take 8 bs"] by simp
  then have "of_le (take 8 bs) = 256 ^ 4 * of_le (drop 4 (take 8 bs))" by (metis of_le_zeros)
  then have e: "of_le (take 8 bs) mod 2 ^ 32 = 0" by simp
  have "of_le (take 8 bs) < 2 ^ 64" using of_le_bound [of "take 8 bs"] power_increasing [of "length (take 8 bs)" 8 "256::nat"] by simp
  then have "unat (sp_promoter_id (promoter_of bs)) = of_le (take 8 bs)" by (simp add: promoter_of_def unat_of_nat)
  with e show ?thesis by simp
qed

lemma promoter_load_ids:
  assumes "\<And>j. j < n \<Longrightarrow> off + 32 * j + 32 \<le> length buf \<and> take 4 (drop (off + 32 * j) buf) = replicate 4 0"
    and "\<And>k. map_of ps k \<noteq> None \<Longrightarrow> unat k mod 2 ^ 32 = 0"
  shows "map_of (promoter_load stack buff off n ps) k \<noteq> None \<Longrightarrow> buff = buf \<Longrightarrow> unat k mod 2 ^ 32 = 0"
  using assms
proof (induction n arbitrary: off ps stack)
  case (Suc n)
  let ?p = "promoter_of (take 32 (drop off buf))"
  have z: "take 4 (drop off buf) = replicate 4 0" and l: "off + 32 \<le> length buf" using Suc.prems(3) [of 0] by simp_all
  have u: "UnSerializeBaseType 32 buf (length buf) off = Some (take 32 (drop off buf), off + 32)"
    using l by (simp add: UnSerializeBaseType_def)
  have "unat (sp_promoter_id ?p) mod 2 ^ 32 = 0" using z by (intro zeros_id) simp
  then have "map_of (AList.update (sp_promoter_id ?p) ?p ps) k' \<noteq> None \<Longrightarrow> unat k' mod 2 ^ 32 = 0" for k'
    using Suc.prems(4) [of k'] by (auto simp: update_conv split: if_splits)
  moreover have "off + 32 + 32 * j + 32 \<le> length buf \<and> take 4 (drop (off + 32 + 32 * j) buf) = replicate 4 0" if "j < n" for j
    using Suc.prems(3) [of "Suc j"] that by (simp add: ac_simps)
  ultimately show ?case
    using Suc.prems(1,2) Suc.IH [of "\<lambda>i. stack (Suc i)" "off + 32" "AList.update (sp_promoter_id ?p) ?p ps"] u by simp
qed simp

text \<open>No promoter's sums come back after a restart: the size is written with eight bytes and read
  with four, so every object is read four bytes early, under an id whose low half is the
  padding of the object before it; with clear padding no id below 2^32 is found again.\<close>

theorem promoter_restart_loses:
  assumes "ps \<noteq> []" "length (ord ps) = length ps" "length ps < 2 ^ 32" "\<And>p. pad p = replicate 6 0"
    and "shm (promoter_shm_key env) = None" "0 < pid" "pid < 2 ^ 32"
  shows "map_of (fst (Promoter_Init stack rm_ok env [] (Promoter_Release ord pad rm_ok2 True env ps shm))) pid = None"
proof -
  define n where "n = length ps"
  define f where "f = (\<lambda>e :: u64 \<times> st_promoter. promoter_image pad (snd e))"
  have f: "length (f e) = 32" for e using assms(4) by (simp add: f_def)
  obtain xs x where ys: "ord ps = xs @ [x]" using assms(1,2) by (cases "ord ps" rule: rev_cases) auto
  have n: "n = Suc (length xs)" using ys assms(2) by (simp add: n_def)
  let ?key = "promoter_shm_key env" and ?b0 = "replicate (4 + n * 32) (0 :: byte)"
  let ?b1 = "put_at ?b0 0 (le_bytes 8 n)"
  define img where "img = le_bytes 8 n @ concat (map f xs) @ replicate 28 0"
  have b1: "?b1 = le_bytes 8 n @ replicate (n * 32 - 4) 0" using n by (simp add: put_at_def)
  have "ser_then (SerializeBaseType (le_bytes 8 n)) (ser_objs (\<lambda>e. SerializeBaseType (f e)) (ord ps)) ?b0 (4 + n * 32) 0
      = ser_objs (\<lambda>e. SerializeBaseType (f e)) (xs @ [x]) ?b1 (4 + n * 32) 8"
    using n by (simp add: ser_then_def SerializeBaseType_def ys)
  also have "\<dots> = (False, img, 8 + 32 * length xs)"
  proof -
    have "take 8 ?b1 = le_bytes 8 n" "drop (8 + 32 * length xs) ?b1 = replicate 28 0" "length ?b1 = 4 + n * 32"
      unfolding b1 using n by simp_all
    moreover have "8 + 32 * length xs + 28 = 4 + n * 32" using n by simp
    ultimately show ?thesis using ser_last_missing [of f 8 xs "4 + n * 32" ?b1 x, OF f] by (simp only: img_def)
  qed
  finally have ser: "ser_then (SerializeBaseType (le_bytes 8 n)) (ser_objs (\<lambda>e. SerializeBaseType (f e)) (ord ps)) ?b0 (4 + n * 32) 0
      = (False, img, 8 + 32 * length xs)" .
  have seg: "Promoter_Release ord pad rm_ok2 True env ps shm = shm(?key \<mapsto> img)"
    using assms(5) ser [unfolded f_def] by (simp add: Promoter_Release_def ShareMem_IsExist_def ShareMem_Create_def Let_def n_def [symmetric])
  have li: "length img = 4 + 32 * n" using f n by (simp add: img_def length_concat comp_def sum_list_triv)
  have n4: "of_le (take 4 img) = n"
  proof -
    have "take 4 img = le_bytes 4 n" using le_bytes_split [of 4 4 n] by (simp add: img_def)
    then show ?thesis using of_le_le_bytes [of n 4] assms(3) by (simp add: n_def)
  qed
  have z: "take 4 (drop (4 + 32 * j) img) = replicate 4 0" if "j < n" for j
  proof (cases j)
    case 0
    have "take 4 (drop 4 img) = le_bytes 4 (n div 256 ^ 4)" using le_bytes_split [of 4 4 n] by (simp add: img_def)
    also have "n div 256 ^ 4 = 0" using assms(3) by (simp add: n_def)
    finally show ?thesis using 0 by simp
  next
    case (Suc i)
    then have "drop (4 + 32 * j) img = drop (32 * i + 28) (concat (map f xs) @ replicate 28 0)"
      by (simp add: img_def add.commute)
    with take4_concat [of f i xs "replicate 28 0", OF f] that Suc n
    have "take 4 (drop (4 + 32 * j) img) = drop 28 (f (xs ! i))" by simp
    also have "\<dots> = drop 2 (pad (snd (xs ! i)))" by (simp add: f_def promoter_image_def)
    finally show ?thesis using assms(4) by simp
  qed
  have "map_of (promoter_load stack img 4 n []) pid = None"
  proof (rule ccontr)
    assume "map_of (promoter_load stack img 4 n []) pid \<noteq> None"
    then have "unat pid mod 2 ^ 32 = 0"
      by (rule promoter_load_ids [of n 4 img "[]", rotated 2]) (use z li in auto)
    moreover have "unat pid < 2 ^ 32" "0 < unat pid" using assms(6,7) by (simp_all add: word_less_nat_alt)
    ultimately show False by simp
  qed
  moreover have "UnSerializeBaseType 4 img (length img) 0 = Some (take 4 img, 4)" using li by (simp add: UnSerializeBaseType_def)
  ultimately show ?thesis unfolding seg by (simp add: Promoter_Init_def Let_def n4)
qed

lemma promoter_restart_loses_witness:
  "map_of (fst (Promoter_Init (\<lambda>_. \<lparr>sp_promoter_id = 0, sp_giving_num = 0, sp_charge_num = 0, sp_count = 0\<rparr>) True (shell_env0 (\<lambda>_. None)) []
     (Promoter_Release rev (\<lambda>_. replicate 6 0) True True (shell_env0 (\<lambda>_. None))
        [(7, \<lparr>sp_promoter_id = 7, sp_giving_num = 20, sp_charge_num = 900, sp_count = 3\<rparr>)] (\<lambda>_. None)))) 7 = None"
  by (rule promoter_restart_loses) simp_all

end
