(* ===== verification/Base64.thy ===== *)
theory Base64
  imports Prelude
begin

text \<open>
  include/hpp/base64.hpp: the text form of the login tokens and of the websocket handshake.
  Strings are the bytes of \<open>std::string\<close>; \<open>char_array_3\<close> and \<open>char_array_4\<close> are the bytes gathered so
  far, the counter \<open>i\<close> is their number.
\<close>

text \<open>\<open>A\<close> to \<open>Z\<close>, \<open>a\<close> to \<open>z\<close>, \<open>0\<close> to \<open>9\<close>, \<open>+\<close>, \<open>/\<close>.\<close>

definition base64_chars :: "byte list" where
  "base64_chars = map of_nat ([65..<91] @ [97..<123] @ [48..<58] @ [43, 47])"

definition is_alnum :: "byte \<Rightarrow> bool" where
  "is_alnum c \<longleftrightarrow> 48 \<le> c \<and> c \<le> 57 \<or> 65 \<le> c \<and> c \<le> 90 \<or> 97 \<le> c \<and> c \<le> 122"

definition is_base64 :: "byte \<Rightarrow> bool" where
  "is_base64 c \<longleftrightarrow> is_alnum c \<or> c = 43 \<or> c = 47"

subsection \<open>Encoding\<close>

definition enc4 :: "byte list \<Rightarrow> byte list" where
  "enc4 a = [drop_bit 2 (a ! 0 AND 0xfc),
     push_bit 4 (a ! 0 AND 0x03) + drop_bit 4 (a ! 1 AND 0xf0),
     push_bit 2 (a ! 1 AND 0x0f) + drop_bit 6 (a ! 2 AND 0xc0),
     a ! 2 AND 0x3f]"

definition char_at :: "byte \<Rightarrow> byte" where
  "char_at x = base64_chars ! unat x"

fun encode_loop :: "byte list \<Rightarrow> byte list \<Rightarrow> byte list" where
  "encode_loop a3 [] = (if a3 = [] then []
     else map char_at (take (length a3 + 1) (enc4 (a3 @ replicate (3 - length a3) 0)))
          @ replicate (3 - length a3) 61)"
| "encode_loop a3 (b # bs) = (if length a3 + 1 = 3 then map char_at (enc4 (a3 @ [b])) @ encode_loop [] bs
     else encode_loop (a3 @ [b]) bs)"

definition base64_encode :: "byte list \<Rightarrow> byte list" where
  "base64_encode bs = encode_loop [] bs"

subsection \<open>Decoding\<close>

text \<open>\<open>find\<close> answers \<open>npos\<close> for a byte that is not in the table, 255 as \<open>unsigned char\<close>.\<close>

definition char_index :: "byte \<Rightarrow> byte" where
  "char_index c = (case index_of (\<lambda>x. x = c) base64_chars of None \<Rightarrow> 255 | Some i \<Rightarrow> of_nat i)"

definition dec3 :: "byte list \<Rightarrow> byte list" where
  "dec3 a = [push_bit 2 (a ! 0) + drop_bit 4 (a ! 1 AND 0x30),
     push_bit 4 (a ! 1 AND 0xf) + drop_bit 2 (a ! 2 AND 0x3c),
     push_bit 6 (a ! 2 AND 0x3) + a ! 3]"

text \<open>The loop ends at the end of the text, at a \<open>=\<close> and at any byte outside the alphabet.\<close>

fun decode_loop :: "byte list \<Rightarrow> byte list \<Rightarrow> byte list" where
  "decode_loop a4 [] = (if a4 = [] then []
     else take (length a4 - 1) (dec3 (map char_index (a4 @ replicate (4 - length a4) 0))))"
| "decode_loop a4 (c # cs) = (if c \<noteq> 61 \<and> is_base64 c then
       (if length a4 + 1 = 4 then dec3 (map char_index (a4 @ [c])) @ decode_loop [] cs
        else decode_loop (a4 @ [c]) cs)
     else decode_loop a4 [])"

definition base64_decode :: "byte list \<Rightarrow> byte list" where
  "base64_decode cs = decode_loop [] cs"

subsection \<open>What is encoded is decoded\<close>

definition char_codes :: "nat list" where
  "char_codes = [65..<91] @ [97..<123] @ [48..<58] @ [43, 47]"

lemma char_codes: "distinct char_codes" "length char_codes = 64" "set char_codes \<subseteq> {43, 47} \<union> {48..57} \<union> {65..90} \<union> {97..122}"
  by (auto simp: char_codes_def)

lemma base64_chars_codes: "base64_chars = map of_nat char_codes"
  by (simp add: base64_chars_def char_codes_def)

lemma index_of_nth: "distinct xs \<Longrightarrow> i < length xs \<Longrightarrow> index_of (\<lambda>x. x = xs ! i) xs = Some i"
proof (induction xs arbitrary: i)
  case (Cons a xs)
  show ?case
  proof (cases i)
    case (Suc k)
    with Cons.prems have "xs ! k \<noteq> a" by (auto simp: nth_mem)
    with Suc Cons show ?thesis by simp
  qed simp
qed simp

lemma unat_code: "n \<in> set char_codes \<Longrightarrow> unat (of_nat n :: byte) = n"
  using char_codes(3) by (auto simp: unat_of_nat)

lemma distinct_chars: "distinct base64_chars" "length base64_chars = 64"
proof -
  have "inj_on (of_nat :: nat \<Rightarrow> byte) (set char_codes)" by (rule inj_onI) (metis unat_code)
  then show "distinct base64_chars" "length base64_chars = 64"
    using char_codes by (simp_all add: base64_chars_codes distinct_map)
qed

lemma char_at_ok:
  assumes "unat x < 64"
  shows "char_index (char_at x) = x" "is_base64 (char_at x)" "char_at x \<noteq> 61"
proof -
  have "index_of (\<lambda>y. y = char_at x) base64_chars = Some (unat x)"
    using index_of_nth [OF distinct_chars(1)] assms distinct_chars(2) by (simp add: char_at_def)
  then show "char_index (char_at x) = x" by (simp add: char_index_def)
  define n where "n = char_codes ! unat x"
  have n: "n \<in> set char_codes" "char_at x = of_nat n"
    using assms char_codes(2) by (simp_all add: n_def char_at_def base64_chars_codes)
  then have "n \<in> {43, 47} \<union> {48..57} \<union> {65..90} \<union> {97..122}" "unat (char_at x) = n"
    using char_codes(3) unat_code [of n] by auto
  then show "is_base64 (char_at x)" "char_at x \<noteq> 61"
    by (auto simp: is_base64_def is_alnum_def word_le_nat_alt word_unat_eq_iff)
qed

lemma byte_eqI: "(\<And>n. n \<in> {0, 1, 2, 3, 4, 5, 6, 7} \<Longrightarrow> bit x n = bit y n) \<Longrightarrow> x = (y :: byte)"
proof (rule bit_word_eqI)
  fix n assume a: "\<And>n. n \<in> {0, 1, 2, 3, 4, 5, 6, 7} \<Longrightarrow> bit x n = bit y n" and "n < LENGTH(8)"
  then have "n < 8" by simp
  then have "n \<in> {0, 1, 2, 3, 4, 5, 6, 7}" by auto
  with a show "bit x n = bit y n" by blast
qed

lemma byte_plus_or: "(\<And>n. n \<in> {0, 1, 2, 3, 4, 5, 6, 7} \<Longrightarrow> \<not> (bit x n \<and> bit y n)) \<Longrightarrow> x + y = (x OR y :: byte)"
  by (rule disjunctive_add_eq_or, rule byte_eqI) (simp add: bit_simps)

text \<open>The four characters of a group carry six bits each, and the three bytes come back.\<close>

lemma suc_bits: "bit a (Suc (Suc 0)) = bit a 2" "bit a (Suc (Suc (Suc 0))) = bit a 3" for a :: byte
  by (simp_all add: numeral_2_eq_2 numeral_3_eq_3)

lemma join_bits:
  fixes a b c :: byte
  shows "push_bit 4 (a AND 0x03) + drop_bit 4 (b AND 0xf0) = push_bit 4 (a AND 0x03) OR drop_bit 4 (b AND 0xf0)"
    "push_bit 2 (b AND 0x0f) + drop_bit 6 (c AND 0xc0) = push_bit 2 (b AND 0x0f) OR drop_bit 6 (c AND 0xc0)"
  by (rule byte_plus_or, auto simp: bit_simps suc_bits)+

lemma group_bits:
  fixes a b c :: byte
  defines "x \<equiv> push_bit 4 (a AND 0x03) + drop_bit 4 (b AND 0xf0)" and "y \<equiv> push_bit 2 (b AND 0x0f) + drop_bit 6 (c AND 0xc0)"
  shows "push_bit 2 (drop_bit 2 (a AND 0xfc)) + drop_bit 4 (x AND 0x30) = a"
    "push_bit 4 (x AND 0xf) + drop_bit 2 (y AND 0x3c) = b" "push_bit 6 (y AND 0x3) + (c AND 0x3f) = c"
proof -
  note xy = x_def [unfolded join_bits] y_def [unfolded join_bits]
  have "push_bit 2 (drop_bit 2 (a AND 0xfc)) + drop_bit 4 (x AND 0x30) = push_bit 2 (drop_bit 2 (a AND 0xfc)) OR drop_bit 4 (x AND 0x30)"
    by (rule byte_plus_or) (auto simp: bit_simps)
  also have "\<dots> = a" unfolding xy by (rule byte_eqI) (auto simp: bit_simps suc_bits)
  finally show "push_bit 2 (drop_bit 2 (a AND 0xfc)) + drop_bit 4 (x AND 0x30) = a" .
  have "push_bit 4 (x AND 0xf) + drop_bit 2 (y AND 0x3c) = push_bit 4 (x AND 0xf) OR drop_bit 2 (y AND 0x3c)"
    by (rule byte_plus_or) (auto simp: bit_simps)
  also have "\<dots> = b" unfolding xy by (rule byte_eqI) (auto simp: bit_simps suc_bits)
  finally show "push_bit 4 (x AND 0xf) + drop_bit 2 (y AND 0x3c) = b" .
  have "push_bit 6 (y AND 0x3) + (c AND 0x3f) = push_bit 6 (y AND 0x3) OR (c AND 0x3f)"
    by (rule byte_plus_or) (auto simp: bit_simps)
  also have "\<dots> = c" unfolding xy by (rule byte_eqI) (auto simp: bit_simps suc_bits)
  finally show "push_bit 6 (y AND 0x3) + (c AND 0x3f) = c" .
qed

lemma six_bits:
  fixes a b :: byte
  shows "unat (drop_bit 2 (a AND 0xfc)) < 64" "unat (a AND 0x3f) < 64"
    "unat (push_bit 4 (a AND 0x03) + drop_bit 4 (b AND 0xf0)) < 64" "unat (push_bit 2 (b AND 0x0f) + drop_bit 6 (a AND 0xc0)) < 64"
proof -
  have six: "unat x < 64" if "\<not> bit x 6" "\<not> bit x 7" for x :: byte
  proof -
    have "x = take_bit 6 x" by (rule byte_eqI) (use that in \<open>auto simp: bit_simps\<close>)
    then have "unat x = take_bit 6 (unat x)" by (metis unsigned_take_bit_eq)
    then show ?thesis using take_bit_nat_less_exp [of 6 "unat x"] by simp
  qed
  show "unat (drop_bit 2 (a AND 0xfc)) < 64" "unat (a AND 0x3f) < 64"
    "unat (push_bit 4 (a AND 0x03) + drop_bit 4 (b AND 0xf0)) < 64" "unat (push_bit 2 (b AND 0x0f) + drop_bit 6 (a AND 0xc0)) < 64"
    unfolding join_bits by (auto intro!: six simp: bit_simps suc_bits)
qed

lemma dec_enc4: "length a = 3 \<Longrightarrow> dec3 (enc4 a) = a"
  using group_bits(1) [of "a ! 0" "a ! 1"] group_bits(2) [of "a ! 0" "a ! 1" "a ! 2"] group_bits(3) [of "a ! 1" "a ! 2"]
  by (cases a; cases "tl a"; cases "tl (tl a)") (auto simp: dec3_def enc4_def)

lemma enc4_six: "length a = 3 \<Longrightarrow> x \<in> set (enc4 a) \<Longrightarrow> unat x < 64"
  using six_bits by (auto simp: enc4_def)

lemma decode_group:
  assumes "length v = 4" "\<And>x. x \<in> set v \<Longrightarrow> unat x < 64"
  shows "decode_loop [] (map char_at v @ cs) = dec3 v @ decode_loop [] cs"
proof -
  obtain v0 v1 v2 v3 where v: "v = [v0, v1, v2, v3]"
    using assms(1) by (auto simp: length_Suc_conv eval_nat_numeral)
  then show ?thesis using assms(2) char_at_ok by simp
qed

lemma decode_tail:
  assumes "length v = 3" "\<And>x. x \<in> set v \<Longrightarrow> unat x < 64"
  shows "decode_loop [] (map char_at v @ [61]) = take 2 (dec3 (v @ [x]))"
    "decode_loop [] (map char_at (take 2 v) @ [61, 61]) = take 1 (dec3 (v @ [x]))"
proof -
  obtain v0 v1 v2 where v: "v = [v0, v1, v2]"
    using assms(1) by (auto simp: length_Suc_conv eval_nat_numeral)
  then show "decode_loop [] (map char_at v @ [61]) = take 2 (dec3 (v @ [x]))"
    "decode_loop [] (map char_at (take 2 v) @ [61, 61]) = take 1 (dec3 (v @ [x]))"
    using assms(2) char_at_ok by (simp_all add: dec3_def)
qed

lemma decode_encode: "decode_loop [] (encode_loop [] bs) = bs"
proof (induction "length bs" arbitrary: bs rule: less_induct)
  case less
  consider "bs = []" | a where "bs = [a]" | a b where "bs = [a, b]" | a b c cs where "bs = a # b # c # cs"
    by (cases bs; cases "tl bs"; cases "tl (tl bs)") auto
  then show ?case
  proof cases
    case (2 a)
    have e: "encode_loop [] [a] = map char_at (take 2 (enc4 [a, 0, 0])) @ [61, 61]" by (simp add: enc4_def eval_nat_numeral)
    have "decode_loop [] (map char_at (take 2 (take 3 (enc4 [a, 0, 0]))) @ [61, 61]) = take 1 (dec3 (take 3 (enc4 [a, 0, 0]) @ [enc4 [a, 0, 0] ! 3]))"
      by (rule decode_tail(2)) (use enc4_six [of "[a, 0, 0]"] in \<open>auto simp: enc4_def\<close>)
    moreover have "take 3 (enc4 [a, 0, 0]) @ [enc4 [a, 0, 0] ! 3] = enc4 [a, 0, 0]" by (simp add: enc4_def)
    ultimately show ?thesis unfolding 2 e using dec_enc4 [of "[a, 0, 0]"] by simp
  next
    case (3 a b)
    have e: "encode_loop [] [a, b] = map char_at (take 3 (enc4 [a, b, 0])) @ [61]" by (simp add: enc4_def eval_nat_numeral)
    have "decode_loop [] (map char_at (take 3 (enc4 [a, b, 0])) @ [61]) = take 2 (dec3 (take 3 (enc4 [a, b, 0]) @ [enc4 [a, b, 0] ! 3]))"
      by (rule decode_tail(1)) (use enc4_six [of "[a, b, 0]"] in \<open>auto simp: enc4_def\<close>)
    moreover have "take 3 (enc4 [a, b, 0]) @ [enc4 [a, b, 0] ! 3] = enc4 [a, b, 0]" by (simp add: enc4_def)
    ultimately show ?thesis unfolding 3 e using dec_enc4 [of "[a, b, 0]"] by simp
  next
    case (4 a b c cs)
    have "encode_loop [] bs = map char_at (enc4 [a, b, c]) @ encode_loop [] cs" using 4 by simp
    moreover have "decode_loop [] (map char_at (enc4 [a, b, c]) @ encode_loop [] cs) = dec3 (enc4 [a, b, c]) @ decode_loop [] (encode_loop [] cs)"
      by (rule decode_group) (simp add: enc4_def, rule enc4_six, simp_all)
    ultimately show ?thesis using 4 less [of cs] dec_enc4 [of "[a, b, c]"] by simp
  qed simp
qed

text \<open>Property C37. What \<open>base64_encode\<close> makes of any bytes, \<open>base64_decode\<close> makes into them again, padding and
  all.\<close>

theorem base64_roundtrip: "base64_decode (base64_encode bs) = bs"
  by (simp add: base64_decode_def base64_encode_def decode_encode)

end
