(* ===== verification/Sha1.thy ===== *)
theory Sha1
  imports Prelude
begin

text \<open>
  svr/connectwssvr/sha1.cpp: the hash of the websocket handshake. The class takes its input byte
  by byte into a block of 64 and folds every full block into \<open>H\<close>; \<open>Result\<close> pads what is left.
  Below is the standard's own definition (FIPS 180-1): the padded message is cut into blocks,
  and the digest is the fold of the compression over them.
\<close>

type_synonym regs = "u32 \<times> u32 \<times> u32 \<times> u32 \<times> u32"

record sha1 =
  s1_H :: regs
  s1_Length_Low :: u32
  s1_Length_High :: u32
  s1_Message_Block :: "byte list"
  s1_Message_Block_Index :: nat
  s1_Computed :: bool
  s1_Corrupted :: bool

definition sha1_Reset :: "sha1 \<Rightarrow> sha1" where
  "sha1_Reset s = s\<lparr>s1_Length_Low := 0, s1_Length_High := 0, s1_Message_Block_Index := 0,
     s1_H := (0x67452301, 0xEFCDAB89, 0x98BADCFE, 0x10325476, 0xC3D2E1F0), s1_Computed := False, s1_Corrupted := False\<rparr>"

definition CircularShift :: "nat \<Rightarrow> u32 \<Rightarrow> u32" where
  "CircularShift bits w = (push_bit bits w AND 0xFFFFFFFF) OR drop_bit (32 - bits) (w AND 0xFFFFFFFF)"

subsection \<open>ProcessMessageBlock\<close>

definition block_words :: "byte list \<Rightarrow> u32 list" where
  "block_words m = map (\<lambda>t. push_bit 24 (ucast (m ! (t * 4))) OR push_bit 16 (ucast (m ! (t * 4 + 1)))
     OR push_bit 8 (ucast (m ! (t * 4 + 2))) OR ucast (m ! (t * 4 + 3))) [0..<16]"

definition extend_words :: "u32 list \<Rightarrow> u32 list" where
  "extend_words W = fold (\<lambda>t W. W @ [CircularShift 1 (W ! (t - 3) XOR W ! (t - 8) XOR W ! (t - 14) XOR W ! (t - 16))]) [16..<80] W"

definition sha1_step :: "(u32 \<Rightarrow> u32 \<Rightarrow> u32 \<Rightarrow> u32) \<Rightarrow> u32 \<Rightarrow> u32 list \<Rightarrow> nat \<Rightarrow> regs \<Rightarrow> regs" where
  "sha1_step f k W t = (\<lambda>(A, B, C, D, E).
     let temp = (CircularShift 5 A + f B C D + E + W ! t + k) AND 0xFFFFFFFF
     in (temp, A, CircularShift 30 B, C, D))"

definition ProcessMessageBlock :: "sha1 \<Rightarrow> sha1" where
  "ProcessMessageBlock s =
     (let W = extend_words (block_words (s1_Message_Block s));
          r1 = fold (sha1_step (\<lambda>B C D. (B AND C) OR (NOT B AND D)) 0x5A827999 W) [0..<20] (s1_H s);
          r2 = fold (sha1_step (\<lambda>B C D. B XOR C XOR D) 0x6ED9EBA1 W) [20..<40] r1;
          r3 = fold (sha1_step (\<lambda>B C D. (B AND C) OR (B AND D) OR (C AND D)) 0x8F1BBCDC W) [40..<60] r2;
          (A, B, C, D, E) = fold (sha1_step (\<lambda>B C D. B XOR C XOR D) 0xCA62C1D6 W) [60..<80] r3;
          (H0, H1, H2, H3, H4) = s1_H s
      in s\<lparr>s1_H := ((H0 + A) AND 0xFFFFFFFF, (H1 + B) AND 0xFFFFFFFF, (H2 + C) AND 0xFFFFFFFF, (H3 + D) AND 0xFFFFFFFF,
                    (H4 + E) AND 0xFFFFFFFF), s1_Message_Block_Index := 0\<rparr>)"

subsection \<open>Input\<close>

definition put_block :: "byte \<Rightarrow> sha1 \<Rightarrow> sha1" where
  "put_block b s = s\<lparr>s1_Message_Block := (s1_Message_Block s)[s1_Message_Block_Index s := b],
     s1_Message_Block_Index := s1_Message_Block_Index s + 1\<rparr>"

definition count_bits :: "sha1 \<Rightarrow> sha1" where
  "count_bits s =
     (let s1 = s\<lparr>s1_Length_Low := (s1_Length_Low s + 8) AND 0xFFFFFFFF\<rparr>
      in if s1_Length_Low s1 = 0 then
           (let s2 = s1\<lparr>s1_Length_High := (s1_Length_High s1 + 1) AND 0xFFFFFFFF\<rparr>
            in if s1_Length_High s2 = 0 then s2\<lparr>s1_Corrupted := True\<rparr> else s2)
         else s1)"

fun input_loop :: "byte list \<Rightarrow> sha1 \<Rightarrow> sha1" where
  "input_loop [] s = s"
| "input_loop (b # bs) s = (if s1_Corrupted s then s
     else let s1 = count_bits (put_block b s)
          in input_loop bs (if s1_Message_Block_Index s1 = 64 then ProcessMessageBlock s1 else s1))"

definition sha1_Input :: "byte list \<Rightarrow> sha1 \<Rightarrow> sha1" where
  "sha1_Input bytes s = (if bytes = [] then s
     else if s1_Computed s \<or> s1_Corrupted s then s\<lparr>s1_Corrupted := True\<rparr> else input_loop bytes s)"

text \<open>\<open>operator<<\<close>: the characters up to the end of the C string, one at a time.\<close>

definition sha1_text :: "byte list \<Rightarrow> sha1 \<Rightarrow> sha1" where
  "sha1_text cs s = fold (\<lambda>b. sha1_Input [b]) (takeWhile (\<lambda>b. b \<noteq> 0) cs) s"

subsection \<open>PadMessage, Result\<close>

text \<open>\<open>while (Message_Block_Index < n) Message_Block[Message_Block_Index++] = 0\<close>.\<close>

definition zeros_to :: "nat \<Rightarrow> sha1 \<Rightarrow> sha1" where
  "zeros_to n s = fold (\<lambda>_. put_block 0) [s1_Message_Block_Index s..<n] s"

definition put_length :: "sha1 \<Rightarrow> sha1" where
  "put_length s =
     (let hi = s1_Length_High s; lo = s1_Length_Low s
      in s\<lparr>s1_Message_Block := (s1_Message_Block s)[56 := ucast (drop_bit 24 hi AND 0xFF), 57 := ucast (drop_bit 16 hi AND 0xFF),
             58 := ucast (drop_bit 8 hi AND 0xFF), 59 := ucast (hi AND 0xFF), 60 := ucast (drop_bit 24 lo AND 0xFF),
             61 := ucast (drop_bit 16 lo AND 0xFF), 62 := ucast (drop_bit 8 lo AND 0xFF), 63 := ucast (lo AND 0xFF)]\<rparr>)"

definition PadMessage :: "sha1 \<Rightarrow> sha1" where
  "PadMessage s =
     (let s1 = (if s1_Message_Block_Index s > 55
                then zeros_to 56 (ProcessMessageBlock (zeros_to 64 (put_block 0x80 s)))
                else zeros_to 56 (put_block 0x80 s))
      in ProcessMessageBlock (put_length s1))"

definition sha1_Result :: "sha1 \<Rightarrow> regs option \<times> sha1" where
  "sha1_Result s = (if s1_Corrupted s then (None, s)
     else let s1 = (if \<not> s1_Computed s then (PadMessage s)\<lparr>s1_Computed := True\<rparr> else s)
          in (Some (s1_H s1), s1))"

subsection \<open>FIPS 180-1\<close>

definition be_word :: "byte list \<Rightarrow> nat \<Rightarrow> u32" where
  "be_word m t = ((ucast (m ! (4 * t)) * 256 + ucast (m ! (4 * t + 1))) * 256 + ucast (m ! (4 * t + 2))) * 256 + ucast (m ! (4 * t + 3))"

function fips_W :: "byte list \<Rightarrow> nat \<Rightarrow> u32" where
  "fips_W m t = (if t < 16 then be_word m t
     else word_rotl 1 (fips_W m (t - 3) XOR fips_W m (t - 8) XOR fips_W m (t - 14) XOR fips_W m (t - 16)))"
  by pat_completeness auto
termination by (relation "measure snd") auto

declare fips_W.simps [simp del]

definition fips_f :: "nat \<Rightarrow> u32 \<Rightarrow> u32 \<Rightarrow> u32 \<Rightarrow> u32" where
  "fips_f t B C D = (if t < 20 then (B AND C) OR (NOT B AND D)
     else if t < 40 then B XOR C XOR D
     else if t < 60 then (B AND C) OR (B AND D) OR (C AND D)
     else B XOR C XOR D)"

definition fips_K :: "nat \<Rightarrow> u32" where
  "fips_K t = (if t < 20 then 0x5A827999 else if t < 40 then 0x6ED9EBA1 else if t < 60 then 0x8F1BBCDC else 0xCA62C1D6)"

definition fips_round :: "byte list \<Rightarrow> nat \<Rightarrow> regs \<Rightarrow> regs" where
  "fips_round m t = (\<lambda>(A, B, C, D, E). (word_rotl 5 A + fips_f t B C D + E + fips_W m t + fips_K t, A, word_rotl 30 B, C, D))"

definition fips_block :: "byte list \<Rightarrow> regs \<Rightarrow> regs" where
  "fips_block m H = (case (H, fold (fips_round m) [0..<80] H) of
     ((H0, H1, H2, H3, H4), (A, B, C, D, E)) \<Rightarrow> (H0 + A, H1 + B, H2 + C, H3 + D, H4 + E))"

definition fips_pad :: "byte list \<Rightarrow> byte list" where
  "fips_pad msg = msg @ 0x80 # replicate ((119 - length msg mod 64) mod 64) 0 @ rev (le_bytes 8 (8 * length msg))"

function blocks :: "byte list \<Rightarrow> byte list list" where
  "blocks m = (if length m < 64 then [] else take 64 m # blocks (drop 64 m))"
  by pat_completeness auto
termination by (relation "measure length") auto

declare blocks.simps [simp del]

definition fips_sha1 :: "byte list \<Rightarrow> regs" where
  "fips_sha1 msg = fold fips_block (blocks (fips_pad msg)) (0x67452301, 0xEFCDAB89, 0x98BADCFE, 0x10325476, 0xC3D2E1F0)"

subsection \<open>One block\<close>

lemma all_ones [simp]: "(x :: u32) AND 0xFFFFFFFF = x"
proof -
  have "(0xFFFFFFFF :: u32) = - 1" by simp
  then show ?thesis by (metis and.right_neutral)
qed

lemma shift_rotl: "0 < n \<Longrightarrow> n < 32 \<Longrightarrow> CircularShift n w = word_rotl n w"
proof (rule bit_word_eqI)
  fix i assume n: "0 < n" "n < 32" and "i < LENGTH(32)"
  then have i: "i < 32" by simp
  have r: "bit (word_rotl n w) i = bit w ((i + (32 - n)) mod 32)" using n i by (simp add: bit_word_rotl_iff)
  show "bit (CircularShift n w) i = bit (word_rotl n w) i"
  proof (cases "n \<le> i")
    case True
    then have "(i + (32 - n)) mod 32 = i - n" using n i by (simp add: mod_if)
    moreover have "\<not> bit w (i + (32 - n))" using True n by (auto dest: bit_imp_le_length)
    ultimately show ?thesis unfolding r using True n i by (simp add: CircularShift_def bit_simps add.commute)
  next
    case False
    then have "(i + (32 - n)) mod 32 = i + (32 - n)" using n i by simp
    then show ?thesis unfolding r using False n i by (simp add: CircularShift_def bit_simps add.commute)
  qed
qed

lemma be_bytes:
  fixes a b c d :: byte
  shows "push_bit 24 (ucast a) OR push_bit 16 (ucast b) OR push_bit 8 (ucast c) OR ucast d
    = ((ucast a * 256 + ucast b) * 256 + ucast c) * 256 + (ucast d :: u32)"
proof -
  have 1: "push_bit 8 x + ucast y = push_bit 8 x OR (ucast y :: u32)" for x and y :: byte
    by (rule disjunctive_add_eq_or) (rule bit_word_eqI, auto simp: bit_simps dest: bit_imp_le_length)
  have "((ucast a * 256 + ucast b) * 256 + ucast c) * 256 + (ucast d :: u32)
      = push_bit 8 (push_bit 8 (push_bit 8 (ucast a) + ucast b) + ucast c) + ucast d"
    by (simp add: push_bit_eq_mult mult.commute)
  also have "\<dots> = push_bit 24 (ucast a) OR push_bit 16 (ucast b) OR push_bit 8 (ucast c) OR ucast d"
    unfolding 1 by (simp add: push_bit_or or.assoc)
  finally show ?thesis by simp
qed

lemma block_word: "t < 16 \<Longrightarrow> block_words m ! t = be_word m t"
  by (simp add: block_words_def be_word_def be_bytes mult.commute)

lemma schedule: "extend_words (block_words m) = map (fips_W m) [0..<80]"
proof -
  have "fold (\<lambda>t W. W @ [CircularShift 1 (W ! (t - 3) XOR W ! (t - 8) XOR W ! (t - 14) XOR W ! (t - 16))]) [16..<16 + n] (block_words m)
      = map (fips_W m) [0..<16 + n]" for n
  proof (induction n)
    case 0
    have "block_words m = map (fips_W m) [0..<16]"
      by (rule nth_equalityI) (simp_all add: block_word fips_W.simps block_words_def [THEN arg_cong [of _ _ length]])
    then show ?case by simp
  next
    case (Suc n)
    let ?W = "map (fips_W m) [0..<16 + n]"
    have "?W ! (16 + n - k) = fips_W m (16 + n - k)" if "0 < k" "k \<le> 16" for k using that by simp
    then have "CircularShift 1 (?W ! (16 + n - 3) XOR ?W ! (16 + n - 8) XOR ?W ! (16 + n - 14) XOR ?W ! (16 + n - 16)) = fips_W m (16 + n)"
      by (subst fips_W.simps) (simp add: shift_rotl)
    moreover have "[16..<16 + Suc n] = [16..<16 + n] @ [16 + n]" "[0..<16 + Suc n] = [0..<16 + n] @ [16 + n]"
      unfolding add_Suc_right by (rule upt_Suc_append, simp)+
    ultimately show ?case unfolding \<open>[16..<16 + Suc n] = _\<close> \<open>[0..<16 + Suc n] = _\<close> fold_append comp_def by (simp only: Suc.IH fold.simps comp_def id_apply map_append list.map)
  qed
  note words = this
  have e: "(16 :: nat) + 64 = 80" by simp
  show ?thesis unfolding extend_words_def by (rule words [of 64, unfolded e])
qed

lemma step_round:
  assumes "t < 80" "f = fips_f t" "k = fips_K t"
  shows "sha1_step f k (map (fips_W m) [0..<80]) t r = fips_round m t r"
  using assms by (cases r) (simp add: sha1_step_def fips_round_def Let_def shift_rotl)

lemma fold_rounds:
  assumes "b \<le> 80" "\<And>t. a \<le> t \<Longrightarrow> t < b \<Longrightarrow> f = fips_f t \<and> k = fips_K t"
  shows "fold (sha1_step f k (map (fips_W m) [0..<80])) [a..<b] r = fold (fips_round m) [a..<b] r"
  using assms by (intro fold_cong) (auto intro!: ext step_round)

lemma ProcessMessageBlock_fips:
  "ProcessMessageBlock s = s\<lparr>s1_H := fips_block (s1_Message_Block s) (s1_H s), s1_Message_Block_Index := 0\<rparr>"
proof -
  let ?m = "s1_Message_Block s" and ?F = "fold (fips_round (s1_Message_Block s))"
  have "[0..<80] = [0..<20] @ [20..<40] @ [40..<60] @ [60..<80]" using upt_add_eq_append [of 0 20 60] upt_add_eq_append [of 20 40 40] upt_add_eq_append [of 40 60 20] by simp
  then have "?F [0..<80] (s1_H s) = ?F [60..<80] (?F [40..<60] (?F [20..<40] (?F [0..<20] (s1_H s))))" by simp
  moreover have "fold (sha1_step (\<lambda>B C D. (B AND C) OR (NOT B AND D)) 0x5A827999 (map (fips_W ?m) [0..<80])) [0..<20] = ?F [0..<20]"
    "fold (sha1_step (\<lambda>B C D. B XOR C XOR D) 0x6ED9EBA1 (map (fips_W ?m) [0..<80])) [20..<40] = ?F [20..<40]"
    "fold (sha1_step (\<lambda>B C D. (B AND C) OR (B AND D) OR (C AND D)) 0x8F1BBCDC (map (fips_W ?m) [0..<80])) [40..<60] = ?F [40..<60]"
    "fold (sha1_step (\<lambda>B C D. B XOR C XOR D) 0xCA62C1D6 (map (fips_W ?m) [0..<80])) [60..<80] = ?F [60..<80]"
    by (rule ext, rule fold_rounds, simp, simp add: fips_f_def [abs_def] fips_K_def fun_eq_iff)+
  ultimately show ?thesis
    unfolding ProcessMessageBlock_def schedule Let_def fips_block_def by (simp split: prod.split)
qed

subsection \<open>The stream\<close>

abbreviation (input) "fips_H0 \<equiv> (0x67452301, 0xEFCDAB89, 0x98BADCFE, 0x10325476, 0xC3D2E1F0) :: regs"

lemma blocks_short: "length m < 64 \<Longrightarrow> blocks m = []"
  by (simp add: blocks.simps)

lemma blocks_one: "length m = 64 \<Longrightarrow> blocks m = [m]"
  by (simp add: blocks.simps [of m] blocks_short)

lemma blocks_append: "64 dvd length xs \<Longrightarrow> blocks (xs @ ys) = blocks xs @ blocks ys"
proof (induction "length xs" arbitrary: xs rule: less_induct)
  case less
  show ?case
  proof (cases "xs = []")
    case False
    with less.prems have l: "64 \<le> length xs" by (simp add: dvd_imp_le)
    have "64 dvd length (drop 64 xs)" using less.prems l by (simp add: dvd_minus_self)
    with less.hyps [of "drop 64 xs"] l show ?thesis
      by (simp add: blocks.simps [of "xs @ ys"] blocks.simps [of xs])
  qed (simp add: blocks_short)
qed

text \<open>What the object knows of the bytes it was given.\<close>

definition sha1_at :: "byte list \<Rightarrow> sha1 \<Rightarrow> bool" where
  "sha1_at msg s \<longleftrightarrow> s1_H s = fold fips_block (blocks msg) fips_H0
     \<and> s1_Message_Block_Index s = length msg mod 64 \<and> length (s1_Message_Block s) = 64
     \<and> take (length msg mod 64) (s1_Message_Block s) = drop (length msg - length msg mod 64) msg
     \<and> unat (s1_Length_Low s) + 2 ^ 32 * unat (s1_Length_High s) = 8 * length msg
     \<and> \<not> s1_Corrupted s \<and> \<not> s1_Computed s"

lemma sha1_at_Reset: "length (s1_Message_Block s) = 64 \<Longrightarrow> sha1_at [] (sha1_Reset s)"
  by (simp add: sha1_at_def sha1_Reset_def blocks_short)

lemma count_bits_add:
  assumes "unat (s1_Length_Low s) + 2 ^ 32 * unat (s1_Length_High s) = 8 * n" "n < 2 ^ 61 - 1"
  shows "unat (s1_Length_Low (count_bits s)) + 2 ^ 32 * unat (s1_Length_High (count_bits s)) = 8 * (n + 1)"
    "s1_Corrupted (count_bits s) = s1_Corrupted s"
proof -
  let ?lo = "s1_Length_Low s" and ?hi = "s1_Length_High s"
  have b: "unat ?lo < 2 ^ 32" "unat ?hi < 2 ^ 32" using unsigned_less [of ?lo] unsigned_less [of ?hi] by simp_all
  have "8 dvd unat ?lo + 2 ^ 32 * unat ?hi" using assms(1) by simp
  then have d: "8 dvd unat ?lo" by (simp add: dvd_add_left_iff)
  have "unat ?lo \<le> 2 ^ 32 - 8" using d b(1) by (auto elim!: dvdE)
  then consider (wrap) "unat ?lo = 2 ^ 32 - 8" | (no) "unat ?lo + 8 < 2 ^ 32" by linarith
  then have "unat (s1_Length_Low (count_bits s)) + 2 ^ 32 * unat (s1_Length_High (count_bits s)) = 8 * (n + 1)
      \<and> s1_Corrupted (count_bits s) = s1_Corrupted s"
  proof cases
    case wrap
    then have lo: "?lo + 8 = 0" by (simp add: word_unat_eq_iff unat_word_ariths)
    have "unat ?hi + 1 < 2 ^ 32" using wrap assms by simp
    then have hi: "unat (?hi + 1) = unat ?hi + 1" "?hi + 1 \<noteq> 0" by (simp_all add: word_unat_eq_iff unat_word_ariths)
    show ?thesis using wrap assms(1) lo hi by (simp add: count_bits_def Let_def)
  next
    case no
    then have "unat (?lo + 8) = unat ?lo + 8" "?lo + 8 \<noteq> 0" by (simp_all add: word_unat_eq_iff unat_word_ariths)
    then show ?thesis using assms(1) by (simp add: count_bits_def Let_def)
  qed
  then show "unat (s1_Length_Low (count_bits s)) + 2 ^ 32 * unat (s1_Length_High (count_bits s)) = 8 * (n + 1)"
    "s1_Corrupted (count_bits s) = s1_Corrupted s" by simp_all
qed

lemma count_bits_frame [simp]:
  "s1_H (count_bits s) = s1_H s" "s1_Message_Block (count_bits s) = s1_Message_Block s"
  "s1_Message_Block_Index (count_bits s) = s1_Message_Block_Index s" "s1_Computed (count_bits s) = s1_Computed s"
  by (simp_all add: count_bits_def Let_def)

lemma put_block_frame [simp]:
  "s1_H (put_block b s) = s1_H s" "s1_Length_Low (put_block b s) = s1_Length_Low s" "s1_Length_High (put_block b s) = s1_Length_High s"
  "s1_Message_Block_Index (put_block b s) = s1_Message_Block_Index s + 1" "s1_Corrupted (put_block b s) = s1_Corrupted s"
  "s1_Computed (put_block b s) = s1_Computed s" "length (s1_Message_Block (put_block b s)) = length (s1_Message_Block s)"
  "s1_Message_Block (put_block b s) = (s1_Message_Block s)[s1_Message_Block_Index s := b]"
  by (simp_all add: put_block_def)

lemma take_put: "i < length xs \<Longrightarrow> take (Suc i) (xs[i := b]) = take i xs @ [b]"
  by (simp add: take_Suc_conv_app_nth)

lemma blocks_snoc:
  fixes msg :: "byte list"
  defines "q \<equiv> length msg - length msg mod 64"
  shows "blocks (msg @ [b]) = (if Suc (length msg mod 64) = 64 then blocks msg @ [drop q msg @ [b]] else blocks msg)"
proof -
  have q: "64 dvd q" "q \<le> length msg" by (simp_all add: q_def)
  then have t: "64 dvd length (take q msg)" by simp
  have l: "length (drop q msg) = length msg mod 64" by (simp add: q_def)
  have "blocks msg = blocks (take q msg) @ blocks (drop q msg)" using blocks_append [OF t, of "drop q msg"] by simp
  then have m: "blocks msg = blocks (take q msg)" using l by (simp add: blocks_short)
  have "blocks (msg @ [b]) = blocks (take q msg) @ blocks (drop q msg @ [b])"
    using blocks_append [OF t, of "drop q msg @ [b]"] by (simp flip: append_assoc)
  moreover have "blocks (drop q msg @ [b]) = (if Suc (length msg mod 64) = 64 then [drop q msg @ [b]] else [])"
  proof (cases "Suc (length msg mod 64) = 64")
    case False
    then have "Suc (length msg mod 64) < 64" using mod_less_divisor [of 64 "length msg"] by linarith
    with l False show ?thesis by (simp add: blocks_short)
  next
    case True
    have "length (drop q msg @ [b]) = 64" unfolding length_append l using True by simp
    from blocks_one [OF this] True show ?thesis by (simp only: if_P)
  qed
  ultimately show ?thesis using m by simp
qed

lemma sha1_at_snoc:
  fixes b :: byte
  assumes "sha1_at msg s" "length msg < 2 ^ 61 - 1"
  defines "s1 \<equiv> count_bits (put_block b s)"
  shows "sha1_at (msg @ [b]) (if s1_Message_Block_Index s1 = 64 then ProcessMessageBlock s1 else s1)"
proof -
  let ?r = "length msg mod 64" and ?q = "length msg - length msg mod 64"
  note at = assms(1) [unfolded sha1_at_def]
  have r: "?r < 64" by simp
  have bits: "unat (s1_Length_Low s1) + 2 ^ 32 * unat (s1_Length_High s1) = 8 * (length msg + 1)" "\<not> s1_Corrupted s1"
    using count_bits_add [of "put_block b s" "length msg"] at assms(2) by (simp_all add: s1_def)
  have blk: "take (Suc ?r) (s1_Message_Block s1) = drop ?q msg @ [b]"
    using at take_put [of ?r "s1_Message_Block s" b] r by (simp add: s1_def)
  have idx: "s1_Message_Block_Index s1 = Suc ?r" and len: "length (s1_Message_Block s1) = 64" and H: "s1_H s1 = s1_H s"
    using at by (simp_all add: s1_def)
  show ?thesis
  proof (cases "Suc ?r = 64")
    case True
    have "s1_Message_Block s1 = drop ?q msg @ [b]" using blk len True by simp
    moreover have "Suc (length msg) mod 64 = 0" using True by (simp add: mod_Suc)
    ultimately show ?thesis
      using True idx bits len H at blocks_snoc [of msg b]
      by (simp add: sha1_at_def ProcessMessageBlock_fips s1_def [symmetric]) (simp add: s1_def)
  next
    case False
    then have "Suc (length msg) mod 64 = Suc ?r" by (simp add: mod_Suc)
    moreover have "drop (Suc (length msg) - Suc ?r) (msg @ [b]) = drop ?q msg @ [b]" by simp
    ultimately show ?thesis
      using False idx bits len H at blk blocks_snoc [of msg b]
      by (simp add: sha1_at_def s1_def)
  qed
qed

lemma input_loop_at:
  "sha1_at msg s \<Longrightarrow> length msg + length bs < 2 ^ 61 \<Longrightarrow> sha1_at (msg @ bs) (input_loop bs s)"
proof (induction bs arbitrary: msg s)
  case (Cons b bs)
  let ?s1 = "count_bits (put_block b s)"
  let ?s2 = "if s1_Message_Block_Index ?s1 = 64 then ProcessMessageBlock ?s1 else ?s1"
  have "sha1_at (msg @ [b]) ?s2" using sha1_at_snoc [OF Cons.prems(1)] Cons.prems(2) by simp
  with Cons.IH [of "msg @ [b]" ?s2] Cons.prems show ?case by (simp add: sha1_at_def Let_def)
qed simp

lemma Input_at:
  assumes "sha1_at msg s" "length msg + length bs < 2 ^ 61"
  shows "sha1_at (msg @ bs) (sha1_Input bs s)"
  using assms input_loop_at [OF assms] by (auto simp: sha1_Input_def sha1_at_def)

subsection \<open>The padding\<close>

lemma zeros_to_frame:
  "i \<le> n \<Longrightarrow> n \<le> 64 \<Longrightarrow> s1_Message_Block_Index s = i \<Longrightarrow> length (s1_Message_Block s) = 64 \<Longrightarrow>
     s1_Message_Block_Index (zeros_to n s) = n \<and> s1_H (zeros_to n s) = s1_H s
     \<and> s1_Length_Low (zeros_to n s) = s1_Length_Low s \<and> s1_Length_High (zeros_to n s) = s1_Length_High s
     \<and> length (s1_Message_Block (zeros_to n s)) = 64
     \<and> take n (s1_Message_Block (zeros_to n s)) = take i (s1_Message_Block s) @ replicate (n - i) 0"
proof (induction "n - i" arbitrary: i s)
  case 0
  then show ?case by (simp add: zeros_to_def)
next
  case (Suc k)
  then have i: "i < n" by simp
  have step: "zeros_to n s = zeros_to n (put_block 0 s)"
    using i Suc.prems(3) by (simp add: zeros_to_def upt_conv_Cons)
  have "take (Suc i) (s1_Message_Block (put_block 0 s)) = take i (s1_Message_Block s) @ [0]"
    using take_put [of i "s1_Message_Block s" 0] i Suc.prems(2,3,4) by simp
  moreover have "replicate (n - i) (0 :: byte) = 0 # replicate (n - Suc i) 0" using i by (simp flip: replicate_Suc add: Suc_diff_Suc)
  ultimately show ?case
    unfolding step using Suc.hyps(1) [of "Suc i" "put_block 0 s"] Suc.hyps(2) Suc.prems i by simp
qed

lemma word_bytes: "le_bytes 4 (unat (x :: u32)) = [ucast x, ucast (drop_bit 8 x), ucast (drop_bit 16 x), ucast (drop_bit 24 x)]"
proof -
  have u: "(of_nat (unat x div m) :: byte) = ucast (drop_bit n x)" if "m = 2 ^ n" for m n
    unfolding that by (metis of_nat_unat unat_drop_bit_eq drop_bit_eq_div)
  have four: "(4 :: nat) = Suc (Suc (Suc (Suc 0)))" by simp
  have "le_bytes 4 (unat x) = [of_nat (unat x), of_nat (unat x div 256), of_nat (unat x div 65536), of_nat (unat x div 16777216)]"
    unfolding four by (simp flip: div_mult2_eq)
  moreover have "(of_nat (unat x div 256) :: byte) = ucast (drop_bit 8 x)" "(of_nat (unat x div 65536) :: byte) = ucast (drop_bit 16 x)"
    "(of_nat (unat x div 16777216) :: byte) = ucast (drop_bit 24 x)" by (rule u, simp)+
  ultimately show ?thesis by (simp only: of_nat_unat)
qed

lemma low_byte: "ucast ((x :: u32) AND 0xFF) = (ucast x :: byte)"
proof -
  have "(0xFF :: u32) = mask 8" by (simp add: mask_eq_exp_minus_1)
  then have "x AND 0xFF = take_bit 8 x" by (simp add: take_bit_eq_mask)
  then show ?thesis by (simp only:) (rule bit_word_eqI, auto simp: bit_simps)
qed

lemma le_bytes_mod: "le_bytes k n = le_bytes k (n mod 256 ^ k)"
proof (induction k arbitrary: n)
  case (Suc k)
  have "(of_nat n :: byte) = of_nat (n mod 256 ^ Suc k)"
    by (simp add: word_of_nat_eq_iff take_bit_eq_mod mod_mod_cancel)
  moreover have "n mod 256 ^ Suc k div 256 = n div 256 mod 256 ^ k" by (simp add: mod_mult2_eq)
  ultimately show ?case using Suc.IH [of "n div 256"] by simp
qed simp

lemma length_bytes:
  assumes "unat (lo :: u32) + 2 ^ 32 * unat (hi :: u32) = n"
  shows "rev (le_bytes 8 n) = [ucast (drop_bit 24 hi AND 0xFF), ucast (drop_bit 16 hi AND 0xFF), ucast (drop_bit 8 hi AND 0xFF), ucast (hi AND 0xFF),
      ucast (drop_bit 24 lo AND 0xFF), ucast (drop_bit 16 lo AND 0xFF), ucast (drop_bit 8 lo AND 0xFF), ucast (lo AND 0xFF)]"
proof -
  have b: "unat lo < 256 ^ 4" using unsigned_less [of lo] by simp
  have n: "n = unat lo + 256 ^ 4 * unat hi" using assms by simp
  have "n mod 256 ^ 4 = unat lo" "n div 256 ^ 4 = unat hi" unfolding n using b by simp_all
  then have "le_bytes 8 n = le_bytes 4 (unat lo) @ le_bytes 4 (unat hi)"
    using le_bytes_split [of 4 4 n] le_bytes_mod [of 4 n] by simp
  then show ?thesis by (simp add: word_bytes low_byte)
qed

lemma eight: "length xs = 8 \<Longrightarrow> \<exists>y0 y1 y2 y3 y4 y5 y6 y7. xs = [y0, y1, y2, y3, y4, y5, y6, y7]"
  by (auto simp: length_Suc_conv eval_nat_numeral)

lemma tail_update:
  "length xs = 56 \<Longrightarrow> (xs @ [y0, y1, y2, y3, y4, y5, y6, y7])[56 := a0, 57 := a1, 58 := a2, 59 := a3, 60 := a4, 61 := a5, 62 := a6, 63 := a7]
     = xs @ [a0, a1, a2, a3, a4, a5, a6, a7]"
  by (simp add: list_update_append)

lemma put_tail:
  assumes "length b = 64"
  shows "b[56 := a0, 57 := a1, 58 := a2, 59 := a3, 60 := a4, 61 := a5, 62 := a6, 63 := a7] = take 56 b @ [a0, a1, a2, a3, a4, a5, a6, a7]"
proof -
  have "length (drop 56 b) = 8" using assms by simp
  then obtain y0 y1 y2 y3 y4 y5 y6 y7 where y: "drop 56 b = [y0, y1, y2, y3, y4, y5, y6, y7]"
    using eight by blast
  have "b = take 56 b @ [y0, y1, y2, y3, y4, y5, y6, y7]" using append_take_drop_id [of 56 b] y by simp
  moreover have "length (take 56 b) = 56" using assms by simp
  ultimately show ?thesis by (metis (no_types, lifting) tail_update)
qed

lemma PadMessage_at:
  assumes at: "sha1_at msg s" and len: "length msg < 2 ^ 61"
  shows "s1_H (PadMessage s) = fips_sha1 msg"
proof -
  define r where "r = length msg mod 64"
  define rest where "rest = drop (length msg - r) msg"
  define L where "L = rev (le_bytes 8 (8 * length msg))"
  note A = at [unfolded sha1_at_def, folded r_def rest_def]
  have r: "r < 64" and lr: "length rest = r" by (simp_all add: r_def rest_def)
  have lL: "length L = 8" by (simp add: L_def)
  have d: "64 dvd length (take (length msg - r) msg)" by (simp add: r_def)
  have bm: "blocks msg = blocks (take (length msg - r) msg)"
    using blocks_append [OF d, of rest] blocks_short [of rest] r lr by (simp add: rest_def)
  have pad: "fips_pad msg = take (length msg - r) msg @ (rest @ 0x80 # replicate ((119 - r) mod 64) 0 @ L)"
    unfolding fips_pad_def r_def [symmetric] L_def [symmetric] by (simp add: rest_def)
  have spec: "fips_sha1 msg = fold fips_block (blocks (rest @ 0x80 # replicate ((119 - r) mod 64) 0 @ L)) (s1_H s)"
    using A unfolding fips_sha1_def pad blocks_append [OF d] bm by simp
  let ?s1 = "put_block 0x80 s"
  have i1: "s1_Message_Block_Index ?s1 = Suc r" "length (s1_Message_Block ?s1) = 64"
    and t1: "take (Suc r) (s1_Message_Block ?s1) = rest @ [0x80]"
    using A take_put [of r "s1_Message_Block s" "0x80"] r by simp_all
  have tail: "s1_H (ProcessMessageBlock (put_length t)) = fips_block (take 56 (s1_Message_Block t) @ L) (s1_H t)"
    if "length (s1_Message_Block t) = 64" "s1_Length_Low t = s1_Length_Low s" "s1_Length_High t = s1_Length_High s" for t
    using that A put_tail [OF that(1)] length_bytes [where lo = "s1_Length_Low s" and hi = "s1_Length_High s" and n = "8 * length msg"]
    by (simp add: put_length_def ProcessMessageBlock_fips Let_def L_def)
  show ?thesis
  proof (cases "r \<le> 55")
    case True
    note Z = zeros_to_frame [of "Suc r" 56 ?s1, OF _ _ i1]
    have "take 56 (s1_Message_Block (zeros_to 56 ?s1)) = rest @ 0x80 # replicate (55 - r) 0" using Z t1 True by simp
    moreover have "s1_H (PadMessage s) = fips_block (take 56 (s1_Message_Block (zeros_to 56 ?s1)) @ L) (s1_H s)"
      using tail [of "zeros_to 56 ?s1"] Z A True by (simp add: PadMessage_def Let_def)
    moreover have "(119 - r) mod 64 = 55 - r" using True by (simp add: mod_if)
    moreover have "blocks (rest @ 0x80 # replicate (55 - r) 0 @ L) = [rest @ 0x80 # replicate (55 - r) 0 @ L]"
      using True lr lL by (intro blocks_one) simp
    ultimately show ?thesis using spec by simp
  next
    case False
    note Z = zeros_to_frame [of "Suc r" 64 ?s1, OF _ _ i1]
    let ?s2 = "ProcessMessageBlock (zeros_to 64 ?s1)"
    have "length (s1_Message_Block (zeros_to 64 ?s1)) = 64"
      "take 64 (s1_Message_Block (zeros_to 64 ?s1)) = rest @ 0x80 # replicate (63 - r) 0" using Z t1 r by simp_all
    then have b1: "s1_Message_Block (zeros_to 64 ?s1) = rest @ 0x80 # replicate (63 - r) 0" by simp
    have s2: "s1_H ?s2 = fips_block (rest @ 0x80 # replicate (63 - r) 0) (s1_H s)" "s1_Message_Block_Index ?s2 = 0"
      "length (s1_Message_Block ?s2) = 64" "s1_Length_Low ?s2 = s1_Length_Low s" "s1_Length_High ?s2 = s1_Length_High s"
      using Z r b1 by (simp_all add: ProcessMessageBlock_fips)
    note Z2 = zeros_to_frame [of 0 56 ?s2, OF _ _ s2(2,3)]
    have "s1_H (PadMessage s) = fips_block (replicate 56 0 @ L) (s1_H ?s2)"
      using tail [of "zeros_to 56 ?s2"] Z2 s2 A False by (simp add: PadMessage_def Let_def)
    moreover have "blocks (rest @ 0x80 # replicate (119 - r) 0 @ L) = [rest @ 0x80 # replicate (63 - r) 0, replicate 56 0 @ L]"
    proof -
      have "replicate (119 - r) (0 :: byte) = replicate (63 - r) 0 @ replicate 56 0" using False r by (simp flip: replicate_add)
      then have e: "rest @ 0x80 # replicate (119 - r) 0 @ L = (rest @ 0x80 # replicate (63 - r) 0) @ (replicate 56 0 @ L)" by simp
      have l: "length (rest @ 0x80 # replicate (63 - r) 0) = 64" using False r lr by simp
      then have "64 dvd length (rest @ 0x80 # replicate (63 - r) 0)" by simp
      from blocks_append [OF this] blocks_one [OF l] blocks_one [of "replicate 56 0 @ L"] lL show ?thesis unfolding e by simp
    qed
    moreover have "(119 - r) mod 64 = 119 - r" using False r by simp
    ultimately show ?thesis using spec s2(1) by simp
  qed
qed

lemma at_pieces:
  assumes "length (s1_Message_Block s) = 64" "length (concat pieces) < 2 ^ 61"
  shows "fst (sha1_Result (fold sha1_Input pieces (sha1_Reset s))) = Some (fips_sha1 (concat pieces))"
proof -
  have at: "sha1_at (msg @ concat ps) (fold sha1_Input ps t)"
    if "sha1_at msg t" "length msg + length (concat ps) < 2 ^ 61" for msg t ps
    using that
  proof (induction ps arbitrary: msg t)
    case (Cons p ps)
    have "sha1_at (msg @ p) (sha1_Input p t)" using Cons.prems by (intro Input_at) simp_all
    with Cons.IH [of "msg @ p"] Cons.prems(2) show ?case by simp
  qed simp
  have "sha1_at (concat pieces) (fold sha1_Input pieces (sha1_Reset s))"
    using at [OF sha1_at_Reset [OF assms(1)], of pieces] assms(2) by simp
  then show ?thesis using PadMessage_at assms(2) by (auto simp: sha1_Result_def sha1_at_def Let_def)
qed

text \<open>Property C24. The class computes the digest of FIPS 180-1 for every message shorter than the standard's
  limit, in whatever pieces it is given.\<close>

theorem sha1_digest:
  assumes "length (s1_Message_Block s) = 64" "length (concat pieces) < 2 ^ 61"
  shows "fst (sha1_Result (fold sha1_Input pieces (sha1_Reset s))) = Some (fips_sha1 (concat pieces))"
  by (rule at_pieces [OF assms])

definition sha1_fresh :: sha1 where
  "sha1_fresh = \<lparr>s1_H = (0, 0, 0, 0, 0), s1_Length_Low = 0, s1_Length_High = 0, s1_Message_Block = replicate 64 0,
     s1_Message_Block_Index = 0, s1_Computed = False, s1_Corrupted = False\<rparr>"

lemma sha1_digest_witness:
  "fst (sha1_Result (fold sha1_Input [[0x61], [0x62, 0x63]] (sha1_Reset sha1_fresh))) = Some (fips_sha1 [0x61, 0x62, 0x63])"
  using sha1_digest [of sha1_fresh "[[0x61], [0x62, 0x63]]"] by (simp add: sha1_fresh_def)

text \<open>A C string is hashed character by character.\<close>

lemma sha1_text_digest:
  assumes "length (s1_Message_Block s) = 64" "length cs < 2 ^ 61" "0 \<notin> set cs"
  shows "fst (sha1_Result (sha1_text cs (sha1_Reset s))) = Some (fips_sha1 cs)"
proof -
  have "fold (\<lambda>b. sha1_Input [b]) xs t = fold sha1_Input (map (\<lambda>b. [b]) xs) t" for xs t by (induction xs arbitrary: t) simp_all
  moreover have tw: "takeWhile (\<lambda>b. b \<noteq> 0) cs = cs" using assms(3) by (induction cs) auto
  moreover have "concat (map (\<lambda>b. [b]) cs) = cs" by (induction cs) simp_all
  ultimately show ?thesis using at_pieces [OF assms(1), of "map (\<lambda>b. [b]) cs"] assms(2) by (simp add: sha1_text_def tw)
qed

end
