(* ===== verification/ConnectWs.thy ===== *)
theory ConnectWs
  imports ConnectServer Base64 Sha1
begin

text \<open>
  svr/connectwssvr: the server the clients connect to by websocket (connectws_server.cpp). It is
  the connect server with a handshake before the stream and a frame head on every package. A
  slot of the pool keeps the memory of its receive buffer over its connections: \<open>ws_mem\<close> is 48
  bytes for a head and the whole buffer, of which the first \<open>ws_offset\<close> bytes are received. The
  handshake looks for its strings with \<open>strstr\<close>, which reads on to the first zero byte, so the
  memory behind the slot (\<open>beyond\<close>: the later slots and what follows the allocation) is an
  argument. \<open>Crash\<close> is an access outside the pool, a pipe's buffer or the memory given.
\<close>

abbreviation (input) "WS_ROOM \<equiv> 131088 :: nat"

record ws_socket =
  ws_fd :: int
  ws_type :: nat
  ws_logic_index :: u64
  ws_mem :: "byte list"
  ws_offset :: nat
  ws_create_time :: u64
  ws_update_time :: u32
  ws_port :: u32
  ws_addr :: string
  ws_hand_shaked :: bool
  ws_in :: "recv_event list"
  ws_out :: "send_event list"
  ws_sent :: "byte list"

record ws_svr =
  wv_conf :: conn_conf
  wv_pool :: "ws_socket list"
  wv_free :: "nat list"
  wv_cs_pipe :: shm_pipe
  wv_sc_pipe :: shm_pipe
  wv_heart :: u32

definition ws_socket0 :: "byte list \<Rightarrow> ws_socket" where
  "ws_socket0 mem = \<lparr>ws_fd = 0, ws_type = NONE_SOCKET, ws_logic_index = 0, ws_mem = mem, ws_offset = 0, ws_create_time = 0,
     ws_update_time = 0, ws_port = 0, ws_addr = [], ws_hand_shaked = False, ws_in = [], ws_out = [], ws_sent = []\<rparr>"

definition set_ws :: "nat \<Rightarrow> ws_socket \<Rightarrow> ws_svr \<Rightarrow> ws_svr" where
  "set_ws pos s wv = wv\<lparr>wv_pool := (wv_pool wv)[pos := s]\<rparr>"

subsection \<open>The socket pool\<close>

text \<open>\<open>new char[]\<close> leaves the buffers as they are: \<open>heap\<close> is their content.\<close>

definition ws_SocketPoolInit :: "(nat \<Rightarrow> byte list) \<Rightarrow> ws_svr \<Rightarrow> ws_svr option" where
  "ws_SocketPoolInit heap wv =
     (let n = cc_max_client_num (wv_conf wv)
      in if n > 65535 then None
         else Some (wv\<lparr>wv_pool := map (\<lambda>i. ws_socket0 (heap i)) [0..<n], wv_free := [0..<n]\<rparr>))"

definition ws_SocketCreate :: "ws_svr \<Rightarrow> nat option \<times> ws_svr" where
  "ws_SocketCreate wv = (case wv_free wv of [] \<Rightarrow> (None, wv) | pos # rest \<Rightarrow> (Some pos, wv\<lparr>wv_free := rest\<rparr>))"

definition ws_NotifyLogicDiscon :: "ws_socket \<Rightarrow> shm_pipe \<Rightarrow> (byte list \<times> shm_pipe) option" where
  "ws_NotifyLogicDiscon s p =
     (if ws_logic_index s \<noteq> NO_INDEX then
        (let mem = wr 48 (w64 (ws_logic_index s)) (wr 36 (w32 3) (ws_mem s))
         in case AppendOneData (take 56 mem) p of
              None \<Rightarrow> None
            | Some (_, p1) \<Rightarrow> Some (mem, p1))
      else Some (ws_mem s, p))"

text \<open>Everything of the socket is cleared but the memory of its buffer.\<close>

definition ws_SocketRelease :: "nat \<Rightarrow> bool \<Rightarrow> ws_svr \<Rightarrow> ws_svr outcome" where
  "ws_SocketRelease pos need_notify_logic wv =
     (case (if need_notify_logic then ws_NotifyLogicDiscon (wv_pool wv ! pos) (wv_cs_pipe wv)
            else Some (ws_mem (wv_pool wv ! pos), wv_cs_pipe wv)) of
        None \<Rightarrow> Crash
      | Some (mem, p) \<Rightarrow>
          Ret ((set_ws pos (ws_socket0 mem) wv)\<lparr>wv_cs_pipe := p, wv_free := wv_free wv @ [pos]\<rparr>))"

definition ws_AcceptConnect :: "u64 \<Rightarrow> cli_accept \<Rightarrow> ws_svr \<Rightarrow> ws_svr outcome" where
  "ws_AcceptConnect now a wv = (case ca_fd a of
     None \<Rightarrow> Ret wv
   | Some cli_fd \<Rightarrow>
       (case ws_SocketCreate wv of
          (None, wv1) \<Rightarrow> Ret wv1
        | (Some pos, wv1) \<Rightarrow>
            let s = wv_pool wv1 ! pos;
                wv2 = set_ws pos (s\<lparr>ws_fd := cli_fd, ws_type := 2, ws_create_time := now, ws_hand_shaked := False,
                        ws_logic_index := NO_INDEX, ws_offset := 0, ws_port := ca_port a, ws_addr := ca_addr a,
                        ws_in := ca_in a, ws_out := ca_out a, ws_sent := []\<rparr>) wv1
            in if \<not> ca_nonblock a then ws_SocketRelease pos True wv2
               else if \<not> ca_epoll a then ws_SocketRelease pos True wv2
               else Ret wv2))"

subsection \<open>The handshake\<close>

text \<open>\<open>strstr\<close> on memory: the first occurrence before the first zero byte.\<close>

fun c_strstr :: "byte list \<Rightarrow> byte list \<Rightarrow> nat option outcome" where
  "c_strstr needle [] = Crash"
| "c_strstr needle (b # bs) =
     (if take (length needle) (b # bs) = needle then Ret (Some 0)
      else if b = 0 then Ret None
      else (case c_strstr needle bs of Crash \<Rightarrow> Crash | Ret r \<Rightarrow> Ret (map_option Suc r)))"

definition ascii :: "string \<Rightarrow> byte list" where
  "ascii = map of_char"

definition MAGIC_KEY :: "byte list" where
  "MAGIC_KEY = ascii ''258EAFA5-E914-47DA-95CA-C5AB0DC85B11''"

definition CRLF :: "byte list" where "CRLF = [13, 10]"

text \<open>The digest in network order and in base64. \<open>stack\<close> is the memory of the local \<open>SHA1\<close> object; an
  object that was just reset does not refuse its result.\<close>

definition accept_key :: "sha1 \<Rightarrow> byte list \<Rightarrow> byte list" where
  "accept_key stack key =
     (let (h0, h1, h2, h3, h4) = the (fst (sha1_Result (sha1_text (key @ MAGIC_KEY @ [0]) (sha1_Reset stack))))
      in base64_encode (concat (map (\<lambda>h. be32 (unat h)) [h0, h1, h2, h3, h4])))"

definition handshake_reply :: "sha1 \<Rightarrow> byte list \<Rightarrow> byte list" where
  "handshake_reply stack key =
     ascii ''HTTP/1.1 101 Switching Protocols'' @ CRLF @ ascii ''Connection: upgrade'' @ CRLF
     @ ascii ''Sec-WebSocket-Accept: '' @ accept_key stack key @ CRLF
     @ ascii ''Upgrade: websocket'' @ CRLF @ CRLF"

text \<open>What the received bytes say: go on receiving, close the connection, or answer the key.\<close>

datatype shake = SH_wait | SH_release | SH_reply "byte list"

definition check_request :: "byte list \<Rightarrow> nat \<Rightarrow> shake outcome" where
  "check_request buf offset =
     (if offset < 3 then Ret SH_wait
      else if take 3 buf \<noteq> ascii ''GET'' then Ret SH_release
      else case c_strstr (CRLF @ CRLF) buf of
        Crash \<Rightarrow> Crash
      | Ret None \<Rightarrow> Ret SH_wait
      | Ret (Some _) \<Rightarrow>
          (case c_strstr (ascii ''Upgrade: websocket'') buf of
             Crash \<Rightarrow> Crash
           | Ret None \<Rightarrow> Ret SH_release
           | Ret (Some _) \<Rightarrow>
               (case c_strstr (ascii ''Sec-WebSocket-Key: '') buf of
                  Crash \<Rightarrow> Crash
                | Ret None \<Rightarrow> Ret SH_release
                | Ret (Some i) \<Rightarrow>
                    (if length buf < i + 19 + 24 then Crash
                     else Ret (SH_reply (take 24 (drop (i + 19) buf)))))))"

text \<open>The key is made a C string by \<open>c_str()\<close>: a zero byte among its 24 ends it.\<close>

datatype ws_sent = WS_lost ws_socket | WS_failed ws_socket | WS_sent ws_socket

fun ws_send_retry :: "nat \<Rightarrow> byte list \<Rightarrow> ws_socket \<Rightarrow> ws_sent" where
  "ws_send_retry 0 bs s = WS_lost s"
| "ws_send_retry (Suc n) bs s = (case net_send bs (ws_out s) of
     (Some x, _, es) \<Rightarrow> WS_sent (s\<lparr>ws_out := es, ws_sent := ws_sent s @ x\<rparr>)
   | (None, True, es) \<Rightarrow> WS_failed (s\<lparr>ws_out := es\<rparr>)
   | (None, False, es) \<Rightarrow> ws_send_retry n bs (s\<lparr>ws_out := es\<rparr>))"

subsection \<open>Frames from a client\<close>

definition ws_put_head :: "nat \<Rightarrow> nat \<Rightarrow> ws_socket \<Rightarrow> byte list \<Rightarrow> byte list" where
  "ws_put_head pos k s mem =
     wr (k + 16) (addr_bytes (ws_addr s)) (wr (k + 40) (w32 2) (wr (k + 36) (w32 1) (wr (k + 12) (w32 (ws_port s))
       (wr k (w64 (ws_create_time s)) (wr (k + 8) (w32 (of_nat pos)) mem)))))"

definition unmask :: "byte list \<Rightarrow> nat \<Rightarrow> nat \<Rightarrow> byte list \<Rightarrow> byte list" where
  "unmask key off len mem = fold (\<lambda>i m. m[off + i := m ! (off + i) XOR key ! (i mod 4)]) [0..<len] mem"

text \<open>\<open>ntohl\<close> of the two bytes read as a \<open>uint16\<close>.\<close>

definition len126 :: "byte list \<Rightarrow> nat" where
  "len126 bs = of_be32 [bs ! 0, bs ! 1, 0, 0]"

datatype ws_parsed = WP_crash | WP_release "byte list" shm_pipe | WP_done nat nat "byte list" shm_pipe

function ws_parse :: "byte list \<Rightarrow> nat \<Rightarrow> ws_socket \<Rightarrow> nat \<Rightarrow> nat \<Rightarrow> byte list \<Rightarrow> shm_pipe \<Rightarrow> ws_parsed" where
  "ws_parse beyond pos s left k mem p =
     (if left > 2 then
        (let recv = (\<lambda>i. mem ! (48 + k + i)) in
         if drop_bit 7 (recv 0) \<noteq> 1 then WP_release mem p
         else if drop_bit 7 (recv 1) \<noteq> 1 then WP_release mem p
         else
           let len7 = unat (recv 1 AND 0x7f) in
           if len7 = 126 \<and> left - 2 < 2 then WP_done left k mem p
           else if len7 = 127 then WP_release mem p
           else if len7 < 4 then WP_release mem p
           else
             let len = (if len7 = 126 then len126 [recv 2, recv 3] else len7);
                 at = (if len7 = 126 then 4 else 2)
             in if left - at < 4 then WP_done left k mem p
                else
                  let mask_key = map (\<lambda>i. recv (at + i)) [0..<4]; at = at + 4 in
                  if left - at < len then WP_done left k mem p
                  else
                    let mem1 = unmask mask_key (48 + k + at) len mem;
                        word = drop (48 + k + at) (mem1 @ beyond)
                    in if length word < 4 then WP_crash
                       else if of_be32 word \<noteq> len \<or> of_be32 word > MAX_CS_PKG_BUF_LEN then WP_release mem1 p
                       else
                         let mem2 = ws_put_head pos (k + at) s mem1 in
                         case AppendOneData (take (len + 48) (drop (k + at) mem2)) p of
                           None \<Rightarrow> WP_crash
                         | Some (ok, p1) \<Rightarrow>
                             if \<not> ok then WP_done left k mem2 p1
                             else ws_parse beyond pos s (left - (at + len)) (k + (at + len)) mem2 p1)
      else WP_done left k mem p)"
  by pat_completeness auto
termination by (relation "measure (\<lambda>(beyond, pos, s, left, k, mem, p). left)") (auto simp: Let_def split: if_splits)

declare ws_parse.simps [simp del]

text \<open>The \<open>memmove\<close> of what is left to the front.\<close>

definition keep_left :: "nat \<Rightarrow> nat \<Rightarrow> byte list \<Rightarrow> byte list" where
  "keep_left left k mem = wr 48 (take left (drop (48 + k) mem)) mem"

text \<open>\<open>RecvClientData\<close> on the socket and the pipe. The outer \<open>None\<close> is a loop that does not end.\<close>

partial_function (option) ws_recv_client :: "sha1 \<Rightarrow> nat \<Rightarrow> byte list \<Rightarrow> nat \<Rightarrow> ws_socket \<Rightarrow> shm_pipe
    \<Rightarrow> (bool \<times> ws_socket \<times> shm_pipe) outcome option" where
  "ws_recv_client stack retry beyond pos s p =
     (if ws_offset s = WS_ROOM then Some (Ret (False, s, p))
      else case net_recv (WS_ROOM - ws_offset s) (ws_in s) of
        (Peer_closed, es) \<Rightarrow> Some (Ret (True, s\<lparr>ws_in := es\<rparr>, p))
      | (Recv_error, es) \<Rightarrow> Some (Ret (True, s\<lparr>ws_in := es\<rparr>, p))
      | (Recv_again, es) \<Rightarrow> Some (Ret (False, s\<lparr>ws_in := es\<rparr>, p))
      | (Seg bs, es) \<Rightarrow>
          (let s1 = s\<lparr>ws_in := es, ws_mem := wr (48 + ws_offset s) bs (ws_mem s), ws_offset := ws_offset s + length bs\<rparr> in
           if \<not> ws_hand_shaked s then
             (case check_request (drop 48 (ws_mem s1) @ beyond) (ws_offset s1) of
                Crash \<Rightarrow> Some Crash
              | Ret SH_wait \<Rightarrow> ws_recv_client stack retry beyond pos s1 p
              | Ret SH_release \<Rightarrow> Some (Ret (True, s1, p))
              | Ret (SH_reply key) \<Rightarrow>
                  (case ws_send_retry retry (handshake_reply stack key) s1 of
                     WS_failed s2 \<Rightarrow> Some (Ret (True, s2, p))
                   | WS_sent s2 \<Rightarrow> Some (Ret (False, s2\<lparr>ws_offset := 0, ws_hand_shaked := True\<rparr>, p))
                   | WS_lost s2 \<Rightarrow> ws_recv_client stack retry beyond pos s2 p))
           else
             (case ws_parse beyond pos s1 (ws_offset s1) 0 (ws_mem s1) p of
                WP_crash \<Rightarrow> Some Crash
              | WP_release mem p1 \<Rightarrow> Some (Ret (True, s1\<lparr>ws_mem := mem\<rparr>, p1))
              | WP_done left k mem p1 \<Rightarrow>
                  ws_recv_client stack retry beyond pos (s1\<lparr>ws_mem := keep_left left k mem, ws_offset := left\<rparr>) p1)))"

text \<open>The memory behind a slot's buffer: the slots after it, each with its room for a head, then \<open>tail\<close>.\<close>

definition behind :: "nat \<Rightarrow> ws_socket list \<Rightarrow> byte list \<Rightarrow> byte list" where
  "behind pos pool tail = concat (map ws_mem (drop (pos + 1) pool)) @ tail"

definition ws_RecvClientData :: "sha1 \<Rightarrow> byte list \<Rightarrow> nat \<Rightarrow> ws_svr \<Rightarrow> ws_svr outcome option" where
  "ws_RecvClientData stack tail pos wv =
     (case ws_recv_client stack (cc_max_send_client_retry (wv_conf wv)) (behind pos (wv_pool wv) tail) pos (wv_pool wv ! pos) (wv_cs_pipe wv) of
        None \<Rightarrow> None
      | Some Crash \<Rightarrow> Some Crash
      | Some (Ret (release, s, p)) \<Rightarrow>
          (let wv1 = (set_ws pos s wv)\<lparr>wv_cs_pipe := p\<rparr>
           in Some (if release then ws_SocketRelease pos True wv1 else Ret wv1)))"

subsection \<open>Frames to a client\<close>

text \<open>\<open>(uint16)buf_len\<close> in network order.\<close>

definition be16 :: "nat \<Rightarrow> byte list" where
  "be16 n = [of_nat (n div 256), of_nat n]"

definition WrapWebsocketHead :: "byte list \<Rightarrow> byte list" where
  "WrapWebsocketHead buf =
     (if length buf \<le> 125 then [push_bit 7 1 OR 0x02, push_bit 7 0 OR of_nat (length buf)] @ buf
      else [push_bit 7 1 OR 0x02, push_bit 7 0 OR 126] @ be16 (length buf) @ buf)"

definition ws_send_one :: "u64 \<Rightarrow> byte list \<Rightarrow> ws_svr \<Rightarrow> (bool \<times> ws_svr) outcome" where
  "ws_send_one now msg wv =
     (let pos = unat (rd32 8 msg) mod 65536 in
      if length msg < 48 \<or> pos \<ge> length (wv_pool wv) then Crash
      else if rd64 0 msg \<noteq> ws_create_time (wv_pool wv ! pos) then Ret (False, wv)
      else
        let s = (wv_pool wv ! pos)\<lparr>ws_update_time := GetTime now\<rparr> in
        if rd32 36 msg = 2 then
          Ret (False, set_ws pos (if length msg - 48 = 8 then s\<lparr>ws_logic_index := rd64 48 msg\<rparr> else s) wv)
        else
          case ws_send_retry (cc_max_send_client_retry (wv_conf wv)) (WrapWebsocketHead (drop 48 msg)) s of
            WS_lost s1 \<Rightarrow> Ret (True, set_ws pos s1 wv)
          | WS_failed s1 \<Rightarrow>
              (case ws_SocketRelease pos True (set_ws pos s1 wv) of Crash \<Rightarrow> Crash | Ret wv1 \<Rightarrow> Ret (False, wv1))
          | WS_sent s1 \<Rightarrow>
              if msg ! 32 \<noteq> 0 then
                (case ws_SocketRelease pos False (set_ws pos s1 wv) of Crash \<Rightarrow> Crash | Ret wv1 \<Rightarrow> Ret (False, wv1))
              else Ret (False, set_ws pos s1 wv))"

fun ws_send_loop :: "nat \<Rightarrow> u64 \<Rightarrow> ws_svr \<Rightarrow> ws_svr outcome" where
  "ws_send_loop 0 now wv = Ret wv"
| "ws_send_loop (Suc i) now wv = (case GetOneData MAX_CONNECT_BUF_LEN (wv_sc_pipe wv) of
     None \<Rightarrow> Crash
   | Some (None, p) \<Rightarrow> Ret (wv\<lparr>wv_sc_pipe := p\<rparr>)
   | Some (Some msg, p) \<Rightarrow>
       (case ws_send_one now msg (wv\<lparr>wv_sc_pipe := p\<rparr>) of
          Crash \<Rightarrow> Crash
        | Ret (True, wv1) \<Rightarrow> ws_send_loop i now wv1
        | Ret (False, wv1) \<Rightarrow> Ret wv1))"

definition ws_SendClientData :: "u64 \<Rightarrow> ws_svr \<Rightarrow> ws_svr outcome" where
  "ws_SendClientData now wv = ws_send_loop (cc_max_send_client_num (wv_conf wv)) now wv"

subsection \<open>The heart beat check, the poll set\<close>

definition ws_idle_action :: "u32 \<Rightarrow> ws_socket \<Rightarrow> bool option" where
  "ws_idle_action now s =
     (if ws_type s \<noteq> 2 then None
      else if ws_logic_index s = NO_INDEX then
        (if unat (ws_create_time s) div 1000 + 6 \<le> unat now then Some False else None)
      else if ws_update_time s + 600 \<le> now then Some True else None)"

fun ws_check_idle :: "u32 \<Rightarrow> nat list \<Rightarrow> ws_svr \<Rightarrow> ws_svr outcome" where
  "ws_check_idle now [] wv = Ret wv"
| "ws_check_idle now (pos # ps) wv = (case ws_idle_action now (wv_pool wv ! pos) of
     None \<Rightarrow> ws_check_idle now ps wv
   | Some notify \<Rightarrow>
       (case ws_SocketRelease pos notify wv of Crash \<Rightarrow> Crash | Ret wv1 \<Rightarrow> ws_check_idle now ps wv1))"

definition ws_OnRoutineCheck :: "u64 \<Rightarrow> ws_svr \<Rightarrow> ws_svr outcome" where
  "ws_OnRoutineCheck now wv =
     (if cc_heart_beat_check (wv_conf wv) \<and> wv_heart wv + 6 \<le> GetTime now
      then ws_check_idle (GetTime now) [0..<cc_max_client_num (wv_conf wv)] (wv\<lparr>wv_heart := GetTime now\<rparr>)
      else Ret wv)"

definition ws_InitNetwork :: "(nat \<Rightarrow> byte list) \<Rightarrow> ws_svr \<Rightarrow> ws_svr outcome option" where
  "ws_InitNetwork heap wv = (case ws_SocketPoolInit heap wv of
     None \<Rightarrow> None
   | Some wv1 \<Rightarrow>
       (case ws_SocketCreate wv1 of
          (None, _) \<Rightarrow> Some Crash
        | (Some pos, wv2) \<Rightarrow> Some (Ret (set_ws pos ((wv_pool wv2 ! pos)\<lparr>ws_type := 1\<rparr>) wv2))))"

definition ws_DealNetwork_one :: "sha1 \<Rightarrow> byte list \<Rightarrow> u64 \<Rightarrow> cli_accept \<Rightarrow> nat \<Rightarrow> ws_svr \<Rightarrow> ws_svr outcome option" where
  "ws_DealNetwork_one stack tail now a pos wv =
     (if ws_type (wv_pool wv ! pos) = 1 then Some (ws_AcceptConnect now a wv) else ws_RecvClientData stack tail pos wv)"

end
