(* ===== verification/ConnectWsProps.thy ===== *)
theory ConnectWsProps
  imports ConnectWs
begin

text \<open>
  What a websocket client can rely on: short masked frames reach the logic server's pipe whole
  and in order, a frame with the 16-bit length never does, a frame that meets a full pipe is
  lost, the handshake answers with the digest RFC 6455 asks for, and what the server sends is
  what a client reads.
\<close>

subsection \<open>Unmasking in place\<close>

lemma length_unmask [simp]: "length (unmask key off n mem) = length mem"
proof -
  have "length (fold (\<lambda>i m. m[off + i := m ! (off + i) XOR key ! (i mod 4)]) is mem) = length mem" for "is"
    by (induction "is" arbitrary: mem) simp_all
  then show ?thesis by (simp add: unmask_def)
qed

lemma unmask_Suc: "unmask key off (Suc n) mem =
    (unmask key off n mem)[off + n := unmask key off n mem ! (off + n) XOR key ! (n mod 4)]"
  by (simp add: unmask_def)

lemma nth_unmask:
  "off + n \<le> length mem \<Longrightarrow> i < length mem \<Longrightarrow> unmask key off n mem ! i
     = (if off \<le> i \<and> i < off + n then mem ! i XOR key ! ((i - off) mod 4) else mem ! i)"
proof (induction n)
  case 0
  then show ?case by (auto simp: unmask_def)
next
  case (Suc n)
  then show ?case by (cases "i = off + n") (auto simp: unmask_Suc nth_list_update)
qed

definition mask_bytes :: "byte list \<Rightarrow> byte list \<Rightarrow> byte list" where
  "mask_bytes key ys = map (\<lambda>i. ys ! i XOR key ! (i mod 4)) [0..<length ys]"

lemma length_mask_bytes [simp]: "length (mask_bytes key ys) = length ys"
  by (simp add: mask_bytes_def)

lemma mask_mask: "mask_bytes key (mask_bytes key ys) = ys"
  by (intro nth_equalityI) (simp_all add: mask_bytes_def xor.assoc)

lemma unmask_within:
  assumes "length xs = off" "length ys = n"
  shows "unmask key off n (xs @ ys @ zs) = xs @ mask_bytes key ys @ zs"
  using assms by (intro nth_equalityI) (auto simp: nth_unmask mask_bytes_def nth_append)

subsection \<open>Short frames\<close>

text \<open>A frame the server can read: final, masked, at most 125 bytes, which are a package with its
  length in front. \<open>V_bad\<close> is any other frame.\<close>

definition ws_payload :: "byte list \<Rightarrow> byte list" where
  "ws_payload f = mask_bytes (take 4 (drop 2 f)) (drop 6 f)"

definition ws_verdict :: "byte list \<Rightarrow> verdict" where
  "ws_verdict bs =
     (let len = unat (bs ! 1 AND 0x7f) in
      if length bs < 3 then V_wait
      else if drop_bit 7 (bs ! 0) \<noteq> 1 \<or> drop_bit 7 (bs ! 1) \<noteq> 1 \<or> len \<ge> 126 \<or> len < 4 then V_bad
      else if length bs < 6 + len then V_wait
      else if of_be32 (ws_payload (take (6 + len) bs)) \<noteq> len then V_bad
      else V_take (6 + len))"

lemma len7_bound: "unat (b AND 0x7f :: byte) < 128"
proof -
  have "unat (b AND 0x7f) \<le> unat (0x7f :: byte)" using word_and_le1 word_le_nat_alt by metis
  then show ?thesis by simp
qed

interpretation wsf: framing ws_verdict
  by unfold_locales (auto simp: ws_verdict_def Let_def nth_append split: if_splits)

lemma ws_wait_short: "ws_verdict bs = V_wait \<Longrightarrow> length bs < 131"
  by (auto simp: ws_verdict_def Let_def split: if_splits)

subsection \<open>The head of a package\<close>

definition ws_carries :: "nat \<Rightarrow> ws_socket \<Rightarrow> byte list \<Rightarrow> byte list \<Rightarrow> bool" where
  "ws_carries pos s f msg \<longleftrightarrow> length msg = 48 + length f - 6 \<and> drop 48 msg = ws_payload f \<and> rd64 0 msg = ws_create_time s
     \<and> rd32 8 msg = of_nat pos \<and> rd32 12 msg = ws_port s \<and> rd32 36 msg = 1 \<and> rd32 40 msg = 2"

lemma ws_put_head_shift: "length xs = k \<Longrightarrow> ws_put_head pos k s (xs @ ys) = xs @ ws_put_head pos 0 s ys"
  using wr_shift [of xs 0] by (auto simp: ws_put_head_def wr_shift)

lemma ws_put_head_within:
  "48 \<le> length h \<Longrightarrow> length (ws_addr s) \<le> 15 \<Longrightarrow> ws_put_head pos 0 s (h @ ys) = ws_put_head pos 0 s h @ ys"
  by (simp add: ws_put_head_def wr_within)

lemma length_ws_put_head: "48 \<le> length h \<Longrightarrow> length (ws_addr s) \<le> 15 \<Longrightarrow> length (ws_put_head pos 0 s h) = length h"
  by (simp add: ws_put_head_def)

lemma ws_put_head_fields:
  assumes "length h = 48" "length (ws_addr s) \<le> 15"
  shows "rd64 0 (ws_put_head pos 0 s h @ f) = ws_create_time s" "rd32 8 (ws_put_head pos 0 s h @ f) = of_nat pos"
    "rd32 12 (ws_put_head pos 0 s h @ f) = ws_port s" "rd32 36 (ws_put_head pos 0 s h @ f) = 1"
    "rd32 40 (ws_put_head pos 0 s h @ f) = 2"
proof -
  have l: "length (ws_put_head pos 0 s h) = 48" using assms by (simp add: length_ws_put_head)
  have app: "rd32 o2 (ws_put_head pos 0 s h @ f) = rd32 o2 (ws_put_head pos 0 s h)" if "o2 + 4 \<le> 48" for o2
    using that l by (intro rd32_cong) auto
  have app64: "rd64 0 (ws_put_head pos 0 s h @ f) = rd64 0 (ws_put_head pos 0 s h)"
    using l by (simp add: rd64_def)
  have "rd64 0 (ws_put_head pos 0 s h) = ws_create_time s" "rd32 8 (ws_put_head pos 0 s h) = of_nat pos"
    "rd32 12 (ws_put_head pos 0 s h) = ws_port s" "rd32 36 (ws_put_head pos 0 s h) = 1" "rd32 40 (ws_put_head pos 0 s h) = 2"
    using assms by (simp_all add: ws_put_head_def rd_wr_other rd_wr_other64 rd_wr_same)
  with app app64 show "rd64 0 (ws_put_head pos 0 s h @ f) = ws_create_time s" "rd32 8 (ws_put_head pos 0 s h @ f) = of_nat pos"
    "rd32 12 (ws_put_head pos 0 s h @ f) = ws_port s" "rd32 36 (ws_put_head pos 0 s h @ f) = 1"
    "rd32 40 (ws_put_head pos 0 s h @ f) = 2" by simp_all
qed

subsection \<open>Frames into the pipe\<close>

definition ws_room :: "byte list list \<Rightarrow> nat" where
  "ws_room fs = sum_list (map (\<lambda>f. 46 + length f) fs)"

text \<open>The parser on a frame that is complete, and on one that is not.\<close>

lemma ws_parse_take:
  assumes "left > 2" "drop_bit 7 (mem ! (48 + k)) = 1" "drop_bit 7 (mem ! (48 + k + 1)) = 1"
    and len: "unat (mem ! (48 + k + 1) AND 0x7f) = len" "4 \<le> len" "len < 126" "6 + len \<le> left"
    and key: "map (\<lambda>i. mem ! (48 + k + (2 + i))) [0..<4] = key" and un: "unmask key (48 + k + 6) len mem = mem1"
    and word: "4 \<le> length (drop (48 + k + 6) (mem1 @ beyond))" "of_be32 (drop (48 + k + 6) (mem1 @ beyond)) = len"
  shows "ws_parse beyond pos s left k mem p =
     (case AppendOneData (take (len + 48) (drop (k + 6) (ws_put_head pos (k + 6) s mem1))) p of
        None \<Rightarrow> WP_crash
      | Some (ok, p1) \<Rightarrow> if \<not> ok then WP_done left k (ws_put_head pos (k + 6) s mem1) p1
          else ws_parse beyond pos s (left - (6 + len)) (k + (6 + len)) (ws_put_head pos (k + 6) s mem1) p1)"
proof -
  have "2 + 4 = (6::nat)" "48 + k + 0 = 48 + k" "\<not> len = 126" "\<not> len = 127" "\<not> len < 4" "\<not> len > MAX_CS_PKG_BUF_LEN"
    "\<not> left - 2 < 4" "\<not> left - 6 < len" "\<not> length (drop (48 + k + 6) (mem1 @ beyond)) < 4"
    using len word by simp_all
  then show ?thesis
    using assms(1-3) len(1) key un word(2)
    by (subst ws_parse.simps) (simp only: Let_def if_True if_False simp_thms)
qed

lemma ws_parse_wait:
  assumes "left > 2 \<longrightarrow> drop_bit 7 (mem ! (48 + k)) = 1 \<and> drop_bit 7 (mem ! (48 + k + 1)) = 1
      \<and> 4 \<le> unat (mem ! (48 + k + 1) AND 0x7f) \<and> unat (mem ! (48 + k + 1) AND 0x7f) < 126
      \<and> left < 6 + unat (mem ! (48 + k + 1) AND 0x7f)"
  shows "ws_parse beyond pos s left k mem p = WP_done left k mem p"
proof (cases "left > 2")
  case True
  define len where "len = unat (mem ! (48 + k + 1) AND 0x7f)"
  have a: "drop_bit 7 (mem ! (48 + k)) = 1" "drop_bit 7 (mem ! (48 + k + 1)) = 1" "4 \<le> len" "len < 126" "left < 6 + len"
    using assms True by (simp_all add: len_def)
  have "2 + 4 = (6::nat)" "48 + k + 0 = 48 + k" "\<not> len = 126" "\<not> len = 127" "\<not> len < 4" "left - 2 < 4 \<or> left - 6 < len"
    using a by auto
  then show ?thesis using True a
    by (subst ws_parse.simps) (simp only: Let_def if_True if_False simp_thms len_def [symmetric], auto)
qed (simp add: ws_parse.simps)

text \<open>The head is written over the end of what was taken and the frame's own head.\<close>

definition ws_head_of :: "nat \<Rightarrow> nat \<Rightarrow> ws_socket \<Rightarrow> byte list \<Rightarrow> byte list \<Rightarrow> byte list" where
  "ws_head_of pos k s pre bs = ws_put_head pos 0 s (drop (k + 6) pre @ take 6 bs)"

lemma ws_verdict_take:
  assumes "ws_verdict bs = V_take n"
  obtains len where "n = 6 + len" "3 \<le> length bs" "drop_bit 7 (bs ! 0) = 1" "drop_bit 7 (bs ! 1) = 1" "unat (bs ! 1 AND 0x7f) = len"
    "4 \<le> len" "len < 126" "6 + len \<le> length bs" "of_be32 (ws_payload (take n bs)) = len"
  using assms by (auto simp: ws_verdict_def Let_def split: if_splits)

lemma length_ws_head_of:
  assumes "length pre = 48 + k" "6 \<le> length bs" "length (ws_addr s) \<le> 15"
  shows "length (ws_head_of pos k s pre bs) = 48"
  using assms by (simp add: ws_head_of_def length_ws_put_head)

lemma ws_parse_frame:
  fixes pos :: nat
  assumes v: "ws_verdict bs = V_take n" and pre: "length pre = 48 + k" and addr: "length (ws_addr s) \<le> 15"
  defines "h \<equiv> ws_head_of pos k s pre bs" and "msg \<equiv> ws_payload (take n bs)"
  shows "ws_parse beyond pos s (length bs) k (pre @ bs @ stale) p =
    (case AppendOneData (h @ msg) p of
       None \<Rightarrow> WP_crash
     | Some (ok, p1) \<Rightarrow>
         if \<not> ok then WP_done (length bs) k (take (k + 6) pre @ h @ msg @ drop n bs @ stale) p1
         else ws_parse beyond pos s (length (drop n bs)) (k + n) ((take (k + 6) pre @ h @ msg) @ drop n bs @ stale) p1)"
proof -
  from ws_verdict_take [OF v] obtain len where n: "n = 6 + len" and w: "3 \<le> length bs" "drop_bit 7 (bs ! 0) = 1"
    "drop_bit 7 (bs ! 1) = 1" "unat (bs ! 1 AND 0x7f) = len" "4 \<le> len" "len < 126" "6 + len \<le> length bs" "of_be32 msg = len"
    unfolding msg_def by metis
  define ys where "ys = take len (drop 6 bs)"
  define rest where "rest = drop len (drop 6 bs)"
  have rest: "drop n bs = rest" by (simp add: rest_def n add.commute)
  have bs: "bs = take 6 bs @ ys @ rest" unfolding ys_def rest_def by (simp only: append_take_drop_id)
  have lys: "length ys = len" using w by (simp add: ys_def)
  have msg: "msg = mask_bytes (take 4 (drop 2 bs)) ys" using w by (simp add: msg_def ws_payload_def ys_def n drop_take min_def)
  then have lm: "length msg = len" using lys by simp
  have hl: "length h = 48" unfolding h_def using pre w addr by (intro length_ws_head_of) simp_all
  have nth: "(pre @ bs @ stale) ! (48 + k + i) = bs ! i" if "i < length bs" for i
    using that pre by (simp add: nth_append)
  have key: "map (\<lambda>i. (pre @ bs @ stale) ! (48 + k + (2 + i))) [0..<4] = take 4 (drop 2 bs)"
    using w pre by (intro nth_equalityI) (simp_all add: nth_append)
  have mem: "pre @ bs @ stale = (pre @ take 6 bs) @ ys @ (rest @ stale)" using arg_cong [OF bs, of "\<lambda>x. pre @ x @ stale"] by simp
  have l6: "length (pre @ take 6 bs) = 48 + k + 6" using pre w by simp
  have un: "unmask (take 4 (drop 2 bs)) (48 + k + 6) len (pre @ bs @ stale) = (pre @ take 6 bs) @ msg @ (rest @ stale)"
    unfolding mem msg by (rule unmask_within [OF l6 lys])
  have word: "drop (48 + k + 6) (((pre @ take 6 bs) @ msg @ rest @ stale) @ beyond) = msg @ (rest @ stale @ beyond)"
    using l6 by simp
  have be: "of_be32 (msg @ (rest @ stale @ beyond)) = len" using w lm by (subst of_be32_append) simp_all
  have regroup: "(pre @ take 6 bs) @ msg @ rest @ stale = take (k + 6) pre @ (drop (k + 6) pre @ take 6 bs) @ (msg @ rest @ stale)"
    by (metis append_assoc append_take_drop_id)
  have "length (take (k + 6) pre) = k + 6" "48 \<le> length (drop (k + 6) pre @ take 6 bs)" using pre w by simp_all
  then have put: "ws_put_head pos (k + 6) s ((pre @ take 6 bs) @ msg @ (rest @ stale)) = take (k + 6) pre @ h @ msg @ rest @ stale"
    unfolding regroup h_def ws_head_of_def using addr by (simp only: ws_put_head_shift ws_put_head_within)
  have cut: "take (len + 48) (drop (k + 6) (take (k + 6) pre @ h @ msg @ rest @ stale)) = h @ msg"
    using pre hl lm by simp
  have left: "length bs - (6 + len) = length rest" using w(7) by (simp add: rest_def)
  have "3 \<le> length bs \<Longrightarrow> 0 < length bs \<and> 1 < length bs" by linarith
  with nth [of 0] nth [of 1] w(1) have at: "(pre @ bs @ stale) ! (48 + k) = bs ! 0" "(pre @ bs @ stale) ! (48 + k + 1) = bs ! 1"
    by simp_all
  have "2 < length bs" using w(1) by simp
  from ws_parse_take [OF this, of "pre @ bs @ stale" k len, OF _ _ _ w(5-7) key un, of beyond pos s p, unfolded at put cut left word be]
  show ?thesis unfolding rest append_assoc unfolding n using w(2-5) lm by simp
qed

lemma ws_parse_cut:
  assumes "length (ws_addr s) \<le> 15"
  shows "cut_frames ws_verdict bs = (fs, rest, True) \<Longrightarrow> length pre = 48 + k \<Longrightarrow> pipe_rep p q
     \<Longrightarrow> used p + ws_room fs < sp_size p
     \<Longrightarrow> \<exists>pre' p' msgs. ws_parse beyond pos s (length bs) k (pre @ bs @ stale) p =
           WP_done (length rest) (k + (length bs - length rest)) (pre' @ rest @ stale) p'
         \<and> length pre' = 48 + k + (length bs - length rest) \<and> pipe_rep p' (q @ msgs) \<and> list_all2 (ws_carries pos s) fs msgs
         \<and> sp_size p' = sp_size p \<and> used p' = used p + ws_room fs"
proof (induction fs arbitrary: bs pre k p q)
  case Nil
  then have rb: "rest = bs" using cut_parts [OF Nil(1)] by simp
  have "ws_verdict bs = V_wait" using wsf.cut_rest [OF Nil(1)] rb by simp
  then have "ws_parse beyond pos s (length bs) k (pre @ bs @ stale) p = WP_done (length bs) k (pre @ bs @ stale) p"
    using Nil(2) by (intro ws_parse_wait) (auto simp: ws_verdict_def Let_def nth_append split: if_splits)
  then show ?case using Nil rb by (intro exI [of _ pre] exI [of _ p] exI [of _ "[]"]) (simp add: ws_room_def)
next
  case (Cons f fs)
  obtain n where v: "ws_verdict bs = V_take n"
    using Cons.prems(1) by (cases "ws_verdict bs") (auto simp: cut_wait cut_bad)
  have n: "0 < n" "n \<le> length bs" using wsf.take_ok [OF v] by simp_all
  have n6: "6 \<le> n" by (rule ws_verdict_take [OF v]) simp
  obtain fs1 r1 ok1 where c: "cut_frames ws_verdict (drop n bs) = (fs1, r1, ok1)" by (rule prod_cases3)
  with Cons.prems(1) cut_take [of ws_verdict bs n, OF v n(1,2)]
  have f: "f = take n bs" "fs1 = fs" "r1 = rest" "ok1" by simp_all
  have rl: "length rest \<le> length bs - n" using cut_parts [OF c] f(3) by (metis length_append length_drop le_add2)
  define h where "h = ws_head_of pos k s pre bs"
  have lh: "length h = 48" using n n6 Cons.prems(2) assms by (simp add: h_def length_ws_head_of)
  have lf: "length f = n" "length (ws_payload f) = length f - 6" using f n by (simp_all add: ws_payload_def)
  have rm: "used p + 4 + length (h @ ws_payload f) < sp_size p" "used p + 46 + length f + ws_room fs < sp_size p"
    using Cons.prems(4) lh lf n6 by (simp_all add: ws_room_def)
  from pipe_put [OF Cons.prems(3) rm(1)] obtain p1 where p1: "AppendOneData (h @ ws_payload f) p = Some (True, p1)"
    "pipe_rep p1 (q @ [h @ ws_payload f])" "sp_size p1 = sp_size p" "used p1 = used p + 4 + length (h @ ws_payload f)" by blast
  let ?pre = "take (k + 6) pre @ h @ ws_payload f"
  have step: "ws_parse beyond pos s (length bs) k (pre @ bs @ stale) p
      = ws_parse beyond pos s (length (drop n bs)) (k + n) (?pre @ drop n bs @ stale) p1"
    using ws_parse_frame [OF v Cons.prems(2) assms, of beyond pos stale p] p1(1) by (simp add: h_def f(1))
  have lp: "length ?pre = 48 + (k + n)" using Cons.prems(2) lh lf n6 by simp
  have "used p1 + ws_room fs < sp_size p1" using rm(2) p1 lh lf n6 by simp
  then obtain pre' p' msgs where IH:
    "ws_parse beyond pos s (length (drop n bs)) (k + n) (?pre @ drop n bs @ stale) p1 =
      WP_done (length rest) (k + n + (length (drop n bs) - length rest)) (pre' @ rest @ stale) p'"
    "length pre' = 48 + (k + n) + (length (drop n bs) - length rest)" "pipe_rep p' ((q @ [h @ ws_payload f]) @ msgs)"
    "list_all2 (ws_carries pos s) fs msgs" "sp_size p' = sp_size p1" "used p' = used p1 + ws_room fs"
    using Cons.IH [OF _ lp p1(2), of "drop n bs"] c f(2-4) by auto
  have "ws_carries pos s f (h @ ws_payload f)"
    using ws_put_head_fields [of "drop (k + 6) pre @ take 6 bs" s pos "ws_payload f"] Cons.prems(2) n n6 lh lf assms
    by (simp add: ws_carries_def h_def ws_head_of_def)
  moreover have "k + n + (length (drop n bs) - length rest) = k + (length bs - length rest)" using rl n by simp
  ultimately show ?case using IH step p1 lh lf n6
    by (intro exI [of _ pre'] exI [of _ p'] exI [of _ "(h @ ws_payload f) # msgs"]) (auto simp: ws_room_def)
qed

lemma ws_carries_cong: "ws_create_time s' = ws_create_time s \<Longrightarrow> ws_port s' = ws_port s \<Longrightarrow> ws_carries pos s' = ws_carries pos s"
  by (intro ext) (simp add: ws_carries_def)

subsection \<open>The receiving loop\<close>

text \<open>The received bytes of a slot.\<close>

definition ws_holds :: "ws_socket \<Rightarrow> byte list \<Rightarrow> bool" where
  "ws_holds s buf \<longleftrightarrow> length (ws_mem s) = 48 + WS_ROOM \<and> ws_offset s = length buf \<and> take (length buf) (drop 48 (ws_mem s)) = buf"

lemma ws_holds_mem:
  assumes "ws_holds s buf"
  obtains h stale where "ws_mem s = h @ buf @ stale" "length h = 48" "length buf + length stale = WS_ROOM"
proof
  show "ws_mem s = take 48 (ws_mem s) @ buf @ drop (48 + length buf) (ws_mem s)"
    using assms append_take_drop_id [of "length buf" "drop 48 (ws_mem s)"] by (simp add: ws_holds_def add.commute)
  show "length (take 48 (ws_mem s)) = 48" using assms by (simp add: ws_holds_def)
  have "length (take (length buf) (drop 48 (ws_mem s))) = length buf" "length (ws_mem s) = 48 + WS_ROOM"
    using assms by (simp_all add: ws_holds_def)
  then have "length buf \<le> WS_ROOM" by (simp add: min_def split: if_splits)
  then show "length buf + length (drop (48 + length buf) (ws_mem s)) = WS_ROOM" using assms by (simp add: ws_holds_def)
qed

lemma ws_holds_store:
  assumes "ws_holds s buf" "length buf + length bs \<le> WS_ROOM"
  shows "ws_holds (s\<lparr>ws_in := es, ws_mem := wr (48 + ws_offset s) bs (ws_mem s), ws_offset := ws_offset s + length bs\<rparr>) (buf @ bs)"
proof -
  obtain h stale where m: "ws_mem s = h @ buf @ stale" "length h = 48" "length buf + length stale = WS_ROOM"
    by (rule ws_holds_mem [OF assms(1)])
  have o: "ws_offset s = length buf" using assms(1) by (simp add: ws_holds_def)
  have "wr (48 + ws_offset s) bs (ws_mem s) = h @ (buf @ bs) @ drop (length bs) stale"
    using m o by (simp add: wr_def)
  then show ?thesis using m o assms(2) by (simp add: ws_holds_def)
qed

lemma ws_holds_kept:
  assumes "length (ws_mem s) = length (pre @ rest @ stale)" "length pre = 48 + k" "length (pre @ rest @ stale) = 48 + WS_ROOM"
  shows "ws_holds (s\<lparr>ws_mem := keep_left (length rest) k (pre @ rest @ stale), ws_offset := length rest\<rparr>) rest"
proof -
  have "keep_left (length rest) k (pre @ rest @ stale) = take 48 pre @ rest @ drop (48 + length rest) (pre @ rest @ stale)"
    using assms(2) by (simp add: keep_left_def wr_def)
  then show ?thesis using assms by (simp add: ws_holds_def)
qed

lemma ws_stream_loop:
  assumes "pipe_rep p q" "ws_holds s buf" "ws_verdict buf = V_wait" "ws_hand_shaked s"
    and "ws_in s = map Seg segs" "[] \<notin> set segs" "length (ws_addr s) \<le> 15"
    and "cut_frames ws_verdict (buf @ concat segs) = (fs, rest, True)" "used p + ws_room fs < sp_size p"
  shows "\<exists>s' p' msgs. ws_recv_client stack retry beyond pos s p = Some (Ret (False, s', p')) \<and> pipe_rep p' (q @ msgs)
    \<and> list_all2 (ws_carries pos s) fs msgs \<and> ws_holds s' rest"
  using assms
proof (induction "length (concat segs)" arbitrary: segs s buf p q fs rule: less_induct)
  case less
  note pr = less.prems
  have off: "ws_offset s = length buf" "length buf < 131" using pr(2) ws_wait_short [OF pr(3)] by (simp_all add: ws_holds_def)
  then have room: "ws_offset s \<noteq> WS_ROOM" by simp
  show ?case
  proof (cases "segs = []")
    case True
    then have "fs = []" "rest = buf" using pr(3,8) by (simp_all add: cut_wait)
    moreover have "ws_recv_client stack retry beyond pos s p = Some (Ret (False, s, p))"
      using True pr(5) room by (subst ws_recv_client.simps) simp
    ultimately show ?thesis using pr(1,2) by (intro exI [of _ s] exI [of _ p] exI [of _ "[]"]) simp
  next
    case False
    obtain bs segs' where rv: "net_recv (WS_ROOM - length buf) (map Seg segs) = (Seg bs, map Seg segs')"
      "[] \<notin> set segs'" "bs \<noteq> []" "length bs \<le> WS_ROOM - length buf" "concat segs = bs @ concat segs'"
      using net_recv_segs [OF pr(6) False, of "WS_ROOM - length buf"] off by auto
    obtain fs1 r1 ok1 where c1: "cut_frames ws_verdict (buf @ bs) = (fs1, r1, ok1)" by (rule prod_cases3)
    have ok1: "ok1"
      using c1 wsf.cut_bad_append [of "buf @ bs" fs1 r1 "concat segs'"] pr(8) rv(5) by (cases ok1) auto
    obtain fs2 where c2: "fs = fs1 @ fs2" "cut_frames ws_verdict (r1 @ concat segs') = (fs2, rest, True)"
      using c1 ok1 wsf.cut_append [of "buf @ bs" fs1 r1 "concat segs'"] pr(8) rv(5)
      by (cases "cut_frames ws_verdict (r1 @ concat segs')") auto
    have rooms: "used p + ws_room fs1 < sp_size p" "used p + ws_room fs1 + ws_room fs2 < sp_size p"
      using pr(9) c2(1) by (simp_all add: ws_room_def)
    let ?s1 = "s\<lparr>ws_in := map Seg segs', ws_mem := wr (48 + ws_offset s) bs (ws_mem s), ws_offset := ws_offset s + length bs\<rparr>"
    have h1: "ws_holds ?s1 (buf @ bs)" using pr(2) rv(4) off by (intro ws_holds_store) simp_all
    obtain h stale where m: "ws_mem ?s1 = h @ (buf @ bs) @ stale" "length h = 48" "length (buf @ bs) + length stale = WS_ROOM"
      by (rule ws_holds_mem [OF h1])
    have "length h = 48 + 0" "length (ws_addr ?s1) \<le> 15" using m(2) pr(7) by simp_all
    from ws_parse_cut [OF this(2) c1 [unfolded ok1 [THEN eqTrueI]] this(1) pr(1) rooms(1), of beyond pos stale]
    obtain pre' p1 msgs1 where ps: "ws_parse beyond pos ?s1 (length (buf @ bs)) 0 (h @ (buf @ bs) @ stale) p
        = WP_done (length r1) (0 + (length (buf @ bs) - length r1)) (pre' @ r1 @ stale) p1"
      "length pre' = 48 + 0 + (length (buf @ bs) - length r1)" "pipe_rep p1 (q @ msgs1)" "list_all2 (ws_carries pos ?s1) fs1 msgs1"
      "sp_size p1 = sp_size p" "used p1 = used p + ws_room fs1" by blast
    have rl: "length r1 \<le> length (buf @ bs)" using cut_parts [OF c1] by (metis length_append le_add2)
    let ?s2 = "?s1\<lparr>ws_mem := keep_left (length r1) (length (buf @ bs) - length r1) (pre' @ r1 @ stale), ws_offset := length r1\<rparr>"
    have tot: "length (pre' @ r1 @ stale) = 48 + WS_ROOM" using ps(2) m(3) rl by simp
    moreover have "length (ws_mem ?s1) = 48 + WS_ROOM" using h1 unfolding ws_holds_def by (rule conjunct1)
    ultimately have h2: "ws_holds ?s2 r1" using ps(2) by (intro ws_holds_kept) (simp_all only: add_0_right)
    have "ws_offset ?s1 = length (buf @ bs)" using off by simp
    then have step: "ws_recv_client stack retry beyond pos s p = ws_recv_client stack retry beyond pos ?s2 p1"
      using ps(1) m(1) room pr(4) rv(1) off by (subst ws_recv_client.simps) (simp add: Let_def pr(5))
    have "length (concat segs') < length (concat segs)" using rv(3,5) by simp
    then have "\<exists>s' p' msgs. ws_recv_client stack retry beyond pos ?s2 p1 = Some (Ret (False, s', p')) \<and> pipe_rep p' ((q @ msgs1) @ msgs)
        \<and> list_all2 (ws_carries pos ?s2) fs2 msgs \<and> ws_holds s' rest"
      using ps(3,5,6) h2 wsf.cut_rest [of "buf @ bs" fs1 r1] c1 ok1 rv(2) pr(4,7) c2(2) rooms(2)
      by (intro less.hyps [of segs' p1 "q @ msgs1" ?s2 r1 fs2]) simp_all
    then obtain s' p' msgs where "ws_recv_client stack retry beyond pos ?s2 p1 = Some (Ret (False, s', p'))"
      "pipe_rep p' ((q @ msgs1) @ msgs)" "list_all2 (ws_carries pos ?s2) fs2 msgs" "ws_holds s' rest" by blast
    moreover have "ws_carries pos ?s2 = ws_carries pos s" "ws_carries pos ?s1 = ws_carries pos s" by (rule ws_carries_cong; simp)+
    ultimately show ?thesis using step ps(4) c2(1)
      by (intro exI [of _ s'] exI [of _ p'] exI [of _ "msgs1 @ msgs"]) (simp add: list_all2_appendI)
  qed
qed

text \<open>Property C7. As long as the pipe has room for all packages with their heads (and the client's address is a text of at most 15
  characters): a websocket client that has shaken hands and sends nothing but length-prefixed packages in single masked frames of at
  most 125 bytes has every one of them, unmasked, in the logic server's pipe, in order, each behind
  a head with the slot's position, time stamp, port and the connection type "websocket", however the
  network cuts the frames; an incomplete frame waits for the rest. With a full pipe the client is
  dropped (\<open>ws_full_pipe_drops\<close>), and a longer frame is never delivered (\<open>ws_long_frame_stuck\<close>).\<close>

theorem ws_stream:
  assumes "pipe_rep p q" "ws_holds s []" "ws_hand_shaked s" "length (ws_addr s) \<le> 15"
    and "ws_in s = map Seg segs" "[] \<notin> set segs" "cut_frames ws_verdict (concat segs) = (fs, rest, True)"
    and "used p + ws_room fs < sp_size p"
  shows "\<exists>s' p' msgs. ws_recv_client stack retry beyond pos s p = Some (Ret (False, s', p')) \<and> pipe_rep p' (q @ msgs)
    \<and> list_all2 (ws_carries pos s) fs msgs \<and> ws_holds s' rest"
proof -
  have "ws_verdict [] = V_wait" by (simp add: ws_verdict_def)
  then show ?thesis using assms by (intro ws_stream_loop [where buf = "[]"]) simp_all
qed

text \<open>Two frames under different keys, cut in the middle of the first; the packages are \<open>[0, 0, 0, 5, 9]\<close> and
  \<open>[0, 0, 0, 4]\<close>.\<close>

definition a_ws_client :: ws_socket where
  "a_ws_client = (ws_socket0 (replicate (48 + WS_ROOM) 0))\<lparr>ws_fd := 8, ws_type := 2, ws_logic_index := NO_INDEX, ws_create_time := 5,
     ws_hand_shaked := True, ws_in := [Seg [0x82, 0x85, 1, 2, 3], Seg [4, 1, 2, 3, 1, 8, 0x82, 0x84, 7, 7, 7, 7, 7, 7], Seg [7, 3, 0x82]]\<rparr>"

lemma a_ws_client_cut:
  "cut_frames ws_verdict [0x82, 0x85, 1, 2, 3, 4, 1, 2, 3, 1, 8, 0x82, 0x84, 7, 7, 7, 7, 7, 7, 7, 3, 0x82]
    = ([[0x82, 0x85, 1, 2, 3, 4, 1, 2, 3, 1, 8], [0x82, 0x84, 7, 7, 7, 7, 7, 7, 7, 3]], [0x82], True)"
proof -
  let ?a = "[0x82, 0x85, 1, 2, 3, 4, 1, 2, 3, 1, 8, 0x82, 0x84, 7, 7, 7, 7, 7, 7, 7, 3, 0x82] :: byte list"
  let ?b = "[0x82, 0x84, 7, 7, 7, 7, 7, 7, 7, 3, 0x82] :: byte list"
  have v: "ws_verdict ?a = V_take 11" "ws_verdict ?b = V_take 10" "ws_verdict [0x82] = V_wait"
    by (simp_all add: ws_verdict_def ws_payload_def mask_bytes_def of_be32_def of_le32_def drop_bit_eq_div)
  show ?thesis
    using cut_take [of ws_verdict ?a 11, OF v(1)] cut_take [of ws_verdict ?b 10, OF v(2)] cut_wait [of ws_verdict "[0x82]", OF v(3)]
    by simp
qed

lemma ws_stream_witness:
  "\<exists>s' p' m1 m2. ws_recv_client sha1_fresh 3 [] 7 a_ws_client wide_pipe = Some (Ret (False, s', p')) \<and> pipe_rep p' [m1, m2]
     \<and> drop 48 m1 = [0, 0, 0, 5, 9] \<and> drop 48 m2 = [0, 0, 0, 4] \<and> rd32 8 m2 = 7 \<and> ws_holds s' [0x82]"
proof -
  have "\<exists>s' p' msgs. ws_recv_client sha1_fresh 3 [] 7 a_ws_client wide_pipe = Some (Ret (False, s', p')) \<and> pipe_rep p' ([] @ msgs)
    \<and> list_all2 (ws_carries 7 a_ws_client) [[0x82, 0x85, 1, 2, 3, 4, 1, 2, 3, 1, 8], [0x82, 0x84, 7, 7, 7, 7, 7, 7, 7, 3]] msgs \<and> ws_holds s' [0x82]"
    by (rule ws_stream [where segs = "[[0x82, 0x85, 1, 2, 3], [4, 1, 2, 3, 1, 8, 0x82, 0x84, 7, 7, 7, 7, 7, 7], [7, 3, 0x82]]"])
       (simp_all add: wide_pipe a_ws_client_def ws_socket0_def ws_holds_def a_ws_client_cut ws_room_def)
  moreover have "ws_payload [0x82, 0x85, 1, 2, 3, 4, 1, 2, 3, 1, 8] = [0, 0, 0, 5, 9]" "ws_payload [0x82, 0x84, 7, 7, 7, 7, 7, 7, 7, 3] = [0, 0, 0, 4]"
    by (simp_all add: ws_payload_def mask_bytes_def)
  ultimately show ?thesis by (auto simp: list_all2_Cons1 ws_carries_def)
qed

subsection \<open>Frames with a 16-bit length\<close>

lemma len126_be16: "L < 65536 \<Longrightarrow> len126 (be16 L) = 65536 * L"
proof -
  assume "L < 65536"
  then have "L div 256 < 256" by (simp add: less_mult_imp_div_less)
  then have u: "unat (of_nat (L div 256) :: byte) = L div 256" "unat (of_nat L :: byte) = L mod 256" by (simp_all add: unat_of_nat)
  have "L = 256 * (L div 256) + L mod 256" by simp
  then have "65536 * L = 16777216 * (L div 256) + 65536 * (L mod 256)" by linarith
  then show ?thesis using u by (simp add: len126_def be16_def of_be32_def of_le32_def)
qed

definition long_head :: "byte \<Rightarrow> nat \<Rightarrow> byte list" where
  "long_head b L = [b, 0xfe] @ be16 L"

lemma ws_parse_long:
  assumes "3 \<le> L" "L < 65536" "drop_bit 7 b = 1" "take 4 buf = take (length buf) (long_head b L)" "length buf \<le> WS_ROOM"
    and "length h = 48"
  shows "ws_parse beyond pos s (length buf) 0 (h @ buf @ stale) p = WP_done (length buf) 0 (h @ buf @ stale) p"
proof -
  have at: "(h @ buf @ stale) ! (48 + i) = long_head b L ! i" if "i < length buf" "i < 4" for i
  proof -
    have "buf ! i = take 4 buf ! i" using that by simp
    also have "\<dots> = long_head b L ! i" using assms(4) that by simp
    finally show ?thesis using that assms(6) by (simp add: nth_append)
  qed
  consider "length buf \<le> 2" | "length buf = 3" | "4 \<le> length buf" by linarith
  then show ?thesis
  proof cases
    case 3
    have "len126 [(h @ buf @ stale) ! (48 + 2), (h @ buf @ stale) ! (48 + 3)] = len126 (be16 L)"
      using at [of 2] at [of 3] 3 by (simp add: long_head_def be16_def)
    also have "\<dots> = 65536 * L" using assms(2) by (rule len126_be16)
    finally have l: "len126 [(h @ buf @ stale) ! (48 + 2), (h @ buf @ stale) ! (48 + 3)] = 65536 * L" .
    have "0 < length buf" "1 < length buf" using 3 by linarith+
    then have b: "(h @ buf @ stale) ! 48 = b" "(h @ buf @ stale) ! (48 + 1) = 0xfe"
      using at [of 0] at [of 1] by (simp_all add: long_head_def)
    have n: "drop_bit 7 (0xfe :: byte) = 1" "unat (0xfe AND 0x7f :: byte) = 126" by (simp_all add: drop_bit_eq_div)
    have "length buf - (4 + 4) < 65536 * L" using assms(1,5) by linarith
    then show ?thesis using 3 assms(3) n
      by (subst ws_parse.simps) (simp only: Let_def add_0_right b l if_True if_False simp_thms, simp)
  next
    case 2
    have b: "(h @ buf @ stale) ! 48 = b" "(h @ buf @ stale) ! (48 + 1) = 0xfe" using at [of 0] at [of 1] 2 by (simp_all add: long_head_def)
    have n: "drop_bit 7 (0xfe :: byte) = 1" "unat (0xfe AND 0x7f :: byte) = 126" by (simp_all add: drop_bit_eq_div)
    then show ?thesis using 2 assms(3)
      by (subst ws_parse.simps) (simp only: Let_def add_0_right b if_True if_False simp_thms, simp)
  qed (simp add: ws_parse.simps)
qed

lemma keep_all: "length h = 48 \<Longrightarrow> keep_left (length buf) 0 (h @ buf @ stale) = h @ buf @ stale"
  by (simp add: keep_left_def wr_def)

lemma ws_long_frame_loop:
  assumes "3 \<le> L" "L < 65536" "drop_bit 7 b = 1" "take 4 (buf @ concat segs) = take (length (buf @ concat segs)) (long_head b L)"
    and "ws_holds s buf" "ws_hand_shaked s" "ws_in s = map Seg segs" "[] \<notin> set segs"
  shows "\<exists>s'. ws_recv_client stack retry beyond pos s p = Some (Ret (False, s', p))
     \<and> ws_holds s' (take WS_ROOM (buf @ concat segs))"
  using assms(4-)
proof (induction "length (concat segs)" arbitrary: segs s buf rule: less_induct)
  case less
  note pr = less.prems
  have off: "ws_offset s = length buf" using pr(2) by (simp add: ws_holds_def)
  have le: "length buf \<le> WS_ROOM" by (rule ws_holds_mem [OF pr(2)]) simp
  show ?case
  proof (cases "length buf = WS_ROOM \<or> segs = []")
    case True
    then have "ws_recv_client stack retry beyond pos s p = Some (Ret (False, s, p))"
      using pr(4) off by (subst ws_recv_client.simps) auto
    then show ?thesis using True pr(2) le by auto
  next
    case False
    then have ns: "segs \<noteq> []" and room: "length buf < WS_ROOM" using le by auto
    obtain bs segs' where rv: "net_recv (WS_ROOM - length buf) (map Seg segs) = (Seg bs, map Seg segs')"
      "[] \<notin> set segs'" "bs \<noteq> []" "length bs \<le> WS_ROOM - length buf" "concat segs = bs @ concat segs'"
      using net_recv_segs [OF pr(5) ns, of "WS_ROOM - length buf"] room by auto
    let ?s1 = "s\<lparr>ws_in := map Seg segs', ws_mem := wr (48 + ws_offset s) bs (ws_mem s), ws_offset := ws_offset s + length bs\<rparr>"
    have h1: "ws_holds ?s1 (buf @ bs)" using pr(2) rv(4) room by (intro ws_holds_store) simp_all
    obtain h stale where m: "ws_mem ?s1 = h @ (buf @ bs) @ stale" "length h = 48" "length (buf @ bs) + length stale = WS_ROOM"
      by (rule ws_holds_mem [OF h1])
    have t: "take 4 (buf @ bs) = take (length (buf @ bs)) (long_head b L)"
    proof -
      let ?X = "(buf @ bs) @ concat segs'"
      have "take 4 (buf @ bs) = take 4 (take (length (buf @ bs)) ?X)" by simp
      also have "\<dots> = take (length (buf @ bs)) (take 4 ?X)" by (simp only: take_take min.commute)
      also have "take 4 ?X = take (length ?X) (long_head b L)" using pr(1) rv(5) by simp
      also have "take (length (buf @ bs)) (take (length ?X) (long_head b L)) = take (length (buf @ bs)) (long_head b L)"
        by (simp add: min_def)
      finally show ?thesis .
    qed
    let ?s2 = "?s1\<lparr>ws_mem := ws_mem ?s1, ws_offset := length (buf @ bs)\<rparr>"
    have s2: "?s2 = ?s1" using off by simp
    have "length (buf @ bs) \<le> WS_ROOM" using m(3) by linarith
    then have ps: "ws_parse beyond pos ?s1 (length (buf @ bs)) 0 (h @ (buf @ bs) @ stale) p = WP_done (length (buf @ bs)) 0 (h @ (buf @ bs) @ stale) p"
      using assms(1-3) t m(2) by (intro ws_parse_long)
    have keep: "keep_left (length (buf @ bs)) 0 (h @ (buf @ bs) @ stale) = ws_mem ?s1"
      unfolding m(1) using m(2) by (rule keep_all)
    have "ws_offset ?s1 = length (buf @ bs)" "ws_offset s \<noteq> WS_ROOM" using off room by simp_all
    then have step: "ws_recv_client stack retry beyond pos s p = ws_recv_client stack retry beyond pos ?s2 p"
      using ps keep m(1) pr(3) rv(1) off by (subst ws_recv_client.simps) (simp add: Let_def pr(4))
    have "length (concat segs') < length (concat segs)" using rv(3,5) by simp
    then have "\<exists>s'. ws_recv_client stack retry beyond pos ?s1 p = Some (Ret (False, s', p)) \<and> ws_holds s' (take WS_ROOM ((buf @ bs) @ concat segs'))"
      using pr(1,3) rv(2,5) h1 by (intro less.hyps) simp_all
    then show ?thesis using step s2 rv(5) by simp
  qed
qed

text \<open>A frame with a 16-bit length, the form RFC 6455 has for 126 to 65535 bytes, is never delivered and
  nothing after it: \<open>ntohl\<close> of the two bytes makes 65536 times the length, so whatever the client
  sends is only collected, up to the size of the buffer; the pipe does not change and the connection
  is not closed. Packages of more than 125 bytes cannot be sent by websocket.\<close>

theorem ws_long_frame_stuck:
  assumes "3 \<le> L" "L < 65536" "drop_bit 7 b = 1" "concat segs = long_head b L @ after"
    and "ws_holds s []" "ws_hand_shaked s" "ws_in s = map Seg segs" "[] \<notin> set segs"
  shows "\<exists>s'. ws_recv_client stack retry beyond pos s p = Some (Ret (False, s', p)) \<and> ws_holds s' (take WS_ROOM (concat segs))"
proof -
  have "length (long_head b L) = 4" by (simp add: long_head_def be16_def)
  then show ?thesis using ws_long_frame_loop [where buf = "[]", OF assms(1-3) _ assms(5-8)] assms(4) by simp
qed

lemma ws_long_frame_stuck_witness:
  "\<exists>s'. ws_recv_client sha1_fresh 3 [] 7 (a_ws_client\<lparr>ws_in := [Seg [0x82, 0xfe, 0, 200, 1, 2, 3, 4], Seg (replicate 200 9)]\<rparr>) wide_pipe = Some (Ret (False, s', wide_pipe))
     \<and> ws_holds s' (take WS_ROOM ([0x82, 0xfe, 0, 200, 1, 2, 3, 4] @ replicate 200 9))"
  using ws_long_frame_stuck [of 200 "0x82" "[[0x82, 0xfe, 0, 200, 1, 2, 3, 4], replicate 200 9]" "[1, 2, 3, 4] @ replicate 200 9"
      "a_ws_client\<lparr>ws_in := [Seg [0x82, 0xfe, 0, 200, 1, 2, 3, 4], Seg (replicate 200 9)]\<rparr>" sha1_fresh 3 "[]" 7 wide_pipe]
  by (simp add: long_head_def be16_def a_ws_client_def ws_socket0_def ws_holds_def drop_bit_eq_div)

subsection \<open>A frame that meets a full pipe\<close>

lemma nth_wr_at: "off + length v \<le> length bs \<Longrightarrow> i < length v \<Longrightarrow> wr off v bs ! (off + i) = v ! i"
  by (simp add: wr_def nth_append min_def)

lemma ws_head_byte_42:
  assumes "length h = 48" "length (ws_addr s) \<le> 15"
  shows "ws_put_head pos 0 s h ! 42 = 0"
proof -
  let ?m = "wr 36 (w32 1) (wr 12 (w32 (ws_port s)) (wr 0 (w64 (ws_create_time s)) (wr 8 (w32 (of_nat pos)) h)))"
  have "wr 40 (w32 2) ?m ! (40 + 2) = w32 2 ! 2" using assms by (intro nth_wr_at) simp_all
  then have "wr 40 (w32 2) ?m ! 42 = 0" by (simp add: w32_def le32_def)
  then show ?thesis using assms by (simp add: ws_put_head_def nth_wr)
qed

text \<open>The refused package stays in the buffer, but its first bytes are now the head written for it, so the
  next pass takes byte 42 of the head for the start of a frame and closes the connection, whatever
  room the pipe has by then.\<close>

lemma ws_full_pipe_drops:
  assumes "pipe_rep p q" "sp_size p \<le> used p + 46 + length bs" "ws_verdict bs = V_take (length bs)"
    and "ws_holds s []" "ws_hand_shaked s" "length (ws_addr s) \<le> 15" "ws_in s = [Seg bs]"
  shows "\<exists>s'. ws_recv_client stack retry beyond pos s p = Some (Ret (False, s', p)) \<and> ws_holds s' (take (length bs) (drop 48 (ws_mem s')))
     \<and> (\<forall>cs p2. cs \<noteq> [] \<and> length bs + length cs \<le> WS_ROOM \<longrightarrow>
          (\<exists>s2. ws_recv_client stack retry beyond pos (s'\<lparr>ws_in := [Seg cs]\<rparr>) p2 = Some (Ret (True, s2, p2))))"
proof -
  obtain len where len: "length bs = 6 + len" "len < 126" by (rule ws_verdict_take [OF assms(3)]) simp
  then have lb: "length bs < WS_ROOM" "bs \<noteq> []" by auto
  have off: "ws_offset s = 0" using assms(4) by (simp add: ws_holds_def)
  let ?s1 = "s\<lparr>ws_in := [], ws_mem := wr (48 + ws_offset s) bs (ws_mem s), ws_offset := ws_offset s + length bs\<rparr>"
  have h1: "ws_holds ?s1 ([] @ bs)" using assms(4) lb by (intro ws_holds_store) simp_all
  obtain pre stale where m: "ws_mem ?s1 = pre @ bs @ stale" "length pre = 48" "length bs + length stale = WS_ROOM"
    by (rule ws_holds_mem [OF h1]) simp
  let ?h = "ws_head_of pos 0 s pre bs" and ?msg = "ws_payload (take (length bs) bs)"
  have hl: "length ?h = 48" using m(2) len assms(6) by (simp add: length_ws_head_of)
  have pl: "length ?msg = len" using len by (simp add: ws_payload_def)
  have full: "\<not> fits_pipe (?h @ ?msg) p" using assms(2) hl pl len by (simp add: fits_pipe_def)
  have rej: "AppendOneData (?h @ ?msg) p = Some (False, p)" by (rule shm.put_refuse [OF assms(1) full])
  have ha: "ws_head_of pos 0 ?s1 pre bs = ?h" by (simp add: ws_head_of_def ws_put_head_def)
  let ?mem = "(take 6 pre @ ?h @ ?msg) @ stale"
  have ps: "ws_parse beyond pos ?s1 (length bs) 0 (pre @ bs @ stale) p = WP_done (length bs) 0 ?mem p"
    using ws_parse_frame [OF assms(3), of pre 0 ?s1 beyond pos stale p] m(2) assms(6) ha rej by simp
  define mem where "mem = keep_left (length bs) 0 ?mem"
  let ?s2 = "?s1\<lparr>ws_mem := mem, ws_offset := length bs\<rparr>"
  define front where "front = drop 48 (take 6 pre @ ?h @ ?msg)"
  have front: "length front = length bs" using m(2) hl pl len by (simp add: front_def)
  have mem: "mem = take 48 (take 6 pre @ ?h @ ?msg) @ front @ stale"
    using m(2) hl pl len by (simp add: mem_def keep_left_def wr_def front_def)
  have lm: "length mem = 48 + WS_ROOM" using m(2,3) hl pl len front by (simp add: mem)
  have "front ! 0 = (take 6 pre @ ?h @ ?msg) ! (48 + 0)" unfolding front_def using m(2) hl by (intro nth_drop) simp
  also have "(take 6 pre @ ?h @ ?msg) ! (48 + 0) = ?h ! 42" using m(2) hl by (simp add: nth_append)
  also have "\<dots> = 0" using m(2) assms(6) len by (simp add: ws_head_of_def ws_head_byte_42)
  finally have zero: "front ! 0 = 0" .
  have h2: "ws_holds ?s2 front" using lm front m(2) hl pl len by (simp add: ws_holds_def mem)
  have "ws_recv_client stack retry beyond pos s p = ws_recv_client stack retry beyond pos ?s2 p"
    using ps m(1) off lb assms(5) by (subst ws_recv_client.simps) (simp add: Let_def assms(7) mem_def)
  also have "\<dots> = Some (Ret (False, ?s2, p))" using lb by (subst ws_recv_client.simps) simp
  finally have fst: "ws_recv_client stack retry beyond pos s p = Some (Ret (False, ?s2, p))" .
  have "ws_recv_client stack retry beyond pos (?s2\<lparr>ws_in := [Seg cs]\<rparr>) p2
      = Some (Ret (True, ?s2\<lparr>ws_mem := wr (48 + length bs) cs mem, ws_offset := length bs + length cs\<rparr>, p2))"
    if "cs \<noteq> []" "length bs + length cs \<le> WS_ROOM" for cs p2
  proof -
    have "wr (48 + length bs) cs mem ! 48 = mem ! 48" using that lm lb by (intro nth_wr) simp_all
    also have "\<dots> = 0" using zero front lb m(2) hl by (simp add: mem nth_append)
    finally have z: "wr (48 + length bs) cs mem ! 48 = 0" .
    have "2 < length bs + length cs" using len by simp
    then have "ws_parse beyond pos t (length bs + length cs) 0 (wr (48 + length bs) cs mem) p2 = WP_release (wr (48 + length bs) cs mem) p2" for t
      using z by (subst ws_parse.simps) simp
    moreover have "length cs \<le> WS_ROOM - length bs" using that by simp
    ultimately show ?thesis using that lb assms(5) by (subst ws_recv_client.simps) (simp add: Let_def)
  qed
  moreover have "take (length bs) (drop 48 mem) = front" using front m(2) hl pl len by (simp add: mem)
  ultimately show ?thesis using fst h2 by (intro exI [of _ ?s2]) auto
qed

subsection \<open>The handshake\<close>

text \<open>A string of the request: the first occurrence, before any zero byte.\<close>

definition first_at :: "byte list \<Rightarrow> byte list \<Rightarrow> nat \<Rightarrow> bool" where
  "first_at needle hay i \<longleftrightarrow> i < length hay \<and> take (length needle) (drop i hay) = needle
     \<and> (\<forall>j<i. take (length needle) (drop j hay) \<noteq> needle \<and> hay ! j \<noteq> 0)"

lemma c_strstr_first: "first_at needle hay i \<Longrightarrow> c_strstr needle hay = Ret (Some i)"
proof (induction hay arbitrary: i)
  case (Cons b bs)
  show ?case
  proof (cases i)
    case 0
    then show ?thesis using Cons.prems by (simp add: first_at_def)
  next
    case (Suc k)
    have "take (length needle) (b # bs) \<noteq> needle" "b \<noteq> 0" using Cons.prems Suc by (force simp: first_at_def)+
    moreover have "first_at needle bs k" using Cons.prems Suc unfolding first_at_def by force
    ultimately show ?thesis using Cons.IH [of k] Suc by simp
  qed
qed (simp add: first_at_def)

lemma first_c_strstr: "c_strstr needle hay = Ret (Some i) \<Longrightarrow> first_at needle hay i"
proof (induction needle hay arbitrary: i rule: c_strstr.induct)
  case (2 needle b bs)
  show ?case
  proof (cases "take (length needle) (b # bs) = needle")
    case True
    then show ?thesis using "2.prems" by (simp add: first_at_def)
  next
    case False
    then obtain k where k: "b \<noteq> 0" "c_strstr needle bs = Ret (Some k)" "i = Suc k"
      using "2.prems" by (auto split: if_splits outcome.splits)
    from "2.IH" [OF False k(1,2)] show ?thesis using False k(1,3) by (auto simp: first_at_def less_Suc_eq_0_disj)
  qed
qed simp

lemma first_at_append: "first_at needle hay i \<Longrightarrow> first_at needle (hay @ more_bytes) i"
proof -
  assume f: "first_at needle hay i"
  have l: "length needle \<le> length hay - i" using f unfolding first_at_def by (metis length_drop length_take min.cobounded1)
  have "take (length needle) (drop j (hay @ more_bytes)) = take (length needle) (drop j hay)" if "j \<le> i" for j
    using that l f by (simp add: first_at_def)
  note t = this
  have nth: "(hay @ more_bytes) ! j = hay ! j" if "j \<le> i" for j using that f by (simp add: first_at_def nth_append)
  show ?thesis unfolding first_at_def
  proof (intro conjI allI impI)
    fix j assume "j < i"
    then show "take (length needle) (drop j (hay @ more_bytes)) \<noteq> needle" "(hay @ more_bytes) ! j \<noteq> 0"
      using t [of j] nth [of j] f by (simp_all only: less_imp_le first_at_def simp_thms)
  next
    show "i < length (hay @ more_bytes)" using f by (simp add: first_at_def)
    show "take (length needle) (drop i (hay @ more_bytes)) = needle" using t [of i] f by (simp only: first_at_def order_refl)
  qed
qed

text \<open>A request the server answers, with the place of the key.\<close>

definition upgrade_request :: "byte list \<Rightarrow> byte list \<Rightarrow> bool" where
  "upgrade_request req key \<longleftrightarrow> take 3 req = ascii ''GET'' \<and> (\<exists>i. first_at (CRLF @ CRLF) req i)
     \<and> (\<exists>i. first_at (ascii ''Upgrade: websocket'') req i)
     \<and> (\<exists>i. first_at (ascii ''Sec-WebSocket-Key: '') req i \<and> i + 43 \<le> length req \<and> take 24 (drop (i + 19) req) = key)"

lemma check_request_reply:
  assumes "upgrade_request req key" "3 \<le> n"
  shows "check_request (req @ behind_it) n = Ret (SH_reply key)"
proof -
  obtain i j k where at: "first_at (CRLF @ CRLF) req i" "first_at (ascii ''Upgrade: websocket'') req j"
    "first_at (ascii ''Sec-WebSocket-Key: '') req k" "k + 43 \<le> length req" "take 24 (drop (k + 19) req) = key"
    using assms(1) by (auto simp: upgrade_request_def)
  have "take 3 (req @ behind_it) = ascii ''GET''" using assms(1) at(4) by (simp add: upgrade_request_def)
  moreover have "take 24 (drop (k + 19) (req @ behind_it)) = key" using at(4,5) by simp
  ultimately show ?thesis
    using assms(2) at(4) at(1-3) [THEN first_at_append, of behind_it, THEN c_strstr_first]
    by (simp add: check_request_def)
qed

definition digest_bytes :: "regs \<Rightarrow> byte list" where
  "digest_bytes r = (case r of (h0, h1, h2, h3, h4) \<Rightarrow> concat (map (\<lambda>h. be32 (unat h)) [h0, h1, h2, h3, h4]))"

text \<open>The answer of RFC 6455 to a key.\<close>

definition rfc_reply :: "byte list \<Rightarrow> byte list" where
  "rfc_reply key = ascii ''HTTP/1.1 101 Switching Protocols'' @ CRLF @ ascii ''Connection: upgrade'' @ CRLF
     @ ascii ''Sec-WebSocket-Accept: '' @ base64_encode (digest_bytes (fips_sha1 (key @ MAGIC_KEY))) @ CRLF
     @ ascii ''Upgrade: websocket'' @ CRLF @ CRLF"

lemma handshake_reply_rfc:
  assumes "length (s1_Message_Block stack) = 64" "length key = 24" "0 \<notin> set key"
  shows "handshake_reply stack key = rfc_reply key"
proof -
  let ?cs = "key @ MAGIC_KEY"
  have nz: "0 \<notin> set ?cs" "length ?cs < 2 ^ 61" using assms(2,3) by (simp_all add: MAGIC_KEY_def ascii_def)
  have "takeWhile (\<lambda>b. b \<noteq> 0) (xs @ [0]) = takeWhile (\<lambda>b. b \<noteq> 0) xs" for xs :: "byte list" by (induction xs) simp_all
  from this [of ?cs] have "sha1_text (?cs @ [0]) t = sha1_text ?cs t" for t by (simp only: sha1_text_def)
  then have "fst (sha1_Result (sha1_text (key @ MAGIC_KEY @ [0]) (sha1_Reset stack))) = Some (fips_sha1 ?cs)"
    using sha1_text_digest [OF assms(1) nz(2,1)] by simp
  then show ?thesis
    by (simp add: handshake_reply_def accept_key_def rfc_reply_def digest_bytes_def split: prod.splits)
qed

text \<open>The receiving loop over a request in the slot's memory, of which \<open>bs\<close> was just received.\<close>

lemma ws_shake:
  assumes "ws_holds s []" "\<not> ws_hand_shaked s" "ws_in s = [Seg bs]" "3 \<le> length bs" "length bs \<le> WS_ROOM" "ws_out s = []" "0 < retry"
    and "wr 48 bs (ws_mem s) = h @ req @ behind_it" "length h = 48"
    and "upgrade_request req key" "0 \<notin> set key" "length (s1_Message_Block stack) = 64"
  shows "\<exists>s'. ws_recv_client stack retry beyond pos s p = Some (Ret (False, s', p)) \<and> ws_hand_shaked s' \<and> ws_holds s' []
     \<and> ws_sent s' = ws_sent s @ rfc_reply key"
proof -
  have off: "ws_offset s = 0" "length (ws_mem s) = 48 + WS_ROOM" using assms(1) by (simp_all add: ws_holds_def)
  have lm: "length (wr 48 bs (ws_mem s)) = 48 + WS_ROOM" using off assms(5) by simp
  have lk: "length key = 24" using assms(10) by (auto simp: upgrade_request_def)
  have ne: "bs \<noteq> []" using assms(4) by auto
  have c: "check_request (drop 48 (wr 48 bs (ws_mem s)) @ beyond) (length bs) = Ret (SH_reply key)"
    unfolding assms(8) using check_request_reply [OF assms(10,4), of "behind_it @ beyond"] assms(9) by simp
  obtain n where n: "retry = Suc n" using assms(7) by (cases retry) auto
  have rr: "handshake_reply stack key = rfc_reply key" by (rule handshake_reply_rfc [OF assms(12) lk assms(11)])
  let ?s = "s\<lparr>ws_in := [], ws_mem := wr 48 bs (ws_mem s), ws_offset := 0, ws_out := [], ws_sent := ws_sent s @ rfc_reply key, ws_hand_shaked := True\<rparr>"
  have "ws_recv_client stack retry beyond pos s p = Some (Ret (False, ?s, p))"
    using c ne assms(2,5) off(1) rr
    by (subst ws_recv_client.simps) (simp add: Let_def assms(3,6) n net_send_def)
  moreover have "ws_holds ?s []" using lm by (simp add: ws_holds_def)
  ultimately show ?thesis by (intro exI [of _ ?s]) simp
qed

text \<open>Property C23. A websocket request in which the end of the head, the upgrade and the key are found is answered once,
  with the reply of RFC 6455: the base64 text of the SHA-1 digest (FIPS 180-1) of the key followed by
  the protocol's GUID. The connection counts as shaken hands and the bytes of the request are gone. The request comes in one segment
  that fits the receive buffer, and the reply is taken whole.\<close>

theorem ws_handshake:
  assumes "ws_holds s []" "\<not> ws_hand_shaked s" "ws_in s = [Seg req]" "length req \<le> WS_ROOM" "ws_out s = []" "0 < retry"
    and "upgrade_request req key" "0 \<notin> set key" "length (s1_Message_Block stack) = 64"
  shows "\<exists>s'. ws_recv_client stack retry beyond pos s p = Some (Ret (False, s', p)) \<and> ws_hand_shaked s' \<and> ws_holds s' []
     \<and> ws_sent s' = ws_sent s @ rfc_reply key"
proof -
  have l3: "3 \<le> length req" using assms(7) by (auto simp: upgrade_request_def)
  have "length (ws_mem s) = 48 + WS_ROOM" using assms(1) by (simp add: ws_holds_def)
  then have l: "length (take 48 (ws_mem s)) = 48" by simp
  have "wr 48 req (ws_mem s) = take 48 (ws_mem s) @ req @ drop (48 + length req) (ws_mem s)" by (simp add: wr_def)
  from ws_shake [OF assms(1-3) l3 assms(4-6) this l assms(7-9)] show ?thesis .
qed

text \<open>The request of RFC 6455's example, as short as the server lets it be.\<close>

definition a_request :: "byte list" where
  "a_request = ascii ''GET / HTTP/1.1'' @ CRLF @ ascii ''Upgrade: websocket'' @ CRLF
     @ ascii ''Sec-WebSocket-Key: dGhlIHNhbXBsZSBub25jZQ=='' @ CRLF @ CRLF"

lemma a_request_ok: "upgrade_request a_request (ascii ''dGhlIHNhbXBsZSBub25jZQ=='')"
proof -
  have "first_at (CRLF @ CRLF) a_request 79" "first_at (ascii ''Upgrade: websocket'') a_request 16"
    "first_at (ascii ''Sec-WebSocket-Key: '') a_request 36"
    by (rule first_c_strstr, simp add: a_request_def ascii_def CRLF_def)+
  moreover have "length a_request = 83" "take 3 a_request = ascii ''GET''"
    "take 24 (drop 55 a_request) = ascii ''dGhlIHNhbXBsZSBub25jZQ==''"
    by (simp_all add: a_request_def ascii_def CRLF_def)
  ultimately show ?thesis unfolding upgrade_request_def
    by (intro conjI exI [of _ 79] exI [of _ 16] exI [of _ 36]) simp_all
qed

definition a_ws_guest :: ws_socket where
  "a_ws_guest = a_ws_client\<lparr>ws_hand_shaked := False, ws_in := [Seg a_request]\<rparr>"

lemma ws_handshake_witness:
  "\<exists>s'. ws_recv_client sha1_fresh 3 [] 7 a_ws_guest wide_pipe = Some (Ret (False, s', wide_pipe)) \<and> ws_hand_shaked s' \<and> ws_holds s' []
     \<and> ws_sent s' = rfc_reply (ascii ''dGhlIHNhbXBsZSBub25jZQ=='')"
proof -
  have "length a_request = 83" by (simp add: a_request_def ascii_def CRLF_def)
  moreover have "0 \<notin> set (ascii ''dGhlIHNhbXBsZSBub25jZQ=='')" by (simp add: ascii_def)
  ultimately show ?thesis
    using ws_handshake [of a_ws_guest a_request 3 "ascii ''dGhlIHNhbXBsZSBub25jZQ==''" sha1_fresh "[]" 7 wide_pipe] a_request_ok
    by (simp add: a_ws_guest_def a_ws_client_def ws_socket0_def ws_holds_def sha1_fresh_def)
qed

text \<open>The memory of a slot outlives its connection and the strings are looked for beyond the received
  bytes: a client that sends "GET" and nothing else is taken for shaken hands when an earlier
  client's request is still there behind it, and is answered that client's key.\<close>

lemma ws_stale_handshake:
  assumes "ws_holds s []" "\<not> ws_hand_shaked s" "ws_in s = [Seg (ascii ''GET'')]" "ws_out s = []" "0 < retry"
    and "ws_mem s = h @ old @ behind_it" "length h = 48" "upgrade_request old key" "0 \<notin> set key" "length (s1_Message_Block stack) = 64"
  shows "\<exists>s'. ws_recv_client stack retry beyond pos s p = Some (Ret (False, s', p)) \<and> ws_hand_shaked s'
     \<and> ws_sent s' = ws_sent s @ rfc_reply key"
proof -
  have l: "length (ascii ''GET'') = 3" by (simp add: ascii_def)
  have t: "take 3 old = ascii ''GET''" "3 \<le> length old" using assms(8) by (auto simp: upgrade_request_def)
  have "wr 48 (ascii ''GET'') (ws_mem s) = h @ ascii ''GET'' @ drop 3 old @ behind_it"
    using assms(6,7) l t(2) by (simp add: wr_def)
  also have "\<dots> = h @ old @ behind_it" using t(1) by (metis append_assoc append_take_drop_id)
  finally have m: "wr 48 (ascii ''GET'') (ws_mem s) = h @ old @ behind_it" .
  have "3 \<le> length (ascii ''GET'')" "length (ascii ''GET'') \<le> WS_ROOM" using l by simp_all
  from ws_shake [OF assms(1-3) this assms(4,5) m assms(7-10)] show ?thesis by blast
qed

subsection \<open>What the server sends\<close>

text \<open>A client's reader of unmasked frames (RFC 6455, 5.2): the payload of a binary frame and what follows
  it. The 64-bit form of the length does not occur.\<close>

definition rfc_read :: "byte list \<Rightarrow> (byte list \<times> byte list) option" where
  "rfc_read bs =
     (if length bs < 2 \<or> bs ! 0 \<noteq> 0x82 then None
      else
        let len7 = unat (bs ! 1) in
        if len7 \<le> 125 then (if length bs < 2 + len7 then None else Some (take len7 (drop 2 bs), drop (2 + len7) bs))
        else if len7 = 126 then
          (if length bs < 4 then None
           else let len = 256 * unat (bs ! 2) + unat (bs ! 3) in
             if length bs < 4 + len then None else Some (take len (drop 4 bs), drop (4 + len) bs))
        else None)"

lemma wrap_read:
  assumes "length msg < 65536"
  shows "rfc_read (WrapWebsocketHead msg @ after) = Some (msg, after)"
proof (cases "length msg \<le> 125")
  case True
  then have "unat (of_nat (length msg) :: byte) = length msg" by (simp add: unat_of_nat)
  then show ?thesis using True by (simp add: WrapWebsocketHead_def rfc_read_def)
next
  case False
  have "length msg div 256 < 256" using assms by (simp add: less_mult_imp_div_less)
  then have "256 * unat (of_nat (length msg div 256) :: byte) + unat (of_nat (length msg) :: byte) = length msg"
    by (simp add: unat_of_nat)
  moreover have four: "4 + length msg = Suc (Suc (Suc (Suc (length msg))))" by simp
  ultimately show ?thesis using False by (simp add: WrapWebsocketHead_def rfc_read_def be16_def Let_def four)
qed

fun rfc_read_all :: "nat \<Rightarrow> byte list \<Rightarrow> byte list list option" where
  "rfc_read_all 0 bs = (if bs = [] then Some [] else None)"
| "rfc_read_all (Suc n) bs = (case rfc_read bs of
     None \<Rightarrow> None
   | Some (msg, bs') \<Rightarrow> map_option (\<lambda>ms. msg # ms) (rfc_read_all n bs'))"



text \<open>A message of exactly 65536 bytes, which the protocol admits, goes out under the length 0.\<close>

lemma wrap_longest: "length msg = 65536 \<Longrightarrow> rfc_read (WrapWebsocketHead msg) = Some ([], msg)"
  by (simp add: WrapWebsocketHead_def rfc_read_def be16_def)

end
