(* ===== verification/MachineServer.thy ===== *)
theory MachineServer
  imports GameShell LipstickProps
begin

text \<open>
  svr/machinesvr: the server the arcade machines log in to first. It knows which machines are on
  and tells each the address of its game server; the database remembers the server a machine is
  on. The handlers work on the same world as those of the game server, of which only the machines
  are used here. \<open>addrs\<close> is the table of config/game_addr.cfg.
\<close>

type_synonym mstep = "lip_env \<Rightarrow> session \<Rightarrow> lip_world \<Rightarrow> (hresult \<times> session \<times> lip_world) option"

subsection \<open>message.cpp: logins and logouts\<close>

definition mach_LogoutMachine :: "lip_env \<Rightarrow> u64 \<Rightarrow> bool \<Rightarrow> u32 \<Rightarrow> bool \<Rightarrow> lip_world \<Rightarrow> lip_world" where
  "mach_LogoutMachine env uid notify_cli reason clear_db w = (case get_machine uid w of
     None \<Rightarrow> w
   | Some m \<Rightarrow>
       (let w1 = (if notify_cli then w_client env (m_head env m) (CsNotifyLogout reason) True w else w);
            w2 = (if clear_db then w_internal env (InLogout (ma_machine_id m)) w1 else w1)
        in w2\<lparr>w_machines := snd (ReleaseMachine (ma_machine_id m) (w_machines w2))\<rparr>))"

text \<open>The heart beat of a machine that logs in is not set.\<close>

definition mach_OnMachineLogin :: "lip_env \<Rightarrow> connect_head \<Rightarrow> pb_cs_msg \<Rightarrow> lip_world \<Rightarrow> bool \<times> lip_world" where
  "mach_OnMachineLogin env head msg w =
     (let machine_id = cs_uid msg;
          token = (case cs_body msg of Some (CsReqMLogin t) \<Rightarrow> t | _ \<Rightarrow> []);
          refuse = (\<lambda>result. refuse_login env head result (CsRspMLogin \<lparr>ml_use_heart_beat = False, ml_heart_beat_interval = 0,
            ml_game_type = 0, ml_game_host = [], ml_game_port = 0\<rparr>));
          old = get_machine machine_id w
      in if \<not> token_ok env token machine_id then refuse EN_Result_Auth_Failed w
         else if (case old of None \<Rightarrow> False | Some m \<Rightarrow> same_connection (m_head env m) head) then (True, w)
         else
           let w1 = (if old = None then w else mach_LogoutMachine env machine_id True EN_Logout_Multi_Login False w);
               (ok, w2) = emit env (NotifyLogicIndex head machine_id) w1
           in if \<not> ok then refuse EN_Result_Sys_Err w2
              else
                let (created, mm) = CreateMachine machine_id (w_machines w2); w3 = w2\<lparr>w_machines := mm\<rparr>
                in if \<not> created then refuse EN_Result_Server_Full w3
                   else (True, upd_machine machine_id (\<lambda>m. m\<lparr>ma_connect_head := Some head\<rparr>) w3))"

definition mach_OnLoginCheck :: "lip_env \<Rightarrow> connect_head \<Rightarrow> pb_cs_msg \<Rightarrow> lip_world \<Rightarrow> bool \<times> lip_world" where
  "mach_OnLoginCheck env head msg w =
     (let reject = (False, SendCommonErr env head EN_Result_Not_Login w)
      in case get_machine (cs_uid msg) w of
           None \<Rightarrow> reject
         | Some m \<Rightarrow> if \<not> same_connection head (m_head env m) then reject else (True, w))"

definition mach_MessageFilter :: "lip_env \<Rightarrow> connect_head \<Rightarrow> byte list \<Rightarrow> lip_world \<Rightarrow> pb_cs_msg option \<times> lip_world" where
  "mach_MessageFilter env head buf w = (case le_parse_cs env buf of
     None \<Rightarrow> (None, SendCommonErr env head EN_Result_Invalid_Msg w)
   | Some msg \<Rightarrow>
       (let (ok, w1) = (case cs_body msg of
              Some (CsReqMLogin _) \<Rightarrow> mach_OnMachineLogin env head msg w
            | _ \<Rightarrow> mach_OnLoginCheck env head msg w)
        in (if ok then Some msg else None, w1)))"

subsection \<open>The handlers\<close>

definition mach_HeartBeat_OnMessage :: mstep where
  "mach_HeartBeat_OnMessage env s w = do {
     (r, s1, w1) \<leftarrow> reply env (rsp (\<lambda>_. CsRspHeartBeat (GetTime (me_now env))) s) w;
     Some (r, s1, case get_machine (s_uid s) w1 of None \<Rightarrow> w1 | Some _ \<Rightarrow> upd_machine (s_uid s) (m_beat env) w1) }"

definition mach_MLogin_OnMessage :: mstep where
  "mach_MLogin_OnMessage env s w = Some (H_Query, AddQueryKey (s_uid s) kMBaseInfo s, w)"

definition mach_MLogin_OnQuerySuccess :: mstep where
  "mach_MLogin_OnQuerySuccess env s w = do {
     s1 \<leftarrow> set_cur_data (mut_m_base_info (\<lambda>b. b\<lparr>mb_machinesvr_id := Some (me_svr_id env)\<rparr>)) s;
     Some (H_Save, s1, w) }"

text \<open>The address: one host of the game's entry, chosen by the machine's id. A missing host or port is an
  access out of range.\<close>

definition game_host :: "game_addr list \<Rightarrow> pb_db_data \<Rightarrow> (string \<times> u32) option option" where
  "game_host addrs d = (case GetAddrByType (get0 (mb_game_type (m_base_info d))) addrs of
     None \<Rightarrow> Some None
   | Some a \<Rightarrow>
       (let n = length (gd_hosts a); i = unat (get0 (d_uid d)) mod n
        in if n = 0 \<or> i \<ge> length (gd_hosts a) \<or> i \<ge> length (gd_ports a) then None else Some (Some (gd_hosts a ! i, gd_ports a ! i))))"

definition mach_MLogin_OnSaveSuccess :: "game_addr list \<Rightarrow> mstep" where
  "mach_MLogin_OnSaveSuccess addrs env s w = do {
     d \<leftarrow> cur_data s;
     addr \<leftarrow> game_host addrs d;
     let r = \<lparr>ml_use_heart_beat = le_use_heart_beat env, ml_heart_beat_interval = le_heart_beat_interval env,
              ml_game_type = get0 (mb_game_type (m_base_info d)),
              ml_game_host = (case addr of None \<Rightarrow> [] | Some (h, _) \<Rightarrow> h), ml_game_port = (case addr of None \<Rightarrow> 0 | Some (_, p) \<Rightarrow> p)\<rparr>;
     reply env (rsp (\<lambda>_. CsRspMLogin r) s) w }"

text \<open>The three notifications that are passed on to the machine.\<close>

definition tell_machine :: "u64 \<Rightarrow> cs_body \<Rightarrow> mstep" where
  "tell_machine uid body env s w = (case get_machine uid w of
     None \<Rightarrow> Some (H_Done, s, w)
   | Some m \<Rightarrow> (let (s1, w1) = notify_machine env m (rsp (\<lambda>_. body) s) w in Some (H_Done, s1, w1)))"

definition mach_UpdateMachine_OnMessage :: mstep where
  "mach_UpdateMachine_OnMessage env s w =
     tell_machine (case ss_body (se_ss_msg s) of Some (SsNotifyUpdateMachine u) \<Rightarrow> u | _ \<Rightarrow> 0) CsNotifyUpdateMachine env s w"

definition mach_DeleteMachine_OnMessage :: mstep where
  "mach_DeleteMachine_OnMessage env s w =
     tell_machine (case ss_body (se_ss_msg s) of Some (WebNotifyDeleteMachine u) \<Rightarrow> u | _ \<Rightarrow> 0) CsNotifyDeleteMachine env s w"

definition mach_RestartMachine_OnMessage :: mstep where
  "mach_RestartMachine_OnMessage env s w =
     tell_machine (case ss_body (se_ss_msg s) of Some (WebNotifyRestartMachine u) \<Rightarrow> u | _ \<Rightarrow> 0) CsNotifyRestartMachine env s w"

definition mach_Logout_OnMessage :: mstep where
  "mach_Logout_OnMessage env s w =
     Some (H_Query, AddQueryKey (case se_inter_msg s of Some (InLogout u) \<Rightarrow> u | _ \<Rightarrow> 0) kMBaseInfo s, w)"

definition mach_Logout_OnQuerySuccess :: mstep where
  "mach_Logout_OnQuerySuccess env s w = do {
     s1 \<leftarrow> set_cur_data (mut_m_base_info (\<lambda>b. b\<lparr>mb_machinesvr_id := None\<rparr>)) s;
     Some (H_Save, s1, w) }"

definition mach_Logout_OnSaveSuccess :: mstep where
  "mach_Logout_OnSaveSuccess env s w = Some (H_Done, s, w)"

definition mach_handlers :: "game_addr list \<Rightarrow> lip_env \<Rightarrow> u32 \<Rightarrow> lip_world handler option" where
  "mach_handlers addrs env msg_id = map_of
     [(1000, (lip_base env)\<lparr>h_OnMessage := mach_HeartBeat_OnMessage env\<rparr>),
      (1010, full_handler env mach_MLogin_OnMessage mach_MLogin_OnQuerySuccess (mach_MLogin_OnSaveSuccess addrs)),
      (11001, (lip_base env)\<lparr>h_OnMessage := mach_UpdateMachine_OnMessage env\<rparr>),
      (10030, (lip_base env)\<lparr>h_OnMessage := mach_DeleteMachine_OnMessage env\<rparr>),
      (10031, (lip_base env)\<lparr>h_OnMessage := mach_RestartMachine_OnMessage env\<rparr>),
      (20000, full_handler env mach_Logout_OnMessage mach_Logout_OnQuerySuccess mach_Logout_OnSaveSuccess)] msg_id"

definition mach_Process :: "game_addr list \<Rightarrow> lip_env \<Rightarrow> lip_world proc" where
  "mach_Process addrs env = manager_Process env (mach_handlers addrs env)"

subsection \<open>GameServer\<close>

record mach_server = "lip_world shell" +
  mv_heart_check :: u32

definition mach_OnClientMessage :: "game_addr list \<Rightarrow> lip_env \<Rightarrow> connect_head \<Rightarrow> byte list \<Rightarrow> mach_server \<Rightarrow> mach_server outcome option" where
  "mach_OnClientMessage addrs env head buf gs = (case mach_MessageFilter env head buf (sh_world gs) of
     (None, w) \<Rightarrow> Some (Ret (gs\<lparr>sh_world := w\<rparr>))
   | (Some msg, w) \<Rightarrow>
       (case CreateSession (me_now env) (cs_union_case msg) (sh_sessions gs) of
          (None, sm) \<Rightarrow> Some (Ret (gs\<lparr>sh_sessions := sm, sh_world := SendCommonErr env head EN_Result_Sys_Err w\<rparr>))
        | (Some sid, sm) \<Rightarrow> run_session (mach_Process addrs env) sid
            (\<lambda>s. s\<lparr>se_msg_head := MH_connect head, se_cs_msg := msg, se_uid := ucast (cs_uid msg)\<rparr>)
            (gs\<lparr>sh_sessions := sm, sh_world := w\<rparr>)))"

text \<open>The connection that went offline is not compared with the machine's.\<close>

definition mach_OnClientOffline :: "lip_env \<Rightarrow> connect_head \<Rightarrow> u64 \<Rightarrow> mach_server \<Rightarrow> mach_server" where
  "mach_OnClientOffline env head logic_index gs =
     gs\<lparr>sh_world := mach_LogoutMachine env logic_index False EN_Logout_Default True (sh_world gs)\<rparr>"

definition mach_OnServerMessage :: "game_addr list \<Rightarrow> lip_env \<Rightarrow> proxy_head \<Rightarrow> byte list \<Rightarrow> mach_server \<Rightarrow> mach_server outcome option" where
  "mach_OnServerMessage addrs env head buf gs = shell_OnServerMessage env (mach_Process addrs env) head buf gs"

definition mach_OnInternalMessage :: "game_addr list \<Rightarrow> lip_env \<Rightarrow> byte list \<Rightarrow> mach_server \<Rightarrow> mach_server outcome option" where
  "mach_OnInternalMessage addrs env buf gs = shell_OnInternalMessage env (mach_Process addrs env) buf gs"

definition mach_check :: "lip_env \<Rightarrow> mach_server \<Rightarrow> mach_server" where
  "mach_check env gs =
     (if mv_heart_check gs + le_heart_beat_interval env \<le> GetTime (me_now env) then
        (let w = sh_world gs;
             ids = map ma_machine_id (filter (\<lambda>m. beat_lost env (ma_heart_beat_time m)) (om_iter (le_ord env) (kp_om (w_machines w))))
         in gs\<lparr>mv_heart_check := GetTime (me_now env),
               sh_world := fold (\<lambda>uid. mach_LogoutMachine env uid True EN_Logout_Heart_Beat True) ids w\<rparr>)
      else gs)"

definition mach_OnRoutineCheck :: "lip_env \<Rightarrow> mach_server \<Rightarrow> mach_server" where
  "mach_OnRoutineCheck env gs = mach_check env (shell_sessions env (shell_timers env gs))"

subsection \<open>Start and exit\<close>

record mach_boot = shell_boot +
  bm_machine :: "(machine \<Rightarrow> nat) \<times> (machine \<Rightarrow> byte list \<Rightarrow> nat \<Rightarrow> nat \<Rightarrow> bool \<times> byte list \<times> nat) \<times> (byte list \<Rightarrow> nat \<Rightarrow> nat \<Rightarrow> (machine \<times> nat) option)"
  bm_size :: nat
  bm_key :: u32

definition mach_InitGame :: "lip_env \<Rightarrow> mach_boot \<Rightarrow> lip_world \<Rightarrow> shm_world \<Rightarrow> (int \<times> mach_server option \<times> shm_world) option" where
  "mach_InitGame env b w0 shm = (case init_managers env b shm of
     None \<Rightarrow> None
   | Some (ret, None, shm1) \<Rightarrow> Some (ret, None, shm1)
   | Some (ret, Some (sm, tm), shm1) \<Rightarrow> do {
       (ok3, mm, shm2) \<leftarrow> MachineManager_Init (le_ord env) (snd (snd (bm_machine b))) (sb_rm_ok b) (bm_size b) (bm_key b) shm1;
       if \<not> ok3 then Some (- 3, None, shm2)
       else if \<not> sb_config b then Some (- 11, None, shm2)
       else Some (0, Some \<lparr>sh_sessions = sm, sh_world = w0\<lparr>w_out := [], w_timers := tm, w_machines := mm\<rparr>,
                          sh_timer_check = 0, sh_session_check = 0, mv_heart_check = 0\<rparr>, shm2) })"

definition mach_ExitGame :: "lip_env \<Rightarrow> mach_boot \<Rightarrow> mach_server \<Rightarrow> shm_world \<Rightarrow> shm_world" where
  "mach_ExitGame env b gs shm =
     snd (om_Release (le_ord env) (fst (bm_machine b)) (fst (snd (bm_machine b))) (sb_rm_ok b) (sb_mk_ok b) (kp_om (w_machines (sh_world gs)))
       (release_managers env b (sh_sessions gs) (w_timers (sh_world gs)) shm))"

subsection \<open>Logins\<close>

lemma mach_logout_pool:
  assumes "world_ok w"
  shows "w_machines (mach_LogoutMachine env u n r c w) = snd (ReleaseMachine u (w_machines w))"
    "w_players (mach_LogoutMachine env u n r c w) = w_players w" "w_timers (mach_LogoutMachine env u n r c w) = w_timers w"
proof -
  have "snd (ReleaseMachine u (w_machines w)) = w_machines w" if "get_machine u w = None"
    by (rule machines.release_cases [of "w_machines w" u]) (use that assms in \<open>auto simp: get_machine_def world_ok_def\<close>)
  then show "w_machines (mach_LogoutMachine env u n r c w) = snd (ReleaseMachine u (w_machines w))"
    using get_machine_id [OF assms, of u] by (auto simp: mach_LogoutMachine_def Let_def frame_simps split: option.split)
  show "w_players (mach_LogoutMachine env u n r c w) = w_players w" "w_timers (mach_LogoutMachine env u n r c w) = w_timers w"
    by (simp_all add: mach_LogoutMachine_def Let_def frame_simps split: option.split)
qed

lemma mach_logout:
  assumes "world_ok w"
  shows "get_machine v (mach_LogoutMachine env u n r c w) = (if v = u then None else get_machine v w)"
    "get_player v (mach_LogoutMachine env u n r c w) = get_player v w" "world_ok (mach_LogoutMachine env u n r c w)"
  using machine_pool(3,4) assms by (simp_all add: get_machine_def get_player_def mach_logout_pool [OF assms] world_ok_def)

lemma mach_login_ok:
  assumes "world_ok w"
  shows "world_ok (snd (mach_OnMachineLogin env head msg w))"
proof -
  let ?u = "cs_uid msg"
  let ?w1 = "if get_machine ?u w = None then w else mach_LogoutMachine env ?u True EN_Logout_Multi_Login False w"
  let ?w2 = "snd (emit env (NotifyLogicIndex head ?u) ?w1)"
  let ?w3 = "?w2\<lparr>w_machines := snd (CreateMachine ?u (w_machines ?w2))\<rparr>"
  have r: "world_ok v \<Longrightarrow> world_ok (snd (refuse_login env h e b v))" for h e b v
    using quits_refuse(1) [of v env h e b] by (simp add: quits_def)
  have "world_ok ?w1" using mach_logout(3) [OF assms] assms by simp
  then have w2: "world_ok ?w2" by (simp add: frame_simps)
  then have w3: "world_ok ?w3" using quits_create(1) [of ?w2] by (simp add: quits_def)
  then have "world_ok (upd_machine ?u (\<lambda>m. m\<lparr>ma_connect_head := Some head\<rparr>) ?w3)"
    using quits_upd(1) [of "\<lambda>m. m\<lparr>ma_connect_head := Some head\<rparr>" ?w3] by (simp add: quits_def)
  with w2 w3 assms show ?thesis by (auto simp: mach_OnMachineLogin_def Let_def split_beta r)
qed

lemma mach_login:
  assumes w: "world_ok w" and l: "mach_OnMachineLogin env head msg w = (True, w')"
  shows "token_ok env (case cs_body msg of Some (CsReqMLogin t) \<Rightarrow> t | _ \<Rightarrow> []) (cs_uid msg)"
    "machine_on env (cs_uid msg) head w' \<and> others_same (cs_uid msg) w w'"
    "\<not> machine_on env (cs_uid msg) head w \<Longrightarrow> get_machine (cs_uid msg) w' = Some (machine0\<lparr>ma_machine_id := cs_uid msg, ma_connect_head := Some head\<rparr>)"
proof -
  let ?u = "cs_uid msg"
  let ?wa = "if get_machine ?u w = None then w else mach_LogoutMachine env ?u True EN_Logout_Multi_Login False w"
  show t: "token_ok env (case cs_body msg of Some (CsReqMLogin t) \<Rightarrow> t | _ \<Rightarrow> []) ?u"
    using l by (auto simp: mach_OnMachineLogin_def refuse_login_def Let_def split: if_splits)
  have "machine_on env ?u head w' \<and> others_same ?u w w'
      \<and> (\<not> machine_on env ?u head w \<longrightarrow> get_machine ?u w' = Some (machine0\<lparr>ma_machine_id := ?u, ma_connect_head := Some head\<rparr>))"
  proof (cases "machine_on env ?u head w")
    case True
    then have "w' = w" using l t by (auto simp: mach_OnMachineLogin_def machine_on_def Let_def split: option.splits)
    then show ?thesis using True by (simp add: others_same_def)
  next
    case False
    define wb where "wb = snd (emit env (NotifyLogicIndex head ?u) ?wa)"
    let ?mm = "snd (CreateMachine ?u (w_machines wb))"
    have f: "fst (CreateMachine ?u (w_machines wb))" and w': "w' = upd_machine ?u (\<lambda>m. m\<lparr>ma_connect_head := Some head\<rparr>) (wb\<lparr>w_machines := ?mm\<rparr>)"
      using l t False by (auto simp: wb_def mach_OnMachineLogin_def machine_on_def refuse_login_def Let_def split_beta split: if_splits)
    then have c: "CreateMachine ?u (w_machines wb) = (True, ?mm)" by (cases "CreateMachine ?u (w_machines wb)") auto
    have a: "world_ok ?wa" using mach_logout(3) [OF w] w by simp
    then have b: "world_ok wb" by (simp add: wb_def frame_simps)
    then have k: "kp_inv ma_machine_id (w_machines wb)" by (simp add: world_ok_def)
    have ok: "world_ok (wb\<lparr>w_machines := ?mm\<rparr>)" using quits_ok [OF quits_create(1) b, of ?u] c by simp
    have gb: "get_machine v wb = get_machine v w" if "v \<noteq> ?u" for v
      using that mach_logout(1) [OF w] by (simp add: wb_def frame_simps)
    have g: "get_machine v (wb\<lparr>w_machines := ?mm\<rparr>) = (if v = ?u then Some (machine0\<lparr>ma_machine_id := ?u\<rparr>) else get_machine v w)" for v
      using machine_pool(6) [OF k, of ?u v] f(1) gb [of v] unfolding get_machine_def by simp
    have "get_player v w' = get_player v w" for v
      using mach_logout_pool(2) [OF w] by (simp add: w' wb_def get_player_def frame_simps)
    with ok g show ?thesis by (auto simp: w' machine_on_def others_same_def frame_simps m_head_def)
  qed
  then show "machine_on env (cs_uid msg) head w' \<and> others_same (cs_uid msg) w w'"
    "\<not> machine_on env (cs_uid msg) head w \<Longrightarrow> get_machine (cs_uid msg) w' = Some (machine0\<lparr>ma_machine_id := cs_uid msg, ma_connect_head := Some head\<rparr>)"
    by simp_all
qed

text \<open>Property C40. No message passes to its handler unless its machine is logged in on the very connection it came
  from, a login passes only with a token for the machine that is not a day old, and no other
  machine is touched.\<close>

theorem mach_login_gate:
  assumes "world_ok w" "mach_MessageFilter env head buf w = (Some msg, w')"
  shows "others_same (cs_uid msg) w w' \<and> machine_on env (cs_uid msg) head w' \<and> (case cs_body msg of
      Some (CsReqMLogin t) \<Rightarrow> token_ok env t (cs_uid msg) | _ \<Rightarrow> w' = w)"
proof -
  let ?x = "case cs_body msg of Some (CsReqMLogin _) \<Rightarrow> mach_OnMachineLogin env head msg w | _ \<Rightarrow> mach_OnLoginCheck env head msg w"
  have p: "le_parse_cs env buf = Some msg"
    using assms(2) by (auto simp: mach_MessageFilter_def Let_def split_beta split: option.splits if_splits)
  have x: "?x = (True, w')"
    using assms(2) by (cases ?x) (simp add: mach_MessageFilter_def p Let_def split_beta split: if_splits)
  show ?thesis
  proof (cases "\<exists>t. cs_body msg = Some (CsReqMLogin t)")
    case True
    with x mach_login(1,2) [OF assms(1), of env head msg w'] show ?thesis by auto
  next
    case False
    then have e: "(case cs_body msg of Some (CsReqMLogin t) \<Rightarrow> f t | _ \<Rightarrow> z) = z" for f and z :: 'z
      by (auto split: option.split cs_body.split)
    have "machine_on env (cs_uid msg) head w \<and> w' = w"
      using x [unfolded e] by (auto simp: mach_OnLoginCheck_def machine_on_def same_connection_def Let_def split: option.splits if_splits)
    then show ?thesis by (simp add: e others_same_def)
  qed
qed

definition mach_login7 :: pb_cs_msg where
  "mach_login7 = cs_msg0\<lparr>cs_uid := 7, cs_body := Some (CsReqMLogin ''T'')\<rparr>"

definition mach_env0 :: lip_env where
  "mach_env0 = lip_env0\<lparr>le_parse_cs := \<lambda>bs. if bs = [1] then Some mach_login7 else None\<rparr>"

lemma mach_login_passes:
  "\<exists>w1. mach_OnMachineLogin mach_env0 head7 mach_login7 lip0 = (True, w1) \<and> w_machines w1 = kp_update 7 (\<lambda>m. m\<lparr>ma_connect_head := Some head7\<rparr>) (snd (CreateMachine 7 (w_machines lip0)))"
proof -
  have n: "get_machine 7 lip0 = None"
    by (simp add: get_machine_def GetMachine_def lip0_def world0_def world.defs kp_Get_def)
  have t: "token_ok mach_env0 ''T'' 7" using token7 by (simp add: token_ok_def mach_env0_def)
  have e: "emit mach_env0 (NotifyLogicIndex head7 7) lip0 = (True, lip0\<lparr>w_out := [NotifyLogicIndex head7 7]\<rparr>)"
    by (simp add: emit_def mach_env0_def lip_env0_def msg_env.defs test_env_def lip0_def world.defs world0_def)
  have m: "kp_inv ma_machine_id (w_machines lip0)" "kp_room (w_machines lip0) = 4"
    by (simp_all add: lip0_def world0_def world.defs kp_inv_def kp_room_def)
  obtain mm where c: "CreateMachine 7 (w_machines lip0) = (True, mm)"
    using machines.create_room [OF m(1), of 7] m(2) by auto
  show ?thesis using t by (simp add: mach_OnMachineLogin_def mach_login7_def n e c Let_def cs_msg0_def upd_machine_def)
qed

lemma mach_login_gate_witness:
  "token_ok mach_env0 ''T'' 7 \<and> machine_on mach_env0 7 head7 (snd (mach_MessageFilter mach_env0 head7 [1] lip0))"
proof -
  obtain w1 where l: "mach_OnMachineLogin mach_env0 head7 mach_login7 lip0 = (True, w1)" using mach_login_passes by blast
  then have "mach_MessageFilter mach_env0 head7 [1] lip0 = (Some mach_login7, w1)"
    by (simp add: mach_MessageFilter_def mach_env0_def mach_login7_def cs_msg0_def)
  from mach_login_gate [OF lip0_ok(1) this] this show ?thesis by (simp add: mach_login7_def cs_msg0_def)
qed

subsection \<open>The heart beat\<close>

lemma mach_check_machines:
  assumes "world_ok (sh_world gs)" "mv_heart_check gs + le_heart_beat_interval env \<le> GetTime (me_now env)"
  shows "w_machines (sh_world (mach_check env gs)) = release_each ReleaseMachine
     (map ma_machine_id (filter (\<lambda>m. beat_lost env (ma_heart_beat_time m)) (om_iter (le_ord env) (kp_om (w_machines (sh_world gs))))))
     (w_machines (sh_world gs))"
proof -
  have "world_ok w \<Longrightarrow> w_machines (fold (\<lambda>uid. mach_LogoutMachine env uid True EN_Logout_Heart_Beat True) ids w)
      = release_each ReleaseMachine ids (w_machines w)" for ids w
    by (induction ids arbitrary: w) (simp_all add: release_each_def mach_logout(3) mach_logout_pool(1))
  then show ?thesis using assms by (simp add: mach_check_def Let_def)
qed

text \<open>The routine check logs out exactly the machines from which nothing was heard for two intervals.\<close>

lemma mach_check_get:
  assumes "world_ok (sh_world gs)" "kp_owned ma_machine_id machine0 (w_machines (sh_world gs))" "walk_order (le_ord env)" "uid \<noteq> 0"
    and "mv_heart_check gs + le_heart_beat_interval env \<le> GetTime (me_now env)"
  shows "get_machine uid (sh_world (mach_check env gs)) = (case get_machine uid (sh_world gs) of
      None \<Rightarrow> None
    | Some m \<Rightarrow> if beat_lost env (ma_heart_beat_time m) then None else Some m)"
proof -
  let ?mm = "w_machines (sh_world gs)"
  let ?lost = "filter (\<lambda>m. beat_lost env (ma_heart_beat_time m)) (om_iter (le_ord env) (kp_om ?mm))"
  have k: "kp_inv ma_machine_id ?mm" using assms(1) by (simp add: world_ok_def)
  have "distinct (om_used (kp_om ?mm))" using k by (simp add: kp_inv_def om_inv_def)
  note walk = kp_walk [where ord = "le_ord env", OF k assms(2) _ walk_orderD(2) [OF assms(3) this]]
  have "ma_machine_id machine0 = 0" by (simp add: machine0_def)
  then have "(\<exists>x\<in>set ?lost. ma_machine_id x = uid) \<longleftrightarrow> (\<exists>m. GetMachine uid ?mm = Some m \<and> beat_lost env (ma_heart_beat_time m))"
    using walk [of uid "\<lambda>m. beat_lost env (ma_heart_beat_time m)"] assms(4) by (auto simp: GetMachine_def)
  then show ?thesis
    using machines.release_all [OF k, of "map ma_machine_id ?lost" uid] mach_check_machines [OF assms(1,5)]
    by (auto simp: get_machine_def image_iff split: option.split)
qed

text \<open>A machine that has just logged in has no heart beat yet: unless it sends one before the next check,
  the check logs it out again, however short ago the login was.\<close>

theorem mach_fresh_kicked:
  assumes "world_ok w" "mach_OnMachineLogin env head msg w = (True, w')" "\<not> machine_on env (cs_uid msg) head w" "cs_uid msg \<noteq> 0"
    and "world_ok w'" "kp_owned ma_machine_id machine0 (w_machines w')" "walk_order (le_ord env2)"
    and "mv_heart_check gs + le_heart_beat_interval env2 \<le> GetTime (me_now env2)" "le_heart_beat_interval env2 * 2 \<le> GetTime (me_now env2)"
  shows "machine_on env (cs_uid msg) head w' \<and> get_machine (cs_uid msg) (sh_world (mach_check env2 (gs\<lparr>sh_world := w'\<rparr>))) = None"
proof -
  have m: "get_machine (cs_uid msg) w' = Some (machine0\<lparr>ma_machine_id := cs_uid msg, ma_connect_head := Some head\<rparr>)"
    by (rule mach_login(3) [OF assms(1-3)])
  have "unat (ucast x :: u64) = unat x" for x :: u32
  proof -
    have "unat x < 2 ^ LENGTH(32)" by (rule unsigned_less)
    then show ?thesis by (simp add: unsigned_ucast_eq take_bit_nat_eq_self)
  qed
  then have "beat_lost env2 0" using assms(9) by (simp add: beat_lost_def word_le_nat_alt)
  then have "beat_lost env2 (ma_heart_beat_time (machine0\<lparr>ma_machine_id := cs_uid msg, ma_connect_head := Some head\<rparr>))"
    by (simp add: machine0_def)
  then show ?thesis
    using mach_check_get [of "gs\<lparr>sh_world := w'\<rparr>" env2 "cs_uid msg"] assms(4-8) m mach_login(2) [OF assms(1,2)] by simp
qed

definition mach0 :: mach_server where
  "mach0 = \<lparr>sh_sessions = session_mgr0 4, sh_world = lip0, sh_timer_check = 0, sh_session_check = 0, mv_heart_check = 0\<rparr>"

text \<open>Machine 7 logs in at second 5; the routine check a minute later, with an interval of 30 seconds.\<close>

lemma mach_fresh_kicked_witness:
  "\<exists>w1. mach_OnMachineLogin mach_env0 head7 mach_login7 lip0 = (True, w1) \<and> machine_on mach_env0 7 head7 w1
     \<and> get_machine 7 (sh_world (mach_check (mach_env0\<lparr>me_now := 65000\<rparr>) (mach0\<lparr>sh_world := w1\<rparr>))) = None"
proof -
  obtain w1 where l: "mach_OnMachineLogin mach_env0 head7 mach_login7 lip0 = (True, w1)"
    and m: "w_machines w1 = kp_update 7 (\<lambda>m. m\<lparr>ma_connect_head := Some head7\<rparr>) (snd (CreateMachine 7 (w_machines lip0)))"
    using mach_login_passes by blast
  let ?c = "snd (CreateMachine 7 (w_machines lip0))"
  have u: "cs_uid mach_login7 = 7" by (simp add: mach_login7_def)
  have i: "kp_inv ma_machine_id (w_machines lip0)"
    by (simp add: lip0_def world0_def world.defs kp_inv_def)
  have k: "kp_inv ma_machine_id ?c" by (rule machine_pool(5) [OF i])
  have w: "world_ok w1" using mach_login_ok [OF lip0_ok(1), of mach_env0 head7 mach_login7] l by simp
  have "w_machines lip0 = \<lparr>kp_om = om_new machine0 4 0, kp_index = (\<lambda>_. None)\<rparr>"
    by (simp add: lip0_def world0_def world.defs)
  then have o: "kp_owned ma_machine_id machine0 (w_machines w1)"
    by (simp add: m CreateMachine_def kp_Create_def om_new_def om_Malloc_def om_put_def kp_update_def kp_owned_def upt_rec [of 0 4])
  have "\<not> machine_on mach_env0 7 head7 lip0"
    by (simp add: machine_on_def get_machine_def GetMachine_def lip0_def world0_def world.defs kp_Get_def)
  then show ?thesis
    using l mach_fresh_kicked [OF lip0_ok(1) l _ _ w o, of "mach_env0\<lparr>me_now := 65000\<rparr>" mach0]
    by (simp add: u mach_env0_def lip_env0_def msg_env.defs mach0_def GetTime_def)
qed

text \<open>The notice that a connection is gone may come after the machine has logged in on another: the
  machine is logged out all the same, and the database told so.\<close>

lemma mach_stale_offline:
  assumes "world_ok (sh_world gs)"
  shows "get_machine uid (sh_world (mach_OnClientOffline env head uid gs)) = None"
  using mach_logout(1) [OF assms] by (simp add: mach_OnClientOffline_def)

subsection \<open>The address of the game server\<close>

definition good_addr :: "u32 \<Rightarrow> game_addr \<Rightarrow> bool" where
  "good_addr t a \<longleftrightarrow> length (gd_hosts a) = length (gd_ports a) \<and> gd_hosts a \<noteq> [] \<and> gd_game_type a = t"

lemma addr_index_Some:
  assumes "\<forall>i. idx t = Some i \<longrightarrow> i < length pre \<and> good_addr t (pre ! i)" "addr_index (length pre) as idx t = Some i"
  shows "i < length (pre @ as) \<and> good_addr t ((pre @ as) ! i)"
  using assms
proof (induction as arbitrary: pre idx)
  case (Cons a as)
  let ?idx = "if length (gd_hosts a) = length (gd_ports a) \<and> gd_hosts a \<noteq> [] then idx(gd_game_type a \<mapsto> length pre) else idx"
  have "\<forall>i. ?idx t = Some i \<longrightarrow> i < length (pre @ [a]) \<and> good_addr t ((pre @ [a]) ! i)"
    using Cons.prems(1) by (auto simp: nth_append good_addr_def less_Suc_eq)
  moreover have "addr_index (length (pre @ [a])) as ?idx t = Some i" using Cons.prems(2) by simp
  ultimately have "i < length ((pre @ [a]) @ as) \<and> good_addr t (((pre @ [a]) @ as) ! i)" by (rule Cons.IH)
  then show ?case by simp
qed auto

lemma addr_index_None: "addr_index n as idx t = None \<Longrightarrow> idx t = None \<and> (\<forall>a\<in>set as. \<not> good_addr t a)"
proof (induction as arbitrary: n idx)
  case (Cons a as)
  from Cons.IH [OF Cons.prems [unfolded addr_index.simps]] show ?case by (auto simp: good_addr_def split: if_splits)
qed simp

text \<open>A machine is sent to one of the hosts of its game, with that host's port; it is told no address only
  when no entry of the table is of use. The choice never leaves the table.\<close>

theorem game_host_valid:
  "\<exists>addr. game_host addrs d = Some addr \<and> (case addr of
      None \<Rightarrow> \<forall>a\<in>set addrs. \<not> good_addr (get0 (mb_game_type (m_base_info d))) a
    | Some (h, p) \<Rightarrow> \<exists>a\<in>set addrs. good_addr (get0 (mb_game_type (m_base_info d))) a \<and> (h, p) \<in> set (zip (gd_hosts a) (gd_ports a)))"
proof (cases "addr_index 0 addrs (\<lambda>_. None) (get0 (mb_game_type (m_base_info d)))")
  case None
  then show ?thesis using addr_index_None [OF None] by (simp add: game_host_def GetAddrByType_def)
next
  case (Some j)
  let ?a = "addrs ! j"
  have a: "j < length addrs" "good_addr (get0 (mb_game_type (m_base_info d))) ?a"
    using addr_index_Some [of "\<lambda>_. None" _ "[]" addrs j] Some by simp_all
  let ?i = "unat (get0 (d_uid d)) mod length (gd_hosts ?a)"
  have n: "0 < length (gd_hosts ?a)" "length (gd_ports ?a) = length (gd_hosts ?a)" using a(2) by (auto simp: good_addr_def)
  then have i: "?i < length (gd_hosts ?a)" by simp
  have "(gd_hosts ?a ! ?i, gd_ports ?a ! ?i) \<in> set (zip (gd_hosts ?a) (gd_ports ?a))"
    using i n by (auto simp: set_zip)
  moreover have "game_host addrs d = Some (Some (gd_hosts ?a ! ?i, gd_ports ?a ! ?i))"
    using Some n i by (simp add: game_host_def GetAddrByType_def Let_def not_le)
  ultimately show ?thesis using a by (intro exI [of _ "Some (gd_hosts ?a ! ?i, gd_ports ?a ! ?i)"]) auto
qed

subsection \<open>The server as a session server\<close>

lemma reply_fine: "fine s \<Longrightarrow> \<exists>s' w'. reply env s w = Some (H_Done, s', w') \<and> fine s' \<and> same_key s' s"
  by (simp add: reply_def SendMsgToClient_def split_beta fine_def same_key_def)

lemma mach_set_cur:
  assumes "se_process_index s = 0" "se_db_processs s \<noteq> []"
  shows "\<exists>d. cur_data s = Some d \<and> set_cur_data f s = Some (SetDBData 0 (f d) s)"
  using assms by (simp add: cur_data_def set_cur_data_def GetDBData_def)

lemma mach_handler_fine: "mach_handlers addrs env i = Some h \<Longrightarrow> handler_fine h"
proof -
  have fr: "fine (rsp f s) = fine s" "same_key t (rsp f s) = same_key t s" "se_db_processs (rsp f s) = se_db_processs s" for f s t
    by (simp_all add: rsp_def fine_def same_key_def)
  have beat: "step_fine False (mach_HeartBeat_OnMessage env)"
    unfolding step_fine_def
  proof (intro allI impI)
    fix s w assume "fine s"
    then obtain s' w' where "reply env (rsp (\<lambda>_. CsRspHeartBeat (GetTime (me_now env))) s) w = Some (H_Done, s', w')"
      "fine s'" "same_key s' s" using reply_fine [of "rsp _ s" env w] fr by metis
    then show "\<exists>r s' w'. mach_HeartBeat_OnMessage env s w = Some (r, s', w') \<and> r \<noteq> H_Next \<and> fine s' \<and> same_key s' s"
      by (simp add: mach_HeartBeat_OnMessage_def)
  qed
  have tell: "\<exists>s' w'. tell_machine u b env s w = Some (H_Done, s', w') \<and> fine s' \<and> same_key s' s"
    if "fine s" for u b s w
    using that by (simp add: tell_machine_def notify_machine_def split_beta fine_def same_key_def rsp_def split: option.split)
  have tells: "step_fine False (\<lambda>s w. tell_machine (u s) b env s w)" for u b
    unfolding step_fine_def
  proof (intro allI impI)
    fix s w assume "fine s"
    from tell [OF this, of "u s" b w] show "\<exists>r s' w'. tell_machine (u s) b env s w = Some (r, s', w') \<and> r \<noteq> H_Next \<and> fine s' \<and> same_key s' s"
      by auto
  qed
  have asks: "step_fine False (\<lambda>s w. Some (H_Query, AddQueryKey (u s) k s, w))" for u k
    by (simp add: step_fine_def)
  have sets: "step_fine True (\<lambda>s w. set_cur_data f s \<bind> (\<lambda>s1. Some (H_Save, s1, w)))" for f
    unfolding step_fine_def
  proof (intro allI impI)
    fix s w assume s: "fine s" "True \<longrightarrow> se_db_processs s \<noteq> []"
    then obtain d where "set_cur_data f s = Some (SetDBData 0 (f d) s)" using mach_set_cur [of s f] by (auto simp: fine_def simp del: set_cur_data_Some)
    then show "\<exists>r s' w'. set_cur_data f s \<bind> (\<lambda>s1. Some (H_Save, s1, w)) = Some (r, s', w') \<and> r \<noteq> H_Next \<and> fine s' \<and> same_key s' s"
      using s(1) by (simp del: set_cur_data_Some)
  qed
  have logged: "step_fine True (mach_MLogin_OnSaveSuccess addrs env)"
    unfolding step_fine_def
  proof (intro allI impI)
    fix s w assume s: "fine s" "True \<longrightarrow> se_db_processs s \<noteq> []"
    then obtain d where d: "cur_data s = Some d" using mach_set_cur [of s] by (auto simp: fine_def)
    obtain a where a: "game_host addrs d = Some a" using game_host_valid by blast
    obtain r where r: "mach_MLogin_OnSaveSuccess addrs env s w = reply env (rsp (\<lambda>_. CsRspMLogin r) s) w"
      using d a by (simp add: mach_MLogin_OnSaveSuccess_def)
    have "fine (rsp (\<lambda>_. CsRspMLogin r) s)" using s(1) fr by simp
    from reply_fine [OF this, of env w] fr(2) obtain s' w'
      where "mach_MLogin_OnSaveSuccess addrs env s w = Some (H_Done, s', w')" "fine s'" "same_key s' s"
      unfolding r by metis
    then show "\<exists>r s' w'. mach_MLogin_OnSaveSuccess addrs env s w = Some (r, s', w') \<and> r \<noteq> H_Next \<and> fine s' \<and> same_key s' s"
      by auto
  qed
  have msgs: "step_fine False (mach_MLogin_OnMessage env)" "step_fine False (mach_Logout_OnMessage env)"
    "step_fine False (mach_UpdateMachine_OnMessage env)" "step_fine False (mach_DeleteMachine_OnMessage env)"
    "step_fine False (mach_RestartMachine_OnMessage env)"
    unfolding mach_MLogin_OnMessage_def [abs_def] mach_Logout_OnMessage_def [abs_def] mach_UpdateMachine_OnMessage_def [abs_def]
      mach_DeleteMachine_OnMessage_def [abs_def] mach_RestartMachine_OnMessage_def [abs_def]
    by (rule asks tells)+
  have queries: "step_fine True (mach_MLogin_OnQuerySuccess env)" "step_fine True (mach_Logout_OnQuerySuccess env)"
    unfolding mach_MLogin_OnQuerySuccess_def [abs_def] mach_Logout_OnQuerySuccess_def [abs_def] by (rule sets)+
  have logged_out: "step_fine True (mach_Logout_OnSaveSuccess env)" by (simp add: step_fine_def mach_Logout_OnSaveSuccess_def)
  show "mach_handlers addrs env i = Some h \<Longrightarrow> handler_fine h"
    using beat logged logged_out msgs queries
    by (auto simp: mach_handlers_def handler_fine_def full_handler_def lip_base_def split: if_splits)
qed

interpretation mach: session_server "mach_Process addrs env"
  unfolding mach_Process_def by (rule manager_server, rule mach_handler_fine)

datatype mach_event = ME_Client connect_head "byte list" | ME_Offline connect_head u64 | ME_Server proxy_head "byte list"
  | ME_Internal "byte list" | ME_Routine

definition mach_step :: "game_addr list \<Rightarrow> lip_env \<times> mach_event \<Rightarrow> mach_server \<Rightarrow> mach_server outcome option" where
  "mach_step addrs e gs = (case snd e of
     ME_Client head buf \<Rightarrow> mach_OnClientMessage addrs (fst e) head buf gs
   | ME_Offline head uid \<Rightarrow> Some (Ret (mach_OnClientOffline (fst e) head uid gs))
   | ME_Server head buf \<Rightarrow> mach_OnServerMessage addrs (fst e) head buf gs
   | ME_Internal buf \<Rightarrow> mach_OnInternalMessage addrs (fst e) buf gs
   | ME_Routine \<Rightarrow> Some (Ret (mach_OnRoutineCheck (fst e) gs)))"

lemma pool_fine_world [simp]: "pool_fine (gs\<lparr>sh_world := w\<rparr>) = pool_fine gs"
  by (simp add: pool_fine_def)

lemma mach_client_ok:
  assumes "pool_fine gs"
  shows "\<exists>gs'. mach_OnClientMessage addrs env head buf gs = Some (Ret gs') \<and> pool_fine gs'"
proof (cases "mach_MessageFilter env head buf (sh_world gs)")
  case (Pair r w)
  show ?thesis
  proof (cases r)
    case (Some msg)
    let ?prepare = "\<lambda>s. s\<lparr>se_msg_head := MH_connect head, se_cs_msg := msg, se_uid := ucast (cs_uid msg)\<rparr>"
    have "\<exists>gs'. open_session env (mach_Process addrs env) (cs_union_case msg) ?prepare (gs\<lparr>sh_world := w\<rparr>) = Some (Ret gs') \<and> pool_fine gs'"
      using assms by (intro mach.open_session_ok) simp_all
    moreover have swap: "gs\<lparr>sh_sessions := b, sh_world := w\<rparr> = gs\<lparr>sh_world := w, sh_sessions := b\<rparr>" for b by simp
    ultimately show ?thesis using Pair Some
      by (cases "CreateSession (me_now env) (cs_union_case msg) (sh_sessions gs)"; cases "fst (CreateSession (me_now env) (cs_union_case msg) (sh_sessions gs))")
         (auto simp: mach_OnClientMessage_def open_session_def pool_fine_def swap)
  qed (use Pair assms in \<open>simp add: mach_OnClientMessage_def\<close>)
qed

lemma mach_check_fine [simp]: "pool_fine (mach_check env gs) = pool_fine gs" "pool_fine (mach_OnClientOffline env head uid gs) = pool_fine gs"
  by (simp_all add: mach_check_def mach_OnClientOffline_def pool_fine_def Let_def)

lemma mach_step_ok: "pool_fine gs \<Longrightarrow> \<exists>gs'. mach_step addrs e gs = Some (Ret gs') \<and> pool_fine gs'"
  using mach.server_message_ok [of gs "fst e" addrs "fst e"] mach.internal_message_ok [of gs "fst e" addrs "fst e"]
    shell_sessions_fine [of "shell_timers (fst e) gs" "fst e"] mach_client_ok [of gs addrs "fst e"]
  by (cases "snd e") (simp_all add: mach_step_def mach_OnServerMessage_def mach_OnInternalMessage_def mach_OnRoutineCheck_def)

text \<open>Property C19. Whatever machines, servers and timers send, and whatever the database answers, no call faults or runs
  forever, whatever the table of game servers; and the pool of sessions stays sound.\<close>

theorem mach_runs:
  assumes "pool_fine gs"
  shows "\<exists>gs'. shell_run (mach_step addrs) es gs = Some (Ret gs') \<and> pool_fine gs'"
  using shell_run_keeps [of pool_fine "mach_step addrs" gs es, OF mach_step_ok assms] by simp

text \<open>A machine logs in, goes offline and is checked; one more message cannot be read.\<close>

lemma mach_runs_witness:
  "\<exists>gs'. shell_run (mach_step []) [(mach_env0, ME_Client head7 [1]), (mach_env0, ME_Offline head7 7), (mach_env0, ME_Routine),
      (mach_env0, ME_Client head7 [2])] mach0 = Some (Ret gs') \<and> pool_fine gs'"
  by (rule mach_runs) (simp add: mach0_def)

end
