(* ===== verification/WebServer.thy ===== *)
theory WebServer
  imports GameShell LipstickProps
begin

text \<open>
  svr/websvr: the server the web pages talk to. A request comes in a client's connection as a
  \<open>PBSSMsg\<close>; it reads or changes the data of players, machines and promoters, or is handed on to
  the server a machine or player is on, whose answer goes back to the web. The handlers of
  message_handler_common.cpp and message_handler_data*.cpp, the entry points of game_server.cpp
  and \<open>SpiltString\<close> of hpp/string_ext.hpp. The server loads no table of prizes.
\<close>

type_synonym wstep = "lip_env \<Rightarrow> session \<Rightarrow> lip_world \<Rightarrow> (hresult \<times> session \<times> lip_world) option"

subsection \<open>The words of a command\<close>

fun SpiltString :: "string \<Rightarrow> string \<Rightarrow> nat \<Rightarrow> string" where
  "SpiltString input delimit 0 = takeWhile (\<lambda>c. c \<notin> set delimit) input"
| "SpiltString input delimit (Suc k) = (case dropWhile (\<lambda>c. c \<in> set delimit) (dropWhile (\<lambda>c. c \<notin> set delimit) input) of
     [] \<Rightarrow> []
   | c # cs \<Rightarrow> SpiltString (c # cs) delimit k)"

definition digit_of :: "char \<Rightarrow> nat" where
  "digit_of c = (let n = of_char c in
     if 48 \<le> n \<and> n \<le> 57 then n - 48 else if 65 \<le> n \<and> n \<le> 90 then n - 55 else if 97 \<le> n \<and> n \<le> 122 then n - 87 else 99)"

text \<open>\<open>strtoull(s, NULL, 0)\<close>: blanks, a sign, the base in the prefix; the greatest number when it does not fit.\<close>

definition strtoull :: "string \<Rightarrow> u64" where
  "strtoull s =
     (let t = dropWhile (\<lambda>c. of_char c = (32::nat) \<or> (9 \<le> (of_char c :: nat) \<and> of_char c \<le> (13::nat))) s;
          neg = (take 1 t = ''-'');
          t1 = (if neg \<or> take 1 t = ''+'' then drop 1 t else t);
          hex = (take 2 t1 \<in> {''0x'', ''0X''} \<and> (case drop 2 t1 of [] \<Rightarrow> False | c # _ \<Rightarrow> digit_of c < 16));
          base = (if hex then 16 else if take 1 t1 = ''0'' then 8 else 10);
          t2 = (if hex then drop 2 t1 else t1);
          v = foldl (\<lambda>v c. v * base + digit_of c) 0 (takeWhile (\<lambda>c. digit_of c < base) t2)
      in if 2 ^ 64 \<le> v then - 1 else if neg then - of_nat v else of_nat v)"

subsection \<open>Requests and answers\<close>

text \<open>\<open>GetSSResponse().mutable_...()\<close>: the message of the last response is kept when it is of the type asked for.\<close>

definition wrsp :: "(ss_body option \<Rightarrow> ss_body) \<Rightarrow> session \<Rightarrow> session" where
  "wrsp f s = s\<lparr>se_ss_response := (se_ss_response s)\<lparr>ss_body := Some (f (ss_body (se_ss_response s)))\<rparr>\<rparr>"

definition to_web :: "lip_env \<Rightarrow> bool \<Rightarrow> session \<Rightarrow> lip_world \<Rightarrow> (hresult \<times> session \<times> lip_world) option" where
  "to_web env close s w = (let (_, s1, w1) = SendMsgToWeb env close s w in Some (H_Done, s1, w1))"

definition gm_result :: "u32 \<Rightarrow> ss_body option \<Rightarrow> ss_body" where
  "gm_result r b = (case b of Some (SsGMCommand c _) \<Rightarrow> SsGMCommand c r | _ \<Rightarrow> SsGMCommand [] r)"

definition login_result :: "u32 \<Rightarrow> ss_body option \<Rightarrow> ss_body" where
  "login_result r b = (case b of Some (WebRspPlayerLogin _ p) \<Rightarrow> WebRspPlayerLogin r p | _ \<Rightarrow> WebRspPlayerLogin r None)"

definition sub_prize_result :: "u32 \<Rightarrow> ss_body option \<Rightarrow> ss_body" where
  "sub_prize_result r b = (case b of Some (WebRspSubPrize _ ps) \<Rightarrow> WebRspSubPrize r ps | _ \<Rightarrow> WebRspSubPrize r [])"

definition query_result :: "dbkind \<Rightarrow> u32 \<Rightarrow> pb_db_data list \<Rightarrow> ss_body option \<Rightarrow> ss_body" where
  "query_result k r ds b = (case b of
     Some (WebRspQueryDBData k' _ ds0) \<Rightarrow> WebRspQueryDBData k r ((if k' = k then ds0 else []) @ ds)
   | _ \<Rightarrow> WebRspQueryDBData k r ds)"

text \<open>The fields of a request; a message of another type reads as the empty one.\<close>

definition gm_cmd :: "session \<Rightarrow> string" where
  "gm_cmd s = (case ss_body (se_web_msg s) of Some (SsGMCommand c _) \<Rightarrow> c | _ \<Rightarrow> [])"

definition query_uids :: "dbkind \<Rightarrow> session \<Rightarrow> u64 list" where
  "query_uids k s = (case ss_body (se_web_msg s) of Some (WebReqQueryDBData k' us) \<Rightarrow> if k' = k then us else [] | _ \<Rightarrow> [])"

definition save_req :: "dbkind \<Rightarrow> session \<Rightarrow> u64 \<times> pb_db_data" where
  "save_req k s = (case ss_body (se_web_msg s) of
     Some (WebReqSaveDBData k' u d) \<Rightarrow> if k' = k then (u, case d of None \<Rightarrow> pb_db_data0 | Some d \<Rightarrow> d) else (0, pb_db_data0)
   | _ \<Rightarrow> (0, pb_db_data0))"

definition charge_req :: "session \<Rightarrow> u64 \<times> pb_award list \<times> u32" where
  "charge_req s = (case ss_body (se_web_msg s) of Some (WebReqPlayerCharge u ws r) \<Rightarrow> (u, ws, r) | _ \<Rightarrow> (0, [], 0))"

definition sub_prize_req :: "session \<Rightarrow> u64 \<times> db_prize list \<times> u32" where
  "sub_prize_req s = (case ss_body (se_web_msg s) of Some (WebReqSubPrize u ps r) \<Rightarrow> (u, ps, r) | _ \<Rightarrow> (0, [], 0))"

definition player_info :: "session \<Rightarrow> u64 \<times> string \<times> string" where
  "player_info s = (case ss_body (se_web_msg s) of Some (WebNotifyPlayerInfo u n p) \<Rightarrow> (u, n, p) | _ \<Rightarrow> (0, [], []))"

text \<open>\<open>SendMsgToServer(psession, psession->GetWebMsg(), ...)\<close>: the request itself is stamped and handed on;
  with \<open>NULL\<close> the session does not wait.\<close>

definition stamped :: "session \<Rightarrow> session" where
  "stamped s = s\<lparr>se_web_msg := (se_web_msg s)\<lparr>ss_type := EN_SS_Request\<rparr>\<rparr>"

definition relay :: "lip_env \<Rightarrow> u32 \<Rightarrow> u32 \<Rightarrow> session \<Rightarrow> lip_world \<Rightarrow> (hresult \<times> session \<times> lip_world) option" where
  "relay env svr_type svr_id s w =
     (case SendMsgToServer env svr_type svr_id (se_web_msg s) (Some (stamped s)) w of
        (_, None, _) \<Rightarrow> None
      | (_, Some s1, w1) \<Rightarrow> Some (H_Hup, s1, w1))"

definition tell_server :: "lip_env \<Rightarrow> u32 \<Rightarrow> u32 \<Rightarrow> session \<Rightarrow> lip_world \<Rightarrow> (hresult \<times> session \<times> lip_world) option" where
  "tell_server env svr_type svr_id s w =
     (let (_, _, w1) = SendMsgToServer env svr_type svr_id (se_web_msg s) None w in Some (H_Done, stamped s, w1))"

subsection \<open>message_handler_common.cpp\<close>

definition GMCommand_OnMessage :: wstep where
  "GMCommand_OnMessage env s w =
     (let uid = strtoull (SpiltString (gm_cmd s) '' '' 0)
      in Some (H_Query, AddQueryKey uid kPrizeInfo (AddQueryKey uid kGoldInfo (AddQueryKey uid kBaseInfo s)), w))"

definition ProcessAddPrize :: "u64 \<Rightarrow> u64 \<Rightarrow> acct \<Rightarrow> acct" where
  "ProcessAddPrize arg1 arg2 a = PlayerAddPrize (\<lambda>_. None) arg1 (ucast arg2) a"

definition ProcessAddGold :: "lip_env \<Rightarrow> u64 \<Rightarrow> acct \<Rightarrow> acct" where
  "ProcessAddGold env arg1 a = PlayerAddGold (GetTime (me_now env)) EN_Acc_GM_Add arg1 0 a"

definition GMCommand_OnQuerySuccess :: wstep where
  "GMCommand_OnQuerySuccess env s w = do {
     _ \<leftarrow> cur_data s;
     let cmd = SpiltString (gm_cmd s) '' '' 1;
     let arg1 = strtoull (SpiltString (gm_cmd s) '' '' 2);
     let arg2 = strtoull (SpiltString (gm_cmd s) '' '' 3);
     if cmd = ''add_prize'' then do {
       (_, s1, w1) \<leftarrow> on_account (\<lambda>a. ((), ProcessAddPrize arg1 arg2 a)) s w;
       Some (H_Save, s1, w1) }
     else if cmd = ''add_gold'' then do {
       (_, s1, w1) \<leftarrow> on_account (\<lambda>a. ((), ProcessAddGold env arg1 a)) s w;
       Some (H_Save, s1, w1) }
     else to_web env True (wrsp (gm_result EN_Web_DB_Error) s) w }"

definition GMCommand_OnQueryFailed :: wstep where
  "GMCommand_OnQueryFailed env s w = to_web env True (wrsp (gm_result EN_Web_DB_Error) s) w"

definition GMCommand_OnSaveSuccess :: wstep where
  "GMCommand_OnSaveSuccess env s w = to_web env True (wrsp (gm_result EN_Web_OK) s) w"

definition GMCommand_OnSaveFailed :: wstep where
  "GMCommand_OnSaveFailed env s w = to_web env True (wrsp (gm_result EN_Web_DB_Error) s) w"

definition WebUpdateConfig_OnMessage :: wstep where
  "WebUpdateConfig_OnMessage env s w =
     (let name = (case ss_body (se_web_msg s) of Some (WebNotifyUpdateConfig n) \<Rightarrow> n | _ \<Rightarrow> [])
      in if name = ''prize'' then Some (H_Done, stamped s, snd (BroadcastToServer env EN_4_Lipstick (se_web_msg s) w))
         else Some (H_Done, s, w))"

text \<open>A player who logs in at a machine: the server the machine is on decides.\<close>

definition WebLogin_OnMessage :: wstep where
  "WebLogin_OnMessage env s w =
     (let mid = (case ss_body (se_web_msg s) of Some (WebReqPlayerLogin _ m) \<Rightarrow> m | _ \<Rightarrow> 0)
      in Some (H_Query, AddQueryKey mid kMBaseInfo s, w))"

definition WebLogin_OnQuerySuccess :: wstep where
  "WebLogin_OnQuerySuccess env s w = do {
     d \<leftarrow> cur_data s;
     let info = m_base_info d;
     case mb_gamesvr_id info of
       None \<Rightarrow> to_web env False (wrsp (login_result EN_Web_Machine_Not_Online) s) w
     | Some svr_id \<Rightarrow> relay env (get0 (mb_gamesvr_type info)) svr_id s w }"

definition clear_pic :: "ss_body option \<Rightarrow> ss_body" where
  "clear_pic b = (case b of
     Some (WebRspPlayerLogin r p) \<Rightarrow> WebRspPlayerLogin r
       (Some (mut_base_info (\<lambda>i. i\<lparr>bi_pic_url := []\<rparr>) (case p of None \<Rightarrow> pb_db_data0 | Some d \<Rightarrow> d)))
   | _ \<Rightarrow> WebRspPlayerLogin 0 (Some (mut_base_info (\<lambda>i. i\<lparr>bi_pic_url := []\<rparr>) pb_db_data0)))"

definition WebLogin_OnServerResponse :: wstep where
  "WebLogin_OnServerResponse env s w = to_web env False (wrsp clear_pic s) w"

definition WebBuyIn_OnMessage :: wstep where
  "WebBuyIn_OnMessage env s w =
     (let mid = (case ss_body (se_web_msg s) of Some (WebReqPlayerBuyIn _ m _) \<Rightarrow> m | _ \<Rightarrow> 0)
      in Some (H_Query, AddQueryKey mid kMBaseInfo s, w))"

definition WebBuyIn_OnQuerySuccess :: wstep where
  "WebBuyIn_OnQuerySuccess env s w = do {
     d \<leftarrow> cur_data s;
     let info = m_base_info d;
     case mb_gamesvr_id info of
       None \<Rightarrow> to_web env False (wrsp (\<lambda>_. WebRspPlayerBuyIn EN_Web_Machine_Not_Online) s) w
     | Some svr_id \<Rightarrow> relay env (get0 (mb_gamesvr_type info)) svr_id s w }"

definition WebBuyIn_OnServerResponse :: wstep where
  "WebBuyIn_OnServerResponse env s w = to_web env False s w"

definition DeleteMachine_OnMessage :: wstep where
  "DeleteMachine_OnMessage env s w =
     (let mid = (case ss_body (se_web_msg s) of Some (WebNotifyDeleteMachine m) \<Rightarrow> m | _ \<Rightarrow> 0)
      in Some (H_Query, AddQueryKey mid kMBaseInfo s, w))"

text \<open>A notification for the machine server the machine is on, if it is on.\<close>

definition tell_machinesvr :: wstep where
  "tell_machinesvr env s w = do {
     d \<leftarrow> cur_data s;
     case mb_machinesvr_id (m_base_info d) of
       None \<Rightarrow> Some (H_Done, s, w)
     | Some svr_id \<Rightarrow> tell_server env EN_2_Machine svr_id s w }"

definition DeleteMachine_OnQuerySuccess :: wstep where
  "DeleteMachine_OnQuerySuccess = tell_machinesvr"

definition RestartMachine_OnMessage :: wstep where
  "RestartMachine_OnMessage env s w =
     (let mid = (case ss_body (se_web_msg s) of Some (WebNotifyRestartMachine m) \<Rightarrow> m | _ \<Rightarrow> 0)
      in Some (H_Query, AddQueryKey mid kMBaseInfo s, w))"

definition RestartMachine_OnQuerySuccess :: wstep where
  "RestartMachine_OnQuerySuccess = tell_machinesvr"

subsection \<open>message_handler_data.cpp\<close>

definition NotifyPlayerInfo_OnMessage :: wstep where
  "NotifyPlayerInfo_OnMessage env s w = Some (H_Query, AddQueryKey (fst (player_info s)) kBaseInfo s, w)"

definition NotifyPlayerInfo_OnQuerySuccess :: wstep where
  "NotifyPlayerInfo_OnQuerySuccess env s w = do {
     let (_, nick, pic_url) = player_info s;
     s1 \<leftarrow> set_cur_data (\<lambda>d. mut_base_info (\<lambda>i. i\<lparr>bi_pic_url := pic_url\<rparr>) (mut_base_info (\<lambda>i. i\<lparr>bi_nick := nick\<rparr>) d)) s;
     Some (H_Save, s1, w) }"

definition NotifyPlayerInfo_OnSaveSuccess :: wstep where
  "NotifyPlayerInfo_OnSaveSuccess env s w = Some (H_Done, s, w)"

definition point_req :: "session \<Rightarrow> u64 \<times> u32" where
  "point_req s = (case ss_body (se_web_msg s) of Some (WebNotifyPoint u p _) \<Rightarrow> (u, p) | _ \<Rightarrow> (0, 0))"

definition WebNotifyPoint_OnMessage :: wstep where
  "WebNotifyPoint_OnMessage env s w = Some (H_Query, AddQueryKey (fst (point_req s)) kBaseInfo s, w)"

text \<open>The machine the player is on is put into the notification.\<close>

definition WebNotifyPoint_OnQuerySuccess :: wstep where
  "WebNotifyPoint_OnQuerySuccess env s w = do {
     d \<leftarrow> cur_data s;
     let info = base_info d;
     case bi_gamesvr_type info of
       None \<Rightarrow> Some (H_Done, s, w)
     | Some svr_type \<Rightarrow>
         let (u, p) = point_req s;
             s1 = s\<lparr>se_web_msg := (se_web_msg s)\<lparr>ss_body := Some (WebNotifyPoint u p (bi_machine_id info))\<rparr>\<rparr>
         in tell_server env svr_type (get0 (bi_gamesvr_id info)) s1 w }"

definition WebNotifyPoint_OnQueryFailed :: wstep where
  "WebNotifyPoint_OnQueryFailed env s w = Some (H_Done, s, w)"

definition PlayerCharge_OnMessage :: wstep where
  "PlayerCharge_OnMessage env s w =
     (let (uid, _, _) = charge_req s
      in Some (H_Query, AddQueryKey uid kPrizeInfo (AddQueryKey uid kGoldInfo (AddQueryKey uid kBaseInfo s)), w))"

definition PlayerCharge_OnQuerySuccess :: wstep where
  "PlayerCharge_OnQuerySuccess env s w = do {
     let (_, awards, reason) = charge_req s;
     (_, s1, w1) \<leftarrow> on_account (\<lambda>a. ((), PlayerAddAwards (\<lambda>_. None) (GetTime (me_now env)) reason awards a)) s w;
     Some (H_Save, s1, w1) }"

definition PlayerCharge_OnQueryFailed :: wstep where
  "PlayerCharge_OnQueryFailed env s w = to_web env False (wrsp (\<lambda>_. WebRspPlayerCharge EN_Web_DB_Error) s) w"

text \<open>A player who is in a game, but not at a machine, is told the new gold by the game server.\<close>

definition PlayerCharge_OnSaveSuccess :: wstep where
  "PlayerCharge_OnSaveSuccess env s w = do {
     (_, s1, w1) \<leftarrow> to_web env False (wrsp (\<lambda>_. WebRspPlayerCharge EN_Web_OK) s) w;
     d \<leftarrow> cur_data s1;
     let info = base_info d;
     case bi_gamesvr_id info of
       None \<Rightarrow> Some (H_Done, s1, w1)
     | Some svr_id \<Rightarrow>
         if bi_machine_id info \<noteq> None then Some (H_Done, s1, w1)
         else
           let msg = ss_msg0\<lparr>ss_body := Some (SsNotifyPlayerGold (get0 (d_uid d)) (gi_gold (gold_info d)))\<rparr>;
               (_, _, w2) = SendMsgToServer env (get0 (bi_gamesvr_type info)) svr_id msg None w1
           in Some (H_Done, s1, w2) }"

definition PlayerCharge_OnSaveFailed :: wstep where
  "PlayerCharge_OnSaveFailed env s w = to_web env False (wrsp (\<lambda>_. WebRspPlayerCharge EN_Web_DB_Error) s) w"

definition SubPrize_OnMessage :: wstep where
  "SubPrize_OnMessage env s w = Some (H_Query, AddQueryKey (fst (sub_prize_req s)) kPrizeInfo s, w)"

definition SubPrize_OnQuerySuccess :: wstep where
  "SubPrize_OnQuerySuccess env s w = do {
     player \<leftarrow> cur_data s;
     let (_, prizes, _) = sub_prize_req s;
     if \<exists>p\<in>set prizes. pz_num p > GetPlayerPrizeNum_of player (pz_id p) then
       to_web env False (wrsp (sub_prize_result EN_Web_Player_Prize_Not_Enough) s) w
     else do {
       (_, s1, w1) \<leftarrow> on_account (\<lambda>a. ((), foldl (\<lambda>a p. PlayerSubPrize (pz_id p) (pz_num p) a) a prizes)) s w;
       Some (H_Save, s1, w1) } }"

definition SubPrize_OnQueryFailed :: wstep where
  "SubPrize_OnQueryFailed env s w = to_web env False (wrsp (sub_prize_result EN_Web_DB_Error) s) w"

definition SubPrize_OnSaveSuccess :: wstep where
  "SubPrize_OnSaveSuccess env s w = to_web env False (wrsp (sub_prize_result EN_Web_OK) s) w"

definition SubPrize_OnSaveFailed :: wstep where
  "SubPrize_OnSaveFailed env s w = to_web env False (wrsp (sub_prize_result EN_Web_DB_Error) s) w"

text \<open>The queries: the keys of each uid, and one answer entry for each uid asked for, taken from the query
  with its number in the session. An entry that does not exist is an access out of range.\<close>

definition add_keys :: "u32 list \<Rightarrow> u64 \<Rightarrow> session \<Rightarrow> session" where
  "add_keys keys uid s = fold (AddQueryKey uid) keys s"

fun answer_datas :: "nat \<Rightarrow> nat \<Rightarrow> session \<Rightarrow> pb_db_data list option" where
  "answer_datas i 0 s = Some []"
| "answer_datas i (Suc n) s = do {
     d \<leftarrow> GetDBData i s;
     ds \<leftarrow> answer_datas (Suc i) n s;
     Some (d # ds) }"

definition answer_query :: "dbkind \<Rightarrow> wstep" where
  "answer_query k env s w = do {
     ds \<leftarrow> answer_datas 0 (length (query_uids k s)) s;
     to_web env False (wrsp (query_result k EN_Web_OK ds) s) w }"

definition query_error :: "dbkind \<Rightarrow> u32 \<Rightarrow> wstep" where
  "query_error k r env s w = to_web env False (wrsp (query_result k r []) s) w"

definition QueryData_OnMessage :: wstep where
  "QueryData_OnMessage env s w =
     Some (H_Query, fold (add_keys [kBaseInfo, kGoldInfo, kPrizeInfo, kGameInfo]) (query_uids DK_player s) s, w)"

definition QueryData_OnQuerySuccess :: wstep where
  "QueryData_OnQuerySuccess = answer_query DK_player"

definition QueryData_OnQueryFailed :: wstep where
  "QueryData_OnQueryFailed = query_error DK_player EN_Web_DB_Error"

subsection \<open>message_handler_data_g.cpp\<close>

definition QueryDataG_OnMessage :: wstep where
  "QueryDataG_OnMessage env s w =
     (if query_uids DK_g s = [] then query_error DK_g EN_Web_Invalid_Params env s w
      else Some (H_Query, fold (\<lambda>u s. if u = EN_Uid_Lip_Prize then AddQueryKey u kGLipPrizeInfo s else s) (query_uids DK_g s) s, w))"

definition QueryDataG_OnQuerySuccess :: wstep where
  "QueryDataG_OnQuerySuccess = answer_query DK_g"

definition QueryDataG_OnQueryFailed :: wstep where
  "QueryDataG_OnQueryFailed = query_error DK_g EN_Web_DB_Error"

text \<open>The answer to a change of data.\<close>

definition save_answer :: "dbkind \<Rightarrow> u32 \<Rightarrow> wstep" where
  "save_answer k r env s w = to_web env False (wrsp (\<lambda>_. WebRspSaveDBData k r) s) w"

definition SaveDataG_OnMessage :: wstep where
  "SaveDataG_OnMessage env s w = Some (H_Query, AddQueryKey (fst (save_req DK_g s)) kMLipstickInfo s, w)"

text \<open>The data is looked at and left as it is.\<close>

definition SaveDataG_OnQuerySuccess :: wstep where
  "SaveDataG_OnQuerySuccess env s w = do { _ \<leftarrow> cur_data s; Some (H_Save, s, w) }"

definition SaveDataG_OnQueryFailed :: wstep where
  "SaveDataG_OnQueryFailed = save_answer DK_g EN_Web_DB_Error"

definition SaveDataG_OnSaveSuccess :: wstep where
  "SaveDataG_OnSaveSuccess = save_answer DK_g EN_Web_OK"

definition SaveDataG_OnSaveFailed :: wstep where
  "SaveDataG_OnSaveFailed = save_answer DK_g EN_Web_DB_Error"

subsection \<open>message_handler_data_m.cpp\<close>

definition QueryDataM_OnMessage :: wstep where
  "QueryDataM_OnMessage env s w =
     (if query_uids DK_m s = [] then query_error DK_m EN_Web_Invalid_Params env s w
      else Some (H_Query, fold (add_keys [kMBaseInfo, kMLipstickInfo]) (query_uids DK_m s) s, w))"

definition QueryDataM_OnQuerySuccess :: wstep where
  "QueryDataM_OnQuerySuccess = answer_query DK_m"

definition QueryDataM_OnQueryFailed :: wstep where
  "QueryDataM_OnQueryFailed = query_error DK_m EN_Web_DB_Error"

definition SaveDataM_OnMessage :: wstep where
  "SaveDataM_OnMessage env s w = Some (H_Query, add_keys [kMBaseInfo, kMLipstickInfo] (fst (save_req DK_m s)) s, w)"

text \<open>\<open>if (info.has_x()) data.mutable_...()->set_x(info.x())\<close>.\<close>

definition set_base :: "'a option \<Rightarrow> ('a option \<Rightarrow> db_m_base_info \<Rightarrow> db_m_base_info) \<Rightarrow> pb_db_data \<Rightarrow> pb_db_data" where
  "set_base x f d = (if x = None then d else mut_m_base_info (f x) d)"

definition set_lip :: "'a option \<Rightarrow> ('a option \<Rightarrow> db_m_lipstick_info \<Rightarrow> db_m_lipstick_info) \<Rightarrow> pb_db_data \<Rightarrow> pb_db_data" where
  "set_lip x f d = (if x = None then d else mut_m_lipstick_info (f x) d)"

text \<open>The rates of the twelve awards are added up as they are copied.\<close>

fun sum_rates :: "u32 \<Rightarrow> db_lottery_award list \<Rightarrow> db_lottery_award list" where
  "sum_rates r [] = []"
| "sum_rates r (a # as) = a\<lparr>la_sum_rate := r + la_rate a\<rparr> # sum_rates (r + la_rate a) as"

definition set_prizes :: "db_m_lipstick_info \<Rightarrow> pb_db_data \<Rightarrow> pb_db_data" where
  "set_prizes info d = (if lp_prizes info = [] then d else mut_m_lipstick_info (\<lambda>i. i\<lparr>lp_prizes := lp_prizes info\<rparr>) d)"

definition set_lotterys :: "(u32 \<Rightarrow> db_lottery_award list \<Rightarrow> db_lottery_award list) \<Rightarrow> db_m_lipstick_info \<Rightarrow> pb_db_data \<Rightarrow> pb_db_data" where
  "set_lotterys rates info d =
     (if length (lp_lottery_awards info) = 12
      then mut_m_lipstick_info (\<lambda>i. i\<lparr>lp_lottery_awards := rates 0 (lp_lottery_awards info)\<rparr>) d else d)"

definition set_buy :: "db_m_lipstick_info \<Rightarrow> pb_db_data \<Rightarrow> pb_db_data" where
  "set_buy info d =
     (let d = set_lip (lp_buy_consume info) (\<lambda>x i. i\<lparr>lp_buy_consume := x\<rparr>) d;
          d = set_lip (lp_buy_fail info) (\<lambda>x i. i\<lparr>lp_buy_fail := x\<rparr>) d;
          d = set_lip (lp_buy_time info) (\<lambda>x i. i\<lparr>lp_buy_time := x\<rparr>) d
      in if lp_round_knives info \<noteq> [] \<and> length (lp_round_knives info) = length (lp_round_timeouts info)
         then mut_m_lipstick_info (\<lambda>i. i\<lparr>lp_round_timeouts := lp_round_timeouts info\<rparr>)
                (mut_m_lipstick_info (\<lambda>i. i\<lparr>lp_round_knives := lp_round_knives info\<rparr>) d)
         else d)"

definition set_timeouts :: "db_m_lipstick_info \<Rightarrow> pb_db_data \<Rightarrow> pb_db_data" where
  "set_timeouts info d =
     (let d = set_lip (lp_start_timeout info) (\<lambda>x i. i\<lparr>lp_start_timeout := x\<rparr>) d;
          d = set_lip (lp_retry_timeout info) (\<lambda>x i. i\<lparr>lp_retry_timeout := x\<rparr>) d;
          d = set_lip (lp_lottery_timeout info) (\<lambda>x i. i\<lparr>lp_lottery_timeout := x\<rparr>) d;
          d = set_lip (lp_lottery_ani_timeout info) (\<lambda>x i. i\<lparr>lp_lottery_ani_timeout := x\<rparr>) d;
          d = set_lip (lp_buy_timeout info) (\<lambda>x i. i\<lparr>lp_buy_timeout := x\<rparr>) d;
          d = set_lip (lp_buy_ani_timeout info) (\<lambda>x i. i\<lparr>lp_buy_ani_timeout := x\<rparr>) d
      in set_lip (lp_game_succ_timeout info) (\<lambda>x i. i\<lparr>lp_game_succ_timeout := x\<rparr>) d)"

definition set_switches :: "db_m_lipstick_info \<Rightarrow> pb_db_data \<Rightarrow> pb_db_data" where
  "set_switches info d =
     (let d = set_lip (lp_retry_switch info) (\<lambda>x i. i\<lparr>lp_retry_switch := x\<rparr>) d;
          d = set_lip (lp_lottery_switch info) (\<lambda>x i. i\<lparr>lp_lottery_switch := x\<rparr>) d
      in set_lip (lp_buy_switch info) (\<lambda>x i. i\<lparr>lp_buy_switch := x\<rparr>) d)"

definition update_m :: "pb_db_data \<Rightarrow> pb_db_data \<Rightarrow> pb_db_data" where
  "update_m new d =
     (let d = (case d_m_base_info new of
            None \<Rightarrow> d
          | Some info \<Rightarrow>
              let d = set_base (mb_game_type info) (\<lambda>x i. i\<lparr>mb_game_type := x\<rparr>) d
              in set_base (mb_promoter_id info) (\<lambda>x i. i\<lparr>mb_promoter_id := x\<rparr>) d)
      in case d_m_lipstick_info new of
           None \<Rightarrow> d
         | Some info \<Rightarrow>
             let d = set_lip (lp_cost info) (\<lambda>x i. i\<lparr>lp_cost := x\<rparr>) d;
                 d = set_lip (lp_max_retry_time info) (\<lambda>x i. i\<lparr>lp_max_retry_time := x\<rparr>) d
             in set_switches info (set_timeouts info (set_buy info (set_lotterys sum_rates info (set_prizes info d)))))"

definition SaveDataM_OnQuerySuccess :: wstep where
  "SaveDataM_OnQuerySuccess env s w = do {
     s1 \<leftarrow> set_cur_data (update_m (snd (save_req DK_m s))) s;
     Some (H_Save, s1, w) }"

definition SaveDataM_OnQueryFailed :: wstep where
  "SaveDataM_OnQueryFailed = save_answer DK_m EN_Web_DB_Error"

text \<open>The machine is told, through its machine server, that its data changed.\<close>

definition SaveDataM_OnSaveSuccess :: wstep where
  "SaveDataM_OnSaveSuccess env s w = do {
     (_, s1, w1) \<leftarrow> save_answer DK_m EN_Web_OK env s w;
     d \<leftarrow> cur_data s1;
     case mb_machinesvr_id (m_base_info d) of
       None \<Rightarrow> Some (H_Done, s1, w1)
     | Some svr_id \<Rightarrow>
         let msg = ss_msg0\<lparr>ss_body := Some (SsNotifyUpdateMachine (get0 (d_uid d)))\<rparr>;
             (_, _, w2) = SendMsgToServer env EN_2_Machine svr_id msg None w1
         in Some (H_Done, s1, w2) }"

definition SaveDataM_OnSaveFailed :: wstep where
  "SaveDataM_OnSaveFailed = save_answer DK_m EN_Web_DB_Error"

subsection \<open>message_handler_data_p.cpp\<close>

definition QueryDataP_OnMessage :: wstep where
  "QueryDataP_OnMessage env s w =
     (if query_uids DK_p s = [] then query_error DK_p EN_Web_Invalid_Params env s w
      else Some (H_Query, fold (\<lambda>u. AddQueryKey u kMLipstickInfo) (query_uids DK_p s) s, w))"

definition QueryDataP_OnQuerySuccess :: wstep where
  "QueryDataP_OnQuerySuccess = answer_query DK_p"

definition QueryDataP_OnQueryFailed :: wstep where
  "QueryDataP_OnQueryFailed = query_error DK_p EN_Web_DB_Error"

definition SaveDataP_OnMessage :: wstep where
  "SaveDataP_OnMessage env s w = Some (H_Query, AddQueryKey (fst (save_req DK_p s)) kMLipstickInfo s, w)"

text \<open>Here the sums are written into the rates themselves.\<close>

fun sums_for_rates :: "u32 \<Rightarrow> db_lottery_award list \<Rightarrow> db_lottery_award list" where
  "sums_for_rates r [] = []"
| "sums_for_rates r (a # as) = a\<lparr>la_rate := r + la_rate a\<rparr> # sums_for_rates (r + la_rate a) as"

definition update_p :: "pb_db_data \<Rightarrow> pb_db_data \<Rightarrow> pb_db_data" where
  "update_p new d = (case d_m_lipstick_info new of
     None \<Rightarrow> d
   | Some info \<Rightarrow>
       let d = set_lip (lp_max_retry_time info) (\<lambda>x i. i\<lparr>lp_max_retry_time := x\<rparr>) d
       in set_switches info (set_timeouts info (set_buy info (set_lotterys sums_for_rates info (set_prizes info d)))))"

definition SaveDataP_OnQuerySuccess :: wstep where
  "SaveDataP_OnQuerySuccess env s w = do {
     s1 \<leftarrow> set_cur_data (update_p (snd (save_req DK_p s))) s;
     Some (H_Save, s1, w) }"

definition SaveDataP_OnQueryFailed :: wstep where
  "SaveDataP_OnQueryFailed = save_answer DK_p EN_Web_DB_Error"

definition SaveDataP_OnSaveSuccess :: wstep where
  "SaveDataP_OnSaveSuccess = save_answer DK_p EN_Web_OK"

definition SaveDataP_OnSaveFailed :: wstep where
  "SaveDataP_OnSaveFailed = save_answer DK_p EN_Web_DB_Error"

subsection \<open>The classes of the handlers\<close>

definition on_query :: "lip_env \<Rightarrow> wstep \<Rightarrow> wstep \<Rightarrow> lip_world handler" where
  "on_query env f g = (lip_base env)\<lparr>h_OnMessage := f env, h_OnQuerySuccess := g env\<rparr>"

definition HandlerGMCommand :: "lip_env \<Rightarrow> lip_world handler" where
  "HandlerGMCommand env = (on_query env GMCommand_OnMessage GMCommand_OnQuerySuccess)
     \<lparr>h_OnSaveSuccess := GMCommand_OnSaveSuccess env, h_OnQueryFailed := GMCommand_OnQueryFailed env, h_OnSaveFailed := GMCommand_OnSaveFailed env\<rparr>"

definition HandlerWebUpdateConfig :: "lip_env \<Rightarrow> lip_world handler" where
  "HandlerWebUpdateConfig env = (lip_base env)\<lparr>h_OnMessage := WebUpdateConfig_OnMessage env\<rparr>"

definition HandlerWebLogin :: "lip_env \<Rightarrow> lip_world handler" where
  "HandlerWebLogin env = (on_query env WebLogin_OnMessage WebLogin_OnQuerySuccess)\<lparr>h_OnServerResponse := WebLogin_OnServerResponse env\<rparr>"

definition HandlerWebBuyIn :: "lip_env \<Rightarrow> lip_world handler" where
  "HandlerWebBuyIn env = (on_query env WebBuyIn_OnMessage WebBuyIn_OnQuerySuccess)\<lparr>h_OnServerResponse := WebBuyIn_OnServerResponse env\<rparr>"

definition HandlerWebDeleteMachine :: "lip_env \<Rightarrow> lip_world handler" where
  "HandlerWebDeleteMachine env = on_query env DeleteMachine_OnMessage DeleteMachine_OnQuerySuccess"

definition HandlerWebRestartMachine :: "lip_env \<Rightarrow> lip_world handler" where
  "HandlerWebRestartMachine env = on_query env RestartMachine_OnMessage RestartMachine_OnQuerySuccess"

definition HandlerNotifyPlayerInfo :: "lip_env \<Rightarrow> lip_world handler" where
  "HandlerNotifyPlayerInfo env = (on_query env NotifyPlayerInfo_OnMessage NotifyPlayerInfo_OnQuerySuccess)
     \<lparr>h_OnSaveSuccess := NotifyPlayerInfo_OnSaveSuccess env\<rparr>"

definition HandlerWebNotifyPoint :: "lip_env \<Rightarrow> lip_world handler" where
  "HandlerWebNotifyPoint env = (on_query env WebNotifyPoint_OnMessage WebNotifyPoint_OnQuerySuccess)
     \<lparr>h_OnQueryFailed := WebNotifyPoint_OnQueryFailed env\<rparr>"

definition HandlerPlayerCharge :: "lip_env \<Rightarrow> lip_world handler" where
  "HandlerPlayerCharge env = (on_query env PlayerCharge_OnMessage PlayerCharge_OnQuerySuccess)
     \<lparr>h_OnSaveSuccess := PlayerCharge_OnSaveSuccess env, h_OnQueryFailed := PlayerCharge_OnQueryFailed env, h_OnSaveFailed := PlayerCharge_OnSaveFailed env\<rparr>"

definition HandlerSubPrize :: "lip_env \<Rightarrow> lip_world handler" where
  "HandlerSubPrize env = (on_query env SubPrize_OnMessage SubPrize_OnQuerySuccess)
     \<lparr>h_OnSaveSuccess := SubPrize_OnSaveSuccess env, h_OnQueryFailed := SubPrize_OnQueryFailed env, h_OnSaveFailed := SubPrize_OnSaveFailed env\<rparr>"

definition HandlerQueryData :: "lip_env \<Rightarrow> lip_world handler" where
  "HandlerQueryData env = (on_query env QueryData_OnMessage QueryData_OnQuerySuccess)\<lparr>h_OnQueryFailed := QueryData_OnQueryFailed env\<rparr>"

definition HandlerQueryDataM :: "lip_env \<Rightarrow> lip_world handler" where
  "HandlerQueryDataM env = (on_query env QueryDataM_OnMessage QueryDataM_OnQuerySuccess)\<lparr>h_OnQueryFailed := QueryDataM_OnQueryFailed env\<rparr>"

definition HandlerQueryDataP :: "lip_env \<Rightarrow> lip_world handler" where
  "HandlerQueryDataP env = (on_query env QueryDataP_OnMessage QueryDataP_OnQuerySuccess)\<lparr>h_OnQueryFailed := QueryDataP_OnQueryFailed env\<rparr>"

definition HandlerQueryDataG :: "lip_env \<Rightarrow> lip_world handler" where
  "HandlerQueryDataG env = (on_query env QueryDataG_OnMessage QueryDataG_OnQuerySuccess)\<lparr>h_OnQueryFailed := QueryDataG_OnQueryFailed env\<rparr>"

definition HandlerSaveDataM :: "lip_env \<Rightarrow> lip_world handler" where
  "HandlerSaveDataM env = (on_query env SaveDataM_OnMessage SaveDataM_OnQuerySuccess)
     \<lparr>h_OnSaveSuccess := SaveDataM_OnSaveSuccess env, h_OnQueryFailed := SaveDataM_OnQueryFailed env, h_OnSaveFailed := SaveDataM_OnSaveFailed env\<rparr>"

definition HandlerSaveDataP :: "lip_env \<Rightarrow> lip_world handler" where
  "HandlerSaveDataP env = (on_query env SaveDataP_OnMessage SaveDataP_OnQuerySuccess)
     \<lparr>h_OnSaveSuccess := SaveDataP_OnSaveSuccess env, h_OnQueryFailed := SaveDataP_OnQueryFailed env, h_OnSaveFailed := SaveDataP_OnSaveFailed env\<rparr>"

definition HandlerSaveDataG :: "lip_env \<Rightarrow> lip_world handler" where
  "HandlerSaveDataG env = (on_query env SaveDataG_OnMessage SaveDataG_OnQuerySuccess)
     \<lparr>h_OnSaveSuccess := SaveDataG_OnSaveSuccess env, h_OnQueryFailed := SaveDataG_OnQueryFailed env, h_OnSaveFailed := SaveDataG_OnSaveFailed env\<rparr>"

definition web_handlers :: "lip_env \<Rightarrow> u32 \<Rightarrow> lip_world handler option" where
  "web_handlers env msg_id = map_of
     [(10004, HandlerGMCommand env), (10017, HandlerWebUpdateConfig env),
      (10014, HandlerNotifyPlayerInfo env), (10015, HandlerPlayerCharge env), (10024, HandlerSubPrize env),
      (10018, HandlerQueryData env), (10040, HandlerWebNotifyPoint env),
      (10026, HandlerQueryDataM env), (10028, HandlerSaveDataM env),
      (10032, HandlerQueryDataP env), (10034, HandlerSaveDataP env),
      (10036, HandlerQueryDataG env), (10038, HandlerSaveDataG env),
      (10010, HandlerWebLogin env), (10012, HandlerWebBuyIn env),
      (10030, HandlerWebDeleteMachine env), (10031, HandlerWebRestartMachine env)] msg_id"

definition web_Process :: "lip_env \<Rightarrow> lip_world proc" where
  "web_Process env = manager_Process env (web_handlers env)"

subsection \<open>GameServer\<close>

definition web_MessageFilter :: "lip_env \<Rightarrow> connect_head \<Rightarrow> byte list \<Rightarrow> lip_world \<Rightarrow> pb_ss_msg option \<times> lip_world" where
  "web_MessageFilter env head buf w = (case le_parse_ss env buf of
     None \<Rightarrow> (None, SendCommonErr env head EN_Result_Invalid_Msg w)
   | Some msg \<Rightarrow> (Some msg, w))"

definition web_OnClientMessage :: "lip_env \<Rightarrow> connect_head \<Rightarrow> byte list \<Rightarrow> lip_world shell \<Rightarrow> lip_world shell outcome option" where
  "web_OnClientMessage env head buf gs = (case web_MessageFilter env head buf (sh_world gs) of
     (None, w) \<Rightarrow> Some (Ret (gs\<lparr>sh_world := w\<rparr>))
   | (Some msg, w) \<Rightarrow>
       (case CreateSession (me_now env) (ss_union_case msg) (sh_sessions gs) of
          (None, sm) \<Rightarrow> Some (Ret (gs\<lparr>sh_sessions := sm, sh_world := SendCommonErr env head EN_Result_Sys_Err w\<rparr>))
        | (Some sid, sm) \<Rightarrow> run_session (web_Process env) sid
            (\<lambda>s. s\<lparr>se_msg_head := MH_connect head, se_web_msg := msg\<rparr>) (gs\<lparr>sh_sessions := sm, sh_world := w\<rparr>)))"

definition web_OnServerMessage :: "lip_env \<Rightarrow> proxy_head \<Rightarrow> byte list \<Rightarrow> lip_world shell \<Rightarrow> lip_world shell outcome option" where
  "web_OnServerMessage env head buf gs = shell_OnServerMessage env (web_Process env) head buf gs"

definition web_OnInternalMessage :: "lip_env \<Rightarrow> byte list \<Rightarrow> lip_world shell \<Rightarrow> lip_world shell outcome option" where
  "web_OnInternalMessage env buf gs = shell_OnInternalMessage env (web_Process env) buf gs"

definition web_OnRoutineCheck :: "lip_env \<Rightarrow> lip_world shell \<Rightarrow> lip_world shell" where
  "web_OnRoutineCheck env gs = shell_sessions env (shell_timers env gs)"

definition web_InitGame :: "lip_env \<Rightarrow> 'b shell_boot_scheme \<Rightarrow> lip_world \<Rightarrow> shm_world \<Rightarrow> (int \<times> lip_world shell option \<times> shm_world) option" where
  "web_InitGame env b w0 shm = (case init_managers env b shm of
     None \<Rightarrow> None
   | Some (ret, None, shm1) \<Rightarrow> Some (ret, None, shm1)
   | Some (ret, Some (sm, tm), shm1) \<Rightarrow>
       Some (0, Some \<lparr>sh_sessions = sm, sh_world = w0\<lparr>w_out := [], w_timers := tm\<rparr>, sh_timer_check = 0, sh_session_check = 0\<rparr>, shm1))"

definition web_ExitGame :: "lip_env \<Rightarrow> 'b shell_boot_scheme \<Rightarrow> lip_world shell \<Rightarrow> shm_world \<Rightarrow> shm_world" where
  "web_ExitGame env b gs shm = release_managers env b (sh_sessions gs) (w_timers (sh_world gs)) shm"

end
