(* ===== verification/WebProps.thy ===== *)
theory WebProps
  imports WebServer
begin

text \<open>
  What the web server's handlers do: which requests end in a fault and that no other does, and what
  is answered to a query of data. \<open>web\<close> is the server's instance of the contract of GameShell.
\<close>

subsection \<open>Steps that are fine\<close>

lemma wrsp_fields [simp]:
  "fine (wrsp f s) = fine s" "same_key (wrsp f s) t = same_key s t" "se_db_processs (wrsp f s) = se_db_processs s"
  "se_process_index (wrsp f s) = se_process_index s" "se_session_state (wrsp f s) = se_session_state s"
  "se_web_msg (wrsp f s) = se_web_msg s" "se_msg_head (wrsp f s) = se_msg_head s" "GetDBData i (wrsp f s) = GetDBData i s"
  by (simp_all add: wrsp_def fine_def same_key_def GetDBData_def)

lemma web_msg_fields [simp]: "fine (s\<lparr>se_web_msg := m\<rparr>) = fine s" "same_key (s\<lparr>se_web_msg := m\<rparr>) t = same_key s t"
  by (simp_all add: fine_def same_key_def)

lemma stamped_fields [simp]:
  "fine (stamped s) = fine s" "same_key (stamped s) t = same_key s t" "se_db_processs (stamped s) = se_db_processs s"
  by (simp_all add: stamped_def fine_def same_key_def)

text \<open>The session after an answer.\<close>

definition answered :: "session \<Rightarrow> session" where
  "answered s = s\<lparr>se_ss_response := (se_ss_response s)\<lparr>ss_uid := ss_uid (se_web_msg s)\<rparr>\<rparr>"

definition sent_web :: "lip_env \<Rightarrow> bool \<Rightarrow> session \<Rightarrow> lip_world \<Rightarrow> lip_world" where
  "sent_web env close s w = snd (SendMsgToWeb_to env (GetConnectHead env s) (se_ss_response (answered s)) close w)"

lemma to_web_eq: "to_web env close s w = Some (H_Done, answered s, sent_web env close s w)"
  by (simp add: to_web_def SendMsgToWeb_def answered_def sent_web_def Let_def split_beta)

lemma answered_fields [simp]:
  "fine (answered s) = fine s" "same_key (answered s) t = same_key s t" "se_db_processs (answered s) = se_db_processs s"
  "se_process_index (answered s) = se_process_index s" "cur_data (answered s) = cur_data s"
  by (simp_all add: answered_def fine_def same_key_def cur_data_def GetDBData_def)

lemma cur_data_wrsp [simp]: "cur_data (wrsp f s) = cur_data s"
  by (simp add: cur_data_def)

lemma relay_fine:
  assumes "fine s"
  shows "\<exists>s' w'. relay env t i s w = Some (H_Hup, s', w') \<and> fine s' \<and> same_key s' s"
  using assms by (auto simp: relay_def SendMsgToServer_def Let_def stamped_def fine_def same_key_def split_beta)

lemma tell_server_fine: "\<exists>w'. tell_server env t i s w = Some (H_Done, stamped s, w')"
  by (simp add: tell_server_def split_beta)

lemma queried_data: "fine s \<Longrightarrow> se_db_processs s \<noteq> [] \<Longrightarrow> \<exists>d. cur_data s = Some d"
  by (simp add: cur_data_def GetDBData_def fine_def)

lemma set_cur_fine:
  assumes "fine s" "se_db_processs s \<noteq> []"
  shows "\<exists>s'. set_cur_data f s = Some s' \<and> fine s' \<and> same_key s' s"
  using assms by (simp add: set_cur_data_def GetDBData_def Let_def fine_def [of s])

lemma on_account_fine:
  assumes "fine s" "se_db_processs s \<noteq> []"
  shows "\<exists>s' w'. on_account (\<lambda>a. ((), g a)) s w = Some ((), s', w') \<and> fine s' \<and> same_key s' s"
  using assms by (simp add: on_account_def GetDBData_def Let_def fine_def same_key_def SetDBData_def)

definition gives_fine :: "session \<Rightarrow> (hresult \<times> session \<times> 'w) option \<Rightarrow> bool" where
  "gives_fine s x \<longleftrightarrow> (\<exists>r s' w'. x = Some (r, s', w') \<and> r \<noteq> H_Next \<and> fine s' \<and> same_key s' s)"

lemma step_fineI:
  "(\<And>s w. fine s \<Longrightarrow> (q \<longrightarrow> se_db_processs s \<noteq> []) \<Longrightarrow> gives_fine s (f s w)) \<Longrightarrow> step_fine q f"
  by (simp add: step_fine_def gives_fine_def)

lemma gives_Some [simp]: "gives_fine s (Some (r, s', w')) \<longleftrightarrow> r \<noteq> H_Next \<and> fine s' \<and> same_key s' s"
  by (simp add: gives_fine_def)

lemma gives_web [simp]: "fine s \<Longrightarrow> gives_fine s (to_web env c (wrsp f s) w)" "fine s \<Longrightarrow> gives_fine s (to_web env c s w)"
  by (simp_all add: to_web_eq)

lemma gives_relay [simp]: "fine s \<Longrightarrow> gives_fine s (relay env t i s w)"
  using relay_fine [of s env t i w] by (auto simp: gives_fine_def)

lemma gives_tell [simp]: "fine s1 \<Longrightarrow> same_key s1 s \<Longrightarrow> gives_fine s (tell_server env t i s1 w)"
  using tell_server_fine [of env t i s1 w] by (auto simp: gives_fine_def)

lemma gives_data:
  assumes "fine s" "se_db_processs s \<noteq> []" "\<And>d. gives_fine s (f d)"
  shows "gives_fine s (cur_data s \<bind> f)"
  using queried_data [OF assms(1,2)] assms(3) by auto

lemma gives_set:
  assumes "fine s" "se_db_processs s \<noteq> []"
  shows "gives_fine s (set_cur_data f s \<bind> (\<lambda>s1. Some (H_Save, s1, w)))"
  using set_cur_fine [OF assms, of f] by (auto simp del: set_cur_data_Some)

lemma gives_account:
  assumes "fine s" "se_db_processs s \<noteq> []"
  shows "gives_fine s (on_account (\<lambda>a. ((), g a)) s w \<bind> (\<lambda>(_, s1, w1). Some (H_Save, s1, w1)))"
  using on_account_fine [OF assms, of g w] by (auto simp del: on_account_Some)

lemma add_keys_fine [simp]:
  "fine s \<Longrightarrow> fine (add_keys ks u s)" "same_key (add_keys ks u s) t = same_key s t"
  by (induction ks arbitrary: s) (simp_all add: add_keys_def)

lemmas answer_defs = save_answer_def query_error_def

lemma other_steps:
  "step_fine False (GMCommand_OnMessage env)" "step_fine False (GMCommand_OnQueryFailed env)"
  "step_fine False (GMCommand_OnSaveFailed env)" "step_fine True (GMCommand_OnSaveSuccess env)"
  "step_fine False (WebUpdateConfig_OnMessage env)" "step_fine False (WebLogin_OnMessage env)" "step_fine False (WebLogin_OnServerResponse env)"
  "step_fine False (WebBuyIn_OnMessage env)" "step_fine False (WebBuyIn_OnServerResponse env)" "step_fine False (DeleteMachine_OnMessage env)"
  "step_fine False (RestartMachine_OnMessage env)" "step_fine False (NotifyPlayerInfo_OnMessage env)"
  "step_fine True (NotifyPlayerInfo_OnSaveSuccess env)" "step_fine False (WebNotifyPoint_OnMessage env)"
  "step_fine False (WebNotifyPoint_OnQueryFailed env)" "step_fine False (PlayerCharge_OnMessage env)"
  "step_fine False (PlayerCharge_OnQueryFailed env)" "step_fine False (PlayerCharge_OnSaveFailed env)"
  "step_fine False (SubPrize_OnMessage env)" "step_fine False (SubPrize_OnQueryFailed env)" "step_fine True (SubPrize_OnSaveSuccess env)"
  "step_fine False (SubPrize_OnSaveFailed env)"
  "step_fine False (SaveDataG_OnMessage env)" "step_fine False (SaveDataG_OnQueryFailed env)" "step_fine True (SaveDataG_OnSaveSuccess env)"
  "step_fine False (SaveDataG_OnSaveFailed env)" "step_fine False (SaveDataM_OnMessage env)" "step_fine False (SaveDataM_OnQueryFailed env)"
  "step_fine False (SaveDataM_OnSaveFailed env)" "step_fine False (SaveDataP_OnMessage env)" "step_fine False (SaveDataP_OnQueryFailed env)"
  "step_fine True (SaveDataP_OnSaveSuccess env)" "step_fine False (SaveDataP_OnSaveFailed env)"
  by (rule step_fineI; simp add: Let_def split_beta answer_defs GMCommand_OnMessage_def GMCommand_OnQueryFailed_def GMCommand_OnSaveFailed_def
      GMCommand_OnSaveSuccess_def WebUpdateConfig_OnMessage_def WebLogin_OnMessage_def WebLogin_OnServerResponse_def WebBuyIn_OnMessage_def
      WebBuyIn_OnServerResponse_def DeleteMachine_OnMessage_def RestartMachine_OnMessage_def NotifyPlayerInfo_OnMessage_def
      NotifyPlayerInfo_OnSaveSuccess_def WebNotifyPoint_OnMessage_def WebNotifyPoint_OnQueryFailed_def PlayerCharge_OnMessage_def
      PlayerCharge_OnQueryFailed_def PlayerCharge_OnSaveFailed_def SubPrize_OnMessage_def SubPrize_OnQueryFailed_def SubPrize_OnSaveSuccess_def
      SubPrize_OnSaveFailed_def SaveDataG_OnMessage_def SaveDataG_OnQueryFailed_def SaveDataG_OnSaveSuccess_def SaveDataG_OnSaveFailed_def
      SaveDataM_OnMessage_def SaveDataM_OnQueryFailed_def SaveDataM_OnSaveFailed_def SaveDataP_OnMessage_def SaveDataP_OnQueryFailed_def
      SaveDataP_OnSaveSuccess_def SaveDataP_OnSaveFailed_def)+

lemma queried_steps:
  "step_fine True (GMCommand_OnQuerySuccess env)" "step_fine True (WebLogin_OnQuerySuccess env)" "step_fine True (WebBuyIn_OnQuerySuccess env)"
  "step_fine True (DeleteMachine_OnQuerySuccess env)" "step_fine True (RestartMachine_OnQuerySuccess env)"
  "step_fine True (NotifyPlayerInfo_OnQuerySuccess env)" "step_fine True (WebNotifyPoint_OnQuerySuccess env)"
  "step_fine True (PlayerCharge_OnQuerySuccess env)" "step_fine True (SubPrize_OnQuerySuccess env)"
  "step_fine True (SaveDataG_OnQuerySuccess env)" "step_fine True (SaveDataM_OnQuerySuccess env)" "step_fine True (SaveDataP_OnQuerySuccess env)"
  by (rule step_fineI; auto simp: Let_def GMCommand_OnQuerySuccess_def WebLogin_OnQuerySuccess_def WebBuyIn_OnQuerySuccess_def
      DeleteMachine_OnQuerySuccess_def RestartMachine_OnQuerySuccess_def tell_machinesvr_def NotifyPlayerInfo_OnQuerySuccess_def
      WebNotifyPoint_OnQuerySuccess_def PlayerCharge_OnQuerySuccess_def SubPrize_OnQuerySuccess_def SaveDataG_OnQuerySuccess_def
      SaveDataM_OnQuerySuccess_def SaveDataP_OnQuerySuccess_def split_beta simp del: on_account_Some set_cur_data_Some
      intro!: gives_data gives_set gives_account split: option.split)+

lemma saved_steps: "step_fine True (PlayerCharge_OnSaveSuccess env)" "step_fine True (SaveDataM_OnSaveSuccess env)"
  by (rule step_fineI; auto simp: PlayerCharge_OnSaveSuccess_def SaveDataM_OnSaveSuccess_def save_answer_def to_web_eq Let_def split_beta
      intro!: gives_data split: option.split)+

subsection \<open>Queries of data\<close>

primrec query_id :: "dbkind \<Rightarrow> u32" where
  "query_id DK_player = 10018" | "query_id DK_m = 10026" | "query_id DK_p = 10032" | "query_id DK_g = 10036"

text \<open>No uid twice; of the global data only what there is.\<close>

definition query_ok :: "dbkind \<Rightarrow> u64 list \<Rightarrow> bool" where
  "query_ok k us \<longleftrightarrow> distinct us \<and> (k = DK_g \<longrightarrow> set us \<subseteq> {EN_Uid_Lip_Prize})"

definition note_uid :: "u64 \<Rightarrow> u64 list \<Rightarrow> u64 list" where
  "note_uid u us = (if u \<in> set us then us else us @ [u])"

abbreviation (input) dp_uids :: "session \<Rightarrow> u64 list" where
  "dp_uids s \<equiv> map dp_uid (se_db_processs s)"

lemma uids_add_key [simp]: "map dp_uid (add_key u k ps) = note_uid u (map dp_uid ps)"
  by (induction ps) (auto simp: note_uid_def)

lemma note_twice [simp]: "note_uid u (note_uid u us) = note_uid u us"
  by (simp add: note_uid_def)

lemma uids_AddQueryKey [simp]: "dp_uids (AddQueryKey u k s) = note_uid u (dp_uids s)"
  by (simp add: AddQueryKey_def)

lemma uids_add_keys [simp]: "ks \<noteq> [] \<Longrightarrow> dp_uids (add_keys ks u s) = note_uid u (dp_uids s)"
  by (induction ks arbitrary: s rule: list_nonempty_induct) (simp_all add: add_keys_def)

lemma fold_note: "distinct acc \<Longrightarrow> distinct (fold note_uid us acc) \<and> set (fold note_uid us acc) = set acc \<union> set us"
  by (induction us arbitrary: acc) (auto simp: note_uid_def)

lemma fold_note_new: "distinct (acc @ us) \<Longrightarrow> fold note_uid us acc = acc @ us"
  by (induction us arbitrary: acc) (auto simp: note_uid_def)

lemma fold_note_length: "length (fold note_uid us []) = card (set us)"
  using fold_note [of "[]" us] by (metis distinct.simps(1) distinct_card list.set(1) sup_bot.left_neutral)

lemma uids_fold:
  assumes "\<And>u s. dp_uids (f u s) = (if P u then note_uid u (dp_uids s) else dp_uids s)"
  shows "dp_uids (fold f us s) = fold note_uid (filter P us) (dp_uids s)"
  using assms by (induction us arbitrary: s) (simp_all del: map_map)

text \<open>What each query handler asks the database for.\<close>

definition asked :: "dbkind \<Rightarrow> u64 list \<Rightarrow> u64 list" where
  "asked k us = fold note_uid (if k = DK_g then filter (\<lambda>u. u = EN_Uid_Lip_Prize) us else us) []"

lemma asked_ok: "query_ok k us \<Longrightarrow> asked k us = us"
proof -
  assume ok: "query_ok k us"
  then have "k = DK_g \<Longrightarrow> filter (\<lambda>u. u = EN_Uid_Lip_Prize) us = us" by (auto simp: query_ok_def filter_id_conv)
  with ok fold_note_new [of "[]" us] show ?thesis by (auto simp: asked_def query_ok_def)
qed

lemma asked_short: "\<not> query_ok k us \<Longrightarrow> length (asked k us) < length us"
proof -
  assume bad: "\<not> query_ok k us"
  let ?vs = "if k = DK_g then filter (\<lambda>u. u = EN_Uid_Lip_Prize) us else us"
  have le: "card (set ?vs) \<le> length ?vs" by (rule card_length)
  have lf: "length ?vs \<le> length us" by simp
  have "card (set ?vs) \<noteq> length us"
  proof
    assume e: "card (set ?vs) = length us"
    with le lf have l: "length ?vs = length us" by linarith
    have v: "?vs = us"
    proof (cases "k = DK_g")
      case True
      with l have "length (filter (\<lambda>u. u = EN_Uid_Lip_Prize) us) = length us" by simp
      then have "u = EN_Uid_Lip_Prize" if "u \<in> set us" for u
        using length_filter_less [of u us "\<lambda>u. u = EN_Uid_Lip_Prize"] that by fastforce
      then show ?thesis by (simp add: True)
    qed simp
    with e have "distinct us" by (simp add: card_distinct)
    moreover have "k = DK_g \<longrightarrow> set us \<subseteq> {EN_Uid_Lip_Prize}" using v by (auto simp: filter_id_conv split: if_splits)
    ultimately show False using bad by (simp add: query_ok_def)
  qed
  with le lf show ?thesis by (simp add: asked_def fold_note_length)
qed

lemma answer_datas_eq:
  "answer_datas i n s = (if n = 0 \<or> i + n \<le> length (se_db_processs s)
     then Some (map (\<lambda>p. case dp_player p of None \<Rightarrow> pb_db_data0 | Some d \<Rightarrow> d) (take n (drop i (se_db_processs s)))) else None)"
proof (induction n arbitrary: i)
  case (Suc n)
  show ?case
  proof (cases "i < length (se_db_processs s)")
    case True
    then have "take (Suc n) (drop i (se_db_processs s)) = se_db_processs s ! i # take n (drop (Suc i) (se_db_processs s))"
      by (simp add: Cons_nth_drop_Suc [symmetric])
    then show ?thesis using Suc.IH [of "Suc i"] True by (simp add: GetDBData_def)
  qed (simp add: GetDBData_def)
qed simp

definition query_handler :: "lip_env \<Rightarrow> dbkind \<Rightarrow> lip_world handler" where
  "query_handler env k = (case k of DK_player \<Rightarrow> HandlerQueryData env | DK_m \<Rightarrow> HandlerQueryDataM env
     | DK_p \<Rightarrow> HandlerQueryDataP env | DK_g \<Rightarrow> HandlerQueryDataG env)"

lemma web_query_handler: "web_handlers env (query_id k) = Some (query_handler env k)"
  by (cases k) (simp_all add: web_handlers_def query_handler_def)

lemmas query_handler_defs = query_handler_def HandlerQueryData_def HandlerQueryDataM_def HandlerQueryDataP_def HandlerQueryDataG_def on_query_def
  lip_base_def

lemma query_handler_parts:
  "h_OnQuerySuccess (query_handler env k) = answer_query k env" "h_OnQueryFailed (query_handler env k) = query_error k EN_Web_DB_Error env"
  "h_OnServerResponse (query_handler env k) = h_OnServerResponse (base_handler env)"
  "h_OnSaveSuccess (query_handler env k) = h_OnSaveSuccess (base_handler env)"
  "h_OnSaveFailed (query_handler env k) = h_OnSaveFailed (base_handler env)"
  by (cases k; simp add: query_handler_defs QueryData_OnQuerySuccess_def QueryDataM_OnQuerySuccess_def QueryDataP_OnQuerySuccess_def
      QueryDataG_OnQuerySuccess_def QueryData_OnQueryFailed_def QueryDataM_OnQueryFailed_def QueryDataP_OnQueryFailed_def QueryDataG_OnQueryFailed_def)+

lemma AddQueryKey_msg [simp]: "se_web_msg (AddQueryKey u k s) = se_web_msg s" "se_session_state (AddQueryKey u k s) = se_session_state s"
  by (simp_all add: AddQueryKey_def)

lemma add_keys_msg [simp]: "se_web_msg (add_keys ks u s) = se_web_msg s" "se_session_state (add_keys ks u s) = se_session_state s"
  by (induction ks arbitrary: s) (simp_all add: add_keys_def)

text \<open>What a query handler makes of the request: nothing, or a session that asks for \<open>asked k\<close>.\<close>

lemma query_message:
  assumes "se_db_processs s = []" "h_OnMessage (query_handler env k) s w = Some (r, s1, w1)"
  shows "r = H_Done \<or> r = H_Query \<and> w1 = w \<and> dp_uids s1 = asked k (query_uids k s) \<and> se_web_msg s1 = se_web_msg s
     \<and> same_key s1 s \<and> se_session_state s1 = se_session_state s \<and> (fine s \<longrightarrow> fine s1)"
proof -
  have m: "se_web_msg (fold f us t) = se_web_msg t \<and> same_key (fold f us t) t \<and> se_session_state (fold f us t) = se_session_state t \<and> (fine t \<longrightarrow> fine (fold f us t))"
    if "\<And>u v. se_web_msg (f u v) = se_web_msg v \<and> same_key (f u v) v \<and> se_session_state (f u v) = se_session_state v \<and> (fine v \<longrightarrow> fine (f u v))"
    for us t and f :: "u64 \<Rightarrow> session \<Rightarrow> session"
    using that by (induction us arbitrary: t) (simp, simp, metis same_key_trans)
  have u: "dp_uids (fold (add_keys ks) us s) = fold note_uid us []" if "ks \<noteq> []" for ks us
    using uids_fold [of "add_keys ks" "\<lambda>_. True" us s] that assms(1) by simp
  have g: "dp_uids (fold (\<lambda>u s. if u = EN_Uid_Lip_Prize then AddQueryKey u kGLipPrizeInfo s else s) us s)
      = fold note_uid (filter (\<lambda>u. u = EN_Uid_Lip_Prize) us) []" for us
    using uids_fold [of "\<lambda>u s. if u = EN_Uid_Lip_Prize then AddQueryKey u kGLipPrizeInfo s else s" "\<lambda>u. u = EN_Uid_Lip_Prize" us s] assms(1) by simp
  have p: "dp_uids (fold (\<lambda>u. AddQueryKey u kMLipstickInfo) us s) = fold note_uid us []" for us
    using uids_fold [of "\<lambda>u. AddQueryKey u kMLipstickInfo" "\<lambda>_. True" us s] assms(1) by simp
  show ?thesis
    using assms(2) m [of "add_keys _" _ s] m [of "\<lambda>u. AddQueryKey u kMLipstickInfo" _ s]
      m [of "\<lambda>u s. if u = EN_Uid_Lip_Prize then AddQueryKey u kGLipPrizeInfo s else s" _ s] u g p
    by (cases k) (auto simp: query_handler_defs QueryData_OnMessage_def QueryDataM_OnMessage_def QueryDataP_OnMessage_def
        QueryDataG_OnMessage_def query_error_def to_web_eq asked_def split: if_splits)
qed

text \<open>Property C17. The answer holds what is asked for, uid by uid, in the order of the request; a request that
  names a uid twice, or global data that does not exist, ends the process when its data is there.\<close>

theorem web_query_answers:
  assumes "se_db_processs s = []" "h_OnMessage (query_handler env k) s w = Some (H_Query, s1, w1)"
    and "dp_uids t = dp_uids s1" "se_web_msg t = se_web_msg s" "query_uids k s \<noteq> []" "\<forall>p\<in>set (se_db_processs t). dp_player p = Some (f (dp_uid p))"
  shows "h_OnQuerySuccess (query_handler env k) t v =
     (if query_ok k (query_uids k s) then to_web env False (wrsp (query_result k EN_Web_OK (map f (query_uids k s))) t) v else None)"
proof -
  let ?us = "query_uids k s" and ?ps = "se_db_processs t"
  have q: "query_uids k t = ?us" using assms(4) by (simp add: query_uids_def)
  have a: "map dp_uid ?ps = asked k ?us" using query_message [OF assms(1,2)] assms(3) by simp
  have d: "map (\<lambda>p. case dp_player p of None \<Rightarrow> pb_db_data0 | Some d \<Rightarrow> d) ?ps = map f (map dp_uid ?ps)"
    using assms(6) by (auto simp: map_eq_conv)
  have l: "length ?ps = length (asked k ?us)" using a by (metis length_map)
  show ?thesis
  proof (cases "query_ok k ?us")
    case True
    with a d l show ?thesis by (simp add: query_handler_parts answer_query_def q answer_datas_eq asked_ok)
  next
    case False
    with asked_short [OF this] l assms(5) show ?thesis by (simp add: query_handler_parts answer_query_def q answer_datas_eq)
  qed
qed

definition web_query :: "u64 list \<Rightarrow> session" where
  "web_query us = session0\<lparr>se_session_id := 1, se_msg_id := query_id DK_player,
     se_web_msg := ss_msg0\<lparr>ss_body := Some (WebReqQueryDBData DK_player us)\<rparr>\<rparr>"

definition player_data :: "u64 \<Rightarrow> pb_db_data" where
  "player_data u = pb_db_data0\<lparr>d_uid := Some u\<rparr>"

text \<open>The session of a query when the data of every uid has come.\<close>

definition all_come :: "session \<Rightarrow> session" where
  "all_come s = s\<lparr>se_db_processs := map (\<lambda>p. p\<lparr>dp_player := Some (player_data (dp_uid p))\<rparr>) (se_db_processs s)\<rparr>"

lemma web_query_answers_witness:
  "h_OnQuerySuccess (query_handler (shell_env0 (\<lambda>_. None)) DK_player)
     (all_come (fold (add_keys [kBaseInfo, kGoldInfo, kPrizeInfo, kGameInfo]) [7, 7] (web_query [7, 7]))) lip0 = None"
proof -
  let ?env = "shell_env0 (\<lambda>_. None)" and ?f = "fold (add_keys [kBaseInfo, kGoldInfo, kPrizeInfo, kGameInfo])"
  let ?s1 = "?f [7, 7] (web_query [7, 7])"
  have m: "h_OnMessage (query_handler ?env DK_player) (web_query [7, 7]) lip0 = Some (H_Query, ?s1, lip0)"
    by (simp add: query_handler_defs QueryData_OnMessage_def query_uids_def web_query_def)
  have c: "dp_uids (all_come ?s1) = dp_uids ?s1" "se_web_msg (all_come ?s1) = se_web_msg (web_query [7, 7])"
    "\<forall>p\<in>set (se_db_processs (all_come ?s1)). dp_player p = Some (player_data (dp_uid p))"
    by (simp_all add: all_come_def comp_def)
  have q: "query_uids DK_player (web_query [7, 7]) = [7, 7]" by (simp add: web_query_def query_uids_def)
  have "se_db_processs (web_query [7, 7]) = []" by (simp add: web_query_def session0_def)
  from web_query_answers [OF this m c(1,2) _ c(3), of lip0] show ?thesis by (simp add: q query_ok_def)
qed

subsection \<open>No other request ends in a fault\<close>

definition web_good :: "session \<Rightarrow> bool" where
  "web_good s \<longleftrightarrow> fine s \<and> (\<forall>k. se_msg_id s = query_id k \<longrightarrow> query_ok k (query_uids k s)
     \<and> (if se_session_state s = On_Message then se_db_processs s = [] else dp_uids s = query_uids k s))"

lemma query_id_inj [simp]: "query_id k = query_id k' \<longleftrightarrow> k = k'"
  by (cases k; cases k') simp_all

lemma web_good_query:
  "se_msg_id s = query_id k \<Longrightarrow> web_good s \<longleftrightarrow> fine s \<and> query_ok k (query_uids k s)
     \<and> (if se_session_state s = On_Message then se_db_processs s = [] else dp_uids s = query_uids k s)"
  by (auto simp: web_good_def)

lemma web_good_other: "\<forall>k. se_msg_id s \<noteq> query_id k \<Longrightarrow> web_good s = fine s"
  by (simp add: web_good_def)

lemma hashed_web_msg: "se_web_msg (fst (snd (send_hashed t env m s w))) = se_web_msg s"
  by (simp add: send_hashed_def Let_def split_beta)

lemma query_web_msg: "se_web_msg (fst (snd (build_query env ps s w))) = se_web_msg s"
  by (induction ps arbitrary: s w) (simp_all add: Let_def split_beta SendMsgToDBProxy_def hashed_web_msg)

lemma query_uids_msg: "se_web_msg t = se_web_msg s \<Longrightarrow> query_uids k t = query_uids k s"
  by (simp add: query_uids_def)

lemma SetDBData_uids: "dp_uids (SetDBData i d s) = dp_uids s"
proof (rule nth_equalityI)
  fix j assume "j < length (dp_uids (SetDBData i d s))"
  then have "j < length (se_db_processs s)" by (simp add: SetDBData_def)
  then show "dp_uids (SetDBData i d s) ! j = dp_uids s ! j"
    by (cases "i = j") (simp_all add: SetDBData_def)
qed (simp add: SetDBData_def)

lemma SetDBData_fields: "se_web_msg (SetDBData i d s) = se_web_msg s" "se_session_state (SetDBData i d s) = se_session_state s"
    "se_msg_id (SetDBData i d s) = se_msg_id s"
  by (simp_all add: SetDBData_def)

lemma web_good_like:
  assumes "web_good s" "fine t" "se_msg_id t = se_msg_id s" "se_web_msg t = se_web_msg s" "dp_uids t = dp_uids s"
    and "se_session_state t = On_Message \<longleftrightarrow> se_session_state s = On_Message"
  shows "web_good t"
proof -
  have "se_db_processs t = [] \<longleftrightarrow> se_db_processs s = []" using assms(5) by (metis map_is_Nil_conv)
  then show ?thesis using assms query_uids_msg [OF assms(4)] by (simp add: web_good_def)
qed

lemma answer_query_fine:
  assumes "query_uids k s = dp_uids t" "se_web_msg t = se_web_msg s"
  shows "\<exists>s' w'. answer_query k env t w = Some (H_Done, s', w')"
proof -
  have "length (query_uids k t) = length (se_db_processs t)" using assms query_uids_msg [of t s k] by simp
  then show ?thesis by (simp add: answer_query_def answer_datas_eq to_web_eq)
qed

text \<open>What a step of a query's handler may come to.\<close>

definition query_ends :: "dbkind \<Rightarrow> session \<Rightarrow> (hresult \<times> session \<times> lip_world) option \<Rightarrow> bool" where
  "query_ends k s x \<longleftrightarrow> (\<exists>r s1 w1. x = Some (r, s1, w1)
    \<and> (r = H_Done \<or> r = H_Failed \<or> r = H_Hup \<and> web_good s1 \<and> same_key s1 s
       \<or> r = H_Query \<and> fine s1 \<and> same_key s1 s \<and> se_web_msg s1 = se_web_msg s \<and> dp_uids s1 = query_uids k s))"

lemma ends_done: "\<exists>s1 w1. x = Some (H_Done, s1, w1) \<Longrightarrow> query_ends k s x"
  by (auto simp: query_ends_def)

lemma query_step:
  assumes good: "web_good s" and k: "se_msg_id s = query_id k"
  shows "query_ends k s (case se_session_state s of On_Message \<Rightarrow> h_OnMessage (query_handler env k) s w
      | Wait_Response \<Rightarrow> h_OnServerResponse (query_handler env k) s w | Wait_Query \<Rightarrow> QueryResponse env (query_handler env k) s w
      | Wait_Save \<Rightarrow> SaveResponse env (query_handler env k) s w)"
proof -
  let ?h = "query_handler env k" and ?us = "query_uids k s"
  have g: "fine s" "query_ok k ?us" "se_session_state s \<noteq> On_Message \<Longrightarrow> dp_uids s = ?us"
    "se_session_state s = On_Message \<Longrightarrow> se_db_processs s = []"
    using good by (auto simp: web_good_query [OF k] split: if_splits)
  have failed: "query_ends k s (h_OnQueryFailed ?h t v)" "query_ends k s (h_OnSaveFailed ?h t v)" for t v
    by (simp_all add: query_ends_def query_handler_parts query_error_def to_web_eq base_handler_def)
  have success: "query_ends k s (h_OnQuerySuccess ?h t v)" if "dp_uids t = ?us" "se_web_msg t = se_web_msg s" for t v
    unfolding query_handler_parts by (rule ends_done, rule answer_query_fine) (use that in simp_all)
  show ?thesis
  proof (cases "se_session_state s")
    case On_Message
    show ?thesis
    proof (cases "h_OnMessage ?h s w")
      case None
      then show ?thesis by (cases k) (simp_all add: query_handler_defs QueryData_OnMessage_def QueryDataM_OnMessage_def
          QueryDataP_OnMessage_def QueryDataG_OnMessage_def query_error_def to_web_eq split: if_splits)
    next
      case (Some x)
      obtain r s1 w1 where x: "x = (r, s1, w1)" by (rule prod_cases3)
      from query_message [OF g(4) [OF On_Message] Some [unfolded x]] g(1) asked_ok [OF g(2)]
      show ?thesis by (auto simp: On_Message Some x query_ends_def)
    qed
  next
    case Wait_Response
    then show ?thesis by (simp add: query_handler_parts base_handler_def query_ends_def)
  next
    case Wait_Query
    have u: "dp_uids s = ?us" using g(3) Wait_Query by simp
    have "web_good (SetDBData i d s)" for i d
      by (rule web_good_like [OF good]) (use g(1) in \<open>simp_all add: SetDBData_uids SetDBData_fields\<close>)
    then have up: "query_ends k s (Some (H_Hup, SetDBData i d s, w))" for i d
      by (simp add: query_ends_def)
    have q: "query_ends k s (h_OnQuerySuccess ?h (SetDBData i d s) w)" for i d
      by (rule success) (use u in \<open>simp_all add: SetDBData_uids SetDBData_fields\<close>)
    show ?thesis unfolding Wait_Query session_state.case
      using failed(1) q up by (simp add: QueryResponse_def Let_def split: prod.split option.split)
  next
    case Wait_Save
    have u: "dp_uids s = ?us" using g(3) Wait_Save by simp
    have saved: "query_ends k s (h_OnSaveSuccess ?h s w)"
      by (simp add: query_ends_def query_handler_parts base_handler_def split_beta Let_def)
    have redo: "query_ends k s (h_OnQuerySuccess ?h (ClearEvents (SetDBData i d (s\<lparr>se_redo_count := c\<rparr>))) w)" for i d c
      by (rule success) (use u SetDBData_uids [of i d "s\<lparr>se_redo_count := c\<rparr>"] in \<open>simp_all add: ClearEvents_def SetDBData_fields\<close>)
    show ?thesis unfolding Wait_Save session_state.case
      using failed(2) saved redo by (simp add: SaveResponse_def Let_def split: prod.split option.split)
  qed
qed

definition ends_good :: "session \<Rightarrow> (session option \<times> 'w) outcome option \<Rightarrow> bool" where
  "ends_good s x \<longleftrightarrow> (\<exists>so w'. x = Some (Ret (so, w')) \<and> (\<forall>s'. so = Some s' \<longrightarrow> web_good s' \<and> same_key s' s))"

lemma query_loop_good:
  assumes good: "web_good s" and k: "se_msg_id s = query_id k" and x: "query_ends k s (Some (r, s1, w1))"
  shows "ends_good s (process_loop env h r s1 w1)"
proof -
  consider "r = H_Done \<or> r = H_Failed" | "r = H_Hup" "web_good s1" "same_key s1 s"
    | "r = H_Query" "fine s1" "same_key s1 s" "se_web_msg s1 = se_web_msg s" "dp_uids s1 = query_uids k s"
    using x by (auto simp: query_ends_def)
  then show ?thesis
  proof cases
    case 1
    then show ?thesis by (subst process_loop.simps) (auto simp: ends_good_def ProcessDone_def ProcessFailed_def)
  next
    case 2
    then show ?thesis by (subst process_loop.simps) (simp add: ends_good_def)
  next
    case 3
    obtain r2 s2 w2 where q: "QueryAllData env s1 w1 = (r2, s2, w2)" by (rule prod_cases3)
    note f = query_fine [OF 3(2) q]
    have "web_good s2" if "r2 = H_Hup"
    proof -
      have e: "se_session_state s2 = Wait_Query" "se_web_msg s2 = se_web_msg s1" "dp_uids s2 = dp_uids s1"
        using q that query_web_msg [of env "se_db_processs s1" s1 w1] build_query_fields [of env "se_db_processs s1" s1 w1]
        by (auto simp: QueryAllData_def SendQueryToDBProxy_def split_beta split: if_splits)
      have i: "se_msg_id s2 = query_id k" using f 3(3) k by (simp add: same_key_def)
      have "query_uids k s2 = query_uids k s" using e(2) 3(4) query_uids_msg by metis
      then show ?thesis using f e 3(5) good unfolding web_good_query [OF i] by (simp add: web_good_query [OF k])
    qed
    moreover have "same_key s2 s" using f 3(3) same_key_trans by blast
    moreover have "r2 = H_Hup \<or> r2 = H_Failed" using f by simp
    ultimately have "ends_good s (process_loop env h r2 s2 w2)"
      by (subst process_loop.simps) (auto simp: ends_good_def ProcessFailed_def)
    then show ?thesis by (subst process_loop.simps) (simp add: 3(1) q)
  qed
qed

text \<open>The other handlers keep the contract of \<open>GameShell\<close>.\<close>

lemma web_handler_fine:
  assumes "web_handlers env i = Some h" "\<forall>k. i \<noteq> query_id k"
  shows "handler_fine h"
proof -
  have "i \<noteq> 10018" "i \<noteq> 10026" "i \<noteq> 10032" "i \<noteq> 10036"
    using assms(2) query_id.simps by metis+
  then show ?thesis using assms(1) other_steps queried_steps saved_steps
    by (auto simp: web_handlers_def handler_fine_def on_query_def lip_base_def HandlerGMCommand_def HandlerWebUpdateConfig_def
        HandlerNotifyPlayerInfo_def HandlerPlayerCharge_def HandlerSubPrize_def HandlerWebNotifyPoint_def HandlerSaveDataM_def
        HandlerSaveDataP_def HandlerSaveDataG_def HandlerWebLogin_def HandlerWebBuyIn_def HandlerWebDeleteMachine_def
        HandlerWebRestartMachine_def split: if_splits)
qed

lemma web_Process_good:
  assumes "web_good s"
  shows "ends_good s (web_Process env s w)"
proof (cases "\<exists>k. se_msg_id s = query_id k")
  case True
  then obtain k where k: "se_msg_id s = query_id k" by blast
  from query_step [OF assms k, of env w] obtain r s1 w1 where x: "(case se_session_state s of
      On_Message \<Rightarrow> h_OnMessage (query_handler env k) s w | Wait_Response \<Rightarrow> h_OnServerResponse (query_handler env k) s w
      | Wait_Query \<Rightarrow> QueryResponse env (query_handler env k) s w | Wait_Save \<Rightarrow> SaveResponse env (query_handler env k) s w) = Some (r, s1, w1)"
    by (auto simp: query_ends_def)
  have "query_ends k s (Some (r, s1, w1))" using query_step [OF assms k, of env w] unfolding x .
  from query_loop_good [OF assms k this, of env "query_handler env k"]
  show ?thesis by (simp add: web_Process_def manager_Process_def k web_query_handler Process_def x)
next
  case False
  then have o: "\<forall>k. se_msg_id s \<noteq> query_id k" by blast
  show ?thesis
  proof (cases "web_handlers env (se_msg_id s)")
    case None
    with assms show ?thesis by (simp add: web_Process_def manager_Process_def ends_good_def)
  next
    case (Some h)
    have "ends_fine s (Process env h s w)"
      by (rule Process_fine [OF web_handler_fine [OF Some o]]) (use assms in \<open>simp add: web_good_def\<close>)
    moreover have "web_good s'" if "fine s'" "same_key s' s" for s'
      using that o by (simp add: web_good_def same_key_def)
    ultimately show ?thesis by (auto simp: web_Process_def manager_Process_def Some ends_fine_def ends_good_def)
  qed
qed

interpretation web: session_keeper "web_Process env" web_good
proof unfold_locales
  show "\<exists>so w'. web_Process env s w = Some (Ret (so, w')) \<and> (\<forall>s'. so = Some s' \<longrightarrow> web_good s' \<and> se_session_id s' = se_session_id s)"
    if "web_good s" for s w
    using web_Process_good [OF that, of env w] unfolding ends_good_def same_key_def by blast
qed

lemma web_good_fill [simp]:
  "web_good (s\<lparr>se_msg_head := h, se_ss_msg := m\<rparr>) = web_good s" "web_good (s\<lparr>se_ss_response := m\<rparr>) = web_good s"
  "web_good (s\<lparr>se_inter_msg := i\<rparr>) = web_good s"
  by (simp_all add: web_good_def query_uids_def)

lemma web_good_new [simp]: "web_good (new_session j i now)"
  by (simp add: web_good_def) (simp add: new_session_def session0_def query_uids_def ss_msg0_def query_ok_def)

definition web_msg_ok :: "pb_ss_msg \<Rightarrow> bool" where
  "web_msg_ok msg \<longleftrightarrow> (case ss_body msg of Some (WebReqQueryDBData k us) \<Rightarrow> query_ok k us | _ \<Rightarrow> True)"

lemma web_good_request:
  assumes "web_msg_ok msg"
  shows "web_good ((new_session j i now)\<lparr>se_msg_head := h, se_web_msg := msg\<rparr>)"
proof -
  have "query_ok k (query_uids k ((new_session j i now)\<lparr>se_msg_head := h, se_web_msg := msg\<rparr>))" for k
    using assms by (auto simp: web_msg_ok_def query_uids_def query_ok_def split: option.splits ss_body.splits)
  moreover have "fine ((new_session j i now)\<lparr>se_msg_head := h, se_web_msg := msg\<rparr>)"
    by (simp add: fine_def new_session_def session0_def)
  ultimately show ?thesis by (simp add: web_good_def) (simp add: new_session_def session0_def)
qed

datatype web_event = WE_Client connect_head "byte list" | WE_Server proxy_head "byte list" | WE_Internal "byte list" | WE_Routine

definition web_step :: "lip_env \<times> web_event \<Rightarrow> lip_world shell \<Rightarrow> lip_world shell outcome option" where
  "web_step e gs = (case snd e of
     WE_Client head buf \<Rightarrow> web_OnClientMessage (fst e) head buf gs
   | WE_Server head buf \<Rightarrow> web_OnServerMessage (fst e) head buf gs
   | WE_Internal buf \<Rightarrow> web_OnInternalMessage (fst e) buf gs
   | WE_Routine \<Rightarrow> Some (Ret (web_OnRoutineCheck (fst e) gs)))"

text \<open>The requests that queries of data are made of are sound.\<close>

definition web_event_ok :: "lip_env \<times> web_event \<Rightarrow> bool" where
  "web_event_ok e = (case snd e of
     WE_Client _ buf \<Rightarrow> (case le_parse_ss (fst e) buf of None \<Rightarrow> True | Some msg \<Rightarrow> web_msg_ok msg)
   | _ \<Rightarrow> True)"

lemma web_client_good:
  assumes ok: "pool_good web_good gs" and e: "web_event_ok (env, WE_Client head buf)"
  shows "\<exists>gs'. web_OnClientMessage env head buf gs = Some (Ret gs') \<and> pool_good web_good gs'"
proof (cases "le_parse_ss env buf")
  case (Some msg)
  have m: "web_msg_ok msg" using e Some by (simp add: web_event_ok_def)
  let ?prepare = "\<lambda>s. s\<lparr>se_msg_head := MH_connect head, se_web_msg := msg\<rparr>"
  have "\<exists>gs'. open_session env (web_Process env) (ss_union_case msg) ?prepare gs = Some (Ret gs') \<and> pool_good web_good gs'"
    using ok web_good_request [OF m] by (intro web.open_good) simp_all
  moreover have "gs\<lparr>sh_sessions := b, sh_world := sh_world gs\<rparr> = gs\<lparr>sh_sessions := b\<rparr>" for b by simp
  ultimately show ?thesis using Some
    by (cases "CreateSession (me_now env) (ss_union_case msg) (sh_sessions gs)"; cases "fst (CreateSession (me_now env) (ss_union_case msg) (sh_sessions gs))")
       (auto simp: web_OnClientMessage_def web_MessageFilter_def open_session_def pool_good_def)
qed (use ok in \<open>simp add: web_OnClientMessage_def web_MessageFilter_def pool_good_def\<close>)

lemma pool_good_checks:
  "pool_good ok gs \<Longrightarrow> pool_good ok (shell_timers env gs)" "pool_good ok gs \<Longrightarrow> pool_good ok (shell_sessions env gs)"
  using sessions.release_all [of "sh_sessions gs"]
  by (auto simp: shell_timers_def shell_sessions_def pool_good_def CheckTimeOut_def Let_def split_beta split: if_splits)

lemma web_step_good:
  assumes ok: "pool_good web_good gs" and e: "web_event_ok e"
  shows "\<exists>gs'. web_step e gs = Some (Ret gs') \<and> pool_good web_good gs'"
proof -
  obtain env x where x: "e = (env, x)" by (cases e)
  have opened: "\<exists>gs'. open_session env (web_Process env) i prepare gs = Some (Ret gs') \<and> pool_good web_good gs'"
    if "\<And>j. web_good (prepare (new_session j i (me_now env)))" "\<And>s. se_session_id (prepare s) = se_session_id s" for i prepare
    by (intro web.open_good ok that) simp_all
  have resumed: "\<exists>gs'. run_session (web_Process env) sid (\<lambda>s. s\<lparr>se_ss_response := m\<rparr>) gs = Some (Ret gs') \<and> pool_good web_good gs'" for sid m
    using pool_goodD(2) [OF ok] by (intro web.run_good ok) simp_all
  have server: "\<exists>gs'. web_OnServerMessage env head buf gs = Some (Ret gs') \<and> pool_good web_good gs'" for head buf
    using opened resumed ok by (simp add: web_OnServerMessage_def shell_OnServerMessage_def split: option.split)
  have internal: "\<exists>gs'. web_OnInternalMessage env buf gs = Some (Ret gs') \<and> pool_good web_good gs'" for buf
    using opened ok by (simp add: web_OnInternalMessage_def shell_OnInternalMessage_def split: option.split)
  show ?thesis
    using web_client_good [OF ok] e server internal ok
    by (cases x) (simp_all add: x web_step_def web_OnRoutineCheck_def pool_good_checks)
qed

text \<open>Property C16. Whatever the web pages, the other servers and the database send: as long as no request names a uid twice
  or asks for global data that does not exist, no call faults or runs forever, and the sessions stay sound.\<close>

theorem web_runs:
  assumes "pool_good web_good gs" "\<forall>e\<in>set es. web_event_ok e"
  shows "\<exists>gs'. shell_run web_step es gs = Some (Ret gs') \<and> pool_good web_good gs'"
  using assms
proof (induction es arbitrary: gs)
  case (Cons e es)
  obtain gs1 where "web_step e gs = Some (Ret gs1)" "pool_good web_good gs1"
    using web_step_good [OF Cons.prems(1), of e] Cons.prems(2) by auto
  with Cons.IH [of gs1] Cons.prems(2) show ?case by simp
qed simp

definition web0 :: "lip_world shell" where
  "web0 = \<lparr>sh_sessions = session_mgr0 4, sh_world = lip0, sh_timer_check = 0, sh_session_check = 0\<rparr>"

lemma web0_good: "pool_good web_good web0"
  by (simp add: pool_good_def web0_def)

definition web_env0 :: "ss_body \<Rightarrow> lip_env" where
  "web_env0 body = shell_env0 (\<lambda>bs. if bs = [1] then Some (ss_msg0\<lparr>ss_body := Some body\<rparr>) else None)"

text \<open>A page asks for the data of two players, then sends what cannot be read.\<close>

lemma web_runs_witness:
  "\<exists>gs'. shell_run web_step [(web_env0 (WebReqQueryDBData DK_player [7, 8]), WE_Client head7 [1]), (web_env0 (WebReqQueryDBData DK_player [7, 8]), WE_Client head7 [2])] web0
     = Some (Ret gs') \<and> pool_good web_good gs'"
  by (rule web_runs [OF web0_good])
     (simp add: web_event_ok_def web_env0_def shell_env0_def msg_env.defs web_msg_ok_def query_ok_def)

end
