(* ===== verification/WebData.thy ===== *)
theory WebData
  imports WebProps
begin

text \<open>
  What the web server's requests do to the data: how a change of a machine's or a promoter's data
  is merged into what is stored, how prizes are taken from a player, which changes are never
  answered, the words of a command, and the way of a login to the game server and back.
\<close>

subsection \<open>Changes of machine data\<close>

definition newer :: "'a option \<Rightarrow> 'a option \<Rightarrow> 'a option" where
  "newer x y = (if x = None then y else x)"

text \<open>The specification: what is sent replaces what is stored, part by part.\<close>

definition merged_base :: "db_m_base_info option \<Rightarrow> db_m_base_info \<Rightarrow> db_m_base_info" where
  "merged_base x i = (case x of
     None \<Rightarrow> i
   | Some n \<Rightarrow> i\<lparr>mb_game_type := newer (mb_game_type n) (mb_game_type i), mb_promoter_id := newer (mb_promoter_id n) (mb_promoter_id i)\<rparr>)"

definition merged_lip :: "(db_lottery_award list \<Rightarrow> db_lottery_award list) \<Rightarrow> db_m_lipstick_info \<Rightarrow> db_m_lipstick_info \<Rightarrow> db_m_lipstick_info" where
  "merged_lip rates n i =
     (let rounds = (lp_round_knives n \<noteq> [] \<and> length (lp_round_knives n) = length (lp_round_timeouts n)) in
      \<lparr>lp_version = lp_version i, lp_cost = newer (lp_cost n) (lp_cost i),
       lp_prizes = (if lp_prizes n = [] then lp_prizes i else lp_prizes n),
       lp_lottery_awards = (if length (lp_lottery_awards n) = 12 then rates (lp_lottery_awards n) else lp_lottery_awards i),
       lp_buy_consume = newer (lp_buy_consume n) (lp_buy_consume i), lp_buy_fail = newer (lp_buy_fail n) (lp_buy_fail i),
       lp_buy_time = newer (lp_buy_time n) (lp_buy_time i),
       lp_round_knives = (if rounds then lp_round_knives n else lp_round_knives i),
       lp_round_timeouts = (if rounds then lp_round_timeouts n else lp_round_timeouts i),
       lp_start_timeout = newer (lp_start_timeout n) (lp_start_timeout i), lp_retry_timeout = newer (lp_retry_timeout n) (lp_retry_timeout i),
       lp_lottery_timeout = newer (lp_lottery_timeout n) (lp_lottery_timeout i),
       lp_lottery_ani_timeout = newer (lp_lottery_ani_timeout n) (lp_lottery_ani_timeout i),
       lp_buy_timeout = newer (lp_buy_timeout n) (lp_buy_timeout i), lp_buy_ani_timeout = newer (lp_buy_ani_timeout n) (lp_buy_ani_timeout i),
       lp_game_succ_timeout = newer (lp_game_succ_timeout n) (lp_game_succ_timeout i),
       lp_retry_switch = newer (lp_retry_switch n) (lp_retry_switch i), lp_lottery_switch = newer (lp_lottery_switch n) (lp_lottery_switch i),
       lp_buy_switch = newer (lp_buy_switch n) (lp_buy_switch i), lp_max_retry_time = newer (lp_max_retry_time n) (lp_max_retry_time i)\<rparr>)"

text \<open>The chance of each award of the lottery together with those before it.\<close>

definition with_sums :: "db_lottery_award list \<Rightarrow> db_lottery_award list" where
  "with_sums as = map (\<lambda>i. (as ! i)\<lparr>la_sum_rate := sum_list (map la_rate (take (Suc i) as))\<rparr>) [0..<length as]"

lemma sum_rates_nth:
  "length (sum_rates r as) = length as"
  "i < length as \<Longrightarrow> sum_rates r as ! i = (as ! i)\<lparr>la_sum_rate := r + sum_list (map la_rate (take (Suc i) as))\<rparr>"
proof (induction as arbitrary: r i)
  case (Cons a as)
  { case 1 then show ?case using Cons.IH(1) by simp }
  { case 2 then show ?case using Cons.IH(2) by (cases i) (simp_all add: add.assoc) }
qed simp_all

lemma sum_rates_spec: "sum_rates 0 as = with_sums as"
  by (rule nth_equalityI) (simp_all add: sum_rates_nth with_sums_def)

lemma sums_for_rates_nth:
  "length (sums_for_rates r as) = length as"
  "i < length as \<Longrightarrow> sums_for_rates r as ! i = (as ! i)\<lparr>la_rate := r + sum_list (map la_rate (take (Suc i) as))\<rparr>"
proof (induction as arbitrary: r i)
  case (Cons a as)
  { case 1 then show ?case using Cons.IH(1) by simp }
  { case 2 then show ?case using Cons.IH(2) by (cases i) (simp_all add: add.assoc) }
qed simp_all

text \<open>A setter is an update of its field that keeps the old value when none is sent.\<close>

lemma set_fields:
  "m_lipstick_info (set_lip x0 (\<lambda>x i. i\<lparr>lp_cost := x\<rparr>) d) = (m_lipstick_info d)\<lparr>lp_cost := newer x0 (lp_cost (m_lipstick_info d))\<rparr>"
  "m_lipstick_info (set_lip x1 (\<lambda>x i. i\<lparr>lp_max_retry_time := x\<rparr>) d) = (m_lipstick_info d)\<lparr>lp_max_retry_time := newer x1 (lp_max_retry_time (m_lipstick_info d))\<rparr>"
  "m_lipstick_info (set_lip x2 (\<lambda>x i. i\<lparr>lp_buy_consume := x\<rparr>) d) = (m_lipstick_info d)\<lparr>lp_buy_consume := newer x2 (lp_buy_consume (m_lipstick_info d))\<rparr>"
  "m_lipstick_info (set_lip x3 (\<lambda>x i. i\<lparr>lp_buy_fail := x\<rparr>) d) = (m_lipstick_info d)\<lparr>lp_buy_fail := newer x3 (lp_buy_fail (m_lipstick_info d))\<rparr>"
  "m_lipstick_info (set_lip x4 (\<lambda>x i. i\<lparr>lp_buy_time := x\<rparr>) d) = (m_lipstick_info d)\<lparr>lp_buy_time := newer x4 (lp_buy_time (m_lipstick_info d))\<rparr>"
  "m_lipstick_info (set_lip x5 (\<lambda>x i. i\<lparr>lp_start_timeout := x\<rparr>) d) = (m_lipstick_info d)\<lparr>lp_start_timeout := newer x5 (lp_start_timeout (m_lipstick_info d))\<rparr>"
  "m_lipstick_info (set_lip x6 (\<lambda>x i. i\<lparr>lp_retry_timeout := x\<rparr>) d) = (m_lipstick_info d)\<lparr>lp_retry_timeout := newer x6 (lp_retry_timeout (m_lipstick_info d))\<rparr>"
  "m_lipstick_info (set_lip x7 (\<lambda>x i. i\<lparr>lp_lottery_timeout := x\<rparr>) d) = (m_lipstick_info d)\<lparr>lp_lottery_timeout := newer x7 (lp_lottery_timeout (m_lipstick_info d))\<rparr>"
  "m_lipstick_info (set_lip x8 (\<lambda>x i. i\<lparr>lp_lottery_ani_timeout := x\<rparr>) d) = (m_lipstick_info d)\<lparr>lp_lottery_ani_timeout := newer x8 (lp_lottery_ani_timeout (m_lipstick_info d))\<rparr>"
  "m_lipstick_info (set_lip x9 (\<lambda>x i. i\<lparr>lp_buy_timeout := x\<rparr>) d) = (m_lipstick_info d)\<lparr>lp_buy_timeout := newer x9 (lp_buy_timeout (m_lipstick_info d))\<rparr>"
  "m_lipstick_info (set_lip x10 (\<lambda>x i. i\<lparr>lp_buy_ani_timeout := x\<rparr>) d) = (m_lipstick_info d)\<lparr>lp_buy_ani_timeout := newer x10 (lp_buy_ani_timeout (m_lipstick_info d))\<rparr>"
  "m_lipstick_info (set_lip x11 (\<lambda>x i. i\<lparr>lp_game_succ_timeout := x\<rparr>) d) = (m_lipstick_info d)\<lparr>lp_game_succ_timeout := newer x11 (lp_game_succ_timeout (m_lipstick_info d))\<rparr>"
  "m_lipstick_info (set_lip x12 (\<lambda>x i. i\<lparr>lp_retry_switch := x\<rparr>) d) = (m_lipstick_info d)\<lparr>lp_retry_switch := newer x12 (lp_retry_switch (m_lipstick_info d))\<rparr>"
  "m_lipstick_info (set_lip x13 (\<lambda>x i. i\<lparr>lp_lottery_switch := x\<rparr>) d) = (m_lipstick_info d)\<lparr>lp_lottery_switch := newer x13 (lp_lottery_switch (m_lipstick_info d))\<rparr>"
  "m_lipstick_info (set_lip x14 (\<lambda>x i. i\<lparr>lp_buy_switch := x\<rparr>) d) = (m_lipstick_info d)\<lparr>lp_buy_switch := newer x14 (lp_buy_switch (m_lipstick_info d))\<rparr>"
  by (simp_all add: set_lip_def newer_def)

lemma set_lists:
  "m_lipstick_info (set_prizes n d) = (m_lipstick_info d)\<lparr>lp_prizes := (if lp_prizes n = [] then lp_prizes (m_lipstick_info d) else lp_prizes n)\<rparr>"
  "m_lipstick_info (set_lotterys rs n d) = (m_lipstick_info d)\<lparr>lp_lottery_awards :=
     (if length (lp_lottery_awards n) = 12 then rs 0 (lp_lottery_awards n) else lp_lottery_awards (m_lipstick_info d))\<rparr>"
  by (simp_all add: set_prizes_def set_lotterys_def)

definition rounds_sent :: "db_m_lipstick_info \<Rightarrow> bool" where
  "rounds_sent n \<longleftrightarrow> lp_round_knives n \<noteq> [] \<and> length (lp_round_knives n) = length (lp_round_timeouts n)"

lemma set_buy_merged:
  "m_lipstick_info (set_buy n d) = (let i = m_lipstick_info d in i\<lparr>lp_buy_consume := newer (lp_buy_consume n) (lp_buy_consume i),
     lp_buy_fail := newer (lp_buy_fail n) (lp_buy_fail i), lp_buy_time := newer (lp_buy_time n) (lp_buy_time i),
     lp_round_knives := (if rounds_sent n then lp_round_knives n else lp_round_knives i),
     lp_round_timeouts := (if rounds_sent n then lp_round_timeouts n else lp_round_timeouts i)\<rparr>)"
  unfolding set_buy_def Let_def rounds_sent_def [symmetric] by (cases "rounds_sent n") (simp_all add: set_fields)

lemma common_merged:
  assumes "m_lipstick_info d1 = i\<lparr>lp_cost := newer (lp_cost n) (lp_cost i), lp_max_retry_time := newer (lp_max_retry_time n) (lp_max_retry_time i)\<rparr>"
  shows "m_lipstick_info (set_switches n (set_timeouts n (set_buy n (set_lotterys rates n (set_prizes n d1))))) = merged_lip (rates 0) n i"
  unfolding set_switches_def set_timeouts_def Let_def set_fields set_buy_merged set_lists assms merged_lip_def rounds_sent_def [symmetric]
  by (cases i) simp

lemma set_others:
  "m_base_info (set_lip x f d) = m_base_info d" "m_base_info (set_prizes n d) = m_base_info d"
  "m_base_info (set_lotterys rs n d) = m_base_info d" "m_base_info (set_buy n d) = m_base_info d"
  "m_base_info (set_timeouts n d) = m_base_info d" "m_base_info (set_switches n d) = m_base_info d"
  "m_lipstick_info (set_base y g d) = m_lipstick_info d"
  by (simp_all add: set_lip_def set_prizes_def set_lotterys_def set_buy_def set_timeouts_def set_switches_def set_base_def Let_def)

lemma set_base_fields:
  "m_base_info (set_base x (\<lambda>x i. i\<lparr>mb_game_type := x\<rparr>) d) = (m_base_info d)\<lparr>mb_game_type := newer x (mb_game_type (m_base_info d))\<rparr>"
  "m_base_info (set_base y (\<lambda>x i. i\<lparr>mb_promoter_id := x\<rparr>) d) = (m_base_info d)\<lparr>mb_promoter_id := newer y (mb_promoter_id (m_base_info d))\<rparr>"
  by (simp_all add: set_base_def newer_def)

text \<open>Property C18. A change of a machine's data is merged field by field: what is sent replaces what is stored, what
  is not sent stays, and each award of the lottery gets the sum of the rates up to it, by which the game draws.\<close>

theorem update_m_merges:
  "m_base_info (update_m new d) = merged_base (d_m_base_info new) (m_base_info d)
   \<and> m_lipstick_info (update_m new d) = (case d_m_lipstick_info new of
       None \<Rightarrow> m_lipstick_info d | Some n \<Rightarrow> merged_lip with_sums n (m_lipstick_info d))"
proof
  show "m_base_info (update_m new d) = merged_base (d_m_base_info new) (m_base_info d)"
    by (simp add: update_m_def Let_def set_others set_base_fields merged_base_def split: option.split)
  have c: "merged_lip with_sums n i = merged_lip (sum_rates 0) n i" for n i by (simp add: merged_lip_def sum_rates_spec)
  show "m_lipstick_info (update_m new d) = (case d_m_lipstick_info new of
       None \<Rightarrow> m_lipstick_info d | Some n \<Rightarrow> merged_lip with_sums n (m_lipstick_info d))"
    by (simp add: update_m_def Let_def c set_others set_fields split: option.split)
       (auto intro!: common_merged simp: set_others set_fields)
qed

text \<open>A promoter's lottery is stored with the sums in the place of the rates themselves.\<close>

lemma update_p_rates:
  assumes "d_m_lipstick_info new = Some n" "length (lp_lottery_awards n) = 12" "i < 12"
  shows "lp_lottery_awards (m_lipstick_info (update_p new d)) ! i
     = (lp_lottery_awards n ! i)\<lparr>la_rate := sum_list (map la_rate (take (Suc i) (lp_lottery_awards n)))\<rparr>"
  using assms sums_for_rates_nth(2) [of i "lp_lottery_awards n" 0]
  unfolding update_p_def set_switches_def set_timeouts_def Let_def option.case(2) assms(1) set_fields set_buy_merged set_lists
  by simp

subsection \<open>Prizes taken from a player\<close>

definition wanted :: "u64 \<Rightarrow> db_prize list \<Rightarrow> nat" where
  "wanted q ps = (case find (\<lambda>p. pz_id p = q) ps of None \<Rightarrow> 0 | Some p \<Rightarrow> unat (pz_num p))"

definition prizes_replaced :: "db_prize list \<Rightarrow> pb_db_data \<Rightarrow> pb_db_data" where
  "prizes_replaced ps d = mut_prize_info (\<lambda>info. info\<lparr>pi_prizes := ps\<rparr>) d"

lemma sub_prize_other:
  "ac_db (PlayerSubPrize pid num a) = prizes_replaced (pi_prizes (prize_info (ac_db (PlayerSubPrize pid num a)))) (ac_db a)"
  "ac_events (PlayerSubPrize pid num a) = ac_events a" "ac_points (PlayerSubPrize pid num a) = ac_points a"
  unfolding PlayerSubPrize_def prizes_replaced_def upd_db_def by (simp_all add: mut_prize_info_def set_dirty_def prize_info_def)

lemma prizes_replaced_twice: "prizes_replaced ps (prizes_replaced qs d) = prizes_replaced ps d"
  by (simp add: prizes_replaced_def mut_prize_info_def set_dirty_def prize_info_def)

lemma sub_prizes:
  assumes "prizes_ok (ac_db a)" "distinct (map pz_id ps)"
  shows "let b = foldl (\<lambda>a p. PlayerSubPrize (pz_id p) (pz_num p) a) a ps in
     prizes_ok (ac_db b) \<and> ac_db b = (if ps = [] then ac_db a else prizes_replaced (pi_prizes (prize_info (ac_db b))) (ac_db a))
     \<and> ac_events b = ac_events a \<and> ac_points b = ac_points a
     \<and> (\<forall>q. unat (GetPlayerPrizeNum_of (ac_db b) q) = unat (GetPlayerPrizeNum_of (ac_db a) q) - wanted q ps)"
  using assms
proof (induction ps arbitrary: a)
  case (Cons p ps)
  let ?a1 = "PlayerSubPrize (pz_id p) (pz_num p) a"
  note c = prize_counts [OF Cons.prems(1), of "\<lambda>_. None" "pz_id p" "pz_num p"]
  have "find (\<lambda>x. pz_id x = pz_id p) ps = None" using Cons.prems(2) by (simp add: find_None_iff) (metis imageI)
  then have w: "wanted (pz_id p) ps = 0" by (simp add: wanted_def)
  define b where "b = foldl (\<lambda>a p. PlayerSubPrize (pz_id p) (pz_num p) a) ?a1 ps"
  have ih: "prizes_ok (ac_db b)" "ac_db b = (if ps = [] then ac_db ?a1 else prizes_replaced (pi_prizes (prize_info (ac_db b))) (ac_db ?a1))"
    "ac_events b = ac_events ?a1" "ac_points b = ac_points ?a1"
    "\<And>q. unat (GetPlayerPrizeNum_of (ac_db b) q) = unat (GetPlayerPrizeNum_of (ac_db ?a1) q) - wanted q ps"
    using Cons.IH [of ?a1, unfolded Let_def, folded b_def] c Cons.prems(2) by simp_all
  have "ac_db b = prizes_replaced (pi_prizes (prize_info (ac_db b))) (ac_db a)"
    using ih(2) sub_prize_other(1) [of "pz_id p" "pz_num p" a] by (metis prizes_replaced_twice)
  with ih c w show ?case unfolding foldl.simps b_def [symmetric]
    by (auto simp: Let_def sub_prize_other(2,3) wanted_def [of _ "p # ps"]) (metis wanted_def)
qed (simp add: wanted_def)

text \<open>Property C38. When the prizes named are different ones and the player, who holds each prize under one entry (\<open>prizes_ok\<close>), has enough of each,
  exactly what is asked for is taken, the data is marked as changed, and nothing else of the player changes. A prize that is named twice is granted beyond what
  there is (\<open>web_sub_prize_twice\<close>).\<close>

theorem web_sub_prize:
  assumes "cur_data s = Some d" "prizes_ok d" "sub_prize_req s = (uid, ps, reason)" "distinct (map pz_id ps)"
    and "\<forall>p\<in>set ps. pz_num p \<le> GetPlayerPrizeNum_of d (pz_id p)"
  shows "\<exists>s1 d1. SubPrize_OnQuerySuccess env s w = Some (H_Save, s1, w) \<and> cur_data s1 = Some d1 \<and> se_events s1 = se_events s
     \<and> prizes_ok d1 \<and> d1 = (if ps = [] then d else prizes_replaced (pi_prizes (prize_info d1)) d)
     \<and> (\<forall>q. unat (GetPlayerPrizeNum_of d1 q) = unat (GetPlayerPrizeNum_of d q) - wanted q ps)"
proof -
  let ?a = "\<lparr>ac_db = d, ac_events = [], ac_points = []\<rparr>"
  define b where "b = foldl (\<lambda>a p. PlayerSubPrize (pz_id p) (pz_num p) a) ?a ps"
  have ok: "prizes_ok (ac_db ?a)" using assms(2) by simp
  have sub: "prizes_ok (ac_db b)" "ac_db b = (if ps = [] then d else prizes_replaced (pi_prizes (prize_info (ac_db b))) d)"
    "ac_events b = []" "ac_points b = []"
    "\<And>q. unat (GetPlayerPrizeNum_of (ac_db b) q) = unat (GetPlayerPrizeNum_of d q) - wanted q ps"
    using sub_prizes [OF ok assms(4), unfolded Let_def, folded b_def, unfolded acct.select_convs] by blast+
  define s1 where "s1 = SetDBData (unat (se_process_index s)) (ac_db b) s"
  have g: "GetDBData (unat (se_process_index s)) s = Some d" using assms(1) by (simp add: cur_data_def)
  have enough: "\<not> (\<exists>p\<in>set ps. pz_num p > GetPlayerPrizeNum_of d (pz_id p))" using assms(5) by (auto simp: not_less)
  have e: "s1\<lparr>se_events := se_events s\<rparr> = s1" "w\<lparr>w_out := w_out w\<rparr> = w" by (simp_all add: s1_def SetDBData_def)
  have "on_account (\<lambda>a. ((), foldl (\<lambda>a p. PlayerSubPrize (pz_id p) (pz_num p) a) a ps)) s w
      = Some ((), s1\<lparr>se_events := se_events s\<rparr>, w\<lparr>w_out := w_out w\<rparr>)"
    using sub(3,4) by (simp add: on_account_def g b_def [symmetric] s1_def del: on_account_Some)
  note acc = this [unfolded e]
  have "SubPrize_OnQuerySuccess env s w = Some (H_Save, s1, w)"
    unfolding SubPrize_OnQuerySuccess_def assms(1) Option.bind.simps assms(3) Let_def prod.case if_not_P [OF enough] acc by simp
  moreover have "cur_data s1 = Some (ac_db b)" using g by (simp add: s1_def cur_data_def SetDBData_def GetDBData_def split: if_splits)
  moreover have "se_events s1 = se_events s" by (simp add: s1_def SetDBData_def)
  ultimately show ?thesis using sub by blast
qed

text \<open>A player with three of prize 5 gives two of them.\<close>

definition prize_session :: session where
  "prize_session = session0\<lparr>se_msg_id := 10024,
     se_web_msg := ss_msg0\<lparr>ss_body := Some (WebReqSubPrize 7 [prize_entry 5 2] EN_Acc_GM_Sub)\<rparr>,
     se_db_processs := [\<lparr>dp_uid = 7, dp_keys = [kPrizeInfo],
       dp_player = Some (pb_db_data0\<lparr>d_prize_info := Some \<lparr>pi_version = 1, pi_prizes = [prize_entry 5 3]\<rparr>\<rparr>)\<rparr>]\<rparr>"

lemma web_sub_prize_witness:
  "\<exists>s1 d1. SubPrize_OnQuerySuccess (shell_env0 (\<lambda>_. None)) prize_session lip0 = Some (H_Save, s1, lip0) \<and> cur_data s1 = Some d1
     \<and> unat (GetPlayerPrizeNum_of d1 5) = 1"
proof -
  define d where "d = pb_db_data0\<lparr>d_prize_info := Some \<lparr>pi_version = 1, pi_prizes = [prize_entry 5 3]\<rparr>\<rparr>"
  have c: "cur_data prize_session = Some d" "sub_prize_req prize_session = (7, [prize_entry 5 2], EN_Acc_GM_Sub)"
    by (simp_all add: prize_session_def cur_data_def GetDBData_def sub_prize_req_def session0_def d_def)
  have n: "prizes_ok d" "GetPlayerPrizeNum_of d 5 = 3" "wanted 5 [prize_entry 5 2] = 2"
    by (simp_all add: prizes_ok_def GetPlayerPrizeNum_of_def prize_info_def d_def prize_entry_def wanted_def)
  have "distinct (map pz_id [prize_entry 5 2])" "\<forall>p\<in>set [prize_entry 5 2]. pz_num p \<le> GetPlayerPrizeNum_of d (pz_id p)"
    using n(2) by (simp_all add: prize_entry_def)
  from web_sub_prize [OF c(1) n(1) c(2) this, of "shell_env0 (\<lambda>_. None)" lip0] n(2,3) show ?thesis by force
qed

text \<open>The same prize named twice: each time there is enough, together there is not. Both are granted.\<close>

lemma web_sub_prize_twice:
  "\<exists>s1 d1. SubPrize_OnQuerySuccess (shell_env0 (\<lambda>_. None))
       (prize_session\<lparr>se_web_msg := ss_msg0\<lparr>ss_body := Some (WebReqSubPrize 7 [prize_entry 5 2, prize_entry 5 2] EN_Acc_GM_Sub)\<rparr>\<rparr>) lip0
     = Some (H_Save, s1, lip0) \<and> cur_data s1 = Some d1 \<and> GetPlayerPrizeNum_of d1 5 = 0"
  by (simp add: SubPrize_OnQuerySuccess_def cur_data_def GetDBData_def sub_prize_req_def prize_session_def session0_def GetPlayerPrizeNum_of_def
      prize_info_def prize_entry_def on_account_def PlayerSubPrize_def upd_db_def mut_prize_info_def set_dirty_def SetDBData_def lip0_def world.defs)


subsection \<open>Changes that are never answered\<close>

lemma save_keys_clean: "\<forall>k\<in>set keys. \<not> d_dirty d k \<Longrightarrow> \<exists>ok. save_keys env keys d datas = (ok, d, datas)"
  by (induction keys arbitrary: datas) (auto split: option.split)

text \<open>A save with nothing to save ends the session without a word.\<close>

lemma unchanged_unanswered:
  assumes "GetDBData (unat (se_process_index s)) s = Some d"
    and "\<forall>k\<in>set (dp_keys (se_db_processs s ! unat (se_process_index s))). \<not> d_dirty d k"
  shows "process_loop env h H_Save s w = Some (Ret (None, w))"
proof -
  obtain ok where k: "save_keys env (dp_keys (se_db_processs s ! unat (se_process_index s))) d [] = (ok, d, [])"
    using save_keys_clean [OF assms(2)] by blast
  have "SaveOneData env s w = (H_Failed, SetDBData (unat (se_process_index s)) d s, w)"
    by (simp add: SaveOneData_def SendSaveToDBProxy_def assms(1) k)
  then have "process_loop env h H_Save s w = process_loop env h H_Failed (SetDBData (unat (se_process_index s)) d s) w"
    by (subst process_loop.simps) (simp only: hresult.case fst_conv snd_conv)
  also have "\<dots> = Some (Ret (None, w))"
    by (subst process_loop.simps) (simp add: ProcessFailed_def)
  finally show ?thesis .
qed

text \<open>Property C39. The global data cannot be changed. When the database has answered the query of a change with the part that was asked for,
  the session ends: nothing is saved, and the page hears nothing. When the query fails, or its answer
  cannot be read, the page is told EN_Web_DB_Error, once.\<close>

theorem web_save_g_lost:
  assumes "se_msg_id s = 10038" "se_session_state s = Wait_Query" "rsp_query s = (res, uid, kvs)"
    and "se_db_processs s = [\<lparr>dp_uid = uid, dp_keys = [kMLipstickInfo], dp_player = None\<rparr>]" "se_process_index s = 0"
    and "res = EN_KVDB_Sucess \<Longrightarrow> map kv_key kvs = [kMLipstickInfo]" "se_events s = []"
  shows "web_Process env s w = Some (Ret (None,
    if res = EN_KVDB_Sucess \<and> ParseDBData env kvs (pb_db_data0\<lparr>d_uid := Some uid\<rparr>) \<noteq> None then w
    else snd (SendMsgToWeb_to env (GetConnectHead env s)
      ((se_ss_response s)\<lparr>ss_body := Some (WebRspSaveDBData DK_g EN_Web_DB_Error), ss_uid := ss_uid (se_web_msg s)\<rparr>) False w)))"
proof -
  have h: "web_handlers env 10038 = Some (HandlerSaveDataG env)" by (simp add: web_handlers_def)
  have P: "web_Process env s w = (case QueryResponse env (HandlerSaveDataG env) s w of None \<Rightarrow> Some Crash
      | Some (r, s1, w1) \<Rightarrow> process_loop env (HandlerSaveDataG env) r s1 w1)"
    by (simp add: web_Process_def manager_Process_def assms(1,2) h Process_def)
  show ?thesis
  proof (cases "res = EN_KVDB_Sucess \<and> ParseDBData env kvs (pb_db_data0\<lparr>d_uid := Some uid\<rparr>) \<noteq> None")
    case True
    then obtain d kv where d: "ParseDBData env [kv] (pb_db_data0\<lparr>d_uid := Some uid\<rparr>) = Some d" "kvs = [kv]" "kv_key kv = kMLipstickInfo"
      using assms(6) by (cases kvs) auto
    let ?s1 = "SetDBData 0 d s"
    have dirty: "\<not> d_dirty d kMLipstickInfo"
      using d(1,3) by (cases "kv_value kv") (auto simp: InitDBData_def split: if_splits option.splits)
    have i: "GetDBProcessIndex uid s = Some 0" by (simp add: GetDBProcessIndex_def assms(4))
    have p: "se_db_processs ?s1 = [\<lparr>dp_uid = uid, dp_keys = [kMLipstickInfo], dp_player = Some d\<rparr>]"
      by (simp add: SetDBData_def assms(4))
    have pi: "se_process_index ?s1 = 0" by (simp add: SetDBData_def assms(5))
    have "QueryResponse env (HandlerSaveDataG env) s w = h_OnQuerySuccess (HandlerSaveDataG env) ?s1 w"
      unfolding QueryResponse_def assms(3) using True d by (simp add: i HaveAllDBData_def p)
    also have "\<dots> = Some (H_Save, ?s1, w)"
      by (simp add: HandlerSaveDataG_def on_query_def SaveDataG_OnQuerySuccess_def cur_data_def GetDBData_def p pi)
    finally have q: "QueryResponse env (HandlerSaveDataG env) s w = Some (H_Save, ?s1, w)" .
    have "process_loop env (HandlerSaveDataG env) H_Save ?s1 w = Some (Ret (None, w))"
      by (rule unchanged_unanswered [of _ d]) (simp_all add: GetDBData_def p pi dirty)
    then show ?thesis unfolding P q using True by simp
  next
    case False
    have "QueryResponse env (HandlerSaveDataG env) s w = h_OnQueryFailed (HandlerSaveDataG env) s w"
      unfolding QueryResponse_def assms(3) using False by auto
    then have "QueryResponse env (HandlerSaveDataG env) s w = save_answer DK_g EN_Web_DB_Error env s w"
      by (simp add: HandlerSaveDataG_def SaveDataG_OnQueryFailed_def)
    then show ?thesis unfolding P using False
      by (auto simp: save_answer_def to_web_def SendMsgToWeb_def wrsp_def ProcessDone_def OnPostMessage_def assms(7) Let_def
          GetConnectHead_def split: prod.splits)
  qed
qed

definition g_save :: session where
  "g_save = session0\<lparr>se_msg_id := 10038, se_session_state := Wait_Query,
     se_web_msg := ss_msg0\<lparr>ss_body := Some (WebReqSaveDBData DK_g 1 None)\<rparr>,
     se_db_processs := [\<lparr>dp_uid = 1, dp_keys = [kMLipstickInfo], dp_player = None\<rparr>],
     se_ss_response := ss_msg0\<lparr>ss_body := Some (SsRspQuery EN_KVDB_Sucess 1
       [\<lparr>kv_key = kMLipstickInfo, kv_value = None, kv_version = 0, kv_update_time = 0\<rparr>])\<rparr>\<rparr>"

lemma web_save_g_lost_witness:
  "web_Process (shell_env0 (\<lambda>_. None)) g_save lip0 = Some (Ret (None, lip0))"
  using web_save_g_lost [where s = g_save and uid = 1 and res = EN_KVDB_Sucess and w = lip0 and env = "shell_env0 (\<lambda>_. None)"
      and kvs = "[\<lparr>kv_key = kMLipstickInfo, kv_value = None, kv_version = 0, kv_update_time = 0\<rparr>]"]
  by (simp add: g_save_def session0_def rsp_query_def)

subsection \<open>A login over the game server\<close>

text \<open>A player logs in on a machine: when the machine's data shows the game server it is on, the request goes there and
  the session waits; the game server's answer goes back to the page, without the player's picture.\<close>

theorem web_login_relayed:
  assumes "se_msg_id s = 10010" "se_session_state s = Wait_Query" "rsp_query s = (EN_KVDB_Sucess, uid, datas)"
    and "ParseDBData env datas (pb_db_data0\<lparr>d_uid := Some uid\<rparr>) = Some d" "mb_gamesvr_id (m_base_info d) = Some g"
    and "se_db_processs s = [\<lparr>dp_uid = uid, dp_keys = [kMBaseInfo], dp_player = None\<rparr>]" "se_process_index s = 0" "se_events s = []"
    and "\<forall>m. me_ss_size env m \<le> MAX_CS_PB_BUF_LEN"
  shows "\<exists>s1 head. web_Process env s w = Some (Ret (Some s1, w\<lparr>w_out := w_out w @ [ToProxy head ((se_web_msg s)\<lparr>ss_type := EN_SS_Request\<rparr>) None]\<rparr>))
    \<and> px_des_type head = get0 (mb_gamesvr_type (m_base_info d)) \<and> px_des_id head = g \<and> px_session_id head = se_session_id s
    \<and> px_route_type head = Route_p2p \<and> se_session_id s1 = se_session_id s
    \<and> (\<forall>m r p v. ss_body m = Some (WebRspPlayerLogin r (Some p)) \<longrightarrow>
         web_Process env (s1\<lparr>se_ss_response := m\<rparr>) v = Some (Ret (None, v\<lparr>w_out := w_out v
           @ [ToWeb ((GetConnectHead env s)\<lparr>ch_msg_type := Conn_normal, ch_need_close := False\<rparr>)
                (m\<lparr>ss_uid := ss_uid (se_web_msg s), ss_body := Some (WebRspPlayerLogin r (Some (mut_base_info (\<lambda>i. i\<lparr>bi_pic_url := []\<rparr>) p)))\<rparr>)]\<rparr>)))"
proof -
  let ?h = "HandlerWebLogin env" and ?t = "stamped (SetDBData 0 d s)"
  let ?s1 = "?t\<lparr>se_update_time := GetTime (me_now env), se_session_state := Wait_Response\<rparr>"
  let ?head = "(me_stack_head env)\<lparr>px_src_type := me_svr_type env, px_src_id := me_svr_id env, px_route_type := Route_p2p,
     px_des_type := get0 (mb_gamesvr_type (m_base_info d)), px_des_id := g, px_session_id := se_session_id s\<rparr>"
  let ?w1 = "w\<lparr>w_out := w_out w @ [ToProxy ?head ((se_web_msg s)\<lparr>ss_type := EN_SS_Request\<rparr>) None]\<rparr>"
  have h: "web_handlers env 10010 = Some ?h" by (simp add: web_handlers_def)
  have size: "\<not> MAX_CS_PB_BUF_LEN < me_ss_size env m" for m using assms(9) by (simp add: not_less)
  have i: "GetDBProcessIndex uid s = Some 0" by (simp add: GetDBProcessIndex_def assms(6))
  have p: "se_db_processs (SetDBData 0 d s) = [\<lparr>dp_uid = uid, dp_keys = [kMBaseInfo], dp_player = Some d\<rparr>]"
    by (simp add: SetDBData_def assms(6))
  have f: "se_process_index (SetDBData 0 d s) = 0" "se_web_msg (SetDBData 0 d s) = se_web_msg s" "se_session_id (SetDBData 0 d s) = se_session_id s"
    "se_msg_head (SetDBData 0 d s) = se_msg_head s" "se_msg_id (SetDBData 0 d s) = 10010" "se_events (SetDBData 0 d s) = []"
    by (simp_all add: SetDBData_def assms(1,7,8))
  have "QueryResponse env ?h s w = h_OnQuerySuccess ?h (SetDBData 0 d s) w"
    unfolding QueryResponse_def assms(3) using assms(4) by (simp add: i HaveAllDBData_def p)
  also have "\<dots> = Some (H_Hup, ?s1, ?w1)"
    by (simp add: HandlerWebLogin_def on_query_def WebLogin_OnQuerySuccess_def cur_data_def GetDBData_def p f assms(5) relay_def
        SendMsgToServer_def emit_def stamped_def Let_def size)
  finally have q: "QueryResponse env ?h s w = Some (H_Hup, ?s1, ?w1)" .
  have one: "web_Process env s w = Some (Ret (Some ?s1, ?w1))"
    by (simp add: web_Process_def manager_Process_def assms(1,2) h Process_def q)
  have two: "web_Process env (?s1\<lparr>se_ss_response := m\<rparr>) v = Some (Ret (None, v\<lparr>w_out := w_out v
           @ [ToWeb ((GetConnectHead env s)\<lparr>ch_msg_type := Conn_normal, ch_need_close := False\<rparr>)
                (m\<lparr>ss_uid := ss_uid (se_web_msg s), ss_body := Some (WebRspPlayerLogin r (Some (mut_base_info (\<lambda>i. i\<lparr>bi_pic_url := []\<rparr>) p)))\<rparr>)]\<rparr>))"
    if "ss_body m = Some (WebRspPlayerLogin r (Some p))" for m r p v
  proof -
    let ?a = "answered (wrsp clear_pic (?s1\<lparr>se_ss_response := m\<rparr>))"
    have r: "h_OnServerResponse ?h (?s1\<lparr>se_ss_response := m\<rparr>) v
        = Some (H_Done, ?a, sent_web env False (wrsp clear_pic (?s1\<lparr>se_ss_response := m\<rparr>)) v)"
      by (simp add: HandlerWebLogin_def WebLogin_OnServerResponse_def to_web_eq)
    have w: "sent_web env False (wrsp clear_pic (?s1\<lparr>se_ss_response := m\<rparr>)) v = v\<lparr>w_out := w_out v
           @ [ToWeb ((GetConnectHead env s)\<lparr>ch_msg_type := Conn_normal, ch_need_close := False\<rparr>)
                (m\<lparr>ss_uid := ss_uid (se_web_msg s), ss_body := Some (WebRspPlayerLogin r (Some (mut_base_info (\<lambda>i. i\<lparr>bi_pic_url := []\<rparr>) p)))\<rparr>)]\<rparr>"
      by (simp add: sent_web_def answered_def SendMsgToWeb_to_def wrsp_def clear_pic_def that emit_def size stamped_def f GetConnectHead_def
          split: msg_head.split)
    have e: "se_events ?a = []" by (simp add: answered_def wrsp_def stamped_def f)
    have "process_loop env ?h H_Done ?a x = Some (Ret (None, x))" for x :: lip_world
      by (subst process_loop.simps) (simp add: ProcessDone_def OnPostMessage_def e)
    with r w show ?thesis by (simp add: web_Process_def manager_Process_def h Process_def stamped_def f)
  qed
  show ?thesis by (rule exI [of _ ?s1], rule exI [of _ ?head]) (use one two f in \<open>simp add: stamped_def\<close>)
qed

text \<open>Machine 9 is on game server 3 of type 4.\<close>

definition login_session :: session where
  "login_session = session0\<lparr>se_session_id := 5, se_msg_id := 10010, se_session_state := Wait_Query, se_msg_head := MH_connect head7,
     se_web_msg := ss_msg0\<lparr>ss_body := Some (WebReqPlayerLogin 7 9)\<rparr>,
     se_db_processs := [\<lparr>dp_uid = 9, dp_keys = [kMBaseInfo], dp_player = None\<rparr>],
     se_ss_response := ss_msg0\<lparr>ss_body := Some (SsRspQuery EN_KVDB_Sucess 9
       [\<lparr>kv_key = kMBaseInfo, kv_value = Some [], kv_version = 1, kv_update_time = 0\<rparr>])\<rparr>\<rparr>"

definition login_env :: lip_env where
  "login_env = (shell_env0 (\<lambda>_. None))\<lparr>me_dec := \<lambda>k v. Some (DP_m_base (db_m_base_info0\<lparr>mb_gamesvr_type := Some 4, mb_gamesvr_id := Some 3\<rparr>)),
     me_ss_size := \<lambda>_. 100\<rparr>"

lemma web_login_relayed_witness:
  "\<exists>s1 w1. web_Process login_env login_session lip0 = Some (Ret (Some s1, w1)) \<and> length (w_out w1) = Suc (length (w_out lip0))"
proof -
  let ?b = "db_m_base_info0\<lparr>mb_version := 1, mb_gamesvr_id := Some 3, mb_gamesvr_type := Some 4\<rparr>"
  let ?d = "clear_dirty kMBaseInfo (mut_m_base_info (\<lambda>_. ?b) (pb_db_data0\<lparr>d_uid := Some 9\<rparr>))"
  have s: "se_msg_id login_session = 10010" "se_session_state login_session = Wait_Query" "se_process_index login_session = 0"
    "se_events login_session = []" "rsp_query login_session = (EN_KVDB_Sucess, 9, [\<lparr>kv_key = kMBaseInfo, kv_value = Some [], kv_version = 1, kv_update_time = 0\<rparr>])"
    "se_db_processs login_session = [\<lparr>dp_uid = 9, dp_keys = [kMBaseInfo], dp_player = None\<rparr>]"
    by (simp_all add: login_session_def session0_def rsp_query_def)
  have p: "ParseDBData login_env [\<lparr>kv_key = kMBaseInfo, kv_value = Some [], kv_version = 1, kv_update_time = 0\<rparr>] (pb_db_data0\<lparr>d_uid := Some 9\<rparr>) = Some ?d"
    by (simp add: ConstructDBData_def login_env_def get_part_def db_m_base_info0_def)
  have g: "mb_gamesvr_id (m_base_info ?d) = Some 3" by (simp add: clear_dirty_def mut_m_base_info_def set_dirty_def m_base_info_def)
  have "\<forall>m. me_ss_size login_env m \<le> MAX_CS_PB_BUF_LEN" by (simp add: login_env_def)
  from web_login_relayed [OF s(1,2,5) p g s(6,3,4) this, of lip0] show ?thesis by auto
qed

subsection \<open>The words of a command\<close>

definition blank_free :: "string \<Rightarrow> bool" where
  "blank_free w \<longleftrightarrow> w \<noteq> [] \<and> CHR '' '' \<notin> set w"

fun spaced :: "string list \<Rightarrow> string" where
  "spaced [] = []"
| "spaced [w] = w"
| "spaced (w # ws) = w @ '' '' @ spaced ws"

lemma spaced_head: "blank_free w \<Longrightarrow> takeWhile (\<lambda>c. c \<notin> set '' '') (spaced (w # ws)) = w
    \<and> dropWhile (\<lambda>c. c \<notin> set '' '') (spaced (w # ws)) = (if ws = [] then [] else CHR '' '' # spaced ws)"
proof -
  assume "blank_free w"
  then have a: "\<forall>c\<in>set w. c \<noteq> CHR '' ''" unfolding blank_free_def by blast
  then have t: "takeWhile (\<lambda>c. c \<noteq> CHR '' '') w = w" "dropWhile (\<lambda>c. c \<noteq> CHR '' '') w = []"
    by (induction w) simp_all
  show ?thesis
  proof (cases ws)
    case (Cons v vs)
    have "takeWhile (\<lambda>c. c \<noteq> CHR '' '') (w @ CHR '' '' # u) = w \<and> dropWhile (\<lambda>c. c \<noteq> CHR '' '') (w @ CHR '' '' # u) = CHR '' '' # u" for u
      using a by (induction w) simp_all
    then show ?thesis by (simp add: Cons)
  qed (simp add: t)
qed

lemma spaced_first: "blank_free w \<Longrightarrow> \<exists>c cs. spaced (w # ws) = c # cs \<and> c \<noteq> CHR '' ''"
  by (cases w; cases ws) (auto simp: blank_free_def)

lemma words_read:
  "list_all blank_free ws \<Longrightarrow> k < length ws \<Longrightarrow> SpiltString (spaced ws) '' '' k = ws ! k"
proof (induction k arbitrary: ws)
  case 0
  then obtain w vs where "ws = w # vs" "blank_free w" by (cases ws) auto
  then show ?case using spaced_head [of w vs] by simp
next
  case (Suc k)
  then obtain w v vs where ws: "ws = w # v # vs" "blank_free w" "blank_free v" by (cases ws; cases "tl ws") auto
  obtain c cs where f: "spaced (v # vs) = c # cs" "c \<noteq> CHR '' ''" using spaced_first [OF ws(3)] by blast
  have "SpiltString (spaced ws) '' '' (Suc k) = SpiltString (spaced (v # vs)) '' '' k"
    using spaced_head [OF ws(2), of "v # vs"] f by (simp add: ws(1) del: spaced.simps)
  also have "\<dots> = (v # vs) ! k" using Suc.prems ws by (intro Suc.IH) simp_all
  finally show ?case by (simp add: ws(1))
qed

fun decimal :: "nat \<Rightarrow> string" where
  "decimal n = (if n < 10 then [char_of (48 + n)] else decimal (n div 10) @ [char_of (48 + n mod 10)])"

declare decimal.simps [simp del]

lemma digit_char: "d < 10 \<Longrightarrow> digit_of (char_of (48 + d)) = d \<and> (of_char (char_of (48 + d)) :: nat) = 48 + d"
  by (simp add: digit_of_def Let_def)

lemma decimal_chars: "c \<in> set (decimal n) \<Longrightarrow> digit_of c < 10 \<and> 48 \<le> (of_char c :: nat) \<and> of_char c \<le> (57 :: nat)"
proof (induction n rule: decimal.induct)
  case (1 n)
  have "c \<in> (if n < 10 then {char_of (48 + n)} else set (decimal (n div 10)) \<union> {char_of (48 + n mod 10)})"
    using 1(2) by (subst (asm) decimal.simps) (simp split: if_splits)
  then show ?case using 1(1) digit_char [of n] digit_char [of "n mod 10"] by (auto split: if_splits)
qed

lemma decimal_undone: "foldl (\<lambda>v c. v * 10 + digit_of c) 0 (decimal n) = n"
proof (induction n rule: decimal.induct)
  case (1 n)
  then show ?case using digit_char [of n] digit_char [of "n mod 10"] by (subst decimal.simps) simp
qed

lemma decimal_first: "0 < n \<Longrightarrow> \<exists>c cs. decimal n = c # cs \<and> c \<noteq> CHR ''0''"
proof (induction n rule: decimal.induct)
  case (1 n)
  show ?case
  proof (cases "n < 10")
    case True
    then have "(of_char (char_of (48 + n)) :: nat) \<noteq> of_char (CHR ''0'')" using digit_char [of n] 1(2) by simp
    then have "char_of (48 + n) \<noteq> CHR ''0''" by metis
    with True show ?thesis by (subst decimal.simps) simp
  next
    case False
    then have "0 < n div 10" by simp
    with 1(1) False obtain c cs where "decimal (n div 10) = c # cs" "c \<noteq> CHR ''0''" by blast
    with False show ?thesis by (subst decimal.simps) simp
  qed
qed

lemma strtoull_decimal:
  assumes "n < 2 ^ 64"
  shows "strtoull (decimal n) = of_nat n"
proof (cases "n = 0")
  case True
  have "decimal 0 = ''0''" by (subst decimal.simps) (simp add: char_of_def bit_iff_odd)
  then show ?thesis by (simp add: True strtoull_def digit_of_def)
next
  case False
  then obtain c cs where c: "decimal n = c # cs" "c \<noteq> CHR ''0''" using decimal_first by blast
  have r: "48 \<le> (of_char c :: nat)" "of_char c \<le> (57 :: nat)" using decimal_chars [of c n] c(1) by simp_all
  then have m: "c \<noteq> CHR ''-''" "c \<noteq> CHR ''+''" by auto
  have t: "takeWhile (\<lambda>c. digit_of c < 10) (c # cs) = c # cs"
    using decimal_chars [of _ n] c(1) by (intro takeWhile_eq_all_conv [THEN iffD2]) auto
  have v: "foldl (\<lambda>v c. v * 10 + digit_of c) 0 (c # cs) = n" using decimal_undone [of n] c(1) by simp
  have d: "dropWhile (\<lambda>c. of_char c = (32::nat) \<or> (9 \<le> (of_char c :: nat) \<and> of_char c \<le> (13::nat))) (c # cs) = c # cs"
    using r by simp
  show ?thesis
    unfolding strtoull_def c(1) d Let_def using m c(2) t v assms by simp
qed

text \<open>A command is read as it is written: player, name of the command, two numbers.\<close>

theorem gm_command_read:
  assumes "u < 2 ^ 64" "a < 2 ^ 64" "b < 2 ^ 64" "blank_free cmd" "gm_cmd s = spaced [decimal u, cmd, decimal a, decimal b]"
  shows "strtoull (SpiltString (gm_cmd s) '' '' 0) = of_nat u \<and> SpiltString (gm_cmd s) '' '' 1 = cmd
    \<and> strtoull (SpiltString (gm_cmd s) '' '' 2) = of_nat a \<and> strtoull (SpiltString (gm_cmd s) '' '' 3) = of_nat b"
proof -
  have free: "blank_free (decimal n)" for n
    using decimal_chars [of "CHR '' ''" n] decimal_undone [of n] by (auto simp: blank_free_def) (subst (asm) decimal.simps, simp split: if_splits)
  have w: "SpiltString (gm_cmd s) '' '' k = [decimal u, cmd, decimal a, decimal b] ! k" if "k < 4" for k
    unfolding assms(5) by (rule words_read) (use free assms(4) that in simp_all)
  show ?thesis using w [of 0] w [of 1] w [of 2] w [of 3] strtoull_decimal assms(1-3) by (simp del: SpiltString.simps)
qed

lemma gm_command_read_witness:
  "strtoull (SpiltString (gm_cmd (session0\<lparr>se_web_msg := ss_msg0\<lparr>ss_body := Some (SsGMCommand (spaced [decimal 7, ''add_gold'', decimal 100, decimal 0]) 0)\<rparr>\<rparr>)) '' '' 2) = 100"
proof -
  let ?s = "session0\<lparr>se_web_msg := ss_msg0\<lparr>ss_body := Some (SsGMCommand (spaced [decimal 7, ''add_gold'', decimal 100, decimal 0]) 0)\<rparr>\<rparr>"
  have "gm_cmd ?s = spaced [decimal 7, ''add_gold'', decimal 100, decimal 0]" "blank_free ''add_gold''" by (simp_all add: gm_cmd_def blank_free_def)
  from gm_command_read [OF _ _ _ this(2,1)] show ?thesis by (simp del: SpiltString.simps)
qed


end
