(* ===== verification/DbShell.thy ===== *)
theory DbShell
  imports GameShell LevelDb
begin

text \<open>
  svr/dbproxysvr/game_server.cpp: the entry points of the database server, its start and its routine
  check, on the handlers of LevelDb.thy. LevelDB's \<open>DB::Open\<close> is a parameter of the start. The lemmas
  show that the server answers a query or a save at once, keeps a session only for a message it does
  not know, and that the cached versions are those of the database in every run of messages.
\<close>

record 'd db_shell = "'d db_world shell" +
  ds_version_check :: u32

text \<open>\<open>snprintf("/ServerData/db_data_%03u")\<close>; eleven and eight characters and at most ten digits fit
  the 64 bytes of the buffer.\<close>

definition pad3 :: "string \<Rightarrow> string" where
  "pad3 ds = replicate (3 - length ds) (CHR ''0'') @ ds"

definition db_name :: "u32 \<Rightarrow> string" where
  "db_name server_id = ''/ServerData/db_data_'' @ pad3 (decimal (unat server_id))"

definition ldb_Init :: "(string \<Rightarrow> 'd option) \<Rightarrow> u64 \<Rightarrow> u32 \<Rightarrow> 'd db_world \<Rightarrow> bool \<times> 'd db_world" where
  "ldb_Init db_open now server_id w =
     (let w1 = w\<lparr>dw_version_update_time := GetTime now\<rparr> in
      case db_open (db_name server_id) of
        None \<Rightarrow> (False, w1)
      | Some db \<Rightarrow> (True, w1\<lparr>dw_db := db\<rparr>))"

text \<open>\<open>LoadConfig\<close> reads nothing and returns 0.\<close>

definition db_InitGame :: "lip_env \<Rightarrow> 'b shell_boot_scheme \<Rightarrow> (string \<Rightarrow> 'd option) \<Rightarrow> 'd db_world \<Rightarrow> shm_world
    \<Rightarrow> (int \<times> 'd db_shell option \<times> shm_world) option" where
  "db_InitGame env b db_open w0 shm = (case ldb_Init db_open (me_now env) (me_svr_id env) w0 of
     (False, _) \<Rightarrow> Some (- 10, None, shm)
   | (True, w1) \<Rightarrow>
       (case init_managers env b shm of
          None \<Rightarrow> None
        | Some (ret, None, shm1) \<Rightarrow> Some (ret, None, shm1)
        | Some (ret, Some (sm, tm), shm1) \<Rightarrow>
            Some (0, Some \<lparr>sh_sessions = sm, sh_world = w1\<lparr>w_out := [], w_timers := tm\<rparr>, sh_timer_check = 0,
                           sh_session_check = 0, ds_version_check = 0\<rparr>, shm1)))"

definition db_ExitGame :: "lip_env \<Rightarrow> 'b shell_boot_scheme \<Rightarrow> 'd db_shell \<Rightarrow> shm_world \<Rightarrow> shm_world" where
  "db_ExitGame env b gs shm = release_managers env b (sh_sessions gs) (w_timers (sh_world gs)) shm"

text \<open>\<open>stack i\<close> is the content of the local \<open>version\<close> of \<open>HandlerSave\<close> in iteration \<open>i\<close> of this call.\<close>

definition db_OnClientMessage :: "lip_env \<Rightarrow> (nat \<Rightarrow> u32) \<Rightarrow> 'd ldb_ops \<Rightarrow> connect_head \<Rightarrow> byte list \<Rightarrow> 'd db_shell \<Rightarrow> 'd db_shell outcome option" where
  "db_OnClientMessage env stack ops head buf gs = (case le_parse_cs env buf of
     None \<Rightarrow> Some (Ret gs)
   | Some msg \<Rightarrow> open_session env (db_Process env stack ops) (cs_union_case msg)
       (\<lambda>s. s\<lparr>se_msg_head := MH_connect head, se_cs_msg := msg, se_uid := ucast (cs_uid msg)\<rparr>) gs)"

definition db_OnServerMessage :: "lip_env \<Rightarrow> (nat \<Rightarrow> u32) \<Rightarrow> 'd ldb_ops \<Rightarrow> proxy_head \<Rightarrow> byte list \<Rightarrow> 'd db_shell \<Rightarrow> 'd db_shell outcome option" where
  "db_OnServerMessage env stack ops head buf gs = shell_OnServerMessage env (db_Process env stack ops) head buf gs"

definition db_OnInternalMessage :: "lip_env \<Rightarrow> (nat \<Rightarrow> u32) \<Rightarrow> 'd ldb_ops \<Rightarrow> byte list \<Rightarrow> 'd db_shell \<Rightarrow> 'd db_shell outcome option" where
  "db_OnInternalMessage env stack ops buf gs = shell_OnInternalMessage env (db_Process env stack ops) buf gs"

definition db_versions :: "zone \<Rightarrow> lip_env \<Rightarrow> 'd db_shell \<Rightarrow> 'd db_shell" where
  "db_versions z env gs =
     (if ds_version_check gs + 3600 \<le> GetTime (me_now env) then
        gs\<lparr>ds_version_check := GetTime (me_now env), sh_world := VersionExpire z (me_now env) (sh_world gs)\<rparr>
      else gs)"

definition db_OnRoutineCheck :: "zone \<Rightarrow> lip_env \<Rightarrow> 'd db_shell \<Rightarrow> 'd db_shell" where
  "db_OnRoutineCheck z env gs = db_versions z env (shell_sessions env (shell_timers env gs))"

text \<open>\<open>OnClientOffline\<close> does nothing.\<close>

datatype db_event = DE_Client connect_head "byte list" | DE_Offline connect_head u64 | DE_Server proxy_head "byte list"
  | DE_Internal "byte list" | DE_Routine

type_synonym db_call = "lip_env \<times> (nat \<Rightarrow> u32) \<times> db_event"

definition db_step :: "zone \<Rightarrow> 'd ldb_ops \<Rightarrow> db_call \<Rightarrow> 'd db_shell \<Rightarrow> 'd db_shell outcome option" where
  "db_step z ops c gs = (case c of (env, stack, e) \<Rightarrow> (case e of
     DE_Client head buf \<Rightarrow> db_OnClientMessage env stack ops head buf gs
   | DE_Offline _ _ \<Rightarrow> Some (Ret gs)
   | DE_Server head buf \<Rightarrow> db_OnServerMessage env stack ops head buf gs
   | DE_Internal buf \<Rightarrow> db_OnInternalMessage env stack ops buf gs
   | DE_Routine \<Rightarrow> Some (Ret (db_OnRoutineCheck z env gs))))"

subsection \<open>What one message does\<close>

text \<open>A save that reaches the handler is sane, as in LevelDb.thy; a session that came without a
  request of another server has no parts at all.\<close>

definition safe_session :: "(nat \<Rightarrow> u32) \<Rightarrow> session \<Rightarrow> 'd db_world \<Rightarrow> bool" where
  "safe_session stack s w \<longleftrightarrow> (se_msg_id s = 10002 \<longrightarrow> sane stack s w)"

definition db_idle :: "session \<Rightarrow> bool" where
  "db_idle s \<longleftrightarrow> se_session_state s = On_Message \<and> se_msg_id s \<notin> {10000, 10002}"

text \<open>\<open>K\<close> says whether the cached versions are claimed to be right.\<close>

definition db_sound :: "bool \<Rightarrow> 'd ldb_ops \<Rightarrow> 'd db_shell \<Rightarrow> bool" where
  "db_sound K ops gs \<longleftrightarrow> pool_good db_idle gs \<and> (K \<longrightarrow> versions_ok ops (sh_world gs))"

lemma same_db_refl [simp]: "same_db w w"
  by (simp add: same_db_def)

lemma emit_same_db: "same_db w (snd (emit env e w))"
  by (simp add: emit_def same_db_def split_beta)

lemma internal_same_db: "same_db w (snd (SendMsgToInternal env m w))"
  by (simp add: SendMsgToInternal_def emit_def same_db_def split_beta Let_def)

lemma hashed_same_db: "same_db w (snd (snd (send_hashed t env m s w)))"
  by (simp add: send_hashed_def emit_def same_db_def split_beta Let_def)

lemma post_same_db: "same_db v w \<Longrightarrow> same_db v (snd (post_events env es s w))"
proof (induction es arbitrary: s w)
  case (Cons e es)
  have e: "same_db v (snd (emit env x w))" for x using Cons.prems emit_same_db same_db_trans by blast
  have h: "same_db v (snd (snd (send_hashed t env m s u)))" if "same_db v u" for t m u
    using that hashed_same_db same_db_trans by blast
  show ?case
    using Cons.prems e h [OF Cons.prems] h [OF e]
    by (auto simp: SendMsgToEvent_def SendMsgToPromoter_def split_beta Let_def intro: Cons.IH)
qed simp

text \<open>A session without a handler is kept as it is; the handlers end in \<open>H_Done\<close>, which releases the
  session, and keep the versions.\<close>

lemma db_Process_idle: "db_idle s \<Longrightarrow> db_Process env stack ops s w = Some (Ret (Some s, w))"
  by (simp add: db_idle_def db_Process_def db_handlers_def)

lemma db_Process_known:
  assumes "ldb_ok ops" "K \<longrightarrow> versions_ok ops w \<and> safe_session stack s w" "se_session_state s = On_Message" "\<not> db_idle s"
  shows "\<exists>w'. db_Process env stack ops s w = Some (Ret (None, w')) \<and> (K \<longrightarrow> versions_ok ops w')"
proof -
  have end': "\<exists>w2. process_loop env h H_Done s1 w1 = Some (Ret (None, w2)) \<and> (K \<longrightarrow> versions_ok ops w2)"
    if "K \<longrightarrow> versions_ok ops w1" for h s1 w1
    using that same_db_versions_ok [OF post_same_db [OF same_db_refl, of w1 env "se_events s1" s1]]
    by (subst process_loop.simps) (simp add: ProcessDone_def OnPostMessage_def)
  consider "se_msg_id s = 10000" | "se_msg_id s = 10002" using assms(3,4) by (auto simp: db_idle_def)
  then show ?thesis
  proof cases
    case 1
    obtain s1 w1 where h: "HandlerQuery_OnMessage env ops s w = Some (H_Done, s1, w1)" using HandlerQuery_returns by blast
    have "K \<longrightarrow> versions_ok ops w1" using HandlerQuery_versions_ok [OF _ h] assms(2) by blast
    from end' [OF this] show ?thesis using 1 h assms(3) by (simp add: db_Process_def db_handlers_def Process_def)
  next
    case 2
    obtain s1 w1 where h: "HandlerSave_OnMessage env stack ops s w = Some (H_Done, s1, w1)" using HandlerSave_returns by blast
    obtain uid ds where "req_save s = (uid, ds)" by (rule prod.exhaust)
    with HandlerSave_cases(2) [OF assms(1) _ _ h] assms(2) 2 have "K \<longrightarrow> versions_ok ops w1" by (simp add: safe_session_def)
    from end' [OF this] show ?thesis using 2 h assms(3) by (simp add: db_Process_def db_handlers_def Process_def)
  qed
qed

subsection \<open>What a call of Process leaves in the pool\<close>

lemma run_effect:
  assumes k: "kp_inv se_session_id (sh_sessions gs)" and g: "GetSession sid (sh_sessions gs) = Some s"
    and r: "proc (prepare s) (sh_world gs) = Some (Ret (so, w'))" "\<And>s'. so = Some s' \<Longrightarrow> se_session_id s' = sid"
  shows "\<exists>gs'. run_session proc sid prepare gs = Some (Ret gs') \<and> sh_world gs' = w' \<and> kp_inv se_session_id (sh_sessions gs')
    \<and> (\<forall>j. GetSession j (sh_sessions gs') = (if j = sid then so else GetSession j (sh_sessions gs)))"
  using session_pool(2,7) [OF k] session_pool(3,8) [OF k r(2)] g r(1)
  by (cases so) (simp_all add: run_session_def)

lemma open_effect:
  assumes k: "kp_inv se_session_id (sh_sessions gs)"
    and r: "\<And>j. proc (prepare (new_session j i (me_now env))) (sh_world gs) = Some (Ret (so j, w' j))"
      "\<And>j s'. so j = Some s' \<Longrightarrow> se_session_id s' = j"
  shows "\<exists>gs'. open_session env proc i prepare gs = Some (Ret gs') \<and> kp_inv se_session_id (sh_sessions gs')
    \<and> (sh_world gs' = sh_world gs \<and> (\<forall>j. GetSession j (sh_sessions gs') = GetSession j (sh_sessions gs))
      \<or> (\<exists>k. sh_world gs' = w' k \<and> (\<forall>j. GetSession j (sh_sessions gs') = (if j = k then so k else GetSession j (sh_sessions gs)))))"
proof (cases "CreateSession (me_now env) i (sh_sessions gs)")
  case (Pair jo sm)
  note L = session_pool [OF k]
  have k': "kp_inv se_session_id sm" using L(1) [of "me_now env" i] Pair by simp
  show ?thesis
  proof (cases jo)
    case None
    then show ?thesis using Pair k' L(6) [OF Pair] by (simp add: open_session_def)
  next
    case (Some sid)
    note c = Pair [unfolded Some]
    have g: "GetSession sid sm = Some (new_session sid i (me_now env))" using L(5) [OF c] by (simp add: new_session_def)
    have "\<exists>gs'. run_session proc sid prepare (gs\<lparr>sh_sessions := sm\<rparr>) = Some (Ret gs') \<and> sh_world gs' = w' sid
        \<and> kp_inv se_session_id (sh_sessions gs')
        \<and> (\<forall>j. GetSession j (sh_sessions gs') = (if j = sid then so sid else GetSession j (sh_sessions (gs\<lparr>sh_sessions := sm\<rparr>))))"
      using k' g r by (intro run_effect) simp_all
    then show ?thesis using L(6) [OF c] Some by (auto simp: open_session_def c)
  qed
qed

subsection \<open>Every run\<close>

text \<open>The calls whose saves are safe: only the request of another server carries parts.\<close>

definition db_safe :: "db_call \<Rightarrow> 'd db_shell \<Rightarrow> bool" where
  "db_safe c gs = (case c of (env, stack, e) \<Rightarrow> (case e of
     DE_Server head buf \<Rightarrow> (case le_parse_ss env buf of
        None \<Rightarrow> True
      | Some msg \<Rightarrow> ss_type msg = EN_SS_Request \<longrightarrow> ss_union_case msg = 10002 \<longrightarrow>
          sane stack (session0\<lparr>se_ss_msg := msg\<rparr>) (sh_world gs))
   | _ \<Rightarrow> True))"

fun db_safe_run :: "zone \<Rightarrow> 'd ldb_ops \<Rightarrow> db_call list \<Rightarrow> 'd db_shell \<Rightarrow> bool" where
  "db_safe_run z ops [] gs = True"
| "db_safe_run z ops (c # cs) gs = (db_safe c gs \<and> (case db_step z ops c gs of
     Some (Ret gs1) \<Rightarrow> db_safe_run z ops cs gs1 | _ \<Rightarrow> True))"

lemma db_soundI:
  "kp_inv se_session_id (sh_sessions gs) \<Longrightarrow> (\<And>j s. GetSession j (sh_sessions gs) = Some s \<Longrightarrow> db_idle s)
    \<Longrightarrow> (K \<Longrightarrow> versions_ok ops (sh_world gs)) \<Longrightarrow> db_sound K ops gs"
  by (simp add: db_sound_def pool_good_def)

lemma db_soundD:
  assumes "db_sound K ops gs"
  shows "kp_inv se_session_id (sh_sessions gs)" "GetSession j (sh_sessions gs) = Some s \<Longrightarrow> db_idle s" "K \<longrightarrow> versions_ok ops (sh_world gs)"
  using assms by (auto simp: db_sound_def pool_good_def)

lemma db_open_sound:
  assumes ok: "ldb_ok ops" "db_sound K ops gs"
    and p: "\<And>j. se_session_id (prepare (new_session j i (me_now env))) = j" "\<And>j. se_msg_id (prepare (new_session j i (me_now env))) = i"
      "\<And>j. se_session_state (prepare (new_session j i (me_now env))) = On_Message"
    and safe: "\<And>j. K \<longrightarrow> safe_session stack (prepare (new_session j i (me_now env))) (sh_world gs)"
  shows "\<exists>gs'. open_session env (db_Process env stack ops) i prepare gs = Some (Ret gs') \<and> db_sound K ops gs'"
proof -
  let ?s = "\<lambda>j. prepare (new_session j i (me_now env))"
  note D = db_soundD [OF ok(2)]
  have known: "K \<longrightarrow> versions_ok ops (sh_world gs) \<and> safe_session stack (?s j) (sh_world gs)" for j using D(3) safe by blast
  have "\<exists>w'. \<forall>j. db_Process env stack ops (?s j) (sh_world gs) = Some (Ret (if db_idle (?s j) then Some (?s j) else None, w' j)) \<and> (K \<longrightarrow> versions_ok ops (w' j))"
    using db_Process_idle [of "?s j" env stack ops "sh_world gs" for j] db_Process_known [OF ok(1) known p(3)] D(3)
    by (intro choice allI) (auto split: if_splits)
  then obtain w' where w': "\<And>j. db_Process env stack ops (?s j) (sh_world gs) = Some (Ret (if db_idle (?s j) then Some (?s j) else None, w' j))"
    "\<And>j. K \<longrightarrow> versions_ok ops (w' j)" by blast
  have "\<exists>gs'. open_session env (db_Process env stack ops) i prepare gs = Some (Ret gs') \<and> kp_inv se_session_id (sh_sessions gs')
    \<and> (sh_world gs' = sh_world gs \<and> (\<forall>j. GetSession j (sh_sessions gs') = GetSession j (sh_sessions gs))
      \<or> (\<exists>k. sh_world gs' = w' k \<and> (\<forall>j. GetSession j (sh_sessions gs') =
            (if j = k then (if db_idle (?s k) then Some (?s k) else None) else GetSession j (sh_sessions gs)))))"
    by (rule open_effect [where so = "\<lambda>j. if db_idle (?s j) then Some (?s j) else None"])
       (use D(1) w'(1) p(1) in \<open>auto split: if_splits\<close>)
  then obtain gs' where gs': "open_session env (db_Process env stack ops) i prepare gs = Some (Ret gs')"
    "kp_inv se_session_id (sh_sessions gs')"
    "sh_world gs' = sh_world gs \<and> (\<forall>j. GetSession j (sh_sessions gs') = GetSession j (sh_sessions gs))
      \<or> (\<exists>k. sh_world gs' = w' k \<and> (\<forall>j. GetSession j (sh_sessions gs') =
            (if j = k then (if db_idle (?s k) then Some (?s k) else None) else GetSession j (sh_sessions gs))))"
    by blast
  have "db_idle s" if "GetSession j (sh_sessions gs') = Some s" for j s
    using gs'(3) that D(2) by (metis (full_types) option.distinct(1) option.inject)
  then have "db_sound K ops gs'" by (rule db_soundI [OF gs'(2)]) (use gs'(3) D(3) w'(2) in auto)
  with gs'(1) show ?thesis by blast
qed

lemma db_response_sound:
  assumes "db_sound K ops gs"
  shows "\<exists>gs'. run_session (db_Process env stack ops) sid (\<lambda>s. s\<lparr>se_ss_response := m\<rparr>) gs = Some (Ret gs') \<and> db_sound K ops gs'"
proof (cases "GetSession sid (sh_sessions gs)")
  case None
  then show ?thesis using assms by (simp add: run_session_def)
next
  case (Some s)
  note D = db_soundD [OF assms]
  have i: "db_idle (s\<lparr>se_ss_response := m\<rparr>)" "se_session_id s = sid"
    using D(2) [OF Some] session_pool(4) [OF D(1) Some] by (simp_all add: db_idle_def)
  have "\<exists>gs'. run_session (db_Process env stack ops) sid (\<lambda>s. s\<lparr>se_ss_response := m\<rparr>) gs = Some (Ret gs')
    \<and> sh_world gs' = sh_world gs \<and> kp_inv se_session_id (sh_sessions gs')
    \<and> (\<forall>j. GetSession j (sh_sessions gs') = (if j = sid then Some (s\<lparr>se_ss_response := m\<rparr>) else GetSession j (sh_sessions gs)))"
    by (rule run_effect [OF D(1) Some]) (use i db_Process_idle in auto)
  then obtain gs' where gs': "run_session (db_Process env stack ops) sid (\<lambda>s. s\<lparr>se_ss_response := m\<rparr>) gs = Some (Ret gs')"
    "sh_world gs' = sh_world gs" "kp_inv se_session_id (sh_sessions gs')"
    "\<And>j. GetSession j (sh_sessions gs') = (if j = sid then Some (s\<lparr>se_ss_response := m\<rparr>) else GetSession j (sh_sessions gs))"
    by blast
  have "db_sound K ops gs'" by (rule db_soundI [OF gs'(3)]) (use gs' D i(1) in \<open>auto split: if_splits\<close>)
  with gs'(1) show ?thesis by blast
qed

lemma internal_fold_same_db: "same_db w (fold (\<lambda>m w. snd (SendMsgToInternal env m w)) ms w)"
proof (induction ms arbitrary: w)
  case (Cons m ms)
  show ?case using same_db_trans [OF internal_same_db Cons.IH] by simp
qed (simp add: same_db_def)

lemma db_routine_sound:
  assumes "db_sound K ops gs"
  shows "db_sound K ops (db_OnRoutineCheck z env gs)"
proof -
  have t: "db_sound K ops (shell_timers env gs)"
    using assms same_db_versions_ok [OF internal_fold_same_db [of "sh_world gs" env "fst (Tick (le_ord env) (me_now env) (w_timers (sh_world gs)))"], of ops]
    by (simp add: db_sound_def shell_timers_def pool_good_def Let_def split_beta versions_ok_def ldb_GetVersion_def)
  have c: "db_sound K ops (shell_sessions env x)" if "db_sound K ops x" for x :: "'a db_shell"
    using that sessions.release_all [of "sh_sessions x"]
    by (auto simp: db_sound_def shell_sessions_def pool_good_def CheckTimeOut_def split: if_splits)
  have "db_sound K ops (db_versions z env x)" if "db_sound K ops x" for x :: "'a db_shell"
    using that by (auto simp: db_sound_def db_versions_def pool_good_def intro: VersionExpire_versions_ok)
  from this [OF c [OF t]] show ?thesis by (simp add: db_OnRoutineCheck_def)
qed

lemma db_step_sound:
  assumes "ldb_ok ops" "db_sound K ops gs" "K \<longrightarrow> db_safe c gs"
  shows "\<exists>gs'. db_step z ops c gs = Some (Ret gs') \<and> db_sound K ops gs'"
proof -
  obtain env stack e where c: "c = (env, stack, e)" by (rule prod_cases3)
  note new = new_session_def session0_def ss_msg0_def
  have none: "safe_session stack s (sh_world gs)" if "ss_body (se_ss_msg s) = None" for s
    using that by (simp add: safe_session_def sane_def req_save_def)
  show ?thesis
  proof (cases e)
    case (DE_Client head buf)
    then show ?thesis using assms(1,2)
      by (auto simp: c db_step_def db_OnClientMessage_def split: option.split
          intro!: db_open_sound none) (simp_all add: new)
  next
    case (DE_Server head buf)
    have "\<exists>gs'. open_session env (db_Process env stack ops) (ss_union_case msg) (\<lambda>s. s\<lparr>se_msg_head := MH_proxy head, se_ss_msg := msg\<rparr>) gs
        = Some (Ret gs') \<and> db_sound K ops gs'" if "le_parse_ss env buf = Some msg" "ss_type msg = EN_SS_Request" for msg
      using assms that DE_Server
      by (intro db_open_sound) (simp_all add: c db_safe_def safe_session_def sane_def req_save_def new)
    with db_response_sound [OF assms(2)] assms(2) DE_Server show ?thesis
      by (auto simp: c db_step_def db_OnServerMessage_def shell_OnServerMessage_def split: option.split)
  next
    case (DE_Internal buf)
    then show ?thesis using assms(1,2)
      by (auto simp: c db_step_def db_OnInternalMessage_def shell_OnInternalMessage_def split: option.split
          intro!: db_open_sound none) (simp_all add: new)
  qed (use assms(2) db_routine_sound in \<open>simp_all add: c db_step_def\<close>)
qed

lemma db_run_sound:
  assumes "ldb_ok ops" "db_sound K ops gs" "K \<longrightarrow> db_safe_run z ops cs gs"
  shows "\<exists>gs'. shell_run (db_step z ops) cs gs = Some (Ret gs') \<and> db_sound K ops gs'"
  using assms(2,3)
proof (induction cs arbitrary: gs)
  case (Cons c cs)
  from db_step_sound [OF assms(1) Cons.prems(1), of c z] Cons.prems(2)
  obtain gs1 where "db_step z ops c gs = Some (Ret gs1)" "db_sound K ops gs1" by auto
  with Cons.IH [of gs1] Cons.prems(2) show ?case by simp
qed simp

text \<open>Property C12. Whatever messages reach the database server in whatever order, no call faults or runs forever. Every
  query and save is finished in the call that brings it and leaves no session behind: the sessions
  that stay are those of messages the server does not know. When the versions it holds of parts are those
  of the database at the start, they are so at the end, provided that every save of the run is sane as in LevelDb.thy: it
  names each part once, and does not meet by chance the uninitialised memory with which it is compared where a
  version is not known.\<close>

theorem db_serves:
  assumes "ldb_ok ops" "pool_good db_idle gs"
  shows "\<exists>gs'. shell_run (db_step z ops) cs gs = Some (Ret gs') \<and> pool_good db_idle gs'
    \<and> (versions_ok ops (sh_world gs) \<and> db_safe_run z ops cs gs \<longrightarrow> versions_ok ops (sh_world gs'))"
  using db_run_sound [OF assms(1), of "versions_ok ops (sh_world gs) \<and> db_safe_run z ops cs gs" gs z cs] assms(2)
  by (auto simp: db_sound_def)

definition db_env0 :: lip_env where
  "db_env0 = shell_env0 (\<lambda>bs. Some (if bs = [] then se_ss_msg query_session else se_ss_msg (save_session 5)))"

definition db_shell0 :: "(string \<Rightarrow> byte list option) db_shell" where
  "db_shell0 = \<lparr>sh_sessions = session_mgr0 2, sh_world = db_world0, sh_timer_check = 0, sh_session_check = 0, ds_version_check = 0\<rparr>"

definition db_calls :: "db_call list" where
  "db_calls = (let h = me_stack_head test_env in [(db_env0, (\<lambda>_. 0), DE_Server h []), (db_env0, (\<lambda>_. 0), DE_Server h [1]), (db_env0, (\<lambda>_. 7), DE_Routine), (db_env0, (\<lambda>_. 0), DE_Server h [1])])"

lemma safe_calls:
  fixes ops :: "'d ldb_ops"
  assumes "\<And>c (gs :: 'd db_shell). c \<in> set cs \<Longrightarrow> db_safe c gs"
  shows "db_safe_run z ops cs (gs :: 'd db_shell)"
  using assms by (induction cs arbitrary: gs) (simp_all split: option.split outcome.split)

lemma db_shell0_sound: "db_sound K map_ops db_shell0"
  using session_mgr0_inv(1)
  by (intro db_soundI) (simp_all add: db_shell0_def GetSession_def kp_Get_def session_mgr0_def versions_ok_def ldb_GetVersion_def db_world0_def)

lemma db_serves_witness:
  "\<exists>gs'. shell_run (db_step utc map_ops) db_calls db_shell0 = Some (Ret gs') \<and> pool_good db_idle gs'
    \<and> versions_ok map_ops (sh_world gs')"
proof -
  have "db_safe (db_env0, (\<lambda>_. 0), DE_Server h bs) gs" for h bs gs
    by (simp add: db_safe_def db_env0_def shell_env0_def msg_env.defs sane_def req_save_def query_session_def save_session_def
        gold_part_def ss_union_case_def)
  then have "db_safe c gs" if "c \<in> set db_calls" for c gs
    using that by (auto simp: db_calls_def Let_def) (simp add: db_safe_def)
  then have "db_safe_run utc map_ops db_calls db_shell0" by (rule safe_calls)
  with db_serves [OF map_ops_ok, of db_shell0 utc db_calls] db_shell0_sound [of True] show ?thesis by (auto simp: db_sound_def)
qed

end
