(* ===== verification/FrameStart.thy ===== *)
theory FrameStart
  imports FrameServer
begin

unbundle bit_operations_syntax

text \<open>
  core/src/frame_server.cpp and event_manager.h: the start of a logic server, the signals, the loop and
  the exit. The segments of the pipes outlive the process: \<open>shm_world\<close> holds their bytes while no
  process has them attached, and a start reads the pipes back from them. The lemmas show that what
  was queued at the exit is there after the next start, and how many messages the queue of a given
  size can hold.
\<close>

subsection \<open>Pipes in segments\<close>

definition pipe_bytes :: "shm_pipe \<Rightarrow> byte list" where
  "pipe_bytes p = le_bytes 4 (sp_begin p) @ le_bytes 4 (sp_end p) @ le_bytes 4 (sp_size p) @ sp_buf p"

definition pipe_of :: "byte list \<Rightarrow> shm_pipe" where
  "pipe_of seg = \<lparr>sp_begin = of_le (take 4 seg), sp_end = of_le (take 4 (drop 4 seg)), sp_size = of_le (take 4 (drop 8 seg)),
     sp_buf = drop 12 seg\<rparr>"

text \<open>\<open>new ShmPipe(exist)\<close>: \<open>operator new\<close> gives NULL for a segment below \<open>sizeof(ShmPipe)\<close>. It is not
  declared \<open>noexcept\<close>, so the constructor runs on the null pointer: the tests for a null pipe that
  follow in the code are never reached with one.\<close>

definition new_pipe :: "bool \<Rightarrow> byte list \<Rightarrow> shm_pipe outcome" where
  "new_pipe exist seg = (if 12 > length seg then Crash else Ret (ShmPipe_ctor exist (pipe_of seg)))"

text \<open>What the system answers: \<open>shmget\<close> with \<open>IPC_CREAT\<close>, \<open>shmat\<close> and \<open>shmctl\<close> with \<open>IPC_RMID\<close>.\<close>

record shm_sys =
  sy_create :: "u32 \<Rightarrow> bool"
  sy_attach :: "u32 \<Rightarrow> bool"
  sy_remove :: "u32 \<Rightarrow> bool"

text \<open>Create or attach; the result says whether the segment was there, and its bytes when it is attached.\<close>

definition attach_seg :: "shm_sys \<Rightarrow> u32 \<Rightarrow> nat \<Rightarrow> shm_world \<Rightarrow> bool \<times> byte list option \<times> shm_world" where
  "attach_seg sys key n shm =
     (let exist = ShareMem_IsExist key shm;
          shm1 = (if \<not> exist then snd (ShareMem_Create (sy_create sys key) key n shm) else shm)
      in (exist, if sy_attach sys key then shm1 key else None, shm1))"

definition delete_seg :: "shm_sys \<Rightarrow> u32 \<Rightarrow> shm_world \<Rightarrow> shm_world" where
  "delete_seg sys key shm = snd (ShareMem_Delete (sy_remove sys key) key shm)"

text \<open>Keys and numbers of messages, the proxies and the event servers of the configuration.\<close>

record frame_conf =
  fc_msg :: "u32 \<times> nat"
  fc_cs :: "u32 \<times> nat"
  fc_sc :: "u32 \<times> nat"
  fc_cs_ws :: "u32 \<times> nat"
  fc_sc_ws :: "u32 \<times> nat"
  fc_proxies :: nat
  fc_events :: nat

definition InitMsgShmPipe :: "shm_sys \<Rightarrow> frame_conf \<Rightarrow> shm_world \<Rightarrow> (shm_pipe option \<times> shm_world) outcome" where
  "InitMsgShmPipe sys conf shm =
     (let (key, n) = fc_msg conf in
      if key = 0 then Ret (None, shm)
      else
        let (exist, mem, shm1) = attach_seg sys key (12 + n * MSG_SIZE + 1) shm in
        case mem of
          None \<Rightarrow> Ret (None, delete_seg sys key shm1)
        | Some seg \<Rightarrow> (case new_pipe exist seg of Crash \<Rightarrow> Crash | Ret p \<Rightarrow> Ret (Some p, shm1)))"

text \<open>\<open>InitCsShmPipe\<close> and \<open>InitCsShmPipeWs\<close> are the same on their own keys. Result: success, the two pipes
  where there are any.\<close>

definition init_pair :: "shm_sys \<Rightarrow> u32 \<times> nat \<Rightarrow> u32 \<times> nat \<Rightarrow> shm_world \<Rightarrow> (bool \<times> (shm_pipe \<times> shm_pipe) option \<times> shm_world) outcome" where
  "init_pair sys cs sc shm =
     (if fst cs = 0 \<or> fst sc = 0 then Ret (True, None, shm)
      else
        let (cs_exist, cs_mem, shm1) = attach_seg sys (fst cs) (12 + snd cs * MAX_CONNECT_BUF_LEN + 1) shm;
            (sc_exist, sc_mem, shm2) = attach_seg sys (fst sc) (12 + snd sc * MAX_CONNECT_BUF_LEN + 1) shm1 in
        case (cs_mem, sc_mem) of
          (Some cseg, Some sseg) \<Rightarrow>
            (case new_pipe cs_exist cseg of
               Crash \<Rightarrow> Crash
             | Ret cp \<Rightarrow> (case new_pipe sc_exist sseg of Crash \<Rightarrow> Crash | Ret sp \<Rightarrow> Ret (True, Some (cp, sp), shm2)))
        | _ \<Rightarrow> Ret (False, None, delete_seg sys (fst sc) (delete_seg sys (fst cs) shm2)))"

definition InitCsShmPipe :: "shm_sys \<Rightarrow> frame_conf \<Rightarrow> shm_world \<Rightarrow> (bool \<times> (shm_pipe \<times> shm_pipe) option \<times> shm_world) outcome" where
  "InitCsShmPipe sys conf shm = init_pair sys (fc_cs conf) (fc_sc conf) shm"

definition InitCsShmPipeWs :: "shm_sys \<Rightarrow> frame_conf \<Rightarrow> shm_world \<Rightarrow> (bool \<times> (shm_pipe \<times> shm_pipe) option \<times> shm_world) outcome" where
  "InitCsShmPipeWs sys conf shm = init_pair sys (fc_cs_ws conf) (fc_sc_ws conf) shm"

subsection \<open>The managers\<close>

text \<open>\<open>ProxyManager::Init\<close>: the connections are made one after the other, the first failure ends the start.\<close>

fun pm_connect :: "(nat \<Rightarrow> reconnect) \<Rightarrow> nat list \<Rightarrow> proxy_mgr \<Rightarrow> bool \<times> proxy_mgr" where
  "pm_connect rc [] pm = (True, pm)"
| "pm_connect rc (i # is) pm = (case rc_fd (rc i) of
     None \<Rightarrow> (False, pm)
   | Some fd \<Rightarrow>
       (let pm1 = pm\<lparr>pm_pool := (pm_pool pm)[i := (pm_pool pm ! i)\<lparr>sv_fd := fd, sv_in := rc_in (rc i), sv_out := rc_out (rc i)\<rparr>]\<rparr>
        in if \<not> rc_registered (rc i) then (False, pm1) else pm_connect rc is pm1))"

definition pm_Init :: "(nat \<Rightarrow> reconnect) \<Rightarrow> nat \<Rightarrow> byte list \<Rightarrow> bool \<times> proxy_mgr" where
  "pm_Init rc n buf =
     (let pm = \<lparr>pm_pool = replicate n svr_socket0, pm_count = 0, pm_buf = buf\<rparr> in
      if n = 0 then (False, pm) else if n > 8 then (False, pm) else pm_connect rc [0..<n] pm)"

text \<open>\<open>ev_sent\<close>: the datagrams given to \<open>sendto\<close>, with the number of the address. \<open>count\<close> is a static of
  \<open>SendEvent\<close>.\<close>

record event_mgr =
  ev_num :: nat
  ev_count :: u32
  ev_sent :: "(nat \<times> byte list) list"

definition em_Init :: "(nat \<Rightarrow> bool) \<Rightarrow> nat \<Rightarrow> bool \<times> event_mgr" where
  "em_Init socket_ok n = (n \<noteq> 0 \<and> (\<forall>i<n. socket_ok i), \<lparr>ev_num = n, ev_count = 0, ev_sent = []\<rparr>)"

definition SendEvent :: "int \<Rightarrow> byte list \<Rightarrow> event_mgr \<Rightarrow> bool \<times> event_mgr" where
  "SendEvent ret buf em =
     (ret = int (length buf),
      em\<lparr>ev_count := ev_count em + 1, ev_sent := ev_sent em @ [(unat (ev_count em) mod ev_num em, buf)]\<rparr>)"

definition SendMessageToEvent :: "int \<Rightarrow> byte list \<Rightarrow> event_mgr \<Rightarrow> bool \<times> event_mgr" where
  "SendMessageToEvent ret buf em = SendEvent ret buf em"

subsection \<open>Initialize, Run and Exit\<close>

text \<open>What a start finds: whether no other process holds the lock of the configuration, the configuration
  when it can be read, the system's answers, the memory of the server object that no constructor
  sets, the time of the first turn (when the static of \<open>CheckProxyConnect\<close> is set) and \<open>InitGame\<close>.\<close>

record 'g frame_boot =
  fb_alone :: bool
  fb_conf :: "frame_conf option"
  fb_sys :: shm_sys
  fb_connect :: "nat \<Rightarrow> reconnect"
  fb_socket :: "nat \<Rightarrow> bool"
  fb_message :: st_message
  fb_pad :: "byte list"
  fb_buf :: "byte list"
  fb_first_turn :: u32
  fb_state :: 'g
  fb_game :: "'g frame_svr \<Rightarrow> shm_world \<Rightarrow> (int \<times> 'g frame_svr \<times> shm_world) outcome"

definition and_then :: "'a outcome \<Rightarrow> ('a \<Rightarrow> 'b outcome) \<Rightarrow> 'b outcome" where
  "and_then x k = (case x of Crash \<Rightarrow> Crash | Ret y \<Rightarrow> k y)"

definition fresh_frame :: "('g, 'z) frame_boot_scheme \<Rightarrow> frame_conf \<Rightarrow> shm_pipe \<Rightarrow> (shm_pipe \<times> shm_pipe) option
    \<Rightarrow> (shm_pipe \<times> shm_pipe) option \<Rightarrow> proxy_mgr \<Rightarrow> 'g frame_svr" where
  "fresh_frame b conf mp cs ws pm =
     \<lparr>fs_msg_shm_size = snd (fc_msg conf), fs_msg_pipe = mp, fs_cs_pipe = map_option fst cs, fs_sc_pipe = map_option snd cs,
      fs_cs_pipe_ws = map_option fst ws, fs_sc_pipe_ws = map_option snd ws, fs_proxy = pm, fs_message = fb_message b,
      fs_pad = fb_pad b, fs_check_time = fb_first_turn b, fs_game = fb_state b\<rparr>"

definition Initialize_frame :: "('g, 'z) frame_boot_scheme \<Rightarrow> shm_world \<Rightarrow> (int \<times> ('g frame_svr \<times> event_mgr) option \<times> shm_world) outcome" where
  "Initialize_frame b shm =
     (if \<not> fb_alone b then Ret (- 100, None, shm)
      else case fb_conf b of
        None \<Rightarrow> Ret (- 1, None, shm)
      | Some conf \<Rightarrow>
          and_then (InitMsgShmPipe (fb_sys b) conf shm) (\<lambda>(mpo, shm1). case mpo of
            None \<Rightarrow> Ret (- 2, None, shm1)
          | Some mp \<Rightarrow>
          and_then (InitCsShmPipe (fb_sys b) conf shm1) (\<lambda>(ok, cs, shm2). if \<not> ok then Ret (- 3, None, shm2) else
          and_then (InitCsShmPipeWs (fb_sys b) conf shm2) (\<lambda>(ok, ws, shm3). if \<not> ok then Ret (- 3, None, shm3) else
            let (connected, pm) = pm_Init (fb_connect b) (fc_proxies conf) (fb_buf b);
                (opened, em) = em_Init (fb_socket b) (fc_events conf) in
            if \<not> connected then Ret (- 4, None, shm3)
            else if \<not> opened then Ret (- 5, None, shm3)
            else and_then (fb_game b (fresh_frame b conf mp cs ws pm) shm3)
                   (\<lambda>(ret, fs, shm4). Ret (ret, if ret \<noteq> 0 then None else Some (fs, em), shm4))))))"

text \<open>The process leaves its pipes in the segments; the message queue's stays attached until the process has
  ended.\<close>

definition store_pipe :: "u32 \<Rightarrow> shm_pipe option \<Rightarrow> shm_world \<Rightarrow> shm_world" where
  "store_pipe key po shm = (case po of None \<Rightarrow> shm | Some p \<Rightarrow> shm(key \<mapsto> pipe_bytes p))"

definition detach_all :: "frame_conf \<Rightarrow> 'g frame_svr \<Rightarrow> shm_world \<Rightarrow> shm_world" where
  "detach_all conf fs shm =
     store_pipe (fst (fc_msg conf)) (Some (fs_msg_pipe fs)) (store_pipe (fst (fc_sc_ws conf)) (fs_sc_pipe_ws fs)
       (store_pipe (fst (fc_cs_ws conf)) (fs_cs_pipe_ws fs) (store_pipe (fst (fc_sc conf)) (fs_sc_pipe fs)
         (store_pipe (fst (fc_cs conf)) (fs_cs_pipe fs) shm))))"

definition Exit_frame :: "frame_conf \<Rightarrow> ('g frame_svr \<Rightarrow> shm_world \<Rightarrow> shm_world) \<Rightarrow> 'g frame_svr \<Rightarrow> shm_world \<Rightarrow> shm_world" where
  "Exit_frame conf exit_game fs shm = exit_game fs (detach_all conf fs shm)"

text \<open>\<open>run_flag\<close>: bit 0 is set by the signal to exit, bit 1 by the signal to reload. The result says whether
  the loop goes on; when it does not, \<open>Exit\<close> has been called.\<close>

definition CheckRunFlag :: "('g frame_svr \<Rightarrow> 'g frame_svr) \<Rightarrow> u32 \<Rightarrow> 'g frame_svr \<Rightarrow> bool \<times> u32 \<times> 'g frame_svr" where
  "CheckRunFlag reload flag fs =
     (if flag AND 1 \<noteq> 0 then (False, flag, fs)
      else if flag AND 2 \<noteq> 0 then (True, flag AND NOT 2, reload fs)
      else (True, flag, fs))"

record turn =
  tu_now :: u64
  tu_connect :: "nat \<Rightarrow> reconnect"
  tu_ready :: "nat \<Rightarrow> bool"
  tu_signals :: u32

text \<open>\<open>Run\<close> over the given turns; \<open>True\<close>: it is still running after them.\<close>

fun frame_run :: "'g virtuals \<Rightarrow> ('g frame_svr \<Rightarrow> 'g frame_svr) \<Rightarrow> turn list \<Rightarrow> u32 \<Rightarrow> 'g frame_svr
    \<Rightarrow> (bool \<times> u32 \<times> 'g frame_svr) outcome option" where
  "frame_run v reload [] flag fs = Some (Ret (True, flag, fs))"
| "frame_run v reload (t # ts) flag fs =
     bind_turn (Run_turn (tu_now t) (tu_connect t) (tu_ready t) v fs) (\<lambda>fs1.
       let (go, flag1, fs2) = CheckRunFlag reload (flag OR tu_signals t) fs1
       in if go then frame_run v reload ts flag1 fs2 else Some (Ret (False, flag1, fs2)))"

subsection \<open>Messages over a restart\<close>

lemma pipe_of_bytes:
  assumes "pipe_inv p"
  shows "pipe_of (pipe_bytes p) = p"
proof -
  have small: "x < sp_size p \<or> x = sp_size p \<Longrightarrow> of_le (le_bytes 4 x) = x" for x
    using assms of_le_le_bytes [of x 4] by (auto simp: pipe_inv_def)
  show ?thesis
    using assms small by (cases p) (simp add: pipe_of_def pipe_bytes_def pipe_inv_def)
qed

lemma attach_left:
  assumes "pipe_inv p" "sy_attach sys key" "shm key = Some (pipe_bytes p)"
  shows "attach_seg sys key n shm = (True, Some (pipe_bytes p), shm)" "new_pipe True (pipe_bytes p) = Ret p"
  using assms pipe_of_bytes [OF assms(1)]
  by (simp_all add: attach_seg_def ShareMem_IsExist_def new_pipe_def ShmPipe_ctor_def Reuse_def pipe_inv_def wrap32_small)
     (simp add: pipe_bytes_def)

text \<open>A server whose pipes are those its configuration asks for.\<close>

definition pair_ok :: "u32 \<times> nat \<Rightarrow> u32 \<times> nat \<Rightarrow> shm_pipe option \<Rightarrow> shm_pipe option \<Rightarrow> bool" where
  "pair_ok cs sc cp sp \<longleftrightarrow> (if fst cs = 0 \<or> fst sc = 0 then cp = None \<and> sp = None
     else (\<exists>c s. cp = Some c \<and> sp = Some s \<and> pipe_inv c \<and> pipe_inv s))"

definition pair_of :: "shm_pipe option \<Rightarrow> shm_pipe option \<Rightarrow> (shm_pipe \<times> shm_pipe) option" where
  "pair_of cp sp = (case (cp, sp) of (Some c, Some s) \<Rightarrow> Some (c, s) | _ \<Rightarrow> None)"

definition attached :: "frame_conf \<Rightarrow> 'g frame_svr \<Rightarrow> bool" where
  "attached conf fs \<longleftrightarrow> fst (fc_msg conf) \<noteq> 0 \<and> pipe_inv (fs_msg_pipe fs)
     \<and> pair_ok (fc_cs conf) (fc_sc conf) (fs_cs_pipe fs) (fs_sc_pipe fs)
     \<and> pair_ok (fc_cs_ws conf) (fc_sc_ws conf) (fs_cs_pipe_ws fs) (fs_sc_pipe_ws fs)"

definition conf_keys :: "frame_conf \<Rightarrow> u32 list" where
  "conf_keys conf = filter (\<lambda>k. k \<noteq> 0) [fst (fc_msg conf), fst (fc_cs conf), fst (fc_sc conf), fst (fc_cs_ws conf), fst (fc_sc_ws conf)]"

definition seg_holds :: "u32 \<Rightarrow> shm_pipe option \<Rightarrow> shm_world \<Rightarrow> bool" where
  "seg_holds key po shm \<longleftrightarrow> (\<forall>p. po = Some p \<longrightarrow> shm key = Some (pipe_bytes p))"

lemma init_pair_left:
  assumes "pair_ok cs sc cp sp" "\<And>k. sy_attach sys k" "seg_holds (fst cs) cp shm" "seg_holds (fst sc) sp shm"
  shows "init_pair sys cs sc shm = Ret (True, pair_of cp sp, shm)"
  using assms attach_left [of "the cp" sys "fst cs" shm] attach_left [of "the sp" sys "fst sc" shm]
  by (auto simp: init_pair_def pair_ok_def pair_of_def seg_holds_def split: if_splits)

lemma detach_held:
  assumes "attached conf fs" "distinct (conf_keys conf)"
  shows "seg_holds (fst (fc_msg conf)) (Some (fs_msg_pipe fs)) (detach_all conf fs shm)"
    "seg_holds (fst (fc_cs conf)) (fs_cs_pipe fs) (detach_all conf fs shm)" "seg_holds (fst (fc_sc conf)) (fs_sc_pipe fs) (detach_all conf fs shm)"
    "seg_holds (fst (fc_cs_ws conf)) (fs_cs_pipe_ws fs) (detach_all conf fs shm)"
    "seg_holds (fst (fc_sc_ws conf)) (fs_sc_pipe_ws fs) (detach_all conf fs shm)"
  using assms
  by (auto simp: attached_def pair_ok_def conf_keys_def seg_holds_def detach_all_def store_pipe_def split: if_splits option.split)

lemma attached_keys:
  assumes "attached conf fs"
  shows "fst (fc_msg conf) \<in> set (conf_keys conf)"
    "fs_cs_pipe fs \<noteq> None \<Longrightarrow> fst (fc_cs conf) \<in> set (conf_keys conf)"
    "fs_sc_pipe fs \<noteq> None \<Longrightarrow> fst (fc_sc conf) \<in> set (conf_keys conf)"
    "fs_cs_pipe_ws fs \<noteq> None \<Longrightarrow> fst (fc_cs_ws conf) \<in> set (conf_keys conf)"
    "fs_sc_pipe_ws fs \<noteq> None \<Longrightarrow> fst (fc_sc_ws conf) \<in> set (conf_keys conf)"
  using assms by (auto simp: attached_def pair_ok_def conf_keys_def split: if_splits)

text \<open>Property C27. Whatever was queued when a server left is there when it starts again with the same configuration:
  all pipes are the ones it left, as long as \<open>ExitGame\<close> keeps to its own segments, the pipes' segments
  have keys of their own and can be attached. The start then ends as \<open>InitGame\<close> does.\<close>

theorem frame_restart:
  assumes "attached conf fs" "distinct (conf_keys conf)"
    and "\<And>k s. k \<in> set (conf_keys conf) \<Longrightarrow> exit_game fs s k = s k"
    and "fb_alone b" "fb_conf b = Some conf" "\<And>k. sy_attach (fb_sys b) k"
    and "pm_Init (fb_connect b) (fc_proxies conf) (fb_buf b) = (True, pm)" "em_Init (fb_socket b) (fc_events conf) = (True, em)"
  shows "Initialize_frame b (Exit_frame conf exit_game fs shm) =
    and_then (fb_game b (fresh_frame b conf (fs_msg_pipe fs) (pair_of (fs_cs_pipe fs) (fs_sc_pipe fs))
        (pair_of (fs_cs_pipe_ws fs) (fs_sc_pipe_ws fs)) pm) (Exit_frame conf exit_game fs shm))
      (\<lambda>(ret, fs', shm'). Ret (ret, if ret \<noteq> 0 then None else Some (fs', em), shm'))"
proof -
  let ?shm = "Exit_frame conf exit_game fs shm"
  have keep: "seg_holds k po ?shm" if "seg_holds k po (detach_all conf fs shm)" "po \<noteq> None \<Longrightarrow> k \<in> set (conf_keys conf)" for k po
    using that assms(3) by (auto simp: seg_holds_def Exit_frame_def)
  have h: "seg_holds (fst (fc_msg conf)) (Some (fs_msg_pipe fs)) ?shm"
    "seg_holds (fst (fc_cs conf)) (fs_cs_pipe fs) ?shm" "seg_holds (fst (fc_sc conf)) (fs_sc_pipe fs) ?shm"
    "seg_holds (fst (fc_cs_ws conf)) (fs_cs_pipe_ws fs) ?shm" "seg_holds (fst (fc_sc_ws conf)) (fs_sc_pipe_ws fs) ?shm"
    by (rule keep [OF detach_held(1) [OF assms(1,2)] attached_keys(1) [OF assms(1)]],
        rule keep [OF detach_held(2) [OF assms(1,2)] attached_keys(2) [OF assms(1)]], assumption,
        rule keep [OF detach_held(3) [OF assms(1,2)] attached_keys(3) [OF assms(1)]], assumption,
        rule keep [OF detach_held(4) [OF assms(1,2)] attached_keys(4) [OF assms(1)]], assumption,
        rule keep [OF detach_held(5) [OF assms(1,2)] attached_keys(5) [OF assms(1)]], assumption)
  have a: "fst (fc_msg conf) \<noteq> 0" "pipe_inv (fs_msg_pipe fs)" using assms(1) by (simp_all add: attached_def)
  have "InitMsgShmPipe (fb_sys b) conf ?shm = Ret (Some (fs_msg_pipe fs), ?shm)"
    using attach_left [of _ "fb_sys b" "fst (fc_msg conf)" ?shm, OF a(2) assms(6)] h(1) a(1)
    by (simp add: InitMsgShmPipe_def seg_holds_def split_beta Let_def)
  moreover have "InitCsShmPipe (fb_sys b) conf ?shm = Ret (True, pair_of (fs_cs_pipe fs) (fs_sc_pipe fs), ?shm)"
    unfolding InitCsShmPipe_def using assms(1,6) h(2,3) by (intro init_pair_left) (simp_all add: attached_def)
  moreover have "InitCsShmPipeWs (fb_sys b) conf ?shm = Ret (True, pair_of (fs_cs_pipe_ws fs) (fs_sc_pipe_ws fs), ?shm)"
    unfolding InitCsShmPipeWs_def using assms(1,6) h(4,5) by (intro init_pair_left) (simp_all add: attached_def)
  ultimately show ?thesis
    using assms(4,5,7,8) by (simp add: Initialize_frame_def and_then_def)
qed

definition all_up :: shm_sys where
  "all_up = \<lparr>sy_create = (\<lambda>_. True), sy_attach = (\<lambda>_. True), sy_remove = (\<lambda>_. True)\<rparr>"

definition small_conf :: frame_conf where
  "small_conf = \<lparr>fc_msg = (7, 3), fc_cs = (8, 1), fc_sc = (9, 1), fc_cs_ws = (0, 0), fc_sc_ws = (0, 0), fc_proxies = 1, fc_events = 1\<rparr>"

definition one_proxy :: "nat \<Rightarrow> reconnect" where
  "one_proxy i = \<lparr>rc_fd = Some 5, rc_in = [], rc_out = [], rc_registered = True\<rparr>"

definition small_boot :: "unit frame_boot" where
  "small_boot = \<lparr>fb_alone = True, fb_conf = Some small_conf, fb_sys = all_up, fb_connect = one_proxy, fb_socket = (\<lambda>_. True),
     fb_message = \<lparr>sm_type = 0, sm_buf = [], sm_len = 0, sm_head = []\<rparr>, fb_pad = [], fb_buf = [], fb_first_turn = 0,
     fb_state = (), fb_game = (\<lambda>fs shm. Ret (0, fs, shm))\<rparr>"

text \<open>A server with two messages in its queue leaves and starts again.\<close>

definition busy_pipe :: shm_pipe where
  "busy_pipe = snd (the (AppendOneData [4, 5] (snd (the (AppendOneData [1, 2, 3] example_pipe)))))"

definition busy_frame :: "unit frame_svr" where
  "busy_frame = fresh_frame small_boot small_conf busy_pipe (Some (example_pipe, example_pipe)) None
     \<lparr>pm_pool = [], pm_count = 0, pm_buf = []\<rparr>"

lemma busy_pipe_rep: "pipe_rep busy_pipe [[1, 2, 3], [4, 5]]"
proof -
  obtain p1 where p1: "AppendOneData [1, 2, 3] example_pipe = Some (True, p1)" "pipe_rep p1 [[1, 2, 3]]"
    using shm.put_accept [OF example_pipe_rep, of "[1, 2, 3]"] by (auto simp: fits_pipe_def)
  have "used p1 = 7" "sp_size p1 = 16"
    using AppendOneData_accept [of example_pipe "[1, 2, 3]"] p1 example_pipe_rep
      length_content [of p1] by (auto simp: pipe_rep_def frame_def simp del: length_content)
  with shm.put_accept [OF p1(2), of "[4, 5]"] obtain p2 where
    "AppendOneData [4, 5] p1 = Some (True, p2)" "pipe_rep p2 [[1, 2, 3], [4, 5]]" by (auto simp: fits_pipe_def)
  with p1(1) show ?thesis by (simp add: busy_pipe_def)
qed

lemma frame_restart_witness:
  "\<exists>fs em shm'. Initialize_frame small_boot (Exit_frame small_conf (\<lambda>_ s. s) busy_frame (\<lambda>_. None)) = Ret (0, Some (fs, em), shm')
     \<and> pipe_rep (fs_msg_pipe fs) [[1, 2, 3], [4, 5]]"
proof -
  have a: "attached small_conf busy_frame"
    using busy_pipe_rep example_pipe_rep
    by (simp add: attached_def pair_ok_def busy_frame_def fresh_frame_def small_conf_def pipe_rep_def)
  have d: "distinct (conf_keys small_conf)" by (simp add: conf_keys_def small_conf_def)
  have p: "pm_Init (fb_connect small_boot) (fc_proxies small_conf) (fb_buf small_boot)
      = (True, \<lparr>pm_pool = [svr_socket0\<lparr>sv_fd := 5\<rparr>], pm_count = 0, pm_buf = []\<rparr>)"
    by (simp add: pm_Init_def small_boot_def small_conf_def one_proxy_def svr_socket0_def)
  have e: "em_Init (fb_socket small_boot) (fc_events small_conf) = (True, \<lparr>ev_num = 1, ev_count = 0, ev_sent = []\<rparr>)"
    by (simp add: em_Init_def small_boot_def small_conf_def)
  from frame_restart [OF a d, of "\<lambda>_ s. s" small_boot, OF _ _ _ _ p e, of "\<lambda>_. None"] busy_pipe_rep
  show ?thesis
    by (simp add: small_boot_def all_up_def busy_frame_def fresh_frame_def and_then_def)
qed

subsection \<open>The room of the queue\<close>

fun put_many :: "byte list list \<Rightarrow> shm_pipe \<Rightarrow> (nat \<times> shm_pipe) option" where
  "put_many [] p = Some (0, p)"
| "put_many (b # bs) p = (case AppendOneData b p of
     None \<Rightarrow> None
   | Some (ok, p1) \<Rightarrow> map_option (\<lambda>(n, p2). ((if ok then 1 else 0) + n, p2)) (put_many bs p1))"

lemma put_many_room:
  assumes "pipe_inv p" "used p = k * (m + 4)" "sp_size p = room + 1" "\<forall>b\<in>set bs. length b = m"
  shows "\<exists>p'. put_many bs p = Some (min (length bs) (room div (m + 4) - k), p')"
  using assms
proof (induction bs arbitrary: p k)
  case (Cons b bs)
  have iff: "length b + 4 + used p < sp_size p \<longleftrightarrow> Suc k \<le> room div (m + 4)"
    using Cons.prems(2,3,4) by (simp add: less_eq_div_iff_mult_less_eq algebra_simps) arith
  show ?case
  proof (cases "length b + 4 + used p < sp_size p")
    case True
    define p1 where "p1 = p\<lparr>sp_buf := ring_put (sp_buf p) (sp_end p) (frame b), sp_end := (sp_end p + length (frame b)) mod sp_size p\<rparr>"
    have a: "AppendOneData b p = Some (True, p1)" "pipe_inv p1" "content p1 = content p @ frame b"
      using AppendOneData_accept [OF Cons.prems(1) True] AppendOneData_content [OF Cons.prems(1) True p1_def] by (simp_all add: p1_def)
    have "used p1 = Suc k * (m + 4)"
      using arg_cong [OF a(3), of length] Cons.prems(2,4) by simp
    with Cons.IH [of p1 "Suc k"] a(2) Cons.prems(3,4) p1_def
    obtain p' where "put_many bs p1 = Some (min (length bs) (room div (m + 4) - Suc k), p')" by auto
    with a(1) iff True show ?thesis by auto
  next
    case False
    with Cons.IH [of p k] Cons.prems obtain p' where "put_many bs p = Some (min (length bs) (room div (m + 4) - k), p')" by auto
    with AppendOneData_reject [OF Cons.prems(1) False] iff False show ?thesis by auto
  qed
qed simp

text \<open>Property C28. The queue of a server that is started for the first time with \<open>msg_shm_size = n\<close> holds \<open>n - 1\<close> messages,
  not \<open>n\<close>: its segment is made for \<open>n\<close> messages without their length fields. A queue for one message
  refuses every message.\<close>

theorem msg_queue_capacity:
  assumes "InitMsgShmPipe sys conf shm = Ret (Some p, shm')" "fc_msg conf = (key, n)" "shm key = None"
    and "0 < n" "n \<le> 16398" "\<forall>b\<in>set bs. length b = MSG_SIZE"
  shows "\<exists>p'. put_many bs p = Some (min (length bs) (n - 1), p')"
proof -
  have p: "p = Initialize (pipe_of (replicate (13 + n * MSG_SIZE) 0))"
    using assms(1-3)
    by (auto simp: InitMsgShmPipe_def attach_seg_def ShareMem_IsExist_def ShareMem_Create_def new_pipe_def ShmPipe_ctor_def Let_def
        split: if_splits)
  have l: "length (sp_buf (pipe_of (replicate (13 + n * MSG_SIZE) 0))) = n * MSG_SIZE + 1" by (simp add: pipe_of_def)
  have small: "n * MSG_SIZE + 1 < 2 ^ 31" using assms(5) by simp
  have rep: "pipe_rep p []" unfolding p using l small by (intro Initialize_rep) simp_all
  have size: "sp_size p = n * MSG_SIZE + 1" using l small by (simp add: p Initialize_def wrap32_small)
  have "n * MSG_SIZE div (MSG_SIZE + 4) = n - 1"
    using assms(4,5) by (intro div_nat_eqI) (simp_all add: algebra_simps)
  with put_many_room [of p 0 MSG_SIZE "n * MSG_SIZE" bs] rep size assms(6) show ?thesis
    using length_content [of p] by (simp add: pipe_rep_def del: length_content)
qed

lemma msg_queue_capacity_witness:
  "\<exists>p shm' p'. InitMsgShmPipe all_up (small_conf\<lparr>fc_msg := (7, 1)\<rparr>) (\<lambda>_. None) = Ret (Some p, shm')
     \<and> put_many [replicate MSG_SIZE 0] p = Some (0, p')"
proof -
  obtain p shm' where i: "InitMsgShmPipe all_up (small_conf\<lparr>fc_msg := (7, 1)\<rparr>) (\<lambda>_. None) = Ret (Some p, shm')"
    by (simp add: InitMsgShmPipe_def attach_seg_def ShareMem_IsExist_def ShareMem_Create_def all_up_def new_pipe_def small_conf_def)
  from msg_queue_capacity [OF i, of 7 1 "[replicate MSG_SIZE 0]"] i show ?thesis by simp
qed

subsection \<open>Events are dealt out in turn\<close>

lemma events_in_turn:
  assumes "length bufs \<le> 2 ^ 32"
  shows "ev_sent (fold (\<lambda>b em. snd (SendMessageToEvent ret b em)) bufs (snd (em_Init socket_ok n)))
    = zip (map (\<lambda>i. i mod n) [0..<length bufs]) bufs"
proof -
  define run where "run bs = fold (\<lambda>b em. snd (SendMessageToEvent ret b em)) bs (snd (em_Init socket_ok n))" for bs
  have "length bs \<le> 2 ^ 32 \<Longrightarrow> ev_num (run bs) = n \<and> ev_count (run bs) = of_nat (length bs)
      \<and> ev_sent (run bs) = zip (map (\<lambda>i. i mod n) [0..<length bs]) bs" for bs
  proof (induction bs rule: rev_induct)
    case Nil
    show ?case by (simp add: run_def em_Init_def)
  next
    case (snoc b bs)
    have "run (bs @ [b]) = snd (SendMessageToEvent ret b (run bs))" by (simp add: run_def)
    with snoc show ?case
      by (simp add: SendMessageToEvent_def SendEvent_def unat_of_nat take_bit_eq_mod zip_append1 [symmetric])
  qed
  with assms show ?thesis by (simp add: run_def)
qed

end
