(* ===== verification/EventServer.thy ===== *)
theory EventServer
  imports LevelDb
begin

text \<open>
  svr/eventsvr/event_server.cpp: the event server takes datagrams from the logic servers and writes each
  as a document into a collection named after the event, in a database of the day. MongoDB and the
  generated parser are parameters: whether a handle can be had, and whether an insert succeeds,
  which may depend on all inserts tried before. \<open>es_out\<close> records these. Days are those of LevelDb.thy's
  zone. The lemmas show that the cached collections are always those of the open database, that
  what is written in a turn goes to the database of the day of the turn or of a reconnection in it, in a zone
  without daylight saving, and that no event is lost or doubled while MongoDB works.
\<close>

datatype bson_value = B_Int64 u64 | B_Utf8 string

type_synonym bson_doc = "(string \<times> bson_value) list"
type_synonym mongo_insert = "string \<times> string \<times> bson_doc \<times> bool"

record event_env =
  mo_db_name :: string
  mo_url_ok :: bool
  mo_db_ok :: "string \<Rightarrow> bool"
  mo_coll_ok :: "string \<Rightarrow> string \<Rightarrow> bool"
  mo_insert :: "mongo_insert list \<Rightarrow> string \<Rightarrow> string \<Rightarrow> bson_doc \<Rightarrow> bool"
  mo_parse :: "byte list \<Rightarrow> pb_event option"
  mo_zone :: zone

text \<open>\<open>es_colls\<close>: the handles by event name; a handle is the database and the name it was asked for with.\<close>

record event_svr =
  es_connect_time :: int
  es_client :: bool
  es_db :: "string option"
  es_colls :: "(string \<times> string \<times> string) list"
  es_out :: "mongo_insert list"

text \<open>What a function that takes a C string sees of a C++ string.\<close>

definition c_str :: "string \<Rightarrow> string" where
  "c_str s = takeWhile (\<lambda>c. of_char c \<noteq> (0 :: nat)) s"

subsection \<open>The connection\<close>

definition DisConnect :: "event_svr \<Rightarrow> event_svr" where
  "DisConnect es = es\<lparr>es_client := False, es_db := None, es_colls := []\<rparr>"

text \<open>The database's name ends in the day, \<open>GetYYYYMMDD\<close>.\<close>

definition db_of_day :: "event_env \<Rightarrow> int \<Rightarrow> string" where
  "db_of_day env now = mo_db_name env @ GetYYYYMMDD (mo_zone env) now"

definition Connect :: "event_env \<Rightarrow> int \<Rightarrow> event_svr \<Rightarrow> bool \<times> event_svr" where
  "Connect env now es =
     (let es1 = es\<lparr>es_connect_time := 0, es_client := False, es_db := None, es_colls := []\<rparr> in
      if \<not> mo_url_ok env then (False, DisConnect es1)
      else
        let es2 = es1\<lparr>es_client := True\<rparr> in
        if \<not> mo_db_ok env (db_of_day env now) then (False, DisConnect es2)
        else (True, es2\<lparr>es_db := Some (db_of_day env now), es_connect_time := now\<rparr>))"

definition CheckChangeDay :: "event_env \<Rightarrow> int \<Rightarrow> event_svr \<Rightarrow> event_svr" where
  "CheckChangeDay env now es =
     (if GetDiffDays (mo_zone env) now (es_connect_time es) \<noteq> 0 then snd (Connect env now (DisConnect es)) else es)"

subsection \<open>Writing\<close>

definition GetMongoCollection :: "event_env \<Rightarrow> string \<Rightarrow> event_svr \<Rightarrow> (string \<times> string) option \<times> event_svr" where
  "GetMongoCollection env name es = (case map_of (es_colls es) name of
     Some h \<Rightarrow> (Some h, es)
   | None \<Rightarrow>
       (case es_db es of
          None \<Rightarrow> (None, es)
        | Some d \<Rightarrow>
            if mo_coll_ok env d (c_str name)
            then (Some (d, c_str name), es\<lparr>es_colls := (name, d, c_str name) # es_colls es\<rparr>)
            else (None, es)))"

definition event_doc :: "pb_event \<Rightarrow> bson_doc" where
  "event_doc e = map (\<lambda>(k, v). (c_str k, B_Int64 v)) (ev_num_fields e) @ map (\<lambda>(k, v). (c_str k, B_Utf8 (c_str v))) (ev_str_fields e)"

definition WriteMongoDB :: "event_env \<Rightarrow> byte list \<Rightarrow> event_svr \<Rightarrow> bool \<times> event_svr" where
  "WriteMongoDB env buf es = (case mo_parse env buf of
     None \<Rightarrow> (False, es)
   | Some e \<Rightarrow>
       (case GetMongoCollection env (ev_name e) es of
          (None, es1) \<Rightarrow> (False, es1)
        | (Some (d, c), es1) \<Rightarrow>
            (let ok = mo_insert env (es_out es1) d c (event_doc e)
             in (ok, es1\<lparr>es_out := es_out es1 @ [(d, c, event_doc e, ok)]\<rparr>))))"

text \<open>The loop of at most 16 datagrams: what \<open>recvfrom\<close> returns one call after the other (\<open>None\<close>: an error or
  nothing there) with the time; an empty datagram ends the loop too. Result: what is left to receive.\<close>

type_synonym datagram = "int \<times> byte list option"

fun deal_loop :: "event_env \<Rightarrow> nat \<Rightarrow> datagram list \<Rightarrow> event_svr \<Rightarrow> datagram list \<times> event_svr" where
  "deal_loop env (Suc i) ((now, Some (b # bs)) # dgs) es =
     (let buf = take MAX_EVENT_BUF_LEN (b # bs); (ok, es1) = WriteMongoDB env buf es in
      if ok then deal_loop env i dgs es1
      else (case Connect env now (DisConnect es1) of
          (True, es2) \<Rightarrow> deal_loop env i dgs (snd (WriteMongoDB env buf es2))
        | (False, es2) \<Rightarrow> deal_loop env i dgs es2))"
| "deal_loop env (Suc i) ((now, _) # dgs) es = (dgs, es)"
| "deal_loop env i dgs es = (dgs, es)"

definition DealNetWork :: "event_env \<Rightarrow> datagram list \<Rightarrow> event_svr \<Rightarrow> datagram list \<times> event_svr" where
  "DealNetWork env dgs es = deal_loop env 16 dgs es"

text \<open>One turn of \<open>Run\<close>, and \<open>Run\<close> over the turns before the signal to exit.\<close>

definition event_turn :: "event_env \<times> int \<times> datagram list \<Rightarrow> event_svr \<Rightarrow> event_svr" where
  "event_turn t es = (case t of (env, now, dgs) \<Rightarrow> snd (DealNetWork env dgs (CheckChangeDay env now es)))"

definition event_run :: "(event_env \<times> int \<times> datagram list) list \<Rightarrow> event_svr \<Rightarrow> event_svr" where
  "event_run ts es = fold event_turn ts es"

text \<open>\<open>Initialize\<close>: the lock, the configuration and the socket are the system's answers. The handles of
  the server object are not set before \<open>Connect\<close>.\<close>

definition Initialize_event :: "bool \<Rightarrow> bool \<Rightarrow> bool \<Rightarrow> event_env \<Rightarrow> int \<Rightarrow> event_svr \<Rightarrow> int \<times> event_svr" where
  "Initialize_event alone conf_ok net_ok env now es =
     (if \<not> alone then (- 100, es)
      else if \<not> conf_ok then (- 1, es)
      else if \<not> net_ok then (- 2, es)
      else case Connect env now es of (ok, es1) \<Rightarrow> (if \<not> ok then - 3 else 0, es1))"

subsection \<open>The handles belong to the open database\<close>

definition handles_ok :: "event_svr \<Rightarrow> bool" where
  "handles_ok es \<longleftrightarrow> (\<forall>n d c. map_of (es_colls es) n = Some (d, c) \<longrightarrow> es_db es = Some d \<and> c = c_str n)"

definition of_days :: "event_env \<Rightarrow> int set \<Rightarrow> event_svr \<Rightarrow> bool" where
  "of_days env T es \<longleftrightarrow> handles_ok es \<and> (\<forall>d. es_db es = Some d \<longrightarrow> (\<exists>t\<in>T. d = db_of_day env t))"

definition event_ok :: "event_env \<Rightarrow> event_svr \<Rightarrow> bool" where
  "event_ok env es \<longleftrightarrow> of_days env {es_connect_time es} es \<and> clock_ok (es_connect_time es)"

lemma of_days_mono: "of_days env T es \<Longrightarrow> T \<subseteq> T' \<Longrightarrow> of_days env T' es"
  unfolding of_days_def by blast

lemma Connect_of_day: "of_days env {now} (snd (Connect env now es))" "clock_ok now \<Longrightarrow> event_ok env (snd (Connect env now es))"
    "es_out (snd (Connect env now es)) = es_out es"
  by (simp_all add: Connect_def DisConnect_def of_days_def event_ok_def clock_ok_def handles_ok_def Let_def)

lemma DisConnect_out [simp]: "es_out (DisConnect es) = es_out es"
  by (simp add: DisConnect_def)

lemma GetMongoCollection_ok:
  assumes "handles_ok es" "GetMongoCollection env name es = (h, es')"
  shows "handles_ok es'" "es_db es' = es_db es" "es_connect_time es' = es_connect_time es" "es_out es' = es_out es"
    "h = Some (d, c) \<Longrightarrow> es_db es = Some d \<and> c = c_str name"
  using assms by (auto simp: GetMongoCollection_def handles_ok_def split: option.splits if_splits)

text \<open>What a write leaves: the same connection, and one more insert in its database or none.\<close>

definition written :: "event_env \<Rightarrow> string option \<Rightarrow> byte list \<Rightarrow> mongo_insert list \<Rightarrow> bool" where
  "written env db buf new \<longleftrightarrow> new = [] \<or> (\<exists>e d r. mo_parse env buf = Some e \<and> db = Some d \<and> new = [(d, c_str (ev_name e), event_doc e, r)])"

lemma WriteMongoDB_ok:
  assumes "handles_ok es" "WriteMongoDB env buf es = (ok, es')"
  shows "handles_ok es'" "es_db es' = es_db es" "es_connect_time es' = es_connect_time es"
    "\<exists>new. es_out es' = es_out es @ new \<and> written env (es_db es) buf new"
proof -
  have "handles_ok es' \<and> es_db es' = es_db es \<and> es_connect_time es' = es_connect_time es
      \<and> (\<exists>new. es_out es' = es_out es @ new \<and> written env (es_db es) buf new)"
  proof (cases "mo_parse env buf")
    case None
    with assms show ?thesis by (simp add: WriteMongoDB_def written_def)
  next
    case (Some e)
    obtain h es1 where g: "GetMongoCollection env (ev_name e) es = (h, es1)" by (rule prod.exhaust)
    note G = GetMongoCollection_ok [OF assms(1) g]
    show ?thesis
    proof (cases h)
      case None
      with assms(2) Some g G show ?thesis by (simp add: WriteMongoDB_def written_def)
    next
      case h: (Some dc)
      obtain d c where dc: "dc = (d, c)" by (rule prod.exhaust)
      from assms(2) Some g h dc have es': "es' = es1\<lparr>es_out := es_out es1 @ [(d, c, event_doc e, ok)]\<rparr>"
        by (auto simp: WriteMongoDB_def Let_def)
      with G h dc Some show ?thesis by (auto simp: written_def handles_ok_def)
    qed
  qed
  then show "handles_ok es'" "es_db es' = es_db es" "es_connect_time es' = es_connect_time es"
    "\<exists>new. es_out es' = es_out es @ new \<and> written env (es_db es) buf new" by simp_all
qed

subsection \<open>Where the documents go\<close>

text \<open>A document of the turn: datagram \<open>i\<close> was an event, this is its document, and the database is of the day
  of the turn's begin or of the time at which a datagram up to \<open>i\<close> was received.\<close>

definition entry_ok :: "event_env \<Rightarrow> int \<Rightarrow> datagram list \<Rightarrow> mongo_insert \<Rightarrow> bool" where
  "entry_ok env now dgs x \<longleftrightarrow> (case x of (d, c, doc, r) \<Rightarrow>
     \<exists>i t b e. i < length dgs \<and> dgs ! i = (t, Some b) \<and> mo_parse env (take MAX_EVENT_BUF_LEN b) = Some e
       \<and> c = c_str (ev_name e) \<and> doc = event_doc e \<and> (\<exists>u\<in>set (now # map fst (take (Suc i) dgs)). d = db_of_day env u))"

lemma entry_okI:
  assumes "mo_parse env (take MAX_EVENT_BUF_LEN b) = Some e" "\<exists>u\<in>set (now # map fst (pre @ [(t, Some b)])). d = db_of_day env u"
  shows "entry_ok env now (pre @ (t, Some b) # dgs) (d, c_str (ev_name e), event_doc e, r)"
  unfolding entry_ok_def prod.case
  by (intro exI [of _ "length pre"] exI [of _ t] exI [of _ b] exI [of _ e]) (use assms in \<open>simp add: nth_append\<close>)

lemma write_entries:
  assumes "of_days env (set (now # map fst (pre @ [(t, Some b)]))) es" "event_ok env es"
    and "WriteMongoDB env (take MAX_EVENT_BUF_LEN b) es = (ok, es')"
  shows "of_days env (set (now # map fst (pre @ [(t, Some b)]))) es'" "event_ok env es'"
    "\<exists>new. es_out es' = es_out es @ new \<and> (\<forall>x\<in>set new. entry_ok env now (pre @ (t, Some b) # dgs) x)"
proof -
  have h: "handles_ok es" using assms(1) by (simp add: of_days_def)
  note W = WriteMongoDB_ok [OF h assms(3)]
  show "of_days env (set (now # map fst (pre @ [(t, Some b)]))) es'" "event_ok env es'"
    using assms(1,2) W(1-3) by (simp_all add: of_days_def event_ok_def)
  from W(4) obtain new where new: "es_out es' = es_out es @ new" "written env (es_db es) (take MAX_EVENT_BUF_LEN b) new" by blast
  have "entry_ok env now (pre @ (t, Some b) # dgs) x" if in_new: "x \<in> set new" for x
  proof -
    obtain e d r where x: "mo_parse env (take MAX_EVENT_BUF_LEN b) = Some e" "es_db es = Some d" "x = (d, c_str (ev_name e), event_doc e, r)"
      using new(2) in_new by (auto simp: written_def)
    have "\<exists>u\<in>set (now # map fst (pre @ [(t, Some b)])). d = db_of_day env u" using assms(1) x(2) unfolding of_days_def by blast
    then show ?thesis unfolding x(3) by (rule entry_okI [OF x(1)])
  qed
  with new(1) show "\<exists>new. es_out es' = es_out es @ new \<and> (\<forall>x\<in>set new. entry_ok env now (pre @ (t, Some b) # dgs) x)" by blast
qed

lemma deal_entries:
  assumes "of_days env (set (now # map fst pre)) es" "event_ok env es" "\<forall>dg\<in>set dgs. clock_ok (fst dg)"
  shows "event_ok env (snd (deal_loop env i dgs es))
    \<and> (\<exists>new. es_out (snd (deal_loop env i dgs es)) = es_out es @ new \<and> (\<forall>x\<in>set new. entry_ok env now (pre @ dgs) x))"
  using assms
proof (induction env i dgs es arbitrary: pre rule: deal_loop.induct)
  case (1 env i t b bs dgs es)
  let ?pre = "pre @ [(t, Some (b # bs))]" and ?all = "pre @ (t, Some (b # bs)) # dgs"
  have t: "clock_ok t" and rest: "\<forall>dg\<in>set dgs. clock_ok (fst dg)" using "1.prems"(3) by simp_all
  have more: "\<exists>new. out2 = out @ new \<and> (\<forall>x\<in>set new. entry_ok env now ?all x)"
    if "\<exists>new. out1 = out @ new \<and> (\<forall>x\<in>set new. entry_ok env now ?all x)" "\<exists>new. out2 = out1 @ new \<and> (\<forall>x\<in>set new. entry_ok env now ?all x)"
    for out out1 out2 using that by (metis UnE append_assoc set_append)
  have d0: "of_days env (set (now # map fst ?pre)) es" using "1.prems"(1) by (rule of_days_mono) auto
  obtain ok es1 where w: "WriteMongoDB env (take MAX_EVENT_BUF_LEN (b # bs)) es = (ok, es1)" by (rule prod.exhaust)
  note W = write_entries [OF d0 "1.prems"(2) w]
  show ?case
  proof (cases ok)
    case True
    from "1.IH"(1) [OF refl w [symmetric] refl True W(1,2) rest] show ?thesis
      using more [OF W(3)] w True by simp
  next
    case False
    obtain ok2 es2 where c: "Connect env t (DisConnect es1) = (ok2, es2)" by (rule prod.exhaust)
    have C: "of_days env {t} es2" "event_ok env es2" "es_out es2 = es_out es1"
      using Connect_of_day [where env = env and now = t and es = "DisConnect es1"] t c by simp_all
    have d2: "of_days env (set (now # map fst ?pre)) es2" by (rule of_days_mono [OF C(1)]) simp
    obtain ok3 es3 where w3: "WriteMongoDB env (take MAX_EVENT_BUF_LEN (b # bs)) es2 = (ok3, es3)" by (rule prod.exhaust)
    note W3 = write_entries [OF d2 C(2) w3]
    show ?thesis
    proof (cases ok2)
      case True
      have "of_days env (set (now # map fst ?pre)) (snd (WriteMongoDB env (take MAX_EVENT_BUF_LEN (b # bs)) es2))"
        "event_ok env (snd (WriteMongoDB env (take MAX_EVENT_BUF_LEN (b # bs)) es2))" using W3(1,2) w3 by simp_all
      from "1.IH"(2) [OF refl w [symmetric] refl False c [symmetric] _ this rest] True w3
      have "event_ok env (snd (deal_loop env i dgs es3))
        \<and> (\<exists>new. es_out (snd (deal_loop env i dgs es3)) = es_out es3 @ new \<and> (\<forall>x\<in>set new. entry_ok env now ?all x))" by simp
      then show ?thesis using more [OF more [OF W(3) W3(3) [unfolded C(3)]]] w False c True w3 by simp
    next
      case f: False
      from "1.IH"(3) [OF refl w [symmetric] refl False c [symmetric] _ d2 C(2) rest] f show ?thesis
        using more [OF W(3)] w False c C(3) by simp
    qed
  qed
qed simp_all

text \<open>The connection of the last turn is kept only on the same date.\<close>

lemma CheckChangeDay_ok:
  assumes "event_ok env es" "no_dst off (mo_zone env)" "clock_ok now"
  shows "of_days env {now} (CheckChangeDay env now es)" "event_ok env (CheckChangeDay env now es)"
    "es_out (CheckChangeDay env now es) = es_out es"
proof -
  have "of_days env {now} es" if "GetDiffDays (mo_zone env) now (es_connect_time es) = 0"
    using assms(1) GetDiffDays_no_dst(3) [OF assms(2,3) _ that] by (simp add: event_ok_def of_days_def db_of_day_def)
  with assms(1,3) Connect_of_day [where env = env and now = now and es = "DisConnect es"]
  show "of_days env {now} (CheckChangeDay env now es)" "event_ok env (CheckChangeDay env now es)"
    "es_out (CheckChangeDay env now es) = es_out es"
    by (simp_all add: CheckChangeDay_def)
qed

text \<open>Property C26. In a zone without daylight saving and before the year 10000: whatever is written in a turn is the document of a datagram received
  in the turn, in the collection of its event, in the database of the day of the turn's begin or, when the server has had to
  connect again in the turn, of the day of the time at which this datagram or one before it in the
  turn was received. So as long as midnight does not fall into the turn it is the turn's day. This
  holds whatever MongoDB answers, across failures, reconnections and midnights between the turns.\<close>

theorem event_day:
  assumes "event_ok env es" "no_dst off (mo_zone env)" "clock_ok now" "\<forall>dg\<in>set dgs. clock_ok (fst dg)"
  shows "\<exists>new. es_out (event_turn (env, now, dgs) es) = es_out es @ new \<and> (\<forall>x\<in>set new. entry_ok env now dgs x)
    \<and> event_ok env (event_turn (env, now, dgs) es)"
  using deal_entries [where pre = "[]" and now = now and i = 16, OF _ CheckChangeDay_ok(2) [OF assms(1-3)] assms(4)] CheckChangeDay_ok(1,3) [OF assms(1-3)]
  by (auto simp: event_turn_def DealNetWork_def)

subsection \<open>Nothing lost, nothing doubled\<close>

definition mongo_up :: "event_env \<Rightarrow> bool" where
  "mongo_up env \<longleftrightarrow> mo_url_ok env \<and> (\<forall>d. mo_db_ok env d) \<and> (\<forall>d c. mo_coll_ok env d c) \<and> (\<forall>out d c doc. mo_insert env out d c doc)"

definition record_of :: "string \<Rightarrow> pb_event \<Rightarrow> mongo_insert" where
  "record_of d e = (d, c_str (ev_name e), event_doc e, True)"

lemma write_up:
  assumes "mongo_up env" "handles_ok es" "es_db es = Some d" "mo_parse env buf = Some e"
  shows "\<exists>es'. WriteMongoDB env buf es = (True, es') \<and> handles_ok es' \<and> es_db es' = Some d \<and> es_out es' = es_out es @ [record_of d e]"
proof -
  obtain ok es' where w: "WriteMongoDB env buf es = (ok, es')" by (rule prod.exhaust)
  obtain h es1 where g: "GetMongoCollection env (ev_name e) es = (h, es1)" by (rule prod.exhaust)
  have "h \<noteq> None"
  proof (cases "map_of (es_colls es) (ev_name e)")
    case None
    with g assms(1,3) show ?thesis by (auto simp: GetMongoCollection_def mongo_up_def)
  next
    case (Some x)
    with g have "h = Some x" by (simp add: GetMongoCollection_def)
    then show ?thesis by simp
  qed
  then obtain d' c where h: "h = Some (d', c)" by auto
  from GetMongoCollection_ok(4) [OF assms(2) g] GetMongoCollection_ok(5) [OF assms(2) g h] assms(1,3,4) g h w WriteMongoDB_ok(1,2) [OF assms(2) w]
  show ?thesis by (auto simp: WriteMongoDB_def mongo_up_def record_of_def Let_def)
qed

text \<open>The datagrams of a turn as \<open>recvfrom\<close> gives them: time and bytes.\<close>

definition arrivals :: "(int \<times> byte list) list \<Rightarrow> datagram list" where
  "arrivals tbs = map (\<lambda>(t, b). (t, Some b)) tbs"

definition reads_as :: "event_env \<Rightarrow> int \<times> byte list \<Rightarrow> pb_event \<Rightarrow> bool" where
  "reads_as env tb e \<longleftrightarrow> snd tb \<noteq> [] \<and> mo_parse env (take MAX_EVENT_BUF_LEN (snd tb)) = Some e"

lemma deal_up:
  assumes "mongo_up env" "handles_ok es" "es_db es = Some d" "list_all2 (reads_as env) tbs events"
  shows "fst (deal_loop env i (arrivals tbs) es) = arrivals (drop i tbs)
    \<and> es_out (snd (deal_loop env i (arrivals tbs) es)) = es_out es @ map (record_of d) (take i events)"
  using assms(2-)
proof (induction tbs arbitrary: es events i)
  case Nil
  then show ?case by (cases i) (simp_all add: arrivals_def)
next
  case (Cons tb tbs)
  show ?case
  proof (cases i)
    case 0
    then show ?thesis by (simp add: arrivals_def split_beta)
  next
    case (Suc j)
    obtain t b where tb: "tb = (t, b)" by (rule prod.exhaust)
    from Cons.prems(3) obtain e es1 where "events = e # es1" "reads_as env tb e" "list_all2 (reads_as env) tbs es1"
      by (auto simp: list_all2_Cons1)
    moreover from this(2) tb obtain c cs where "b = c # cs" by (auto simp: reads_as_def neq_Nil_conv)
    ultimately have l: "events = e # es1" "b = c # cs" "mo_parse env (take MAX_EVENT_BUF_LEN b) = Some e"
      "list_all2 (reads_as env) tbs es1" by (simp_all add: reads_as_def tb)
    obtain x where x: "WriteMongoDB env (take MAX_EVENT_BUF_LEN b) es = (True, x)" "handles_ok x" "es_db x = Some d"
      "es_out x = es_out es @ [record_of d e]" using write_up [OF assms(1) Cons.prems(1,2) l(3)] by blast
    have "arrivals (tb # tbs) = (t, Some (c # cs)) # arrivals tbs" by (simp add: arrivals_def tb l(2))
    with Cons.IH [OF x(2,3) l(4), of j] x(4) x(1) [unfolded l(2)] show ?thesis by (simp add: l(1) Suc)
  qed
qed

text \<open>Property C29. While MongoDB works and the server is connected, in a zone without daylight saving and before the year 10000: however many datagrams have
  arrived, at whatever times, if all are events then a turn records each of the first sixteen exactly once, in the order
  of their arrival, in the database of the turn's day, whether the day has changed since the last turn or not; the others are
  left for the next turn.\<close>

theorem events_recorded:
  assumes "event_ok env es" "es_db es \<noteq> None" "mongo_up env" "no_dst off (mo_zone env)" "clock_ok now"
    and "list_all2 (reads_as env) tbs events"
  shows "es_out (event_turn (env, now, arrivals tbs) es) = es_out es @ map (record_of (db_of_day env now)) (take 16 events)
    \<and> fst (DealNetWork env (arrivals tbs) (CheckChangeDay env now es)) = arrivals (drop 16 tbs)"
proof -
  let ?es = "CheckChangeDay env now es"
  note C = CheckChangeDay_ok [OF assms(1,4,5)]
  have "es_db ?es \<noteq> None" using assms(2,3) by (simp add: CheckChangeDay_def Connect_def mongo_up_def Let_def)
  with C(1) have "handles_ok ?es" "es_db ?es = Some (db_of_day env now)" by (auto simp: of_days_def)
  from deal_up [OF assms(3) this assms(6)] C(3) show ?thesis by (simp add: event_turn_def DealNetWork_def)
qed

text \<open>A datagram that is no event costs the connection and all handles.\<close>

lemma unparsable_reconnects:
  assumes "b \<noteq> []" "mo_parse env (take MAX_EVENT_BUF_LEN b) = None"
  shows "snd (DealNetWork env [(t, Some b)] es) = snd (Connect env t (DisConnect es))"
proof -
  obtain c cs where b: "b = c # cs" using assms(1) by (cases b) auto
  have nil: "deal_loop env i [] x = ([], x)" for i x by (cases i) simp_all
  have "snd (deal_loop env (Suc i) [(t, Some b)] es) = snd (Connect env t (DisConnect es))" for i
    using assms(2) unfolding b by (simp add: WriteMongoDB_def nil split: prod.split bool.split)
  from this [of 15] show ?thesis by (simp add: DealNetWork_def)
qed

text \<open>On the day after one of 23 hours the server goes on in the database of the day before.\<close>

lemma short_day_missed:
  assumes "es_connect_time es \<le> now"
    and "mktime (mo_zone env) (tm_midnight (localtime (mo_zone env) now))
      = mktime (mo_zone env) (tm_midnight (localtime (mo_zone env) (es_connect_time es))) + 82800"
  shows "CheckChangeDay env now es = es"
proof -
  have "GetDiffDays (mo_zone env) now (es_connect_time es) = GetDiffDays (mo_zone env) (es_connect_time es) now"
    by (simp add: GetDiffDays_def min.commute max.commute)
  then show ?thesis using GetDiffDays_short_day [OF assms] by (simp add: CheckChangeDay_def)
qed

subsection \<open>A server at work\<close>

text \<open>Greenwich, and a parser that reads every datagram as an event of its first byte.\<close>

definition event_env0 :: event_env where
  "event_env0 = \<lparr>mo_db_name = ''event'', mo_url_ok = True, mo_db_ok = (\<lambda>_. True), mo_coll_ok = (\<lambda>_ _. True),
     mo_insert = (\<lambda>_ _ _ _. True), mo_parse = (\<lambda>bs. Some \<lparr>ev_name = ''gold'', ev_num_fields = [(''num'', ucast (hd bs))], ev_str_fields = []\<rparr>),
     mo_zone = utc\<rparr>"

lemma utc_days: "GetYYYYMMDD utc 100 = ''_1970_01_01''" "GetYYYYMMDD utc 90000 = ''_1970_01_02''"
  by (simp_all add: GetYYYYMMDD_def utc_def fmt_d_def fmt_02d_def decimal.simps digit_def month_days_def char_of_def bit_0 Let_def)

definition event_svr0 :: event_svr where
  "event_svr0 = snd (Initialize_event True True True event_env0 100 \<lparr>es_connect_time = 0, es_client = False, es_db = None, es_colls = [], es_out = []\<rparr>)"

lemma event_svr0_ok: "event_ok event_env0 event_svr0" "es_db event_svr0 = Some ''event_1970_01_01''" "es_out event_svr0 = []"
  by (simp_all add: event_svr0_def Initialize_event_def Connect_def event_env0_def event_ok_def of_days_def handles_ok_def
      db_of_day_def utc_days clock_ok_def Let_def)

lemma event_day_witness:
  "\<exists>new. es_out (event_turn (event_env0, 90000, [(90000, Some [7]), (180000, None)]) event_svr0) = new
     \<and> (\<forall>x\<in>set new. entry_ok event_env0 90000 [(90000, Some [7]), (180000, None)] x)"
  using event_day [OF event_svr0_ok(1), of 0 90000 "[(90000, Some [7]), (180000, None)]"] event_svr0_ok(3) utc_no_dst
  by (auto simp: event_env0_def clock_ok_def)

lemma events_recorded_witness:
  "es_out (event_turn (event_env0, 90000, arrivals [(90000, [7]), (180000, [8, 1])]) event_svr0)
   = [(''event_1970_01_02'', ''gold'', [(''num'', B_Int64 7)], True), (''event_1970_01_02'', ''gold'', [(''num'', B_Int64 8)], True)]"
  using events_recorded [OF event_svr0_ok(1), of 0 90000 "[(90000, [7]), (180000, [8, 1])]" "map (the \<circ> mo_parse event_env0 \<circ> snd) [(90000, [7]), (180000, [8, 1])]"]
    event_svr0_ok(2,3) utc_no_dst
  by (simp add: event_env0_def mongo_up_def record_of_def event_doc_def c_str_def db_of_day_def reads_as_def clock_ok_def utc_days)

end
