(* ===== verification/EdgeServers.thy ===== *)
theory EdgeServers
  imports FrameStart ConnectWs GameShell
begin

text \<open>
  The start and the loop of the servers at the edges: svr/connectsvr, svr/connectwssvr and
  svr/proxysvr. Their pools, buffers and messages are in ConnectServer, ConnectWs and ProxyServer. The
  lemmas show that a connect server and its logic server come to the same pipes whichever of them
  starts first, and that the loop of the proxy stays within the runs ProxyServer speaks of.
\<close>

subsection \<open>Start\<close>

text \<open>The connect servers cannot do without the pipes.\<close>

definition conn_InitCsShmPipe :: "shm_sys \<Rightarrow> u32 \<times> nat \<Rightarrow> u32 \<times> nat \<Rightarrow> shm_world \<Rightarrow> ((shm_pipe \<times> shm_pipe) option \<times> shm_world) outcome" where
  "conn_InitCsShmPipe sys cs sc shm =
     (if fst cs = 0 \<or> fst sc = 0 then Ret (None, shm)
      else and_then (init_pair sys cs sc shm) (\<lambda>(_, pipes, shm1). Ret (pipes, shm1)))"

text \<open>The system's answers: the lock, the configuration, the listening socket with its options, the poll set; and
  the time of the first turn, when the static of the heart beat check is set.\<close>

record edge_boot =
  eb_alone :: bool
  eb_conf :: "conn_conf option"
  eb_listens :: bool
  eb_epoll :: bool
  eb_sys :: shm_sys
  eb_cs :: "u32 \<times> nat"
  eb_sc :: "u32 \<times> nat"
  eb_first_turn :: u32

definition no_pipe :: shm_pipe where
  "no_pipe = \<lparr>sp_begin = 0, sp_end = 0, sp_size = 0, sp_buf = []\<rparr>"

text \<open>\<open>Initialize\<close> of both: \<open>net\<close> is \<open>InitNetwork\<close> without the system calls, \<open>set_pipes\<close> puts the pipes in.\<close>

definition edge_Initialize :: "(conn_conf \<Rightarrow> 's outcome option) \<Rightarrow> (shm_pipe \<times> shm_pipe \<Rightarrow> 's \<Rightarrow> 's) \<Rightarrow> edge_boot \<Rightarrow> shm_world
    \<Rightarrow> (int \<times> 's option \<times> shm_world) outcome option" where
  "edge_Initialize net set_pipes b shm =
     (if \<not> eb_alone b then Some (Ret (- 100, None, shm))
      else case eb_conf b of
        None \<Rightarrow> Some (Ret (- 1, None, shm))
      | Some conf \<Rightarrow>
          if cc_max_client_num conf = 0 then Some (Ret (- 1, None, shm))
          else if \<not> eb_listens b then Some (Ret (- 2, None, shm))
          else bind_turn (net conf) (\<lambda>s.
            if \<not> eb_epoll b then Some (Ret (- 2, None, shm))
            else Some (and_then (conn_InitCsShmPipe (eb_sys b) (eb_cs b) (eb_sc b) shm) (\<lambda>(pipes, shm1). case pipes of
                None \<Rightarrow> Ret (- 3, None, shm1)
              | Some p \<Rightarrow> Ret (0, Some (set_pipes p s), shm1)))))"

definition cs_Initialize :: "edge_boot \<Rightarrow> shm_world \<Rightarrow> (int \<times> conn_svr option \<times> shm_world) outcome option" where
  "cs_Initialize b shm =
     edge_Initialize (\<lambda>conf. cs_InitNetwork \<lparr>cv_conf = conf, cv_pool = [], cv_free = [], cv_cs_pipe = no_pipe, cv_sc_pipe = no_pipe,
                                 cv_heart = eb_first_turn b\<rparr>)
       (\<lambda>(cp, sp) cv. cv\<lparr>cv_cs_pipe := cp, cv_sc_pipe := sp\<rparr>) b shm"

definition ws_Initialize :: "(nat \<Rightarrow> byte list) \<Rightarrow> edge_boot \<Rightarrow> shm_world \<Rightarrow> (int \<times> ws_svr option \<times> shm_world) outcome option" where
  "ws_Initialize heap b shm =
     edge_Initialize (\<lambda>conf. ws_InitNetwork heap \<lparr>wv_conf = conf, wv_pool = [], wv_free = [], wv_cs_pipe = no_pipe, wv_sc_pipe = no_pipe,
                                 wv_heart = eb_first_turn b\<rparr>)
       (\<lambda>(cp, sp) wv. wv\<lparr>wv_cs_pipe := cp, wv_sc_pipe := sp\<rparr>) b shm"

definition proxy_Initialize :: "bool \<Rightarrow> (u32 \<times> nat) list option \<Rightarrow> bool \<Rightarrow> bool \<Rightarrow> u32 \<Rightarrow> (int \<times> proxy_svr option) outcome option" where
  "proxy_Initialize alone conf listens epoll svr_id =
     (if \<not> alone then Some (Ret (- 100, None))
      else case conf of
        None \<Rightarrow> Some (Ret (- 1, None))
      | Some svrs \<Rightarrow>
          if sum_list (map snd svrs) mod 2 ^ 32 = 0 then Some (Ret (- 1, None))
          else if \<not> listens then Some (Ret (- 2, None))
          else bind_turn (ProxyServer_Init svr_id svrs) (\<lambda>ps.
            if \<not> epoll then Some (Ret (- 2, None)) else Some (Ret (0, Some ps))))"

subsection \<open>The loop\<close>

text \<open>The flag is looked at before the turn; \<open>signals\<close> are those that have arrived since. The result says
  whether the server is still running after the given turns.\<close>

fun edge_run :: "('t \<Rightarrow> 's \<Rightarrow> 's outcome option) \<Rightarrow> (u32 \<times> 't) list \<Rightarrow> u32 \<Rightarrow> 's \<Rightarrow> (bool \<times> 's) outcome option" where
  "edge_run step [] flag s = Some (Ret (True, s))"
| "edge_run step ((signals, t) # ts) flag s =
     (if (flag OR signals) AND 1 \<noteq> 0 then Some (Ret (False, s))
      else bind_turn (step t s) (edge_run step ts (flag OR signals)))"

text \<open>An event of the poll set: the time, what \<open>accept\<close> answers and the position, which \<open>SocketGet\<close> may refuse.\<close>

definition cs_DealNetwork :: "(u64 \<times> cli_accept \<times> nat) list \<Rightarrow> conn_svr \<Rightarrow> conn_svr outcome option" where
  "cs_DealNetwork = shell_run (\<lambda>(now, a, pos) cv.
     if pos < length (cv_pool cv) then cs_DealNetwork_one now a pos cv else Some (Ret cv))"

definition cs_turn :: "u64 \<times> (u64 \<times> cli_accept \<times> nat) list \<times> u64 \<Rightarrow> conn_svr \<Rightarrow> conn_svr outcome option" where
  "cs_turn t cv = (case t of (now, evs, now1) \<Rightarrow>
     bind_turn (Some (cs_OnRoutineCheck now cv)) (\<lambda>cv1.
     bind_turn (cs_DealNetwork evs cv1) (\<lambda>cv2. Some (SendClientData now1 cv2))))"

definition ws_DealNetwork :: "sha1 \<Rightarrow> byte list \<Rightarrow> (u64 \<times> cli_accept \<times> nat) list \<Rightarrow> ws_svr \<Rightarrow> ws_svr outcome option" where
  "ws_DealNetwork stack tail = shell_run (\<lambda>(now, a, pos) wv.
     if pos < length (wv_pool wv) then ws_DealNetwork_one stack tail now a pos wv else Some (Ret wv))"

definition ws_turn :: "sha1 \<Rightarrow> byte list \<Rightarrow> u64 \<times> (u64 \<times> cli_accept \<times> nat) list \<times> u64 \<Rightarrow> ws_svr \<Rightarrow> ws_svr outcome option" where
  "ws_turn stack tail t wv = (case t of (now, evs, now1) \<Rightarrow>
     bind_turn (Some (ws_OnRoutineCheck now wv)) (\<lambda>wv1.
     bind_turn (ws_DealNetwork stack tail evs wv1) (\<lambda>wv2. Some (ws_SendClientData now1 wv2))))"

definition proxy_event :: "accept_env \<times> byte list \<times> nat \<Rightarrow> proxy_svr \<Rightarrow> proxy_svr outcome option" where
  "proxy_event e ps = (case e of (a, stale, pos) \<Rightarrow>
     if pos < length (ps_pool ps) then DealNetwork_one a stale pos ps else Some (Ret ps))"

definition proxy_DealNetwork :: "(accept_env \<times> byte list \<times> nat) list \<Rightarrow> proxy_svr \<Rightarrow> proxy_svr outcome option" where
  "proxy_DealNetwork = shell_run proxy_event"

text \<open>\<open>types\<close>: the server types in the order the proxy's table walks them.\<close>

definition proxy_turn :: "u32 list \<Rightarrow> (accept_env \<times> byte list \<times> nat) list \<Rightarrow> proxy_svr \<Rightarrow> proxy_svr outcome option" where
  "proxy_turn types evs ps = proxy_DealNetwork evs (flush_all types ps)"

definition cs_run :: "(u32 \<times> u64 \<times> (u64 \<times> cli_accept \<times> nat) list \<times> u64) list \<Rightarrow> u32 \<Rightarrow> conn_svr \<Rightarrow> (bool \<times> conn_svr) outcome option" where
  "cs_run = edge_run cs_turn"

definition ws_run :: "sha1 \<Rightarrow> byte list \<Rightarrow> (u32 \<times> u64 \<times> (u64 \<times> cli_accept \<times> nat) list \<times> u64) list \<Rightarrow> u32 \<Rightarrow> ws_svr
    \<Rightarrow> (bool \<times> ws_svr) outcome option" where
  "ws_run stack tail = edge_run (ws_turn stack tail)"

definition proxy_loop :: "u32 list \<Rightarrow> (u32 \<times> (accept_env \<times> byte list \<times> nat) list) list \<Rightarrow> u32 \<Rightarrow> proxy_svr \<Rightarrow> (bool \<times> proxy_svr) outcome option" where
  "proxy_loop types = edge_run (proxy_turn types)"

subsection \<open>What every turn keeps holds in the whole loop\<close>

lemma shell_run_invariant:
  assumes "\<And>e s s'. P s \<Longrightarrow> step e s = Some (Ret s') \<Longrightarrow> P s'"
  shows "P s \<Longrightarrow> shell_run step es s = Some (Ret s') \<Longrightarrow> P s'"
  by (induction es arbitrary: s) (auto split: option.splits outcome.splits intro: assms)

lemma edge_run_invariant:
  assumes "\<And>t s s'. P s \<Longrightarrow> step t s = Some (Ret s') \<Longrightarrow> P s'"
  shows "P s \<Longrightarrow> edge_run step ts flag s = Some (Ret (b, s')) \<Longrightarrow> P s'"
proof (induction ts arbitrary: flag s)
  case (Cons t ts)
  obtain sg x where t: "t = (sg, x)" by (rule prod.exhaust)
  show ?case
  proof (cases "(flag OR sg) AND 1 = 0")
    case True
    with Cons.prems(2) t obtain s1 where "step x s = Some (Ret s1)" "edge_run step ts (flag OR sg) s1 = Some (Ret (b, s'))"
      by (auto simp: bind_turn_Ret)
    with Cons.IH assms Cons.prems(1) show ?thesis by blast
  next
    case False
    with Cons.prems t show ?thesis by simp
  qed
qed simp

text \<open>The loop of the proxy, from its start on, is one of the runs for which ProxyServer shows that no slot is
  ever lost.\<close>

lemma proxy_loop_runs:
  assumes "proxy_Initialize alone (Some conf) listens epoll sid = Some (Ret (ret, Some ps))"
    and "proxy_loop types ts flag ps = Some (Ret (b, ps'))"
  shows "proxy_run sid conf ps'"
proof -
  have "ProxyServer_Init sid conf = Some (Ret ps)"
    using assms(1) by (auto simp: proxy_Initialize_def bind_turn_Ret split: if_splits)
  then have "proxy_run sid conf ps" by (rule proxy_run.start)
  moreover have "proxy_run sid conf s'" if "proxy_run sid conf s" "proxy_turn types evs s = Some (Ret s')" for evs s s'
  proof -
    have one: "proxy_run sid conf u'" if "proxy_run sid conf u" "proxy_event e u = Some (Ret u')" for e u u'
      using that by (cases e) (auto simp: proxy_event_def split: if_splits dest: proxy_run.event)
    have "shell_run proxy_event evs (flush_all types s) = Some (Ret s')"
      using that(2) by (simp add: proxy_turn_def proxy_DealNetwork_def)
    from shell_run_invariant [where step = proxy_event and P = "proxy_run sid conf", OF one proxy_run.flush [OF that(1)] this]
    show ?thesis .
  qed
  ultimately show ?thesis
    using edge_run_invariant [of "proxy_run sid conf" "proxy_turn types"] assms(2) unfolding proxy_loop_def by blast
qed

subsection \<open>The two ends of the pipes\<close>

lemma attach_again:
  assumes "attach_seg sys key n shm = (exist, Some seg, shm1)" "new_pipe exist seg = Ret p" "sy_attach sys' key"
  shows "attach_seg sys' key n' shm1 = (True, Some seg, shm1)" "new_pipe True seg = Ret p" "shm1 key = Some seg"
proof -
  show k: "shm1 key = Some seg" using assms(1) by (auto simp: attach_seg_def Let_def split: if_splits)
  then show "attach_seg sys' key n' shm1 = (True, Some seg, shm1)"
    using assms(3) by (simp add: attach_seg_def ShareMem_IsExist_def)
  show "new_pipe True seg = Ret p"
  proof (cases exist)
    case True
    with assms(2) show ?thesis by simp
  next
    case False
    with assms(1) k have "seg = replicate n 0"
      by (auto simp: attach_seg_def ShareMem_IsExist_def ShareMem_Create_def Let_def split: if_splits)
    moreover have "of_le (replicate k 0) = 0" for k using of_le_zeros [of k "[]"] by simp
    ultimately have z: "sp_begin (pipe_of seg) = 0" "sp_end (pipe_of seg) = 0" by (simp_all add: pipe_of_def take_replicate)
    then have "Initialize (pipe_of seg) = Reuse (pipe_of seg)" by (cases "pipe_of seg") (simp add: Initialize_def Reuse_def)
    with assms(2) False show ?thesis by (auto simp: new_pipe_def ShmPipe_ctor_def split: if_splits)
  qed
qed

lemma attach_keeps: "attach_seg sys key n shm = (exist, mem, shm1) \<Longrightarrow> shm k = Some seg \<Longrightarrow> shm1 k = Some seg"
  by (auto simp: attach_seg_def ShareMem_IsExist_def ShareMem_Create_def Let_def split: if_splits option.splits)



end
