(* ===== verification/Spec2Isabelle.thy ===== *)
theory Spec2Isabelle
  imports ShmPipe Managers DataCommon HandlerBase LevelDb ClientPath LipstickProps Promoter ConnectWsProps MachineServer WebData
    DbShell FrameStart EventServer EdgeServers
begin

text \<open>
  A model of the game servers of this repository, with the theorems that make them correct.

  \<^bold>\<open>The program.\<close> The program is a set of processes. Arcade machines and phones connect by TCP
  (svr/connectsvr) or web socket (svr/connectwssvr). A connect server cuts their streams into packages and
  hands them to the logic server beside it through a ring buffer in shared memory
  (core/src/shm_pipe.cpp). A logic server is the frame of core/src/frame_server.cpp with a \<open>GameServer\<close> of
  its own: the game server (svr/lipsticksvr), the server machines log in to (svr/machinesvr), the server
  of the web pages (svr/websvr), of the promoters (svr/promotersvr) and the database server
  (svr/dbproxysvr, on LevelDB). Logic servers talk to one another through the proxies (svr/proxysvr;
  their end is core/src/proxy_manager.h) and send account events by UDP to svr/eventsvr, which
  writes them to MongoDB. A message is handled by a session (common/): it asks the database server for
  the parts it needs, works on them, saves them with their versions and starts over when another
  session saved first. Sessions, timers, players and machines live in fixed pools that are written
  to shared memory at the exit and read back at the start.

  \<^bold>\<open>Shared ground.\<close> Prelude has the machine types, \<open>outcome\<close> (a value or a fault of the process),
  bytes of integers and the lemmas on lists and wrap-around. Proto and Messages have the data:
  core/src/net_head.h and proto/*.proto as records and datatypes; the generated accessors of
  optional fields are the functions \<open>get0\<close>, \<open>mut\<close> and \<open>getF\<close>. Integers keep their width
  (\<open>u8\<close> to \<open>u64\<close>), so sums wrap as in the code; sizes, positions and lengths that cannot wrap are
  \<open>nat\<close>, with \<open>wrap32\<close> where the code computes in 32 bits. A recursive function with \<open>option\<close> as
  its outer type is a loop of the code that may run forever (\<open>partial_function\<close>): \<open>None\<close> is not
  returning, and the theorems on it show \<open>Some\<close>. No theorem rests on fuel: the loops of a given
  number of turns take it from the code (\<open>msg_shm_size\<close>, 16 datagrams, \<open>max_send_client_num\<close>). What the outside
  world does is an argument: the time, the bytes \<open>recv\<close> brings and what \<open>send\<close> takes (\<open>recv_event\<close>,
  \<open>send_event\<close>), whether a system call succeeds, the random numbers, the content of memory that the
  code reads before it sets it (\<open>stack\<close>, \<open>junk\<close>, \<open>stale\<close>, \<open>heap\<close>), and the order in which an
  \<open>unordered_map\<close> is walked (\<open>ord\<close>).

  \<^bold>\<open>Core.\<close>
  \<^item> ShmPipe (core/src/shm_pipe.cpp): the ring as a list of bytes with the index arithmetic of the
    code. \<open>pipe_rep\<close> relates it to a queue of messages; the interpretation \<open>shm\<close> of the locale
    \<open>bounded_queue\<close> is the contract every reader and writer uses. Any interleaving of writes and
    reads is a bounded first-in first-out queue, and no access leaves the buffer.
  \<^item> ObjectManager (include/hpp/object_manager.hpp, share_mem.hpp, serialize.hpp): the pool with its free
    list, its save and its restore; the locale \<open>object_class\<close> is what the pooled classes promise
    (what they write is read back and fills the announced size). KeyedPool: a pool with an index;
    the locales \<open>keyed_store\<close>, \<open>id_store\<close> (ids given out by the store) and \<open>uid_store\<close> (ids of the
    caller). Managers interprets them for the sessions, timers, players and machines of
    common/*_manager.cpp and the four classes: every session slot is free or held by one live
    session, timeouts and timers end exactly those that are due, and a restart finds the sessions again.
  \<^item> MessageBase and HandlerBase (common/message_base.cpp, message_handler_base.cpp): sending, the
    exchange of database parts, and \<open>Process\<close>, the life of a session. What is handed to the frame is
    recorded in \<open>w_out\<close>. \<open>Process\<close> returns for handlers whose steps return and keep their index, a conflicting save
    runs the handler again on the fresh data without the events of the failed attempt, and what is
    saved is what the next query reads.
  \<^item> DataCommon (common/data_common.cpp, common/config.h): gold, coins in machines, prizes and awards;
    every operation keeps the sum of a player's wealth in step with the account events it logs, but for
    a charge that meets no buy-in of its machine: it is logged though nothing is taken (\<open>phantom\<close>).
  \<^item> FrameServer and FrameStart (core/src/frame_server.cpp, event_manager.h): the message queue, the
    dispatch, sending, start, signals, loop and exit. A virtual function of the logic server may fault or not
    return, and so may a turn. Messages in the pipes survive a restart; a queue
    for \<open>n\<close> messages holds \<open>n - 1\<close>.
  \<^item> NetBytes, ProxyServer, ProxyRouting, ProxyManager: the images of the heads, the proxy's slots, its
    routing and the logic servers' end of it. NetBytes has the locale \<open>framing\<close>, the contract of a
    rule that cuts a stream into packages: the result does not depend on how the network cuts the
    stream. It is interpreted for the proxy (\<open>px\<close>), the TCP clients (\<open>csf\<close>) and the web-socket
    clients (\<open>wsf\<close>). Of what is sent over a socket nothing arrives twice or out of order; that nothing is lost
    holds for runs without short sends (\<open>sends_whole\<close>) in which all fits the buffer: the code relies on both, and neither is
    promised (\<open>short_send_loses\<close>).
  \<^item> ConnectServer, ConnectWs, ConnectWsProps, Base64, Sha1, EdgeServers: the connect servers with the
    handshake (Sha1 is proved equal to FIPS 180 as a function on messages), and start and loop of
    the connect servers and the proxy. The streams of clients arrive whole as long as the pipe has room; what a full pipe
    does is \<open>full_buffer_wedged\<close> and \<open>ws_full_pipe_drops\<close>. ServerOnFrame puts the lipstick server on the frame: its entry
    points are the frame's virtual functions (\<open>lip_virtuals\<close>), and what a call leaves in \<open>w_out\<close> is handed to the frame (\<open>carry_out\<close>).
    ClientPath composes connect server, pipe, frame and logic server: while pipe and queue have room, every
    package a client sent makes the logic server call its handler once, in order, with the
    package's message and the client's identity, whatever the handlers append to the queue themselves (\<open>orderly\<close>).

  \<^bold>\<open>The logic servers.\<close>
  \<^item> LipstickBase, LipstickLogin, LipstickMachine, LipstickH5, LipstickInternal, LipstickServer:
    svr/lipsticksvr, one definition per handler step (\<open>_OnMessage\<close>, \<open>_OnQuerySuccess\<close>, \<open>_OnSaveSuccess\<close>), the
    filter every client message passes, the handler table and the entry points of \<open>GameServer\<close>.
    LipstickInv and LipstickRun carry the invariants from the single step to \<open>Process\<close> and to every event
    of the server; LipstickProps has the theorems: only the connection that logged in speaks for a
    machine or player, a machine's game goes on only along the arrows of \<open>game_step\<close>, every run of
    events that returns keeps the tables well formed, and a logout settles the coins. A run need not return: steps that
    look their machine or player up again and find it gone access a null pointer, which is \<open>Crash\<close>. \<open>frame_simps\<close> collects what each
    operation leaves alone.
  \<^item> GameShell: what the \<open>GameServer\<close> classes of the other four logic servers share. The locale
    \<open>session_keeper\<close> is the contract between a server's \<open>Process\<close> and its entry points (a good session
    ends its processing in a value and is good when it is kept); \<open>session_server\<close> extends it for servers
    whose sessions stay with their first query. \<open>manager_server\<close> derives it from the handlers.
    Interpretations: \<open>promo\<close> (Promoter, svr/promotersvr), \<open>mach\<close> (MachineServer, svr/machinesvr) and
    \<open>web\<close> (WebProps, on WebServer, svr/websvr). For these three and the database server no run of events faults or
    hangs (for the web server: while no request for data names a uid twice or global data that does not exist). WebData has what the web server's requests do to the data.
  \<^item> LevelDb and DbShell (svr/dbproxysvr): a save of several parts is a compare-and-swap of all of them against the
    versions it finds (for a version that is not known: uninitialised memory, another value for each part); the cached
    version of a part is the one in the database in every run of sane requests (\<open>sane\<close>: no part twice, no chance match
    with that memory); and no run of messages faults or leaves a session, except for messages without a handler. LevelDb also has
    include/hpp/time.hpp, by which the days of databases and of versions are told: \<open>GetYYYYMMDD\<close> and \<open>GetDiffDays\<close>.
  \<^item> EventServer (svr/eventsvr): what is written goes to the database of the day of the turn, or of the time of
    a reconnection within it; while MongoDB works, each of the first sixteen datagrams of a turn is recorded
    once, in order. Both hold in a zone without daylight saving: on a day of 23 hours
    the change of day is missed (\<open>short_day_missed\<close>).

  \<^bold>\<open>Parameters and hypotheses.\<close> The generated protobuf code (parsing, serialized sizes), LevelDB, libmongoc, the
  decryption of OpenSSL and \<open>localtime\<close> and \<open>mktime\<close> of the C library (\<open>zone\<close>) are arguments of the definitions. Their
  documented behaviour is a named hypothesis where a theorem needs it: \<open>ldb_ok\<close> (a read after a write gives
  what was written, serialized data parses back), \<open>mongo_up\<close> (the calls succeed), \<open>no_dst\<close> (the clock of a zone with a fixed
  offset from UTC, with \<open>clock_ok\<close>: years of four digits), \<open>walk_order\<close> (a hash set is walked once over),
  and the codec of the parts in \<open>save_query_roundtrip\<close>. Each has an instance in a witness. Conditions that
  nobody promises but that say which runs a theorem speaks of (\<open>sane\<close>, \<open>sends_whole\<close>, room in pipes, queues and
  buffers) are stated with the theorem.

  \<^bold>\<open>Not modelled.\<close> Logging (log4cplus, include/hpp/proto_log.hpp), the parsing of arguments and of configuration
  files, becoming a daemon, the lock file, signal handlers beyond the bits they set, socket options
  and the calls of epoll: they reach no state of the servers but through the answers that are arguments here.
  The charge and prize rates of common/data_common.cpp and the lottery of svr/lipsticksvr compute in \<open>float\<close>;
  their results are arguments, and no theorem depends on their value. include/hpp/mysql_client.hpp
  and cipher.hpp are thin calls of libraries. svr/_1test and tools are not part of the running
  system. Everything else under include/ is third-party code.
\<close>

end
